(* ===== verification/Prelude.thy ===== *)
theory Prelude
  imports Main "HOL-Library.Word" "HOL-Library.List_Lexorder" "HOL-Library.Char_ord"
    "HOL-Library.Product_Lexorder"
begin

text \<open>
  What every component shares: the machine integers of the Rust sources as words, the checked and
  saturating operations of the standard library on them, results as sums with the error on the
  left, and the string functions of the standard library that the sources call. A Rust
  \<open>String\<close> is its UTF-8 bytes, one \<open>char\<close> per byte, so \<open>length\<close> is \<open>str::len\<close>.
\<close>

section \<open>Collections of facts\<close>

named_theorems arith_facts \<open>what a checked or saturating operation says about the naturals\<close>
named_theorems map_simps \<open>lookups, entries and sums of the ordered maps\<close>
named_theorems frame_simps \<open>fields of the state that an operation leaves alone\<close>

section \<open>Machine integers\<close>

type_synonym byte = "8 word"
type_synonym u8 = "8 word"
type_synonym u16 = "16 word"
type_synonym u32 = "32 word"
type_synonym u64 = "64 word"
type_synonym u128 = "128 word"
type_synonym bytes = "byte list"

definition checked_add :: "'a::len word \<Rightarrow> 'a word \<Rightarrow> 'a word option" where
  "checked_add a b = (if unat a + unat b < 2 ^ LENGTH('a) then Some (a + b) else None)"

definition checked_sub :: "'a::len word \<Rightarrow> 'a word \<Rightarrow> 'a word option" where
  "checked_sub a b = (if b \<le> a then Some (a - b) else None)"

definition checked_mul :: "'a::len word \<Rightarrow> 'a word \<Rightarrow> 'a word option" where
  "checked_mul a b = (if unat a * unat b < 2 ^ LENGTH('a) then Some (a * b) else None)"

definition saturating_add :: "'a::len word \<Rightarrow> 'a word \<Rightarrow> 'a word" where
  "saturating_add a b = (if unat a + unat b < 2 ^ LENGTH('a) then a + b else - 1)"

definition saturating_sub :: "'a::len word \<Rightarrow> 'a word \<Rightarrow> 'a word" where
  "saturating_sub a b = (if b \<le> a then a - b else 0)"

definition saturating_mul :: "'a::len word \<Rightarrow> 'a word \<Rightarrow> 'a word" where
  "saturating_mul a b = (if unat a * unat b < 2 ^ LENGTH('a) then a * b else - 1)"

lemma unat_max_word: "unat (- 1 :: 'a::len word) = 2 ^ LENGTH('a) - 1"
  by (simp add: unsigned_minus_1_eq_mask mask_eq_exp_minus_1)

lemma unat_less: "unat w < 2 ^ LENGTH('a)" for w :: "'a::len word"
  by (rule unsigned_less)

lemma unat_inject: "unat a = unat b \<Longrightarrow> a = b"
  by (simp add: word_unat_eq_iff)

lemma checked_add_Some [arith_facts]:
  "checked_add a b = Some c \<longleftrightarrow> unat c = unat a + unat b"
  for a b c :: "'a::len word"
proof
  assume "checked_add a b = Some c"
  then show "unat c = unat a + unat b"
    by (auto simp: checked_add_def unat_word_ariths split: if_splits)
next
  assume c: "unat c = unat a + unat b"
  then have bound: "unat a + unat b < 2 ^ LENGTH('a)"
    using unat_less [of c] by linarith
  then have "unat (a + b) = unat c"
    using c by (simp add: unat_word_ariths)
  then have "a + b = c" by (rule unat_inject)
  with bound show "checked_add a b = Some c" by (simp add: checked_add_def)
qed

lemma checked_add_None [arith_facts]:
  "checked_add a b = None \<longleftrightarrow> 2 ^ LENGTH('a) \<le> unat a + unat b"
  for a b :: "'a::len word"
  by (auto simp: checked_add_def)

lemma checked_sub_Some [arith_facts]:
  "checked_sub a b = Some c \<longleftrightarrow> unat a = unat b + unat c"
  for a b c :: "'a::len word"
proof
  assume "checked_sub a b = Some c"
  then show "unat a = unat b + unat c"
    by (auto simp: checked_sub_def unat_sub word_le_nat_alt split: if_splits)
next
  assume a: "unat a = unat b + unat c"
  then have le: "b \<le> a" by (simp add: word_le_nat_alt)
  then have "unat (a - b) = unat c" using a by (simp add: unat_sub)
  then have "a - b = c" by (rule unat_inject)
  with le show "checked_sub a b = Some c" by (simp add: checked_sub_def)
qed

lemma checked_sub_None [arith_facts]:
  "checked_sub a b = None \<longleftrightarrow> unat a < unat b"
  for a b :: "'a::len word"
  by (auto simp: checked_sub_def word_le_nat_alt)

lemma checked_mul_Some [arith_facts]:
  "checked_mul a b = Some c \<longleftrightarrow> unat c = unat a * unat b"
  for a b c :: "'a::len word"
proof
  assume "checked_mul a b = Some c"
  then show "unat c = unat a * unat b"
    by (auto simp: checked_mul_def unat_word_ariths split: if_splits)
next
  assume c: "unat c = unat a * unat b"
  then have bound: "unat a * unat b < 2 ^ LENGTH('a)"
    using unat_less [of c] by linarith
  then have "unat (a * b) = unat c"
    using c by (simp add: unat_word_ariths)
  then have "a * b = c" by (rule unat_inject)
  with bound show "checked_mul a b = Some c" by (simp add: checked_mul_def)
qed

lemma unat_saturating_add [arith_facts]:
  "unat (saturating_add a b) = min (unat a + unat b) (2 ^ LENGTH('a) - 1)"
  for a b :: "'a::len word"
  by (auto simp: saturating_add_def unat_word_ariths unat_max_word min_def)

lemma unat_saturating_sub [arith_facts]: "unat (saturating_sub a b) = unat a - unat b"
  by (auto simp: saturating_sub_def unat_sub word_le_nat_alt)

lemma unat_saturating_mul [arith_facts]:
  "unat (saturating_mul a b) = min (unat a * unat b) (2 ^ LENGTH('a) - 1)"
  for a b :: "'a::len word"
proof (cases "unat a * unat b < 2 ^ LENGTH('a)")
  case True
  then show ?thesis by (simp add: saturating_mul_def unat_word_ariths)
next
  case False
  then have "saturating_mul a b = - 1" by (simp only: saturating_mul_def if_False)
  then have "unat (saturating_mul a b) = 2 ^ LENGTH('a) - 1" by (simp only: unat_max_word)
  with False show ?thesis by linarith
qed

section \<open>Results\<close>

text \<open>
  \<open>Result<A, E>\<close> is \<open>E + A\<close>. A method on \<open>&mut self\<close> returns its result paired with the state it
  leaves behind, which on an error is the state at the point of the early return.
\<close>

abbreviation Ok :: "'a \<Rightarrow> 'e + 'a" where "Ok \<equiv> Inr"
abbreviation Err :: "'e \<Rightarrow> 'e + 'a" where "Err \<equiv> Inl"

definition is_ok :: "'e + 'a \<Rightarrow> bool" where
  "is_ok r = (case r of Inl _ \<Rightarrow> False | Inr _ \<Rightarrow> True)"

definition map_err :: "('e \<Rightarrow> 'f) \<Rightarrow> 'e + 'a \<Rightarrow> 'f + 'a" where
  "map_err f r = (case r of Inl e \<Rightarrow> Inl (f e) | Inr a \<Rightarrow> Inr a)"

definition ok_or :: "'a option \<Rightarrow> 'e \<Rightarrow> 'e + 'a" where
  "ok_or x e = (case x of None \<Rightarrow> Inl e | Some a \<Rightarrow> Inr a)"

lemma is_ok_simps [simp]: "\<not> is_ok (Inl e)" "is_ok (Inr a)"
  by (simp_all add: is_ok_def)

lemma is_ok_ex: "is_ok r \<longleftrightarrow> (\<exists>a. r = Inr a)"
  by (cases r) auto

lemma map_err_simps [simp]: "map_err f (Inl e) = Inl (f e)" "map_err f (Inr a) = Inr a"
  by (simp_all add: map_err_def)

lemma map_err_Inr [simp]: "map_err f r = Inr a \<longleftrightarrow> r = Inr a"
  by (cases r) auto

lemma ok_or_simps [simp]:
  "ok_or x e = Inr a \<longleftrightarrow> x = Some a" "ok_or x e = Inl e' \<longleftrightarrow> x = None \<and> e = e'"
  by (auto simp: ok_or_def split: option.splits)

text \<open>A chain of early returns ends in a value exactly when every link of it does.\<close>

lemma case_sum_Ok: "(case r of Inl e \<Rightarrow> Err (g e) | Inr a \<Rightarrow> f a) = Ok y \<longleftrightarrow> (\<exists>a. r = Ok a \<and> f a = Ok y)"
  by (cases r) auto

lemma case_option_Ok: "(case x of None \<Rightarrow> Err e | Some a \<Rightarrow> f a) = Ok y \<longleftrightarrow> (\<exists>a. x = Some a \<and> f a = Ok y)"
  by (cases x) auto

lemma if_Err_Ok: "(if b then Err e else r) = Ok y \<longleftrightarrow> \<not> b \<and> r = Ok y"
  by simp

lemmas result_ok = case_sum_Ok case_option_Ok if_Err_Ok Let_def

text \<open>The question mark after a call on \<open>&mut self\<close>: go on with its value and the state it left.\<close>

definition try_then ::
    "('e + 'a) \<times> 's \<Rightarrow> ('a \<Rightarrow> 's \<Rightarrow> ('e + 'b) \<times> 's) \<Rightarrow> ('e + 'b) \<times> 's" where
  "try_then r f = (case r of (Inl e, s) \<Rightarrow> (Err e, s) | (Inr a, s) \<Rightarrow> f a s)"

section \<open>Strings\<close>

definition str_bytes :: "string \<Rightarrow> bytes" where
  "str_bytes s = map (\<lambda>c. word_of_nat (of_char c)) s"

lemma length_str_bytes [simp]: "length (str_bytes s) = length s"
  by (simp add: str_bytes_def)

fun str_prefix :: "'a list \<Rightarrow> 'a list \<Rightarrow> bool" where
  "str_prefix [] _ = True"
| "str_prefix (_ # _) [] = False"
| "str_prefix (p # ps) (x # xs) = (p = x \<and> str_prefix ps xs)"

text \<open>\<open>str::contains\<close> with a string pattern, and \<open>str::ends_with\<close>.\<close>

fun str_contains :: "string \<Rightarrow> string \<Rightarrow> bool" where
  "str_contains [] p = (p = [])"
| "str_contains (c # cs) p = (str_prefix p (c # cs) \<or> str_contains cs p)"

definition str_suffix :: "string \<Rightarrow> string \<Rightarrow> bool" where
  "str_suffix p s = str_prefix (rev p) (rev s)"

lemma str_prefix_iff: "str_prefix p s \<longleftrightarrow> (\<exists>r. s = p @ r)"
  by (induction p s rule: str_prefix.induct) auto

lemma str_suffix_iff: "str_suffix p s \<longleftrightarrow> (\<exists>r. s = r @ p)"
proof -
  have "rev s = rev p @ r \<longleftrightarrow> s = rev r @ p" for r
    by (metis rev_append rev_rev_ident)
  then show ?thesis
    by (auto simp: str_suffix_def str_prefix_iff) (metis rev_rev_ident)
qed

text \<open>\<open>format!\<close> of an unsigned integer: its decimal digits, most significant first.\<close>

definition digit_char :: "nat \<Rightarrow> char" where
  "digit_char d = char_of (48 + d)"

fun show_nat :: "nat \<Rightarrow> string" where
  "show_nat n = (if n < 10 then [digit_char n] else show_nat (n div 10) @ [digit_char (n mod 10)])"

declare show_nat.simps [simp del]

text \<open>\<open>format!("{byte:02x}")\<close> for every byte.\<close>

definition hex_digit :: "nat \<Rightarrow> char" where
  "hex_digit d = (if d < 10 then char_of (48 + d) else char_of (87 + d))"

definition hex_byte :: "byte \<Rightarrow> string" where
  "hex_byte b = [hex_digit (unat b div 16), hex_digit (unat b mod 16)]"

definition hex_string :: "bytes \<Rightarrow> string" where
  "hex_string bs = concat (map hex_byte bs)"

lemma of_char_hex_digit:
  "d < 16 \<Longrightarrow> of_char (hex_digit d) = (if d < 10 then 48 + d else 87 + d)"
  by (auto simp: hex_digit_def)

lemma hex_digit_eq: "d < 16 \<Longrightarrow> e < 16 \<Longrightarrow> hex_digit d = hex_digit e \<longleftrightarrow> d = e"
proof
  assume d: "d < 16" and e: "e < 16" and "hex_digit d = hex_digit e"
  then have "of_char (hex_digit d) = (of_char (hex_digit e) :: nat)" by (simp only:)
  then show "d = e"
    unfolding of_char_hex_digit [OF d] of_char_hex_digit [OF e] using d e
    by (simp split: if_splits)
qed simp

lemma hex_byte_inj: "hex_byte a = hex_byte b \<longleftrightarrow> a = b"
proof
  assume eq: "hex_byte a = hex_byte b"
  have "unat x div 16 < 16" for x :: byte
    using unat_less [of x] by simp
  with eq have "unat a div 16 = unat b div 16" "unat a mod 16 = unat b mod 16"
    by (simp_all add: hex_byte_def hex_digit_eq)
  then have "unat a = unat b" by (metis div_mult_mod_eq)
  then show "a = b" by (rule unat_inject)
qed simp

lemma length_hex_byte [simp]: "length (hex_byte b) = 2"
  by (simp add: hex_byte_def)

lemma hex_string_simps [simp]:
  "hex_string [] = []" "hex_string (b # bs) = hex_byte b @ hex_string bs"
  by (simp_all add: hex_string_def)

lemma hex_string_inj: "hex_string a = hex_string b \<longleftrightarrow> a = b"
proof (induction a arbitrary: b)
  case Nil
  then show ?case by (cases b) (simp_all add: hex_byte_def)
next
  case (Cons x a)
  show ?case
  proof (cases b)
    case Nil
    then show ?thesis by (simp add: hex_byte_def)
  next
    case (Cons y b')
    then show ?thesis by (simp add: append_eq_append_conv hex_byte_inj Cons.IH)
  qed
qed

text \<open>
  \<open>str::trim\<close> followed by \<open>is_empty\<close>: every character is \<open>White_Space\<close>, in UTF-8. Beside the ASCII
  ones (9 to 13 and 32) these are U+0085, U+00A0, U+1680, U+2000 to U+200A, U+2028, U+2029,
  U+202F, U+205F and U+3000.
\<close>

fun all_whitespace :: "nat list \<Rightarrow> bool" where
  "all_whitespace [] = True"
| "all_whitespace (a # as) =
     (if (9 \<le> a \<and> a \<le> 13) \<or> a = 32 then all_whitespace as
      else case as of
        b # bs \<Rightarrow>
          if a = 194 \<and> (b = 133 \<or> b = 160) then all_whitespace bs
          else (case bs of
            c # cs \<Rightarrow>
              ((a = 225 \<and> b = 154 \<and> c = 128) \<or>
               (a = 226 \<and> b = 128 \<and> ((128 \<le> c \<and> c \<le> 138) \<or> c = 168 \<or> c = 169 \<or> c = 175)) \<or>
               (a = 226 \<and> b = 129 \<and> c = 159) \<or>
               (a = 227 \<and> b = 128 \<and> c = 128)) \<and> all_whitespace cs
          | [] \<Rightarrow> False)
      | [] \<Rightarrow> False)"

definition trim_is_empty :: "string \<Rightarrow> bool" where
  "trim_is_empty s = all_whitespace (map of_char s)"

text \<open>\<open>String::from_utf8\<close> accepts exactly the well-formed UTF-8 sequences.\<close>

definition utf8_cont :: "nat \<Rightarrow> bool" where
  "utf8_cont b = (128 \<le> b \<and> b \<le> 191)"

fun utf8_ok :: "nat list \<Rightarrow> bool" where
  "utf8_ok [] = True"
| "utf8_ok [a] = (a < 128)"
| "utf8_ok [a, b] = (if a < 128 then utf8_ok [b] else 194 \<le> a \<and> a \<le> 223 \<and> utf8_cont b)"
| "utf8_ok [a, b, c] =
     (if a < 128 then utf8_ok [b, c]
      else if 194 \<le> a \<and> a \<le> 223 then utf8_cont b \<and> utf8_ok [c]
      else 224 \<le> a \<and> a \<le> 239 \<and> utf8_cont b \<and> utf8_cont c \<and>
        (a = 224 \<longrightarrow> 160 \<le> b) \<and> (a = 237 \<longrightarrow> b \<le> 159))"
| "utf8_ok (a # b # c # d # rest) =
     (if a < 128 then utf8_ok (b # c # d # rest)
      else if 194 \<le> a \<and> a \<le> 223 then utf8_cont b \<and> utf8_ok (c # d # rest)
      else if 224 \<le> a \<and> a \<le> 239 then utf8_cont b \<and> utf8_cont c \<and>
        (a = 224 \<longrightarrow> 160 \<le> b) \<and> (a = 237 \<longrightarrow> b \<le> 159) \<and> utf8_ok (d # rest)
      else 240 \<le> a \<and> a \<le> 244 \<and> utf8_cont b \<and> utf8_cont c \<and> utf8_cont d \<and>
        (a = 240 \<longrightarrow> 144 \<le> b) \<and> (a = 244 \<longrightarrow> b \<le> 143) \<and> utf8_ok rest)"

lemma utf8_ok_ascii: "\<forall>b \<in> set bs. b < 128 \<Longrightarrow> utf8_ok bs"
  by (induction bs rule: utf8_ok.induct) auto

definition bytes_str :: "bytes \<Rightarrow> string" where
  "bytes_str bs = map (\<lambda>b. char_of (unat b)) bs"

lemma byte_str: "word_of_nat (unat (b :: byte) mod 256) = b"
  using unsigned_less [of b, where ?'a = nat] by simp

lemma str_bytes_str [simp]: "str_bytes (bytes_str bs) = bs"
  by (induction bs) (simp_all add: bytes_str_def str_bytes_def byte_str)

lemma of_char_less: "of_char c < (256 :: nat)"
  by (metis of_char_mod_256 mod_less_divisor zero_less_numeral)

lemma unat_str_bytes: "map unat (str_bytes s) = map of_char s"
  by (simp add: str_bytes_def unat_of_nat of_char_less)

lemma bytes_str_bytes [simp]: "bytes_str (str_bytes s) = s"
  by (simp add: bytes_str_def str_bytes_def comp_def unat_of_nat of_char_less)

lemma of_char_hex_byte: "c \<in> set (hex_byte b) \<Longrightarrow> of_char c < (128 :: nat)"
proof -
  have "unat b < 256" using unat_less [of b] by simp
  then have d: "unat b div 16 < 16" "unat b mod 16 < 16" by auto
  have "of_char (hex_digit (unat b div 16)) < (128 :: nat)" "of_char (hex_digit (unat b mod 16)) < (128 :: nat)"
    using d by (simp_all add: of_char_hex_digit del: mod_less_divisor)
  then show "c \<in> set (hex_byte b) \<Longrightarrow> of_char c < (128 :: nat)" by (auto simp: hex_byte_def)
qed

lemma of_char_hex_string: "c \<in> set (hex_string bs) \<Longrightarrow> of_char c < (128 :: nat)"
  by (induction bs) (auto dest: of_char_hex_byte)

lemma length_hex_string [simp]: "length (hex_string bs) = 2 * length bs"
  by (induction bs) auto

text \<open>\<open>u8::is_ascii_alphanumeric\<close> and \<open>str::eq_ignore_ascii_case\<close>.\<close>

definition is_ascii_alphanumeric :: "char \<Rightarrow> bool" where
  "is_ascii_alphanumeric c =
     (let n = of_char c :: nat in
      (48 \<le> n \<and> n \<le> 57) \<or> (65 \<le> n \<and> n \<le> 90) \<or> (97 \<le> n \<and> n \<le> 122))"

definition ascii_lower :: "char \<Rightarrow> char" where
  "ascii_lower c = (let n = of_char c :: nat in if 65 \<le> n \<and> n \<le> 90 then char_of (n + 32) else c)"

definition eq_ignore_ascii_case :: "string \<Rightarrow> string \<Rightarrow> bool" where
  "eq_ignore_ascii_case a b = (map ascii_lower a = map ascii_lower b)"

section \<open>Integers as bytes\<close>

text \<open>
  \<open>to_le_bytes\<close>, \<open>to_be_bytes\<close> and their inverses, on an \<open>n\<close>-byte integer.
\<close>

primrec le_nat :: "nat \<Rightarrow> nat \<Rightarrow> bytes" where
  "le_nat 0 x = []"
| "le_nat (Suc n) x = word_of_nat x # le_nat n (x div 256)"

primrec nat_of_le :: "bytes \<Rightarrow> nat" where
  "nat_of_le [] = 0"
| "nat_of_le (b # bs) = unat b + 256 * nat_of_le bs"

definition to_le_bytes :: "'a::len word \<Rightarrow> bytes" where
  "to_le_bytes (w :: 'a word) = le_nat (LENGTH('a) div 8) (unat w)"

definition from_le_bytes :: "bytes \<Rightarrow> 'a::len word" where
  "from_le_bytes bs = word_of_nat (nat_of_le bs)"

definition to_be_bytes :: "'a::len word \<Rightarrow> bytes" where
  "to_be_bytes w = rev (to_le_bytes w)"

definition from_be_bytes :: "bytes \<Rightarrow> 'a::len word" where
  "from_be_bytes bs = from_le_bytes (rev bs)"

lemma length_le_nat [simp]: "length (le_nat n x) = n"
  by (induction n arbitrary: x) auto

lemma length_to_bytes [simp]:
  "length (to_le_bytes (w :: 'a::len word)) = LENGTH('a) div 8"
  "length (to_be_bytes (w :: 'a::len word)) = LENGTH('a) div 8"
  by (simp_all add: to_le_bytes_def to_be_bytes_def)

lemma nat_of_le_nat: "nat_of_le (le_nat n x) = x mod 256 ^ n"
proof (induction n arbitrary: x)
  case (Suc n)
  have "unat (word_of_nat x :: byte) = x mod 256"
    by (simp add: unat_of_nat)
  then show ?case using Suc by (simp add: mod_mult2_eq)
qed simp

lemma pow256: "256 ^ n = (2::nat) ^ (8 * n)"
  by (simp add: power_mult)

lemma from_to_le_bytes:
  assumes "LENGTH('a) mod 8 = 0"
  shows "from_le_bytes (to_le_bytes w) = (w :: 'a::len word)"
proof -
  have "8 * (LENGTH('a) div 8) = LENGTH('a)" using assms by presburger
  then have "unat w mod 256 ^ (LENGTH('a) div 8) = unat w"
    using unat_less [of w] by (simp add: pow256)
  then show ?thesis by (simp add: from_le_bytes_def to_le_bytes_def nat_of_le_nat)
qed

lemma from_to_be_bytes:
  "LENGTH('a) mod 8 = 0 \<Longrightarrow> from_be_bytes (to_be_bytes w) = (w :: 'a::len word)"
  by (simp add: from_be_bytes_def to_be_bytes_def from_to_le_bytes)

end
