(* ===== verification/BTree_Map.thy ===== *)
theory BTree_Map
  imports Prelude
begin

text \<open>
  The standard library's \<open>BTreeMap\<close> and \<open>BTreeSet\<close>: a finite map whose entries are visited in
  key order. The type is the sorted entry list, so that two maps with the same lookups are equal
  and \<open>iter\<close>, \<open>values\<close> and the derived \<open>PartialEq\<close> mean what they mean in Rust. The second half
  states the bookkeeping contract of a balance map as a locale, once for every component that
  moves amounts between keys.
\<close>

section \<open>The ordered map\<close>

typedef (overloaded) ('k, 'v) btree_map =
  "{m :: ('k::linorder \<times> 'v) list. sorted_wrt (<) (map fst m)}"
  morphisms bt_entries Abs_btree_map
  by (rule exI [of _ "[]"]) simp

setup_lifting type_definition_btree_map

type_synonym 'k btree_set = "('k, unit) btree_map"

fun ins_entry :: "'k::linorder \<Rightarrow> 'v \<Rightarrow> ('k \<times> 'v) list \<Rightarrow> ('k \<times> 'v) list" where
  "ins_entry k v [] = [(k, v)]"
| "ins_entry k v ((k', v') # m) =
     (if k < k' then (k, v) # (k', v') # m
      else if k = k' then (k, v) # m
      else (k', v') # ins_entry k v m)"

lemma fst_ins_entry: "fst ` set (ins_entry k v m) = insert k (fst ` set m)"
  by (induction k v m rule: ins_entry.induct) (simp_all add: insert_commute)

lemma sorted_ins_entry:
  "sorted_wrt (<) (map fst m) \<Longrightarrow> sorted_wrt (<) (map fst (ins_entry k v m))"
proof (induction k v m rule: ins_entry.induct)
  case (2 k v k' v' m)
  have keys: "\<forall>x \<in> fst ` set m. k' < x" using "2.prems" by simp
  then have "\<forall>x \<in> fst ` set (ins_entry k v m). k' < x" if "\<not> k < k'" "k \<noteq> k'"
    using that by (simp only: fst_ins_entry) auto
  with 2 keys show ?case by (auto dest: less_trans)
qed simp

lift_definition bt_empty :: "('k::linorder, 'v) btree_map" is "[]"
  by simp

lift_definition bt_insert :: "'k::linorder \<Rightarrow> 'v \<Rightarrow> ('k, 'v) btree_map \<Rightarrow> ('k, 'v) btree_map"
  is ins_entry
  by (rule sorted_ins_entry)

lift_definition bt_remove :: "'k::linorder \<Rightarrow> ('k, 'v) btree_map \<Rightarrow> ('k, 'v) btree_map"
  is "\<lambda>k m. filter (\<lambda>e. fst e \<noteq> k) m"
  by (simp add: sorted_wrt_map sorted_wrt_filter)

definition bt_get :: "('k::linorder, 'v) btree_map \<Rightarrow> 'k \<Rightarrow> 'v option" where
  "bt_get m = map_of (bt_entries m)"

definition bt_contains :: "('k::linorder, 'v) btree_map \<Rightarrow> 'k \<Rightarrow> bool" where
  "bt_contains m k = (bt_get m k \<noteq> None)"

definition bt_len :: "('k::linorder, 'v) btree_map \<Rightarrow> nat" where
  "bt_len m = length (bt_entries m)"

definition bt_is_empty :: "('k::linorder, 'v) btree_map \<Rightarrow> bool" where
  "bt_is_empty m = (bt_entries m = [])"

definition bt_values :: "('k::linorder, 'v) btree_map \<Rightarrow> 'v list" where
  "bt_values m = map snd (bt_entries m)"

text \<open>\<open>get(..).cloned().unwrap_or_default()\<close>, and \<open>collect\<close> from an iterator of entries.\<close>

definition bt_get_or :: "'v \<Rightarrow> ('k::linorder, 'v) btree_map \<Rightarrow> 'k \<Rightarrow> 'v" where
  "bt_get_or d m k = (case bt_get m k of None \<Rightarrow> d | Some v \<Rightarrow> v)"

definition bt_collect :: "('k::linorder \<times> 'v) list \<Rightarrow> ('k, 'v) btree_map" where
  "bt_collect es = fold (\<lambda>(k, v). bt_insert k v) es bt_empty"

text \<open>The sum of a measure over the entries.\<close>

definition bt_sum :: "('k::linorder \<Rightarrow> 'v \<Rightarrow> nat) \<Rightarrow> ('k, 'v) btree_map \<Rightarrow> nat" where
  "bt_sum f m = (\<Sum>(k, v) \<leftarrow> bt_entries m. f k v)"

section \<open>Its laws\<close>

lemma bt_entries_empty [simp, map_simps]: "bt_entries bt_empty = []"
  by transfer simp

lemma bt_entries_insert [map_simps]: "bt_entries (bt_insert k v m) = ins_entry k v (bt_entries m)"
  by transfer simp

lemma bt_entries_sorted: "sorted_wrt (<) (map fst (bt_entries m))"
  by transfer simp

lemma bt_entries_distinct: "distinct (map fst (bt_entries m))"
  using bt_entries_sorted [of m] by (simp add: strict_sorted_iff)

lemma map_of_ins_entry: "map_of (ins_entry k v m) = (map_of m)(k \<mapsto> v)"
  by (induction m) auto

lemma bt_get_empty [simp, map_simps]: "bt_get bt_empty k = None"
  by (simp add: bt_get_def)

lemma bt_get_insert [simp, map_simps]:
  "bt_get (bt_insert k v m) k' = (if k' = k then Some v else bt_get m k')"
  by (simp add: bt_get_def bt_entries_insert map_of_ins_entry)

lemma map_of_filter_neq: "map_of (filter (\<lambda>e. fst e \<noteq> k) m) k' = (if k' = k then None else map_of m k')"
  by (induction m) auto

lemma bt_get_remove [simp, map_simps]:
  "bt_get (bt_remove k m) k' = (if k' = k then None else bt_get m k')"
  unfolding bt_get_def by transfer (rule map_of_filter_neq)

lemma bt_contains_simps [simp, map_simps]:
  "\<not> bt_contains bt_empty k"
  "bt_contains (bt_insert k v m) k' \<longleftrightarrow> k' = k \<or> bt_contains m k'"
  "bt_contains (bt_remove k m) k' \<longleftrightarrow> k' \<noteq> k \<and> bt_contains m k'"
  by (simp_all add: bt_contains_def)

lemma bt_get_or_simps [simp, map_simps]:
  "bt_get_or d bt_empty k = d"
  "bt_get_or d (bt_insert k v m) k' = (if k' = k then v else bt_get_or d m k')"
  by (simp_all add: bt_get_or_def)

lemma entries_of_keys:
  "distinct (map fst es) \<Longrightarrow> es = map (\<lambda>k. (k, the (map_of es k))) (map fst es)"
  by (auto simp: comp_def intro!: map_idI [symmetric])

lemma bt_eqI:
  assumes "\<And>k. bt_get m k = bt_get m' k"
  shows "m = m'"
proof -
  have same: "map_of (bt_entries m) = map_of (bt_entries m')"
    using assms by (auto simp: bt_get_def)
  have "set (map fst (bt_entries m)) = set (map fst (bt_entries m'))"
    using same by (metis dom_map_of_conv_image_fst set_map)
  then have "map fst (bt_entries m) = map fst (bt_entries m')"
    using bt_entries_sorted [of m] bt_entries_sorted [of m'] by (metis strict_sorted_equal)
  then have "bt_entries m = bt_entries m'"
    using entries_of_keys [OF bt_entries_distinct, of m] entries_of_keys [OF bt_entries_distinct, of m']
      same by simp
  then show ?thesis by (simp add: bt_entries_inject)
qed

lemma bt_is_empty_iff: "bt_is_empty m \<longleftrightarrow> (\<forall>k. bt_get m k = None)"
  by (cases "bt_entries m") (auto simp: bt_is_empty_def bt_get_def)

lemma ins_entry_not_Nil [simp]: "ins_entry k v m \<noteq> []"
  by (induction k v m rule: ins_entry.induct) simp_all

lemma bt_is_empty_simps [simp, map_simps]:
  "bt_is_empty bt_empty" "\<not> bt_is_empty (bt_insert k v m)"
  by (simp_all add: bt_is_empty_def bt_entries_insert)

lemma length_ins_entry:
  "length (ins_entry k v m) = (if k \<in> fst ` set m then length m else Suc (length m))"
  if "sorted_wrt (<) (map fst m)"
  using that by (induction k v m rule: ins_entry.induct) (auto dest: less_trans)

lemma bt_contains_entries: "bt_contains m k \<longleftrightarrow> k \<in> fst ` set (bt_entries m)"
  by (simp add: bt_contains_def bt_get_def map_of_eq_None_iff)

lemma bt_len_insert [map_simps]:
  "bt_len (bt_insert k v m) = (if bt_contains m k then bt_len m else Suc (bt_len m))"
  by (simp add: bt_len_def bt_entries_insert length_ins_entry [OF bt_entries_sorted]
      bt_contains_entries)

lemma bt_len_empty [simp, map_simps]: "bt_len bt_empty = 0"
  by (simp add: bt_len_def)

lemma bt_get_in_entries: "bt_get m k = Some v \<longleftrightarrow> (k, v) \<in> set (bt_entries m)"
  by (simp add: bt_get_def bt_entries_distinct)

definition bt_keys :: "('k::linorder, 'v) btree_map \<Rightarrow> 'k set" where
  "bt_keys m = {k. bt_contains m k}"

lemma bt_keys_entries: "bt_keys m = set (map fst (bt_entries m))"
  by (auto simp: bt_keys_def bt_contains_entries)

lemma finite_bt_keys [simp]: "finite (bt_keys m)"
  by (simp add: bt_keys_entries)

lemma card_bt_keys: "card (bt_keys m) = bt_len m"
  by (simp only: bt_keys_entries distinct_card [OF bt_entries_distinct] length_map bt_len_def)

lemma bt_keys_simps [simp, map_simps]:
  "bt_keys bt_empty = {}" "bt_keys (bt_insert k v m) = insert k (bt_keys m)"
  "bt_keys (bt_remove k m) = bt_keys m - {k}"
  by (auto simp: bt_keys_def)

lemma bt_values_member: "v \<in> set (bt_values m) \<longleftrightarrow> (\<exists>k. bt_get m k = Some v)"
  by (force simp: bt_values_def bt_get_in_entries)

lemma bt_get_collect_aux:
  "bt_get (fold (\<lambda>(k, v). bt_insert k v) es m) k =
     (case map_of (rev es) k of None \<Rightarrow> bt_get m k | Some v \<Rightarrow> Some v)"
  by (induction es arbitrary: m) (auto simp: map_add_def split: option.splits)

lemma bt_get_collect [map_simps]: "bt_get (bt_collect es) k = map_of (rev es) k"
  by (simp add: bt_collect_def bt_get_collect_aux split: option.splits)

section \<open>Sums\<close>

lemma bt_sum_empty [simp, map_simps]: "bt_sum f bt_empty = 0"
  by (simp add: bt_sum_def)

lemma sum_ins_entry:
  assumes "sorted_wrt (<) (map fst m)"
  shows "(\<Sum>(k, v) \<leftarrow> ins_entry k v m. f k v) + (case map_of m k of None \<Rightarrow> 0 | Some w \<Rightarrow> f k w)
    = (\<Sum>(k, v) \<leftarrow> m. f k v) + (f k v :: nat)"
  using assms
proof (induction k v m rule: ins_entry.induct)
  case (2 k v k' v' m)
  have "map_of m k = None" if "k \<le> k'"
    using "2.prems" that by (force simp: map_of_eq_None_iff)
  with 2 show ?case by auto
qed simp

lemma bt_sum_insert:
  "bt_sum f (bt_insert k v m) + (case bt_get m k of None \<Rightarrow> 0 | Some w \<Rightarrow> f k w) = bt_sum f m + f k v"
  using sum_ins_entry [OF bt_entries_sorted, of f k v m]
  by (simp add: bt_sum_def bt_entries_insert bt_get_def)

lemma bt_sum_ge: "bt_get m k = Some v \<Longrightarrow> f k v \<le> bt_sum f m"
  unfolding bt_get_in_entries bt_sum_def
  by (rule member_le_sum_list) (force simp: image_iff)+

lemma bt_sum_cong:
  "(\<And>k v. bt_get m k = Some v \<Longrightarrow> f k v = g k v) \<Longrightarrow> bt_sum f m = bt_sum g m"
  unfolding bt_get_in_entries bt_sum_def by (rule arg_cong [of _ _ sum_list]) auto

lemma bt_sum_zero: "(\<And>k v. bt_get m k = Some v \<Longrightarrow> f k v = 0) \<Longrightarrow> bt_sum f m = 0"
  using bt_sum_cong [of m f "\<lambda>_ _. 0"] by (simp add: bt_sum_def case_prod_unfold)

section \<open>Books of balances\<close>

text \<open>
  What a component that moves amounts needs from the map that holds them: writing one entry
  changes that balance only, and the total by the difference. The native accounts and, for each
  asset key, the nested asset balances are books.
\<close>

locale balance_book =
  fixes bal :: "'b \<Rightarrow> 'k \<Rightarrow> nat"
    and total :: "'b \<Rightarrow> nat"
    and put :: "'b \<Rightarrow> 'k \<Rightarrow> 'x \<Rightarrow> 'b"
    and amt :: "'x \<Rightarrow> nat"
  assumes bal_put: "bal (put b k x) k' = (if k' = k then amt x else bal b k')"
    and total_put: "total (put b k x) + bal b k = total b + amt x"
    and bal_le_total: "bal b k \<le> total b"
begin

lemma credit: "amt x = bal b k + a \<Longrightarrow> total (put b k x) = total b + a"
  using total_put [of b k x] by simp

lemma debit: "bal b k = amt x + a \<Longrightarrow> total (put b k x) + a = total b"
  using total_put [of b k x] by simp

lemma overwrite_same: "amt x = bal b k \<Longrightarrow> total (put b k x) = total b"
  using credit [of x b k 0] by simp

text \<open>Two different balances together are within the total.\<close>

lemma two_le_total:
  assumes "k \<noteq> k'" and "amt z = 0"
  shows "bal b k + bal b k' \<le> total b"
proof -
  have "total (put b k z) + bal b k = total b" using assms(2) total_put [of b k z] by simp
  moreover have "bal b k' \<le> total (put b k z)"
    using bal_le_total [of "put b k z" k'] assms(1) by (simp add: bal_put)
  ultimately show ?thesis by simp
qed

lemma move:
  assumes "k \<noteq> k'" and "bal b k = amt x + d" and "amt y = bal b k' + c"
  shows "total (put (put b k x) k' y) + d = total b + c"
proof -
  have "amt y = bal (put b k x) k' + c" using assms by (simp add: bal_put)
  then have "total (put (put b k x) k' y) = total (put b k x) + c" by (rule credit)
  with debit [OF assms(2)] show ?thesis by simp
qed

end

end
