(* ===== verification/Core_Types.thy ===== *)
theory Core_Types
  imports BTree_Map
begin

text \<open>
  \<open>crates/wsc-core/src/lib.rs\<close>: identities, the signed operations, blocks and the genesis
  configuration. A struct is a record whose fields carry a prefix naming the struct
  (\<open>utx_nonce\<close> is \<open>UnsignedTransaction::nonce\<close>); a byte-array newtype is a datatype over its bytes,
  ordered as the derived \<open>Ord\<close> orders it. Bech32m is a parameter of the address functions.
\<close>

section \<open>Byte-array newtypes\<close>

datatype hash = Hash (hash_bytes: bytes)
datatype public_key = PublicKey (pk_bytes: bytes)
datatype signature = Signature (sig_bytes: bytes)
datatype address = Address (addr_bytes: bytes)

instantiation hash :: linorder
begin
definition less_eq_hash :: "hash \<Rightarrow> hash \<Rightarrow> bool" where
  "less_eq_hash a b = (hash_bytes a \<le> hash_bytes b)"
definition less_hash :: "hash \<Rightarrow> hash \<Rightarrow> bool" where
  "less_hash a b = (hash_bytes a < hash_bytes b)"
instance
  by standard (auto simp: less_eq_hash_def less_hash_def intro: hash.expand)
end

instantiation public_key :: linorder
begin
definition less_eq_public_key :: "public_key \<Rightarrow> public_key \<Rightarrow> bool" where
  "less_eq_public_key a b = (pk_bytes a \<le> pk_bytes b)"
definition less_public_key :: "public_key \<Rightarrow> public_key \<Rightarrow> bool" where
  "less_public_key a b = (pk_bytes a < pk_bytes b)"
instance
  by standard (auto simp: less_eq_public_key_def less_public_key_def intro: public_key.expand)
end

instantiation address :: linorder
begin
definition less_eq_address :: "address \<Rightarrow> address \<Rightarrow> bool" where
  "less_eq_address a b = (addr_bytes a \<le> addr_bytes b)"
definition less_address :: "address \<Rightarrow> address \<Rightarrow> bool" where
  "less_address a b = (addr_bytes a < addr_bytes b)"
instance
  by standard (auto simp: less_eq_address_def less_address_def intro: address.expand)
end

lemmas key_order_defs = less_eq_hash_def less_hash_def less_eq_public_key_def less_public_key_def
  less_eq_address_def less_address_def

definition HASH_ZERO :: hash where
  "HASH_ZERO = Hash (replicate 32 0)"

definition hash_to_string :: "hash \<Rightarrow> string" where
  "hash_to_string h = hex_string (hash_bytes h)"

lemma hash_to_string_inj: "hash_to_string a = hash_to_string b \<longleftrightarrow> a = b"
  by (cases a; cases b) (simp add: hash_to_string_def hex_string_inj)

section \<open>Constants and scalar types\<close>

type_synonym amount = u128
type_synonym nonce = u64

definition CHAIN_ID :: string where "CHAIN_ID = ''worldstreet-devnet-1''"
definition NATIVE_ASSET_SYMBOL :: string where "NATIVE_ASSET_SYMBOL = ''MNA''"
definition NATIVE_ASSET_DECIMALS :: u8 where "NATIVE_ASSET_DECIMALS = 6"
definition ADDRESS_HRP :: string where "ADDRESS_HRP = ''mna''"
definition ADDRESS_VERSION :: u8 where "ADDRESS_VERSION = 1"
definition MNA_USDC_DENOMINATOR :: amount where "MNA_USDC_DENOMINATOR = 2"

section \<open>Assets\<close>

record asset_id =
  asset_namespace :: string
  asset_symbol :: string
  asset_contract :: "string option"
  asset_decimals :: u8

definition canonical_key :: "asset_id \<Rightarrow> string" where
  "canonical_key a = asset_namespace a @ '':'' @ asset_symbol a @ '':'' @
     (case asset_contract a of None \<Rightarrow> ''native'' | Some c \<Rightarrow> c)"

definition native_asset :: asset_id where
  "native_asset = \<lparr>asset_namespace = ''worldstreet'', asset_symbol = NATIVE_ASSET_SYMBOL,
     asset_contract = None, asset_decimals = NATIVE_ASSET_DECIMALS\<rparr>"

definition wrapped_asset :: "string \<Rightarrow> string \<Rightarrow> string \<Rightarrow> u8 \<Rightarrow> asset_id" where
  "wrapped_asset namespace symbol contract decimals =
     \<lparr>asset_namespace = namespace, asset_symbol = symbol, asset_contract = Some contract,
      asset_decimals = decimals\<rparr>"

definition custom_asset :: "hash \<Rightarrow> string \<Rightarrow> u8 \<Rightarrow> asset_id" where
  "custom_asset token_id symbol decimals =
     \<lparr>asset_namespace = ''intertrain'', asset_symbol = symbol,
      asset_contract = Some (''token:'' @ hash_to_string token_id), asset_decimals = decimals\<rparr>"

record asset_definition =
  adef_id :: asset_id
  adef_display_name :: string
  adef_wrapped :: bool
  adef_enabled :: bool

definition weth_ethereum :: "string \<Rightarrow> asset_definition" where
  "weth_ethereum reference =
     \<lparr>adef_id = wrapped_asset ''ethereum'' ''WETH'' reference 18,
      adef_display_name = ''Wrapped Ether'', adef_wrapped = True, adef_enabled = False\<rparr>"

definition wsol_solana :: "string \<Rightarrow> asset_definition" where
  "wsol_solana reference =
     \<lparr>adef_id = wrapped_asset ''solana'' ''WSOL'' reference 9,
      adef_display_name = ''Wrapped SOL'', adef_wrapped = True, adef_enabled = False\<rparr>"

section \<open>Genesis\<close>

record genesis_allocation =
  alloc_address :: address
  alloc_balance :: amount

record validator =
  val_name :: string
  val_public_key :: public_key

record genesis_config =
  gen_version :: u8
  gen_chain_id :: string
  gen_genesis_time :: u64
  gen_block_time_ms :: u64
  gen_initial_supply :: amount
  gen_fee_minimum :: amount
  gen_validators :: "validator list"
  gen_allocations :: "genesis_allocation list"
  gen_assets :: "asset_definition list"

section \<open>Transfers\<close>

record unsigned_transaction =
  utx_version :: u8
  utx_chain_id :: string
  utx_nonce :: nonce
  utx_from :: address
  utx_to :: address
  utx_amount :: amount
  utx_fee :: amount
  utx_public_key :: public_key
  utx_memo :: string

record transaction =
  tx_unsigned :: unsigned_transaction
  tx_signature :: signature

section \<open>Wrapped assets, MNA swaps and the MNA reserve\<close>

datatype asset_operation_kind = AssetMint | AssetBurn

record asset_operation =
  ao_version :: u8
  ao_operation_id :: hash
  ao_kind :: asset_operation_kind
  ao_asset_id :: asset_id
  ao_address :: address
  ao_destination :: string
  ao_amount :: amount
  ao_external_transaction :: string
  ao_memo :: string

datatype mna_swap_kind = MintMna | RedeemMna

record unsigned_mna_swap_operation =
  usw_version :: u8
  usw_chain_id :: string
  usw_nonce :: nonce
  usw_from :: address
  usw_kind :: mna_swap_kind
  usw_collateral_asset :: asset_id
  usw_amount_usdc :: amount
  usw_amount_mna :: amount
  usw_fee :: amount
  usw_public_key :: public_key
  usw_memo :: string

record mna_swap_operation =
  sw_unsigned :: unsigned_mna_swap_operation
  sw_signature :: signature

datatype mna_reserve_operation_kind = VerifyDeposit | Release

record mna_reserve_operation =
  ro_version :: u8
  ro_operation_id :: hash
  ro_kind :: mna_reserve_operation_kind
  ro_collateral_asset :: asset_id
  ro_address :: address
  ro_amount_usdc :: amount
  ro_amount_mna :: amount
  ro_collateral_amount :: amount
  ro_oracle_price_usd_micro_per_sol :: amount
  ro_oracle_timestamp :: u64
  ro_fee_mna :: amount
  ro_destination :: string
  ro_external_transaction :: string
  ro_memo :: string

record mna_reserve_ledger =
  led_total_verified_deposits_usdc :: amount
  led_total_released_usdc :: amount
  led_reserve_backed_mna_minted :: amount
  led_total_redeemed_mna :: amount
  led_total_verified_sol_lamports :: amount
  led_total_released_sol_lamports :: amount
  led_total_verified_sol_usd :: amount
  led_total_released_sol_usd :: amount
  led_paused :: bool

definition default_reserve_ledger :: mna_reserve_ledger where
  "default_reserve_ledger =
     \<lparr>led_total_verified_deposits_usdc = 0, led_total_released_usdc = 0,
      led_reserve_backed_mna_minted = 0, led_total_redeemed_mna = 0,
      led_total_verified_sol_lamports = 0, led_total_released_sol_lamports = 0,
      led_total_verified_sol_usd = 0, led_total_released_sol_usd = 0, led_paused = False\<rparr>"

section \<open>Native tokens\<close>

datatype token_operation_kind =
    TokenCreate | TokenTransfer | TokenMint | TokenBurn | TokenSetAuthorities | TokenFreeze
  | TokenUnfreeze | TokenPause | TokenUnpause | TokenUpdateMetadata

record unsigned_token_operation =
  utk_version :: u8
  utk_chain_id :: string
  utk_nonce :: nonce
  utk_from :: address
  utk_kind :: token_operation_kind
  utk_token_id :: hash
  utk_to :: "address option"
  utk_amount :: amount
  utk_fee :: amount
  utk_public_key :: public_key
  utk_name :: string
  utk_symbol :: string
  utk_decimals :: u8
  utk_max_supply :: "amount option"
  utk_mint_authority :: "address option"
  utk_burn_authority :: "address option"
  utk_freeze_authority :: "address option"
  utk_metadata_uri :: string
  utk_metadata_hash :: hash
  utk_memo :: string

record token_operation =
  tk_unsigned :: unsigned_token_operation
  tk_signature :: signature

record token_definition =
  td_token_id :: hash
  td_creator :: address
  td_name :: string
  td_symbol :: string
  td_decimals :: u8
  td_total_supply :: amount
  td_max_supply :: "amount option"
  td_mint_authority :: "address option"
  td_burn_authority :: "address option"
  td_freeze_authority :: "address option"
  td_metadata_uri :: string
  td_metadata_hash :: hash
  td_paused :: bool

section \<open>Programs\<close>

datatype program_operation_kind = ProgramDeploy | ProgramCall | ProgramStorageSet | ProgramClose

record program_operation =
  po_version :: u8
  po_chain_id :: string
  po_kind :: program_operation_kind
  po_nonce :: u64
  po_fee :: amount
  po_program_id :: string
  po_package :: bytes
  po_gas_limit :: u64
  po_key :: string
  po_value :: string
  po_public_key :: public_key
  po_signature :: signature

record program_record =
  pr_package :: bytes
  pr_creator :: address
  pr_deployed_at_height :: u64
  pr_storage :: "(string, string) btree_map"

record program_receipt_record =
  rc_operation_id :: hash
  rc_program_id :: string
  rc_kind :: program_operation_kind
  rc_status :: string
  rc_return_data :: bytes
  rc_gas_used :: u64
  rc_gas_limit :: u64
  rc_fee_paid :: amount
  rc_error :: "string option"

section \<open>Blocks\<close>

record block_header =
  bh_version :: u8
  bh_chain_id :: string
  bh_height :: u64
  bh_parent_hash :: hash
  bh_timestamp :: u64
  bh_transaction_root :: hash
  bh_state_root :: hash
  bh_proposer :: "public_key option"
  bh_proposer_signature :: "signature option"

record block =
  blk_header :: block_header
  blk_transactions :: "transaction list"
  blk_asset_operations :: "asset_operation list"
  blk_token_operations :: "token_operation list"
  blk_mna_swap_operations :: "mna_swap_operation list"
  blk_mna_reserve_operations :: "mna_reserve_operation list"
  blk_program_operations :: "program_operation list"

datatype encoding_error = Encode string | Decode string

section \<open>Addresses\<close>

text \<open>
  \<open>from_hash\<close> fills the array byte by byte; an address is the version byte followed by the hash.
  The Bech32m codec of the \<open>bech32\<close> crate is the parameter \<open>encode\<close> (prefix and payload to text)
  and \<open>decode\<close> (checked text to prefix and payload).
\<close>

datatype address_error = InvalidEncoding | WrongPrefix | WrongLength | UnsupportedVersion

function from_hash_loop :: "bytes \<Rightarrow> nat \<Rightarrow> bytes \<Rightarrow> bytes" where
  "from_hash_loop h i bs = (if i < 20 then from_hash_loop h (i + 1) (bs[i + 1 := h ! i]) else bs)"
  by pat_completeness auto
termination
  by (relation "measure (\<lambda>(h, i, bs). 20 - i)") auto

declare from_hash_loop.simps [simp del]

definition address_from_hash :: "bytes \<Rightarrow> address" where
  "address_from_hash h = Address (from_hash_loop h 0 ((replicate 21 0)[0 := ADDRESS_VERSION]))"

definition to_bech32m :: "(string \<Rightarrow> bytes \<Rightarrow> string) \<Rightarrow> address \<Rightarrow> string" where
  "to_bech32m encode a = encode ADDRESS_HRP (addr_bytes a)"

definition from_bech32m :: "(string \<Rightarrow> (string \<times> bytes) option) \<Rightarrow> string \<Rightarrow> address_error + address" where
  "from_bech32m decode value =
     (case decode value of
        None \<Rightarrow> Err InvalidEncoding
      | Some (hrp, data) \<Rightarrow>
          if hrp \<noteq> ADDRESS_HRP then Err WrongPrefix
          else if length data \<noteq> 21 then Err WrongLength
          else if data ! 0 \<noteq> ADDRESS_VERSION then Err UnsupportedVersion
          else Ok (Address data))"

definition wf_address :: "address \<Rightarrow> bool" where
  "wf_address a = (length (addr_bytes a) = 21 \<and> addr_bytes a ! 0 = ADDRESS_VERSION)"

lemma from_hash_loop_eq:
  assumes "length h = 20" and "length bs = 21" and "i \<le> 20"
    and "\<forall>j < i. bs ! (j + 1) = h ! j"
  shows "from_hash_loop h i bs = bs ! 0 # h"
  using assms
proof (induction h i bs rule: from_hash_loop.induct)
  case (1 h i bs)
  show ?case
  proof (cases "i < 20")
    case True
    have "\<forall>j < i + 1. bs[i + 1 := h ! i] ! (j + 1) = h ! j"
      using "1.prems" True by (auto simp: nth_list_update less_Suc_eq)
    then show ?thesis
      using "1.IH" [OF True] "1.prems" True by (simp add: from_hash_loop.simps [of h i])
  next
    case False
    then have "i = 20" using "1.prems" by simp
    then have "bs = bs ! 0 # h"
      using "1.prems" by (intro nth_equalityI) (auto simp: nth_Cons split: nat.split)
    with False show ?thesis by (simp add: from_hash_loop.simps [of h i])
  qed
qed

lemma address_from_hash_eq: "length h = 20 \<Longrightarrow> address_from_hash h = Address (ADDRESS_VERSION # h)"
  by (simp add: address_from_hash_def from_hash_loop_eq)

end
