(* ===== verification/Crypto.thy ===== *)
theory Crypto
  imports Core_Types
begin

text \<open>
  \<open>crates/wsc-crypto/src/lib.rs\<close>: signatures, identifiers by domain-separated hashing, the Merkle
  root of a block's operations and the hardened key derivation. The primitives come from crates
  outside the repository and are the fields of \<open>crypto_ext\<close>: SHA-256, HMAC-SHA-512, Ed25519,
  Bech32m and the Postcard encoding of each struct that is hashed or signed.
\<close>

section \<open>The external primitives\<close>

record crypto_ext =
  x_sha256 :: "bytes \<Rightarrow> bytes"
  x_hmac_sha512 :: "bytes \<Rightarrow> bytes \<Rightarrow> bytes"
  x_ed25519_public :: "bytes \<Rightarrow> bytes"
  x_ed25519_sign :: "bytes \<Rightarrow> bytes \<Rightarrow> bytes"
  x_ed25519_key_ok :: "bytes \<Rightarrow> bool"
  x_ed25519_verify :: "bytes \<Rightarrow> bytes \<Rightarrow> bytes \<Rightarrow> bool"
  x_bech32m_encode :: "string \<Rightarrow> bytes \<Rightarrow> string"
  x_bech32m_decode :: "string \<Rightarrow> (string \<times> bytes) option"
  x_enc_transaction :: "unsigned_transaction \<Rightarrow> encoding_error + bytes"
  x_enc_token_operation :: "unsigned_token_operation \<Rightarrow> encoding_error + bytes"
  x_enc_mna_swap :: "unsigned_mna_swap_operation \<Rightarrow> encoding_error + bytes"
  x_enc_mna_reserve :: "mna_reserve_operation \<Rightarrow> encoding_error + bytes"
  x_enc_program :: "program_operation \<Rightarrow> encoding_error + bytes"
  x_enc_header :: "block_header \<Rightarrow> encoding_error + bytes"

text \<open>The documented widths of the digests.\<close>

definition digests_ok :: "('a) crypto_ext_scheme \<Rightarrow> bool" where
  "digests_ok X = ((\<forall>bs. length (x_sha256 X bs) = 32) \<and> (\<forall>k bs. length (x_hmac_sha512 X k bs) = 64))"

section \<open>Errors\<close>

datatype crypto_error =
    CryptoRandom string | CryptoMnemonic string | CryptoDerivationPath | CryptoDerivationIndex
  | CryptoPrivateKey | CryptoPublicKey | CryptoSignature | CryptoEncoding string

fun encoding_error_string :: "encoding_error \<Rightarrow> string" where
  "encoding_error_string (Encode e) = ''canonical encoding failed: '' @ e"
| "encoding_error_string (Decode e) = ''canonical decoding failed: '' @ e"

fun crypto_error_string :: "crypto_error \<Rightarrow> string" where
  "crypto_error_string (CryptoRandom e) = ''secure random generation failed: '' @ e"
| "crypto_error_string (CryptoMnemonic e) = ''invalid mnemonic: '' @ e"
| "crypto_error_string CryptoDerivationPath = ''invalid derivation path''"
| "crypto_error_string CryptoDerivationIndex = ''invalid child derivation index''"
| "crypto_error_string CryptoPrivateKey = ''invalid private key''"
| "crypto_error_string CryptoPublicKey = ''invalid public key''"
| "crypto_error_string CryptoSignature = ''invalid signature''"
| "crypto_error_string (CryptoEncoding e) = ''canonical encoding failed: '' @ e"

section \<open>Keys and signatures\<close>

datatype key_pair = KeyPair (kp_secret: bytes)

definition DEVNET_FAUCET_SECRET :: bytes where
  "DEVNET_FAUCET_SECRET = replicate 32 0xf0"

definition devnet_faucet :: key_pair where
  "devnet_faucet = KeyPair DEVNET_FAUCET_SECRET"

definition kp_public_key :: "('a) crypto_ext_scheme \<Rightarrow> key_pair \<Rightarrow> public_key" where
  "kp_public_key X k = PublicKey (x_ed25519_public X (kp_secret k))"

definition kp_sign :: "('a) crypto_ext_scheme \<Rightarrow> key_pair \<Rightarrow> bytes \<Rightarrow> signature" where
  "kp_sign X k message = Signature (x_ed25519_sign X (kp_secret k) message)"

definition kp_verify :: "('a) crypto_ext_scheme \<Rightarrow> public_key \<Rightarrow> bytes \<Rightarrow> signature \<Rightarrow> bool" where
  "kp_verify X pk message sig =
     (if x_ed25519_key_ok X (pk_bytes pk)
      then x_ed25519_verify X (pk_bytes pk) message (sig_bytes sig) else False)"

section \<open>Identifiers\<close>

definition sha256_domain :: "('a) crypto_ext_scheme \<Rightarrow> string \<Rightarrow> bytes \<Rightarrow> bytes" where
  "sha256_domain X domain bs = x_sha256 X (str_bytes domain @ bs)"

definition address_from_public_key :: "('a) crypto_ext_scheme \<Rightarrow> public_key \<Rightarrow> address" where
  "address_from_public_key X pk =
     address_from_hash (take 20 (x_sha256 X (str_bytes ''MNA/address/v1'' @ pk_bytes pk)))"

definition hash_encoded ::
    "('a) crypto_ext_scheme \<Rightarrow> string \<Rightarrow> encoding_error + bytes \<Rightarrow> crypto_error + hash" where
  "hash_encoded X domain encoded =
     (case encoded of
        Inl e \<Rightarrow> Err (CryptoEncoding (encoding_error_string e))
      | Inr bs \<Rightarrow> Ok (Hash (sha256_domain X domain bs)))"

definition transaction_id :: "('a) crypto_ext_scheme \<Rightarrow> transaction \<Rightarrow> crypto_error + hash" where
  "transaction_id X tx = hash_encoded X ''MNA/tx/v1'' (x_enc_transaction X (tx_unsigned tx))"

definition token_operation_id :: "('a) crypto_ext_scheme \<Rightarrow> token_operation \<Rightarrow> crypto_error + hash" where
  "token_operation_id X op =
     hash_encoded X ''MNA/token-operation/v1'' (x_enc_token_operation X (tk_unsigned op))"

definition token_id_from_operation :: "('a) crypto_ext_scheme \<Rightarrow> hash \<Rightarrow> hash" where
  "token_id_from_operation X operation_id =
     Hash (sha256_domain X ''MNA/token-id/v1'' (hash_bytes operation_id))"

definition mna_swap_operation_id ::
    "('a) crypto_ext_scheme \<Rightarrow> mna_swap_operation \<Rightarrow> crypto_error + hash" where
  "mna_swap_operation_id X op = hash_encoded X ''MNA/mna-swap/v1'' (x_enc_mna_swap X (sw_unsigned op))"

definition mna_reserve_operation_id ::
    "('a) crypto_ext_scheme \<Rightarrow> mna_reserve_operation \<Rightarrow> crypto_error + hash" where
  "mna_reserve_operation_id X op = hash_encoded X ''MNA/mna-reserve/v1'' (x_enc_mna_reserve X op)"

definition program_operation_id ::
    "('a) crypto_ext_scheme \<Rightarrow> program_operation \<Rightarrow> crypto_error + hash" where
  "program_operation_id X op = hash_encoded X ''MNA/program-operation/v1'' (x_enc_program X op)"

definition block_header_id :: "('a) crypto_ext_scheme \<Rightarrow> block_header \<Rightarrow> crypto_error + hash" where
  "block_header_id X h = hash_encoded X ''MNA/block/v1'' (x_enc_header X h)"

text \<open>What is signed: the encoding of the unsigned part; a header with its signature removed.\<close>

definition header_signing_bytes ::
    "('a) crypto_ext_scheme \<Rightarrow> block_header \<Rightarrow> encoding_error + bytes" where
  "header_signing_bytes X h = x_enc_header X (h\<lparr>bh_proposer_signature := None\<rparr>)"

section \<open>The Merkle root\<close>

definition merkle_node :: "('a) crypto_ext_scheme \<Rightarrow> hash \<Rightarrow> hash \<Rightarrow> hash" where
  "merkle_node X l r = Hash (sha256_domain X ''MNA/merkle/v1'' (hash_bytes l @ hash_bytes r))"

text \<open>One pass over \<open>layer.chunks(2)\<close>: a last chunk of one is paired with itself.\<close>

fun merkle_next :: "('a) crypto_ext_scheme \<Rightarrow> hash list \<Rightarrow> hash list" where
  "merkle_next X [] = []"
| "merkle_next X [a] = [merkle_node X a a]"
| "merkle_next X (a # b # layer) = merkle_node X a b # merkle_next X layer"

lemma length_merkle_next: "length (merkle_next X layer) = (length layer + 1) div 2"
  by (induction X layer rule: merkle_next.induct) auto

function merkle_loop :: "('a) crypto_ext_scheme \<Rightarrow> hash list \<Rightarrow> hash list" where
  "merkle_loop X layer = (if 1 < length layer then merkle_loop X (merkle_next X layer) else layer)"
  by pat_completeness auto
termination
  by (relation "measure (\<lambda>(X, layer). length layer)") (auto simp: length_merkle_next)

declare merkle_loop.simps [simp del]

definition merkle_root :: "('a) crypto_ext_scheme \<Rightarrow> hash list \<Rightarrow> hash" where
  "merkle_root X leaves =
     (if leaves = [] then Hash (sha256_domain X ''MNA/tx-root/v1'' [])
      else merkle_loop X leaves ! 0)"

section \<open>Hardened derivation\<close>

fun derive_steps :: "('a) crypto_ext_scheme \<Rightarrow> bytes \<Rightarrow> bytes \<Rightarrow> u32 list \<Rightarrow> crypto_error + bytes" where
  "derive_steps X key chain_code [] = Ok key"
| "derive_steps X key chain_code (index # path) =
     (if 0x80000000 \<le> index then Err CryptoDerivationIndex
      else let child_index = or index 0x80000000;
               child = x_hmac_sha512 X chain_code ([0] @ key @ to_be_bytes child_index)
           in derive_steps X (take 32 child) (drop 32 child) path)"

definition derive_hardened_path ::
    "('a) crypto_ext_scheme \<Rightarrow> bytes \<Rightarrow> u32 list \<Rightarrow> crypto_error + bytes" where
  "derive_hardened_path X seed path =
     (let master = x_hmac_sha512 X (str_bytes ''ed25519 seed'') seed
      in derive_steps X (take 32 master) (drop 32 master) path)"

definition derive_wallet_key :: "('a) crypto_ext_scheme \<Rightarrow> bytes \<Rightarrow> crypto_error + key_pair" where
  "derive_wallet_key X seed =
     (case derive_hardened_path X seed [44, 9999, 0, 0, 0] of
        Inl e \<Rightarrow> Err e
      | Inr secret \<Rightarrow> Ok (KeyPair secret))"

section \<open>What the Merkle root commits to\<close>

definition wf_hash :: "hash \<Rightarrow> bool" where
  "wf_hash h = (length (hash_bytes h) = 32)"

text \<open>
  SHA-256 does not confuse two of the given inputs. The statements below ask it of the finitely many
  byte strings that they hash, never of all of them.
\<close>

definition collision_free :: "('a) crypto_ext_scheme \<Rightarrow> bytes set \<Rightarrow> bool" where
  "collision_free X inputs = inj_on (x_sha256 X) inputs"

lemma collision_free_subset: "collision_free X A \<Longrightarrow> B \<subseteq> A \<Longrightarrow> collision_free X B"
  unfolding collision_free_def by (rule inj_on_subset)

lemma sha256_domain_inj:
  "collision_free X A \<Longrightarrow> str_bytes d @ a \<in> A \<Longrightarrow> str_bytes d @ b \<in> A \<Longrightarrow>
    sha256_domain X d a = sha256_domain X d b \<Longrightarrow> a = b"
  unfolding sha256_domain_def collision_free_def by (metis inj_onD same_append_eq)

text \<open>The byte strings that one layer, and the whole computation, of a Merkle root hash.\<close>

definition node_input :: "hash \<Rightarrow> hash \<Rightarrow> bytes" where
  "node_input l r = str_bytes ''MNA/merkle/v1'' @ hash_bytes l @ hash_bytes r"

fun layer_inputs :: "hash list \<Rightarrow> bytes set" where
  "layer_inputs [] = {}"
| "layer_inputs [a] = {node_input a a}"
| "layer_inputs (a # b # layer) = insert (node_input a b) (layer_inputs layer)"

function merkle_inputs :: "('a) crypto_ext_scheme \<Rightarrow> hash list \<Rightarrow> bytes set" where
  "merkle_inputs X layer =
     (if 1 < length layer then layer_inputs layer \<union> merkle_inputs X (merkle_next X layer) else {})"
  by pat_completeness auto
termination
  by (relation "measure (\<lambda>(X, layer). length layer)") (auto simp: length_merkle_next)

declare merkle_inputs.simps [simp del]

lemma wf_merkle_node: "digests_ok X \<Longrightarrow> wf_hash (merkle_node X a b)"
  by (simp add: wf_hash_def merkle_node_def sha256_domain_def digests_ok_def)

lemma merkle_node_inj:
  assumes "collision_free X A" "node_input a b \<in> A" "node_input c d \<in> A"
    and "wf_hash a" "wf_hash c" "merkle_node X a b = merkle_node X c d"
  shows "a = c \<and> b = d"
proof -
  have same: "sha256_domain X ''MNA/merkle/v1'' (hash_bytes a @ hash_bytes b) =
      sha256_domain X ''MNA/merkle/v1'' (hash_bytes c @ hash_bytes d)"
    using assms(6) unfolding merkle_node_def by (rule hash.inject [THEN iffD1])
  have "hash_bytes a @ hash_bytes b = hash_bytes c @ hash_bytes d"
    using assms(2,3) unfolding node_input_def by (rule sha256_domain_inj [OF assms(1) _ _ same])
  with assms(4,5) show ?thesis by (auto simp: wf_hash_def intro: hash.expand)
qed

lemma merkle_next_wf:
  "digests_ok X \<Longrightarrow> \<forall>h \<in> set (merkle_next X layer). wf_hash h"
  by (induction X layer rule: merkle_next.induct) (auto simp: wf_merkle_node)

lemma merkle_next_inj:
  "collision_free X A \<Longrightarrow> layer_inputs xs \<subseteq> A \<Longrightarrow> layer_inputs ys \<subseteq> A \<Longrightarrow> length xs = length ys \<Longrightarrow>
    \<forall>h \<in> set (xs @ ys). wf_hash h \<Longrightarrow> merkle_next X xs = merkle_next X ys \<Longrightarrow> xs = ys"
proof (induction X xs arbitrary: ys rule: merkle_next.induct)
  case (1 X)
  then show ?case by simp
next
  case (2 X a)
  then obtain c where "ys = [c]" by (cases ys) auto
  with 2 show ?case by (auto dest: merkle_node_inj)
next
  case (3 X a b layer)
  then obtain c d ys' where ys: "ys = c # d # ys'"
    by (metis length_Suc_conv length_Cons)
  with "3.prems" have "a = c \<and> b = d" by (auto dest: merkle_node_inj)
  moreover have "layer = ys'" using 3 ys by simp
  ultimately show ?case using ys by simp
qed

lemma merkle_loop_inj:
  "collision_free X A \<Longrightarrow> merkle_inputs X xs \<subseteq> A \<Longrightarrow> merkle_inputs X ys \<subseteq> A \<Longrightarrow> digests_ok X \<Longrightarrow>
    length xs = length ys \<Longrightarrow> \<forall>h \<in> set (xs @ ys). wf_hash h \<Longrightarrow> merkle_loop X xs = merkle_loop X ys \<Longrightarrow> xs = ys"
proof (induction X xs arbitrary: ys rule: merkle_loop.induct)
  case (1 X xs)
  show ?case
  proof (cases "1 < length xs")
    case True
    have inputs: "layer_inputs xs \<subseteq> A" "layer_inputs ys \<subseteq> A"
      "merkle_inputs X (merkle_next X xs) \<subseteq> A" "merkle_inputs X (merkle_next X ys) \<subseteq> A"
      using "1.prems" True by (auto simp: merkle_inputs.simps [of X xs] merkle_inputs.simps [of X ys])
    have eq: "merkle_loop X (merkle_next X xs) = merkle_loop X (merkle_next X ys)"
      using "1.prems" True by (simp add: merkle_loop.simps [of X xs] merkle_loop.simps [of X ys])
    have len: "length (merkle_next X xs) = length (merkle_next X ys)"
      using "1.prems" by (simp add: length_merkle_next)
    have wf: "\<forall>h \<in> set (merkle_next X xs @ merkle_next X ys). wf_hash h"
      using merkle_next_wf [OF "1.prems"(4)] by auto
    have "merkle_next X xs = merkle_next X ys"
      by (rule "1.IH" [OF True "1.prems"(1) inputs(3,4) "1.prems"(4) len wf eq])
    then show ?thesis using merkle_next_inj [OF "1.prems"(1) inputs(1,2)] "1.prems" by blast
  next
    case False
    then show ?thesis using "1.prems" by (simp add: merkle_loop.simps [of X xs] merkle_loop.simps [of X ys])
  qed
qed

text \<open>The loop ends with exactly one hash, so \<open>layer[0]\<close> is in range.\<close>

lemma merkle_loop_single: "leaves \<noteq> [] \<Longrightarrow> \<exists>h. merkle_loop X leaves = [h]"
proof (induction X leaves rule: merkle_loop.induct)
  case (1 X leaves)
  show ?case
  proof (cases "1 < length leaves")
    case True
    then have "merkle_next X leaves \<noteq> []"
      using length_merkle_next [of X leaves] by auto
    with True show ?thesis using "1.IH" by (simp add: merkle_loop.simps [of X leaves])
  next
    case False
    with "1.prems" obtain h where "leaves = [h]" by (cases leaves) auto
    then show ?thesis by (simp add: merkle_loop.simps [of X "[h]"])
  qed
qed

text \<open>
  The Merkle root binds the list of operation identifiers of a block: two lists of the same length
  of 32-byte identifiers with the same root are equal, as long as SHA-256 does not confuse two of the
  strings hashed on the way to the two roots.
\<close>

theorem merkle_root_binding:
  assumes "digests_ok X" and "length xs = length ys"
    and "\<forall>h \<in> set (xs @ ys). wf_hash h" and "merkle_root X xs = merkle_root X ys"
    and "collision_free X (merkle_inputs X xs \<union> merkle_inputs X ys)"
  shows "xs = ys"
proof (cases "xs = []")
  case False
  then obtain a b where "merkle_loop X xs = [a]" "merkle_loop X ys = [b]"
    using merkle_loop_single assms(2) by (metis length_0_conv)
  with False assms have "merkle_loop X xs = merkle_loop X ys"
    by (auto simp: merkle_root_def)
  then show ?thesis using merkle_loop_inj [OF assms(5)] assms(1-3) by blast
qed (use assms in auto)

text \<open>A concrete choice of the primitives, for the witnesses of this theory.\<close>

definition toy_ext :: crypto_ext where
  "toy_ext = \<lparr>x_sha256 = (\<lambda>bs. replicate 32 (of_nat (length bs))), x_hmac_sha512 = (\<lambda>k bs. replicate 64 0),
     x_ed25519_public = id, x_ed25519_sign = (\<lambda>k m. replicate 64 0), x_ed25519_key_ok = (\<lambda>_. True),
     x_ed25519_verify = (\<lambda>_ _ _. True), x_bech32m_encode = (\<lambda>p bs. p), x_bech32m_decode = (\<lambda>_. None),
     x_enc_transaction = (\<lambda>u. Inr (replicate (unat (utx_nonce u)) 0)),
     x_enc_token_operation = (\<lambda>u. Inr (replicate (unat (utk_nonce u)) 0)),
     x_enc_mna_swap = (\<lambda>u. Inr (replicate (unat (usw_nonce u)) 0)), x_enc_mna_reserve = (\<lambda>_. Inr []),
     x_enc_program = (\<lambda>p. Inr (replicate (unat (po_nonce p)) 0)),
     x_enc_header = (\<lambda>h. Inr (replicate (unat (bh_height h)) 0))\<rparr>"

lemma toy_digests_ok: "digests_ok toy_ext"
  by (simp add: digests_ok_def toy_ext_def)

theorem merkle_root_binding_witness:
  "[HASH_ZERO, HASH_ZERO] = [HASH_ZERO, HASH_ZERO]"
  by (rule merkle_root_binding [of toy_ext])
    (simp_all add: toy_digests_ok wf_hash_def HASH_ZERO_def collision_free_def merkle_inputs.simps)

lemma merkle_next_append_even:
  "even (length xs) \<Longrightarrow> merkle_next X (xs @ ys) = merkle_next X xs @ merkle_next X ys"
  by (induction X xs rule: merkle_next.induct) auto

text \<open>
  The length is needed: because an odd last chunk is paired with itself, a list of three or more
  identifiers of odd length has the same root as the list with its last identifier repeated.
\<close>

theorem merkle_root_repeats_last:
  assumes "even (length xs)" and "xs \<noteq> []"
  shows "merkle_root X (xs @ [x]) = merkle_root X (xs @ [x, x])"
proof -
  have "merkle_next X (xs @ [x]) = merkle_next X (xs @ [x, x])"
    using assms by (simp add: merkle_next_append_even)
  with assms show ?thesis
    by (simp add: merkle_root_def merkle_loop.simps [of X "xs @ [x]"] merkle_loop.simps [of X "xs @ [x, x]"])
qed

theorem merkle_root_repeats_last_witness:
  "merkle_root toy_ext ([Hash [1], Hash [2]] @ [Hash [3]]) =
   merkle_root toy_ext ([Hash [1], Hash [2]] @ [Hash [3], Hash [3]])"
  by (rule merkle_root_repeats_last) simp_all

section \<open>Hardened derivation\<close>

lemma derive_steps_ok:
  "(\<exists>secret. derive_steps X key chain_code path = Ok secret) \<longleftrightarrow> list_all (\<lambda>i. i < 0x80000000) path"
  by (induction path arbitrary: key chain_code) (auto simp: Let_def not_le)

lemma derive_steps_length:
  "digests_ok X \<Longrightarrow> length key = 32 \<Longrightarrow> derive_steps X key chain_code path = Ok secret \<Longrightarrow>
   length secret = 32"
proof (induction path arbitrary: key chain_code)
  case (Cons index path)
  let ?child = "x_hmac_sha512 X chain_code ([0] @ key @ to_be_bytes (or index 0x80000000))"
  have "length (take 32 ?child) = 32"
    using Cons.prems(1) by (simp add: digests_ok_def)
  moreover have "derive_steps X (take 32 ?child) (drop 32 ?child) path = Ok secret"
    using Cons.prems(3) by (simp add: Let_def split: if_splits)
  ultimately show ?case using Cons.IH Cons.prems(1) by blast
qed simp

text \<open>
  The wallet path always derives: the indices of \<open>m/44'/9999'/0'/0'/0'\<close> are all below the hardened
  bit, so \<open>derive_wallet_key\<close> returns a key pair, and its secret has 32 bytes.
\<close>

theorem derive_wallet_key_total:
  assumes "digests_ok X"
  shows "\<exists>k. derive_wallet_key X seed = Ok k \<and> length (kp_secret k) = 32"
proof -
  have "\<exists>secret. derive_steps X k c [44, 9999, 0, 0, 0] = Ok secret" for k c
    unfolding derive_steps_ok by simp
  then obtain secret where "derive_hardened_path X seed [44, 9999, 0, 0, 0] = Ok secret"
    unfolding derive_hardened_path_def Let_def by blast
  moreover from this have "length secret = 32"
    unfolding derive_hardened_path_def Let_def
    by (rule derive_steps_length [OF assms, rotated]) (use assms in \<open>simp add: digests_ok_def\<close>)
  ultimately show ?thesis by (simp add: derive_wallet_key_def)
qed

theorem derive_wallet_key_total_witness:
  "\<exists>k. derive_wallet_key toy_ext [] = Ok k \<and> length (kp_secret k) = 32"
  by (rule derive_wallet_key_total) (rule toy_digests_ok)

end
