(* ===== verification/Consensus.thy ===== *)
theory Consensus
  imports Crypto
begin

text \<open>
  \<open>crates/wsc-consensus/src/lib.rs\<close>: votes, validator sets, the quorum rule and the proposer
  schedule. \<open>usize\<close> is 64 bits wide; the lengths of maps are naturals below that width. The Postcard
  encoding of a vote is the parameter \<open>enc\<close>.
\<close>

section \<open>Votes\<close>

record vote =
  vote_version :: u8
  vote_chain_id :: string
  vote_height :: u64
  vote_round :: u64
  vote_block_hash :: hash
  vote_validator :: public_key
  vote_signature :: signature

datatype consensus_error =
    CUnsupportedVersion | CWrongChainId | CWrongHeight | CWrongRound | CWrongBlock
  | CUnknownValidator | CInvalidSignature | CDuplicateVote | CEncoding string | CNoQuorum

primrec consensus_error_string :: "consensus_error \<Rightarrow> string" where
  "consensus_error_string CUnsupportedVersion = ''unsupported consensus version''"
| "consensus_error_string CWrongChainId = ''wrong chain ID''"
| "consensus_error_string CWrongHeight = ''wrong height''"
| "consensus_error_string CWrongRound = ''wrong round''"
| "consensus_error_string CWrongBlock = ''wrong block hash''"
| "consensus_error_string CUnknownValidator = ''unknown validator''"
| "consensus_error_string CInvalidSignature = ''invalid vote signature''"
| "consensus_error_string CDuplicateVote = ''duplicate validator vote''"
| "consensus_error_string (CEncoding e) = ''encoding error: '' @ e"
| "consensus_error_string CNoQuorum = ''no validator quorum''"

type_synonym vote_encoder = "vote \<Rightarrow> encoding_error + bytes"

definition SIGNATURE_ZERO :: signature where
  "SIGNATURE_ZERO = Signature (replicate 64 0)"

definition vote_signing_bytes :: "vote_encoder \<Rightarrow> vote \<Rightarrow> consensus_error + bytes" where
  "vote_signing_bytes enc v =
     map_err (\<lambda>e. CEncoding (encoding_error_string e)) (enc (v\<lparr>vote_signature := SIGNATURE_ZERO\<rparr>))"

definition vote_sign ::
    "('a) crypto_ext_scheme \<Rightarrow> vote_encoder \<Rightarrow> string \<Rightarrow> u64 \<Rightarrow> u64 \<Rightarrow> hash \<Rightarrow> key_pair \<Rightarrow>
     consensus_error + vote" where
  "vote_sign X enc chain_id height round block_hash key =
     (let v = \<lparr>vote_version = 1, vote_chain_id = chain_id, vote_height = height, vote_round = round,
               vote_block_hash = block_hash, vote_validator = kp_public_key X key,
               vote_signature = SIGNATURE_ZERO\<rparr>
      in case vote_signing_bytes enc v of
           Inl e \<Rightarrow> Err e
         | Inr bs \<Rightarrow> Ok (v\<lparr>vote_signature := kp_sign X key bs\<rparr>))"

definition vote_verify ::
    "('a) crypto_ext_scheme \<Rightarrow> vote_encoder \<Rightarrow> vote \<Rightarrow> consensus_error + unit" where
  "vote_verify X enc v =
     (if vote_version v \<noteq> 1 then Err CUnsupportedVersion
      else case vote_signing_bytes enc v of
        Inl e \<Rightarrow> Err e
      | Inr bs \<Rightarrow>
          if \<not> kp_verify X (vote_validator v) bs (vote_signature v) then Err CInvalidSignature
          else Ok ())"

section \<open>Validator sets\<close>

type_synonym validator_set = "(public_key, validator) btree_map"

definition validator_set_new :: "validator list \<Rightarrow> validator_set" where
  "validator_set_new vs = bt_collect (map (\<lambda>v. (val_public_key v, v)) vs)"

text \<open>\<open>usize::saturating_mul\<close> on lengths.\<close>

definition usize_saturating_mul :: "nat \<Rightarrow> nat \<Rightarrow> nat" where
  "usize_saturating_mul a b = min (a * b) (2 ^ 64 - 1)"

definition is_quorum :: "validator_set \<Rightarrow> nat \<Rightarrow> bool" where
  "is_quorum vs votes =
     (0 < bt_len vs \<and> usize_saturating_mul (bt_len vs) 2 \<le> usize_saturating_mul votes 3)"

definition validate_vote ::
    "('a) crypto_ext_scheme \<Rightarrow> vote_encoder \<Rightarrow> validator_set \<Rightarrow> vote \<Rightarrow> string \<Rightarrow> u64 \<Rightarrow> u64 \<Rightarrow> hash \<Rightarrow>
     consensus_error + unit" where
  "validate_vote X enc vs v chain_id height round block_hash =
     (if vote_chain_id v \<noteq> chain_id then Err CWrongChainId
      else if vote_height v \<noteq> height then Err CWrongHeight
      else if vote_round v \<noteq> round then Err CWrongRound
      else if vote_block_hash v \<noteq> block_hash then Err CWrongBlock
      else if \<not> bt_contains vs (vote_validator v) then Err CUnknownValidator
      else vote_verify X enc v)"

section \<open>Vote sets\<close>

record vote_set =
  vs_chain_id :: string
  vs_height :: u64
  vs_round :: u64
  vs_block_hash :: hash
  vs_votes :: "(public_key, vote) btree_map"

definition vote_set_new :: "string \<Rightarrow> u64 \<Rightarrow> u64 \<Rightarrow> hash \<Rightarrow> vote_set" where
  "vote_set_new chain_id height round block_hash =
     \<lparr>vs_chain_id = chain_id, vs_height = height, vs_round = round, vs_block_hash = block_hash,
      vs_votes = bt_empty\<rparr>"

definition vote_set_is_quorum :: "vote_set \<Rightarrow> validator_set \<Rightarrow> bool" where
  "vote_set_is_quorum s vs = is_quorum vs (bt_len (vs_votes s))"

definition vote_set_record ::
    "('a) crypto_ext_scheme \<Rightarrow> vote_encoder \<Rightarrow> vote_set \<Rightarrow> validator_set \<Rightarrow> vote \<Rightarrow>
     (consensus_error + bool) \<times> vote_set" where
  "vote_set_record X enc s vs v =
     (case validate_vote X enc vs v (vs_chain_id s) (vs_height s) (vs_round s) (vs_block_hash s) of
        Inl e \<Rightarrow> (Err e, s)
      | Inr _ \<Rightarrow>
          if bt_contains (vs_votes s) (vote_validator v) then (Err CDuplicateVote, s)
          else let s' = s\<lparr>vs_votes := bt_insert (vote_validator v) v (vs_votes s)\<rparr>
               in (Ok (is_quorum vs (bt_len (vs_votes s'))), s'))"

text \<open>
  The index is computed in \<open>usize\<close>. The sum is written with the wrap-around of a release build; a
  debug build panics where it exceeds 64 bits.
\<close>

definition proposer_for_height :: "validator list \<Rightarrow> u64 \<Rightarrow> u64 \<Rightarrow> validator option" where
  "proposer_for_height validators height round =
     (if validators = [] then None
      else let index = unat (height + round) mod length validators
           in if index < length validators then Some (validators ! index) else None)"

section \<open>Invariants of a vote set\<close>

definition vote_set_ok ::
    "('a) crypto_ext_scheme \<Rightarrow> vote_encoder \<Rightarrow> validator_set \<Rightarrow> vote_set \<Rightarrow> bool" where
  "vote_set_ok X enc vs s =
     (\<forall>k v. bt_get (vs_votes s) k = Some v \<longrightarrow>
        vote_validator v = k \<and>
        validate_vote X enc vs v (vs_chain_id s) (vs_height s) (vs_round s) (vs_block_hash s) = Ok ())"

lemma validate_vote_Ok:
  "validate_vote X enc vs v c h r b = Ok () \<longleftrightarrow>
    vote_chain_id v = c \<and> vote_height v = h \<and> vote_round v = r \<and> vote_block_hash v = b \<and>
    bt_contains vs (vote_validator v) \<and> vote_verify X enc v = Ok ()"
  by (simp add: validate_vote_def)

lemma vote_set_ok_get:
  "vote_set_ok X enc vs s \<Longrightarrow> k \<in> bt_keys (vs_votes s) \<Longrightarrow>
    \<exists>v. bt_get (vs_votes s) k = Some v \<and> vote_block_hash v = vs_block_hash s"
  by (auto simp: vote_set_ok_def validate_vote_Ok bt_keys_def bt_contains_def [of "vs_votes s"])

lemma vote_set_ok_keys: "vote_set_ok X enc vs s \<Longrightarrow> bt_keys (vs_votes s) \<subseteq> bt_keys vs"
  by (auto simp: vote_set_ok_def bt_keys_def bt_contains_def [of "vs_votes s"] validate_vote_Ok)

lemma vote_set_ok_len: "vote_set_ok X enc vs s \<Longrightarrow> bt_len (vs_votes s) \<le> bt_len vs"
  using card_mono [OF finite_bt_keys vote_set_ok_keys] by (simp add: card_bt_keys)

lemma vote_set_ok_new: "vote_set_ok X enc vs (vote_set_new c h r b)"
  by (simp add: vote_set_ok_def vote_set_new_def)

text \<open>
  Recording a vote keeps the vote set sound: every stored vote is signed by a validator of the
  set for this chain, height, round and block, and is stored under its signer, so a vote set never
  counts more votes than there are validators. A rejected vote leaves the set as it was.
\<close>

theorem vote_set_record_sound:
  assumes "vote_set_ok X enc vs s"
  shows "vote_set_ok X enc vs (snd (vote_set_record X enc s vs v)) \<and>
    bt_len (vs_votes (snd (vote_set_record X enc s vs v))) \<le> bt_len vs \<and>
    (\<forall>e. fst (vote_set_record X enc s vs v) = Err e \<longrightarrow> snd (vote_set_record X enc s vs v) = s)"
proof -
  have ok: "vote_set_ok X enc vs (snd (vote_set_record X enc s vs v))"
    using assms by (auto simp: vote_set_ok_def vote_set_record_def Let_def split: sum.splits)
  then show ?thesis
    using vote_set_ok_len [OF ok] by (auto simp: vote_set_record_def Let_def split: sum.splits)
qed

text \<open>A concrete instance for the witnesses: one or three validators, every signature valid.\<close>

definition toy_enc :: vote_encoder where
  "toy_enc = (\<lambda>_. Inr [])"

definition toy_validators :: "validator list" where
  "toy_validators = map (\<lambda>n. \<lparr>val_name = ''v'', val_public_key = PublicKey [n]\<rparr>) [1, 2, 3]"

definition toy_vote :: "byte \<Rightarrow> vote" where
  "toy_vote n = \<lparr>vote_version = 1, vote_chain_id = CHAIN_ID, vote_height = 4, vote_round = 0,
     vote_block_hash = HASH_ZERO, vote_validator = PublicKey [n], vote_signature = SIGNATURE_ZERO\<rparr>"

definition toy_vote_set :: vote_set where
  "toy_vote_set = vote_set_new CHAIN_ID 4 0 HASH_ZERO"

lemma toy_vote_ok:
  "n \<in> {1, 2, 3} \<Longrightarrow>
   validate_vote toy_ext toy_enc (validator_set_new toy_validators) (toy_vote n) CHAIN_ID 4 0 HASH_ZERO = Ok ()"
  by (auto simp: validate_vote_Ok vote_verify_def vote_signing_bytes_def toy_vote_def toy_enc_def
      toy_ext_def kp_verify_def validator_set_new_def bt_contains_def bt_get_collect toy_validators_def)

theorem vote_set_record_sound_witness:
  "vote_set_ok toy_ext toy_enc (validator_set_new toy_validators)
     (snd (vote_set_record toy_ext toy_enc toy_vote_set (validator_set_new toy_validators) (toy_vote 1)))"
  using vote_set_record_sound [of toy_ext toy_enc "validator_set_new toy_validators" toy_vote_set "toy_vote 1"]
  by (simp add: toy_vote_set_def vote_set_ok_new)

text \<open>
  A validator is counted once: after an accepted vote, any further vote by the same validator is
  refused as a duplicate or for its contents, and does not change the set.
\<close>

theorem vote_counted_once:
  assumes "fst (vote_set_record X enc s vs v) = Ok q" and "vote_validator v' = vote_validator v"
  shows "\<exists>e. vote_set_record X enc (snd (vote_set_record X enc s vs v)) vs v' =
    (Err e, snd (vote_set_record X enc s vs v))"
  using assms by (auto simp: vote_set_record_def Let_def split: sum.splits if_splits)

theorem vote_counted_once_witness:
  "\<exists>e. vote_set_record toy_ext toy_enc
     (snd (vote_set_record toy_ext toy_enc toy_vote_set (validator_set_new toy_validators) (toy_vote 1)))
     (validator_set_new toy_validators) (toy_vote 1) =
   (Err e, snd (vote_set_record toy_ext toy_enc toy_vote_set (validator_set_new toy_validators) (toy_vote 1)))"
proof (rule vote_counted_once [where q = False])
  show "fst (vote_set_record toy_ext toy_enc toy_vote_set (validator_set_new toy_validators) (toy_vote 1)) = Ok False"
    using toy_vote_ok [of 1]
    by (simp add: vote_set_record_def toy_vote_set_def vote_set_new_def is_quorum_def bt_len_insert
        usize_saturating_mul_def validator_set_new_def bt_collect_def toy_validators_def)
qed simp

section \<open>Quorums\<close>

text \<open>
  What finality relies on: any two quorums of one validator set meet in at least a third of it. The
  locale is the argument of the intersection, for any notion of quorum of at least two thirds.
\<close>

locale two_thirds_quorums =
  fixes members :: "'v set" and quorum :: "'v set \<Rightarrow> bool"
  assumes finite_members: "finite members"
    and quorum_members: "quorum q \<Longrightarrow> q \<subseteq> members"
    and quorum_size: "quorum q \<Longrightarrow> 2 * card members \<le> 3 * card q"
begin

lemma quorums_meet:
  assumes "quorum p" and "quorum q"
  shows "card members \<le> 3 * card (p \<inter> q)"
proof -
  have fin: "finite p" "finite q"
    using quorum_members assms finite_members by (auto intro: finite_subset)
  have "card p + card q = card (p \<union> q) + card (p \<inter> q)"
    using fin by (rule card_Un_Int)
  moreover have "card (p \<union> q) \<le> card members"
    using quorum_members assms finite_members by (intro card_mono) auto
  moreover have "2 * card members \<le> 3 * card p" "2 * card members \<le> 3 * card q"
    using quorum_size assms by auto
  ultimately show ?thesis by linarith
qed

lemma common_honest:
  assumes "quorum p" "quorum q" and "3 * card faulty < card members" "finite faulty"
  shows "\<exists>v \<in> p \<inter> q. v \<notin> faulty"
proof (rule ccontr)
  assume "\<not> ?thesis"
  then have "p \<inter> q \<subseteq> faulty" by auto
  then have "card (p \<inter> q) \<le> card faulty" using assms(4) by (rule card_mono [rotated])
  with quorums_meet [OF assms(1,2)] assms(3) show False by linarith
qed

end

definition quorum_keys :: "validator_set \<Rightarrow> public_key set \<Rightarrow> bool" where
  "quorum_keys vs ks = (ks \<subseteq> bt_keys vs \<and> is_quorum vs (card ks) \<and> 3 * bt_len vs < 2 ^ 64)"

interpretation vq: two_thirds_quorums "bt_keys vs" "quorum_keys vs" for vs
proof unfold_locales
  fix q assume "quorum_keys vs q"
  moreover from this have "card q \<le> bt_len vs"
    using card_mono [OF finite_bt_keys, of q vs] by (auto simp: quorum_keys_def card_bt_keys)
  ultimately show "2 * card (bt_keys vs) \<le> 3 * card q"
    by (auto simp: quorum_keys_def is_quorum_def usize_saturating_mul_def card_bt_keys)
qed (auto simp: quorum_keys_def)

lemma quorum_keys_vote_set:
  "vote_set_ok X enc vs s \<Longrightarrow> vote_set_is_quorum s vs \<Longrightarrow> 3 * bt_len vs < 2 ^ 64 \<Longrightarrow>
   quorum_keys vs (bt_keys (vs_votes s))"
  by (auto simp: quorum_keys_def vote_set_is_quorum_def card_bt_keys dest: vote_set_ok_keys)

text \<open>
  Two vote sets that both reached the quorum of the same validator set share a validator outside
  any set of faulty validators smaller than a third: no two blocks gather a quorum for the same
  height and round unless a third of the validators signed both.
\<close>

theorem quorums_share_honest_validator:
  assumes "vote_set_ok X enc vs s" "vote_set_is_quorum s vs"
    and "vote_set_ok X enc vs s'" "vote_set_is_quorum s' vs"
    and "3 * bt_len vs < 2 ^ 64" and "finite faulty" "3 * card faulty < bt_len vs"
  shows "\<exists>k v v'. k \<notin> faulty \<and> bt_get (vs_votes s) k = Some v \<and> bt_get (vs_votes s') k = Some v' \<and>
    vote_block_hash v = vs_block_hash s \<and> vote_block_hash v' = vs_block_hash s'"
proof -
  have "quorum_keys vs (bt_keys (vs_votes s))" "quorum_keys vs (bt_keys (vs_votes s'))"
    using assms quorum_keys_vote_set by blast+
  then obtain k where "k \<in> bt_keys (vs_votes s) \<inter> bt_keys (vs_votes s')" "k \<notin> faulty"
    using vq.common_honest [of vs _ _ faulty] assms(6,7) by (auto simp: card_bt_keys)
  then show ?thesis
    using vote_set_ok_get [OF assms(1), of k] vote_set_ok_get [OF assms(3), of k] by blast
qed

definition toy_quorum :: vote_set where
  "toy_quorum = toy_vote_set\<lparr>vs_votes := bt_insert (PublicKey [1]) (toy_vote 1)
     (bt_insert (PublicKey [2]) (toy_vote 2) bt_empty)\<rparr>"

lemma toy_quorum_ok:
  "vote_set_ok toy_ext toy_enc (validator_set_new toy_validators) toy_quorum"
  "vote_set_is_quorum toy_quorum (validator_set_new toy_validators)"
  "bt_len (validator_set_new toy_validators) = 3"
proof -
  show len: "bt_len (validator_set_new toy_validators) = 3"
    by (simp add: bt_len_insert validator_set_new_def bt_collect_def toy_validators_def)
  show "vote_set_is_quorum toy_quorum (validator_set_new toy_validators)"
    by (simp add: vote_set_is_quorum_def is_quorum_def len usize_saturating_mul_def toy_quorum_def
        bt_len_insert)
  show "vote_set_ok toy_ext toy_enc (validator_set_new toy_validators) toy_quorum"
    using toy_vote_ok [of 1] toy_vote_ok [of 2]
    by (simp add: vote_set_ok_def toy_quorum_def toy_vote_set_def vote_set_new_def toy_vote_def)
qed

theorem quorums_share_honest_validator_witness:
  "\<exists>k v v'. k \<notin> {} \<and> bt_get (vs_votes toy_quorum) k = Some v \<and> bt_get (vs_votes toy_quorum) k = Some v' \<and>
    vote_block_hash v = vs_block_hash toy_quorum \<and> vote_block_hash v' = vs_block_hash toy_quorum"
  by (rule quorums_share_honest_validator [where X = toy_ext and enc = toy_enc
        and vs = "validator_set_new toy_validators"]) (simp_all add: toy_quorum_ok)

section \<open>The proposer schedule\<close>

text \<open>
  Round robin: for a non-empty validator list every height and round has exactly one scheduled
  proposer, and while heights do not overflow, consecutive heights visit the list in order, so every
  validator is scheduled once in any run of as many heights as there are validators.
\<close>

theorem proposer_round_robin:
  assumes "validators \<noteq> []" and "unat height + unat round + k < 2 ^ 64"
  shows "proposer_for_height validators (height + of_nat k) round =
    Some (validators ! ((unat height + unat round + k) mod length validators))"
proof -
  have "height + of_nat k + round = of_nat (unat height + unat round + k)"
    by (simp add: ac_simps)
  then have "unat (height + of_nat k + round) = unat height + unat round + k"
    using assms(2) by (simp only: unat_of_nat) simp
  then show ?thesis using assms(1) by (simp add: proposer_for_height_def)
qed

theorem proposer_round_robin_witness:
  "proposer_for_height toy_validators (5 + of_nat 2) 0 = Some (toy_validators ! ((5 + 0 + 2) mod 3))"
  using proposer_round_robin [of toy_validators 5 0 2] by (simp add: toy_validators_def)

end
