(* ===== verification/Program_Package.thy ===== *)
theory Program_Package
  imports Crypto
begin

text \<open>
  \<open>crates/wsc-program/src/lib.rs\<close>: the binary envelope of a program package and its metered
  execution. JSON, the WASM parser and validator, hexadecimal encoding and the \<open>wasmi\<close> engine are
  crates outside the repository, fields of \<open>program_ext\<close>. The engine is the outcome of one run: the
  stage that failed, or the returned value with the fuel consumed.
\<close>

section \<open>Packages and the external crates\<close>

record program_manifest =
  pm_name :: string
  pm_language :: string
  pm_compiler_version :: string
  pm_vm_version :: string
  pm_entrypoint :: string
  pm_capabilities :: "string list"
  pm_abi :: "(string, string) btree_map"

record program_package =
  pkg_manifest :: program_manifest
  pkg_wasm :: bytes
  pkg_code_hash :: string

datatype program_error =
    PackageTooLarge | InvalidHeader | PEncoding string | HashMismatch | WasmValidation string
  | UnsupportedImport string | PRuntime string | MissingEntrypoint string | InvalidGas

fun program_error_string :: "program_error \<Rightarrow> string" where
  "program_error_string PackageTooLarge = ''package is too large''"
| "program_error_string InvalidHeader = ''invalid .it magic or version''"
| "program_error_string (PEncoding e) = ''invalid package encoding: '' @ e"
| "program_error_string HashMismatch = ''code hash mismatch''"
| "program_error_string (WasmValidation e) = ''WASM validation failed: '' @ e"
| "program_error_string (UnsupportedImport e) = ''unsupported WASM import: '' @ e"
| "program_error_string (PRuntime e) = ''runtime error: '' @ e"
| "program_error_string (MissingEntrypoint e) = ''entrypoint is not exported: '' @ e"
| "program_error_string InvalidGas = ''gas limit must be positive''"

text \<open>
  The payloads of a module in order: a parse error, or the imports of an import section (any other
  payload is a section without imports), each import readable or not.
\<close>

type_synonym wasm_payload = "string + (string + string \<times> string) list"

datatype engine_outcome =
    EngineFailed string          \<comment> \<open>module, fuel, linker, instantiation or start error\<close>
  | EngineNoEntrypoint           \<comment> \<open>no export of that name and type\<close>
  | EngineTrapped string         \<comment> \<open>the call failed\<close>
  | EngineReturned u32 "u64 option"  \<comment> \<open>value and \<open>fuel_consumed()\<close>\<close>

record program_ext = crypto_ext +
  x_hex_encode :: "bytes \<Rightarrow> string"
  x_manifest_to_json :: "program_manifest \<Rightarrow> string + bytes"
  x_manifest_from_json :: "bytes \<Rightarrow> string + program_manifest"
  x_wasm_payloads :: "bytes \<Rightarrow> wasm_payload list"
  x_wasm_validate :: "bytes \<Rightarrow> string + unit"
  x_engine :: "bytes \<Rightarrow> string \<Rightarrow> u64 \<Rightarrow> engine_outcome"

definition IT_MAGIC :: bytes where "IT_MAGIC = str_bytes ''ITPK''"
definition IT_VERSION :: u16 where "IT_VERSION = 1"
definition MAX_PACKAGE_BYTES :: nat where "MAX_PACKAGE_BYTES = 2 * 1024 * 1024"
definition MAX_WASM_BYTES :: nat where "MAX_WASM_BYTES = 1 * 1024 * 1024"

section \<open>Validation\<close>

definition hash_wasm :: "('a) program_ext_scheme \<Rightarrow> bytes \<Rightarrow> string" where
  "hash_wasm X wasm = x_hex_encode X (x_sha256 X wasm)"

fun check_imports :: "(string + string \<times> string) list \<Rightarrow> program_error + unit" where
  "check_imports [] = Ok ()"
| "check_imports (Inl e # rest) = Err (WasmValidation e)"
| "check_imports (Inr (module, name) # rest) =
     (if module \<noteq> ''env'' \<or> name \<noteq> ''host_log''
      then Err (UnsupportedImport (module @ ''::'' @ name)) else check_imports rest)"

fun check_payloads :: "wasm_payload list \<Rightarrow> program_error + unit" where
  "check_payloads [] = Ok ()"
| "check_payloads (Inl e # rest) = Err (WasmValidation e)"
| "check_payloads (Inr imports # rest) =
     (case check_imports imports of Inl e \<Rightarrow> Err e | Inr _ \<Rightarrow> check_payloads rest)"

definition validate_wasm :: "('a) program_ext_scheme \<Rightarrow> bytes \<Rightarrow> string \<Rightarrow> program_error + unit" where
  "validate_wasm X wasm entrypoint =
     (if MAX_WASM_BYTES < length wasm then Err PackageTooLarge
      else case check_payloads (x_wasm_payloads X wasm) of
        Inl e \<Rightarrow> Err e
      | Inr _ \<Rightarrow>
          (case x_wasm_validate X wasm of
             Inl e \<Rightarrow> Err (WasmValidation e)
           | Inr _ \<Rightarrow> if entrypoint = [] then Err (MissingEntrypoint entrypoint) else Ok ()))"

definition package_verify :: "('a) program_ext_scheme \<Rightarrow> program_package \<Rightarrow> program_error + unit" where
  "package_verify X p =
     (if pkg_code_hash p \<noteq> hash_wasm X (pkg_wasm p) then Err HashMismatch
      else validate_wasm X (pkg_wasm p) (pm_entrypoint (pkg_manifest p)))"

definition package_from_wasm ::
    "('a) program_ext_scheme \<Rightarrow> program_manifest \<Rightarrow> bytes \<Rightarrow> program_error + program_package" where
  "package_from_wasm X manifest wasm =
     (if MAX_WASM_BYTES < length wasm then Err PackageTooLarge
      else case validate_wasm X wasm (pm_entrypoint manifest) of
        Inl e \<Rightarrow> Err e
      | Inr _ \<Rightarrow> Ok \<lparr>pkg_manifest = manifest, pkg_wasm = wasm, pkg_code_hash = hash_wasm X wasm\<rparr>)"

text \<open>The slice \<open>[..40]\<close> is in range for every verified package: its hash has 64 characters.\<close>

definition program_id :: "program_package \<Rightarrow> string" where
  "program_id p = ''it1'' @ take 40 (pkg_code_hash p)"

section \<open>The envelope\<close>

definition package_encode :: "('a) program_ext_scheme \<Rightarrow> program_package \<Rightarrow> program_error + bytes" where
  "package_encode X p =
     (case x_manifest_to_json X (pkg_manifest p) of
        Inl e \<Rightarrow> Err (PEncoding e)
      | Inr manifest \<Rightarrow>
          if 2 ^ 32 - 1 < length manifest \<or> 2 ^ 32 - 1 < length (pkg_wasm p) then Err PackageTooLarge
          else let out = IT_MAGIC @ to_le_bytes IT_VERSION
                 @ to_le_bytes (of_nat (length manifest) :: u32)
                 @ to_le_bytes (of_nat (length (pkg_wasm p)) :: u32)
                 @ [0, 0] @ manifest @ pkg_wasm p @ str_bytes (pkg_code_hash p)
               in if MAX_PACKAGE_BYTES < length out then Err PackageTooLarge else Ok out)"

definition usize_checked_add :: "nat \<Rightarrow> nat \<Rightarrow> nat option" where
  "usize_checked_add a b = (if a + b < 2 ^ 64 then Some (a + b) else None)"

definition package_decode :: "('a) program_ext_scheme \<Rightarrow> bytes \<Rightarrow> program_error + program_package" where
  "package_decode X bs =
     (if MAX_PACKAGE_BYTES < length bs \<or> length bs < 16 + 64 then Err InvalidHeader
      else if take 4 bs \<noteq> IT_MAGIC \<or> from_le_bytes [bs ! 4, bs ! 5] \<noteq> IT_VERSION then Err InvalidHeader
      else let ml = unat (from_le_bytes (take 4 (drop 6 bs)) :: u32);
               wl = unat (from_le_bytes (take 4 (drop 10 bs)) :: u32);
               start = 16
           in case usize_checked_add start ml of
                None \<Rightarrow> Err (PEncoding ''manifest overflow'')
              | Some wasm_start \<Rightarrow>
                  (case usize_checked_add wasm_start wl of
                     None \<Rightarrow> Err (PEncoding ''wasm overflow'')
                   | Some hash_start \<Rightarrow>
                       if hash_start + 64 \<noteq> length bs then Err (PEncoding ''length mismatch'')
                       else (case x_manifest_from_json X (take ml (drop start bs)) of
                          Inl e \<Rightarrow> Err (PEncoding e)
                        | Inr manifest \<Rightarrow>
                            let wasm = take wl (drop wasm_start bs);
                                tail = drop hash_start bs
                            in if \<not> utf8_ok (map unat tail) then Err (PEncoding ''invalid utf-8 sequence'')
                               else let package = \<lparr>pkg_manifest = manifest, pkg_wasm = wasm,
                                                   pkg_code_hash = bytes_str tail\<rparr>
                                    in (case package_verify X package of
                                          Inl e \<Rightarrow> Err e
                                        | Inr _ \<Rightarrow> Ok package))))"

section \<open>Execution\<close>

definition package_execute ::
    "('a) program_ext_scheme \<Rightarrow> program_package \<Rightarrow> u64 \<Rightarrow> program_error + (bytes \<times> u64)" where
  "package_execute X p gas_limit =
     (if gas_limit = 0 then Err InvalidGas
      else case package_verify X p of
        Inl e \<Rightarrow> Err e
      | Inr _ \<Rightarrow>
          (case x_engine X (pkg_wasm p) (pm_entrypoint (pkg_manifest p)) gas_limit of
             EngineFailed e \<Rightarrow> Err (PRuntime e)
           | EngineNoEntrypoint \<Rightarrow> Err (MissingEntrypoint (pm_entrypoint (pkg_manifest p)))
           | EngineTrapped e \<Rightarrow> Err (PRuntime e)
           | EngineReturned value used \<Rightarrow>
               Ok (to_le_bytes value, case used of None \<Rightarrow> 0 | Some u \<Rightarrow> u)))"

section \<open>Properties\<close>

text \<open>
  The documented behaviour the envelope relies on: digests of 32 bytes, lower-case hexadecimal, and
  JSON that reads back what it wrote.
\<close>

definition package_ext_ok :: "('a) program_ext_scheme \<Rightarrow> bool" where
  "package_ext_ok X =
     (digests_ok X \<and> (\<forall>bs. x_hex_encode X bs = hex_string bs) \<and>
      (\<forall>m bs. x_manifest_to_json X m = Inr bs \<longrightarrow> x_manifest_from_json X bs = Inr m))"

text \<open>The bytes an encoding consists of, and when there is one.\<close>

definition envelope :: "bytes \<Rightarrow> bytes \<Rightarrow> string \<Rightarrow> bytes" where
  "envelope manifest wasm digest =
     IT_MAGIC @ to_le_bytes IT_VERSION @ to_le_bytes (of_nat (length manifest) :: u32)
     @ to_le_bytes (of_nat (length wasm) :: u32) @ [0, 0] @ manifest @ wasm @ str_bytes digest"

lemma package_encode_Ok:
  assumes "package_encode X p = Ok bs"
  obtains manifest where "x_manifest_to_json X (pkg_manifest p) = Inr manifest"
    and "length manifest < 2 ^ 32" and "length (pkg_wasm p) < 2 ^ 32"
    and "bs = envelope manifest (pkg_wasm p) (pkg_code_hash p)" and "length bs \<le> MAX_PACKAGE_BYTES"
proof (cases "x_manifest_to_json X (pkg_manifest p)")
  case (Inr manifest)
  define out where "out = envelope manifest (pkg_wasm p) (pkg_code_hash p)"
  have enc: "package_encode X p =
      (if 2 ^ 32 - 1 < length manifest \<or> 2 ^ 32 - 1 < length (pkg_wasm p) then Err PackageTooLarge
       else if MAX_PACKAGE_BYTES < length out then Err PackageTooLarge else Ok out)"
    by (simp only: package_encode_def Inr sum.case Let_def out_def envelope_def)
  have "\<not> (2 ^ 32 - 1 < length manifest \<or> 2 ^ 32 - 1 < length (pkg_wasm p))"
    using assms unfolding enc by (auto split: if_splits)
  moreover from this have "\<not> MAX_PACKAGE_BYTES < length out" "bs = out"
    using assms unfolding enc by (simp_all split: if_splits)
  ultimately show ?thesis using that [OF Inr] unfolding out_def by simp
qed (use assms in \<open>simp add: package_encode_def\<close>)

lemma length_4: "length a = 4 \<Longrightarrow> \<exists>a0 a1 a2 a3. a = [a0, a1, a2, a3]"
  by (auto simp: eval_nat_numeral length_Suc_conv)

lemma header_fields:
  fixes r :: bytes
  assumes "length a = 4" and "length c = 4" and "length d = 4" and xs: "xs = a @ [x, y] @ c @ d @ [0, 0] @ r"
  shows "take 4 xs = a \<and> xs ! 4 = x \<and> xs ! 5 = y \<and> take 4 (drop 6 xs) = c \<and>
    take 4 (drop 10 xs) = d \<and> drop 16 xs = r \<and> length xs = 16 + length r"
proof -
  obtain a0 a1 a2 a3 where a: "a = [a0, a1, a2, a3]" using length_4 [OF assms(1)] by blast
  obtain c0 c1 c2 c3 where c: "c = [c0, c1, c2, c3]" using length_4 [OF assms(2)] by blast
  obtain d0 d1 d2 d3 where d: "d = [d0, d1, d2, d3]" using length_4 [OF assms(3)] by blast
  show ?thesis unfolding xs a c d by simp
qed

lemma package_decode_verified: "package_decode X bs = Ok p \<Longrightarrow> package_verify X p = Ok ()"
  by (auto simp: package_decode_def Let_def split: if_splits option.splits sum.splits)

lemma package_verify_hash: "package_verify X p = Ok () \<Longrightarrow> pkg_code_hash p = hash_wasm X (pkg_wasm p)"
  by (auto simp: package_verify_def split: if_splits)

lemma length_hash_wasm: "package_ext_ok X \<Longrightarrow> length (hash_wasm X wasm) = 64"
  by (simp add: package_ext_ok_def hash_wasm_def digests_ok_def)

lemma utf8_hash_wasm: "package_ext_ok X \<Longrightarrow> utf8_ok (map of_char (hash_wasm X wasm))"
  by (intro utf8_ok_ascii) (auto simp: package_ext_ok_def hash_wasm_def dest: of_char_hex_string)

text \<open>A concrete instance for the witnesses: one manifest, any WASM without imports, constant digests.\<close>

definition toy_manifest :: program_manifest where
  "toy_manifest = \<lparr>pm_name = ''p'', pm_language = ''rust'', pm_compiler_version = ''1'', pm_vm_version = ''1'',
     pm_entrypoint = ''main'', pm_capabilities = [], pm_abi = bt_empty\<rparr>"

definition toy_program_ext :: program_ext where
  "toy_program_ext = crypto_ext.extend toy_ext
     \<lparr>x_hex_encode = hex_string,
      x_manifest_to_json = (\<lambda>m. if m = toy_manifest then Inr [] else Inl ''unknown manifest''),
      x_manifest_from_json = (\<lambda>_. Inr toy_manifest), x_wasm_payloads = (\<lambda>_. []),
      x_wasm_validate = (\<lambda>_. Inr ()), x_engine = (\<lambda>_ _ gas. EngineReturned 7 (Some (gas div 2)))\<rparr>"

definition toy_package :: program_package where
  "toy_package = \<lparr>pkg_manifest = toy_manifest, pkg_wasm = [1], pkg_code_hash = hash_wasm toy_program_ext [1]\<rparr>"

lemmas toy_program_defs = toy_program_ext_def crypto_ext.defs toy_ext_def

lemma toy_program_ext_ok: "package_ext_ok toy_program_ext"
  by (simp add: package_ext_ok_def digests_ok_def toy_program_defs)

lemma toy_package_verify: "package_verify toy_program_ext toy_package = Ok ()"
  by (simp add: package_verify_def validate_wasm_def toy_package_def toy_manifest_def MAX_WASM_BYTES_def
      toy_program_ext_def crypto_ext.defs)

lemma toy_package_encode: "\<exists>bs. package_encode toy_program_ext toy_package = Ok bs"
  by (simp add: package_encode_def Let_def toy_package_def toy_program_ext_def crypto_ext.defs
      IT_MAGIC_def MAX_PACKAGE_BYTES_def hash_wasm_def toy_ext_def)

lemma decode_encode:
  assumes "package_ext_ok X" and "package_verify X p = Ok ()" and "package_encode X p = Ok bs"
  shows "package_decode X bs = Ok p"
proof -
  obtain manifest where manifest: "x_manifest_to_json X (pkg_manifest p) = Inr manifest"
    and small: "length manifest < 2 ^ 32" "length (pkg_wasm p) < 2 ^ 32"
    and bs: "bs = envelope manifest (pkg_wasm p) (pkg_code_hash p)"
    and size: "length bs \<le> MAX_PACKAGE_BYTES"
    using assms(3) by (rule package_encode_Ok)
  have hash: "pkg_code_hash p = hash_wasm X (pkg_wasm p)"
    using assms(2) by (rule package_verify_hash)
  have hash_len: "length (pkg_code_hash p) = 64" and hash_utf8: "utf8_ok (map of_char (pkg_code_hash p))"
    using assms(1) hash by (simp_all add: length_hash_wasm utf8_hash_wasm)
  have json: "x_manifest_from_json X manifest = Inr (pkg_manifest p)"
    using assms(1) manifest by (simp add: package_ext_ok_def)
  have magic: "length IT_MAGIC = 4" and version: "to_le_bytes IT_VERSION = [1, 0]"
    by (simp_all add: IT_MAGIC_def IT_VERSION_def to_le_bytes_def numeral_2_eq_2)
  have u32: "unat (from_le_bytes (to_le_bytes (of_nat n :: u32)) :: u32) = n" if "n < 2 ^ 32" for n
    using that by (simp add: from_to_le_bytes unat_of_nat)
  have shape: "bs = IT_MAGIC @ [1, 0] @ to_le_bytes (of_nat (length manifest) :: u32)
      @ to_le_bytes (of_nat (length (pkg_wasm p)) :: u32)
      @ [0, 0] @ manifest @ pkg_wasm p @ str_bytes (pkg_code_hash p)"
    using bs by (simp only: envelope_def version)
  note fields = header_fields [OF magic _ _ shape]
  have head: "take 4 bs = IT_MAGIC" "from_le_bytes [bs ! 4, bs ! 5] = IT_VERSION"
    "take 4 (drop 6 bs) = to_le_bytes (of_nat (length manifest) :: u32)"
    "take 4 (drop 10 bs) = to_le_bytes (of_nat (length (pkg_wasm p)) :: u32)"
    "drop 16 bs = manifest @ pkg_wasm p @ str_bytes (pkg_code_hash p)"
    using fields by (auto simp: from_le_bytes_def IT_VERSION_def)
  have len: "length bs = 16 + length manifest + length (pkg_wasm p) + 64"
    using fields by (simp add: hash_len)
  have tail: "drop (16 + length manifest) bs = pkg_wasm p @ str_bytes (pkg_code_hash p)"
    "drop (16 + length manifest + length (pkg_wasm p)) bs = str_bytes (pkg_code_hash p)"
    using arg_cong [OF head(5), of "drop (length manifest)"]
      arg_cong [OF head(5), of "drop (length manifest + length (pkg_wasm p))"]
    by (simp_all add: ac_simps)
  have eta: "\<lparr>pkg_manifest = pkg_manifest p, pkg_wasm = pkg_wasm p, pkg_code_hash = pkg_code_hash p\<rparr> = p"
    by simp
  have sizes: "usize_checked_add 16 (length manifest) = Some (16 + length manifest)"
    "usize_checked_add (16 + length manifest) (length (pkg_wasm p)) =
      Some (16 + length manifest + length (pkg_wasm p))"
    using small by (simp_all add: usize_checked_add_def)
  show ?thesis
    unfolding package_decode_def Let_def head(1-4) u32 [OF small(1)] u32 [OF small(2)] sizes
      option.case head(5) tail
    using size by (simp add: len json hash_utf8 unat_str_bytes assms(2) eta)
qed

text \<open>
  Round trip: whatever a verified package encodes to decodes to the same package, and fits the
  size limit of the envelope.
\<close>

theorem package_round_trip:
  assumes "package_ext_ok X" and "package_verify X p = Ok ()" and "package_encode X p = Ok bs"
  shows "package_decode X bs = Ok p \<and> length bs \<le> MAX_PACKAGE_BYTES"
  using decode_encode [OF assms] package_encode_Ok [OF assms(3)] by blast

theorem package_round_trip_witness:
  "\<exists>bs. package_encode toy_program_ext toy_package = Ok bs \<and> package_decode toy_program_ext bs = Ok toy_package"
  using package_round_trip [OF toy_program_ext_ok toy_package_verify] toy_package_encode by blast

definition allowed_import :: "(string + string \<times> string) \<Rightarrow> bool" where
  "allowed_import i = (i = Inr (''env'', ''host_log''))"

lemma check_imports_Ok: "check_imports is = Ok () \<longleftrightarrow> list_all allowed_import is"
  by (induction "is" rule: check_imports.induct) (auto simp: allowed_import_def)

lemma check_payloads_Cons:
  "check_payloads (Inr imports # rest) = Ok () \<longleftrightarrow> check_imports imports = Ok () \<and> check_payloads rest = Ok ()"
  by (simp split: sum.splits)

lemma check_payloads_Ok:
  "check_payloads ps = Ok () \<longleftrightarrow> (\<forall>p \<in> set ps. \<exists>is. p = Inr is \<and> list_all allowed_import is)"
  by (induction ps rule: check_payloads.induct)
    (auto simp add: check_imports_Ok check_payloads_Cons simp del: check_payloads.simps(3))

text \<open>
  What decodes is authentic: the code hash in the envelope is the digest of the WASM it carries,
  the module is within the size limit, every import section was readable and imports nothing but
  \<open>env.host_log\<close>, and the program identity is a prefix of that digest.
\<close>

theorem decoded_package_authentic:
  assumes "package_decode X bs = Ok p"
  shows "pkg_code_hash p = hash_wasm X (pkg_wasm p) \<and> length (pkg_wasm p) \<le> MAX_WASM_BYTES \<and>
    (\<forall>s \<in> set (x_wasm_payloads X (pkg_wasm p)). \<exists>is. s = Inr is \<and> list_all allowed_import is) \<and>
    program_id p = ''it1'' @ take 40 (hash_wasm X (pkg_wasm p))"
proof -
  have "package_verify X p = Ok ()" using assms by (rule package_decode_verified)
  moreover from this have "check_payloads (x_wasm_payloads X (pkg_wasm p)) = Ok ()"
    by (auto simp: package_verify_def validate_wasm_def split: if_splits sum.splits)
  ultimately show ?thesis
    by (auto simp: check_payloads_Ok package_verify_def validate_wasm_def program_id_def
        split: if_splits sum.splits)
qed

theorem decoded_package_authentic_witness:
  "pkg_code_hash toy_package = hash_wasm toy_program_ext (pkg_wasm toy_package)"
  using decode_encode [OF toy_program_ext_ok toy_package_verify] toy_package_encode
    decoded_package_authentic [of toy_program_ext _ toy_package] by blast

end
