(* ===== verification/State.thy ===== *)
theory State
  imports Program_Package
begin

text \<open>
  \<open>crates/wsc-state/src/lib.rs\<close>, first part: the ledger state with its snapshots and errors, the
  genesis constructor, the read accessors, the collateral predicates and the state root. The fields
  of \<open>State\<close> carry the prefix \<open>st_\<close>, those of the snapshots \<open>snap_\<close>. The three older snapshot
  layouts are prefixes of the current one, field by field, and are written as extended records.
\<close>

section \<open>Accounts and snapshots\<close>

definition MAX_MEMO_BYTES :: nat where "MAX_MEMO_BYTES = 256"

record account =
  acct_balance :: amount
  acct_nonce :: u64

definition default_account :: account where
  "default_account = \<lparr>acct_balance = 0, acct_nonce = 0\<rparr>"

type_synonym accounts = "(address, account) btree_map"
type_synonym asset_balances = "(address, (string, amount) btree_map) btree_map"

record legacy_state_snapshot =
  snap_chain_id :: string
  snap_fee_minimum :: amount
  snap_fee_pool :: amount
  snap_accounts :: accounts

record legacy_asset_state_snapshot = legacy_state_snapshot +
  snap_asset_balances :: asset_balances
  snap_processed_asset_operations :: "hash btree_set"
  snap_asset_operation_records :: "(hash, asset_operation) btree_map"

record pre_program_state_snapshot = legacy_asset_state_snapshot +
  snap_token_definitions :: "(hash, token_definition) btree_map"
  snap_processed_token_operations :: "hash btree_set"
  snap_token_operation_records :: "(hash, token_operation) btree_map"
  snap_frozen_token_accounts :: "(hash \<times> address) btree_set"
  snap_mna_reserve_ledger :: mna_reserve_ledger
  snap_processed_mna_swap_operations :: "hash btree_set"
  snap_mna_swap_operation_records :: "(hash, mna_swap_operation) btree_map"
  snap_processed_mna_reserve_operations :: "hash btree_set"
  snap_mna_reserve_operation_records :: "(hash, mna_reserve_operation) btree_map"

record state_snapshot = pre_program_state_snapshot +
  snap_programs :: "(string, program_record) btree_map"
  snap_program_receipts :: "(hash, program_receipt_record) btree_map"
  snap_closed_programs :: "(string, u64) btree_map"

section \<open>The state\<close>

record state =
  st_chain_id :: string
  st_fee_minimum :: amount
  st_fee_pool :: amount
  st_accounts :: accounts
  st_asset_balances :: asset_balances
  st_processed_asset_operations :: "hash btree_set"
  st_asset_operation_records :: "(hash, asset_operation) btree_map"
  st_token_definitions :: "(hash, token_definition) btree_map"
  st_processed_token_operations :: "hash btree_set"
  st_token_operation_records :: "(hash, token_operation) btree_map"
  st_frozen_token_accounts :: "(hash \<times> address) btree_set"
  st_mna_reserve_ledger :: mna_reserve_ledger
  st_processed_mna_swap_operations :: "hash btree_set"
  st_mna_swap_operation_records :: "(hash, mna_swap_operation) btree_map"
  st_processed_mna_reserve_operations :: "hash btree_set"
  st_mna_reserve_operation_records :: "(hash, mna_reserve_operation) btree_map"
  st_programs :: "(string, program_record) btree_map"
  st_program_receipts :: "(hash, program_receipt_record) btree_map"
  st_closed_programs :: "(string, u64) btree_map"

datatype state_error =
    GenesisSupplyMismatch | DuplicateGenesisAllocation | UnsupportedTransactionVersion
  | WrongChainId | AddressMismatch | InvalidSignature | ZeroAmount | MemoTooLong | FeeTooLow
  | NonceMismatch u64 u64 | InsufficientBalance | BalanceOverflow | NonceOverflow | FeePoolOverflow
  | UnsupportedAssetOperationVersion | ZeroAssetOperationAmount | InvalidAssetOperationAsset
  | InsufficientAssetBalance | AssetBalanceOverflow | UnsupportedTokenOperationVersion
  | TokenWrongChainId | TokenAddressMismatch | InvalidTokenSignature | TokenMemoTooLong
  | TokenFeeTooLow | TokenNonceMismatch u64 u64 | TokenInsufficientFeeBalance | TokenZeroAmount
  | InvalidTokenMetadata | TokenAlreadyExists | TokenNotFound | TokenUnauthorized
  | TokenSupplyCapExceeded | TokenInsufficientBalance | TokenBalanceOverflow | TokenAccountFrozen
  | TokenPaused | MnaReservePaused | InvalidMnaReserveVersion | InvalidMnaSwapVersion
  | MnaSwapWrongChainId | MnaSwapAddressMismatch | InvalidMnaSwapSignature | MnaSwapFeeTooLow
  | MnaSwapNonceMismatch u64 u64 | MnaSwapInsufficientFeeBalance | InvalidMnaCollateral
  | InvalidMnaConversion | MnaSwapInsufficientBalance | MnaReserveInsufficient
  | TokenRecipientRequired | TokenRecipientForbidden | InvalidTokenId | SEncoding string
  | TransactionHashing string | UnsupportedProgramOperationVersion | ProgramWrongChainId
  | InvalidProgramOperation string | InvalidProgramSignature | ProgramNotFound
  | ProgramUnauthorized | ProgramAlreadyExists

text \<open>\<open>Display\<close> of \<open>StateError\<close>.\<close>

primrec state_error_string :: "state_error \<Rightarrow> string" where
  "state_error_string GenesisSupplyMismatch = ''genesis allocation total does not equal initial supply''"
| "state_error_string DuplicateGenesisAllocation = ''duplicate genesis allocation''"
| "state_error_string UnsupportedTransactionVersion = ''unsupported transaction version''"
| "state_error_string WrongChainId = ''transaction chain ID does not match state''"
| "state_error_string AddressMismatch = ''sender public key does not derive the sender address''"
| "state_error_string InvalidSignature = ''invalid transaction signature''"
| "state_error_string ZeroAmount = ''transfer amount must be greater than zero''"
| "state_error_string MemoTooLong = ''transaction memo is too long''"
| "state_error_string FeeTooLow = ''fee is below the configured minimum''"
| "state_error_string (NonceMismatch expected actual) = ''transaction nonce does not match account nonce''"
| "state_error_string InsufficientBalance = ''sender account does not have enough balance''"
| "state_error_string BalanceOverflow = ''balance arithmetic overflow''"
| "state_error_string NonceOverflow = ''account nonce overflow''"
| "state_error_string FeePoolOverflow = ''fee-pool arithmetic overflow''"
| "state_error_string UnsupportedAssetOperationVersion = ''unsupported asset operation version''"
| "state_error_string ZeroAssetOperationAmount = ''asset operation amount must be greater than zero''"
| "state_error_string InvalidAssetOperationAsset = ''asset operation is not a wrapped asset''"
| "state_error_string InsufficientAssetBalance = ''asset balance is insufficient''"
| "state_error_string AssetBalanceOverflow = ''asset balance arithmetic overflow''"
| "state_error_string UnsupportedTokenOperationVersion = ''unsupported token operation version''"
| "state_error_string TokenWrongChainId = ''token operation chain ID does not match state''"
| "state_error_string TokenAddressMismatch = ''token operation address mismatch''"
| "state_error_string InvalidTokenSignature = ''invalid token operation signature''"
| "state_error_string TokenMemoTooLong = ''token operation memo is too long''"
| "state_error_string TokenFeeTooLow = ''token operation fee is below the configured minimum''"
| "state_error_string (TokenNonceMismatch expected actual) = ''token operation nonce does not match account nonce''"
| "state_error_string TokenInsufficientFeeBalance = ''token operation sender cannot pay the fee''"
| "state_error_string TokenZeroAmount = ''token operation amount must be greater than zero''"
| "state_error_string InvalidTokenMetadata = ''token name or symbol is invalid''"
| "state_error_string TokenAlreadyExists = ''token already exists''"
| "state_error_string TokenNotFound = ''token does not exist''"
| "state_error_string TokenUnauthorized = ''token authority is not authorized''"
| "state_error_string TokenSupplyCapExceeded = ''token supply cap exceeded''"
| "state_error_string TokenInsufficientBalance = ''token balance is insufficient''"
| "state_error_string TokenBalanceOverflow = ''token balance arithmetic overflow''"
| "state_error_string TokenAccountFrozen = ''token account is frozen''"
| "state_error_string TokenPaused = ''token is paused''"
| "state_error_string MnaReservePaused = ''MNA reserve operation is paused''"
| "state_error_string InvalidMnaReserveVersion = ''MNA reserve operation has an invalid version''"
| "state_error_string InvalidMnaSwapVersion = ''MNA swap operation has an invalid version''"
| "state_error_string MnaSwapWrongChainId = ''MNA swap operation chain ID does not match state''"
| "state_error_string MnaSwapAddressMismatch = ''MNA swap operation address mismatch''"
| "state_error_string InvalidMnaSwapSignature = ''invalid MNA swap signature''"
| "state_error_string MnaSwapFeeTooLow = ''MNA swap fee is below the configured minimum''"
| "state_error_string (MnaSwapNonceMismatch expected actual) = ''MNA swap nonce does not match account nonce''"
| "state_error_string MnaSwapInsufficientFeeBalance = ''MNA swap sender cannot pay the fee''"
| "state_error_string InvalidMnaCollateral = ''MNA swap collateral must be supported USDC''"
| "state_error_string InvalidMnaConversion = ''MNA swap amount must be exactly convertible at 2 USDC = 1 MNA''"
| "state_error_string MnaSwapInsufficientBalance = ''MNA swap balance is insufficient''"
| "state_error_string MnaReserveInsufficient = ''MNA reserve collateral is insufficient''"
| "state_error_string TokenRecipientRequired = ''token operation requires a recipient''"
| "state_error_string TokenRecipientForbidden = ''token operation forbids a recipient''"
| "state_error_string InvalidTokenId = ''token operation has an invalid token ID''"
| "state_error_string (SEncoding e) = ''state encoding failed: '' @ e"
| "state_error_string (TransactionHashing e) = ''transaction hashing failed: '' @ e"
| "state_error_string UnsupportedProgramOperationVersion = ''unsupported program operation version''"
| "state_error_string ProgramWrongChainId = ''program operation chain ID does not match state''"
| "state_error_string (InvalidProgramOperation e) = ''invalid program operation: '' @ e"
| "state_error_string InvalidProgramSignature = ''invalid program owner signature''"
| "state_error_string ProgramNotFound = ''program does not exist''"
| "state_error_string ProgramUnauthorized = ''program owner is not authorized''"
| "state_error_string ProgramAlreadyExists = ''program already exists or was closed''"

text \<open>The Postcard encodings of the four snapshot layouts, beside the primitives of a package.\<close>

record state_ext = program_ext +
  x_enc_legacy :: "legacy_state_snapshot \<Rightarrow> encoding_error + bytes"
  x_enc_legacy_asset :: "legacy_asset_state_snapshot \<Rightarrow> encoding_error + bytes"
  x_enc_pre_program :: "pre_program_state_snapshot \<Rightarrow> encoding_error + bytes"
  x_enc_snapshot :: "state_snapshot \<Rightarrow> encoding_error + bytes"

definition state_new :: "string \<Rightarrow> amount \<Rightarrow> accounts \<Rightarrow> state" where
  "state_new chain_id fee_minimum accounts =
     \<lparr>st_chain_id = chain_id, st_fee_minimum = fee_minimum, st_fee_pool = 0, st_accounts = accounts,
      st_asset_balances = bt_empty, st_processed_asset_operations = bt_empty,
      st_asset_operation_records = bt_empty, st_token_definitions = bt_empty,
      st_processed_token_operations = bt_empty, st_token_operation_records = bt_empty,
      st_frozen_token_accounts = bt_empty, st_mna_reserve_ledger = default_reserve_ledger,
      st_processed_mna_swap_operations = bt_empty, st_mna_swap_operation_records = bt_empty,
      st_processed_mna_reserve_operations = bt_empty, st_mna_reserve_operation_records = bt_empty,
      st_programs = bt_empty, st_program_receipts = bt_empty, st_closed_programs = bt_empty\<rparr>"

fun genesis_accounts ::
    "genesis_allocation list \<Rightarrow> accounts \<Rightarrow> amount \<Rightarrow> state_error + (accounts \<times> amount)" where
  "genesis_accounts [] accounts supply = Ok (accounts, supply)"
| "genesis_accounts (a # rest) accounts supply =
     (if bt_contains accounts (alloc_address a) then Err DuplicateGenesisAllocation
      else case checked_add supply (alloc_balance a) of
        None \<Rightarrow> Err GenesisSupplyMismatch
      | Some supply' \<Rightarrow>
          genesis_accounts rest
            (bt_insert (alloc_address a) \<lparr>acct_balance = alloc_balance a, acct_nonce = 0\<rparr> accounts) supply')"

definition from_genesis :: "genesis_config \<Rightarrow> state_error + state" where
  "from_genesis genesis =
     (case genesis_accounts (gen_allocations genesis) bt_empty 0 of
        Inl e \<Rightarrow> Err e
      | Inr (accounts, supply) \<Rightarrow>
          if supply \<noteq> gen_initial_supply genesis then Err GenesisSupplyMismatch
          else Ok (state_new (gen_chain_id genesis) (gen_fee_minimum genesis) accounts))"

definition from_snapshot :: "state_snapshot \<Rightarrow> state" where
  "from_snapshot s =
     \<lparr>st_chain_id = snap_chain_id s, st_fee_minimum = snap_fee_minimum s, st_fee_pool = snap_fee_pool s,
      st_accounts = snap_accounts s, st_asset_balances = snap_asset_balances s,
      st_processed_asset_operations = snap_processed_asset_operations s,
      st_asset_operation_records = snap_asset_operation_records s,
      st_token_definitions = snap_token_definitions s,
      st_processed_token_operations = snap_processed_token_operations s,
      st_token_operation_records = snap_token_operation_records s,
      st_frozen_token_accounts = snap_frozen_token_accounts s,
      st_mna_reserve_ledger = snap_mna_reserve_ledger s,
      st_processed_mna_swap_operations = snap_processed_mna_swap_operations s,
      st_mna_swap_operation_records = snap_mna_swap_operation_records s,
      st_processed_mna_reserve_operations = snap_processed_mna_reserve_operations s,
      st_mna_reserve_operation_records = snap_mna_reserve_operation_records s,
      st_programs = snap_programs s, st_program_receipts = snap_program_receipts s,
      st_closed_programs = snap_closed_programs s\<rparr>"

definition snapshot :: "state \<Rightarrow> state_snapshot" where
  "snapshot s =
     \<lparr>snap_chain_id = st_chain_id s, snap_fee_minimum = st_fee_minimum s, snap_fee_pool = st_fee_pool s,
      snap_accounts = st_accounts s, snap_asset_balances = st_asset_balances s,
      snap_processed_asset_operations = st_processed_asset_operations s,
      snap_asset_operation_records = st_asset_operation_records s,
      snap_token_definitions = st_token_definitions s,
      snap_processed_token_operations = st_processed_token_operations s,
      snap_token_operation_records = st_token_operation_records s,
      snap_frozen_token_accounts = st_frozen_token_accounts s,
      snap_mna_reserve_ledger = st_mna_reserve_ledger s,
      snap_processed_mna_swap_operations = st_processed_mna_swap_operations s,
      snap_mna_swap_operation_records = st_mna_swap_operation_records s,
      snap_processed_mna_reserve_operations = st_processed_mna_reserve_operations s,
      snap_mna_reserve_operation_records = st_mna_reserve_operation_records s,
      snap_programs = st_programs s, snap_program_receipts = st_program_receipts s,
      snap_closed_programs = st_closed_programs s\<rparr>"

section \<open>Reading the state\<close>

definition account_balance :: "accounts \<Rightarrow> address \<Rightarrow> amount" where
  "account_balance accounts a = (case bt_get accounts a of None \<Rightarrow> 0 | Some acct \<Rightarrow> acct_balance acct)"

definition balance_of :: "state \<Rightarrow> address \<Rightarrow> amount" where
  "balance_of s a = (case bt_get (st_accounts s) a of None \<Rightarrow> 0 | Some acct \<Rightarrow> acct_balance acct)"

definition nonce_of :: "state \<Rightarrow> address \<Rightarrow> u64" where
  "nonce_of s a = (case bt_get (st_accounts s) a of None \<Rightarrow> 0 | Some acct \<Rightarrow> acct_nonce acct)"

definition asset_balance_of :: "state \<Rightarrow> address \<Rightarrow> string \<Rightarrow> amount" where
  "asset_balance_of s a key =
     (case bt_get (st_asset_balances s) a of None \<Rightarrow> 0 | Some assets \<Rightarrow> bt_get_or 0 assets key)"

definition asset_balances_of :: "state \<Rightarrow> address \<Rightarrow> (string, amount) btree_map" where
  "asset_balances_of s a = bt_get_or bt_empty (st_asset_balances s) a"

definition processed_asset_operation :: "state \<Rightarrow> hash \<Rightarrow> bool" where
  "processed_asset_operation s op_id = bt_contains (st_processed_asset_operations s) op_id"

definition processed_token_operation :: "state \<Rightarrow> hash \<Rightarrow> bool" where
  "processed_token_operation s op_id = bt_contains (st_processed_token_operations s) op_id"

definition is_token_account_frozen :: "state \<Rightarrow> hash \<Rightarrow> address \<Rightarrow> bool" where
  "is_token_account_frozen s token_id a = bt_contains (st_frozen_token_accounts s) (token_id, a)"

definition token_asset_key :: "token_definition \<Rightarrow> string" where
  "token_asset_key d = canonical_key (custom_asset (td_token_id d) (td_symbol d) (td_decimals d))"

definition token_balance :: "state \<Rightarrow> address \<Rightarrow> token_definition \<Rightarrow> amount" where
  "token_balance s a d =
     (case bt_get (st_asset_balances s) a of
        None \<Rightarrow> 0
      | Some assets \<Rightarrow>
          bt_get_or 0 assets (canonical_key (custom_asset (td_token_id d) (td_symbol d) (td_decimals d))))"

text \<open>The first balance, in key order, whose key has the namespace and the contract of the token.\<close>

fun find_token_balance :: "string \<Rightarrow> (string \<times> amount) list \<Rightarrow> amount option" where
  "find_token_balance contract [] = None"
| "find_token_balance contract ((key, balance) # rest) =
     (if str_prefix ''intertrain:'' key \<and> str_suffix contract key then Some balance
      else find_token_balance contract rest)"

definition token_balance_of :: "state \<Rightarrow> address \<Rightarrow> hash \<Rightarrow> amount" where
  "token_balance_of s a token_id =
     (let contract = ''token:'' @ hash_to_string token_id
      in case bt_get (st_asset_balances s) a of
           None \<Rightarrow> 0
         | Some assets \<Rightarrow>
             (case find_token_balance contract (bt_entries assets) of None \<Rightarrow> 0 | Some b \<Rightarrow> b))"

section \<open>Collateral\<close>

definition is_supported_usdc :: "asset_id \<Rightarrow> bool" where
  "is_supported_usdc asset =
     (asset_namespace asset = ''ethereum'' \<and> asset_symbol asset = ''USDC'' \<and> asset_decimals asset = 6 \<and>
        (case asset_contract asset of
           None \<Rightarrow> False
         | Some c \<Rightarrow> eq_ignore_ascii_case c ''sepolia:0x1c7D4B196Cb0C7B01d743Fbc6116a902379C7238'')
      \<or> asset_namespace asset = ''solana'' \<and> asset_symbol asset = ''USDC'' \<and> asset_decimals asset = 6 \<and>
        asset_contract asset = Some ''devnet:4zMMC9srt5Ri5X14GAgXhaHii3GnPAEERYPJgZJDncDU'')"

definition is_supported_sol :: "asset_id \<Rightarrow> bool" where
  "is_supported_sol asset =
     (asset_namespace asset = ''solana'' \<and> asset_symbol asset = ''SOL'' \<and> asset_decimals asset = 9 \<and>
      asset_contract asset = Some ''devnet:native'')"

definition ledger_reserve_usd :: "mna_reserve_ledger \<Rightarrow> amount" where
  "ledger_reserve_usd l =
     saturating_add (saturating_sub (led_total_verified_deposits_usdc l) (led_total_released_usdc l))
       (saturating_sub (led_total_verified_sol_usd l) (led_total_released_sol_usd l))"

definition current_reserve_usd :: "state \<Rightarrow> amount" where
  "current_reserve_usd s = ledger_reserve_usd (st_mna_reserve_ledger s)"

section \<open>The state root\<close>

definition legacy_snapshot :: "state \<Rightarrow> legacy_state_snapshot" where
  "legacy_snapshot s = legacy_state_snapshot.truncate (snapshot s)"

definition legacy_asset_snapshot :: "state \<Rightarrow> legacy_asset_state_snapshot" where
  "legacy_asset_snapshot s = legacy_asset_state_snapshot.truncate (snapshot s)"

definition pre_program_snapshot :: "state \<Rightarrow> pre_program_state_snapshot" where
  "pre_program_snapshot s = pre_program_state_snapshot.truncate (snapshot s)"

definition has_program_data :: "state \<Rightarrow> bool" where
  "has_program_data s =
     (\<not> (bt_is_empty (st_programs s) \<and> bt_is_empty (st_program_receipts s) \<and>
         bt_is_empty (st_closed_programs s)))"

definition has_token_data :: "state \<Rightarrow> bool" where
  "has_token_data s =
     (\<not> (bt_is_empty (st_token_definitions s) \<and> bt_is_empty (st_processed_token_operations s) \<and>
         bt_is_empty (st_token_operation_records s) \<and> bt_is_empty (st_frozen_token_accounts s)))"

definition has_asset_data :: "state \<Rightarrow> bool" where
  "has_asset_data s =
     (\<not> (bt_is_empty (st_asset_balances s) \<and> bt_is_empty (st_processed_asset_operations s) \<and>
         bt_is_empty (st_asset_operation_records s)))"

definition state_root_bytes :: "('a) state_ext_scheme \<Rightarrow> state \<Rightarrow> encoding_error + bytes" where
  "state_root_bytes X s =
     (if \<not> has_program_data s then
        if \<not> has_token_data s then
          if \<not> has_asset_data s then x_enc_legacy X (legacy_snapshot s)
          else x_enc_legacy_asset X (legacy_asset_snapshot s)
        else x_enc_pre_program X (pre_program_snapshot s)
      else x_enc_snapshot X (snapshot s))"

definition state_root :: "('a) state_ext_scheme \<Rightarrow> state \<Rightarrow> state_error + hash" where
  "state_root X s =
     (case state_root_bytes X s of
        Inl e \<Rightarrow> Err (SEncoding (encoding_error_string e))
      | Inr bs \<Rightarrow> Ok (Hash (sha256_domain X ''MNA/state/v1'' bs)))"

section \<open>Books\<close>

text \<open>\<open>entry(k).or_default()\<close>: the map with an entry at \<open>k\<close>, the default where there was none.\<close>

definition bt_entry :: "'v \<Rightarrow> 'k::linorder \<Rightarrow> ('k, 'v) btree_map \<Rightarrow> ('k, 'v) btree_map" where
  "bt_entry d k m = (if bt_contains m k then m else bt_insert k d m)"

lemma bt_get_or_entry [simp, map_simps]: "bt_get_or d (bt_entry d k m) k' = bt_get_or d m k'"
  by (auto simp: bt_entry_def bt_get_or_def bt_contains_def)

lemma bt_get_entry [simp, map_simps]:
  "bt_get (bt_entry d k m) k' = (if k' = k then Some (bt_get_or d m k) else bt_get m k')"
  by (auto simp: bt_entry_def bt_get_or_def bt_contains_def)

lemma bt_insert_entry [simp, map_simps]: "bt_insert k v (bt_entry d k m) = bt_insert k v m"
  by (rule bt_eqI) simp

lemma bt_sum_entry: "f k d = 0 \<Longrightarrow> bt_sum f (bt_entry d k m) = bt_sum f m"
  using bt_sum_insert [of f k d m] by (auto simp: bt_entry_def bt_contains_def)

definition accounts_bal :: "accounts \<Rightarrow> address \<Rightarrow> nat" where
  "accounts_bal m a = unat (account_balance m a)"

definition accounts_total :: "accounts \<Rightarrow> nat" where
  "accounts_total m = bt_sum (\<lambda>_ acct. unat (acct_balance acct)) m"

definition accounts_put :: "accounts \<Rightarrow> address \<Rightarrow> account \<Rightarrow> accounts" where
  "accounts_put m a acct = bt_insert a acct m"

interpretation native_book: balance_book accounts_bal accounts_total accounts_put "\<lambda>a. unat (acct_balance a)"
proof unfold_locales
  fix b :: accounts and k k' :: address and x :: account
  show "accounts_bal (accounts_put b k x) k' = (if k' = k then unat (acct_balance x) else accounts_bal b k')"
    by (simp add: accounts_bal_def accounts_put_def account_balance_def)
  show "accounts_total (accounts_put b k x) + accounts_bal b k = accounts_total b + unat (acct_balance x)"
    using bt_sum_insert [of "\<lambda>_ acct. unat (acct_balance acct)" k x b]
    by (simp add: accounts_total_def accounts_put_def accounts_bal_def account_balance_def split: option.splits)
  show "accounts_bal b k \<le> accounts_total b"
    using bt_sum_ge [of b k _ "\<lambda>_ acct. unat (acct_balance acct)"]
    by (auto simp: accounts_total_def accounts_bal_def account_balance_def split: option.splits)
qed

text \<open>The balances of one asset key, over all addresses.\<close>

definition asset_bal :: "string \<Rightarrow> asset_balances \<Rightarrow> address \<Rightarrow> nat" where
  "asset_bal key m a = unat (bt_get_or 0 (bt_get_or bt_empty m a) key)"

definition asset_total :: "string \<Rightarrow> asset_balances \<Rightarrow> nat" where
  "asset_total key m = bt_sum (\<lambda>_ b. unat (bt_get_or 0 b key)) m"

definition asset_put :: "string \<Rightarrow> asset_balances \<Rightarrow> address \<Rightarrow> amount \<Rightarrow> asset_balances" where
  "asset_put key m a x = bt_insert a (bt_insert key x (bt_get_or bt_empty m a)) m"

lemma asset_sum_insert:
  "asset_total key (bt_insert a b m) + asset_bal key m a = asset_total key m + unat (bt_get_or 0 b key)"
  using bt_sum_insert [of "\<lambda>_ b. unat (bt_get_or 0 b key)" a b m]
  by (simp add: asset_total_def asset_bal_def bt_get_or_def split: option.splits)

interpretation asset_book: balance_book "asset_bal key" "asset_total key" "asset_put key" unat for key
proof unfold_locales
  fix b :: asset_balances and k k' :: address and x :: amount
  show "asset_bal key (asset_put key b k x) k' = (if k' = k then unat x else asset_bal key b k')"
    by (simp add: asset_bal_def asset_put_def)
  show "asset_total key (asset_put key b k x) + asset_bal key b k = asset_total key b + unat x"
    using asset_sum_insert [of key k _ b] by (simp add: asset_put_def)
  show "asset_bal key b k \<le> asset_total key b"
    using bt_sum_ge [of b k _ "\<lambda>_ b. unat (bt_get_or 0 b key)"]
    by (cases "bt_get b k") (auto simp: asset_total_def asset_bal_def bt_get_or_def)
qed

lemma asset_put_other:
  assumes "key' \<noteq> key"
  shows "asset_bal key' (asset_put key m a x) b = asset_bal key' m b"
    and "asset_total key' (asset_put key m a x) = asset_total key' m"
proof -
  show "asset_bal key' (asset_put key m a x) b = asset_bal key' m b"
    using assms by (auto simp: asset_bal_def asset_put_def bt_get_or_def split: option.splits)
  show "asset_total key' (asset_put key m a x) = asset_total key' m"
    using asset_sum_insert [of key' a "bt_insert key x (bt_get_or bt_empty m a)" m] assms
    by (simp add: asset_put_def asset_bal_def)
qed

lemma asset_entry [simp]:
  "asset_bal key (bt_entry bt_empty a m) b = asset_bal key m b"
  "asset_total key (bt_entry bt_empty a m) = asset_total key m"
  "asset_put key (bt_entry bt_empty a m) a x = asset_put key m a x"
  by (simp_all add: asset_bal_def asset_total_def bt_sum_entry asset_put_def)

lemma asset_balance_of_bal: "unat (asset_balance_of s a key) = asset_bal key (st_asset_balances s) a"
  by (simp add: asset_balance_of_def asset_bal_def bt_get_or_def split: option.splits)

lemma token_balance_eq: "token_balance s a d = asset_balance_of s a (token_asset_key d)"
  by (simp add: token_balance_def asset_balance_of_def token_asset_key_def)

text \<open>What there is of the native asset: the balances of the accounts and the fee pool.\<close>

definition native_supply :: "state \<Rightarrow> nat" where
  "native_supply s = accounts_total (st_accounts s) + unat (st_fee_pool s)"

section \<open>Genesis\<close>

lemma genesis_accounts_Ok:
  "genesis_accounts as m t = Ok (m', t') \<longleftrightarrow>
     distinct (map alloc_address as) \<and> (\<forall>a \<in> set as. \<not> bt_contains m (alloc_address a)) \<and>
     unat t' = unat t + (\<Sum>a \<leftarrow> as. unat (alloc_balance a)) \<and>
     m' = fold (\<lambda>a. bt_insert (alloc_address a) \<lparr>acct_balance = alloc_balance a, acct_nonce = 0\<rparr>) as m"
proof (induction as arbitrary: m t)
  case Nil
  then show ?case by (auto dest: unat_inject)
next
  case (Cons a as)
  show ?case
  proof (cases "checked_add t (alloc_balance a)")
    case None
    then have "2 ^ 128 \<le> unat t + unat (alloc_balance a)" by (simp add: checked_add_None)
    then have "unat t' \<noteq> unat t + (\<Sum>a \<leftarrow> a # as. unat (alloc_balance a))"
      using unat_less [of t'] by simp
    then show ?thesis using None by auto
  next
    case (Some u)
    then have "unat u = unat t + unat (alloc_balance a)" by (simp add: checked_add_Some)
    then show ?thesis using Some Cons.IH by (auto simp: eq_commute [of "alloc_address a"])
  qed
qed

lemma genesis_fold_total:
  "distinct (map alloc_address as) \<Longrightarrow> \<forall>a \<in> set as. \<not> bt_contains m (alloc_address a) \<Longrightarrow>
   accounts_total (fold (\<lambda>a. bt_insert (alloc_address a) \<lparr>acct_balance = alloc_balance a, acct_nonce = 0\<rparr>) as m)
     = accounts_total m + (\<Sum>a \<leftarrow> as. unat (alloc_balance a))"
proof (induction as arbitrary: m)
  case (Cons a as)
  have "accounts_bal m (alloc_address a) = 0"
    using Cons.prems by (auto simp: accounts_bal_def account_balance_def bt_contains_def)
  then have "accounts_total (bt_insert (alloc_address a) \<lparr>acct_balance = alloc_balance a, acct_nonce = 0\<rparr> m)
      = accounts_total m + unat (alloc_balance a)"
    using native_book.credit [of "\<lparr>acct_balance = alloc_balance a, acct_nonce = 0\<rparr>" m "alloc_address a"
        "unat (alloc_balance a)"]
    by (simp add: accounts_put_def)
  moreover have "\<forall>b \<in> set as. \<not> bt_contains
      (bt_insert (alloc_address a) \<lparr>acct_balance = alloc_balance a, acct_nonce = 0\<rparr> m) (alloc_address b)"
    using Cons.prems by (auto simp: image_iff)
  ultimately show ?case using Cons by simp
qed simp

lemma genesis_fold_get:
  "distinct (map alloc_address as) \<Longrightarrow>
   bt_get (fold (\<lambda>a. bt_insert (alloc_address a) \<lparr>acct_balance = alloc_balance a, acct_nonce = 0\<rparr>) as m) k =
     (case map_of (map (\<lambda>a. (alloc_address a, \<lparr>acct_balance = alloc_balance a, acct_nonce = 0\<rparr>)) as) k of
        None \<Rightarrow> bt_get m k | Some v \<Rightarrow> Some v)"
  by (induction as arbitrary: m) (auto split: option.splits dest!: map_of_SomeD)

lemma accounts_empty [simp]: "accounts_total bt_empty = 0" "accounts_bal bt_empty a = 0"
  by (simp_all add: accounts_total_def accounts_bal_def account_balance_def)

lemma from_genesis_Ok:
  "from_genesis g = Ok s \<longleftrightarrow>
     distinct (map alloc_address (gen_allocations g)) \<and>
     (\<Sum>a \<leftarrow> gen_allocations g. unat (alloc_balance a)) = unat (gen_initial_supply g) \<and>
     s = state_new (gen_chain_id g) (gen_fee_minimum g)
       (fold (\<lambda>a. bt_insert (alloc_address a) \<lparr>acct_balance = alloc_balance a, acct_nonce = 0\<rparr>)
         (gen_allocations g) bt_empty)"
proof (cases "genesis_accounts (gen_allocations g) bt_empty 0")
  case (Inl e)
  have "\<not> (distinct (map alloc_address (gen_allocations g)) \<and>
     (\<Sum>a \<leftarrow> gen_allocations g. unat (alloc_balance a)) = unat (gen_initial_supply g))"
  proof
    assume "distinct (map alloc_address (gen_allocations g)) \<and>
     (\<Sum>a \<leftarrow> gen_allocations g. unat (alloc_balance a)) = unat (gen_initial_supply g)"
    then have "genesis_accounts (gen_allocations g) bt_empty 0 =
      Ok (fold (\<lambda>a. bt_insert (alloc_address a) \<lparr>acct_balance = alloc_balance a, acct_nonce = 0\<rparr>)
         (gen_allocations g) bt_empty, gen_initial_supply g)"
      unfolding genesis_accounts_Ok by simp
    with Inl show False by simp
  qed
  then show ?thesis using Inl by (auto simp: from_genesis_def)
next
  case (Inr r)
  obtain m t where r: "r = (m, t)" by (cases r)
  have facts: "distinct (map alloc_address (gen_allocations g))"
    "unat t = (\<Sum>a \<leftarrow> gen_allocations g. unat (alloc_balance a))"
    "m = fold (\<lambda>a. bt_insert (alloc_address a) \<lparr>acct_balance = alloc_balance a, acct_nonce = 0\<rparr>)
         (gen_allocations g) bt_empty"
    using Inr unfolding r genesis_accounts_Ok by simp_all
  have "t = gen_initial_supply g \<longleftrightarrow>
      (\<Sum>a \<leftarrow> gen_allocations g. unat (alloc_balance a)) = unat (gen_initial_supply g)"
    unfolding facts(2) [symmetric] by (rule word_unat_eq_iff)
  with facts show ?thesis using Inr by (auto simp: from_genesis_def r)
qed

lemma state_new_simps [simp]:
  "st_accounts (state_new c f m) = m" "st_fee_pool (state_new c f m) = 0"
  "st_chain_id (state_new c f m) = c" "st_fee_minimum (state_new c f m) = f"
  "st_asset_balances (state_new c f m) = bt_empty" "st_token_definitions (state_new c f m) = bt_empty"
  "st_mna_reserve_ledger (state_new c f m) = default_reserve_ledger"
  "st_programs (state_new c f m) = bt_empty" "st_closed_programs (state_new c f m) = bt_empty"
  "st_program_receipts (state_new c f m) = bt_empty"
  "\<not> has_program_data (state_new c f m)" "\<not> has_token_data (state_new c f m)"
  by (simp_all add: state_new_def has_program_data_def has_token_data_def)

lemma genesis_alloc_map:
  "map_of (map (\<lambda>x. (alloc_address x, \<lparr>acct_balance = alloc_balance x, acct_nonce = 0\<rparr>)) xs) a =
   map_option (\<lambda>b. \<lparr>acct_balance = b, acct_nonce = 0\<rparr>)
     (map_of (map (\<lambda>x. (alloc_address x, alloc_balance x)) xs) a)"
  by (induction xs) auto

text \<open>
  Genesis mints exactly the configured supply: a state is built if and only if no address is
  allocated twice and the allocations add up, as unbounded integers, to the initial supply.
\<close>

theorem from_genesis_iff:
  "(\<exists>s. from_genesis g = Ok s) \<longleftrightarrow>
     distinct (map alloc_address (gen_allocations g)) \<and>
     (\<Sum>a \<leftarrow> gen_allocations g. unat (alloc_balance a)) = unat (gen_initial_supply g)"
  by (auto simp: from_genesis_Ok)

text \<open>
  The genesis state holds what the configuration says: the native supply is the initial supply,
  every address has its allocation or nothing, all nonces and the fee pool are zero.
\<close>

theorem genesis_state:
  assumes "from_genesis g = Ok s"
  shows "native_supply s = unat (gen_initial_supply g) \<and> st_fee_pool s = 0 \<and> nonce_of s a = 0 \<and>
    balance_of s a =
      (case map_of (map (\<lambda>x. (alloc_address x, alloc_balance x)) (gen_allocations g)) a of
         None \<Rightarrow> 0 | Some b \<Rightarrow> b)"
proof -
  let ?as = "gen_allocations g"
  let ?m = "fold (\<lambda>a. bt_insert (alloc_address a) \<lparr>acct_balance = alloc_balance a, acct_nonce = 0\<rparr>) ?as bt_empty"
  have dist: "distinct (map alloc_address ?as)" and sup: "(\<Sum>a \<leftarrow> ?as. unat (alloc_balance a)) = unat (gen_initial_supply g)"
    and s: "s = state_new (gen_chain_id g) (gen_fee_minimum g) ?m"
    using assms unfolding from_genesis_Ok by blast+
  have "native_supply s = unat (gen_initial_supply g)"
    using genesis_fold_total [OF dist, of bt_empty] sup by (simp add: s native_supply_def)
  moreover have get: "bt_get ?m a = map_option (\<lambda>b. \<lparr>acct_balance = b, acct_nonce = 0\<rparr>)
      (map_of (map (\<lambda>x. (alloc_address x, alloc_balance x)) ?as) a)"
    using genesis_alloc_map [of ?as a] by (simp add: genesis_fold_get [OF dist] split: option.splits)
  moreover have "nonce_of s a = 0 \<and> balance_of s a =
      (case map_of (map (\<lambda>x. (alloc_address x, alloc_balance x)) ?as) a of None \<Rightarrow> 0 | Some b \<Rightarrow> b)"
    by (simp add: s balance_of_def nonce_of_def get split: option.splits)
  ultimately show ?thesis by (simp add: s)
qed

text \<open>A genesis configuration with two funded addresses, for the witnesses.\<close>

definition toy_address :: "byte \<Rightarrow> address" where
  "toy_address n = Address (ADDRESS_VERSION # replicate 20 n)"

definition toy_genesis :: genesis_config where
  "toy_genesis = \<lparr>gen_version = 1, gen_chain_id = CHAIN_ID, gen_genesis_time = 0, gen_block_time_ms = 1000,
     gen_initial_supply = 150, gen_fee_minimum = 1, gen_validators = [],
     gen_allocations = [\<lparr>alloc_address = toy_address 1, alloc_balance = 100\<rparr>,
       \<lparr>alloc_address = toy_address 2, alloc_balance = 50\<rparr>], gen_assets = []\<rparr>"

definition toy_state :: state where
  "toy_state = state_new CHAIN_ID 1 (bt_insert (toy_address 2) \<lparr>acct_balance = 50, acct_nonce = 0\<rparr>
     (bt_insert (toy_address 1) \<lparr>acct_balance = 100, acct_nonce = 0\<rparr> bt_empty))"

lemma toy_from_genesis: "from_genesis toy_genesis = Ok toy_state"
  by (simp add: from_genesis_Ok toy_genesis_def toy_address_def toy_state_def)

theorem genesis_state_witness: "native_supply toy_state = 150 \<and> nonce_of toy_state (toy_address 1) = 0"
  using genesis_state [OF toy_from_genesis, of "toy_address 1"] by (simp add: toy_genesis_def)

section \<open>Snapshots\<close>

lemma from_snapshot_snapshot: "from_snapshot (snapshot s) = s"
  by (simp add: from_snapshot_def snapshot_def)

lemma snapshot_from_snapshot: "snapshot (from_snapshot p) = p"
  by (simp add: from_snapshot_def snapshot_def)

text \<open>
  A snapshot loses nothing: a state rebuilt from its snapshot is the state, and the snapshot
  of a rebuilt state is the snapshot it was built from.
\<close>

theorem snapshot_round_trip: "from_snapshot (snapshot s) = s \<and> snapshot (from_snapshot p) = p"
  by (simp add: from_snapshot_snapshot snapshot_from_snapshot)

section \<open>What the state root commits to\<close>

definition snapshot_encoding_injective :: "('a) state_ext_scheme \<Rightarrow> bool" where
  "snapshot_encoding_injective X =
     (\<forall>a b bs. x_enc_snapshot X a = Inr bs \<longrightarrow> x_enc_snapshot X b = Inr bs \<longrightarrow> a = b)"

text \<open>The string that the root of a state is the digest of, when the state can be encoded.\<close>

definition root_inputs :: "('a) state_ext_scheme \<Rightarrow> state \<Rightarrow> bytes set" where
  "root_inputs X s = (case state_root_bytes X s of Inl _ \<Rightarrow> {} | Inr bs \<Rightarrow> {str_bytes ''MNA/state/v1'' @ bs})"

lemma same_root_same_bytes:
  assumes "collision_free X (root_inputs X s \<union> root_inputs X t)"
    and "state_root X s = Ok h" and "state_root X t = Ok h"
  obtains bs where "state_root_bytes X s = Inr bs" and "state_root_bytes X t = Inr bs"
proof -
  obtain bs cs where enc: "state_root_bytes X s = Inr bs" "state_root_bytes X t = Inr cs"
    and h: "sha256_domain X ''MNA/state/v1'' bs = sha256_domain X ''MNA/state/v1'' cs"
    using assms(2,3) by (auto simp: state_root_def split: sum.splits)
  moreover have "bs = cs"
    by (rule sha256_domain_inj [OF assms(1) _ _ h]) (simp_all add: root_inputs_def enc)
  ultimately show thesis using that by blast
qed

text \<open>
  Once the state has any program data its root commits to all of it: two such states with the
  same root are equal, as long as SHA-256 does not confuse the two encodings.
\<close>

theorem state_root_binding:
  assumes "snapshot_encoding_injective X" and "has_program_data s" and "has_program_data t"
    and "state_root X s = Ok h" and "state_root X t = Ok h"
    and "collision_free X (root_inputs X s \<union> root_inputs X t)"
  shows "s = t"
proof -
  obtain bs where "x_enc_snapshot X (snapshot s) = Inr bs" "x_enc_snapshot X (snapshot t) = Inr bs"
    using same_root_same_bytes [OF assms(6,4,5)] assms(2,3) by (auto simp: state_root_bytes_def)
  then have "snapshot s = snapshot t"
    using assms(1) unfolding snapshot_encoding_injective_def by blast
  then have "from_snapshot (snapshot s) = from_snapshot (snapshot t)" by (simp only:)
  then show ?thesis by (simp only: from_snapshot_snapshot)
qed

definition toy_program_state :: state where
  "toy_program_state = toy_state\<lparr>st_closed_programs := bt_insert ''it1'' 1 bt_empty\<rparr>"

definition toy_state_ext :: state_ext where
  "toy_state_ext = program_ext.extend toy_program_ext
     \<lparr>x_enc_legacy = (\<lambda>_. Inr [1]), x_enc_legacy_asset = (\<lambda>_. Inr [2]), x_enc_pre_program = (\<lambda>_. Inr [3]),
      x_enc_snapshot = (\<lambda>p. if p = snapshot toy_program_state then Inr [4] else Inl (Encode ''full''))\<rparr>"

lemmas toy_state_ext_defs = toy_state_ext_def program_ext.defs toy_program_defs

theorem state_root_binding_witness:
  "toy_program_state = toy_program_state"
proof -
  have "has_program_data toy_program_state"
    by (simp add: has_program_data_def toy_program_state_def)
  moreover have "snapshot_encoding_injective toy_state_ext"
    by (simp add: snapshot_encoding_injective_def toy_state_ext_def program_ext.defs)
  moreover from calculation(1) have "state_root_bytes toy_state_ext toy_program_state = Inr [4]"
    by (simp add: state_root_bytes_def toy_state_ext_def program_ext.defs)
  moreover from this have "\<exists>h. state_root toy_state_ext toy_program_state = Ok h"
    by (simp add: state_root_def)
  moreover from calculation(3) have "collision_free toy_state_ext
      (root_inputs toy_state_ext toy_program_state \<union> root_inputs toy_state_ext toy_program_state)"
    by (simp add: root_inputs_def collision_free_def)
  ultimately show ?thesis using state_root_binding by blast
qed

lemma legacy_snapshot_eq:
  "legacy_snapshot s = \<lparr>snap_chain_id = st_chain_id s, snap_fee_minimum = st_fee_minimum s,
     snap_fee_pool = st_fee_pool s, snap_accounts = st_accounts s\<rparr>"
  by (simp only: legacy_snapshot_def snapshot_def legacy_state_snapshot.truncate_def legacy_state_snapshot.simps)

lemma legacy_asset_snapshot_eq:
  "legacy_asset_snapshot s = \<lparr>snap_chain_id = st_chain_id s, snap_fee_minimum = st_fee_minimum s,
     snap_fee_pool = st_fee_pool s, snap_accounts = st_accounts s, snap_asset_balances = st_asset_balances s,
     snap_processed_asset_operations = st_processed_asset_operations s,
     snap_asset_operation_records = st_asset_operation_records s\<rparr>"
  by (simp only: legacy_asset_snapshot_def snapshot_def legacy_asset_state_snapshot.truncate_def
      legacy_state_snapshot.simps legacy_asset_state_snapshot.simps)

lemma reserve_update_roots:
  fixes s l ps sr pr rr
  defines "t \<equiv> s\<lparr>st_mna_reserve_ledger := l, st_processed_mna_swap_operations := ps,
      st_mna_swap_operation_records := sr, st_processed_mna_reserve_operations := pr,
      st_mna_reserve_operation_records := rr\<rparr>"
  shows "has_program_data t = has_program_data s" and "has_token_data t = has_token_data s"
    and "has_asset_data t = has_asset_data s" and "legacy_snapshot t = legacy_snapshot s"
    and "legacy_asset_snapshot t = legacy_asset_snapshot s"
  by (simp_all add: t_def has_program_data_def has_token_data_def has_asset_data_def legacy_snapshot_eq
      legacy_asset_snapshot_eq)

text \<open>
  Before that the root is blind to the MNA reserve: without token and program data, two states
  that differ only in the reserve ledger and in the swap and reserve bookkeeping have the same root.
\<close>

theorem state_root_ignores_reserve:
  assumes "\<not> has_program_data s" and "\<not> has_token_data s"
  shows "state_root X (s\<lparr>st_mna_reserve_ledger := l, st_processed_mna_swap_operations := ps,
      st_mna_swap_operation_records := sr, st_processed_mna_reserve_operations := pr,
      st_mna_reserve_operation_records := rr\<rparr>) = state_root X s"
  using assms by (simp only: state_root_def state_root_bytes_def reserve_update_roots simp_thms if_True)

theorem state_root_ignores_reserve_witness:
  "state_root toy_state_ext (toy_state\<lparr>st_mna_reserve_ledger := default_reserve_ledger\<lparr>led_reserve_backed_mna_minted := 1000\<rparr>,
      st_processed_mna_swap_operations := bt_empty, st_mna_swap_operation_records := bt_empty,
      st_processed_mna_reserve_operations := bt_empty, st_mna_reserve_operation_records := bt_empty\<rparr>) =
    state_root toy_state_ext toy_state"
  by (rule state_root_ignores_reserve) (simp_all add: toy_state_def)

end
