(* ===== verification/Transfers.thy ===== *)
theory Transfers
  imports State
begin

text \<open>
  \<open>crates/wsc-state/src/lib.rs\<close>: transfers of the native asset (\<open>validate_transaction\<close>,
  \<open>apply_transaction\<close>) and the devnet credit. A method on \<open>&mut self\<close> that can fail after it has
  changed the state returns the changed state with the error.
\<close>

section \<open>Operations\<close>

definition is_faucet_transaction :: "('a) crypto_ext_scheme \<Rightarrow> state \<Rightarrow> unsigned_transaction \<Rightarrow> bool" where
  "is_faucet_transaction X s u =
     (str_contains (st_chain_id s) ''devnet'' \<and> utx_public_key u = kp_public_key X devnet_faucet)"

definition check_nonce :: "account option \<Rightarrow> nonce \<Rightarrow> state_error + unit" where
  "check_nonce sender n =
     (case sender of
        None \<Rightarrow> Ok ()
      | Some acct \<Rightarrow> if n \<noteq> acct_nonce acct then Err (NonceMismatch (acct_nonce acct) n) else Ok ())"

definition validate_transaction ::
    "('a) crypto_ext_scheme \<Rightarrow> state \<Rightarrow> transaction \<Rightarrow> state_error + hash" where
  "validate_transaction X s tx =
     (let u = tx_unsigned tx in
      if utx_version u \<noteq> 1 then Err UnsupportedTransactionVersion
      else if utx_chain_id u \<noteq> st_chain_id s then Err WrongChainId
      else if address_from_public_key X (utx_public_key u) \<noteq> utx_from u then Err AddressMismatch
      else case x_enc_transaction X u of
        Inl e \<Rightarrow> Err (SEncoding (encoding_error_string e))
      | Inr bs \<Rightarrow>
          if \<not> kp_verify X (utx_public_key u) bs (tx_signature tx) then Err InvalidSignature
          else if utx_amount u = 0 then Err ZeroAmount
          else if MAX_MEMO_BYTES < length (utx_memo u) then Err MemoTooLong
          else if utx_fee u < st_fee_minimum s then Err FeeTooLow
          else let faucet = is_faucet_transaction X s u;
                   sender = bt_get (st_accounts s) (utx_from u)
               in if \<not> faucet \<and> sender = None then Err InsufficientBalance
                  else case checked_add (utx_amount u) (utx_fee u) of
                    None \<Rightarrow> Err BalanceOverflow
                  | Some required \<Rightarrow>
                      if \<not> faucet \<and> acct_balance (the sender) < required then Err InsufficientBalance
                      else case check_nonce sender (utx_nonce u) of
                        Inl e \<Rightarrow> Err e
                      | Inr _ \<Rightarrow>
                          map_err (\<lambda>e. TransactionHashing (crypto_error_string e)) (transaction_id X tx))"

text \<open>The branch of \<open>apply_transaction\<close> for the devnet faucet: the recipient is credited first.\<close>

definition apply_faucet_transaction ::
    "state \<Rightarrow> unsigned_transaction \<Rightarrow> hash \<Rightarrow> (state_error + hash) \<times> state" where
  "apply_faucet_transaction s u tx_id =
     (let receiver = bt_get_or default_account (st_accounts s) (utx_to u)
      in case checked_add (acct_balance receiver) (utx_amount u) of
           None \<Rightarrow> (Err BalanceOverflow, s)
         | Some b \<Rightarrow>
             let s1 = s\<lparr>st_accounts := bt_insert (utx_to u)
                          \<lparr>acct_balance = b, acct_nonce = acct_nonce receiver\<rparr> (st_accounts s)\<rparr>
             in case checked_add (st_fee_pool s1) (utx_fee u) of
                  None \<Rightarrow> (Err FeePoolOverflow, s1)
                | Some pool \<Rightarrow> (Ok tx_id, s1\<lparr>st_fee_pool := pool\<rparr>))"

definition apply_transaction ::
    "('a) crypto_ext_scheme \<Rightarrow> state \<Rightarrow> transaction \<Rightarrow> (state_error + hash) \<times> state" where
  "apply_transaction X s tx =
     (case validate_transaction X s tx of
        Inl e \<Rightarrow> (Err e, s)
      | Inr tx_id \<Rightarrow>
          let u = tx_unsigned tx in
          case checked_add (utx_amount u) (utx_fee u) of
            None \<Rightarrow> (Err BalanceOverflow, s)
          | Some required \<Rightarrow>
              if is_faucet_transaction X s u then apply_faucet_transaction s u tx_id
              else
                let sender = bt_get_or default_account (st_accounts s) (utx_from u);
                    receiver = bt_get_or default_account (st_accounts s) (utx_to u)
                in case checked_sub (acct_balance sender) required of
                  None \<Rightarrow> (Err InsufficientBalance, s)
                | Some sender_balance \<Rightarrow>
                    (case checked_add (acct_nonce sender) 1 of
                       None \<Rightarrow> (Err NonceOverflow, s)
                     | Some sender_nonce \<Rightarrow>
                         (case checked_add (st_fee_pool s) (utx_fee u) of
                            None \<Rightarrow> (Err FeePoolOverflow, s)
                          | Some fee_pool \<Rightarrow>
                              if utx_from u = utx_to u then
                                (case checked_add sender_balance (utx_amount u) of
                                   None \<Rightarrow> (Err BalanceOverflow, s)
                                 | Some b \<Rightarrow>
                                     (Ok tx_id, s\<lparr>st_accounts := bt_insert (utx_from u)
                                        \<lparr>acct_balance = b, acct_nonce = sender_nonce\<rparr> (st_accounts s),
                                      st_fee_pool := fee_pool\<rparr>))
                              else
                                (case checked_add (acct_balance receiver) (utx_amount u) of
                                   None \<Rightarrow> (Err BalanceOverflow, s)
                                 | Some b \<Rightarrow>
                                     (Ok tx_id, s\<lparr>st_accounts :=
                                        bt_insert (utx_to u) \<lparr>acct_balance = b, acct_nonce = acct_nonce receiver\<rparr>
                                          (bt_insert (utx_from u)
                                             \<lparr>acct_balance = sender_balance, acct_nonce = sender_nonce\<rparr>
                                             (st_accounts s)),
                                      st_fee_pool := fee_pool\<rparr>)))))"

definition credit_devnet :: "state \<Rightarrow> address \<Rightarrow> amount \<Rightarrow> (state_error + unit) \<times> state" where
  "credit_devnet s a amount =
     (let accounts = bt_entry default_account a (st_accounts s);
          acct = bt_get_or default_account accounts a
      in case checked_add (acct_balance acct) amount of
           None \<Rightarrow> (Err BalanceOverflow, s\<lparr>st_accounts := accounts\<rparr>)
         | Some b \<Rightarrow> (Ok (), s\<lparr>st_accounts := bt_insert a (acct\<lparr>acct_balance := b\<rparr>) accounts\<rparr>))"

section \<open>When a transfer is valid\<close>

lemma validate_transaction_Ok:
  assumes "validate_transaction X s tx = Ok i"
  defines "u \<equiv> tx_unsigned tx"
  shows "utx_version u = 1" and "utx_chain_id u = st_chain_id s"
    and "address_from_public_key X (utx_public_key u) = utx_from u"
    and "\<exists>bs. x_enc_transaction X u = Inr bs \<and> kp_verify X (utx_public_key u) bs (tx_signature tx)"
    and "utx_amount u \<noteq> 0" and "length (utx_memo u) \<le> MAX_MEMO_BYTES" and "st_fee_minimum s \<le> utx_fee u"
    and "\<exists>r. checked_add (utx_amount u) (utx_fee u) = Some r \<and>
           (\<not> is_faucet_transaction X s u \<longrightarrow> r \<le> balance_of s (utx_from u))"
    and "\<not> is_faucet_transaction X s u \<Longrightarrow> bt_get (st_accounts s) (utx_from u) \<noteq> None"
    and "bt_get (st_accounts s) (utx_from u) \<noteq> None \<Longrightarrow> utx_nonce u = nonce_of s (utx_from u)"
    and "transaction_id X tx = Ok i"
  using assms(1)
  by (auto simp: validate_transaction_def Let_def u_def [symmetric] check_nonce_def balance_of_def
      nonce_of_def split: if_splits sum.splits option.splits)

lemma get_or_default:
  "acct_balance (bt_get_or default_account (st_accounts s) a) = balance_of s a"
  "acct_nonce (bt_get_or default_account (st_accounts s) a) = nonce_of s a"
  by (simp_all add: bt_get_or_def balance_of_def nonce_of_def default_account_def split: option.splits)

lemma accounts_bal_of: "accounts_bal (st_accounts s) a = unat (balance_of s a)"
  by (simp add: accounts_bal_def account_balance_def balance_of_def)

lemma accounts_bal_insert [simp]:
  "accounts_bal (bt_insert a x m) b = (if b = a then unat (acct_balance x) else accounts_bal m b)"
  using native_book.bal_put [of m a x b] by (simp add: accounts_put_def)

section \<open>The effect of a transfer\<close>

text \<open>The state after a transfer that is not the faucet's, one form for both branches.\<close>

definition transferred :: "state \<Rightarrow> unsigned_transaction \<Rightarrow> amount \<Rightarrow> amount \<Rightarrow> u64 \<Rightarrow> amount \<Rightarrow> state" where
  "transferred s u sender_balance receiver_balance sender_nonce fee_pool =
     s\<lparr>st_accounts := bt_insert (utx_to u)
          \<lparr>acct_balance = receiver_balance,
           acct_nonce = (if utx_from u = utx_to u then sender_nonce else nonce_of s (utx_to u))\<rparr>
          (bt_insert (utx_from u) \<lparr>acct_balance = sender_balance, acct_nonce = sender_nonce\<rparr> (st_accounts s)),
       st_fee_pool := fee_pool\<rparr>"

lemma bt_insert_twice: "bt_insert k v (bt_insert k w m) = bt_insert k v m"
  by (rule bt_eqI) simp

lemma apply_transaction_Ok:
  assumes "apply_transaction X s tx = (Ok i, s')"
  defines "u \<equiv> tx_unsigned tx"
  assumes "\<not> is_faucet_transaction X s u"
  obtains sb rb nn fp where "validate_transaction X s tx = Ok i"
    and "unat (balance_of s (utx_from u)) = unat (utx_amount u) + unat (utx_fee u) + unat sb"
    and "unat nn = unat (nonce_of s (utx_from u)) + 1"
    and "unat fp = unat (st_fee_pool s) + unat (utx_fee u)"
    and "unat rb = (if utx_from u = utx_to u then unat sb else unat (balance_of s (utx_to u))) + unat (utx_amount u)"
    and "s' = transferred s u sb rb nn fp"
proof -
  obtain required sb nn fp where
    v: "validate_transaction X s tx = Ok i" and r: "checked_add (utx_amount u) (utx_fee u) = Some required"
    and sb: "checked_sub (balance_of s (utx_from u)) required = Some sb"
    and nn: "checked_add (nonce_of s (utx_from u)) 1 = Some nn"
    and fp: "checked_add (st_fee_pool s) (utx_fee u) = Some fp"
    using assms(1,3) unfolding apply_transaction_def Let_def get_or_default u_def [symmetric]
    by (auto split: sum.splits option.splits if_splits)
  let ?old = "if utx_from u = utx_to u then sb else balance_of s (utx_to u)"
  obtain rb where rb: "checked_add ?old (utx_amount u) = Some rb" and s': "s' = transferred s u sb rb nn fp"
    using assms(1,3) v r sb nn fp
    unfolding apply_transaction_def Let_def get_or_default u_def [symmetric] transferred_def
    by (cases "utx_from u = utx_to u") (auto simp: bt_insert_twice split: option.splits)
  show thesis
    using that [OF v _ _ _ _ s'] r sb nn fp rb by (simp add: checked_add_Some checked_sub_Some split: if_splits)
qed

lemma transferred_supply:
  assumes "unat (balance_of s (utx_from u)) = unat (utx_amount u) + unat (utx_fee u) + unat sb"
    and "unat fp = unat (st_fee_pool s) + unat (utx_fee u)"
    and "unat rb = (if utx_from u = utx_to u then unat sb else unat (balance_of s (utx_to u))) + unat (utx_amount u)"
  shows "native_supply (transferred s u sb rb nn fp) = native_supply s"
proof -
  let ?m = "st_accounts s" and ?m1 = "accounts_put (st_accounts s) (utx_from u) \<lparr>acct_balance = sb, acct_nonce = nn\<rparr>"
  have "accounts_total ?m1 + (unat (utx_amount u) + unat (utx_fee u)) = accounts_total ?m"
    by (rule native_book.debit) (simp add: accounts_bal_of assms(1))
  moreover have "accounts_total (accounts_put ?m1 (utx_to u) x) = accounts_total ?m1 + unat (utx_amount u)"
    if "acct_balance x = rb" for x
    by (rule native_book.credit) (simp add: that assms(3) accounts_put_def accounts_bal_of)
  ultimately show ?thesis
    using assms(2) by (simp add: native_supply_def transferred_def accounts_put_def)
qed

text \<open>A concrete ledger for the witnesses: one funded key, every signature valid.\<close>

definition toy_key :: public_key where "toy_key = PublicKey (replicate 32 7)"

definition toy_ledger :: state where
  "toy_ledger = state_new CHAIN_ID 1 (bt_insert (toy_address 2) \<lparr>acct_balance = 50, acct_nonce = 0\<rparr>
     (bt_insert (toy_address 46) \<lparr>acct_balance = 100, acct_nonce = 3\<rparr> bt_empty))"

definition toy_transfer :: "public_key \<Rightarrow> transaction" where
  "toy_transfer pk = \<lparr>tx_unsigned = \<lparr>utx_version = 1, utx_chain_id = CHAIN_ID, utx_nonce = 3,
     utx_from = toy_address 46, utx_to = toy_address 2, utx_amount = 30, utx_fee = 2, utx_public_key = pk,
     utx_memo = ''hi''\<rparr>, tx_signature = Signature []\<rparr>"

lemma toy_address_of_key: "length (pk_bytes pk) = 32 \<Longrightarrow> address_from_public_key toy_state_ext pk = toy_address 46"
  by (simp add: address_from_public_key_def toy_state_ext_defs address_from_hash_eq toy_address_def)

lemma toy_address_neq: "toy_address 46 \<noteq> toy_address 2" "toy_address 2 \<noteq> toy_address 46"
  by (simp_all add: toy_address_def)

lemma toy_faucet:
  "\<not> is_faucet_transaction toy_state_ext toy_ledger (tx_unsigned (toy_transfer toy_key))"
  "is_faucet_transaction toy_state_ext toy_ledger (tx_unsigned (toy_transfer (PublicKey DEVNET_FAUCET_SECRET)))"
  by (simp_all add: is_faucet_transaction_def toy_key_def toy_transfer_def kp_public_key_def devnet_faucet_def
      toy_ledger_def CHAIN_ID_def DEVNET_FAUCET_SECRET_def toy_state_ext_defs)

lemma toy_validate:
  assumes "length (pk_bytes pk) = 32"
  shows "\<exists>i. validate_transaction toy_state_ext toy_ledger (toy_transfer pk) = Ok i"
proof -
  have "kp_verify toy_state_ext pk bs (Signature [])"
    "x_enc_transaction toy_state_ext u = Inr (replicate (unat (utx_nonce u)) 0)"
    "\<exists>i. transaction_id toy_state_ext t = Ok i" for u t bs
    by (simp_all add: kp_verify_def transaction_id_def hash_encoded_def toy_state_ext_defs)
  then show ?thesis
    using assms
    by (auto simp: validate_transaction_def toy_transfer_def toy_ledger_def toy_address_of_key Let_def
        check_nonce_def checked_add_def toy_address_neq MAX_MEMO_BYTES_def)
qed

lemma toy_apply:
  "\<exists>i s'. apply_transaction toy_state_ext toy_ledger (toy_transfer toy_key) = (Ok i, s') \<and>
     balance_of s' (toy_address 46) = 68"
proof -
  obtain i where "validate_transaction toy_state_ext toy_ledger (toy_transfer toy_key) = Ok i"
    using toy_validate [of toy_key] by (auto simp: toy_key_def)
  then show ?thesis
    using toy_faucet(1)
    by (simp add: apply_transaction_def Let_def toy_transfer_def toy_ledger_def toy_address_neq
        checked_add_def checked_sub_def balance_of_def bt_get_or_def)
qed

section \<open>Properties\<close>

text \<open>
  C5. A transfer other than the devnet faucet's conserves the native asset and does exactly what it says:
  the sender pays amount and fee, the recipient gets the amount, the fee pool the fee, the sender's
  nonce advances by one, as unbounded integers; no other account and no other part of the state
  changes. The faucet's transfer mints instead (\<open>faucet_transfer_mints\<close>).
\<close>

theorem transfer_effect:
  assumes "apply_transaction X s tx = (Ok i, s')"
    and "\<not> is_faucet_transaction X s (tx_unsigned tx)"
    and "u = tx_unsigned tx" and "a = utx_from u" and "b = utx_to u"
  shows "native_supply s' = native_supply s \<and>
    unat (balance_of s' a) + unat (utx_amount u) + unat (utx_fee u) =
      unat (balance_of s a) + (if a = b then unat (utx_amount u) else 0) \<and>
    (a \<noteq> b \<longrightarrow> unat (balance_of s' b) = unat (balance_of s b) + unat (utx_amount u) \<and> nonce_of s' b = nonce_of s b) \<and>
    unat (nonce_of s' a) = unat (nonce_of s a) + 1 \<and> nonce_of s a = utx_nonce u \<and>
    unat (st_fee_pool s') = unat (st_fee_pool s) + unat (utx_fee u) \<and>
    (\<forall>c. c \<noteq> a \<and> c \<noteq> b \<longrightarrow> bt_get (st_accounts s') c = bt_get (st_accounts s) c) \<and>
    s' = s\<lparr>st_accounts := st_accounts s', st_fee_pool := st_fee_pool s'\<rparr>"
proof -
  obtain sb rb nn fp where eff: "validate_transaction X s tx = Ok i"
    "unat (balance_of s a) = unat (utx_amount u) + unat (utx_fee u) + unat sb"
    "unat nn = unat (nonce_of s a) + 1" "unat fp = unat (st_fee_pool s) + unat (utx_fee u)"
    "unat rb = (if a = b then unat sb else unat (balance_of s b)) + unat (utx_amount u)"
    "s' = transferred s u sb rb nn fp"
    using assms(1,2) unfolding assms(3-5) by (rule apply_transaction_Ok)
  have "native_supply s' = native_supply s"
    unfolding eff(6) by (rule transferred_supply) (use eff(2,4,5) assms(4,5) in simp_all)
  moreover have "utx_nonce u = nonce_of s a"
    using validate_transaction_Ok(9,10) [OF eff(1)] assms(2-5) by blast
  moreover have get: "bt_get (st_accounts s') c =
      (if c = b then Some \<lparr>acct_balance = rb, acct_nonce = (if a = b then nn else nonce_of s b)\<rparr>
       else if c = a then Some \<lparr>acct_balance = sb, acct_nonce = nn\<rparr> else bt_get (st_accounts s) c)" for c
    unfolding eff(6) transferred_def assms(4,5) by simp
  then have "balance_of s' b = rb" "nonce_of s' b = (if a = b then nn else nonce_of s b)"
    "a \<noteq> b \<Longrightarrow> balance_of s' a = sb" "nonce_of s' a = nn"
    unfolding balance_of_def nonce_of_def by simp_all
  moreover have "st_fee_pool s' = fp" unfolding eff(6) transferred_def by simp
  moreover have "s' = s\<lparr>st_accounts := st_accounts s', st_fee_pool := st_fee_pool s'\<rparr>"
    unfolding eff(6) transferred_def by simp
  ultimately show ?thesis
    using get eff(2-5) by (intro conjI) (assumption | simp)+
qed

theorem transfer_effect_witness:
  "\<exists>i s'. apply_transaction toy_state_ext toy_ledger (toy_transfer toy_key) = (Ok i, s') \<and>
     native_supply s' = native_supply toy_ledger"
proof -
  obtain i s' where "apply_transaction toy_state_ext toy_ledger (toy_transfer toy_key) = (Ok i, s')"
    using toy_apply by blast
  then show ?thesis using transfer_effect toy_faucet(1) by blast
qed

text \<open>
  Every error of a transfer leaves the state as it was, with one exception: the faucet's
  transfer has credited its recipient already when the fee pool overflows.
\<close>

theorem failed_transfer_unchanged:
  assumes "apply_transaction X s tx = (Err e, s')"
  shows "s' = s \<or> (is_faucet_transaction X s (tx_unsigned tx) \<and> e = FeePoolOverflow)"
  using assms
  by (auto simp: apply_transaction_def apply_faucet_transaction_def Let_def
      split: sum.splits option.splits if_splits)

theorem failed_transfer_unchanged_witness:
  "snd (apply_transaction toy_state_ext toy_state (toy_transfer toy_key)) = toy_state"
proof -
  have "bt_get (st_accounts toy_state) (toy_address 46) = None" by (simp add: toy_state_def toy_address_def)
  then have "validate_transaction toy_state_ext toy_state (toy_transfer toy_key) \<noteq> Ok i" for i
    using validate_transaction_Ok(9) [of toy_state_ext toy_state "toy_transfer toy_key" i]
    by (auto simp: toy_transfer_def is_faucet_transaction_def toy_key_def kp_public_key_def
        devnet_faucet_def DEVNET_FAUCET_SECRET_def toy_state_ext_defs)
  then obtain e where e: "apply_transaction toy_state_ext toy_state (toy_transfer toy_key) = (Err e, toy_state)"
    by (cases "validate_transaction toy_state_ext toy_state (toy_transfer toy_key)")
      (auto simp: apply_transaction_def)
  from failed_transfer_unchanged [OF e] e show ?thesis by simp
qed

text \<open>
  C21. Valid transfers succeed: while the native supply fits the 128 bits of an amount, a transfer
  that validates is applied, unless the sender's nonce is the last one. No balance and no fee pool
  overflow can stop it.
\<close>

theorem valid_transfer_succeeds:
  assumes "validate_transaction X s tx = Ok i"
    and "\<not> is_faucet_transaction X s (tx_unsigned tx)"
    and "native_supply s < 2 ^ 128" and "unat (utx_nonce (tx_unsigned tx)) + 1 < 2 ^ 64"
  shows "fst (apply_transaction X s tx) = Ok i"
proof -
  let ?u = "tx_unsigned tx"
  let ?a = "utx_from ?u" and ?b = "utx_to ?u"
  obtain r where r: "checked_add (utx_amount ?u) (utx_fee ?u) = Some r" "r \<le> balance_of s ?a"
    using validate_transaction_Ok(8) [OF assms(1)] assms(2) by blast
  then have r': "unat r = unat (utx_amount ?u) + unat (utx_fee ?u)" by (simp add: checked_add_Some)
  define sb where "sb = balance_of s ?a - r"
  have sb: "checked_sub (balance_of s ?a) r = Some sb" using r(2) by (simp add: checked_sub_def sb_def)
  then have sb': "unat (balance_of s ?a) = unat r + unat sb" by (simp add: checked_sub_Some)
  have total: "accounts_total (st_accounts s) + unat (st_fee_pool s) < 2 ^ 128"
    using assms(3) by (simp add: native_supply_def)
  have le: "unat (balance_of s c) \<le> accounts_total (st_accounts s)" for c
    using native_book.bal_le_total [of "st_accounts s" c] by (simp add: accounts_bal_of)
  have nonce: "nonce_of s ?a = utx_nonce ?u"
    using validate_transaction_Ok(9,10) [OF assms(1)] assms(2) by simp
  obtain nn where nn: "checked_add (nonce_of s ?a) 1 = Some nn"
    using assms(4) nonce by (cases "checked_add (nonce_of s ?a) 1") (auto simp: checked_add_None)
  obtain fp where fp: "checked_add (st_fee_pool s) (utx_fee ?u) = Some fp"
    using total le [of ?a] sb' r'
    by (cases "checked_add (st_fee_pool s) (utx_fee ?u)") (auto simp: checked_add_None)
  have room: "checked_add (balance_of s ?b) (utx_amount ?u) \<noteq> None" if "?a \<noteq> ?b"
  proof -
    have "accounts_bal (st_accounts s) ?a + accounts_bal (st_accounts s) ?b \<le> accounts_total (st_accounts s)"
      using native_book.two_le_total [OF that, of default_account] by (simp add: default_account_def)
    then show ?thesis using total sb' r' by (auto simp: checked_add_None accounts_bal_of)
  qed
  have self: "checked_add sb (utx_amount ?u) \<noteq> None"
    using unat_less [of "balance_of s ?a"] sb' r' by (auto simp: checked_add_None)
  show ?thesis
    using assms(1,2) r(1) sb nn fp room self
    by (cases "?a = ?b") (auto simp: apply_transaction_def Let_def get_or_default split: option.splits)
qed

theorem valid_transfer_succeeds_witness:
  "\<exists>i. fst (apply_transaction toy_state_ext toy_ledger (toy_transfer toy_key)) = Ok i"
proof -
  obtain i where "validate_transaction toy_state_ext toy_ledger (toy_transfer toy_key) = Ok i"
    using toy_validate [of toy_key] by (auto simp: toy_key_def)
  moreover have "native_supply toy_ledger = 150"
    using native_book.credit [of "\<lparr>acct_balance = 50, acct_nonce = 0\<rparr>"
        "accounts_put bt_empty (toy_address 46) \<lparr>acct_balance = 100, acct_nonce = 3\<rparr>" "toy_address 2" 50]
      native_book.credit [of "\<lparr>acct_balance = 100, acct_nonce = 3\<rparr>" bt_empty "toy_address 46" 100]
    by (simp add: native_supply_def toy_ledger_def accounts_put_def toy_address_neq)
  ultimately show ?thesis
    using valid_transfer_succeeds [OF _ toy_faucet(1)] by (force simp: toy_transfer_def)
qed

section \<open>The faucet\<close>

lemma apply_faucet_Ok:
  assumes "apply_transaction X s tx = (Ok i, s')"
  defines "u \<equiv> tx_unsigned tx"
  assumes "is_faucet_transaction X s u"
  obtains rb fp where "validate_transaction X s tx = Ok i"
    and "unat rb = unat (balance_of s (utx_to u)) + unat (utx_amount u)"
    and "unat fp = unat (st_fee_pool s) + unat (utx_fee u)"
    and "s' = s\<lparr>st_accounts := bt_insert (utx_to u) \<lparr>acct_balance = rb, acct_nonce = nonce_of s (utx_to u)\<rparr>
           (st_accounts s), st_fee_pool := fp\<rparr>"
proof -
  obtain rb fp where v: "validate_transaction X s tx = Ok i"
    and rb: "checked_add (balance_of s (utx_to u)) (utx_amount u) = Some rb"
    and fp: "checked_add (st_fee_pool s) (utx_fee u) = Some fp"
    and s': "s' = s\<lparr>st_accounts := bt_insert (utx_to u) \<lparr>acct_balance = rb, acct_nonce = nonce_of s (utx_to u)\<rparr>
           (st_accounts s), st_fee_pool := fp\<rparr>"
    using assms(1,3)
    unfolding apply_transaction_def apply_faucet_transaction_def Let_def get_or_default u_def [symmetric]
    by (auto split: sum.splits option.splits)
  from rb fp show thesis by (intro that [OF v _ _ s']) (simp_all add: checked_add_Some)
qed

lemma faucet_nonces:
  assumes "apply_transaction X s tx = (Ok i, s')" and "is_faucet_transaction X s (tx_unsigned tx)"
  shows "nonce_of s' c = nonce_of s c"
proof -
  obtain rb fp where "s' = s\<lparr>st_accounts := bt_insert (utx_to (tx_unsigned tx))
      \<lparr>acct_balance = rb, acct_nonce = nonce_of s (utx_to (tx_unsigned tx))\<rparr> (st_accounts s), st_fee_pool := fp\<rparr>"
    using assms by (rule apply_faucet_Ok)
  then show ?thesis by (simp add: nonce_of_def)
qed

text \<open>
  The faucet creates what it sends: its transfer raises the native supply by the amount and the
  fee, debits nobody and advances no nonce.
\<close>

theorem faucet_transfer_mints:
  assumes "apply_transaction X s tx = (Ok i, s')" and "is_faucet_transaction X s (tx_unsigned tx)"
    and "u = tx_unsigned tx"
  shows "native_supply s' = native_supply s + unat (utx_amount u) + unat (utx_fee u) \<and>
    nonce_of s' c = nonce_of s c \<and> balance_of s c \<le> balance_of s' c"
proof -
  obtain rb fp where eff: "unat rb = unat (balance_of s (utx_to u)) + unat (utx_amount u)"
    "unat fp = unat (st_fee_pool s) + unat (utx_fee u)"
    and s': "s' = s\<lparr>st_accounts := bt_insert (utx_to u) \<lparr>acct_balance = rb, acct_nonce = nonce_of s (utx_to u)\<rparr>
           (st_accounts s), st_fee_pool := fp\<rparr>"
    using assms(1,2) unfolding assms(3) by (rule apply_faucet_Ok)
  have "accounts_total (st_accounts s') = accounts_total (st_accounts s) + unat (utx_amount u)"
    using native_book.credit [of "\<lparr>acct_balance = rb, acct_nonce = nonce_of s (utx_to u)\<rparr>" "st_accounts s"
        "utx_to u" "unat (utx_amount u)"] eff(1)
    by (simp add: s' accounts_put_def accounts_bal_of)
  moreover have "nonce_of s' c = nonce_of s c" by (rule faucet_nonces [OF assms(1,2)])
  moreover have "balance_of s c \<le> balance_of s' c"
    using eff(1) by (simp add: s' balance_of_def word_le_nat_alt)
  ultimately show ?thesis using eff(2) by (simp add: s' native_supply_def)
qed

definition toy_faucet_transfer :: transaction where
  "toy_faucet_transfer = toy_transfer (PublicKey DEVNET_FAUCET_SECRET)"

lemma toy_faucet_apply:
  "\<exists>i s'. apply_transaction toy_state_ext toy_ledger toy_faucet_transfer = (Ok i, s') \<and>
     balance_of s' (toy_address 2) = 80"
proof -
  obtain i where "validate_transaction toy_state_ext toy_ledger toy_faucet_transfer = Ok i"
    using toy_validate [of "PublicKey DEVNET_FAUCET_SECRET"]
    by (auto simp: DEVNET_FAUCET_SECRET_def toy_faucet_transfer_def)
  then show ?thesis
    using toy_faucet(2)
    by (simp add: apply_transaction_def apply_faucet_transaction_def Let_def toy_faucet_transfer_def
        toy_transfer_def toy_ledger_def toy_address_neq checked_add_def balance_of_def bt_get_or_def)
qed

theorem faucet_transfer_mints_witness:
  "\<exists>i s'. apply_transaction toy_state_ext toy_ledger toy_faucet_transfer = (Ok i, s') \<and>
     native_supply s' = native_supply toy_ledger + 32"
proof -
  obtain i s' where "apply_transaction toy_state_ext toy_ledger toy_faucet_transfer = (Ok i, s')"
    using toy_faucet_apply by blast
  then show ?thesis
    using faucet_transfer_mints [OF _ _ refl] toy_faucet(2)
    by (fastforce simp: toy_faucet_transfer_def toy_transfer_def)
qed

text \<open>
  A faucet transfer to another address can be replayed: after it has been applied the same
  signed transfer validates again, under the same identifier.
\<close>

theorem faucet_transfer_replayable:
  assumes "apply_transaction X s tx = (Ok i, s')" and "is_faucet_transaction X s (tx_unsigned tx)"
    and "utx_from (tx_unsigned tx) \<noteq> utx_to (tx_unsigned tx)"
  shows "validate_transaction X s' tx = Ok i"
proof -
  let ?u = "tx_unsigned tx"
  obtain rb fp where v: "validate_transaction X s tx = Ok i"
    and s': "s' = s\<lparr>st_accounts := bt_insert (utx_to ?u) \<lparr>acct_balance = rb, acct_nonce = nonce_of s (utx_to ?u)\<rparr>
           (st_accounts s), st_fee_pool := fp\<rparr>"
    using assms(1,2) by (rule apply_faucet_Ok)
  have same: "st_chain_id s' = st_chain_id s" "st_fee_minimum s' = st_fee_minimum s"
    "is_faucet_transaction X s' ?u = is_faucet_transaction X s ?u"
    "bt_get (st_accounts s') (utx_from ?u) = bt_get (st_accounts s) (utx_from ?u)"
    using assms(3) by (simp_all add: s' is_faucet_transaction_def)
  have "validate_transaction X s' tx = validate_transaction X s tx"
    by (simp only: validate_transaction_def Let_def same)
  then show ?thesis using v by simp
qed

theorem faucet_transfer_replayable_witness:
  "\<exists>i s'. validate_transaction toy_state_ext s' toy_faucet_transfer = Ok i \<and> balance_of s' (toy_address 2) = 80"
  using toy_faucet_apply faucet_transfer_replayable toy_faucet(2)
  by (fastforce simp: toy_faucet_transfer_def toy_transfer_def toy_address_neq)

end
