(* ===== verification/Operation_Lane.thy ===== *)
theory Operation_Lane
  imports Prelude
begin

text \<open>
  The contract that every lane of the ledger offers to its callers: an operation that has been
  applied leaves its identifier behind, an identifier is never forgotten, and an operation whose
  identifier is there is not applied again. The components that apply operations interpret it.
\<close>

text \<open>The operations of a sequence that were applied, in order.\<close>

fun applied :: "('s \<Rightarrow> 'o \<Rightarrow> ('e + bool) \<times> 's) \<Rightarrow> 's \<Rightarrow> 'o list \<Rightarrow> 'o list" where
  "applied run s [] = []"
| "applied run s (op # ops) =
     (if fst (run s op) = Ok True then op # applied run (snd (run s op)) ops
      else applied run (snd (run s op)) ops)"

locale operation_lane =
  fixes run :: "'s \<Rightarrow> 'o \<Rightarrow> ('e + bool) \<times> 's"
    and key :: "'o \<Rightarrow> 'k"
    and seen :: "'s \<Rightarrow> 'k set"
  assumes applied_marks: "fst (run s op) = Ok True \<Longrightarrow> key op \<in> seen (snd (run s op))"
    and seen_blocks: "key op \<in> seen s \<Longrightarrow> fst (run s op) \<noteq> Ok True"
    and seen_grows: "seen s \<subseteq> seen (snd (run s op))"
begin

lemma applied_fresh: "op \<in> set (applied run s ops) \<Longrightarrow> key op \<notin> seen s"
proof (induction ops arbitrary: s)
  case (Cons o1 ops)
  show ?case
  proof (cases "op \<in> set (applied run (snd (run s o1)) ops)")
    case True
    then show ?thesis using Cons.IH seen_grows by blast
  next
    case False
    then have "op = o1" "fst (run s o1) = Ok True"
      using Cons.prems by (simp_all split: if_splits)
    then show ?thesis using seen_blocks by blast
  qed
qed simp

lemma applied_once: "distinct (map key (applied run s ops))"
proof (induction ops arbitrary: s)
  case (Cons o1 ops)
  have "key o1 \<notin> key ` set (applied run (snd (run s o1)) ops)" if "fst (run s o1) = Ok True"
    using applied_marks [OF that] applied_fresh [of _ "snd (run s o1)" ops] by (metis imageE)
  then show ?case using Cons.IH by simp
qed simp

text \<open>Retrying an operation right after it was applied does not apply it again.\<close>

lemma retry_refused: "fst (run s op) = Ok True \<Longrightarrow> fst (run (snd (run s op)) op) \<noteq> Ok True"
  using applied_marks seen_blocks by blast

end

end
