(* ===== verification/Token_Operations.thy ===== *)
theory Token_Operations
  imports Transfers Operation_Lane
begin

text \<open>
  \<open>crates/wsc-state/src/lib.rs\<close>: native tokens. \<open>validate_token_operation\<close> and
  \<open>apply_token_operation_mut\<close> are split at their matches, one definition for each group of kinds.
  \<open>apply_token_operation\<close> works on a clone and stores it only when every step succeeded, so the
  steps return the next state or an error.
\<close>

section \<open>Validation\<close>

definition check_token_create :: "unsigned_token_operation \<Rightarrow> state_error + unit" where
  "check_token_create u =
     (if utk_token_id u \<noteq> HASH_ZERO
         \<or> utk_name u = [] \<or> 64 < length (utk_name u)
         \<or> utk_symbol u = [] \<or> 16 < length (utk_symbol u)
         \<or> \<not> list_all is_ascii_alphanumeric (utk_symbol u)
         \<or> 18 < utk_decimals u
         \<or> utk_to u \<noteq> None
         \<or> utk_max_supply u = Some 0
         \<or> (case utk_max_supply u of None \<Rightarrow> False | Some cap \<Rightarrow> cap < utk_amount u)
      then Err InvalidTokenMetadata else Ok ())"

definition check_token_transfer :: "unsigned_token_operation \<Rightarrow> state_error + unit" where
  "check_token_transfer u =
     (if utk_token_id u = HASH_ZERO \<or> utk_to u = None \<or> utk_amount u = 0 then Err TokenRecipientRequired
      else if utk_to u = Some (utk_from u) then Err TokenRecipientRequired
      else Ok ())"

definition check_token_burn :: "unsigned_token_operation \<Rightarrow> state_error + unit" where
  "check_token_burn u =
     (if utk_token_id u = HASH_ZERO \<or> utk_to u \<noteq> None \<or> utk_amount u = 0 then Err TokenRecipientForbidden
      else Ok ())"

definition check_token_admin :: "unsigned_token_operation \<Rightarrow> state_error + unit" where
  "check_token_admin u =
     (if utk_token_id u = HASH_ZERO then Err InvalidTokenId
      else if utk_kind u \<in> {TokenFreeze, TokenUnfreeze} \<and> utk_to u = None then Err TokenRecipientRequired
      else if utk_kind u \<notin> {TokenFreeze, TokenUnfreeze} \<and> utk_to u \<noteq> None then Err TokenRecipientForbidden
      else Ok ())"

definition check_token_kind :: "unsigned_token_operation \<Rightarrow> state_error + unit" where
  "check_token_kind u =
     (case utk_kind u of
        TokenCreate \<Rightarrow> check_token_create u
      | TokenTransfer \<Rightarrow> check_token_transfer u
      | TokenMint \<Rightarrow> check_token_transfer u
      | TokenBurn \<Rightarrow> check_token_burn u
      | _ \<Rightarrow> check_token_admin u)"

definition validate_token_operation ::
    "('a) crypto_ext_scheme \<Rightarrow> state \<Rightarrow> token_operation \<Rightarrow> state_error + hash" where
  "validate_token_operation X s op =
     (case token_operation_id X op of
        Inl e \<Rightarrow> Err (TransactionHashing (crypto_error_string e))
      | Inr operation_id \<Rightarrow>
          let u = tk_unsigned op in
          if utk_version u \<noteq> 1 then Err UnsupportedTokenOperationVersion
          else if utk_chain_id u \<noteq> st_chain_id s then Err TokenWrongChainId
          else if address_from_public_key X (utk_public_key u) \<noteq> utk_from u then Err TokenAddressMismatch
          else case x_enc_token_operation X u of
            Inl e \<Rightarrow> Err (SEncoding (encoding_error_string e))
          | Inr bs \<Rightarrow>
              if \<not> kp_verify X (utk_public_key u) bs (tk_signature op) then Err InvalidTokenSignature
              else if MAX_MEMO_BYTES < length (utk_memo u) then Err TokenMemoTooLong
              else if utk_fee u < st_fee_minimum s then Err TokenFeeTooLow
              else case bt_get (st_accounts s) (utk_from u) of
                None \<Rightarrow> Err TokenInsufficientFeeBalance
              | Some sender \<Rightarrow>
                  if acct_nonce sender \<noteq> utk_nonce u
                  then Err (TokenNonceMismatch (acct_nonce sender) (utk_nonce u))
                  else if acct_balance sender < utk_fee u then Err TokenInsufficientFeeBalance
                  else case check_token_kind u of Inl e \<Rightarrow> Err e | Inr _ \<Rightarrow> Ok operation_id)"

section \<open>Steps\<close>

definition adjust_token_balance ::
    "state \<Rightarrow> token_definition \<Rightarrow> address \<Rightarrow> amount \<Rightarrow> bool \<Rightarrow> state_error + state" where
  "adjust_token_balance s d a amount add =
     (let key = token_asset_key d;
          books = bt_entry bt_empty a (st_asset_balances s);
          balances = bt_get_or bt_empty books a;
          current = bt_get_or 0 balances key
      in case (if add then ok_or (checked_add current amount) TokenBalanceOverflow
               else ok_or (checked_sub current amount) TokenInsufficientBalance) of
           Inl e \<Rightarrow> Err e
         | Inr next_balance \<Rightarrow>
             Ok (s\<lparr>st_asset_balances := bt_insert a (bt_insert key next_balance balances) books\<rparr>))"

definition ensure_token_transferable ::
    "state \<Rightarrow> token_definition \<Rightarrow> address \<Rightarrow> address \<Rightarrow> state_error + unit" where
  "ensure_token_transferable s d sender recipient =
     (if td_paused d then Err TokenPaused
      else if is_token_account_frozen s (td_token_id d) sender
              \<or> is_token_account_frozen s (td_token_id d) recipient then Err TokenAccountFrozen
      else Ok ())"

definition put_token_definition :: "token_definition \<Rightarrow> state \<Rightarrow> state" where
  "put_token_definition d s = s\<lparr>st_token_definitions := bt_insert (td_token_id d) d (st_token_definitions s)\<rparr>"

definition token_create ::
    "('a) crypto_ext_scheme \<Rightarrow> state \<Rightarrow> unsigned_token_operation \<Rightarrow> hash \<Rightarrow> state_error + state" where
  "token_create X s u operation_id =
     (let token_id = token_id_from_operation X operation_id in
      if bt_contains (st_token_definitions s) token_id then Err TokenAlreadyExists
      else let d = \<lparr>td_token_id = token_id, td_creator = utk_from u, td_name = utk_name u,
                    td_symbol = utk_symbol u, td_decimals = utk_decimals u, td_total_supply = utk_amount u,
                    td_max_supply = utk_max_supply u, td_mint_authority = utk_mint_authority u,
                    td_burn_authority = utk_burn_authority u, td_freeze_authority = utk_freeze_authority u,
                    td_metadata_uri = utk_metadata_uri u, td_metadata_hash = utk_metadata_hash u,
                    td_paused = False\<rparr>;
               s1 = s\<lparr>st_token_definitions := bt_insert token_id d (st_token_definitions s)\<rparr>
           in if 0 < utk_amount u then adjust_token_balance s1 d (utk_from u) (utk_amount u) True else Ok s1)"

definition token_transfer :: "state \<Rightarrow> unsigned_token_operation \<Rightarrow> state_error + state" where
  "token_transfer s u =
     (case bt_get (st_token_definitions s) (utk_token_id u) of
        None \<Rightarrow> Err TokenNotFound
      | Some d \<Rightarrow>
          (case utk_to u of
             None \<Rightarrow> Err TokenRecipientRequired
           | Some recipient \<Rightarrow>
               (case ensure_token_transferable s d (utk_from u) recipient of
                  Inl e \<Rightarrow> Err e
                | Inr _ \<Rightarrow>
                    (case adjust_token_balance s d (utk_from u) (utk_amount u) False of
                       Inl e \<Rightarrow> Err e
                     | Inr s1 \<Rightarrow> adjust_token_balance s1 d recipient (utk_amount u) True))))"

definition token_mint :: "state \<Rightarrow> unsigned_token_operation \<Rightarrow> state_error + state" where
  "token_mint s u =
     (case bt_get (st_token_definitions s) (utk_token_id u) of
        None \<Rightarrow> Err TokenNotFound
      | Some d \<Rightarrow>
          if td_mint_authority d \<noteq> Some (utk_from u) then Err TokenUnauthorized
          else case utk_to u of
            None \<Rightarrow> Err TokenRecipientRequired
          | Some recipient \<Rightarrow>
              if td_paused d \<or> is_token_account_frozen s (td_token_id d) recipient
              then Err (if td_paused d then TokenPaused else TokenAccountFrozen)
              else case checked_add (td_total_supply d) (utk_amount u) of
                None \<Rightarrow> Err TokenSupplyCapExceeded
              | Some supply \<Rightarrow>
                  if (case td_max_supply d of None \<Rightarrow> False | Some cap \<Rightarrow> cap < supply)
                  then Err TokenSupplyCapExceeded
                  else let d' = d\<lparr>td_total_supply := supply\<rparr>
                       in case adjust_token_balance s d' recipient (utk_amount u) True of
                            Inl e \<Rightarrow> Err e
                          | Inr s1 \<Rightarrow> Ok (put_token_definition d' s1))"

definition token_burn :: "state \<Rightarrow> unsigned_token_operation \<Rightarrow> state_error + state" where
  "token_burn s u =
     (case bt_get (st_token_definitions s) (utk_token_id u) of
        None \<Rightarrow> Err TokenNotFound
      | Some d \<Rightarrow>
          (case ensure_token_transferable s d (utk_from u) (utk_from u) of
             Inl e \<Rightarrow> Err e
           | Inr _ \<Rightarrow>
               (case adjust_token_balance s d (utk_from u) (utk_amount u) False of
                  Inl e \<Rightarrow> Err e
                | Inr s1 \<Rightarrow>
                    (case checked_sub (td_total_supply d) (utk_amount u) of
                       None \<Rightarrow> Err TokenInsufficientBalance
                     | Some supply \<Rightarrow> Ok (put_token_definition (d\<lparr>td_total_supply := supply\<rparr>) s1)))))"

definition token_set_authorities :: "state \<Rightarrow> unsigned_token_operation \<Rightarrow> state_error + state" where
  "token_set_authorities s u =
     (case bt_get (st_token_definitions s) (utk_token_id u) of
        None \<Rightarrow> Err TokenNotFound
      | Some d \<Rightarrow>
          if td_creator d \<noteq> utk_from u then Err TokenUnauthorized
          else Ok (put_token_definition
                 (d\<lparr>td_mint_authority := utk_mint_authority u, td_burn_authority := utk_burn_authority u,
                    td_freeze_authority := utk_freeze_authority u\<rparr>) s))"

definition token_freeze :: "state \<Rightarrow> unsigned_token_operation \<Rightarrow> state_error + state" where
  "token_freeze s u =
     (case bt_get (st_token_definitions s) (utk_token_id u) of
        None \<Rightarrow> Err TokenNotFound
      | Some d \<Rightarrow>
          if td_freeze_authority d \<noteq> Some (utk_from u) then Err TokenUnauthorized
          else case utk_to u of
            None \<Rightarrow> Err TokenRecipientRequired
          | Some recipient \<Rightarrow>
              Ok (s\<lparr>st_frozen_token_accounts :=
                     (if utk_kind u = TokenFreeze
                      then bt_insert (td_token_id d, recipient) () (st_frozen_token_accounts s)
                      else bt_remove (td_token_id d, recipient) (st_frozen_token_accounts s))\<rparr>))"

definition token_pause :: "state \<Rightarrow> unsigned_token_operation \<Rightarrow> state_error + state" where
  "token_pause s u =
     (case bt_get (st_token_definitions s) (utk_token_id u) of
        None \<Rightarrow> Err TokenNotFound
      | Some d \<Rightarrow>
          if td_creator d \<noteq> utk_from u then Err TokenUnauthorized
          else Ok (put_token_definition (d\<lparr>td_paused := (utk_kind u = TokenPause)\<rparr>) s))"

definition token_update_metadata :: "state \<Rightarrow> unsigned_token_operation \<Rightarrow> state_error + state" where
  "token_update_metadata s u =
     (case bt_get (st_token_definitions s) (utk_token_id u) of
        None \<Rightarrow> Err TokenNotFound
      | Some d \<Rightarrow>
          if td_creator d \<noteq> utk_from u \<or> 256 < length (utk_metadata_uri u) then Err TokenUnauthorized
          else Ok (put_token_definition
                 (d\<lparr>td_metadata_uri := utk_metadata_uri u, td_metadata_hash := utk_metadata_hash u\<rparr>) s))"

definition token_effect ::
    "('a) crypto_ext_scheme \<Rightarrow> state \<Rightarrow> unsigned_token_operation \<Rightarrow> hash \<Rightarrow> state_error + state" where
  "token_effect X s u operation_id =
     (case utk_kind u of
        TokenCreate \<Rightarrow> token_create X s u operation_id
      | TokenTransfer \<Rightarrow> token_transfer s u
      | TokenMint \<Rightarrow> token_mint s u
      | TokenBurn \<Rightarrow> token_burn s u
      | TokenSetAuthorities \<Rightarrow> token_set_authorities s u
      | TokenFreeze \<Rightarrow> token_freeze s u
      | TokenUnfreeze \<Rightarrow> token_freeze s u
      | TokenPause \<Rightarrow> token_pause s u
      | TokenUnpause \<Rightarrow> token_pause s u
      | TokenUpdateMetadata \<Rightarrow> token_update_metadata s u)"

definition token_charge_fee :: "state \<Rightarrow> unsigned_token_operation \<Rightarrow> state_error + state" where
  "token_charge_fee s u =
     (case bt_get (st_accounts s) (utk_from u) of
        None \<Rightarrow> Err TokenInsufficientFeeBalance
      | Some sender \<Rightarrow>
          (case checked_sub (acct_balance sender) (utk_fee u) of
             None \<Rightarrow> Err TokenInsufficientFeeBalance
           | Some balance \<Rightarrow>
               (case checked_add (acct_nonce sender) 1 of
                  None \<Rightarrow> Err NonceOverflow
                | Some n \<Rightarrow>
                    (case checked_add (st_fee_pool s) (utk_fee u) of
                       None \<Rightarrow> Err FeePoolOverflow
                     | Some pool \<Rightarrow>
                         Ok (s\<lparr>st_accounts := bt_insert (utk_from u) \<lparr>acct_balance = balance, acct_nonce = n\<rparr>
                                 (st_accounts s), st_fee_pool := pool\<rparr>)))))"

definition apply_token_operation_mut ::
    "('a) crypto_ext_scheme \<Rightarrow> state \<Rightarrow> token_operation \<Rightarrow> hash \<Rightarrow> state_error + state" where
  "apply_token_operation_mut X s op operation_id =
     (let u = tk_unsigned op in
      case token_charge_fee s u of
        Inl e \<Rightarrow> Err e
      | Inr s1 \<Rightarrow>
          (case token_effect X s1 u operation_id of
             Inl e \<Rightarrow> Err e
           | Inr s2 \<Rightarrow>
               Ok (s2\<lparr>st_processed_token_operations := bt_insert operation_id () (st_processed_token_operations s2),
                      st_token_operation_records := bt_insert operation_id op (st_token_operation_records s2)\<rparr>)))"

definition apply_token_operation ::
    "('a) crypto_ext_scheme \<Rightarrow> state \<Rightarrow> token_operation \<Rightarrow> hash \<Rightarrow> (state_error + bool) \<times> state" where
  "apply_token_operation X s op expected_operation_id =
     (case token_operation_id X op of
        Inl e \<Rightarrow> (Err (TransactionHashing (crypto_error_string e)), s)
      | Inr actual \<Rightarrow>
          if actual \<noteq> expected_operation_id then (Err InvalidTokenId, s)
          else if bt_contains (st_processed_token_operations s) expected_operation_id then (Ok False, s)
          else case validate_token_operation X s op of
            Inl e \<Rightarrow> (Err e, s)
          | Inr _ \<Rightarrow>
              (case apply_token_operation_mut X s op expected_operation_id of
                 Inl e \<Rightarrow> (Err e, s)
               | Inr s' \<Rightarrow> (Ok True, s')))"

section \<open>What the steps do\<close>

lemma adjust_token_balance_Ok:
  "adjust_token_balance s d a amount add = Ok s' \<longleftrightarrow>
     (\<exists>x. (if add then unat x = asset_bal (token_asset_key d) (st_asset_balances s) a + unat amount
           else asset_bal (token_asset_key d) (st_asset_balances s) a = unat amount + unat x) \<and>
       s' = s\<lparr>st_asset_balances := asset_put (token_asset_key d) (st_asset_balances s) a x\<rparr>)"
  by (cases add) (auto simp: adjust_token_balance_def result_ok asset_put_def asset_bal_def
      checked_add_Some checked_sub_Some)

lemma ensure_token_transferable_Ok:
  "ensure_token_transferable s d a b = Ok () \<longleftrightarrow>
     \<not> td_paused d \<and> \<not> is_token_account_frozen s (td_token_id d) a \<and> \<not> is_token_account_frozen s (td_token_id d) b"
  by (simp add: ensure_token_transferable_def)

lemma token_charge_fee_Ok:
  assumes "token_charge_fee s u = Ok s'"
  obtains b n pool where "bt_get (st_accounts s) (utk_from u) \<noteq> None"
    and "unat (balance_of s (utk_from u)) = unat (utk_fee u) + unat b"
    and "unat n = unat (nonce_of s (utk_from u)) + 1" and "unat pool = unat (st_fee_pool s) + unat (utk_fee u)"
    and "s' = s\<lparr>st_accounts := bt_insert (utk_from u) \<lparr>acct_balance = b, acct_nonce = n\<rparr> (st_accounts s),
              st_fee_pool := pool\<rparr>"
  using assms by (auto simp: token_charge_fee_def result_ok balance_of_def nonce_of_def checked_add_Some
      checked_sub_Some)

lemma charge_supply:
  assumes "unat (balance_of s a) = unat fee + unat b" and "unat pool = unat (st_fee_pool s) + unat fee"
    and "s' = s\<lparr>st_accounts := bt_insert a \<lparr>acct_balance = b, acct_nonce = n\<rparr> (st_accounts s), st_fee_pool := pool\<rparr>"
  shows "native_supply s' = native_supply s"
proof -
  have "accounts_total (accounts_put (st_accounts s) a \<lparr>acct_balance = b, acct_nonce = n\<rparr>) + unat fee
      = accounts_total (st_accounts s)"
    by (rule native_book.debit) (simp add: accounts_bal_of assms(1))
  then show ?thesis by (simp add: native_supply_def assms(2,3) accounts_put_def)
qed

text \<open>
  The token part of a state: definitions, balances, frozen accounts. A step changes nothing else.
\<close>

definition with_tokens ::
    "state \<Rightarrow> (hash, token_definition) btree_map \<Rightarrow> asset_balances \<Rightarrow> (hash \<times> address) btree_set \<Rightarrow> state" where
  "with_tokens s defs bals frozen =
     s\<lparr>st_token_definitions := defs, st_asset_balances := bals, st_frozen_token_accounts := frozen\<rparr>"

lemma with_tokens_same: "with_tokens s (st_token_definitions s) (st_asset_balances s) (st_frozen_token_accounts s) = s"
  by (simp add: with_tokens_def)

definition new_token ::
    "('a) crypto_ext_scheme \<Rightarrow> unsigned_token_operation \<Rightarrow> hash \<Rightarrow> token_definition" where
  "new_token X u operation_id =
     \<lparr>td_token_id = token_id_from_operation X operation_id, td_creator = utk_from u, td_name = utk_name u,
      td_symbol = utk_symbol u, td_decimals = utk_decimals u, td_total_supply = utk_amount u,
      td_max_supply = utk_max_supply u, td_mint_authority = utk_mint_authority u,
      td_burn_authority = utk_burn_authority u, td_freeze_authority = utk_freeze_authority u,
      td_metadata_uri = utk_metadata_uri u, td_metadata_hash = utk_metadata_hash u, td_paused = False\<rparr>"

text \<open>The steps as relations between the token parts, one clause for each shape of change.\<close>

inductive token_step ::
    "('a) crypto_ext_scheme \<Rightarrow> unsigned_token_operation \<Rightarrow> hash \<Rightarrow>
     (hash, token_definition) btree_map \<Rightarrow> asset_balances \<Rightarrow> (hash \<times> address) btree_set \<Rightarrow>
     (hash, token_definition) btree_map \<Rightarrow> asset_balances \<Rightarrow> (hash \<times> address) btree_set \<Rightarrow> bool"
  for X u i defs bals frozen where
  create: "utk_kind u = TokenCreate \<Longrightarrow> d = new_token X u i \<Longrightarrow> bt_get defs (td_token_id d) = None \<Longrightarrow>
    k = token_asset_key d \<Longrightarrow> unat x = asset_bal k bals (utk_from u) + unat (utk_amount u) \<Longrightarrow>
    bals' = (if utk_amount u = 0 then bals else asset_put k bals (utk_from u) x) \<Longrightarrow>
    token_step X u i defs bals frozen (bt_insert (td_token_id d) d defs) bals' frozen"
| transfer: "utk_kind u = TokenTransfer \<Longrightarrow> bt_get defs (utk_token_id u) = Some d \<Longrightarrow> utk_to u = Some r \<Longrightarrow>
    \<not> td_paused d \<Longrightarrow> \<not> bt_contains frozen (td_token_id d, utk_from u) \<Longrightarrow>
    \<not> bt_contains frozen (td_token_id d, r) \<Longrightarrow> k = token_asset_key d \<Longrightarrow>
    asset_bal k bals (utk_from u) = unat (utk_amount u) + unat x \<Longrightarrow>
    unat y = asset_bal k (asset_put k bals (utk_from u) x) r + unat (utk_amount u) \<Longrightarrow>
    token_step X u i defs bals frozen defs (asset_put k (asset_put k bals (utk_from u) x) r y) frozen"
| mint: "utk_kind u = TokenMint \<Longrightarrow> bt_get defs (utk_token_id u) = Some d \<Longrightarrow> utk_to u = Some r \<Longrightarrow>
    td_mint_authority d = Some (utk_from u) \<Longrightarrow> \<not> td_paused d \<Longrightarrow> \<not> bt_contains frozen (td_token_id d, r) \<Longrightarrow>
    unat supply = unat (td_total_supply d) + unat (utk_amount u) \<Longrightarrow>
    \<forall>cap. td_max_supply d = Some cap \<longrightarrow> supply \<le> cap \<Longrightarrow> k = token_asset_key d \<Longrightarrow>
    unat x = asset_bal k bals r + unat (utk_amount u) \<Longrightarrow>
    token_step X u i defs bals frozen (bt_insert (td_token_id d) (d\<lparr>td_total_supply := supply\<rparr>) defs)
      (asset_put k bals r x) frozen"
| burn: "utk_kind u = TokenBurn \<Longrightarrow> bt_get defs (utk_token_id u) = Some d \<Longrightarrow> \<not> td_paused d \<Longrightarrow>
    \<not> bt_contains frozen (td_token_id d, utk_from u) \<Longrightarrow>
    unat (td_total_supply d) = unat (utk_amount u) + unat supply \<Longrightarrow> k = token_asset_key d \<Longrightarrow>
    asset_bal k bals (utk_from u) = unat (utk_amount u) + unat x \<Longrightarrow>
    token_step X u i defs bals frozen (bt_insert (td_token_id d) (d\<lparr>td_total_supply := supply\<rparr>) defs)
      (asset_put k bals (utk_from u) x) frozen"
| admin: "utk_kind u \<in> {TokenSetAuthorities, TokenPause, TokenUnpause, TokenUpdateMetadata} \<Longrightarrow>
    bt_get defs (utk_token_id u) = Some d \<Longrightarrow> td_creator d = utk_from u \<Longrightarrow>
    td_token_id d' = td_token_id d \<Longrightarrow> td_symbol d' = td_symbol d \<Longrightarrow> td_total_supply d' = td_total_supply d \<Longrightarrow>
    td_max_supply d' = td_max_supply d \<Longrightarrow> td_creator d' = td_creator d \<Longrightarrow>
    token_step X u i defs bals frozen (bt_insert (td_token_id d) d' defs) bals frozen"
| freeze: "utk_kind u \<in> {TokenFreeze, TokenUnfreeze} \<Longrightarrow> bt_get defs (utk_token_id u) = Some d \<Longrightarrow>
    td_freeze_authority d = Some (utk_from u) \<Longrightarrow> token_step X u i defs bals frozen defs bals frozen'"

lemma token_asset_key_supply [simp]: "token_asset_key (d\<lparr>td_total_supply := x\<rparr>) = token_asset_key d"
  by (simp add: token_asset_key_def)

definition token_steps ::
    "('a) crypto_ext_scheme \<Rightarrow> unsigned_token_operation \<Rightarrow> hash \<Rightarrow> state \<Rightarrow> state \<Rightarrow> bool" where
  "token_steps X u i s s' =
     (\<exists>defs bals frozen. s' = with_tokens s defs bals frozen \<and>
        token_step X u i (st_token_definitions s) (st_asset_balances s) (st_frozen_token_accounts s)
          defs bals frozen)"

lemma token_create_step:
  assumes "utk_kind u = TokenCreate" and "token_create X s u i = Ok s'"
  shows "token_steps X u i s s'"
proof -
  let ?d = "new_token X u i" and ?bals = "st_asset_balances s" and ?a = "utk_from u"
  let ?k = "token_asset_key ?d"
  let ?s1 = "s\<lparr>st_token_definitions := bt_insert (td_token_id ?d) ?d (st_token_definitions s)\<rparr>"
  have fresh: "bt_get (st_token_definitions s) (td_token_id ?d) = None"
    and run: "(if 0 < utk_amount u then adjust_token_balance ?s1 ?d ?a (utk_amount u) True else Ok ?s1) = Ok s'"
  proof -
    have eq: "token_create X s u i =
        (if bt_contains (st_token_definitions s) (td_token_id ?d) then Err TokenAlreadyExists
         else if 0 < utk_amount u then adjust_token_balance ?s1 ?d ?a (utk_amount u) True else Ok ?s1)"
      by (simp add: token_create_def Let_def new_token_def)
    then show "bt_get (st_token_definitions s) (td_token_id ?d) = None"
      "(if 0 < utk_amount u then adjust_token_balance ?s1 ?d ?a (utk_amount u) True else Ok ?s1) = Ok s'"
      using assms(2) unfolding eq by (simp_all only: bt_contains_def if_Err_Ok not_not)
  qed
  have "\<exists>x. unat x = asset_bal ?k ?bals ?a + unat (utk_amount u) \<and>
      s' = with_tokens s (bt_insert (td_token_id ?d) ?d (st_token_definitions s))
        (if utk_amount u = 0 then ?bals else asset_put ?k ?bals ?a x) (st_frozen_token_accounts s)"
  proof (cases "utk_amount u = 0")
    case True
    then have "unat (bt_get_or 0 (bt_get_or bt_empty ?bals ?a) ?k) = asset_bal ?k ?bals ?a + unat (utk_amount u)"
      by (simp add: asset_bal_def)
    moreover have "s' = with_tokens s (bt_insert (td_token_id ?d) ?d (st_token_definitions s)) ?bals
        (st_frozen_token_accounts s)"
      using run True by (auto simp: with_tokens_def)
    ultimately show ?thesis
      using True by (intro exI [of _ "bt_get_or 0 (bt_get_or bt_empty ?bals ?a) ?k"]) simp
  next
    case False
    then have "adjust_token_balance ?s1 ?d ?a (utk_amount u) True = Ok s'"
      using run by (simp add: word_neq_0_conv)
    then show ?thesis using False by (auto simp: adjust_token_balance_Ok with_tokens_def)
  qed
  then show ?thesis
    unfolding token_steps_def using token_step.create [OF assms(1) refl fresh refl] by blast
qed

lemma token_transfer_step:
  assumes "utk_kind u = TokenTransfer" and "token_transfer s u = Ok s'"
  shows "token_steps X u i s s'"
proof -
  obtain d r s1 where d: "bt_get (st_token_definitions s) (utk_token_id u) = Some d" "utk_to u = Some r"
    and ok: "ensure_token_transferable s d (utk_from u) r = Ok ()"
    and out: "adjust_token_balance s d (utk_from u) (utk_amount u) False = Ok s1"
    and inn: "adjust_token_balance s1 d r (utk_amount u) True = Ok s'"
    using assms(2) by (auto simp: token_transfer_def result_ok)
  let ?k = "token_asset_key d" and ?bals = "st_asset_balances s"
  obtain x where x: "asset_bal ?k ?bals (utk_from u) = unat (utk_amount u) + unat x"
    and s1: "s1 = s\<lparr>st_asset_balances := asset_put ?k ?bals (utk_from u) x\<rparr>"
    using out by (auto simp: adjust_token_balance_Ok)
  obtain y where y: "unat y = asset_bal ?k (asset_put ?k ?bals (utk_from u) x) r + unat (utk_amount u)"
    and s': "s' = with_tokens s (st_token_definitions s)
        (asset_put ?k (asset_put ?k ?bals (utk_from u) x) r y) (st_frozen_token_accounts s)"
    using inn by (auto simp: adjust_token_balance_Ok s1 with_tokens_def)
  have "\<not> td_paused d" "\<not> bt_contains (st_frozen_token_accounts s) (td_token_id d, utk_from u)"
    "\<not> bt_contains (st_frozen_token_accounts s) (td_token_id d, r)"
    using ok by (simp_all add: ensure_token_transferable_Ok is_token_account_frozen_def)
  from token_step.transfer [OF assms(1) d this refl x y] show ?thesis
    unfolding token_steps_def using s' by blast
qed

lemma within_cap:
  "(case m of None \<Rightarrow> False | Some cap \<Rightarrow> cap < x) \<longleftrightarrow> \<not> (\<forall>cap. m = Some cap \<longrightarrow> x \<le> cap)" for x :: amount
  by (auto split: option.splits)

lemma token_mint_step:
  assumes "utk_kind u = TokenMint" and "token_mint s u = Ok s'"
  shows "token_steps X u i s s'"
proof -
  obtain d r sup s1 where d: "bt_get (st_token_definitions s) (utk_token_id u) = Some d" "utk_to u = Some r"
      "td_mint_authority d = Some (utk_from u)"
    and ok: "\<not> td_paused d" "\<not> bt_contains (st_frozen_token_accounts s) (td_token_id d, r)"
    and sup: "unat sup = unat (td_total_supply d) + unat (utk_amount u)"
    and cap: "\<forall>cap. td_max_supply d = Some cap \<longrightarrow> sup \<le> cap"
    and adj: "adjust_token_balance s (d\<lparr>td_total_supply := sup\<rparr>) r (utk_amount u) True = Ok s1"
    and s': "s' = put_token_definition (d\<lparr>td_total_supply := sup\<rparr>) s1"
    using assms(2)
    by (auto simp: token_mint_def result_ok checked_add_Some is_token_account_frozen_def within_cap)
  let ?k = "token_asset_key d" and ?bals = "st_asset_balances s"
  obtain x where x: "unat x = asset_bal ?k ?bals r + unat (utk_amount u)"
    and s1: "s1 = s\<lparr>st_asset_balances := asset_put ?k ?bals r x\<rparr>"
    using adj by (auto simp: adjust_token_balance_Ok)
  have "s' = with_tokens s (bt_insert (td_token_id d) (d\<lparr>td_total_supply := sup\<rparr>) (st_token_definitions s))
      (asset_put ?k ?bals r x) (st_frozen_token_accounts s)"
    by (simp add: s' s1 put_token_definition_def with_tokens_def)
  then show ?thesis
    unfolding token_steps_def using token_step.mint [OF assms(1) d ok sup cap refl x] by blast
qed

lemma token_burn_step:
  assumes "utk_kind u = TokenBurn" and "token_burn s u = Ok s'"
  shows "token_steps X u i s s'"
proof -
  obtain d sup s1 where d: "bt_get (st_token_definitions s) (utk_token_id u) = Some d"
    and ok: "ensure_token_transferable s d (utk_from u) (utk_from u) = Ok ()"
    and sup: "unat (td_total_supply d) = unat (utk_amount u) + unat sup"
    and adj: "adjust_token_balance s d (utk_from u) (utk_amount u) False = Ok s1"
    and s': "s' = put_token_definition (d\<lparr>td_total_supply := sup\<rparr>) s1"
    using assms(2) by (auto simp: token_burn_def result_ok checked_sub_Some)
  let ?k = "token_asset_key d" and ?bals = "st_asset_balances s"
  obtain x where x: "asset_bal ?k ?bals (utk_from u) = unat (utk_amount u) + unat x"
    and s1: "s1 = s\<lparr>st_asset_balances := asset_put ?k ?bals (utk_from u) x\<rparr>"
    using adj by (auto simp: adjust_token_balance_Ok)
  have "s' = with_tokens s (bt_insert (td_token_id d) (d\<lparr>td_total_supply := sup\<rparr>) (st_token_definitions s))
      (asset_put ?k ?bals (utk_from u) x) (st_frozen_token_accounts s)"
    by (simp add: s' s1 put_token_definition_def with_tokens_def)
  moreover have "\<not> td_paused d" "\<not> bt_contains (st_frozen_token_accounts s) (td_token_id d, utk_from u)"
    using ok by (simp_all add: ensure_token_transferable_Ok is_token_account_frozen_def)
  note token_step.burn [OF assms(1) d this sup refl x]
  ultimately show ?thesis unfolding token_steps_def by blast
qed

lemma put_token_definition_step:
  assumes "utk_kind u \<in> {TokenSetAuthorities, TokenPause, TokenUnpause, TokenUpdateMetadata}"
    and "bt_get (st_token_definitions s) (utk_token_id u) = Some d" and "td_creator d = utk_from u"
    and "td_token_id d' = td_token_id d" "td_symbol d' = td_symbol d" "td_total_supply d' = td_total_supply d"
    and "td_max_supply d' = td_max_supply d" "td_creator d' = td_creator d"
  shows "token_steps X u i s (put_token_definition d' s)"
proof -
  have "put_token_definition d' s = with_tokens s (bt_insert (td_token_id d) d' (st_token_definitions s))
      (st_asset_balances s) (st_frozen_token_accounts s)"
    by (simp add: put_token_definition_def with_tokens_def assms(4))
  then show ?thesis unfolding token_steps_def using token_step.admin [OF assms] by blast
qed

lemma token_freeze_step:
  assumes "utk_kind u \<in> {TokenFreeze, TokenUnfreeze}" and "token_freeze s u = Ok s'"
  shows "token_steps X u i s s'"
proof -
  obtain d frozen where d: "bt_get (st_token_definitions s) (utk_token_id u) = Some d"
      "td_freeze_authority d = Some (utk_from u)"
    and s': "s' = s\<lparr>st_frozen_token_accounts := frozen\<rparr>"
    using assms(2) by (auto simp: token_freeze_def result_ok)
  have "s' = with_tokens s (st_token_definitions s) (st_asset_balances s) frozen"
    by (simp add: s' with_tokens_def)
  then show ?thesis unfolding token_steps_def using token_step.freeze [OF assms(1) d] by blast
qed

lemma token_effect_step:
  assumes "token_effect X s u i = Ok s'"
  shows "token_steps X u i s s'"
proof (cases "utk_kind u")
  case TokenSetAuthorities
  then show ?thesis using assms
    by (auto simp: token_effect_def token_set_authorities_def result_ok intro!: put_token_definition_step)
next
  case TokenPause
  then show ?thesis using assms
    by (auto simp: token_effect_def token_pause_def result_ok intro!: put_token_definition_step)
next
  case TokenUnpause
  then show ?thesis using assms
    by (auto simp: token_effect_def token_pause_def result_ok intro!: put_token_definition_step)
next
  case TokenUpdateMetadata
  then show ?thesis using assms
    by (auto simp: token_effect_def token_update_metadata_def result_ok intro!: put_token_definition_step)
qed (use assms in \<open>simp_all add: token_effect_def token_create_step token_transfer_step token_mint_step
     token_burn_step token_freeze_step\<close>)

section \<open>The token books\<close>

text \<open>The asset key of a token without its definition: the symbol and the identifier.\<close>

definition token_key :: "hash \<Rightarrow> string \<Rightarrow> string" where
  "token_key i symbol = canonical_key (custom_asset i symbol 0)"

definition symbol_ok :: "string \<Rightarrow> bool" where
  "symbol_ok symbol = list_all is_ascii_alphanumeric symbol"

text \<open>
  The books are balanced when every token is stored under its identifier, the balances of its key
  add up to its total supply, the supply is within the cap, and an identifier without a definition
  has no balances.
\<close>

definition token_books :: "(hash, token_definition) btree_map \<Rightarrow> asset_balances \<Rightarrow> bool" where
  "token_books defs bals =
     (\<forall>i. case bt_get defs i of
        Some d \<Rightarrow> td_token_id d = i \<and> symbol_ok (td_symbol d) \<and>
          asset_total (token_asset_key d) bals = unat (td_total_supply d) \<and>
          (\<forall>cap. td_max_supply d = Some cap \<longrightarrow> td_total_supply d \<le> cap)
      | None \<Rightarrow> (\<forall>symbol. symbol_ok symbol \<longrightarrow> asset_total (token_key i symbol) bals = 0))"

lemma token_asset_key_eq: "token_asset_key d = token_key (td_token_id d) (td_symbol d)"
  by (simp add: token_asset_key_def token_key_def canonical_key_def custom_asset_def)

lemma takeWhile_symbol: "symbol_ok a \<Longrightarrow> takeWhile (\<lambda>c. c \<noteq> CHR '':'') (a @ '':'' @ r) = a"
  by (induction a) (auto simp: symbol_ok_def is_ascii_alphanumeric_def Let_def)

lemma token_key_inj:
  assumes "symbol_ok a" and "symbol_ok b" and "token_key i a = token_key j b"
  shows "i = j \<and> a = b"
proof -
  have eq: "a @ '':'' @ ''token:'' @ hash_to_string i = b @ '':'' @ ''token:'' @ hash_to_string j"
    using assms(3) by (simp add: token_key_def canonical_key_def custom_asset_def)
  then have "a = b" using takeWhile_symbol [OF assms(1)] takeWhile_symbol [OF assms(2)] by metis
  with eq show ?thesis by (simp add: hash_to_string_inj)
qed

lemma token_books_def_Some:
  "token_books defs bals \<Longrightarrow> bt_get defs i = Some d \<Longrightarrow>
   td_token_id d = i \<and> symbol_ok (td_symbol d) \<and> asset_total (token_asset_key d) bals = unat (td_total_supply d) \<and>
   (\<forall>cap. td_max_supply d = Some cap \<longrightarrow> td_total_supply d \<le> cap)"
  unfolding token_books_def by (drule spec [of _ i]) simp

lemma token_books_def_None:
  "token_books defs bals \<Longrightarrow> bt_get defs i = None \<Longrightarrow> symbol_ok symbol \<Longrightarrow> asset_total (token_key i symbol) bals = 0"
  unfolding token_books_def by (drule spec [of _ i]) simp

text \<open>Books stay balanced when one token changes and only its own key is written.\<close>

lemma token_books_update:
  assumes "token_books defs bals" and "i = td_token_id d" and "symbol_ok (td_symbol d)"
    and "asset_total (token_asset_key d) bals' = unat (td_total_supply d)"
    and "\<forall>cap. td_max_supply d = Some cap \<longrightarrow> td_total_supply d \<le> cap"
    and other: "\<And>k. k \<noteq> token_asset_key d \<Longrightarrow> asset_total k bals' = asset_total k bals"
  shows "token_books (bt_insert i d defs) bals'"
  unfolding token_books_def
proof
  fix j
  have key: "token_key j a \<noteq> token_asset_key d" if "j \<noteq> i" "symbol_ok a" for a
    using token_key_inj [OF that(2) assms(3)] that(1) assms(2) by (auto simp: token_asset_key_eq)
  show "case bt_get (bt_insert i d defs) j of
        Some d \<Rightarrow> td_token_id d = j \<and> symbol_ok (td_symbol d) \<and>
          asset_total (token_asset_key d) bals' = unat (td_total_supply d) \<and>
          (\<forall>cap. td_max_supply d = Some cap \<longrightarrow> td_total_supply d \<le> cap)
      | None \<Rightarrow> (\<forall>symbol. symbol_ok symbol \<longrightarrow> asset_total (token_key j symbol) bals' = 0)"
  proof (cases "j = i")
    case True
    then show ?thesis using assms(2-5) by simp
  next
    case False
    show ?thesis
    proof (cases "bt_get defs j")
      case None
      then show ?thesis
        using False token_books_def_None [OF assms(1) None] other key by simp
    next
      case (Some e)
      then show ?thesis
        using False token_books_def_Some [OF assms(1) Some] other key
        by (auto simp: token_asset_key_eq [of e])
    qed
  qed
qed

lemma asset_put_credit:
  "unat x = asset_bal k bals a + n \<Longrightarrow> asset_total k (asset_put k bals a x) = asset_total k bals + n"
  by (rule asset_book.credit) simp

lemma asset_put_debit:
  "asset_bal k bals a = n + unat x \<Longrightarrow> asset_total k (asset_put k bals a x) + n = asset_total k bals"
  by (rule asset_book.debit) simp

lemma check_token_create_Ok:
  assumes "check_token_create u = Ok ()"
  shows "symbol_ok (utk_symbol u)" and "\<forall>cap. utk_max_supply u = Some cap \<longrightarrow> utk_amount u \<le> cap"
  using assms unfolding check_token_create_def if_Err_Ok symbol_ok_def within_cap by blast+

lemma token_step_books:
  assumes "token_step X u i defs bals frozen defs' bals' frozen'" and "token_books defs bals"
    and "utk_kind u = TokenCreate \<Longrightarrow> check_token_create u = Ok ()"
  shows "token_books defs' bals'"
  using assms
proof cases
  case (create d k x)
  have sym: "symbol_ok (td_symbol d)" and cap: "\<forall>cap. td_max_supply d = Some cap \<longrightarrow> td_total_supply d \<le> cap"
    using check_token_create_Ok [OF assms(3) [OF create(3)]] by (simp_all add: create(4) new_token_def)
  have zero: "asset_total k bals = 0"
    using token_books_def_None [OF assms(2) create(5) sym] create(6) by (simp add: token_asset_key_eq)
  have "asset_total k bals' = unat (td_total_supply d)"
    using asset_put_credit [OF create(7)] zero create(4,8) by (simp add: new_token_def)
  moreover have "asset_total k' bals' = asset_total k' bals" if "k' \<noteq> k" for k'
    using that create(8) by (simp add: asset_put_other)
  ultimately show ?thesis
    unfolding create(1) using token_books_update [OF assms(2) refl sym _ cap] create(6) by simp
next
  case (transfer d r k x y)
  have "asset_total k' bals' = asset_total k' bals" for k'
  proof (cases "k' = k")
    case True
    then show ?thesis
      using asset_put_debit [OF transfer(11)] asset_put_credit [OF transfer(12)] transfer(2) by simp
  qed (simp add: transfer(2) asset_put_other)
  then have "token_books defs bals' = token_books defs bals" by (simp only: token_books_def)
  then show ?thesis using assms(2) transfer(1) by simp
next
  case (mint d r sup k x)
  note d = token_books_def_Some [OF assms(2) mint(5)]
  show ?thesis
    unfolding mint(1)
  proof (rule token_books_update [OF assms(2)])
    show "asset_total (token_asset_key (d\<lparr>td_total_supply := sup\<rparr>)) bals' =
        unat (td_total_supply (d\<lparr>td_total_supply := sup\<rparr>))"
      using asset_put_credit [OF mint(13)] d mint(2,10,12) by simp
  qed (use d mint(2,11,12) in \<open>simp_all add: asset_put_other\<close>)
next
  case (burn d sup k x)
  note d = token_books_def_Some [OF assms(2) burn(5)]
  show ?thesis
    unfolding burn(1)
  proof (rule token_books_update [OF assms(2)])
    show "asset_total (token_asset_key (d\<lparr>td_total_supply := sup\<rparr>)) bals' =
        unat (td_total_supply (d\<lparr>td_total_supply := sup\<rparr>))"
      using asset_put_debit [OF burn(10)] d burn(2,8,9) by simp
    have "sup \<le> td_total_supply d" using burn(8) by (simp add: word_le_nat_alt)
    then show "\<forall>cap. td_max_supply (d\<lparr>td_total_supply := sup\<rparr>) = Some cap \<longrightarrow>
        td_total_supply (d\<lparr>td_total_supply := sup\<rparr>) \<le> cap"
      using d by (auto intro: order.trans)
  qed (use d burn(2,9) in \<open>simp_all add: asset_put_other\<close>)
next
  case (admin d d')
  note d = token_books_def_Some [OF assms(2) admin(5)]
  have "token_asset_key d' = token_asset_key d"
    using admin by (simp add: token_asset_key_eq)
  then show ?thesis
    unfolding admin(1) using token_books_update [OF assms(2), of "td_token_id d" d' bals'] d admin by simp
next
  case (freeze d)
  then show ?thesis using assms(2) by simp
qed

text \<open>
  The part of the books that is about definitions alone. It does not depend on the balances, so it is
  kept by every token operation, whatever else has touched them.
\<close>

definition definitions_ok :: "(hash, token_definition) btree_map \<Rightarrow> bool" where
  "definitions_ok defs \<longleftrightarrow>
     (\<forall>i d. bt_get defs i = Some d \<longrightarrow> td_token_id d = i \<and> symbol_ok (td_symbol d) \<and>
        (\<forall>cap. td_max_supply d = Some cap \<longrightarrow> td_total_supply d \<le> cap))"

lemma token_books_definitions: "token_books defs bals \<Longrightarrow> definitions_ok defs"
  using token_books_def_Some unfolding definitions_ok_def by blast

lemma definitions_ok_get:
  assumes "definitions_ok defs" and "bt_get defs i = Some d"
  shows "td_token_id d = i" and "symbol_ok (td_symbol d)"
    and "td_max_supply d = Some cap \<Longrightarrow> td_total_supply d \<le> cap"
  using assms unfolding definitions_ok_def by blast+

lemma definitions_ok_insert:
  assumes "definitions_ok defs" and "symbol_ok (td_symbol d)"
    and "\<And>cap. td_max_supply d = Some cap \<Longrightarrow> td_total_supply d \<le> cap"
  shows "definitions_ok (bt_insert (td_token_id d) d defs)"
  using assms unfolding definitions_ok_def by simp

lemma token_step_definitions:
  assumes "token_step X u i defs bals frozen defs' bals' frozen'" and "definitions_ok defs"
    and "utk_kind u = TokenCreate \<Longrightarrow> check_token_create u = Ok ()"
  shows "definitions_ok defs'"
  using assms(1)
proof cases
  case (create d k x)
  show ?thesis
    unfolding create(1)
    by (rule definitions_ok_insert [OF assms(2)])
      (use check_token_create_Ok [OF assms(3) [OF create(3)]] in \<open>simp_all add: create(4) new_token_def\<close>)
next
  case (mint d r sup k x)
  show ?thesis
    using definitions_ok_insert [OF assms(2), of "d\<lparr>td_total_supply := sup\<rparr>"] definitions_ok_get [OF assms(2) mint(5)] mint(1,11)
    by simp
next
  case (burn d sup k x)
  have "sup \<le> td_total_supply d" using burn(8) by (simp add: word_le_nat_alt)
  then show ?thesis
    using definitions_ok_insert [OF assms(2), of "d\<lparr>td_total_supply := sup\<rparr>"] definitions_ok_get [OF assms(2) burn(5)] burn(1)
    by (simp add: order.trans)
next
  case (admin d d')
  show ?thesis
    unfolding admin(1)
    using definitions_ok_insert [OF assms(2), of d'] definitions_ok_get [OF assms(2) admin(5)] admin by simp
qed (use assms(2) in simp_all)

section \<open>Applying a token operation\<close>

lemma apply_token_operation_True:
  assumes "apply_token_operation X s op i = (Ok True, s')"
  obtains s1 s2 where "token_operation_id X op = Ok i" and "\<not> bt_contains (st_processed_token_operations s) i"
    and "validate_token_operation X s op = Ok i" and "token_charge_fee s (tk_unsigned op) = Ok s1"
    and "token_steps X (tk_unsigned op) i s1 s2"
    and "s' = s2\<lparr>st_processed_token_operations := bt_insert i () (st_processed_token_operations s2),
                 st_token_operation_records := bt_insert i op (st_token_operation_records s2)\<rparr>"
proof -
  obtain j where id: "token_operation_id X op = Ok i" "\<not> bt_contains (st_processed_token_operations s) i"
    and v: "validate_token_operation X s op = Ok j" and run: "apply_token_operation_mut X s op i = Ok s'"
    using assms by (auto simp: apply_token_operation_def split: sum.splits if_splits)
  have "j = i" using v id(1) by (auto simp: validate_token_operation_def result_ok)
  obtain s1 s2 where fee: "token_charge_fee s (tk_unsigned op) = Ok s1"
    and eff: "token_effect X s1 (tk_unsigned op) i = Ok s2"
    and s': "s' = s2\<lparr>st_processed_token_operations := bt_insert i () (st_processed_token_operations s2),
                 st_token_operation_records := bt_insert i op (st_token_operation_records s2)\<rparr>"
    using run by (auto simp: apply_token_operation_mut_def result_ok)
  show thesis using that [OF id v [unfolded \<open>j = i\<close>] fee token_effect_step [OF eff] s'] .
qed

lemma apply_token_operation_else:
  "fst (apply_token_operation X s op i) \<noteq> Ok True \<Longrightarrow> snd (apply_token_operation X s op i) = s"
  by (auto simp: apply_token_operation_def split: sum.splits)

lemma validate_token_operation_Ok:
  assumes "validate_token_operation X s op = Ok i"
  defines "u \<equiv> tk_unsigned op"
  shows "token_operation_id X op = Ok i" and "address_from_public_key X (utk_public_key u) = utk_from u"
    and "\<exists>bs. x_enc_token_operation X u = Inr bs \<and> kp_verify X (utk_public_key u) bs (tk_signature op)"
    and "st_fee_minimum s \<le> utk_fee u" and "nonce_of s (utk_from u) = utk_nonce u"
    and "check_token_kind u = Ok ()"
  using assms(1) by (auto simp: validate_token_operation_def result_ok nonce_of_def u_def)

definition token_books_ok :: "state \<Rightarrow> bool" where
  "token_books_ok s = token_books (st_token_definitions s) (st_asset_balances s)"

text \<open>What the fee step leaves alone, and the parts of the state after a successful operation.\<close>

lemma token_charge_fee_frame:
  assumes "token_charge_fee s u = Ok s1"
  shows "st_token_definitions s1 = st_token_definitions s" "st_asset_balances s1 = st_asset_balances s"
    "st_frozen_token_accounts s1 = st_frozen_token_accounts s"
    "st_processed_token_operations s1 = st_processed_token_operations s"
  using assms by (auto elim!: token_charge_fee_Ok)

lemma apply_token_operation_parts:
  assumes "apply_token_operation X s op i = (Ok True, s')"
  shows "token_step X (tk_unsigned op) i (st_token_definitions s) (st_asset_balances s)
      (st_frozen_token_accounts s) (st_token_definitions s') (st_asset_balances s') (st_frozen_token_accounts s')"
    and "st_processed_token_operations s' = bt_insert i () (st_processed_token_operations s)"
    and "\<exists>s1. token_charge_fee s (tk_unsigned op) = Ok s1 \<and> st_accounts s' = st_accounts s1 \<and>
      st_fee_pool s' = st_fee_pool s1"
proof -
  obtain s1 defs bals frozen where fee: "token_charge_fee s (tk_unsigned op) = Ok s1"
    and step: "token_step X (tk_unsigned op) i (st_token_definitions s1) (st_asset_balances s1)
      (st_frozen_token_accounts s1) defs bals frozen"
    and s': "s' = (with_tokens s1 defs bals frozen)\<lparr>st_processed_token_operations :=
        bt_insert i () (st_processed_token_operations s1),
      st_token_operation_records := bt_insert i op (st_token_operation_records s1)\<rparr>"
  proof -
    obtain s1 s2 where fee: "token_charge_fee s (tk_unsigned op) = Ok s1"
      and steps: "token_steps X (tk_unsigned op) i s1 s2"
      and s': "s' = s2\<lparr>st_processed_token_operations := bt_insert i () (st_processed_token_operations s2),
                 st_token_operation_records := bt_insert i op (st_token_operation_records s2)\<rparr>"
      using assms by (rule apply_token_operation_True)
    from steps obtain defs bals frozen where s2: "s2 = with_tokens s1 defs bals frozen"
      and step: "token_step X (tk_unsigned op) i (st_token_definitions s1) (st_asset_balances s1)
        (st_frozen_token_accounts s1) defs bals frozen"
      unfolding token_steps_def by blast
    show thesis by (rule that [OF fee step]) (simp add: s' s2 with_tokens_def)
  qed
  show "token_step X (tk_unsigned op) i (st_token_definitions s) (st_asset_balances s)
      (st_frozen_token_accounts s) (st_token_definitions s') (st_asset_balances s') (st_frozen_token_accounts s')"
    using step token_charge_fee_frame [OF fee] by (simp add: s' with_tokens_def)
  show "st_processed_token_operations s' = bt_insert i () (st_processed_token_operations s)"
    using token_charge_fee_frame [OF fee] by (simp add: s' with_tokens_def)
  show "\<exists>s1. token_charge_fee s (tk_unsigned op) = Ok s1 \<and> st_accounts s' = st_accounts s1 \<and>
      st_fee_pool s' = st_fee_pool s1"
    using fee by (auto simp: s' with_tokens_def)
qed

lemma applied_create_checked:
  "apply_token_operation X s op i = (Ok True, s') \<Longrightarrow> utk_kind (tk_unsigned op) = TokenCreate \<Longrightarrow>
    check_token_create (tk_unsigned op) = Ok ()"
  using validate_token_operation_Ok(6) [of X s op] by (elim apply_token_operation_True) (fastforce simp: check_token_kind_def)

lemma token_definitions_kept:
  "definitions_ok (st_token_definitions s) \<Longrightarrow> definitions_ok (st_token_definitions (snd (apply_token_operation X s op i)))"
proof (cases "fst (apply_token_operation X s op i) = Ok True")
  case True
  then obtain s' where s': "apply_token_operation X s op i = (Ok True, s')"
    by (cases "apply_token_operation X s op i") auto
  assume "definitions_ok (st_token_definitions s)"
  then show ?thesis
    using token_step_definitions [OF apply_token_operation_parts(1) [OF s']] applied_create_checked [OF s'] by (simp add: s')
qed (simp add: apply_token_operation_else)

lemma token_books_kept: "token_books_ok s \<Longrightarrow> token_books_ok (snd (apply_token_operation X s op i))"
proof (cases "fst (apply_token_operation X s op i) = Ok True")
  case True
  assume books: "token_books_ok s"
  obtain s' where s': "apply_token_operation X s op i = (Ok True, s')"
    using True by (cases "apply_token_operation X s op i") auto
  show ?thesis
    using token_step_books [OF apply_token_operation_parts(1) [OF s']] applied_create_checked [OF s'] books
    by (simp add: s' token_books_ok_def)
qed (simp add: apply_token_operation_else)

interpretation token_lane: operation_lane "\<lambda>s (op, i). apply_token_operation X s op i" snd
  "\<lambda>s. bt_keys (st_processed_token_operations s)" for X
proof unfold_locales
  fix s and p :: "token_operation \<times> hash"
  obtain op i where p: "p = (op, i)" by (cases p)
  have ok: "st_processed_token_operations (snd (apply_token_operation X s op i)) =
      bt_insert i () (st_processed_token_operations s)" if "fst (apply_token_operation X s op i) = Ok True"
    using that apply_token_operation_parts(2) by (cases "apply_token_operation X s op i") auto
  show "snd p \<in> bt_keys (st_processed_token_operations (snd (case p of (op, i) \<Rightarrow> apply_token_operation X s op i)))"
    if "fst (case p of (op, i) \<Rightarrow> apply_token_operation X s op i) = Ok True"
    using that ok by (simp add: p)
  show "bt_keys (st_processed_token_operations s) \<subseteq>
      bt_keys (st_processed_token_operations (snd (case p of (op, i) \<Rightarrow> apply_token_operation X s op i)))"
    using ok apply_token_operation_else [of X s op i]
    by (cases "fst (apply_token_operation X s op i) = Ok True") (auto simp: p)
  show "fst (case p of (op, i) \<Rightarrow> apply_token_operation X s op i) \<noteq> Ok True"
    if "snd p \<in> bt_keys (st_processed_token_operations s)"
    using that by (auto simp: p bt_keys_def apply_token_operation_def split: sum.splits)
qed

section \<open>Properties\<close>

text \<open>Concrete operations on the toy ledger, signed by its funded key.\<close>

definition toy_operation_id :: "byte \<Rightarrow> hash" where "toy_operation_id n = Hash (replicate 32 (22 + n))"

definition toy_op :: "token_operation_kind \<Rightarrow> hash \<Rightarrow> address option \<Rightarrow> amount \<Rightarrow> token_operation" where
  "toy_op kind token_id recipient amount =
     \<lparr>tk_unsigned = \<lparr>utk_version = 1, utk_chain_id = CHAIN_ID, utk_nonce = 3,
        utk_from = toy_address 46, utk_kind = kind, utk_token_id = token_id, utk_to = recipient,
        utk_amount = amount, utk_fee = 2, utk_public_key = toy_key, utk_name = ''Toy'', utk_symbol = ''TOY'',
        utk_decimals = 2, utk_max_supply = Some 20, utk_mint_authority = Some (toy_address 46),
        utk_burn_authority = None, utk_freeze_authority = None, utk_metadata_uri = [],
        utk_metadata_hash = HASH_ZERO, utk_memo = []\<rparr>, tk_signature = Signature []\<rparr>"

lemma toy_op_simps [simp]:
  "utk_nonce (tk_unsigned (toy_op k t r a)) = 3" "utk_from (tk_unsigned (toy_op k t r a)) = toy_address 46"
  "utk_kind (tk_unsigned (toy_op k t r a)) = k" "utk_fee (tk_unsigned (toy_op k t r a)) = 2"
  "utk_token_id (tk_unsigned (toy_op k t r a)) = t" "utk_to (tk_unsigned (toy_op k t r a)) = r"
  "utk_amount (tk_unsigned (toy_op k t r a)) = a"
  by (simp_all add: toy_op_def)

lemma toy_token_operation_id: "token_operation_id toy_state_ext (toy_op k t r a) = Ok (toy_operation_id 3)"
  by (simp add: token_operation_id_def hash_encoded_def sha256_domain_def toy_state_ext_defs toy_operation_id_def)

definition toy_token_ledger :: "(hash, token_definition) btree_map \<Rightarrow> asset_balances \<Rightarrow> state" where
  "toy_token_ledger defs bals = toy_ledger\<lparr>st_token_definitions := defs, st_asset_balances := bals\<rparr>"

lemma toy_token_ledger_simps [simp]:
  "st_token_definitions (toy_token_ledger defs bals) = defs" "st_asset_balances (toy_token_ledger defs bals) = bals"
  "st_chain_id (toy_token_ledger defs bals) = CHAIN_ID" "st_fee_minimum (toy_token_ledger defs bals) = 1"
  "st_fee_pool (toy_token_ledger defs bals) = 0" "st_frozen_token_accounts (toy_token_ledger defs bals) = bt_empty"
  "st_processed_token_operations (toy_token_ledger defs bals) = bt_empty"
  "bt_get (st_accounts (toy_token_ledger defs bals)) (toy_address 46) = Some \<lparr>acct_balance = 100, acct_nonce = 3\<rparr>"
  by (simp_all add: toy_token_ledger_def toy_ledger_def toy_address_neq state_new_def)

lemma toy_op_applies:
  assumes "check_token_kind (tk_unsigned (toy_op k t r a)) = Ok ()"
    and "\<And>s. st_token_definitions s = defs \<Longrightarrow> st_asset_balances s = bals \<Longrightarrow> st_frozen_token_accounts s = bt_empty \<Longrightarrow>
      \<exists>s'. token_effect toy_state_ext s (tk_unsigned (toy_op k t r a)) (toy_operation_id 3) = Ok s'"
  shows "\<exists>s'. apply_token_operation toy_state_ext (toy_token_ledger defs bals) (toy_op k t r a)
      (toy_operation_id 3) = (Ok True, s')"
proof -
  let ?s = "toy_token_ledger defs bals" and ?op = "toy_op k t r a"
  have "kp_verify toy_state_ext toy_key bs (Signature [])"
    "x_enc_token_operation toy_state_ext u = Inr (replicate (unat (utk_nonce u)) 0)" for u bs
    by (simp_all add: kp_verify_def toy_state_ext_defs)
  moreover have "address_from_public_key toy_state_ext toy_key = toy_address 46"
    by (rule toy_address_of_key) (simp add: toy_key_def)
  ultimately have v: "validate_token_operation toy_state_ext ?s ?op = Ok (toy_operation_id 3)"
    using assms(1)
    by (simp add: validate_token_operation_def toy_token_operation_id Let_def)
      (simp add: toy_op_def)
  have "\<exists>s1. token_charge_fee ?s (tk_unsigned ?op) = Ok s1 \<and> st_token_definitions s1 = defs \<and>
      st_asset_balances s1 = bals \<and> st_frozen_token_accounts s1 = bt_empty"
    by (simp add: token_charge_fee_def checked_add_def checked_sub_def)
  then have "\<exists>s'. apply_token_operation_mut toy_state_ext ?s ?op (toy_operation_id 3) = Ok s'"
    using assms(2) by (fastforce simp: apply_token_operation_mut_def Let_def)
  then show ?thesis
    using v by (auto simp: apply_token_operation_def toy_token_operation_id)
qed

abbreviation toy_create :: token_operation where
  "toy_create \<equiv> toy_op TokenCreate HASH_ZERO None 10"

definition toy_token_id :: hash where "toy_token_id = Hash (replicate 32 1)"

definition toy_definition :: token_definition where
  "toy_definition = \<lparr>td_token_id = toy_token_id, td_creator = toy_address 46, td_name = ''Toy'', td_symbol = ''TOY'',
     td_decimals = 2, td_total_supply = 0, td_max_supply = Some 20, td_mint_authority = Some (toy_address 46),
     td_burn_authority = None, td_freeze_authority = None, td_metadata_uri = [], td_metadata_hash = HASH_ZERO,
     td_paused = False\<rparr>"

lemma toy_create_ok:
  "\<exists>s'. apply_token_operation toy_state_ext (toy_token_ledger bt_empty bt_empty) toy_create (toy_operation_id 3) =
     (Ok True, s')"
  by (rule toy_op_applies)
    (simp_all add: check_token_kind_def check_token_create_def toy_op_def is_ascii_alphanumeric_def
      token_effect_def token_create_def bt_contains_def adjust_token_balance_def Let_def ok_or_def checked_add_def)

abbreviation toy_mint :: token_operation where
  "toy_mint \<equiv> toy_op TokenMint toy_token_id (Some (toy_address 2)) 5"

abbreviation toy_mint_ledger :: state where
  "toy_mint_ledger \<equiv> toy_token_ledger (bt_insert toy_token_id toy_definition bt_empty) bt_empty"

lemma toy_mint_ok:
  "\<exists>s'. apply_token_operation toy_state_ext toy_mint_ledger toy_mint (toy_operation_id 3) = (Ok True, s')"
  by (rule toy_op_applies)
    (simp_all add: check_token_kind_def check_token_transfer_def toy_address_neq toy_token_id_def HASH_ZERO_def
      token_effect_def token_mint_def toy_definition_def is_token_account_frozen_def adjust_token_balance_def
      Let_def ok_or_def checked_add_def)

lemma toy_books_empty: "token_books bt_empty bt_empty"
  by (simp add: token_books_def asset_total_def)

lemma toy_token_books: "token_books_ok (toy_token_ledger bt_empty bt_empty)" "token_books_ok toy_mint_ledger"
  using token_books_update [OF toy_books_empty, of toy_token_id toy_definition bt_empty] toy_books_empty
  by (simp_all add: token_books_ok_def toy_definition_def symbol_ok_def is_ascii_alphanumeric_def asset_total_def)

text \<open>
  C6. The supply of every token is accounted for: a token operation, whatever its outcome, keeps
  the balances of each token adding up to its total supply, the supply within its cap, and every
  definition under its own identifier.
\<close>

theorem token_operation_keeps_books:
  assumes "token_books_ok s"
  shows "token_books_ok (snd (apply_token_operation X s op i))"
  using assms by (rule token_books_kept)

theorem token_operation_keeps_books_witness:
  "\<exists>s'. apply_token_operation toy_state_ext (toy_token_ledger bt_empty bt_empty) toy_create (toy_operation_id 3) =
     (Ok True, s') \<and> token_books_ok s'"
  using token_operation_keeps_books [OF toy_token_books(1), of toy_state_ext toy_create "toy_operation_id 3"]
    toy_create_ok by auto

text \<open>
  A token operation is atomic and pays its fee: either it is applied, and then the sender pays
  exactly the fee into the fee pool, its nonce advances by one and the native supply is unchanged,
  or the state is untouched.
\<close>

theorem token_operation_atomic:
  "apply_token_operation X s op i = (r, s') \<longrightarrow>
    (if r = Ok True then
       native_supply s' = native_supply s \<and>
       unat (balance_of s (utk_from (tk_unsigned op))) =
         unat (balance_of s' (utk_from (tk_unsigned op))) + unat (utk_fee (tk_unsigned op)) \<and>
       unat (nonce_of s' (utk_from (tk_unsigned op))) = unat (nonce_of s (utk_from (tk_unsigned op))) + 1 \<and>
       (\<forall>c. c \<noteq> utk_from (tk_unsigned op) \<longrightarrow> bt_get (st_accounts s') c = bt_get (st_accounts s) c)
     else s' = s)"
proof
  assume run: "apply_token_operation X s op i = (r, s')"
  let ?a = "utk_from (tk_unsigned op)"
  show "if r = Ok True then
       native_supply s' = native_supply s \<and>
       unat (balance_of s ?a) = unat (balance_of s' ?a) + unat (utk_fee (tk_unsigned op)) \<and>
       unat (nonce_of s' ?a) = unat (nonce_of s ?a) + 1 \<and>
       (\<forall>c. c \<noteq> ?a \<longrightarrow> bt_get (st_accounts s') c = bt_get (st_accounts s) c)
     else s' = s"
  proof (cases "r = Ok True")
    case True
    obtain s1 where fee: "token_charge_fee s (tk_unsigned op) = Ok s1"
      and same: "st_accounts s' = st_accounts s1" "st_fee_pool s' = st_fee_pool s1"
      using apply_token_operation_parts(3) [of X s op i s'] run True by auto
    obtain b n pool where eff: "unat (balance_of s ?a) = unat (utk_fee (tk_unsigned op)) + unat b"
      "unat n = unat (nonce_of s ?a) + 1" "unat pool = unat (st_fee_pool s) + unat (utk_fee (tk_unsigned op))"
      "s1 = s\<lparr>st_accounts := bt_insert ?a \<lparr>acct_balance = b, acct_nonce = n\<rparr> (st_accounts s), st_fee_pool := pool\<rparr>"
      using fee by (rule token_charge_fee_Ok)
    have "native_supply s' = native_supply s"
      using charge_supply [OF eff(1,3,4)] by (simp add: native_supply_def same)
    moreover have "st_accounts s' = bt_insert ?a \<lparr>acct_balance = b, acct_nonce = n\<rparr> (st_accounts s)"
      by (simp add: same eff(4))
    ultimately show ?thesis using True eff(1,2) by (simp add: balance_of_def nonce_of_def)
  next
    case False
    then show ?thesis using apply_token_operation_else [of X s op i] run by simp
  qed
qed

theorem token_operation_atomic_witness:
  "\<exists>s'. apply_token_operation toy_state_ext toy_mint_ledger toy_mint (toy_operation_id 3) = (Ok True, s') \<and>
     native_supply s' = native_supply toy_mint_ledger"
proof -
  obtain s' where "apply_token_operation toy_state_ext toy_mint_ledger toy_mint (toy_operation_id 3) = (Ok True, s')"
    using toy_mint_ok by blast
  then show ?thesis
    using token_operation_atomic [of toy_state_ext toy_mint_ledger toy_mint "toy_operation_id 3" "Ok True" s'] by auto
qed

text \<open>
  A token operation is applied at most once: however often and in whatever order operations are
  submitted, no operation identifier is applied twice.
\<close>

theorem token_operations_at_most_once:
  "distinct (map snd (applied (\<lambda>s (op, i). apply_token_operation X s op i) s ops))"
  by (rule token_lane.applied_once)





lemma token_key_same:
  assumes "definitions_ok defs" and "bt_get defs i = Some d" and "bt_get defs j = Some e"
    and "token_asset_key d = token_asset_key e"
  shows "i = j"
  using definitions_ok_get [OF assms(1,2)] definitions_ok_get [OF assms(1,3)] assms(4)
    token_key_inj [of "td_symbol d" "td_symbol e" i j] by (simp add: token_asset_key_eq)

lemma token_step_debited:
  assumes "token_step X u i defs bals frozen defs' bals' frozen'" and "definitions_ok defs"
    and "bt_get defs j = Some d" and "asset_bal (token_asset_key d) bals' a < asset_bal (token_asset_key d) bals a"
  shows "a = utk_from u \<and> utk_token_id u = j \<and> utk_kind u \<in> {TokenTransfer, TokenBurn} \<and> \<not> td_paused d \<and>
    \<not> bt_contains frozen (j, a)"
  using assms(1)
proof cases
  case (create e k x)
  have "asset_bal k' bals a \<le> asset_bal k' bals' a" for k'
    using create(7,8) asset_book.bal_put [of k bals "utk_from u" x a]
    by (cases "k' = k") (auto simp: asset_put_other)
  then show ?thesis using assms(4) by (simp add: not_le [symmetric])
next
  case (transfer e r k x y)
  have k: "token_asset_key d = k"
    using assms(4) transfer(2) asset_put_other(1) by (metis less_irrefl)
  have a: "a = utk_from u"
    using assms(4) transfer(11,12) unfolding k transfer(2)
    by (simp add: asset_book.bal_put split: if_splits)
  have "j = utk_token_id u"
    using token_key_same [OF assms(2,3) transfer(5)] transfer(10) k by simp
  then show ?thesis using transfer a assms(3) definitions_ok_get [OF assms(2,3)] by auto
next
  case (mint e r sup k x)
  have "asset_bal k' bals a \<le> asset_bal k' bals' a" for k'
    using mint(2,13) asset_book.bal_put [of k bals r x a] by (cases "k' = k") (auto simp: asset_put_other)
  then show ?thesis using assms(4) by (simp add: not_le [symmetric])
next
  case (burn e sup k x)
  have k: "token_asset_key d = k"
    using assms(4) burn(2) asset_put_other(1) by (metis less_irrefl)
  have a: "a = utk_from u"
    using assms(4) unfolding k burn(2) by (simp add: asset_book.bal_put split: if_splits)
  have "j = utk_token_id u"
    using token_key_same [OF assms(2,3) burn(5)] burn(9) k by simp
  then show ?thesis using burn a assms(3) definitions_ok_get [OF assms(2,3)] by auto
qed (use assms(4) in simp_all)

lemma token_debit_signed:
  assumes "apply_token_operation X s op i = (Ok True, s')" and "definitions_ok (st_token_definitions s)"
    and "bt_get (st_token_definitions s) j = Some d" and "token_balance s' a d < token_balance s a d"
    and "u = tk_unsigned op"
  shows "a = utk_from u \<and> utk_token_id u = j \<and> utk_kind u \<in> {TokenTransfer, TokenBurn} \<and> \<not> td_paused d \<and>
    \<not> is_token_account_frozen s j a \<and> address_from_public_key X (utk_public_key u) = a \<and>
    (\<exists>bs. x_enc_token_operation X u = Inr bs \<and> kp_verify X (utk_public_key u) bs (tk_signature op))"
proof -
  have "validate_token_operation X s op = Ok i"
    using assms(1) by (rule apply_token_operation_True)
  note sig = validate_token_operation_Ok(2,3) [OF this]
  have "asset_bal (token_asset_key d) (st_asset_balances s') a < asset_bal (token_asset_key d) (st_asset_balances s) a"
    using assms(4) by (simp add: token_balance_eq word_less_nat_alt asset_balance_of_bal)
  from token_step_debited [OF apply_token_operation_parts(1) [OF assms(1)]
      assms(2,3) this] sig
  show ?thesis by (auto simp: assms(5) is_token_account_frozen_def)
qed

text \<open>
  Within the lane of token operations only their owner moves tokens: if the balance of an account in an
  existing token fell, the operation was signed for by that account, was a transfer or a burn of that
  token, and neither was the token paused nor the account frozen.
\<close>

theorem token_debits_are_signed:
  assumes "apply_token_operation X s op i = (Ok True, s')" and "definitions_ok (st_token_definitions s)"
    and "bt_get (st_token_definitions s) j = Some d" and "token_balance s' a d < token_balance s a d"
    and "u = tk_unsigned op"
  shows "a = utk_from u \<and> utk_token_id u = j \<and> utk_kind u \<in> {TokenTransfer, TokenBurn} \<and> \<not> td_paused d \<and>
    \<not> is_token_account_frozen s j a \<and> address_from_public_key X (utk_public_key u) = a \<and>
    (\<exists>bs. x_enc_token_operation X u = Inr bs \<and> kp_verify X (utk_public_key u) bs (tk_signature op))"
  using assms by (rule token_debit_signed)

text \<open>A ledger on which the funded account holds seven units, for the witness.\<close>

abbreviation toy_burn :: token_operation where
  "toy_burn \<equiv> toy_op TokenBurn toy_token_id None 3"

definition toy_held :: token_definition where "toy_held = toy_definition\<lparr>td_total_supply := 7\<rparr>"

abbreviation toy_burn_ledger :: state where
  "toy_burn_ledger \<equiv> toy_token_ledger (bt_insert toy_token_id toy_held bt_empty)
     (asset_put (token_asset_key toy_held) bt_empty (toy_address 46) 7)"

lemma toy_burn_ok:
  "\<exists>s'. apply_token_operation toy_state_ext toy_burn_ledger toy_burn (toy_operation_id 3) = (Ok True, s')"
  by (rule toy_op_applies)
    (simp_all add: check_token_kind_def check_token_burn_def toy_token_id_def HASH_ZERO_def toy_definition_def
      token_effect_def token_burn_def toy_held_def ensure_token_transferable_def is_token_account_frozen_def
      adjust_token_balance_def Let_def ok_or_def checked_sub_def asset_put_def)

lemma toy_burn_books: "token_books_ok toy_burn_ledger"
proof -
  have "asset_total (token_asset_key toy_held) (asset_put (token_asset_key toy_held) bt_empty (toy_address 46) 7) = 7"
    using asset_put_credit [of 7 "token_asset_key toy_held" bt_empty "toy_address 46" 7]
    by (simp add: asset_bal_def asset_total_def)
  then show ?thesis
    using token_books_update [OF toy_books_empty, of toy_token_id toy_held
        "asset_put (token_asset_key toy_held) bt_empty (toy_address 46) 7"]
    by (simp add: token_books_ok_def asset_put_other)
      (simp add: toy_held_def toy_definition_def symbol_ok_def is_ascii_alphanumeric_def)
qed

lemma toy_burn_debits:
  obtains s' where "apply_token_operation toy_state_ext toy_burn_ledger toy_burn (toy_operation_id 3) = (Ok True, s')"
    and "token_balance s' (toy_address 46) toy_held < token_balance toy_burn_ledger (toy_address 46) toy_held"
proof -
  obtain s' where s': "apply_token_operation toy_state_ext toy_burn_ledger toy_burn (toy_operation_id 3) = (Ok True, s')"
    using toy_burn_ok by blast
  have "token_balance s' (toy_address 46) toy_held < token_balance toy_burn_ledger (toy_address 46) toy_held"
    using apply_token_operation_parts(1) [OF s']
  proof cases
    case (burn d sup k x)
    then have d: "d = toy_held" by simp
    have "asset_bal k (asset_put k bt_empty (toy_address 46) 7) (toy_address 46) = 7"
      by (simp add: asset_book.bal_put)
    then have "unat x < 7" using burn(10) by (simp add: burn(9) d)
    then show ?thesis
      unfolding token_balance_eq word_less_nat_alt asset_balance_of_bal burn(2)
      by (simp add: burn(9) d asset_book.bal_put)
  qed simp_all
  then show thesis by (rule that [OF s'])
qed

lemma toy_burn_definitions: "definitions_ok (st_token_definitions toy_burn_ledger)"
  using toy_burn_books token_books_definitions unfolding token_books_ok_def by blast

theorem token_debits_are_signed_witness:
  "address_from_public_key toy_state_ext toy_key = toy_address 46"
proof -
  obtain s' where "apply_token_operation toy_state_ext toy_burn_ledger toy_burn (toy_operation_id 3) = (Ok True, s')"
    and "token_balance s' (toy_address 46) toy_held < token_balance toy_burn_ledger (toy_address 46) toy_held"
    by (rule toy_burn_debits)
  then show ?thesis
    using token_debits_are_signed [OF _ toy_burn_definitions, of toy_state_ext toy_burn "toy_operation_id 3" s' toy_token_id
        toy_held "toy_address 46"]
    by (simp add: toy_op_def)
qed

end
