(* ===== verification/Asset_Operations.thy ===== *)
theory Asset_Operations
  imports Token_Operations
begin

text \<open>
  \<open>crates/wsc-state/src/lib.rs\<close>: the mint and burn of bridged assets. \<open>apply_asset_operation\<close>
  works on the state itself, step by step, and an early return leaves the steps before it done: the
  model returns the state at that point together with the error.
\<close>

section \<open>The operation\<close>

text \<open>What a supported USDC operation does to the reserve ledger.\<close>

definition asset_ledger_step ::
    "asset_operation_kind \<Rightarrow> amount \<Rightarrow> mna_reserve_ledger \<Rightarrow> state_error + mna_reserve_ledger" where
  "asset_ledger_step kind amount l =
     (case kind of
        AssetMint \<Rightarrow>
          (case checked_add (led_total_verified_deposits_usdc l) amount of
             None \<Rightarrow> Err BalanceOverflow
           | Some t \<Rightarrow> Ok (l\<lparr>led_total_verified_deposits_usdc := t\<rparr>))
      | AssetBurn \<Rightarrow>
          (case checked_add (led_total_released_usdc l) amount of
             None \<Rightarrow> Err BalanceOverflow
           | Some t \<Rightarrow> Ok (l\<lparr>led_total_released_usdc := t\<rparr>)))"

definition asset_balance_step ::
    "asset_operation_kind \<Rightarrow> amount \<Rightarrow> amount \<Rightarrow> state_error + amount" where
  "asset_balance_step kind current amount =
     (case kind of
        AssetMint \<Rightarrow> ok_or (checked_add current amount) AssetBalanceOverflow
      | AssetBurn \<Rightarrow> ok_or (checked_sub current amount) InsufficientAssetBalance)"

definition apply_asset_operation :: "state \<Rightarrow> asset_operation \<Rightarrow> (state_error + bool) \<times> state" where
  "apply_asset_operation s op =
     (if ao_version op \<noteq> 1 then (Err UnsupportedAssetOperationVersion, s)
      else if ao_amount op = 0 then (Err ZeroAssetOperationAmount, s)
      else if asset_namespace (ao_asset_id op) = ''worldstreet'' \<or> asset_contract (ao_asset_id op) = None
      then (Err InvalidAssetOperationAsset, s)
      else if bt_contains (st_processed_asset_operations s) (ao_operation_id op) then (Ok False, s)
      else
        let s1 = s\<lparr>st_processed_asset_operations :=
                     bt_insert (ao_operation_id op) () (st_processed_asset_operations s),
                   st_asset_operation_records :=
                     bt_insert (ao_operation_id op) op (st_asset_operation_records s)\<rparr>;
            key = canonical_key (ao_asset_id op)
        in case (if is_supported_usdc (ao_asset_id op)
                 then asset_ledger_step (ao_kind op) (ao_amount op) (st_mna_reserve_ledger s1)
                 else Ok (st_mna_reserve_ledger s1)) of
             Inl e \<Rightarrow> (Err e, s1)
           | Inr l \<Rightarrow>
               let s2 = s1\<lparr>st_mna_reserve_ledger := l,
                          st_asset_balances := bt_entry bt_empty (ao_address op) (st_asset_balances s1)\<rparr>;
                   balances = bt_get_or bt_empty (st_asset_balances s2) (ao_address op)
               in case asset_balance_step (ao_kind op) (bt_get_or 0 balances key) (ao_amount op) of
                    Inl e \<Rightarrow> (Err e, s2)
                  | Inr b \<Rightarrow>
                      (Ok True, s2\<lparr>st_asset_balances :=
                         bt_insert (ao_address op) (bt_insert key b balances) (st_asset_balances s2)\<rparr>))"

section \<open>Its effect\<close>

text \<open>The three outcomes of an operation whose identifier is new and whose fields are valid.\<close>

definition asset_admitted :: "state \<Rightarrow> asset_operation \<Rightarrow> state" where
  "asset_admitted s op =
     s\<lparr>st_processed_asset_operations := bt_insert (ao_operation_id op) () (st_processed_asset_operations s),
       st_asset_operation_records := bt_insert (ao_operation_id op) op (st_asset_operation_records s)\<rparr>"

lemma apply_asset_operation_cases:
  obtains (unchanged) "snd (apply_asset_operation s op) = s" "fst (apply_asset_operation s op) \<noteq> Ok True"
  | (ledger) e where "apply_asset_operation s op = (Err e, asset_admitted s op)"
  | (balance) e l where "apply_asset_operation s op = (Err e, (asset_admitted s op)\<lparr>st_mna_reserve_ledger := l,
        st_asset_balances := bt_entry bt_empty (ao_address op) (st_asset_balances s)\<rparr>)"
  | (success) l b where "apply_asset_operation s op = (Ok True, (asset_admitted s op)\<lparr>st_mna_reserve_ledger := l,
        st_asset_balances := asset_put (canonical_key (ao_asset_id op)) (st_asset_balances s) (ao_address op) b\<rparr>)"
    "asset_balance_step (ao_kind op) (asset_balance_of s (ao_address op) (canonical_key (ao_asset_id op)))
       (ao_amount op) = Ok b"
    "if is_supported_usdc (ao_asset_id op)
     then asset_ledger_step (ao_kind op) (ao_amount op) (st_mna_reserve_ledger s) = Ok l
     else l = st_mna_reserve_ledger s"
    "\<not> bt_contains (st_processed_asset_operations s) (ao_operation_id op)"
proof -
  let ?l = "if is_supported_usdc (ao_asset_id op)
      then asset_ledger_step (ao_kind op) (ao_amount op) (st_mna_reserve_ledger s)
      else Ok (st_mna_reserve_ledger s)"
  let ?b = "asset_balance_step (ao_kind op) (asset_balance_of s (ao_address op) (canonical_key (ao_asset_id op)))
      (ao_amount op)"
  let ?early = "ao_version op \<noteq> 1 \<or> ao_amount op = 0 \<or> asset_namespace (ao_asset_id op) = ''worldstreet'' \<or>
      asset_contract (ao_asset_id op) = None \<or> bt_contains (st_processed_asset_operations s) (ao_operation_id op)"
  have bal: "bt_get_or 0 (bt_get_or bt_empty (st_asset_balances s) (ao_address op)) k =
      asset_balance_of s (ao_address op) k" for k
    by (simp add: asset_balance_of_def bt_get_or_def split: option.splits)
  show thesis
  proof (cases ?early)
    case True
    then show thesis by (intro unchanged) (auto simp: apply_asset_operation_def)
  next
    case False
    then obtain c where "asset_contract (ao_asset_id op) = Some c" by auto
    with False have run: "apply_asset_operation s op =
        (case ?l of Inl e \<Rightarrow> (Err e, asset_admitted s op)
         | Inr l \<Rightarrow> (case ?b of
             Inl e \<Rightarrow> (Err e, (asset_admitted s op)\<lparr>st_mna_reserve_ledger := l,
               st_asset_balances := bt_entry bt_empty (ao_address op) (st_asset_balances s)\<rparr>)
           | Inr b \<Rightarrow> (Ok True, (asset_admitted s op)\<lparr>st_mna_reserve_ledger := l, st_asset_balances :=
               asset_put (canonical_key (ao_asset_id op)) (st_asset_balances s) (ao_address op) b\<rparr>)))"
      by (simp add: apply_asset_operation_def Let_def asset_admitted_def bal asset_put_def split: sum.split)
    show thesis
    proof (cases ?l)
      case (Inl e)
      then show thesis using run by (intro ledger) simp
    next
      case (Inr l)
      show thesis
      proof (cases ?b)
        case (Inl e)
        then show thesis using run Inr by (intro balance) simp
      next
        case (Inr b)
        show thesis
          by (rule success [of b l]) (use False run Inr \<open>?l = Inr l\<close> in \<open>auto split: if_splits\<close>)
      qed
    qed
  qed
qed

lemma asset_admitted_simps [simp]:
  "st_processed_asset_operations (asset_admitted s op) = bt_insert (ao_operation_id op) () (st_processed_asset_operations s)"
  "st_asset_balances (asset_admitted s op) = st_asset_balances s"
  "st_token_definitions (asset_admitted s op) = st_token_definitions s"
  "st_mna_reserve_ledger (asset_admitted s op) = st_mna_reserve_ledger s"
  "st_accounts (asset_admitted s op) = st_accounts s" "st_fee_pool (asset_admitted s op) = st_fee_pool s"
  by (simp_all add: asset_admitted_def)

lemma asset_balance_step_Ok:
  "asset_balance_step kind c a = Ok b \<longleftrightarrow>
     (case kind of AssetMint \<Rightarrow> unat b = unat c + unat a | AssetBurn \<Rightarrow> unat c = unat a + unat b)"
  by (cases kind) (simp_all add: asset_balance_step_def checked_add_Some checked_sub_Some)

interpretation asset_lane: operation_lane apply_asset_operation ao_operation_id
  "\<lambda>s. bt_keys (st_processed_asset_operations s)"
proof unfold_locales
  fix s op
  show "ao_operation_id op \<in> bt_keys (st_processed_asset_operations (snd (apply_asset_operation s op)))"
    if "fst (apply_asset_operation s op) = Ok True"
    using that by (cases rule: apply_asset_operation_cases [of s op]) auto
  show "fst (apply_asset_operation s op) \<noteq> Ok True"
    if "ao_operation_id op \<in> bt_keys (st_processed_asset_operations s)"
    using that by (auto simp: apply_asset_operation_def bt_keys_def)
  show "bt_keys (st_processed_asset_operations s) \<subseteq>
      bt_keys (st_processed_asset_operations (snd (apply_asset_operation s op)))"
    by (cases rule: apply_asset_operation_cases [of s op]) auto
qed

section \<open>Properties\<close>

text \<open>
  A bridged mint or burn moves exactly its amount: the address's balance in that asset and the
  total of that asset change by the amount, no other balance changes, and native accounts, fee pool
  and token definitions are untouched.
\<close>

theorem asset_operation_effect:
  assumes "apply_asset_operation s op = (Ok True, s')" and "k = canonical_key (ao_asset_id op)"
    and "a = ao_address op" and "n = unat (ao_amount op)"
  shows "(case ao_kind op of
       AssetMint \<Rightarrow>
         unat (asset_balance_of s' a k) = unat (asset_balance_of s a k) + n \<and>
         asset_total k (st_asset_balances s') = asset_total k (st_asset_balances s) + n
     | AssetBurn \<Rightarrow>
         unat (asset_balance_of s' a k) + n = unat (asset_balance_of s a k) \<and>
         asset_total k (st_asset_balances s') + n = asset_total k (st_asset_balances s)) \<and>
    (\<forall>b j. b \<noteq> a \<or> j \<noteq> k \<longrightarrow> asset_balance_of s' b j = asset_balance_of s b j) \<and>
    st_accounts s' = st_accounts s \<and> st_fee_pool s' = st_fee_pool s \<and>
    st_token_definitions s' = st_token_definitions s"
proof (cases rule: apply_asset_operation_cases [of s op])
  case (success l b)
  then have s': "s' = (asset_admitted s op)\<lparr>st_mna_reserve_ledger := l,
      st_asset_balances := asset_put k (st_asset_balances s) a b\<rparr>"
    using assms by simp
  have bals: "st_asset_balances s' = asset_put k (st_asset_balances s) a b" by (simp add: s')
  have "asset_balance_of s' c j = asset_balance_of s c j" if "c \<noteq> a \<or> j \<noteq> k" for c j
  proof -
    have "asset_bal j (st_asset_balances s') c = asset_bal j (st_asset_balances s) c"
      unfolding bals using that asset_put_other(1) [of j k] asset_book.bal_put [of k] by (cases "j = k") auto
    then show ?thesis by (auto simp: asset_balance_of_bal [symmetric] dest: unat_inject)
  qed
  moreover have "case ao_kind op of
       AssetMint \<Rightarrow> unat (asset_balance_of s' a k) = unat (asset_balance_of s a k) + n \<and>
         asset_total k (st_asset_balances s') = asset_total k (st_asset_balances s) + n
     | AssetBurn \<Rightarrow> unat (asset_balance_of s' a k) + n = unat (asset_balance_of s a k) \<and>
         asset_total k (st_asset_balances s') + n = asset_total k (st_asset_balances s)"
    using success(2) asset_put_credit [of b k "st_asset_balances s" a n]
      asset_put_debit [of k "st_asset_balances s" a n b]
    unfolding asset_balance_step_Ok asset_balance_of_bal bals assms(2-4)
    by (simp add: asset_book.bal_put split: asset_operation_kind.splits)
  ultimately show ?thesis by (simp add: s')
qed (use assms(1) in auto)

text \<open>Concrete operations on devnet USDC, for the witnesses.\<close>

definition solana_usdc :: asset_id where
  "solana_usdc = wrapped_asset ''solana'' ''USDC'' ''devnet:4zMMC9srt5Ri5X14GAgXhaHii3GnPAEERYPJgZJDncDU'' 6"

definition toy_asset_op :: "asset_operation_kind \<Rightarrow> asset_id \<Rightarrow> amount \<Rightarrow> asset_operation" where
  "toy_asset_op kind asset amount = \<lparr>ao_version = 1, ao_operation_id = HASH_ZERO, ao_kind = kind, ao_asset_id = asset,
     ao_address = toy_address 2, ao_destination = [], ao_amount = amount, ao_external_transaction = [], ao_memo = []\<rparr>"

lemma solana_usdc_supported: "is_supported_usdc solana_usdc"
  by (simp add: is_supported_usdc_def solana_usdc_def wrapped_asset_def)

lemma toy_ledger_asset_simps [simp]:
  "st_processed_asset_operations toy_ledger = bt_empty" "st_asset_balances toy_ledger = bt_empty"
  "st_mna_reserve_ledger toy_ledger = default_reserve_ledger" "st_token_definitions toy_ledger = bt_empty"
  by (simp_all add: toy_ledger_def state_new_def)

lemma toy_asset_mint:
  "asset_namespace asset \<noteq> ''worldstreet'' \<Longrightarrow> asset_contract asset \<noteq> None \<Longrightarrow>
   \<exists>s'. apply_asset_operation toy_ledger (toy_asset_op AssetMint asset 10) = (Ok True, s')"
  by (auto simp: apply_asset_operation_def toy_asset_op_def Let_def asset_ledger_step_def asset_balance_step_def
      default_reserve_ledger_def checked_add_def ok_or_def)

theorem asset_operation_effect_witness:
  "\<exists>s'. apply_asset_operation toy_ledger (toy_asset_op AssetMint solana_usdc 10) = (Ok True, s') \<and>
     unat (asset_balance_of s' (toy_address 2) (canonical_key solana_usdc)) = 10"
proof -
  obtain s' where run: "apply_asset_operation toy_ledger (toy_asset_op AssetMint solana_usdc 10) = (Ok True, s')"
    using toy_asset_mint [of solana_usdc] by (auto simp: solana_usdc_def wrapped_asset_def)
  have "asset_balance_of toy_ledger (toy_address 2) k = 0" for k by (simp add: asset_balance_of_def)
  then show ?thesis
    using asset_operation_effect [OF run refl refl refl] run by (simp add: toy_asset_op_def)
qed

text \<open>
  A bridge operation is applied at most once: in any sequence of asset operations no operation
  identifier is applied twice.
\<close>

theorem asset_operations_at_most_once:
  "distinct (map ao_operation_id (applied apply_asset_operation s ops))"
  by (rule asset_lane.applied_once)

lemma token_books_cong:
  assumes "\<And>i symbol. asset_total (token_key i symbol) bals' = asset_total (token_key i symbol) bals"
  shows "token_books defs bals' = token_books defs bals"
  unfolding token_books_def token_asset_key_eq by (simp only: assms)

lemma token_key_prefix: "str_prefix ''intertrain:'' (token_key i symbol)"
  by (simp add: token_key_def canonical_key_def custom_asset_def)

lemma asset_books_kept:
  assumes "token_books_ok s" and "\<not> str_prefix ''intertrain:'' (canonical_key (ao_asset_id op))"
  shows "token_books_ok (snd (apply_asset_operation s op))"
proof (cases rule: apply_asset_operation_cases [of s op])
  case (success l b)
  have "token_books (st_token_definitions s)
      (asset_put (canonical_key (ao_asset_id op)) (st_asset_balances s) (ao_address op) b) =
    token_books (st_token_definitions s) (st_asset_balances s)"
    by (rule token_books_cong, rule asset_put_other) (use token_key_prefix assms(2) in metis)
  then show ?thesis using assms(1) success(1) by (simp add: token_books_ok_def)
next
  case (balance e l)
  have "token_books (st_token_definitions s) (bt_entry bt_empty (ao_address op) (st_asset_balances s)) =
    token_books (st_token_definitions s) (st_asset_balances s)"
    by (rule token_books_cong) simp
  then show ?thesis using assms(1) balance by (simp add: token_books_ok_def)
qed (use assms(1) in \<open>simp_all add: token_books_ok_def\<close>)

text \<open>
  Bridged assets do not disturb the token books, as long as the asset is not named into the
  tokens' namespace: the token supply invariant survives every asset operation, failed ones too.
\<close>

theorem asset_operation_keeps_books:
  assumes "token_books_ok s" and "\<not> str_prefix ''intertrain:'' (canonical_key (ao_asset_id op))"
  shows "token_books_ok (snd (apply_asset_operation s op))"
  using assms by (rule asset_books_kept)

theorem asset_operation_keeps_books_witness:
  "\<exists>s'. apply_asset_operation toy_ledger (toy_asset_op AssetMint solana_usdc 10) = (Ok True, s') \<and>
     token_books_ok s'"
proof -
  have "token_books_ok toy_ledger" using toy_books_empty by (simp add: token_books_ok_def)
  moreover have "\<not> str_prefix ''intertrain:'' (canonical_key (ao_asset_id (toy_asset_op AssetMint solana_usdc 10)))"
    by (simp add: canonical_key_def toy_asset_op_def solana_usdc_def wrapped_asset_def)
  ultimately have "token_books_ok (snd (apply_asset_operation toy_ledger (toy_asset_op AssetMint solana_usdc 10)))"
    by (rule asset_operation_keeps_books)
  then show ?thesis
    using toy_asset_mint [of solana_usdc] by (auto simp: solana_usdc_def wrapped_asset_def)
qed

text \<open>
  The namespace matters: an asset whose canonical key is the key of an existing token can be
  minted through the bridge lane, and then that token has more units than its total supply.
\<close>

theorem forged_mint_breaks_books:
  assumes "apply_asset_operation s op = (Ok True, s')" and "ao_kind op = AssetMint" and "token_books_ok s"
    and "bt_get (st_token_definitions s) i = Some d" and "canonical_key (ao_asset_id op) = token_asset_key d"
    and "ao_amount op \<noteq> 0"
  shows "unat (td_total_supply d) < asset_total (token_asset_key d) (st_asset_balances s') \<and>
    bt_get (st_token_definitions s') i = Some d \<and> \<not> token_books_ok s'"
proof -
  have "asset_total (token_asset_key d) (st_asset_balances s) = unat (td_total_supply d)"
    using token_books_def_Some assms(3,4) unfolding token_books_ok_def by blast
  moreover have "0 < unat (ao_amount op)" using assms(6) by (simp add: unat_gt_0)
  moreover have eff: "st_token_definitions s' = st_token_definitions s \<and>
      asset_total (token_asset_key d) (st_asset_balances s') =
      asset_total (token_asset_key d) (st_asset_balances s) + unat (ao_amount op)"
  proof (cases rule: apply_asset_operation_cases [of s op])
    case (success l b)
    then show ?thesis
      using assms(1,2,5) asset_put_credit [of b "token_asset_key d" "st_asset_balances s" "ao_address op"]
      by (auto simp: asset_balance_step_Ok asset_balance_of_bal)
  qed (use assms(1) in auto)
  ultimately have "unat (td_total_supply d) < asset_total (token_asset_key d) (st_asset_balances s')" by simp
  moreover from this have "\<not> token_books_ok s'"
    using token_books_def_Some [of "st_token_definitions s'" "st_asset_balances s'" i d] assms(4) eff
    by (auto simp: token_books_ok_def)
  ultimately show ?thesis using eff assms(4) by simp
qed

theorem forged_mint_breaks_books_witness:
  "\<exists>s'. apply_asset_operation toy_mint_ledger
      (toy_asset_op AssetMint (custom_asset toy_token_id ''TOY'' 2) 10) = (Ok True, s') \<and> \<not> token_books_ok s'"
proof -
  let ?op = "toy_asset_op AssetMint (custom_asset toy_token_id ''TOY'' 2) 10"
  have "\<exists>s'. apply_asset_operation toy_mint_ledger ?op = (Ok True, s')"
    by (simp add: apply_asset_operation_def toy_asset_op_def custom_asset_def Let_def is_supported_usdc_def
        asset_balance_step_def checked_add_def ok_or_def toy_token_ledger_def)
  then obtain s' where run: "apply_asset_operation toy_mint_ledger ?op = (Ok True, s')" ..
  have "\<not> token_books_ok s'"
    using forged_mint_breaks_books [OF run _ toy_token_books(2), of toy_token_id toy_definition]
    by (simp add: toy_asset_op_def token_asset_key_def toy_definition_def)
  then show ?thesis using run by blast
qed

text \<open>
  A burn that fails for lack of balance is not atomic: for supported USDC it returns an error and
  burns nothing, but the operation is recorded as processed and the reserve ledger counts the amount
  as released; the retry is then answered as already done.
\<close>

theorem failed_burn_releases_reserve:
  assumes "apply_asset_operation s op = (Err InsufficientAssetBalance, s')"
    and "is_supported_usdc (ao_asset_id op)" and "ao_kind op = AssetBurn"
  shows "unat (led_total_released_usdc (st_mna_reserve_ledger s')) =
      unat (led_total_released_usdc (st_mna_reserve_ledger s)) + unat (ao_amount op) \<and>
    (\<forall>a k. asset_balance_of s' a k = asset_balance_of s a k) \<and>
    apply_asset_operation s' op = (Ok False, s')"
proof -
  obtain c where early: "ao_version op = 1" "ao_amount op \<noteq> 0" "asset_namespace (ao_asset_id op) \<noteq> ''worldstreet''"
      "asset_contract (ao_asset_id op) = Some c" "\<not> bt_contains (st_processed_asset_operations s) (ao_operation_id op)"
    using assms(1) by (auto simp: apply_asset_operation_def split: if_splits)
  then obtain t where t: "checked_add (led_total_released_usdc (st_mna_reserve_ledger s)) (ao_amount op) = Some t"
    and s': "s' = (asset_admitted s op)\<lparr>st_mna_reserve_ledger :=
        (st_mna_reserve_ledger s)\<lparr>led_total_released_usdc := t\<rparr>,
        st_asset_balances := bt_entry bt_empty (ao_address op) (st_asset_balances s)\<rparr>"
    using assms by (auto simp: apply_asset_operation_def Let_def asset_ledger_step_def asset_admitted_def
        split: option.splits sum.splits)
  have "asset_balance_of s' a k = asset_balance_of s a k" for a k
    by (auto simp: s' asset_balance_of_def bt_get_or_def split: option.splits)
  then show ?thesis
    using early t by (auto simp: s' checked_add_Some apply_asset_operation_def)
qed

theorem failed_burn_releases_reserve_witness:
  "\<exists>s'. apply_asset_operation toy_ledger (toy_asset_op AssetBurn solana_usdc 10) =
      (Err InsufficientAssetBalance, s') \<and>
    unat (led_total_released_usdc (st_mna_reserve_ledger s')) = 10"
proof -
  let ?op = "toy_asset_op AssetBurn solana_usdc 10"
  have "\<exists>s'. apply_asset_operation toy_ledger ?op = (Err InsufficientAssetBalance, s')"
    using solana_usdc_supported
    by (simp add: apply_asset_operation_def toy_asset_op_def Let_def asset_ledger_step_def asset_balance_step_def
        default_reserve_ledger_def checked_add_def checked_sub_def ok_or_def)
      (simp add: solana_usdc_def wrapped_asset_def)
  then obtain s' where run: "apply_asset_operation toy_ledger ?op = (Err InsufficientAssetBalance, s')" ..
  then show ?thesis
    using failed_burn_releases_reserve [OF run] solana_usdc_supported
    by (simp add: toy_asset_op_def default_reserve_ledger_def)
qed

end
