(* ===== verification/Mna_Reserve.thy ===== *)
theory Mna_Reserve
  imports Asset_Operations
begin

text \<open>
  \<open>crates/wsc-state/src/lib.rs\<close>: the MNA reserve. Swaps exchange bridged USDC for MNA at two to one
  (\<open>validate_mna_swap\<close>, \<open>apply_mna_swap\<close>); reserve operations record collateral that came in or went
  out (\<open>validate_mna_reserve_operation\<close>, \<open>apply_mna_reserve_operation\<close>). Both insert the identifier
  into the processed set of the state before they build the next state on a clone, so a failure
  leaves that insertion behind. Sums written with \<open>+\<close> in the source are sums of words here: they
  wrap as in a release build.
\<close>

section \<open>Swaps\<close>

definition validate_mna_swap ::
    "('a) crypto_ext_scheme \<Rightarrow> state \<Rightarrow> mna_swap_operation \<Rightarrow> state_error + hash" where
  "validate_mna_swap X s op =
     (let u = sw_unsigned op in
      if usw_version u \<noteq> 1 then Err InvalidMnaSwapVersion
      else if usw_chain_id u \<noteq> st_chain_id s then Err MnaSwapWrongChainId
      else if address_from_public_key X (usw_public_key u) \<noteq> usw_from u then Err MnaSwapAddressMismatch
      else case x_enc_mna_swap X u of
        Inl e \<Rightarrow> Err (SEncoding (encoding_error_string e))
      | Inr bs \<Rightarrow>
          if \<not> kp_verify X (usw_public_key u) bs (sw_signature op) then Err InvalidMnaSwapSignature
          else if usw_fee u < st_fee_minimum s then Err MnaSwapFeeTooLow
          else case bt_get (st_accounts s) (usw_from u) of
            None \<Rightarrow> Err MnaSwapInsufficientFeeBalance
          | Some account \<Rightarrow>
              if acct_nonce account \<noteq> usw_nonce u
              then Err (MnaSwapNonceMismatch (acct_nonce account) (usw_nonce u))
              else if acct_balance account < usw_fee u then Err MnaSwapInsufficientFeeBalance
              else if \<not> is_supported_usdc (usw_collateral_asset u) then Err InvalidMnaCollateral
              else if usw_amount_usdc u = 0 \<or> usw_amount_usdc u mod MNA_USDC_DENOMINATOR \<noteq> 0
                      \<or> usw_amount_mna u \<noteq> usw_amount_usdc u div MNA_USDC_DENOMINATOR
              then Err InvalidMnaConversion
              else case mna_swap_operation_id X op of
                Inl e \<Rightarrow> Err (TransactionHashing (crypto_error_string e))
              | Inr operation_id \<Rightarrow> Ok operation_id)"

definition set_account :: "address \<Rightarrow> amount \<Rightarrow> u64 \<Rightarrow> state \<Rightarrow> state" where
  "set_account a b n s =
     s\<lparr>st_accounts := bt_insert a \<lparr>acct_balance = b, acct_nonce = n\<rparr> (st_accounts s)\<rparr>"

definition set_asset_balance :: "address \<Rightarrow> string \<Rightarrow> amount \<Rightarrow> state \<Rightarrow> state" where
  "set_asset_balance a key b s =
     s\<lparr>st_asset_balances := bt_insert a (bt_insert key b (bt_get_or bt_empty (st_asset_balances s) a))
         (st_asset_balances s)\<rparr>"

text \<open>
  The two branches of \<open>apply_mna_swap\<close> on the clone, with the sender's balance after the fee and its
  next nonce.
\<close>

definition swap_mint ::
    "state \<Rightarrow> unsigned_mna_swap_operation \<Rightarrow> string \<Rightarrow> amount \<Rightarrow> amount \<Rightarrow> u64 \<Rightarrow> state_error + state" where
  "swap_mint s u key current_usdc new_balance new_nonce =
     (if current_usdc < usw_amount_usdc u then Err MnaSwapInsufficientBalance
      else let s1 = set_asset_balance (usw_from u) key (current_usdc - usw_amount_usdc u) s in
      case checked_add new_balance (usw_amount_mna u) of
        None \<Rightarrow> Err BalanceOverflow
      | Some b \<Rightarrow>
          let s2 = set_account (usw_from u) b new_nonce s1 in
          case checked_add (led_reserve_backed_mna_minted (st_mna_reserve_ledger s2)) (usw_amount_mna u) of
            None \<Rightarrow> Err BalanceOverflow
          | Some new_backed \<Rightarrow>
              if current_reserve_usd s2 < saturating_mul new_backed MNA_USDC_DENOMINATOR
              then Err MnaReserveInsufficient
              else Ok (s2\<lparr>st_mna_reserve_ledger :=
                     (st_mna_reserve_ledger s2)\<lparr>led_reserve_backed_mna_minted := new_backed\<rparr>\<rparr>))"

definition swap_redeem ::
    "state \<Rightarrow> unsigned_mna_swap_operation \<Rightarrow> string \<Rightarrow> amount \<Rightarrow> u64 \<Rightarrow> state_error + state" where
  "swap_redeem s u key current_usdc new_nonce =
     (let accounts = bt_entry default_account (usw_from u) (st_accounts s);
          balance = acct_balance (bt_get_or default_account accounts (usw_from u)) in
      if balance < usw_amount_mna u + usw_fee u then Err MnaSwapInsufficientBalance
      else case checked_sub balance (usw_amount_mna u + usw_fee u) of
        None \<Rightarrow> Err MnaSwapInsufficientBalance
      | Some b \<Rightarrow>
          let s1 = set_account (usw_from u) b new_nonce s in
          case checked_add current_usdc (usw_amount_usdc u) of
            None \<Rightarrow> Err AssetBalanceOverflow
          | Some usdc \<Rightarrow>
              let s2 = set_asset_balance (usw_from u) key usdc s1; l = st_mna_reserve_ledger s2 in
              case checked_sub (led_reserve_backed_mna_minted l) (usw_amount_mna u) of
                None \<Rightarrow> Err MnaReserveInsufficient
              | Some backed \<Rightarrow>
                  (case checked_add (led_total_redeemed_mna l) (usw_amount_mna u) of
                     None \<Rightarrow> Err BalanceOverflow
                   | Some redeemed \<Rightarrow>
                       Ok (s2\<lparr>st_mna_reserve_ledger := l\<lparr>led_reserve_backed_mna_minted := backed,
                                led_total_redeemed_mna := redeemed\<rparr>\<rparr>)))"

definition swap_effect :: "state \<Rightarrow> unsigned_mna_swap_operation \<Rightarrow> state_error + state" where
  "swap_effect s u =
     (let key = canonical_key (usw_collateral_asset u);
          s0 = s\<lparr>st_asset_balances := bt_entry bt_empty (usw_from u) (st_asset_balances s)\<rparr>;
          current_usdc = bt_get_or 0 (bt_get_or bt_empty (st_asset_balances s0) (usw_from u)) key;
          account = bt_get_or default_account (st_accounts s0) (usw_from u)
      in case checked_sub (acct_balance account) (usw_fee u) of
           None \<Rightarrow> Err MnaSwapInsufficientFeeBalance
         | Some new_balance \<Rightarrow>
             (case checked_add (acct_nonce account) 1 of
                None \<Rightarrow> Err NonceOverflow
              | Some new_nonce \<Rightarrow>
                  (case usw_kind u of
                     MintMna \<Rightarrow> swap_mint s0 u key current_usdc new_balance new_nonce
                   | RedeemMna \<Rightarrow> swap_redeem s0 u key current_usdc new_nonce)))"

definition apply_mna_swap ::
    "('a) crypto_ext_scheme \<Rightarrow> state \<Rightarrow> mna_swap_operation \<Rightarrow> (state_error + bool) \<times> state" where
  "apply_mna_swap X s op =
     (case validate_mna_swap X s op of
        Inl e \<Rightarrow> (Err e, s)
      | Inr operation_id \<Rightarrow>
          if bt_contains (st_processed_mna_swap_operations s) operation_id then (Ok False, s)
          else
            let s1 = s\<lparr>st_processed_mna_swap_operations :=
                         bt_insert operation_id () (st_processed_mna_swap_operations s)\<rparr>
            in case swap_effect s1 (sw_unsigned op) of
                 Inl e \<Rightarrow> (Err e, s1)
               | Inr s2 \<Rightarrow>
                   (Ok True, s2\<lparr>st_mna_swap_operation_records :=
                      bt_insert operation_id op (st_mna_swap_operation_records s2)\<rparr>))"

section \<open>Reserve operations\<close>

definition check_reserve_conversion :: "mna_reserve_operation \<Rightarrow> state_error + unit" where
  "check_reserve_conversion op =
     (if ro_amount_usdc op = 0 \<or> ro_amount_usdc op mod MNA_USDC_DENOMINATOR \<noteq> 0 \<or> ro_amount_mna op = 0
         \<or> ro_amount_usdc op div MNA_USDC_DENOMINATOR < ro_fee_mna op
         \<or> ro_amount_mna op + ro_fee_mna op \<noteq> ro_amount_usdc op div MNA_USDC_DENOMINATOR
      then Err InvalidMnaConversion else Ok ())"

definition check_reserve_collateral :: "bool \<Rightarrow> mna_reserve_operation \<Rightarrow> state_error + unit" where
  "check_reserve_collateral is_sol op =
     (if is_sol then
        if ro_collateral_amount op = 0 \<or> ro_oracle_price_usd_micro_per_sol op = 0 \<or> ro_oracle_timestamp op = 0
        then Err InvalidMnaConversion
        else case checked_mul (ro_collateral_amount op) (ro_oracle_price_usd_micro_per_sol op) of
               None \<Rightarrow> Err BalanceOverflow
             | Some p \<Rightarrow>
                 if p div 1000000000 \<noteq> ro_amount_usdc op then Err InvalidMnaConversion else Ok ()
      else if ro_collateral_amount op \<noteq> 0 \<or> ro_oracle_price_usd_micro_per_sol op \<noteq> 0
              \<or> ro_oracle_timestamp op \<noteq> 0 \<or> ro_fee_mna op \<noteq> 0
      then Err InvalidMnaConversion
      else Ok ())"

definition validate_mna_reserve_operation ::
    "('a) crypto_ext_scheme \<Rightarrow> state \<Rightarrow> mna_reserve_operation \<Rightarrow> state_error + hash" where
  "validate_mna_reserve_operation X s op =
     (if ro_version op \<noteq> 1 then Err InvalidMnaReserveVersion
      else if led_paused (st_mna_reserve_ledger s) then Err MnaReservePaused
      else
        let is_sol = is_supported_sol (ro_collateral_asset op) in
        if \<not> is_sol \<and> \<not> is_supported_usdc (ro_collateral_asset op) then Err InvalidMnaCollateral
        else case check_reserve_conversion op of
          Inl e \<Rightarrow> Err e
        | Inr _ \<Rightarrow>
            (case check_reserve_collateral is_sol op of
               Inl e \<Rightarrow> Err e
             | Inr _ \<Rightarrow>
                 if trim_is_empty (ro_external_transaction op) then Err InvalidMnaReserveVersion
                 else case mna_reserve_operation_id X op of
                   Inl e \<Rightarrow> Err (TransactionHashing (crypto_error_string e))
                 | Inr operation_id \<Rightarrow>
                     if operation_id \<noteq> ro_operation_id op then Err InvalidMnaReserveVersion
                     else Ok operation_id))"

definition reserve_verify_sol :: "state \<Rightarrow> mna_reserve_operation \<Rightarrow> state_error + state" where
  "reserve_verify_sol s op =
     (let l = st_mna_reserve_ledger s in
      case checked_add (led_total_verified_sol_lamports l) (ro_collateral_amount op) of
        None \<Rightarrow> Err BalanceOverflow
      | Some lamports \<Rightarrow>
          (case checked_add (led_total_verified_sol_usd l) (ro_amount_usdc op) of
             None \<Rightarrow> Err BalanceOverflow
           | Some usd \<Rightarrow>
               let accounts = bt_entry default_account (ro_address op) (st_accounts s);
                   account = bt_get_or default_account accounts (ro_address op)
               in case checked_add (acct_balance account) (ro_amount_mna op) of
                    None \<Rightarrow> Err BalanceOverflow
                  | Some b \<Rightarrow>
                      (case checked_add (led_reserve_backed_mna_minted l) (ro_amount_mna op) of
                         None \<Rightarrow> Err BalanceOverflow
                       | Some backed \<Rightarrow>
                           Ok (s\<lparr>st_accounts := bt_insert (ro_address op) (account\<lparr>acct_balance := b\<rparr>) accounts,
                                 st_mna_reserve_ledger := l\<lparr>led_total_verified_sol_lamports := lamports,
                                   led_total_verified_sol_usd := usd,
                                   led_reserve_backed_mna_minted := backed\<rparr>\<rparr>))))"

definition reserve_ledger_step ::
    "bool \<Rightarrow> mna_reserve_operation \<Rightarrow> mna_reserve_ledger \<Rightarrow> state_error + mna_reserve_ledger" where
  "reserve_ledger_step is_sol op l =
     (case ro_kind op of
        VerifyDeposit \<Rightarrow>
          (case checked_add (led_total_verified_deposits_usdc l) (ro_amount_usdc op) of
             None \<Rightarrow> Err BalanceOverflow
           | Some t \<Rightarrow> Ok (l\<lparr>led_total_verified_deposits_usdc := t\<rparr>))
      | Release \<Rightarrow>
          if is_sol then
            if saturating_sub (led_total_verified_sol_usd l) (led_total_released_sol_usd l) < ro_amount_usdc op
            then Err MnaReserveInsufficient
            else case checked_add (led_total_released_sol_usd l) (ro_amount_usdc op) of
                   None \<Rightarrow> Err BalanceOverflow
                 | Some usd \<Rightarrow>
                     (case checked_add (led_total_released_sol_lamports l) (ro_collateral_amount op) of
                        None \<Rightarrow> Err BalanceOverflow
                      | Some lamports \<Rightarrow> Ok (l\<lparr>led_total_released_sol_usd := usd,
                                              led_total_released_sol_lamports := lamports\<rparr>))
          else
            if saturating_sub (led_total_verified_deposits_usdc l) (led_total_released_usdc l) < ro_amount_usdc op
            then Err MnaReserveInsufficient
            else case checked_add (led_total_released_usdc l) (ro_amount_usdc op) of
                   None \<Rightarrow> Err BalanceOverflow
                 | Some t \<Rightarrow> Ok (l\<lparr>led_total_released_usdc := t\<rparr>))"

definition reserve_effect :: "state \<Rightarrow> mna_reserve_operation \<Rightarrow> state_error + state" where
  "reserve_effect s op =
     (let is_sol = is_supported_sol (ro_collateral_asset op) in
      case (if ro_kind op = VerifyDeposit \<and> is_sol then reserve_verify_sol s op
            else case reserve_ledger_step is_sol op (st_mna_reserve_ledger s) of
                   Inl e \<Rightarrow> Err e
                 | Inr l \<Rightarrow> Ok (s\<lparr>st_mna_reserve_ledger := l\<rparr>)) of
        Inl e \<Rightarrow> Err e
      | Inr s1 \<Rightarrow>
          if current_reserve_usd s1 <
             saturating_mul (led_reserve_backed_mna_minted (st_mna_reserve_ledger s1)) MNA_USDC_DENOMINATOR
          then Err MnaReserveInsufficient else Ok s1)"

definition apply_mna_reserve_operation ::
    "('a) crypto_ext_scheme \<Rightarrow> state \<Rightarrow> mna_reserve_operation \<Rightarrow> (state_error + bool) \<times> state" where
  "apply_mna_reserve_operation X s op =
     (case validate_mna_reserve_operation X s op of
        Inl e \<Rightarrow> (Err e, s)
      | Inr operation_id \<Rightarrow>
          if bt_contains (st_processed_mna_reserve_operations s) operation_id then (Ok False, s)
          else
            let s1 = s\<lparr>st_processed_mna_reserve_operations :=
                         bt_insert operation_id () (st_processed_mna_reserve_operations s)\<rparr>
            in case reserve_effect s1 op of
                 Inl e \<Rightarrow> (Err e, s1)
               | Inr s2 \<Rightarrow>
                   (Ok True, s2\<lparr>st_mna_reserve_operation_records :=
                      bt_insert operation_id op (st_mna_reserve_operation_records s2)\<rparr>))"

section \<open>What a swap does\<close>

definition swapped ::
    "state \<Rightarrow> unsigned_mna_swap_operation \<Rightarrow> amount \<Rightarrow> u64 \<Rightarrow> amount \<Rightarrow> mna_reserve_ledger \<Rightarrow> state" where
  "swapped s u b n usdc l =
     s\<lparr>st_accounts := bt_insert (usw_from u) \<lparr>acct_balance = b, acct_nonce = n\<rparr> (st_accounts s),
       st_asset_balances := asset_put (canonical_key (usw_collateral_asset u)) (st_asset_balances s) (usw_from u) usdc,
       st_mna_reserve_ledger := l\<rparr>"

lemma default_account_simps [simp]: "acct_balance default_account = 0" "acct_nonce default_account = 0"
  by (simp_all add: default_account_def)

lemma balance_of_updates [simp, frame_simps]:
  "balance_of (s\<lparr>st_asset_balances := x\<rparr>) a = balance_of s a"
  "nonce_of (s\<lparr>st_asset_balances := x\<rparr>) a = nonce_of s a"
  "balance_of (s\<lparr>st_processed_mna_swap_operations := y\<rparr>) a = balance_of s a"
  "nonce_of (s\<lparr>st_processed_mna_swap_operations := y\<rparr>) a = nonce_of s a"
  "balance_of (s\<lparr>st_processed_mna_reserve_operations := y\<rparr>) a = balance_of s a"
  "nonce_of (s\<lparr>st_processed_mna_reserve_operations := y\<rparr>) a = nonce_of s a"
  by (simp_all add: balance_of_def nonce_of_def)

lemma entry_balance:
  "acct_balance (bt_get_or default_account (bt_entry default_account a (st_accounts s)) a) = balance_of s a"
  by (simp add: get_or_default)

lemma swap_effect_Ok:
  assumes "swap_effect s u = Ok s'"
  defines "a \<equiv> usw_from u" and "k \<equiv> canonical_key (usw_collateral_asset u)" and "l \<equiv> st_mna_reserve_ledger s"
  obtains (mint) b n usdc backed where "usw_kind u = MintMna" and "unat n = unat (nonce_of s a) + 1"
      and "asset_bal k (st_asset_balances s) a = unat (usw_amount_usdc u) + unat usdc"
      and "unat b + unat (usw_fee u) = unat (balance_of s a) + unat (usw_amount_mna u)"
      and "unat backed = unat (led_reserve_backed_mna_minted l) + unat (usw_amount_mna u)"
      and "saturating_mul backed MNA_USDC_DENOMINATOR \<le> ledger_reserve_usd l"
      and "s' = swapped s u b n usdc (l\<lparr>led_reserve_backed_mna_minted := backed\<rparr>)"
  | (redeem) b n usdc backed redeemed where "usw_kind u = RedeemMna" and "unat n = unat (nonce_of s a) + 1"
      and "unat usdc = asset_bal k (st_asset_balances s) a + unat (usw_amount_usdc u)"
      and "unat (balance_of s a) = unat (usw_amount_mna u + usw_fee u) + unat b"
      and "unat (usw_fee u) \<le> unat (balance_of s a)"
      and "unat (led_reserve_backed_mna_minted l) = unat (usw_amount_mna u) + unat backed"
      and "unat redeemed = unat (led_total_redeemed_mna l) + unat (usw_amount_mna u)"
      and "s' = swapped s u b n usdc (l\<lparr>led_reserve_backed_mna_minted := backed, led_total_redeemed_mna := redeemed\<rparr>)"
proof -
  let ?s0 = "s\<lparr>st_asset_balances := bt_entry bt_empty a (st_asset_balances s)\<rparr>"
  let ?c = "bt_get_or 0 (bt_get_or bt_empty (st_asset_balances s) a) k"
  have c: "unat ?c = asset_bal k (st_asset_balances s) a" by (simp add: asset_bal_def)
  show thesis
  proof (cases "usw_kind u")
    case MintMna
    obtain nb n where nb: "unat (balance_of s a) = unat (usw_fee u) + unat nb"
      and n: "unat n = unat (nonce_of s a) + 1" and run: "swap_mint ?s0 u k ?c nb n = Ok s'"
      using assms(1) MintMna unfolding a_def k_def
      by (auto simp: swap_effect_def result_ok get_or_default checked_add_Some checked_sub_Some)
    obtain b backed where le: "usw_amount_usdc u \<le> ?c"
      and b: "unat b = unat nb + unat (usw_amount_mna u)"
      and backed: "unat backed = unat (led_reserve_backed_mna_minted l) + unat (usw_amount_mna u)"
      and cover: "saturating_mul backed MNA_USDC_DENOMINATOR \<le> ledger_reserve_usd l"
      and s': "s' = swapped s u b n (?c - usw_amount_usdc u) (l\<lparr>led_reserve_backed_mna_minted := backed\<rparr>)"
      using run
      by (auto simp: swap_mint_def result_ok checked_add_Some set_account_def set_asset_balance_def
          current_reserve_usd_def swapped_def asset_put_def l_def [symmetric] a_def [symmetric] k_def [symmetric])
    have "asset_bal k (st_asset_balances s) a = unat (usw_amount_usdc u) + unat (?c - usw_amount_usdc u)"
      using le by (simp add: c [symmetric] unat_sub word_le_nat_alt)
    then show thesis using mint [OF MintMna n _ _ backed cover s'] nb b by simp
  next
    case RedeemMna
    obtain n where nb: "unat (usw_fee u) \<le> unat (balance_of s a)" and n: "unat n = unat (nonce_of s a) + 1" and run: "swap_redeem ?s0 u k ?c n = Ok s'"
      using assms(1) RedeemMna unfolding a_def k_def
      by (auto simp: swap_effect_def result_ok get_or_default checked_add_Some checked_sub_Some)
    obtain b usdc backed redeemed where b: "unat (balance_of s a) = unat (usw_amount_mna u + usw_fee u) + unat b"
      and usdc: "unat usdc = unat ?c + unat (usw_amount_usdc u)"
      and backed: "unat (led_reserve_backed_mna_minted l) = unat (usw_amount_mna u) + unat backed"
      and redeemed: "unat redeemed = unat (led_total_redeemed_mna l) + unat (usw_amount_mna u)"
      and s': "s' = swapped s u b n usdc (l\<lparr>led_reserve_backed_mna_minted := backed, led_total_redeemed_mna := redeemed\<rparr>)"
      using run
      by (auto simp: swap_redeem_def result_ok checked_add_Some checked_sub_Some set_account_def set_asset_balance_def
          entry_balance get_or_default swapped_def asset_put_def l_def [symmetric] a_def [symmetric] k_def [symmetric])
    show thesis using redeem [OF RedeemMna n _ b _ backed redeemed s'] nb usdc c by simp
  qed
qed

lemma apply_mna_swap_True:
  assumes "apply_mna_swap X s op = (Ok True, s')"
  obtains i s2 where "validate_mna_swap X s op = Ok i" and "\<not> bt_contains (st_processed_mna_swap_operations s) i"
    and "swap_effect (s\<lparr>st_processed_mna_swap_operations := bt_insert i () (st_processed_mna_swap_operations s)\<rparr>)
           (sw_unsigned op) = Ok s2"
    and "s' = s2\<lparr>st_mna_swap_operation_records := bt_insert i op (st_mna_swap_operation_records s2)\<rparr>"
  using assms by (auto simp: apply_mna_swap_def Let_def split: sum.splits if_splits)

lemma even_amount: "x mod MNA_USDC_DENOMINATOR = 0 \<longleftrightarrow> unat x mod 2 = 0"
proof -
  have "unat (x mod MNA_USDC_DENOMINATOR) = unat x mod 2"
    by (simp add: MNA_USDC_DENOMINATOR_def unat_mod)
  then show ?thesis by (metis unsigned_0 unat_inject)
qed

lemma validate_mna_swap_Ok:
  assumes "validate_mna_swap X s op = Ok i"
  defines "u \<equiv> sw_unsigned op"
  shows "mna_swap_operation_id X op = Ok i" and "address_from_public_key X (usw_public_key u) = usw_from u"
    and "\<exists>bs. x_enc_mna_swap X u = Inr bs \<and> kp_verify X (usw_public_key u) bs (sw_signature op)"
    and "nonce_of s (usw_from u) = usw_nonce u" and "bt_get (st_accounts s) (usw_from u) \<noteq> None"
    and "is_supported_usdc (usw_collateral_asset u)"
    and "unat (usw_amount_usdc u) = 2 * unat (usw_amount_mna u)" and "usw_amount_usdc u \<noteq> 0"
    and "usw_fee u \<le> balance_of s (usw_from u)"
proof -
  have all: "mna_swap_operation_id X op = Ok i \<and> address_from_public_key X (usw_public_key u) = usw_from u \<and>
    (\<exists>bs. x_enc_mna_swap X u = Inr bs \<and> kp_verify X (usw_public_key u) bs (sw_signature op)) \<and>
    nonce_of s (usw_from u) = usw_nonce u \<and> bt_get (st_accounts s) (usw_from u) \<noteq> None \<and>
    is_supported_usdc (usw_collateral_asset u) \<and> usw_amount_usdc u \<noteq> 0 \<and>
    unat (usw_amount_usdc u) mod 2 = 0 \<and> usw_amount_mna u = usw_amount_usdc u div MNA_USDC_DENOMINATOR \<and>
    usw_fee u \<le> balance_of s (usw_from u)"
    using assms(1)
    by (auto simp: validate_mna_swap_def result_ok nonce_of_def balance_of_def u_def not_less even_amount)
  then have "unat (usw_amount_mna u) = unat (usw_amount_usdc u) div 2"
    by (simp add: MNA_USDC_DENOMINATOR_def unat_div)
  then show "unat (usw_amount_usdc u) = 2 * unat (usw_amount_mna u)" proof -
    have "unat (usw_amount_usdc u) mod 2 = 0" using all by blast
    with \<open>unat (usw_amount_mna u) = _\<close> show ?thesis by presburger
  qed
qed (use assms(1) in \<open>auto simp: validate_mna_swap_def result_ok nonce_of_def balance_of_def u_def not_less\<close>)

section \<open>What a reserve operation does\<close>

text \<open>The collateral on the ledger as an integer: what came in less what went out.\<close>

definition reserve_int :: "mna_reserve_ledger \<Rightarrow> int" where
  "reserve_int l =
     int (unat (led_total_verified_deposits_usdc l)) - int (unat (led_total_released_usdc l)) +
     int (unat (led_total_verified_sol_usd l)) - int (unat (led_total_released_sol_usd l))"

abbreviation backed_of :: "mna_reserve_ledger \<Rightarrow> nat" where
  "backed_of l \<equiv> unat (led_reserve_backed_mna_minted l)"

text \<open>The guard of the code: twice the backed MNA is within the recorded reserve.\<close>

definition reserve_covers :: "state \<Rightarrow> bool" where
  "reserve_covers s =
     (saturating_mul (led_reserve_backed_mna_minted (st_mna_reserve_ledger s)) MNA_USDC_DENOMINATOR
        \<le> current_reserve_usd s)"

lemma reserve_verify_sol_Ok:
  assumes "reserve_verify_sol s op = Ok s'"
  obtains b l where "unat b = unat (balance_of s (ro_address op)) + unat (ro_amount_mna op)"
    and "reserve_int l = reserve_int (st_mna_reserve_ledger s) + int (unat (ro_amount_usdc op))"
    and "backed_of l = backed_of (st_mna_reserve_ledger s) + unat (ro_amount_mna op)"
    and "s' = (set_account (ro_address op) b (nonce_of s (ro_address op)) s)\<lparr>st_mna_reserve_ledger := l\<rparr>"
proof -
  let ?l = "st_mna_reserve_ledger s"
  obtain lamports usd b backed where
    usd: "unat usd = unat (led_total_verified_sol_usd ?l) + unat (ro_amount_usdc op)"
    and b: "unat b = unat (balance_of s (ro_address op)) + unat (ro_amount_mna op)"
    and backed: "unat backed = backed_of ?l + unat (ro_amount_mna op)"
    and s': "s' = s\<lparr>st_accounts := bt_insert (ro_address op)
        ((bt_get_or default_account (st_accounts s) (ro_address op))\<lparr>acct_balance := b\<rparr>) (st_accounts s),
      st_mna_reserve_ledger := ?l\<lparr>led_total_verified_sol_lamports := lamports, led_total_verified_sol_usd := usd,
        led_reserve_backed_mna_minted := backed\<rparr>\<rparr>"
    using assms by (auto simp: reserve_verify_sol_def result_ok checked_add_Some get_or_default)
  have acct: "(bt_get_or default_account (st_accounts s) (ro_address op))\<lparr>acct_balance := b\<rparr> =
      \<lparr>acct_balance = b, acct_nonce = nonce_of s (ro_address op)\<rparr>"
    by (rule account.equality) (simp_all add: get_or_default)
  then show thesis
    by (intro that [OF b, where l = "?l\<lparr>led_total_verified_sol_lamports := lamports,
        led_total_verified_sol_usd := usd, led_reserve_backed_mna_minted := backed\<rparr>"])
      (simp_all add: reserve_int_def usd backed s' acct set_account_def del: of_nat_unat)
qed

lemma reserve_ledger_step_Ok:
  assumes "reserve_ledger_step is_sol op l = Ok l'"
  shows "backed_of l' = backed_of l"
    and "reserve_int l' = (case ro_kind op of
      VerifyDeposit \<Rightarrow> reserve_int l + int (unat (ro_amount_usdc op))
    | Release \<Rightarrow> reserve_int l - int (unat (ro_amount_usdc op)))"
  using assms
  by (auto simp: reserve_ledger_step_def result_ok checked_add_Some reserve_int_def
      simp del: of_nat_unat split: mna_reserve_operation_kind.splits if_splits)

lemma reserve_effect_Ok:
  assumes "reserve_effect s op = Ok s'"
  defines "sol_deposit \<equiv> ro_kind op = VerifyDeposit \<and> is_supported_sol (ro_collateral_asset op)"
  shows "reserve_covers s'"
    and "st_asset_balances s' = st_asset_balances s"
    and "st_token_definitions s' = st_token_definitions s"
    and "st_fee_pool s' = st_fee_pool s"
    and "st_processed_mna_reserve_operations s' = st_processed_mna_reserve_operations s"
    and "backed_of (st_mna_reserve_ledger s') =
      backed_of (st_mna_reserve_ledger s) + (if sol_deposit then unat (ro_amount_mna op) else 0)"
    and "reserve_int (st_mna_reserve_ledger s') = (case ro_kind op of
      VerifyDeposit \<Rightarrow> reserve_int (st_mna_reserve_ledger s) + int (unat (ro_amount_usdc op))
    | Release \<Rightarrow> reserve_int (st_mna_reserve_ledger s) - int (unat (ro_amount_usdc op)))"
    and "unat (balance_of s' c) = unat (balance_of s c) +
      (if sol_deposit \<and> c = ro_address op then unat (ro_amount_mna op) else 0)"
    and "native_supply s' = native_supply s + (if sol_deposit then unat (ro_amount_mna op) else 0)"
proof -
  have cover: "reserve_covers s'"
    and run: "(if sol_deposit then reserve_verify_sol s op
            else case reserve_ledger_step (is_supported_sol (ro_collateral_asset op)) op (st_mna_reserve_ledger s) of
                   Inl e \<Rightarrow> Err e | Inr l \<Rightarrow> Ok (s\<lparr>st_mna_reserve_ledger := l\<rparr>)) = Ok s'"
    using assms(1) by (auto simp: reserve_effect_def result_ok reserve_covers_def not_less sol_deposit_def)
  show "reserve_covers s'" by (rule cover)
  have frame: "st_asset_balances s' = st_asset_balances s \<and> st_token_definitions s' = st_token_definitions s \<and>
      st_fee_pool s' = st_fee_pool s \<and>
      st_processed_mna_reserve_operations s' = st_processed_mna_reserve_operations s \<and>
      backed_of (st_mna_reserve_ledger s') =
        backed_of (st_mna_reserve_ledger s) + (if sol_deposit then unat (ro_amount_mna op) else 0) \<and>
      reserve_int (st_mna_reserve_ledger s') = (case ro_kind op of
          VerifyDeposit \<Rightarrow> reserve_int (st_mna_reserve_ledger s) + int (unat (ro_amount_usdc op))
        | Release \<Rightarrow> reserve_int (st_mna_reserve_ledger s) - int (unat (ro_amount_usdc op))) \<and>
      unat (balance_of s' c) = unat (balance_of s c) +
        (if sol_deposit \<and> c = ro_address op then unat (ro_amount_mna op) else 0) \<and>
      native_supply s' = native_supply s + (if sol_deposit then unat (ro_amount_mna op) else 0)"
  proof (cases sol_deposit)
    case True
    then have kind: "ro_kind op = VerifyDeposit" by (simp add: sol_deposit_def)
    from True run have "reserve_verify_sol s op = Ok s'" by simp
    then obtain b l where b: "unat b = unat (balance_of s (ro_address op)) + unat (ro_amount_mna op)"
      and l: "reserve_int l = reserve_int (st_mna_reserve_ledger s) + int (unat (ro_amount_usdc op))"
        "backed_of l = backed_of (st_mna_reserve_ledger s) + unat (ro_amount_mna op)"
      and s': "s' = (set_account (ro_address op) b (nonce_of s (ro_address op)) s)\<lparr>st_mna_reserve_ledger := l\<rparr>"
      by (rule reserve_verify_sol_Ok)
    have "accounts_total (st_accounts s') = accounts_total (st_accounts s) + unat (ro_amount_mna op)"
      using native_book.credit [of "\<lparr>acct_balance = b, acct_nonce = nonce_of s (ro_address op)\<rparr>" "st_accounts s"
          "ro_address op" "unat (ro_amount_mna op)"] b
      by (simp add: s' set_account_def accounts_put_def accounts_bal_of)
    moreover have "balance_of s' c = (if c = ro_address op then b else balance_of s c)"
      by (simp add: s' set_account_def balance_of_def)
    ultimately show ?thesis
      using True b l by (simp add: kind native_supply_def) (simp add: s' set_account_def)
  next
    case False
    with run obtain l where l: "reserve_ledger_step (is_supported_sol (ro_collateral_asset op)) op
        (st_mna_reserve_ledger s) = Ok l" and s': "s' = s\<lparr>st_mna_reserve_ledger := l\<rparr>"
      by (auto simp: result_ok)
    show ?thesis
      using False reserve_ledger_step_Ok [OF l] by (simp add: s' native_supply_def balance_of_def)
  qed
  then show "st_asset_balances s' = st_asset_balances s" "st_token_definitions s' = st_token_definitions s"
    "st_fee_pool s' = st_fee_pool s"
    "st_processed_mna_reserve_operations s' = st_processed_mna_reserve_operations s"
    "backed_of (st_mna_reserve_ledger s') =
      backed_of (st_mna_reserve_ledger s) + (if sol_deposit then unat (ro_amount_mna op) else 0)"
    "reserve_int (st_mna_reserve_ledger s') = (case ro_kind op of
      VerifyDeposit \<Rightarrow> reserve_int (st_mna_reserve_ledger s) + int (unat (ro_amount_usdc op))
    | Release \<Rightarrow> reserve_int (st_mna_reserve_ledger s) - int (unat (ro_amount_usdc op)))"
    "unat (balance_of s' c) = unat (balance_of s c) +
      (if sol_deposit \<and> c = ro_address op then unat (ro_amount_mna op) else 0)"
    "native_supply s' = native_supply s + (if sol_deposit then unat (ro_amount_mna op) else 0)"
    by blast+
qed

lemma apply_reserve_True:
  assumes "apply_mna_reserve_operation X s op = (Ok True, s')"
  obtains i s2 where "validate_mna_reserve_operation X s op = Ok i"
    and "\<not> bt_contains (st_processed_mna_reserve_operations s) i"
    and "reserve_effect (s\<lparr>st_processed_mna_reserve_operations :=
           bt_insert i () (st_processed_mna_reserve_operations s)\<rparr>) op = Ok s2"
    and "s' = s2\<lparr>st_mna_reserve_operation_records := bt_insert i op (st_mna_reserve_operation_records s2)\<rparr>"
  using assms by (auto simp: apply_mna_reserve_operation_def Let_def split: sum.splits if_splits)

lemma validate_reserve_Ok:
  assumes "validate_mna_reserve_operation X s op = Ok i"
  shows "mna_reserve_operation_id X op = Ok i" and "ro_operation_id op = i"
    and "\<not> led_paused (st_mna_reserve_ledger s)"
    and "is_supported_sol (ro_collateral_asset op) \<or> is_supported_usdc (ro_collateral_asset op)"
    and "check_reserve_conversion op = Ok ()"
    and "check_reserve_collateral (is_supported_sol (ro_collateral_asset op)) op = Ok ()"
  using assms by (auto simp: validate_mna_reserve_operation_def result_ok)

lemma check_reserve_conversion_Ok:
  assumes "check_reserve_conversion op = Ok ()"
  shows "unat (ro_amount_usdc op) = 2 * (unat (ro_amount_mna op) + unat (ro_fee_mna op))"
    and "ro_amount_mna op \<noteq> 0"
proof -
  let ?u = "ro_amount_usdc op" and ?m = "ro_amount_mna op" and ?f = "ro_fee_mna op"
  have c: "unat ?u mod 2 = 0" "?m \<noteq> 0" "?f \<le> ?u div MNA_USDC_DENOMINATOR" "?m + ?f = ?u div MNA_USDC_DENOMINATOR"
    using assms by (auto simp: check_reserve_conversion_def even_amount not_less split: if_splits)
  have half: "unat (?u div MNA_USDC_DENOMINATOR) = unat ?u div 2"
    by (simp add: MNA_USDC_DENOMINATOR_def unat_div)
  have "?m = ?u div MNA_USDC_DENOMINATOR - ?f" using c(4) by (simp add: eq_diff_eq)
  then have "unat ?m = unat ?u div 2 - unat ?f"
    using c(3) half by (simp add: unat_sub)
  moreover have "unat ?f \<le> unat ?u div 2" using c(3) half by (simp add: word_le_nat_alt)
  ultimately show "unat ?u = 2 * (unat ?m + unat ?f)" using c(1) by presburger
  show "?m \<noteq> 0" by (rule c(2))
qed

section \<open>The lanes\<close>

text \<open>A swap fails in one of two ways: before it is admitted, or with its identifier left behind.\<close>

lemma apply_mna_swap_cases:
  obtains (unchanged) "snd (apply_mna_swap X s op) = s" "fst (apply_mna_swap X s op) \<noteq> Ok True"
  | (failed) e i where "validate_mna_swap X s op = Ok i" "apply_mna_swap X s op =
      (Err e, s\<lparr>st_processed_mna_swap_operations := bt_insert i () (st_processed_mna_swap_operations s)\<rparr>)"
  | (success) s' where "apply_mna_swap X s op = (Ok True, s')"
proof (cases "validate_mna_swap X s op")
  case (Inl e)
  then show thesis by (intro unchanged) (simp_all add: apply_mna_swap_def)
next
  case (Inr i)
  note v = this
  let ?s1 = "s\<lparr>st_processed_mna_swap_operations := bt_insert i () (st_processed_mna_swap_operations s)\<rparr>"
  show thesis
  proof (cases "bt_contains (st_processed_mna_swap_operations s) i")
    case True
    then show thesis using v by (intro unchanged) (simp_all add: apply_mna_swap_def)
  next
    case False
    show thesis
    proof (cases "swap_effect ?s1 (sw_unsigned op)")
      case (Inl e)
      then show thesis using v False by (intro failed [OF v]) (simp add: apply_mna_swap_def Let_def)
    next
      case (Inr s2)
      then show thesis using v False by (intro success) (simp add: apply_mna_swap_def Let_def)
    qed
  qed
qed

lemma swap_effect_processed:
  "swap_effect s u = Ok s' \<Longrightarrow> st_processed_mna_swap_operations s' = st_processed_mna_swap_operations s"
  by (erule swap_effect_Ok) (simp_all add: swapped_def)

lemma apply_mna_swap_processed:
  "apply_mna_swap X s op = (Ok True, s') \<Longrightarrow>
   \<exists>i. mna_swap_operation_id X op = Ok i \<and> \<not> bt_contains (st_processed_mna_swap_operations s) i \<and>
     st_processed_mna_swap_operations s' = bt_insert i () (st_processed_mna_swap_operations s)"
  by (erule apply_mna_swap_True) (drule swap_effect_processed, drule validate_mna_swap_Ok(1), simp)

interpretation swap_lane: operation_lane "apply_mna_swap X" "mna_swap_operation_id X"
  "\<lambda>s. Inr ` bt_keys (st_processed_mna_swap_operations s)" for X
proof unfold_locales
  fix s op
  let ?seen = "\<lambda>s. (Inr :: hash \<Rightarrow> crypto_error + hash) ` bt_keys (st_processed_mna_swap_operations s)"
  show "mna_swap_operation_id X op \<in> ?seen (snd (apply_mna_swap X s op))"
    if "fst (apply_mna_swap X s op) = Ok True"
    using that apply_mna_swap_processed [of X s op] by (cases "apply_mna_swap X s op") auto
  show "fst (apply_mna_swap X s op) \<noteq> Ok True" if "mna_swap_operation_id X op \<in> ?seen s"
    using that apply_mna_swap_processed [of X s op]
    by (cases "apply_mna_swap X s op") (auto simp: bt_keys_def)
  show "?seen s \<subseteq> ?seen (snd (apply_mna_swap X s op))"
    by (cases rule: apply_mna_swap_cases [of X s op]) (auto dest: apply_mna_swap_processed)
qed

lemma apply_reserve_processed:
  "apply_mna_reserve_operation X s op = (Ok True, s') \<Longrightarrow>
   \<not> bt_contains (st_processed_mna_reserve_operations s) (ro_operation_id op) \<and>
   st_processed_mna_reserve_operations s' = bt_insert (ro_operation_id op) () (st_processed_mna_reserve_operations s)"
  by (erule apply_reserve_True) (drule reserve_effect_Ok(5), drule validate_reserve_Ok(2), simp)

lemma apply_reserve_cases:
  obtains (unchanged) "snd (apply_mna_reserve_operation X s op) = s" "fst (apply_mna_reserve_operation X s op) \<noteq> Ok True"
  | (failed) e i where "validate_mna_reserve_operation X s op = Ok i" "apply_mna_reserve_operation X s op =
      (Err e, s\<lparr>st_processed_mna_reserve_operations := bt_insert i () (st_processed_mna_reserve_operations s)\<rparr>)"
  | (success) s' where "apply_mna_reserve_operation X s op = (Ok True, s')"
proof (cases "validate_mna_reserve_operation X s op")
  case (Inl e)
  then show thesis by (intro unchanged) (simp_all add: apply_mna_reserve_operation_def)
next
  case (Inr i)
  note v = this
  let ?s1 = "s\<lparr>st_processed_mna_reserve_operations := bt_insert i () (st_processed_mna_reserve_operations s)\<rparr>"
  show thesis
  proof (cases "bt_contains (st_processed_mna_reserve_operations s) i")
    case True
    then show thesis using v by (intro unchanged) (simp_all add: apply_mna_reserve_operation_def)
  next
    case False
    show thesis
    proof (cases "reserve_effect ?s1 op")
      case (Inl e)
      then show thesis using v False by (intro failed [OF v]) (simp add: apply_mna_reserve_operation_def Let_def)
    next
      case (Inr s2)
      then show thesis using v False by (intro success) (simp add: apply_mna_reserve_operation_def Let_def)
    qed
  qed
qed

interpretation reserve_lane: operation_lane "apply_mna_reserve_operation X" ro_operation_id
  "\<lambda>s. bt_keys (st_processed_mna_reserve_operations s)" for X
proof unfold_locales
  fix s op
  show "ro_operation_id op \<in> bt_keys (st_processed_mna_reserve_operations (snd (apply_mna_reserve_operation X s op)))"
    if "fst (apply_mna_reserve_operation X s op) = Ok True"
    using that apply_reserve_processed [of X s op] by (cases "apply_mna_reserve_operation X s op") auto
  show "fst (apply_mna_reserve_operation X s op) \<noteq> Ok True"
    if "ro_operation_id op \<in> bt_keys (st_processed_mna_reserve_operations s)"
    using that apply_reserve_processed [of X s op]
    by (cases "apply_mna_reserve_operation X s op") (auto simp: bt_keys_def)
  show "bt_keys (st_processed_mna_reserve_operations s) \<subseteq>
      bt_keys (st_processed_mna_reserve_operations (snd (apply_mna_reserve_operation X s op)))"
    by (cases rule: apply_reserve_cases [of X s op]) (auto dest: apply_reserve_processed)
qed

section \<open>Backing\<close>

text \<open>The sum of all balances whose asset key satisfies a predicate.\<close>

definition asset_sum :: "(string \<Rightarrow> bool) \<Rightarrow> asset_balances \<Rightarrow> nat" where
  "asset_sum P bals = bt_sum (\<lambda>_ m. bt_sum (\<lambda>k v. if P k then unat v else 0) m) bals"

lemma asset_sum_put:
  "asset_sum P (asset_put k bals a x) + (if P k then asset_bal k bals a else 0) =
   asset_sum P bals + (if P k then unat x else 0)"
proof -
  define f where "f = (\<lambda>k (v :: amount). if P k then unat v else 0)"
  let ?m = "bt_get_or bt_empty bals a"
  have "asset_sum P (asset_put k bals a x) + bt_sum f ?m = asset_sum P bals + bt_sum f (bt_insert k x ?m)"
    using bt_sum_insert [of "\<lambda>_. bt_sum f" a "bt_insert k x ?m" bals]
    by (cases "bt_get bals a") (simp_all add: asset_sum_def asset_put_def bt_get_or_def f_def)
  moreover have "bt_sum f (bt_insert k x ?m) + f k (bt_get_or 0 ?m k) = bt_sum f ?m + f k x"
    using bt_sum_insert [of f k x ?m] by (cases "bt_get ?m k") (simp_all add: bt_get_or_def f_def)
  moreover have "f k (bt_get_or 0 ?m k) = (if P k then asset_bal k bals a else 0)"
    by (simp add: f_def asset_bal_def)
  ultimately show ?thesis by (simp add: f_def)
qed

lemma asset_sum_entry [simp]: "asset_sum P (bt_entry bt_empty a bals) = asset_sum P bals"
  by (simp add: asset_sum_def bt_sum_entry)

text \<open>The asset keys of supported USDC: the decimals are not part of a key.\<close>

definition usdc_key :: "string \<Rightarrow> bool" where
  "usdc_key k =
     (str_prefix ''ethereum:USDC:'' k \<and>
        eq_ignore_ascii_case (drop 14 k) ''sepolia:0x1c7D4B196Cb0C7B01d743Fbc6116a902379C7238''
      \<or> k = ''solana:USDC:devnet:4zMMC9srt5Ri5X14GAgXhaHii3GnPAEERYPJgZJDncDU'')"

lemma supported_usdc_key: "is_supported_usdc asset \<Longrightarrow> usdc_key (canonical_key asset)"
  by (auto simp: is_supported_usdc_def usdc_key_def canonical_key_def split: option.splits)

definition fully_backed :: "state \<Rightarrow> bool" where
  "fully_backed s =
     (int (asset_sum usdc_key (st_asset_balances s)) + 2 * int (backed_of (st_mna_reserve_ledger s))
        \<le> reserve_int (st_mna_reserve_ledger s))"

lemma swap_keeps_backing:
  assumes "swap_effect s u = Ok s'" and "is_supported_usdc (usw_collateral_asset u)"
    and "unat (usw_amount_usdc u) = 2 * unat (usw_amount_mna u)" and "fully_backed s"
  shows "fully_backed s'"
  using assms(1)
proof (cases rule: swap_effect_Ok)
  case (mint b n usdc backed)
  show ?thesis
    using assms(3,4) mint(3,5) supported_usdc_key [OF assms(2)]
      asset_sum_put [of usdc_key "canonical_key (usw_collateral_asset u)" "st_asset_balances s" "usw_from u" usdc]
    by (simp add: mint(7) fully_backed_def swapped_def reserve_int_def del: of_nat_unat)
next
  case (redeem b n usdc backed redeemed)
  show ?thesis
    using assms(3,4) redeem(3,6) supported_usdc_key [OF assms(2)]
      asset_sum_put [of usdc_key "canonical_key (usw_collateral_asset u)" "st_asset_balances s" "usw_from u" usdc]
    by (simp add: redeem(8) fully_backed_def swapped_def reserve_int_def del: of_nat_unat)
qed

lemma asset_ledger_step_int:
  assumes "asset_ledger_step kind amount l = Ok l'"
  shows "backed_of l' = backed_of l"
    and "reserve_int l' = reserve_int l + (case kind of AssetMint \<Rightarrow> int (unat amount) | AssetBurn \<Rightarrow> - int (unat amount))"
  using assms
  by (auto simp: asset_ledger_step_def result_ok checked_add_Some reserve_int_def simp del: of_nat_unat
      split: asset_operation_kind.splits)

lemma asset_operation_keeps_backing:
  assumes "fully_backed s" and "fst (apply_asset_operation s op) = Ok True"
    and "usdc_key (canonical_key (ao_asset_id op)) \<Longrightarrow> is_supported_usdc (ao_asset_id op)"
  shows "fully_backed (snd (apply_asset_operation s op))"
proof (cases rule: apply_asset_operation_cases [of s op])
  case (success l b)
  let ?k = "canonical_key (ao_asset_id op)"
  note sum = asset_sum_put [of usdc_key ?k "st_asset_balances s" "ao_address op" b]
  show ?thesis
  proof (cases "is_supported_usdc (ao_asset_id op)")
    case True
    then have step: "asset_ledger_step (ao_kind op) (ao_amount op) (st_mna_reserve_ledger s) = Ok l"
      using success(3) by simp
    show ?thesis
      using assms(1) sum success(2) asset_ledger_step_int [OF step] supported_usdc_key [OF True]
      by (cases "ao_kind op")
        (simp_all add: success(1) fully_backed_def asset_balance_step_Ok asset_balance_of_bal del: of_nat_unat)
  next
    case False
    then have "\<not> usdc_key ?k" using assms(3) by blast
    then show ?thesis using assms(1) sum success(3) False by (simp add: success(1) fully_backed_def)
  qed
qed (use assms(2) in auto)

lemma reserve_deposit_keeps_backing:
  assumes "reserve_effect s op = Ok s'" and "ro_kind op = VerifyDeposit"
    and "check_reserve_conversion op = Ok ()" and "fully_backed s"
  shows "fully_backed s'"
  using assms(4) reserve_effect_Ok(2,6,7) [OF assms(1)] check_reserve_conversion_Ok(1) [OF assms(3)] assms(2)
  by (auto simp: fully_backed_def split: if_splits simp del: of_nat_unat)

section \<open>Properties\<close>

lemma swapped_supply:
  "native_supply (swapped s u b n usdc l) + unat (balance_of s (usw_from u)) = native_supply s + unat b"
  using native_book.total_put [of "st_accounts s" "usw_from u" "\<lparr>acct_balance = b, acct_nonce = n\<rparr>"]
  by (simp add: swapped_def native_supply_def accounts_put_def accounts_bal_of)

lemma swapped_simps [simp]:
  "asset_balance_of (swapped s u b n usdc l) (usw_from u) (canonical_key (usw_collateral_asset u)) = usdc"
  "balance_of (swapped s u b n usdc l) (usw_from u) = b" "st_mna_reserve_ledger (swapped s u b n usdc l) = l"
  "st_fee_pool (swapped s u b n usdc l) = st_fee_pool s" "nonce_of (swapped s u b n usdc l) (usw_from u) = n"
  by (simp_all add: swapped_def asset_balance_of_def balance_of_def nonce_of_def asset_put_def)

lemma swap_records_simps [simp]:
  "asset_balance_of (s\<lparr>st_mna_swap_operation_records := r\<rparr>) a k = asset_balance_of s a k"
  "balance_of (s\<lparr>st_mna_swap_operation_records := r\<rparr>) a = balance_of s a"
  "native_supply (s\<lparr>st_mna_swap_operation_records := r\<rparr>) = native_supply s"
  "reserve_covers (s\<lparr>st_mna_swap_operation_records := r\<rparr>) = reserve_covers s"
  "fully_backed (s\<lparr>st_mna_swap_operation_records := r\<rparr>) = fully_backed s"
  "asset_balance_of (s\<lparr>st_processed_mna_swap_operations := p\<rparr>) a k = asset_balance_of s a k"
  "native_supply (s\<lparr>st_processed_mna_swap_operations := p\<rparr>) = native_supply s"
  "fully_backed (s\<lparr>st_processed_mna_swap_operations := p\<rparr>) = fully_backed s"
  by (simp_all add: asset_balance_of_def balance_of_def native_supply_def reserve_covers_def fully_backed_def
      current_reserve_usd_def)

text \<open>
  C9. A swap is exact at two USDC for one MNA: minting takes twice the MNA from the sender's USDC and
  raises the backed supply by the MNA, under the reserve guard; redeeming reverses it. The fee is taken
  from the sender and given to nobody: the fee pool does not change. Redeeming adds the MNA and the fee
  without a check, so in a release build the sender pays their sum modulo 2^128, which is the sum as long
  as the sender holds less than 2^127. USDC balances plus twice the backed MNA stay covered by the
  recorded collateral. Nothing is assumed of the state.
\<close>

theorem swap_exact:
  assumes "apply_mna_swap X s op = (Ok True, s')"
    and "u = sw_unsigned op" and "a = usw_from u" and "k = canonical_key (usw_collateral_asset u)"
  shows "(case usw_kind u of
       MintMna \<Rightarrow>
         unat (asset_balance_of s' a k) + 2 * unat (usw_amount_mna u) = unat (asset_balance_of s a k) \<and>
         unat (balance_of s' a) + unat (usw_fee u) = unat (balance_of s a) + unat (usw_amount_mna u) \<and>
         backed_of (st_mna_reserve_ledger s') = backed_of (st_mna_reserve_ledger s) + unat (usw_amount_mna u) \<and>
         native_supply s' + unat (usw_fee u) = native_supply s + unat (usw_amount_mna u) \<and> reserve_covers s'
     | RedeemMna \<Rightarrow>
         unat (asset_balance_of s' a k) = unat (asset_balance_of s a k) + 2 * unat (usw_amount_mna u) \<and>
         unat (balance_of s' a) + (unat (usw_amount_mna u) + unat (usw_fee u)) mod 2 ^ 128 = unat (balance_of s a) \<and>
         backed_of (st_mna_reserve_ledger s') + unat (usw_amount_mna u) = backed_of (st_mna_reserve_ledger s) \<and>
         native_supply s' + (unat (usw_amount_mna u) + unat (usw_fee u)) mod 2 ^ 128 = native_supply s \<and>
         (unat (balance_of s a) < 2 ^ 127 \<longrightarrow> unat (usw_amount_mna u) + unat (usw_fee u) < 2 ^ 128)) \<and>
    st_fee_pool s' = st_fee_pool s \<and> (fully_backed s \<longrightarrow> fully_backed s')"
proof -
  obtain i s2 where v: "validate_mna_swap X s op = Ok i"
    and eff: "swap_effect (s\<lparr>st_processed_mna_swap_operations :=
        bt_insert i () (st_processed_mna_swap_operations s)\<rparr>) u = Ok s2"
    and s': "s' = s2\<lparr>st_mna_swap_operation_records := bt_insert i op (st_mna_swap_operation_records s2)\<rparr>"
    using assms(1) unfolding assms(2) by (rule apply_mna_swap_True)
  let ?s1 = "s\<lparr>st_processed_mna_swap_operations := bt_insert i () (st_processed_mna_swap_operations s)\<rparr>"
  note rate = validate_mna_swap_Ok(7) [OF v, folded assms(2)] and usdc = validate_mna_swap_Ok(6) [OF v, folded assms(2)]
  have bal: "unat (asset_balance_of s a k) = asset_bal k (st_asset_balances s) a" by (rule asset_balance_of_bal)
  have backing: "fully_backed s \<longrightarrow> fully_backed s'"
    using swap_keeps_backing [OF eff usdc rate] by (simp add: s')
  from eff show ?thesis
  proof (cases rule: swap_effect_Ok)
    case (mint b n x backed)
    have "reserve_covers s2"
      using mint(6) by (simp add: mint(7) reserve_covers_def current_reserve_usd_def ledger_reserve_usd_def)
    then show ?thesis
      using mint(1-5) rate backing bal
        swapped_supply [of ?s1 u b n x "st_mna_reserve_ledger s\<lparr>led_reserve_backed_mna_minted := backed\<rparr>"]
      by (simp add: s' mint(7) assms(3,4))
  next
    case (redeem b n x backed redeemed)
    have sum: "unat (usw_amount_mna u + usw_fee u) = (unat (usw_amount_mna u) + unat (usw_fee u)) mod 2 ^ 128"
      by (simp add: unat_word_ariths)
    have "unat (balance_of s a) < 2 ^ 127 \<longrightarrow> unat (usw_amount_mna u) + unat (usw_fee u) < 2 ^ 128"
      using redeem(5) rate unat_less [of "usw_amount_usdc u"] by (simp add: assms(3))
    then show ?thesis
      using redeem(1-7) rate backing bal
        swapped_supply [of ?s1 u b n x "st_mna_reserve_ledger s\<lparr>led_reserve_backed_mna_minted := backed,
          led_total_redeemed_mna := redeemed\<rparr>"]
      unfolding sum by (simp add: s' redeem(8) assms(3,4))
  qed
qed

text \<open>A ledger with bridged USDC and a swap on it, for the witnesses.\<close>

definition toy_swap_ledger :: state where
  "toy_swap_ledger = toy_ledger\<lparr>
     st_asset_balances := asset_put (canonical_key solana_usdc) bt_empty (toy_address 46) 20,
     st_mna_reserve_ledger := default_reserve_ledger\<lparr>led_total_verified_deposits_usdc := 20\<rparr>\<rparr>"

definition toy_swap :: "mna_swap_kind \<Rightarrow> amount \<Rightarrow> mna_swap_operation" where
  "toy_swap kind mna = \<lparr>sw_unsigned = \<lparr>usw_version = 1, usw_chain_id = CHAIN_ID, usw_nonce = 3,
     usw_from = toy_address 46, usw_kind = kind, usw_collateral_asset = solana_usdc, usw_amount_usdc = 2 * mna,
     usw_amount_mna = mna, usw_fee = 2, usw_public_key = toy_key, usw_memo = []\<rparr>, sw_signature = Signature []\<rparr>"

lemma toy_swap_validate:
  "validate_mna_swap toy_state_ext toy_swap_ledger (toy_swap kind 5) = Ok (Hash (replicate 32 18))"
proof -
  have "kp_verify toy_state_ext toy_key bs (Signature [])"
    "x_enc_mna_swap toy_state_ext u = Inr (replicate (unat (usw_nonce u)) 0)"
    "mna_swap_operation_id toy_state_ext (toy_swap kind 5) = Ok (Hash (replicate 32 18))" for bs u
    by (simp_all add: kp_verify_def mna_swap_operation_id_def hash_encoded_def sha256_domain_def
        toy_state_ext_defs toy_swap_def)
  moreover have "address_from_public_key toy_state_ext toy_key = toy_address 46"
    by (rule toy_address_of_key) (simp add: toy_key_def)
  ultimately show ?thesis
    using solana_usdc_supported
    by (simp add: validate_mna_swap_def toy_swap_def toy_swap_ledger_def toy_ledger_def toy_address_neq
        MNA_USDC_DENOMINATOR_def)
qed

lemma toy_swap_mint: "\<exists>s'. apply_mna_swap toy_state_ext toy_swap_ledger (toy_swap MintMna 5) = (Ok True, s')"
proof -
  have fresh: "st_processed_mna_swap_operations toy_swap_ledger = bt_empty"
    by (simp add: toy_swap_ledger_def toy_ledger_def state_new_def)
  have "\<exists>s2. swap_effect (toy_swap_ledger\<lparr>st_processed_mna_swap_operations := p\<rparr>)
      (sw_unsigned (toy_swap MintMna 5)) = Ok s2" for p
    by (simp add: swap_effect_def toy_swap_def Let_def toy_swap_ledger_def toy_ledger_def toy_address_neq
        bt_get_or_def asset_put_def checked_sub_def checked_add_def swap_mint_def set_asset_balance_def
        set_account_def default_reserve_ledger_def current_reserve_usd_def ledger_reserve_usd_def
        saturating_add_def saturating_sub_def saturating_mul_def MNA_USDC_DENOMINATOR_def state_new_def)
  then show ?thesis
    by (simp add: apply_mna_swap_def toy_swap_validate fresh Let_def split: sum.split)
      (metis sum.distinct(1))
qed

lemma toy_swap_supply: "native_supply toy_swap_ledger = 150"
  using native_book.credit [of "\<lparr>acct_balance = 50, acct_nonce = 0\<rparr>"
      "accounts_put bt_empty (toy_address 46) \<lparr>acct_balance = 100, acct_nonce = 3\<rparr>" "toy_address 2" 50]
    native_book.credit [of "\<lparr>acct_balance = 100, acct_nonce = 3\<rparr>" bt_empty "toy_address 46" 100]
  by (simp add: native_supply_def toy_swap_ledger_def toy_ledger_def accounts_put_def toy_address_neq)

theorem swap_exact_witness:
  "\<exists>s'. apply_mna_swap toy_state_ext toy_swap_ledger (toy_swap MintMna 5) = (Ok True, s') \<and>
     native_supply s' + 2 = 155"
proof -
  obtain s' where run: "apply_mna_swap toy_state_ext toy_swap_ledger (toy_swap MintMna 5) = (Ok True, s')"
    using toy_swap_mint by blast
  then show ?thesis
    using swap_exact [OF run refl refl refl] toy_swap_supply by (simp add: toy_swap_def)
qed

text \<open>
  A swap that fails after it was admitted is swallowed: the state keeps its identifier as
  processed, and the retry is answered with \<open>Ok(false)\<close>, as if it had been applied.
\<close>

theorem failed_swap_swallowed:
  assumes "validate_mna_swap X s op = Ok i" and "apply_mna_swap X s op = (Err e, s')"
  shows "apply_mna_swap X s' op = (Ok False, s') \<and>
    s' = s\<lparr>st_processed_mna_swap_operations := bt_insert i () (st_processed_mna_swap_operations s)\<rparr>"
proof -
  have s': "s' = s\<lparr>st_processed_mna_swap_operations := bt_insert i () (st_processed_mna_swap_operations s)\<rparr>"
    using assms by (cases rule: apply_mna_swap_cases [of X s op])
      (auto simp: apply_mna_swap_def Let_def split: sum.splits if_splits)
  have same: "st_chain_id s' = st_chain_id s" "st_fee_minimum s' = st_fee_minimum s" "st_accounts s' = st_accounts s"
    by (simp_all add: s')
  have "validate_mna_swap X s' op = validate_mna_swap X s op"
    by (simp only: validate_mna_swap_def same)
  then show ?thesis using assms(1) s' by (simp add: apply_mna_swap_def)
qed

theorem failed_swap_swallowed_witness:
  "\<exists>e s'. apply_mna_swap toy_state_ext toy_swap_ledger (toy_swap RedeemMna 5) = (Err e, s') \<and>
     apply_mna_swap toy_state_ext s' (toy_swap RedeemMna 5) = (Ok False, s')"
proof -
  have fresh: "st_processed_mna_swap_operations toy_swap_ledger = bt_empty"
    by (simp add: toy_swap_ledger_def toy_ledger_def state_new_def)
  have "swap_effect (toy_swap_ledger\<lparr>st_processed_mna_swap_operations := p\<rparr>)
      (sw_unsigned (toy_swap RedeemMna 5)) = Err MnaReserveInsufficient" for p
    by (simp add: swap_effect_def toy_swap_def Let_def toy_swap_ledger_def toy_ledger_def toy_address_neq
        bt_get_or_def asset_put_def checked_sub_def checked_add_def swap_redeem_def set_asset_balance_def
        set_account_def default_reserve_ledger_def state_new_def)
  then have "\<exists>e s'. apply_mna_swap toy_state_ext toy_swap_ledger (toy_swap RedeemMna 5) = (Err e, s')"
    by (simp add: apply_mna_swap_def toy_swap_validate fresh Let_def)
  then obtain e s' where run: "apply_mna_swap toy_state_ext toy_swap_ledger (toy_swap RedeemMna 5) = (Err e, s')"
    by blast
  from failed_swap_swallowed [OF toy_swap_validate run] run show ?thesis by blast
qed

text \<open>
  C10. A reserve operation is applied only at the exact rate and only with collateral left over: the
  fee and the minted MNA are exactly half of the USD amount (no sum in that check wraps), the recorded
  collateral moves by the USD amount, a SOL deposit credits exactly the minted MNA, a release or a USDC
  deposit credits nothing, and the result satisfies the reserve guard.
\<close>

theorem reserve_operation_effect:
  assumes "apply_mna_reserve_operation X s op = (Ok True, s')"
    and "sol = (ro_kind op = VerifyDeposit \<and> is_supported_sol (ro_collateral_asset op))"
  shows "unat (ro_amount_usdc op) = 2 * (unat (ro_amount_mna op) + unat (ro_fee_mna op)) \<and>
    reserve_int (st_mna_reserve_ledger s') = (case ro_kind op of
        VerifyDeposit \<Rightarrow> reserve_int (st_mna_reserve_ledger s) + int (unat (ro_amount_usdc op))
      | Release \<Rightarrow> reserve_int (st_mna_reserve_ledger s) - int (unat (ro_amount_usdc op))) \<and>
    native_supply s' = native_supply s + (if sol then unat (ro_amount_mna op) else 0) \<and>
    backed_of (st_mna_reserve_ledger s') =
      backed_of (st_mna_reserve_ledger s) + (if sol then unat (ro_amount_mna op) else 0) \<and>
    reserve_covers s' \<and> \<not> led_paused (st_mna_reserve_ledger s) \<and>
    (ro_kind op = VerifyDeposit \<longrightarrow> fully_backed s \<longrightarrow> fully_backed s')"
proof -
  obtain i s2 where v: "validate_mna_reserve_operation X s op = Ok i"
    and eff: "reserve_effect (s\<lparr>st_processed_mna_reserve_operations :=
           bt_insert i () (st_processed_mna_reserve_operations s)\<rparr>) op = Ok s2"
    and s': "s' = s2\<lparr>st_mna_reserve_operation_records := bt_insert i op (st_mna_reserve_operation_records s2)\<rparr>"
    using assms(1) by (rule apply_reserve_True)
  note conv = validate_reserve_Ok(5) [OF v]
  have "reserve_covers s'" using reserve_effect_Ok(1) [OF eff]
    by (simp add: s' reserve_covers_def current_reserve_usd_def)
  moreover have "fully_backed s'" if "ro_kind op = VerifyDeposit" "fully_backed s"
    using reserve_deposit_keeps_backing [OF eff that(1) conv] that(2) by (simp add: s' fully_backed_def)
  moreover have "native_supply s' = native_supply s + (if sol then unat (ro_amount_mna op) else 0)"
    using reserve_effect_Ok(9) [OF eff] by (simp add: s' native_supply_def assms(2))
  moreover have "st_mna_reserve_ledger s' = st_mna_reserve_ledger s2" by (simp add: s')
  ultimately show ?thesis
    using reserve_effect_Ok(6,7) [OF eff] check_reserve_conversion_Ok(1) [OF conv] validate_reserve_Ok(3) [OF v]
    by (cases "ro_kind op") (auto simp: assms(2) simp del: of_nat_unat)
qed

text \<open>A USDC deposit whose identifier is its own hash: the toy encoding ignores the identifier.\<close>

definition toy_deposit :: mna_reserve_operation where
  "toy_deposit = \<lparr>ro_version = 1, ro_operation_id = Hash (replicate 32 18), ro_kind = VerifyDeposit,
     ro_collateral_asset = solana_usdc, ro_address = toy_address 46, ro_amount_usdc = 8, ro_amount_mna = 4,
     ro_collateral_amount = 0, ro_oracle_price_usd_micro_per_sol = 0, ro_oracle_timestamp = 0, ro_fee_mna = 0,
     ro_destination = [], ro_external_transaction = ''tx'', ro_memo = []\<rparr>"

lemma toy_deposit_applies:
  "\<exists>s'. apply_mna_reserve_operation toy_state_ext toy_swap_ledger toy_deposit = (Ok True, s')"
proof -
  have "mna_reserve_operation_id toy_state_ext toy_deposit = Ok (Hash (replicate 32 18))"
    by (simp add: mna_reserve_operation_id_def hash_encoded_def sha256_domain_def toy_state_ext_defs)
  moreover have "\<not> is_supported_sol solana_usdc"
    by (simp add: is_supported_sol_def solana_usdc_def wrapped_asset_def)
  ultimately show ?thesis
    using solana_usdc_supported
    by (simp add: apply_mna_reserve_operation_def validate_mna_reserve_operation_def toy_deposit_def Let_def
        toy_swap_ledger_def default_reserve_ledger_def check_reserve_conversion_def MNA_USDC_DENOMINATOR_def
        check_reserve_collateral_def trim_is_empty_def reserve_effect_def reserve_ledger_step_def checked_add_def
        current_reserve_usd_def ledger_reserve_usd_def saturating_mul_def toy_ledger_def state_new_def)
qed

theorem reserve_operation_effect_witness:
  "\<exists>s'. apply_mna_reserve_operation toy_state_ext toy_swap_ledger toy_deposit = (Ok True, s') \<and> reserve_covers s'"
  using toy_deposit_applies reserve_operation_effect [OF _ refl] by blast

text \<open>The string that the identifier of a reserve operation is the digest of.\<close>

definition reserve_inputs :: "('a) crypto_ext_scheme \<Rightarrow> mna_reserve_operation \<Rightarrow> bytes set" where
  "reserve_inputs X op =
     (case x_enc_mna_reserve X op of Inl _ \<Rightarrow> {} | Inr bs \<Rightarrow> {str_bytes ''MNA/mna-reserve/v1'' @ bs})"

text \<open>
  The identifier of a reserve operation is part of what it hashes, so an operation built in two
  steps, with a zero identifier first and its hash filled in then, never validates: unless that hash
  is zero, or SHA-256 confuses the two encodings.
\<close>

theorem two_step_reserve_operation_rejected:
  assumes "\<forall>a b bs. x_enc_mna_reserve X a = Inr bs \<longrightarrow> x_enc_mna_reserve X b = Inr bs \<longrightarrow> a = b"
    and "ro_operation_id op0 = HASH_ZERO" and "mna_reserve_operation_id X op0 = Ok i" and "i \<noteq> HASH_ZERO"
    and "collision_free X (reserve_inputs X op0 \<union> reserve_inputs X (op0\<lparr>ro_operation_id := i\<rparr>))"
  shows "validate_mna_reserve_operation X s (op0\<lparr>ro_operation_id := i\<rparr>) \<noteq> Ok j"
proof
  let ?op = "op0\<lparr>ro_operation_id := i\<rparr>"
  assume "validate_mna_reserve_operation X s ?op = Ok j"
  then have "mna_reserve_operation_id X ?op = Ok i"
    using validate_reserve_Ok(1,2) [of X s ?op j] by simp
  then obtain bs cs where enc: "x_enc_mna_reserve X op0 = Inr bs" "x_enc_mna_reserve X ?op = Inr cs"
    and same: "sha256_domain X ''MNA/mna-reserve/v1'' bs = sha256_domain X ''MNA/mna-reserve/v1'' cs"
    using assms(3) by (auto simp: mna_reserve_operation_id_def hash_encoded_def split: sum.splits)
  have "bs = cs"
    by (rule sha256_domain_inj [OF assms(5) _ _ same]) (simp_all add: reserve_inputs_def enc)
  then have "op0 = ?op" using assms(1) enc by blast
  then have "ro_operation_id op0 = ro_operation_id ?op" by (rule arg_cong)
  then show False using assms(2,4) by simp
qed

definition two_step_ext :: state_ext where
  "two_step_ext = toy_state_ext\<lparr>x_enc_mna_reserve :=
     (\<lambda>p. if p = toy_deposit\<lparr>ro_operation_id := HASH_ZERO\<rparr> then Inr [] else Inl (Encode ''unknown''))\<rparr>"

theorem two_step_reserve_operation_rejected_witness:
  "\<exists>i. validate_mna_reserve_operation two_step_ext toy_swap_ledger (toy_deposit\<lparr>ro_operation_id := i\<rparr>) \<noteq> Ok i"
proof -
  let ?op0 = "toy_deposit\<lparr>ro_operation_id := HASH_ZERO\<rparr>" and ?i = "Hash (replicate 32 18)"
  have "mna_reserve_operation_id two_step_ext ?op0 = Ok ?i"
    by (simp add: mna_reserve_operation_id_def hash_encoded_def sha256_domain_def two_step_ext_def toy_state_ext_defs)
  moreover have "collision_free two_step_ext
      (reserve_inputs two_step_ext ?op0 \<union> reserve_inputs two_step_ext (?op0\<lparr>ro_operation_id := ?i\<rparr>))"
    by (simp add: collision_free_def reserve_inputs_def two_step_ext_def)
  moreover have "?i \<noteq> HASH_ZERO" by (simp add: HASH_ZERO_def)
  ultimately have "validate_mna_reserve_operation two_step_ext toy_swap_ledger (?op0\<lparr>ro_operation_id := ?i\<rparr>) \<noteq> Ok ?i"
    by (intro two_step_reserve_operation_rejected) (simp_all add: two_step_ext_def)
  then show ?thesis by auto
qed

end
