(* ===== verification/Program_Operations.thy ===== *)
theory Program_Operations
  imports Mna_Reserve
begin

text \<open>
  \<open>crates/wsc-state/src/lib.rs\<close>: the program lane. \<open>apply_program_operation_mut\<close> runs on a clone
  that is stored only on success, so its steps return the next state or an error: authorization,
  the declared fee, the action on the registry, and the charge with its receipt.
\<close>

section \<open>Authorization\<close>

definition program_action :: "program_operation_kind \<Rightarrow> string" where
  "program_action kind =
     (case kind of
        ProgramDeploy \<Rightarrow> ''deploy''
      | ProgramCall \<Rightarrow> ''call''
      | ProgramStorageSet \<Rightarrow> ''storage_set''
      | ProgramClose \<Rightarrow> ''close'')"

definition newline :: string where "newline = [CHR 0x0A]"

definition program_message :: "('a) crypto_ext_scheme \<Rightarrow> program_operation \<Rightarrow> address \<Rightarrow> string" where
  "program_message X op owner =
     (let message = ''Intertrain Program Authorization'' @ newline
            @ ''Action: '' @ program_action (po_kind op) @ newline
            @ ''Chain ID: '' @ po_chain_id op @ newline
            @ ''Program ID: '' @ po_program_id op @ newline
            @ ''Owner: '' @ to_bech32m (x_bech32m_encode X) owner @ newline
            @ ''Nonce: '' @ show_nat (unat (po_nonce op)) @ newline
            @ ''Fee: '' @ show_nat (unat (po_fee op));
          message = (if po_kind op = ProgramCall
            then message @ newline @ ''Gas Limit: '' @ show_nat (unat (po_gas_limit op)) else message)
      in if po_kind op = ProgramStorageSet
         then message @ newline @ ''Key: '' @ po_key op @ newline @ ''Value: '' @ po_value op else message)"

definition required_max_fee :: "state \<Rightarrow> program_operation \<Rightarrow> amount option" where
  "required_max_fee s op =
     (case po_kind op of
        ProgramDeploy \<Rightarrow> checked_add (st_fee_minimum s) (word_of_nat (length (po_package op)))
      | ProgramCall \<Rightarrow> checked_add (st_fee_minimum s) (ucast (po_gas_limit op))
      | ProgramStorageSet \<Rightarrow> Some (st_fee_minimum s)
      | ProgramClose \<Rightarrow> Some (st_fee_minimum s))"

text \<open>Everything before the action; \<open>entry(owner).or_default()\<close> creates the account of the owner.\<close>

definition program_authorize ::
    "('a) crypto_ext_scheme \<Rightarrow> state \<Rightarrow> program_operation \<Rightarrow> state_error + (hash \<times> address \<times> amount \<times> state)" where
  "program_authorize X s op =
     (if po_version op \<noteq> 1 then Err UnsupportedProgramOperationVersion
      else if po_chain_id op \<noteq> st_chain_id s then Err ProgramWrongChainId
      else case program_operation_id X op of
        Inl e \<Rightarrow> Err (InvalidProgramOperation (crypto_error_string e))
      | Inr operation_id \<Rightarrow>
          let owner = address_from_public_key X (po_public_key op) in
          if \<not> kp_verify X (po_public_key op) (str_bytes (program_message X op owner)) (po_signature op)
          then Err InvalidProgramSignature
          else
            let s1 = s\<lparr>st_accounts := bt_entry default_account owner (st_accounts s)\<rparr>;
                account = bt_get_or default_account (st_accounts s1) owner
            in if po_nonce op \<noteq> acct_nonce account
               then Err (NonceMismatch (acct_nonce account) (po_nonce op))
               else case required_max_fee s op of
                 None \<Rightarrow> Err FeePoolOverflow
               | Some fee \<Rightarrow>
                   if po_fee op < fee then Err FeeTooLow
                   else if acct_balance account < fee then Err InsufficientBalance
                   else Ok (operation_id, owner, fee, s1))"

section \<open>Actions\<close>

record program_outcome =
  out_status :: string
  out_return_data :: bytes
  out_gas_used :: u64
  out_error :: "string option"

definition program_deploy ::
    "('a) program_ext_scheme \<Rightarrow> state \<Rightarrow> program_operation \<Rightarrow> address \<Rightarrow> u64 \<Rightarrow>
     state_error + (program_outcome \<times> state)" where
  "program_deploy X s op owner block_height =
     (if bt_contains (st_programs s) (po_program_id op) \<or> bt_contains (st_closed_programs s) (po_program_id op)
      then Err ProgramAlreadyExists
      else case package_decode X (po_package op) of
        Inl e \<Rightarrow> Err (InvalidProgramOperation (program_error_string e))
      | Inr package \<Rightarrow>
          if program_id package \<noteq> po_program_id op
          then Err (InvalidProgramOperation ''program ID does not match package'')
          else Ok (\<lparr>out_status = ''confirmed'', out_return_data = [], out_gas_used = 0, out_error = None\<rparr>,
                   s\<lparr>st_programs := bt_insert (po_program_id op)
                       \<lparr>pr_package = po_package op, pr_creator = owner, pr_deployed_at_height = block_height,
                        pr_storage = bt_empty\<rparr> (st_programs s)\<rparr>))"

definition program_call ::
    "('a) program_ext_scheme \<Rightarrow> state \<Rightarrow> program_operation \<Rightarrow> state_error + (program_outcome \<times> state)" where
  "program_call X s op =
     (if po_gas_limit op = 0 then Err (InvalidProgramOperation ''gas limit must be positive'')
      else case bt_get (st_programs s) (po_program_id op) of
        None \<Rightarrow> Err ProgramNotFound
      | Some prog \<Rightarrow>
          (case package_decode X (pr_package prog) of
             Inl e \<Rightarrow> Err (InvalidProgramOperation (program_error_string e))
           | Inr package \<Rightarrow>
               (case package_execute X package (po_gas_limit op) of
                  Inr (data, gas) \<Rightarrow>
                    Ok (\<lparr>out_status = ''success'', out_return_data = data, out_gas_used = gas,
                         out_error = None\<rparr>, s)
                | Inl e \<Rightarrow>
                    Ok (\<lparr>out_status = ''failed'', out_return_data = [], out_gas_used = po_gas_limit op,
                         out_error = Some (program_error_string e)\<rparr>, s))))"

definition program_storage_set ::
    "state \<Rightarrow> program_operation \<Rightarrow> address \<Rightarrow> state_error + (program_outcome \<times> state)" where
  "program_storage_set s op owner =
     (if 128 < length (po_key op) \<or> 4096 < length (po_value op)
      then Err (InvalidProgramOperation ''storage key/value exceeds limits'')
      else case bt_get (st_programs s) (po_program_id op) of
        None \<Rightarrow> Err ProgramNotFound
      | Some prog \<Rightarrow>
          if pr_creator prog \<noteq> owner then Err ProgramUnauthorized
          else Ok (\<lparr>out_status = ''confirmed'', out_return_data = [], out_gas_used = 0, out_error = None\<rparr>,
                   s\<lparr>st_programs := bt_insert (po_program_id op)
                       (prog\<lparr>pr_storage := bt_insert (po_key op) (po_value op) (pr_storage prog)\<rparr>)
                       (st_programs s)\<rparr>))"

definition program_close ::
    "state \<Rightarrow> program_operation \<Rightarrow> address \<Rightarrow> u64 \<Rightarrow> state_error + (program_outcome \<times> state)" where
  "program_close s op owner block_height =
     (case bt_get (st_programs s) (po_program_id op) of
        None \<Rightarrow> Err ProgramNotFound
      | Some prog \<Rightarrow>
          if pr_creator prog \<noteq> owner then Err ProgramUnauthorized
          else Ok (\<lparr>out_status = ''closed'', out_return_data = [], out_gas_used = 0, out_error = None\<rparr>,
                   s\<lparr>st_programs := bt_remove (po_program_id op) (st_programs s),
                     st_closed_programs := bt_insert (po_program_id op) block_height (st_closed_programs s)\<rparr>))"

definition program_act ::
    "('a) program_ext_scheme \<Rightarrow> state \<Rightarrow> program_operation \<Rightarrow> address \<Rightarrow> u64 \<Rightarrow>
     state_error + (program_outcome \<times> state)" where
  "program_act X s op owner block_height =
     (case po_kind op of
        ProgramDeploy \<Rightarrow> program_deploy X s op owner block_height
      | ProgramCall \<Rightarrow> program_call X s op
      | ProgramStorageSet \<Rightarrow> program_storage_set s op owner
      | ProgramClose \<Rightarrow> program_close s op owner block_height)"

section \<open>The charge\<close>

definition program_fee_paid :: "state \<Rightarrow> program_operation \<Rightarrow> amount \<Rightarrow> u64 \<Rightarrow> amount option" where
  "program_fee_paid s op max_fee gas_used =
     (case po_kind op of
        ProgramDeploy \<Rightarrow> Some max_fee
      | ProgramCall \<Rightarrow> checked_add (st_fee_minimum s) (ucast gas_used)
      | ProgramStorageSet \<Rightarrow> Some (st_fee_minimum s)
      | ProgramClose \<Rightarrow> Some (st_fee_minimum s))"

text \<open>The subtraction from the balance is unchecked in the source: it wraps in a release build.\<close>

definition program_charge ::
    "state \<Rightarrow> program_operation \<Rightarrow> hash \<Rightarrow> address \<Rightarrow> amount \<Rightarrow> program_outcome \<Rightarrow> state_error + state" where
  "program_charge s op operation_id owner max_fee out =
     (case program_fee_paid s op max_fee (out_gas_used out) of
        None \<Rightarrow> Err FeePoolOverflow
      | Some fee_paid \<Rightarrow>
          let account = bt_get_or default_account (st_accounts s) owner in
          case checked_add (acct_nonce account) 1 of
            None \<Rightarrow> Err NonceOverflow
          | Some n \<Rightarrow>
              (case checked_add (st_fee_pool s) fee_paid of
                 None \<Rightarrow> Err FeePoolOverflow
               | Some pool \<Rightarrow>
                   Ok (s\<lparr>st_accounts := bt_insert owner
                           \<lparr>acct_balance = acct_balance account - fee_paid, acct_nonce = n\<rparr> (st_accounts s),
                         st_fee_pool := pool,
                         st_program_receipts := bt_insert operation_id
                           \<lparr>rc_operation_id = operation_id, rc_program_id = po_program_id op, rc_kind = po_kind op,
                            rc_status = out_status out, rc_return_data = out_return_data out,
                            rc_gas_used = out_gas_used out, rc_gas_limit = po_gas_limit op,
                            rc_fee_paid = fee_paid, rc_error = out_error out\<rparr>
                           (st_program_receipts s)\<rparr>)))"

definition apply_program_operation_mut ::
    "('a) program_ext_scheme \<Rightarrow> state \<Rightarrow> program_operation \<Rightarrow> u64 \<Rightarrow> state_error + (hash \<times> state)" where
  "apply_program_operation_mut X s op block_height =
     (case program_authorize X s op of
        Inl e \<Rightarrow> Err e
      | Inr (operation_id, owner, max_fee, s1) \<Rightarrow>
          (case program_act X s1 op owner block_height of
             Inl e \<Rightarrow> Err e
           | Inr (out, s2) \<Rightarrow>
               (case program_charge s2 op operation_id owner max_fee out of
                  Inl e \<Rightarrow> Err e
                | Inr s3 \<Rightarrow> Ok (operation_id, s3))))"

definition validate_program_operation ::
    "('a) program_ext_scheme \<Rightarrow> state \<Rightarrow> program_operation \<Rightarrow> state_error + unit" where
  "validate_program_operation X s op =
     (case apply_program_operation_mut X s op 0 of Inl e \<Rightarrow> Err e | Inr _ \<Rightarrow> Ok ())"

definition apply_program_operation ::
    "('a) program_ext_scheme \<Rightarrow> state \<Rightarrow> program_operation \<Rightarrow> u64 \<Rightarrow> (state_error + bool) \<times> state" where
  "apply_program_operation X s op block_height =
     (case program_operation_id X op of
        Inl e \<Rightarrow> (Err (InvalidProgramOperation (crypto_error_string e)), s)
      | Inr operation_id \<Rightarrow>
          if bt_contains (st_program_receipts s) operation_id then (Ok False, s)
          else case apply_program_operation_mut X s op block_height of
            Inl e \<Rightarrow> (Err e, s)
          | Inr (_, s') \<Rightarrow> (Ok True, s'))"

section \<open>What an operation does\<close>

lemma entry_accounts [simp, frame_simps]:
  "balance_of (s\<lparr>st_accounts := bt_entry default_account a (st_accounts s)\<rparr>) b = balance_of s b"
  "nonce_of (s\<lparr>st_accounts := bt_entry default_account a (st_accounts s)\<rparr>) b = nonce_of s b"
  by (auto simp: balance_of_def nonce_of_def bt_get_or_def split: option.splits)

lemma program_authorize_Ok:
  assumes "program_authorize X s op = Ok (i, owner, fee, s1)"
  shows "program_operation_id X op = Ok i" and "owner = address_from_public_key X (po_public_key op)"
    and "kp_verify X (po_public_key op) (str_bytes (program_message X op owner)) (po_signature op)"
    and "po_nonce op = nonce_of s owner" and "required_max_fee s op = Some fee"
    and "fee \<le> po_fee op" and "fee \<le> balance_of s owner"
    and "s1 = s\<lparr>st_accounts := bt_entry default_account owner (st_accounts s)\<rparr>"
  using assms by (auto simp: program_authorize_def result_ok get_or_default not_less)

text \<open>The action changes the two registries only, in one of three ways.\<close>

definition with_programs ::
    "state \<Rightarrow> (string, program_record) btree_map \<Rightarrow> (string, u64) btree_map \<Rightarrow> state" where
  "with_programs s programs closed = s\<lparr>st_programs := programs, st_closed_programs := closed\<rparr>"

lemma with_programs_same [simp]: "with_programs s (st_programs s) (st_closed_programs s) = s"
  by (simp add: with_programs_def)

inductive registry_step ::
    "('a) program_ext_scheme \<Rightarrow> program_operation \<Rightarrow> address \<Rightarrow> (string, program_record) btree_map \<Rightarrow>
     (string, u64) btree_map \<Rightarrow> (string, program_record) btree_map \<Rightarrow> (string, u64) btree_map \<Rightarrow> bool"
  for X op owner programs closed where
  call: "po_kind op = ProgramCall \<Longrightarrow> registry_step X op owner programs closed programs closed"
| deploy: "po_kind op = ProgramDeploy \<Longrightarrow> bt_get programs (po_program_id op) = None \<Longrightarrow>
    bt_get closed (po_program_id op) = None \<Longrightarrow> package_decode X (po_package op) = Ok package \<Longrightarrow>
    program_id package = po_program_id op \<Longrightarrow> pr_package prog = po_package op \<Longrightarrow> pr_creator prog = owner \<Longrightarrow>
    registry_step X op owner programs closed (bt_insert (po_program_id op) prog programs) closed"
| storage: "po_kind op = ProgramStorageSet \<Longrightarrow> bt_get programs (po_program_id op) = Some prog \<Longrightarrow>
    pr_creator prog = owner \<Longrightarrow> pr_package prog' = pr_package prog \<Longrightarrow> pr_creator prog' = pr_creator prog \<Longrightarrow>
    registry_step X op owner programs closed (bt_insert (po_program_id op) prog' programs) closed"
| close: "po_kind op = ProgramClose \<Longrightarrow> bt_get programs (po_program_id op) = Some prog \<Longrightarrow>
    pr_creator prog = owner \<Longrightarrow>
    registry_step X op owner programs closed (bt_remove (po_program_id op) programs)
      (bt_insert (po_program_id op) h closed)"

inductive_cases registry_stepE: "registry_step X op owner programs closed programs' closed'"

lemma program_act_step:
  assumes "program_act X s op owner h = Ok (out, s')"
  shows "\<exists>programs closed. registry_step X op owner (st_programs s) (st_closed_programs s) programs closed \<and>
    s' = with_programs s programs closed"
proof (cases "po_kind op")
  case ProgramDeploy
  then obtain package where "bt_get (st_programs s) (po_program_id op) = None"
    "bt_get (st_closed_programs s) (po_program_id op) = None" "package_decode X (po_package op) = Ok package"
    "program_id package = po_program_id op"
    and s': "s' = with_programs s (bt_insert (po_program_id op)
        \<lparr>pr_package = po_package op, pr_creator = owner, pr_deployed_at_height = h, pr_storage = bt_empty\<rparr> (st_programs s))
        (st_closed_programs s)"
    using assms by (auto simp: program_act_def program_deploy_def result_ok bt_contains_def with_programs_def)
  from registry_step.deploy [OF ProgramDeploy this(1-4), of
      "\<lparr>pr_package = po_package op, pr_creator = owner, pr_deployed_at_height = h, pr_storage = bt_empty\<rparr>" owner]
  show ?thesis using s' by auto
next
  case ProgramCall
  then obtain package where
    "(case package_execute X package (po_gas_limit op) of
        Inr (data, gas) \<Rightarrow>
          Ok (\<lparr>out_status = ''success'', out_return_data = data, out_gas_used = gas, out_error = None\<rparr>, s)
      | Inl e \<Rightarrow>
          Ok (\<lparr>out_status = ''failed'', out_return_data = [], out_gas_used = po_gas_limit op,
               out_error = Some (program_error_string e)\<rparr>, s)) = (Ok (out, s') :: state_error + program_outcome \<times> state)"
    using assms by (auto simp: program_act_def program_call_def result_ok)
  then have "s' = s" by (cases "package_execute X package (po_gas_limit op)") auto
  then show ?thesis using registry_step.call [OF ProgramCall] with_programs_same by metis
next
  case ProgramStorageSet
  then obtain prog where "bt_get (st_programs s) (po_program_id op) = Some prog" "pr_creator prog = owner"
    and s': "s' = with_programs s (bt_insert (po_program_id op)
      (prog\<lparr>pr_storage := bt_insert (po_key op) (po_value op) (pr_storage prog)\<rparr>) (st_programs s)) (st_closed_programs s)"
    using assms by (auto simp: program_act_def program_storage_set_def result_ok with_programs_def)
  from registry_step.storage [OF ProgramStorageSet this(1,2), of
      "prog\<lparr>pr_storage := bt_insert (po_key op) (po_value op) (pr_storage prog)\<rparr>"]
  show ?thesis using s' by auto
next
  case ProgramClose
  then obtain prog where "bt_get (st_programs s) (po_program_id op) = Some prog" "pr_creator prog = owner"
    and s': "s' = with_programs s (bt_remove (po_program_id op) (st_programs s))
      (bt_insert (po_program_id op) h (st_closed_programs s))"
    using assms by (auto simp: program_act_def program_close_def result_ok with_programs_def)
  from registry_step.close [OF ProgramClose this(1,2)] show ?thesis using s' by blast
qed

lemma program_charge_Ok:
  assumes "program_charge s op i owner max_fee out = Ok s'"
  obtains fee n pool receipt where "program_fee_paid s op max_fee (out_gas_used out) = Some fee"
    and "unat n = unat (nonce_of s owner) + 1" and "unat pool = unat (st_fee_pool s) + unat fee"
    and "rc_fee_paid receipt = fee" and "rc_operation_id receipt = i"
    and "s' = s\<lparr>st_accounts := bt_insert owner \<lparr>acct_balance = balance_of s owner - fee, acct_nonce = n\<rparr> (st_accounts s),
      st_fee_pool := pool, st_program_receipts := bt_insert i receipt (st_program_receipts s)\<rparr>"
proof -
  obtain fee n pool where "program_fee_paid s op max_fee (out_gas_used out) = Some fee"
    "checked_add (nonce_of s owner) 1 = Some n" "checked_add (st_fee_pool s) fee = Some pool"
    "s' = s\<lparr>st_accounts := bt_insert owner \<lparr>acct_balance = balance_of s owner - fee, acct_nonce = n\<rparr> (st_accounts s),
      st_fee_pool := pool, st_program_receipts := bt_insert i
        \<lparr>rc_operation_id = i, rc_program_id = po_program_id op, rc_kind = po_kind op,
          rc_status = out_status out, rc_return_data = out_return_data out, rc_gas_used = out_gas_used out,
          rc_gas_limit = po_gas_limit op, rc_fee_paid = fee, rc_error = out_error out\<rparr> (st_program_receipts s)\<rparr>"
    using assms unfolding program_charge_def Let_def get_or_default result_ok by blast
  then show thesis
    by (intro that [of fee n pool "\<lparr>rc_operation_id = i, rc_program_id = po_program_id op, rc_kind = po_kind op,
          rc_status = out_status out, rc_return_data = out_return_data out, rc_gas_used = out_gas_used out,
          rc_gas_limit = po_gas_limit op, rc_fee_paid = fee, rc_error = out_error out\<rparr>"])
      (simp_all add: checked_add_Some)
qed

lemma apply_program_operation_True:
  assumes "apply_program_operation X s op h = (Ok True, s')"
  obtains i owner max_fee s1 out s2 where "\<not> bt_contains (st_program_receipts s) i"
    and "program_authorize X s op = Ok (i, owner, max_fee, s1)"
    and "program_act X s1 op owner h = Ok (out, s2)"
    and "program_charge s2 op i owner max_fee out = Ok s'"
proof -
  obtain i j where i: "program_operation_id X op = Ok i" "\<not> bt_contains (st_program_receipts s) i"
    and run: "apply_program_operation_mut X s op h = Ok (j, s')"
    using assms by (auto simp: apply_program_operation_def split: sum.splits if_splits)
  from run obtain owner max_fee s1 out s2 where "program_authorize X s op = Ok (j, owner, max_fee, s1)"
    "program_act X s1 op owner h = Ok (out, s2)" "program_charge s2 op j owner max_fee out = Ok s'"
    by (auto simp: apply_program_operation_mut_def result_ok)
  moreover from this(1) have "j = i" using i(1) program_authorize_Ok(1) by fastforce
  ultimately show thesis using that i(2) by blast
qed

lemma apply_program_operation_else:
  "fst (apply_program_operation X s op h) \<noteq> Ok True \<Longrightarrow> snd (apply_program_operation X s op h) = s"
  by (auto simp: apply_program_operation_def split: sum.splits)

lemma apply_program_operation_parts:
  assumes "apply_program_operation X s op h = (Ok True, s')"
  defines "owner \<equiv> address_from_public_key X (po_public_key op)"
  shows "registry_step X op owner (st_programs s) (st_closed_programs s) (st_programs s') (st_closed_programs s')"
    and "\<exists>i receipt. program_operation_id X op = Ok i \<and> \<not> bt_contains (st_program_receipts s) i \<and>
      st_program_receipts s' = bt_insert i receipt (st_program_receipts s)"
    and "kp_verify X (po_public_key op) (str_bytes (program_message X op owner)) (po_signature op)"
    and "st_asset_balances s' = st_asset_balances s \<and> st_token_definitions s' = st_token_definitions s \<and>
      st_mna_reserve_ledger s' = st_mna_reserve_ledger s"
proof -
  obtain i o' max_fee s1 out s2 where fresh: "\<not> bt_contains (st_program_receipts s) i"
    and auth: "program_authorize X s op = Ok (i, o', max_fee, s1)"
    and act: "program_act X s1 op o' h = Ok (out, s2)"
    and charge: "program_charge s2 op i o' max_fee out = Ok s'"
    using assms(1) by (rule apply_program_operation_True)
  note a = program_authorize_Ok [OF auth]
  have o: "o' = owner" using a(2) by (simp add: owner_def)
  obtain programs closed where step: "registry_step X op owner (st_programs s) (st_closed_programs s) programs closed"
    and s2: "s2 = with_programs s1 programs closed"
    using program_act_step [OF act] by (auto simp: a(8) o)
  obtain fee n pool receipt where s': "s' = s2\<lparr>st_accounts := bt_insert o' \<lparr>acct_balance = balance_of s2 o' - fee,
      acct_nonce = n\<rparr> (st_accounts s2), st_fee_pool := pool,
      st_program_receipts := bt_insert i receipt (st_program_receipts s2)\<rparr>"
    using charge by (rule program_charge_Ok)
  show "registry_step X op owner (st_programs s) (st_closed_programs s) (st_programs s') (st_closed_programs s')"
    using step by (simp add: s' s2 with_programs_def)
  show "\<exists>i receipt. program_operation_id X op = Ok i \<and> \<not> bt_contains (st_program_receipts s) i \<and>
      st_program_receipts s' = bt_insert i receipt (st_program_receipts s)"
    using a(1) fresh by (auto simp: s' s2 a(8) with_programs_def)
  show "kp_verify X (po_public_key op) (str_bytes (program_message X op owner)) (po_signature op)"
    using a(3) by (simp add: o)
  show "st_asset_balances s' = st_asset_balances s \<and> st_token_definitions s' = st_token_definitions s \<and>
      st_mna_reserve_ledger s' = st_mna_reserve_ledger s"
    by (simp add: s' s2 a(8) with_programs_def)
qed

interpretation program_lane: operation_lane "\<lambda>s (op, h). apply_program_operation X s op h"
  "\<lambda>(op, h). program_operation_id X op" "\<lambda>s. Inr ` bt_keys (st_program_receipts s)" for X
proof unfold_locales
  fix s and p :: "program_operation \<times> u64"
  obtain op h where p: "p = (op, h)" by (cases p)
  let ?run = "apply_program_operation X s op h"
  let ?seen = "\<lambda>s. (Inr :: hash \<Rightarrow> crypto_error + hash) ` bt_keys (st_program_receipts s)"
  have ok: "\<exists>i receipt. program_operation_id X op = Ok i \<and> \<not> bt_contains (st_program_receipts s) i \<and>
      st_program_receipts (snd ?run) = bt_insert i receipt (st_program_receipts s)" if "fst ?run = Ok True"
    using that apply_program_operation_parts(2) [of X s op h "snd ?run"] by (simp add: prod_eq_iff)
  show "(case p of (op, h) \<Rightarrow> program_operation_id X op) \<in> ?seen (snd (case p of (op, h) \<Rightarrow> apply_program_operation X s op h))"
    if "fst (case p of (op, h) \<Rightarrow> apply_program_operation X s op h) = Ok True"
    using ok that by (auto simp: p)
  show "fst (case p of (op, h) \<Rightarrow> apply_program_operation X s op h) \<noteq> Ok True"
    if "(case p of (op, h) \<Rightarrow> program_operation_id X op) \<in> ?seen s"
    using ok that by (auto simp: p bt_keys_def)
  show "?seen s \<subseteq> ?seen (snd (case p of (op, h) \<Rightarrow> apply_program_operation X s op h))"
    using ok apply_program_operation_else [of X s op h] by (cases "fst ?run = Ok True") (auto simp: p)
qed

section \<open>Fees\<close>

text \<open>The documented behaviour of metering: the fuel consumed is within the fuel given.\<close>

definition engine_gas_ok :: "('a) program_ext_scheme \<Rightarrow> bool" where
  "engine_gas_ok X =
     (\<forall>wasm entry gas v used. x_engine X wasm entry gas = EngineReturned v (Some used) \<longrightarrow> used \<le> gas)"

lemma package_execute_gas:
  "engine_gas_ok X \<Longrightarrow> package_execute X p gas = Ok (data, used) \<Longrightarrow> used \<le> gas"
  by (auto simp: package_execute_def engine_gas_ok_def split: if_splits sum.splits engine_outcome.splits option.splits)

lemma program_act_gas:
  assumes "engine_gas_ok X" and "program_act X s op owner h = Ok (out, s')" and "po_kind op = ProgramCall"
  shows "out_gas_used out \<le> po_gas_limit op"
proof -
  obtain package where
    "(case package_execute X package (po_gas_limit op) of
        Inr (data, gas) \<Rightarrow>
          Ok (\<lparr>out_status = ''success'', out_return_data = data, out_gas_used = gas, out_error = None\<rparr>, s)
      | Inl e \<Rightarrow>
          Ok (\<lparr>out_status = ''failed'', out_return_data = [], out_gas_used = po_gas_limit op,
               out_error = Some (program_error_string e)\<rparr>, s)) = (Ok (out, s') :: state_error + program_outcome \<times> state)"
    using assms(2,3) by (auto simp: program_act_def program_call_def result_ok)
  then show ?thesis
    using package_execute_gas [OF assms(1), of package "po_gas_limit op"]
    by (cases "package_execute X package (po_gas_limit op)") auto
qed

lemma unat_ucast_u128: "unat (ucast (g :: u64) :: u128) = unat g"
proof -
  have "unat g < 2 ^ 128" using unat_less [of g] by simp
  then show ?thesis by (simp add: unsigned_ucast_eq take_bit_nat_eq_self)
qed

lemma program_fee_bounds:
  assumes "required_max_fee s op = Some max_fee" and "program_fee_paid s op max_fee gas = Some fee"
    and "po_kind op = ProgramCall \<Longrightarrow> gas \<le> po_gas_limit op"
  shows "fee \<le> max_fee" and "st_fee_minimum s \<le> fee"
proof -
  have "unat (st_fee_minimum s) \<le> unat fee \<and> unat fee \<le> unat max_fee"
    using assms
    by (auto simp: required_max_fee_def program_fee_paid_def checked_add_Some unat_ucast_u128 word_le_nat_alt
        split: program_operation_kind.splits)
  then show "fee \<le> max_fee" "st_fee_minimum s \<le> fee" by (simp_all add: word_le_nat_alt)
qed

text \<open>
  C13. A program operation never charges more than it declared: when it is applied the owner pays one
  fee, at least the minimum and at most the declared one, the fee pool receives exactly that, no
  subtraction wraps, the nonce advances by one and a receipt records the fee; otherwise the state is
  untouched, a call whose program fails included only as a receipt.
\<close>

theorem program_operation_charge:
  assumes "engine_gas_ok X" and "apply_program_operation X s op h = (r, s')"
    and "owner = address_from_public_key X (po_public_key op)"
  shows "if r = Ok True then
      (\<exists>fee i receipt. fee \<le> po_fee op \<and> st_fee_minimum s \<le> fee \<and>
         unat (balance_of s' owner) + unat fee = unat (balance_of s owner) \<and>
         unat (st_fee_pool s') = unat (st_fee_pool s) + unat fee \<and>
         unat (nonce_of s' owner) = unat (nonce_of s owner) + 1 \<and> po_nonce op = nonce_of s owner \<and>
         program_operation_id X op = Ok i \<and> bt_get (st_program_receipts s') i = Some receipt \<and> rc_fee_paid receipt = fee) \<and>
      native_supply s' = native_supply s \<and> (\<forall>a. a \<noteq> owner \<longrightarrow> balance_of s' a = balance_of s a)
    else s' = s"
proof (cases "r = Ok True")
  case False
  then show ?thesis using apply_program_operation_else [of X s op h] assms(2) by simp
next
  case True
  with assms(2) have run: "apply_program_operation X s op h = (Ok True, s')" by simp
  obtain i o' max_fee s1 out s2 where auth: "program_authorize X s op = Ok (i, o', max_fee, s1)"
    and act: "program_act X s1 op o' h = Ok (out, s2)"
    and charge: "program_charge s2 op i o' max_fee out = Ok s'"
    using run by (rule apply_program_operation_True)
  note a = program_authorize_Ok [OF auth]
  have o: "o' = owner" using a(2) assms(3) by simp
  obtain programs closed where s2: "s2 = with_programs s1 programs closed"
    using program_act_step [OF act] by blast
  have same: "balance_of s2 c = balance_of s c" "nonce_of s2 c = nonce_of s c" for c
  proof -
    have "balance_of s2 c = balance_of s1 c" "nonce_of s2 c = nonce_of s1 c"
      by (simp_all add: s2 with_programs_def balance_of_def nonce_of_def)
    then show "balance_of s2 c = balance_of s c" "nonce_of s2 c = nonce_of s c" by (simp_all add: a(8))
  qed
  have same2: "st_fee_pool s2 = st_fee_pool s" "st_fee_minimum s2 = st_fee_minimum s"
    by (simp_all add: s2 with_programs_def a(8))
  have total: "native_supply s2 = native_supply s"
    by (simp add: native_supply_def s2 with_programs_def a(8) accounts_total_def bt_sum_entry default_account_def)
  obtain fee n pool receipt where paid: "program_fee_paid s2 op max_fee (out_gas_used out) = Some fee"
    and n: "unat n = unat (nonce_of s2 o') + 1" and pool: "unat pool = unat (st_fee_pool s2) + unat fee"
    and receipt: "rc_fee_paid receipt = fee"
    and s': "s' = s2\<lparr>st_accounts := bt_insert o' \<lparr>acct_balance = balance_of s2 o' - fee, acct_nonce = n\<rparr> (st_accounts s2),
      st_fee_pool := pool, st_program_receipts := bt_insert i receipt (st_program_receipts s2)\<rparr>"
    using charge by (rule program_charge_Ok)
  have "required_max_fee s2 op = Some max_fee"
    using a(5) by (simp only: required_max_fee_def same2)
  from program_fee_bounds [OF this paid] program_act_gas [OF assms(1) act]
  have fee: "fee \<le> max_fee" "st_fee_minimum s \<le> fee" by (simp_all add: same2)
  have bal: "unat (balance_of s2 o' - fee) + unat fee = unat (balance_of s o')"
    using fee(1) a(7) by (simp add: same unat_sub word_le_nat_alt)
  have "native_supply s' = native_supply s2"
  proof -
    have "unat (balance_of s2 o') = unat fee + unat (balance_of s2 o' - fee)" using bal by (simp add: same)
    from charge_supply [OF this pool refl, of n] show ?thesis by (simp add: s' native_supply_def)
  qed
  moreover have "balance_of s' c = (if c = o' then balance_of s2 o' - fee else balance_of s c)" for c
    using same(1) [of c] by (simp add: s' balance_of_def)
  moreover have "nonce_of s' o' = n" "st_fee_pool s' = pool" "bt_get (st_program_receipts s') i = Some receipt"
    by (simp_all add: s' nonce_of_def)
  ultimately show ?thesis
    using True bal fee a(1,4,6) n pool receipt same2 total order.trans [OF fee(1) a(6)]
    by (auto simp: same o intro!: exI [of _ receipt])
qed

text \<open>A deployed program and a storage write by its owner, for the witnesses.\<close>

definition toy_program :: "bytes \<Rightarrow> program_record" where
  "toy_program package = \<lparr>pr_package = package, pr_creator = toy_address 46, pr_deployed_at_height = 1,
     pr_storage = bt_empty\<rparr>"

definition toy_program_ledger :: "string \<Rightarrow> bytes \<Rightarrow> state" where
  "toy_program_ledger i package = toy_ledger\<lparr>st_programs := bt_insert i (toy_program package) bt_empty\<rparr>"

definition toy_storage_set :: "string \<Rightarrow> program_operation" where
  "toy_storage_set i = \<lparr>po_version = 1, po_chain_id = CHAIN_ID, po_kind = ProgramStorageSet, po_nonce = 3, po_fee = 2,
     po_program_id = i, po_package = [], po_gas_limit = 0, po_key = ''k'', po_value = ''v'', po_public_key = toy_key,
     po_signature = Signature []\<rparr>"

lemma toy_key_address: "address_from_public_key toy_state_ext toy_key = toy_address 46"
  by (rule toy_address_of_key) (simp add: toy_key_def)

lemma toy_storage_set_applies:
  "\<exists>s'. apply_program_operation toy_state_ext (toy_program_ledger i package) (toy_storage_set i) 5 = (Ok True, s') \<and>
     bt_get (st_programs s') i = Some ((toy_program package)\<lparr>pr_storage := bt_insert ''k'' ''v'' bt_empty\<rparr>)"
proof -
  have "\<exists>j. program_operation_id toy_state_ext (toy_storage_set i) = Ok j"
    by (simp add: program_operation_id_def hash_encoded_def toy_state_ext_defs)
  then obtain j where j: "program_operation_id toy_state_ext (toy_storage_set i) = Ok j" ..
  have v: "kp_verify toy_state_ext toy_key m (Signature [])" for m
    by (simp add: kp_verify_def toy_state_ext_defs)
  show ?thesis
    using toy_key_address v
    by (simp add: apply_program_operation_def j toy_program_ledger_def apply_program_operation_mut_def
        program_authorize_def)
      (simp add: toy_storage_set_def required_max_fee_def toy_ledger_def state_new_def Let_def
        toy_address_neq program_act_def program_storage_set_def toy_program_def program_charge_def
        program_fee_paid_def checked_add_def bt_get_or_def default_account_def)
qed

theorem program_operation_charge_witness:
  "\<exists>s'. apply_program_operation toy_state_ext (toy_program_ledger ''it1'' []) (toy_storage_set ''it1'') 5 = (Ok True, s') \<and>
     native_supply s' = native_supply (toy_program_ledger ''it1'' [])"
proof -
  have "engine_gas_ok toy_state_ext"
    by (auto simp: engine_gas_ok_def toy_state_ext_def program_ext.defs toy_program_ext_def crypto_ext.defs
        word_le_nat_alt unat_div)
  then show ?thesis
    using program_operation_charge [OF _ _ refl] toy_storage_set_applies [of "''it1''" "[]"] by fastforce
qed

section \<open>The registry\<close>

text \<open>
  Every stored program decodes, its key is the identity of its code, and no program is both stored
  and closed.
\<close>

definition registry_ok ::
    "('a) program_ext_scheme \<Rightarrow> (string, program_record) btree_map \<Rightarrow> (string, u64) btree_map \<Rightarrow> bool" where
  "registry_ok X programs closed =
     (\<forall>i prog. bt_get programs i = Some prog \<longrightarrow>
        bt_get closed i = None \<and> (\<exists>p. package_decode X (pr_package prog) = Ok p \<and> program_id p = i))"

definition program_registry_ok :: "('a) program_ext_scheme \<Rightarrow> state \<Rightarrow> bool" where
  "program_registry_ok X s = registry_ok X (st_programs s) (st_closed_programs s)"

lemma registry_step_ok:
  assumes "registry_step X op owner programs closed programs' closed'" and "registry_ok X programs closed"
  shows "registry_ok X programs' closed' \<and> (\<forall>i. bt_get closed i \<noteq> None \<longrightarrow> bt_get closed' i \<noteq> None)"
  using assms by (cases rule: registry_step.cases) (auto simp: registry_ok_def)

lemma program_registry_kept:
  "program_registry_ok X s \<Longrightarrow> program_registry_ok X (snd (apply_program_operation X s op h))"
proof (cases "fst (apply_program_operation X s op h) = Ok True")
  case True
  assume ok: "program_registry_ok X s"
  from True have "apply_program_operation X s op h = (Ok True, snd (apply_program_operation X s op h))"
    by (simp add: prod_eq_iff)
  from registry_step_ok [OF apply_program_operation_parts(1) [OF this]] ok show ?thesis
    by (simp add: program_registry_ok_def)
qed (simp add: apply_program_operation_else)

text \<open>
  C12. A closed program stays closed: a program operation keeps the registry sound, never removes an
  identity from the closed set, and a program in that set is not deployed again, so what an identity
  named before it was closed can never be replaced.
\<close>

theorem closed_programs_stay_closed:
  assumes "program_registry_ok X s" and "bt_get (st_closed_programs s) i \<noteq> None"
  shows "program_registry_ok X (snd (apply_program_operation X s op h)) \<and>
    bt_get (st_closed_programs (snd (apply_program_operation X s op h))) i \<noteq> None \<and>
    bt_get (st_programs (snd (apply_program_operation X s op h))) i = None"
proof -
  let ?s' = "snd (apply_program_operation X s op h)"
  have ok: "program_registry_ok X ?s'" using assms(1) by (rule program_registry_kept)
  moreover have closed: "bt_get (st_closed_programs ?s') i \<noteq> None"
  proof (cases "fst (apply_program_operation X s op h) = Ok True")
    case True
    then have "apply_program_operation X s op h = (Ok True, ?s')" by (simp add: prod_eq_iff)
    from registry_step_ok [OF apply_program_operation_parts(1) [OF this]] assms show ?thesis
      by (simp add: program_registry_ok_def)
  next
    case False
    then show ?thesis using assms(2) by (simp add: apply_program_operation_else)
  qed
  moreover have "bt_get (st_programs ?s') i = None"
    using ok closed by (cases "bt_get (st_programs ?s') i") (auto simp: program_registry_ok_def registry_ok_def)
  ultimately show ?thesis by blast
qed

theorem closed_programs_stay_closed_witness:
  "bt_get (st_programs (snd (apply_program_operation toy_state_ext toy_program_state (toy_storage_set ''it1'') 5))) ''it1'' = None"
  using closed_programs_stay_closed [of toy_state_ext toy_program_state "''it1''" "toy_storage_set ''it1''" 5]
  by (simp add: program_registry_ok_def registry_ok_def toy_program_state_def toy_state_def)

text \<open>
  C11. Only its creator changes a program: if the record of a stored program changes or disappears, the
  operation was a storage write or a close of that program, authorized by the creator's key over a
  message that names the program, the nonce and the fee; and its code and creator never change.
\<close>

theorem program_changes_are_authorized:
  assumes "apply_program_operation X s op h = (Ok True, s')"
    and "bt_get (st_programs s) i = Some prog" and "bt_get (st_programs s') i \<noteq> Some prog"
  shows "po_program_id op = i \<and> po_kind op \<in> {ProgramStorageSet, ProgramClose} \<and>
    pr_creator prog = address_from_public_key X (po_public_key op) \<and>
    kp_verify X (po_public_key op) (str_bytes (program_message X op (pr_creator prog))) (po_signature op) \<and>
    (\<forall>prog'. bt_get (st_programs s') i = Some prog' \<longrightarrow>
       pr_package prog' = pr_package prog \<and> pr_creator prog' = pr_creator prog)"
  using apply_program_operation_parts(1) [OF assms(1)] assms(2,3) apply_program_operation_parts(3) [OF assms(1)]
  by (cases rule: registry_step.cases) (auto split: if_splits)

theorem program_changes_are_authorized_witness:
  "address_from_public_key toy_state_ext toy_key = pr_creator (toy_program [])"
proof -
  obtain s' where s': "apply_program_operation toy_state_ext (toy_program_ledger ''it1'' []) (toy_storage_set ''it1'') 5 = (Ok True, s')"
    and changed: "bt_get (st_programs s') ''it1'' = Some ((toy_program [])\<lparr>pr_storage := bt_insert ''k'' ''v'' bt_empty\<rparr>)"
    using toy_storage_set_applies [of "''it1''" "[]"] by blast
  have "bt_insert ''k'' ''v'' bt_empty \<noteq> (bt_empty :: (string, string) btree_map)"
    by (metis bt_is_empty_simps)
  then have "bt_get (st_programs s') ''it1'' \<noteq> Some (toy_program [])"
    unfolding changed toy_program_def by simp
  then show ?thesis
    using program_changes_are_authorized [OF s', of "''it1''" "toy_program []"]
    by (simp add: toy_program_ledger_def toy_storage_set_def)
qed

end
