(* ===== verification/Ledger.thy ===== *)
theory Ledger
  imports Program_Operations
begin

text \<open>
  The operations of \<open>State\<close> together: the ledger as a state machine whose steps are the six lanes
  and the devnet credit, each with whatever outcome, and what holds in every state that can be
  reached from genesis. This is how \<open>wsc-node\<close> drives the state.
\<close>

section \<open>The machine\<close>

datatype ledger_operation =
    LTransaction transaction
  | LCredit address amount
  | LAsset asset_operation
  | LToken token_operation hash
  | LSwap mna_swap_operation
  | LReserve mna_reserve_operation
  | LProgram program_operation u64

definition ledger_apply :: "('a) program_ext_scheme \<Rightarrow> state \<Rightarrow> ledger_operation \<Rightarrow> state" where
  "ledger_apply X s op =
     (case op of
        LTransaction tx \<Rightarrow> snd (apply_transaction X s tx)
      | LCredit a amount \<Rightarrow> snd (credit_devnet s a amount)
      | LAsset op \<Rightarrow> snd (apply_asset_operation s op)
      | LToken op i \<Rightarrow> snd (apply_token_operation X s op i)
      | LSwap op \<Rightarrow> snd (apply_mna_swap X s op)
      | LReserve op \<Rightarrow> snd (apply_mna_reserve_operation X s op)
      | LProgram op h \<Rightarrow> snd (apply_program_operation X s op h))"

text \<open>
  The states after any sequence of operations from genesis, with the sequence; and whether an
  operation of the bridge stays out of the tokens' namespace.
\<close>

inductive ledger_reach ::
    "('a) program_ext_scheme \<Rightarrow> genesis_config \<Rightarrow> ledger_operation list \<Rightarrow> state \<Rightarrow> bool" for X g where
  genesis: "from_genesis g = Ok s \<Longrightarrow> ledger_reach X g [] s"
| step: "ledger_reach X g ops s \<Longrightarrow> ledger_reach X g (ops @ [op]) (ledger_apply X s op)"

fun outside_token_namespace :: "ledger_operation \<Rightarrow> bool" where
  "outside_token_namespace (LAsset op) = (\<not> str_prefix ''intertrain:'' (canonical_key (ao_asset_id op)))"
| "outside_token_namespace _ = True"

section \<open>What each lane leaves alone\<close>

lemma transaction_frame:
  "st_token_definitions (snd (apply_transaction X s tx)) = st_token_definitions s \<and>
   st_asset_balances (snd (apply_transaction X s tx)) = st_asset_balances s \<and>
   st_programs (snd (apply_transaction X s tx)) = st_programs s \<and>
   st_closed_programs (snd (apply_transaction X s tx)) = st_closed_programs s \<and>
   st_chain_id (snd (apply_transaction X s tx)) = st_chain_id s"
  by (auto simp: apply_transaction_def apply_faucet_transaction_def Let_def split: sum.splits option.splits)

lemma credit_frame:
  "st_token_definitions (snd (credit_devnet s a n)) = st_token_definitions s \<and>
   st_asset_balances (snd (credit_devnet s a n)) = st_asset_balances s \<and>
   st_programs (snd (credit_devnet s a n)) = st_programs s \<and>
   st_closed_programs (snd (credit_devnet s a n)) = st_closed_programs s \<and>
   st_chain_id (snd (credit_devnet s a n)) = st_chain_id s"
  by (auto simp: credit_devnet_def Let_def split: option.splits)

lemma asset_frame:
  "st_programs (snd (apply_asset_operation s op)) = st_programs s \<and>
   st_closed_programs (snd (apply_asset_operation s op)) = st_closed_programs s \<and>
   st_accounts (snd (apply_asset_operation s op)) = st_accounts s \<and>
   st_chain_id (snd (apply_asset_operation s op)) = st_chain_id s"
  by (cases rule: apply_asset_operation_cases [of s op]) (auto simp: asset_admitted_def)

lemma token_frame:
  "st_programs (snd (apply_token_operation X s op i)) = st_programs s \<and>
   st_closed_programs (snd (apply_token_operation X s op i)) = st_closed_programs s \<and>
   st_chain_id (snd (apply_token_operation X s op i)) = st_chain_id s"
proof (cases "fst (apply_token_operation X s op i) = Ok True")
  case True
  then obtain s' where s': "apply_token_operation X s op i = (Ok True, s')"
    by (cases "apply_token_operation X s op i") auto
  obtain s1 s2 where fee: "token_charge_fee s (tk_unsigned op) = Ok s1"
    and steps: "token_steps X (tk_unsigned op) i s1 s2"
    and eq: "s' = s2\<lparr>st_processed_token_operations := bt_insert i () (st_processed_token_operations s2),
       st_token_operation_records := bt_insert i op (st_token_operation_records s2)\<rparr>"
    using s' by (rule apply_token_operation_True)
  have "st_programs s1 = st_programs s" "st_closed_programs s1 = st_closed_programs s" "st_chain_id s1 = st_chain_id s"
    using fee by (auto elim!: token_charge_fee_Ok)
  moreover have "st_programs s2 = st_programs s1" "st_closed_programs s2 = st_closed_programs s1"
    "st_chain_id s2 = st_chain_id s1"
    using steps by (auto simp: token_steps_def with_tokens_def)
  ultimately show ?thesis by (simp add: s' eq)
qed (simp add: apply_token_operation_else)

lemma swap_effect_frame:
  assumes "swap_effect s u = Ok s'"
  shows "st_programs s' = st_programs s \<and> st_closed_programs s' = st_closed_programs s \<and>
    st_token_definitions s' = st_token_definitions s \<and> st_chain_id s' = st_chain_id s \<and>
    (\<exists>x. st_asset_balances s' =
      asset_put (canonical_key (usw_collateral_asset u)) (st_asset_balances s) (usw_from u) x)"
  using assms by (cases rule: swap_effect_Ok) (auto simp: swapped_def)

lemma supported_usdc_namespace:
  "is_supported_usdc asset \<Longrightarrow> \<not> str_prefix ''intertrain:'' (canonical_key asset)"
  by (auto simp: is_supported_usdc_def canonical_key_def)

lemma swap_frame:
  "st_programs (snd (apply_mna_swap X s op)) = st_programs s \<and>
   st_closed_programs (snd (apply_mna_swap X s op)) = st_closed_programs s \<and>
   st_chain_id (snd (apply_mna_swap X s op)) = st_chain_id s \<and>
   (token_books_ok s \<longrightarrow> token_books_ok (snd (apply_mna_swap X s op)))"
proof (cases rule: apply_mna_swap_cases [of X s op])
  case (success s')
  obtain i s2 where v: "validate_mna_swap X s op = Ok i"
    and eff: "swap_effect (s\<lparr>st_processed_mna_swap_operations :=
        bt_insert i () (st_processed_mna_swap_operations s)\<rparr>) (sw_unsigned op) = Ok s2"
    and s': "s' = s2\<lparr>st_mna_swap_operation_records := bt_insert i op (st_mna_swap_operation_records s2)\<rparr>"
    using success by (rule apply_mna_swap_True)
  let ?k = "canonical_key (usw_collateral_asset (sw_unsigned op))"
  have "\<not> str_prefix ''intertrain:'' ?k"
    using validate_mna_swap_Ok(6) [OF v] by (rule supported_usdc_namespace)
  then have "token_books (st_token_definitions s) (asset_put ?k (st_asset_balances s) a x) =
      token_books (st_token_definitions s) (st_asset_balances s)" for a x
    by (intro token_books_cong asset_put_other) (use token_key_prefix in metis)
  then show ?thesis
    using swap_effect_frame [OF eff] by (auto simp: success s' token_books_ok_def)
next
  case (failed e i)
  then show ?thesis by (simp add: token_books_ok_def)
qed simp

lemma reserve_effect_frame:
  assumes "reserve_effect s op = Ok s'"
  shows "st_programs s' = st_programs s \<and> st_closed_programs s' = st_closed_programs s \<and> st_chain_id s' = st_chain_id s"
  using assms
  by (auto simp: reserve_effect_def reserve_verify_sol_def result_ok split: if_splits)

lemma reserve_frame:
  "st_programs (snd (apply_mna_reserve_operation X s op)) = st_programs s \<and>
   st_closed_programs (snd (apply_mna_reserve_operation X s op)) = st_closed_programs s \<and>
   st_chain_id (snd (apply_mna_reserve_operation X s op)) = st_chain_id s \<and>
   st_asset_balances (snd (apply_mna_reserve_operation X s op)) = st_asset_balances s \<and>
   st_token_definitions (snd (apply_mna_reserve_operation X s op)) = st_token_definitions s"
proof (cases rule: apply_reserve_cases [of X s op])
  case (success s')
  obtain i s2 where eff: "reserve_effect (s\<lparr>st_processed_mna_reserve_operations :=
           bt_insert i () (st_processed_mna_reserve_operations s)\<rparr>) op = Ok s2"
    and s': "s' = s2\<lparr>st_mna_reserve_operation_records := bt_insert i op (st_mna_reserve_operation_records s2)\<rparr>"
    using success by (rule apply_reserve_True)
  show ?thesis
    using reserve_effect_frame [OF eff] reserve_effect_Ok(2,3) [OF eff] by (simp add: success s')
next
  case (failed e i)
  then show ?thesis by simp
qed simp

lemma program_frame:
  "st_token_definitions (snd (apply_program_operation X s op h)) = st_token_definitions s \<and>
   st_asset_balances (snd (apply_program_operation X s op h)) = st_asset_balances s"
proof (cases "fst (apply_program_operation X s op h) = Ok True")
  case True
  then have "apply_program_operation X s op h = (Ok True, snd (apply_program_operation X s op h))"
    by (simp add: prod_eq_iff)
  from apply_program_operation_parts(4) [OF this] show ?thesis by simp
qed (simp add: apply_program_operation_else)

lemma swap_definitions: "st_token_definitions (snd (apply_mna_swap X s op)) = st_token_definitions s"
proof (cases rule: apply_mna_swap_cases [of X s op])
  case (success s')
  obtain i s2 where eff: "swap_effect (s\<lparr>st_processed_mna_swap_operations :=
        bt_insert i () (st_processed_mna_swap_operations s)\<rparr>) (sw_unsigned op) = Ok s2"
    and s': "s' = s2\<lparr>st_mna_swap_operation_records := bt_insert i op (st_mna_swap_operation_records s2)\<rparr>"
    using success by (rule apply_mna_swap_True)
  then show ?thesis using swap_effect_frame [OF eff] by (simp add: success)
qed simp_all

lemma asset_definitions: "st_token_definitions (snd (apply_asset_operation s op)) = st_token_definitions s"
  by (cases rule: apply_asset_operation_cases [of s op]) (auto simp: asset_admitted_def)

section \<open>Invariants of every reachable state\<close>

lemma books_step:
  assumes "token_books_ok s" and "outside_token_namespace op"
  shows "token_books_ok (ledger_apply X s op)"
  using assms token_books_kept asset_books_kept transaction_frame [of X s] credit_frame [of s] swap_frame [of X s]
    reserve_frame [of X s] program_frame [of X s]
  by (cases op) (simp_all add: ledger_apply_def token_books_ok_def)

lemma registry_step_kept: "program_registry_ok X s \<Longrightarrow> program_registry_ok X (ledger_apply X s op)"
  using program_registry_kept [of X s] transaction_frame [of X s] credit_frame [of s] swap_frame [of X s]
    reserve_frame [of X s] asset_frame [of s] token_frame [of X s]
  by (cases op) (simp_all add: ledger_apply_def program_registry_ok_def)

lemma definitions_step:
  "definitions_ok (st_token_definitions s) \<Longrightarrow> definitions_ok (st_token_definitions (ledger_apply X s op))"
  using token_definitions_kept [of s X] transaction_frame [of X s] credit_frame [of s] swap_definitions [of X s]
    reserve_frame [of X s] program_frame [of X s] asset_definitions [of s]
  by (cases op) (simp_all add: ledger_apply_def)

text \<open>
  C1. In every state that the ledger can reach from genesis, by any operations of any lane with any
  outcome: every token is stored under its identifier with a valid symbol, no supply exceeds its cap,
  every stored program decodes to its identity, and no program is both stored and closed. If moreover
  no operation of the bridge named an asset of the tokens' namespace, the balances of every token add up
  to its supply; one that does breaks this (\<open>forged_mint_breaks_books\<close>).
\<close>

theorem reachable_ledger_sound:
  assumes "ledger_reach X g ops s"
  shows "definitions_ok (st_token_definitions s) \<and> program_registry_ok X s \<and>
    (list_all outside_token_namespace ops \<longrightarrow> token_books_ok s)"
  using assms
proof induction
  case (genesis s)
  then have "st_token_definitions s = bt_empty" "st_asset_balances s = bt_empty" "st_programs s = bt_empty"
    by (auto simp: from_genesis_Ok)
  then show ?case
    using toy_books_empty by (simp add: token_books_ok_def program_registry_ok_def registry_ok_def definitions_ok_def)
next
  case (step ops s op)
  then show ?case using books_step registry_step_kept definitions_step by auto
qed

theorem reachable_ledger_sound_witness:
  "token_books_ok (ledger_apply toy_state_ext toy_state (LAsset (toy_asset_op AssetMint solana_usdc 10)))"
proof -
  have "outside_token_namespace (LAsset (toy_asset_op AssetMint solana_usdc 10))"
    by (simp add: canonical_key_def toy_asset_op_def solana_usdc_def wrapped_asset_def)
  moreover have "ledger_reach toy_state_ext toy_genesis ([] @ [LAsset (toy_asset_op AssetMint solana_usdc 10)])
      (ledger_apply toy_state_ext toy_state (LAsset (toy_asset_op AssetMint solana_usdc 10)))"
    by (intro ledger_reach.step ledger_reach.genesis toy_from_genesis)
  ultimately show ?thesis using reachable_ledger_sound by fastforce
qed

section \<open>Who can lower a token balance\<close>

lemma swap_other_asset:
  assumes "str_prefix ''intertrain:'' k"
  shows "asset_balance_of (snd (apply_mna_swap X s op)) a k = asset_balance_of s a k"
proof (cases rule: apply_mna_swap_cases [of X s op])
  case (success s')
  obtain i s2 where v: "validate_mna_swap X s op = Ok i"
    and eff: "swap_effect (s\<lparr>st_processed_mna_swap_operations :=
        bt_insert i () (st_processed_mna_swap_operations s)\<rparr>) (sw_unsigned op) = Ok s2"
    and s': "s' = s2\<lparr>st_mna_swap_operation_records := bt_insert i op (st_mna_swap_operation_records s2)\<rparr>"
    using success by (rule apply_mna_swap_True)
  let ?k = "canonical_key (usw_collateral_asset (sw_unsigned op))"
  obtain x where "st_asset_balances s2 = asset_put ?k (st_asset_balances s) (usw_from (sw_unsigned op)) x"
    using swap_effect_frame [OF eff] by auto
  moreover have "k \<noteq> ?k"
    using assms supported_usdc_namespace [OF validate_mna_swap_Ok(6) [OF v]] by auto
  ultimately have "unat (asset_balance_of s' a k) = unat (asset_balance_of s a k)"
    by (simp add: asset_balance_of_bal s' asset_put_other)
  then have "asset_balance_of s' a k = asset_balance_of s a k" by (rule unat_inject)
  then show ?thesis by (simp add: success)
next
  case (failed e i)
  then show ?thesis by (simp add: asset_balance_of_def)
qed simp

text \<open>
  C8. The balance of an account in an existing token falls in two ways only, whatever operation of
  whatever lane is applied: by a transfer or burn of that token, signed for by the account, while the
  token is not paused and the account not frozen; or by a burn of the bridge that names the account and
  an asset with the token's own key, which nobody signs.
\<close>

theorem token_debits_authorized:
  assumes "definitions_ok (st_token_definitions s)" and "bt_get (st_token_definitions s) j = Some d"
    and "token_balance (ledger_apply X s op) a d < token_balance s a d"
  shows "(\<exists>t i u. op = LToken t i \<and> u = tk_unsigned t \<and> a = utk_from u \<and> utk_token_id u = j \<and>
      utk_kind u \<in> {TokenTransfer, TokenBurn} \<and> \<not> td_paused d \<and> \<not> is_token_account_frozen s j a \<and>
      address_from_public_key X (utk_public_key u) = a \<and>
      (\<exists>bs. x_enc_token_operation X u = Ok bs \<and> kp_verify X (utk_public_key u) bs (tk_signature t))) \<or>
    (\<exists>b. op = LAsset b \<and> ao_kind b = AssetBurn \<and> ao_address b = a \<and> canonical_key (ao_asset_id b) = token_asset_key d)"
proof (cases op)
  case (LToken t i)
  let ?r = "apply_token_operation X s t i"
  have less: "token_balance (snd ?r) a d < token_balance s a d" using assms(3) by (simp add: LToken ledger_apply_def)
  then have "fst ?r = Ok True" using apply_token_operation_else by fastforce
  then have "?r = (Ok True, snd ?r)" by (simp add: prod_eq_iff)
  from token_debit_signed [OF this assms(1,2) less refl] show ?thesis using LToken by blast
next
  case (LAsset b)
  have less: "unat (asset_balance_of (snd (apply_asset_operation s b)) a (token_asset_key d)) <
      unat (asset_balance_of s a (token_asset_key d))"
    using assms(3) by (simp add: LAsset ledger_apply_def token_balance_eq word_less_nat_alt)
  show ?thesis
  proof (cases rule: apply_asset_operation_cases [of s b])
    case (success l x)
    have bals: "st_asset_balances (snd (apply_asset_operation s b)) =
        asset_put (canonical_key (ao_asset_id b)) (st_asset_balances s) (ao_address b) x"
      by (simp add: success(1))
    have key: "canonical_key (ao_asset_id b) = token_asset_key d"
    proof (rule ccontr)
      assume "canonical_key (ao_asset_id b) \<noteq> token_asset_key d"
      then show False using less by (simp add: asset_balance_of_bal bals asset_put_other)
    qed
    have acc: "ao_address b = a"
      using less by (simp add: asset_balance_of_bal bals key asset_book.bal_put split: if_splits)
    have "ao_kind b = AssetBurn"
      using less success(2) by (cases "ao_kind b") (auto simp: asset_balance_of_bal bals asset_book.bal_put asset_balance_step_Ok key acc)
    then show ?thesis using LAsset key acc by blast
  next
    case (balance e l)
    have "asset_bal k (bt_entry bt_empty c m) a = asset_bal k m a" for k c m
      by (auto simp: asset_bal_def bt_get_or_def bt_entry_def bt_contains_def [of m] split: option.split)
    then show ?thesis using less by (simp add: asset_balance_of_bal balance)
  qed (use less in \<open>simp_all add: asset_balance_of_def asset_admitted_def\<close>)
next
  case (LSwap t)
  have "str_prefix ''intertrain:'' (token_asset_key d)"
    using token_key_prefix by (simp add: token_asset_key_eq)
  then show ?thesis
    using assms(3) swap_other_asset [of "token_asset_key d" X s t a] by (simp add: LSwap ledger_apply_def token_balance_eq)
qed (use assms(3) transaction_frame [of X s] credit_frame [of s] reserve_frame [of X s] program_frame [of X s] in
    \<open>simp_all add: ledger_apply_def token_balance_eq asset_balance_of_def\<close>)

theorem token_debits_authorized_witness:
  "address_from_public_key toy_state_ext toy_key = toy_address 46"
proof -
  obtain s' where s': "apply_token_operation toy_state_ext toy_burn_ledger toy_burn (toy_operation_id 3) = (Ok True, s')"
    and less: "token_balance s' (toy_address 46) toy_held < token_balance toy_burn_ledger (toy_address 46) toy_held"
    by (rule toy_burn_debits)
  have held: "bt_get (st_token_definitions toy_burn_ledger) toy_token_id = Some toy_held" by simp
  have "token_balance (ledger_apply toy_state_ext toy_burn_ledger (LToken toy_burn (toy_operation_id 3))) (toy_address 46) toy_held <
      token_balance toy_burn_ledger (toy_address 46) toy_held"
    using s' less by (simp add: ledger_apply_def)
  then show ?thesis
    using token_debits_authorized [OF toy_burn_definitions held] by (fastforce simp: toy_op_def)
qed

section \<open>Nonces\<close>

lemma nonce_insert_mono:
  assumes "nonce_of s a \<le> n"
  shows "nonce_of s c \<le> nonce_of (s\<lparr>st_accounts := bt_insert a \<lparr>acct_balance = b, acct_nonce = n\<rparr> (st_accounts s)\<rparr>) c"
  using assms by (simp add: nonce_of_def)

lemma nonce_Suc_le: "unat n = unat m + 1 \<Longrightarrow> m \<le> n" for n m :: u64
  by (simp add: word_le_nat_alt)

lemma nonce_same_accounts: "st_accounts t = st_accounts s \<Longrightarrow> nonce_of t c = nonce_of s c"
  by (simp add: nonce_of_def)

lemma transaction_nonce: "nonce_of s c \<le> nonce_of (snd (apply_transaction X s tx)) c"
proof (cases "apply_transaction X s tx")
  case (Pair r s')
  show ?thesis
  proof (cases r)
    case (Inl e)
    then have run: "apply_transaction X s tx = (Err e, s')" using Pair by simp
    then show ?thesis
      by (auto simp: apply_transaction_def apply_faucet_transaction_def Let_def nonce_of_def bt_get_or_def
          split: sum.splits option.splits if_splits)
  next
    case (Inr i)
    then have run: "apply_transaction X s tx = (Ok i, s')" using Pair by simp
    show ?thesis
    proof (cases "is_faucet_transaction X s (tx_unsigned tx)")
      case True
      then show ?thesis using faucet_nonces [OF run] by (simp add: Pair)
    next
      case False
      obtain sb rb nn fp where "unat nn = unat (nonce_of s (utx_from (tx_unsigned tx))) + 1"
        and s': "s' = transferred s (tx_unsigned tx) sb rb nn fp"
        using run False by (rule apply_transaction_Ok)
      then have "nonce_of s (utx_from (tx_unsigned tx)) \<le> nn" by (simp add: nonce_Suc_le)
      then show ?thesis by (auto simp: Pair s' transferred_def nonce_of_def)
    qed
  qed
qed

lemma credit_nonce: "nonce_of (snd (credit_devnet s a n)) c = nonce_of s c"
  by (auto simp: credit_devnet_def Let_def nonce_of_def bt_get_or_def split: option.splits)

lemma token_nonce: "nonce_of s c \<le> nonce_of (snd (apply_token_operation X s op i)) c"
proof (cases "fst (apply_token_operation X s op i) = Ok True")
  case True
  then have "apply_token_operation X s op i = (Ok True, snd (apply_token_operation X s op i))"
    by (simp add: prod_eq_iff)
  then obtain s1 where fee: "token_charge_fee s (tk_unsigned op) = Ok s1"
    and same: "st_accounts (snd (apply_token_operation X s op i)) = st_accounts s1"
    using apply_token_operation_parts(3) by blast
  obtain b n pool where "unat n = unat (nonce_of s (utk_from (tk_unsigned op))) + 1"
    and s1: "s1 = s\<lparr>st_accounts := bt_insert (utk_from (tk_unsigned op)) \<lparr>acct_balance = b, acct_nonce = n\<rparr> (st_accounts s),
              st_fee_pool := pool\<rparr>"
    using fee by (rule token_charge_fee_Ok)
  then have "nonce_of s (utk_from (tk_unsigned op)) \<le> n" by (simp add: nonce_Suc_le)
  then show ?thesis unfolding nonce_same_accounts [OF same] by (simp add: s1 nonce_of_def)
qed (simp add: apply_token_operation_else)

lemma swap_nonce: "nonce_of s c \<le> nonce_of (snd (apply_mna_swap X s op)) c"
proof (cases rule: apply_mna_swap_cases [of X s op])
  case (success s')
  obtain i s2 where eff: "swap_effect (s\<lparr>st_processed_mna_swap_operations :=
        bt_insert i () (st_processed_mna_swap_operations s)\<rparr>) (sw_unsigned op) = Ok s2"
    and s': "s' = s2\<lparr>st_mna_swap_operation_records := bt_insert i op (st_mna_swap_operation_records s2)\<rparr>"
    using success by (rule apply_mna_swap_True)
  from eff obtain b n where "unat n = unat (nonce_of s (usw_from (sw_unsigned op))) + 1"
    and acc: "st_accounts s2 = bt_insert (usw_from (sw_unsigned op)) \<lparr>acct_balance = b, acct_nonce = n\<rparr> (st_accounts s)"
    by (cases rule: swap_effect_Ok) (auto simp: swapped_def)
  then have "nonce_of s (usw_from (sw_unsigned op)) \<le> n" by (simp add: nonce_Suc_le)
  then show ?thesis by (simp add: success s' acc nonce_of_def)
next
  case (failed e i)
  then show ?thesis by simp
qed simp

lemma reserve_nonce: "nonce_of (snd (apply_mna_reserve_operation X s op)) c = nonce_of s c"
proof (cases rule: apply_reserve_cases [of X s op])
  case (success s')
  obtain i s2 where eff: "reserve_effect (s\<lparr>st_processed_mna_reserve_operations :=
           bt_insert i () (st_processed_mna_reserve_operations s)\<rparr>) op = Ok s2"
    and s': "s' = s2\<lparr>st_mna_reserve_operation_records := bt_insert i op (st_mna_reserve_operation_records s2)\<rparr>"
    using success by (rule apply_reserve_True)
  have "nonce_of s2 c = nonce_of s c"
    using eff
    by (auto simp: reserve_effect_def reserve_verify_sol_def result_ok nonce_of_def bt_get_or_def split: if_splits option.splits)
  then show ?thesis by (simp add: success s' nonce_of_def)
next
  case (failed e i)
  then show ?thesis by simp
qed simp

lemma program_nonce: "nonce_of s c \<le> nonce_of (snd (apply_program_operation X s op h)) c"
proof (cases "fst (apply_program_operation X s op h) = Ok True")
  case True
  then have "apply_program_operation X s op h = (Ok True, snd (apply_program_operation X s op h))"
    by (simp add: prod_eq_iff)
  then obtain i o' max_fee s1 out s2 where auth: "program_authorize X s op = Ok (i, o', max_fee, s1)"
    and act: "program_act X s1 op o' h = Ok (out, s2)"
    and charge: "program_charge s2 op i o' max_fee out = Ok (snd (apply_program_operation X s op h))"
    by (rule apply_program_operation_True)
  have same: "nonce_of s2 d = nonce_of s d" for d
  proof -
    obtain programs closed where "s2 = with_programs s1 programs closed"
      using program_act_step [OF act] by blast
    then have "nonce_of s2 d = nonce_of s1 d" by (simp add: with_programs_def nonce_of_def)
    then show ?thesis by (simp add: program_authorize_Ok(8) [OF auth])
  qed
  obtain fee n pool receipt where "unat n = unat (nonce_of s2 o') + 1"
    and s': "snd (apply_program_operation X s op h) = s2\<lparr>st_accounts := bt_insert o'
        \<lparr>acct_balance = balance_of s2 o' - fee, acct_nonce = n\<rparr> (st_accounts s2), st_fee_pool := pool,
        st_program_receipts := bt_insert i receipt (st_program_receipts s2)\<rparr>"
    using charge by (rule program_charge_Ok)
  then have "nonce_of s2 o' \<le> n" by (simp add: nonce_Suc_le)
  moreover have "nonce_of (snd (apply_program_operation X s op h)) c = (if c = o' then n else nonce_of s2 c)"
    by (simp add: s' nonce_of_def)
  ultimately show ?thesis by (auto simp: same)
qed (simp add: apply_program_operation_else)

lemma asset_nonce: "nonce_of (snd (apply_asset_operation s op)) c = nonce_of s c"
  by (rule nonce_same_accounts) (simp add: asset_frame)

lemma ledger_nonce_mono: "nonce_of s c \<le> nonce_of (ledger_apply X s op) c"
  using transaction_nonce [of s c X] credit_nonce [of s _ _ c] token_nonce [of s c X] swap_nonce [of s c X]
    reserve_nonce [of X s _ c] program_nonce [of s c X] asset_nonce [of s _ c]
  by (cases op) (simp_all add: ledger_apply_def)

lemma ledger_chain_id: "st_chain_id (ledger_apply X s op) = st_chain_id s"
proof (cases op)
  case (LProgram o1 h)
  have "st_chain_id (snd (apply_program_operation X s o1 h)) = st_chain_id s"
  proof (cases "fst (apply_program_operation X s o1 h) = Ok True")
    case True
    then have "apply_program_operation X s o1 h = (Ok True, snd (apply_program_operation X s o1 h))"
      by (simp add: prod_eq_iff)
    then obtain i o' max_fee s1 out s2 where auth: "program_authorize X s o1 = Ok (i, o', max_fee, s1)"
      and act: "program_act X s1 o1 o' h = Ok (out, s2)"
      and charge: "program_charge s2 o1 i o' max_fee out = Ok (snd (apply_program_operation X s o1 h))"
      by (rule apply_program_operation_True)
    from program_act_step [OF act] have "st_chain_id s2 = st_chain_id s1" by (auto simp: with_programs_def)
    moreover have "st_chain_id (snd (apply_program_operation X s o1 h)) = st_chain_id s2"
      using charge by (rule program_charge_Ok) simp
    ultimately show ?thesis by (simp add: program_authorize_Ok(8) [OF auth])
  qed (simp add: apply_program_operation_else)
  then show ?thesis by (simp add: LProgram ledger_apply_def)
qed (use transaction_frame [of X s] credit_frame [of s] swap_frame [of X s] reserve_frame [of X s]
    asset_frame [of s] token_frame [of X s] in \<open>simp_all add: ledger_apply_def\<close>)

text \<open>
  C2. A transfer other than the devnet faucet's is spent for good: once it has been applied, no later
  sequence of operations of any lane brings the ledger into a state that accepts the same signed
  transfer again. The faucet's can be replayed (\<open>faucet_transfer_replayable\<close>).
\<close>

theorem transfer_never_applies_again:
  assumes "apply_transaction X s tx = (Ok i, s')"
    and "\<not> is_faucet_transaction X s (tx_unsigned tx)"
  shows "fst (apply_transaction X (foldl (ledger_apply X) s' ops) tx) \<noteq> Ok j"
proof
  let ?u = "tx_unsigned tx" and ?t = "foldl (ledger_apply X) s' ops"
  assume ok: "fst (apply_transaction X ?t tx) = Ok j"
  obtain sb rb nn fp where v: "validate_transaction X s tx = Ok i"
    and nn: "unat nn = unat (nonce_of s (utx_from ?u)) + 1" and s': "s' = transferred s ?u sb rb nn fp"
    using assms by (rule apply_transaction_Ok)
  have old: "utx_nonce ?u = nonce_of s (utx_from ?u)"
    using validate_transaction_Ok(9,10) [OF v] assms(2) by blast
  have grow: "nonce_of t c \<le> nonce_of (foldl (ledger_apply X) t ops) c" for t c
    by (induction ops arbitrary: t) (auto intro: order.trans [OF ledger_nonce_mono])
  have chain: "st_chain_id (foldl (ledger_apply X) t ops) = st_chain_id t" for t
    by (induction ops arbitrary: t) (simp_all add: ledger_chain_id)
  have "nonce_of s' (utx_from ?u) = nn" unfolding s' transferred_def nonce_of_def by simp
  then have "nonce_of s (utx_from ?u) < nonce_of ?t (utx_from ?u)"
    using grow [of s' "utx_from ?u"] nn by (simp add: word_le_nat_alt word_less_nat_alt)
  moreover obtain k where vt: "validate_transaction X ?t tx = Ok k"
    using ok by (cases "validate_transaction X ?t tx") (auto simp: apply_transaction_def)
  moreover have "\<not> is_faucet_transaction X ?t ?u"
    using assms(2) chain [of s'] by (simp add: is_faucet_transaction_def s' transferred_def)
  ultimately show False
    using validate_transaction_Ok(9,10) [OF vt] old by auto
qed

theorem transfer_never_applies_again_witness:
  "\<exists>s'. balance_of s' (toy_address 46) = 68 \<and>
     fst (apply_transaction toy_state_ext (foldl (ledger_apply toy_state_ext) s'
       [LCredit (toy_address 46) 1000, LTransaction toy_faucet_transfer]) (toy_transfer toy_key)) \<noteq> Ok HASH_ZERO"
  using toy_apply transfer_never_applies_again [OF _ toy_faucet(1)] by blast

end
