(* ===== verification/Storage.thy ===== *)
theory Storage
  imports Ledger
begin

text \<open>
  \<open>crates/wsc-storage/src/lib.rs\<close>: the block store. The embedded database is the crate \<open>sled\<close>: a
  state of type \<open>'db\<close> with reads, writes and a flush that can each fail, fields of \<open>storage_ext\<close>
  with the Postcard decoders. Every method that writes returns its result with the database it
  leaves, so a write that fails half-way is visible.
\<close>

section \<open>The database\<close>

datatype tree = TBlocks | THeights | TTransactions | TState | TMeta

record legacy_block =
  lb_header :: block_header
  lb_transactions :: "transaction list"

record pre_program_block = legacy_block +
  lb_asset_operations :: "asset_operation list"
  lb_token_operations :: "token_operation list"
  lb_mna_swap_operations :: "mna_swap_operation list"
  lb_mna_reserve_operations :: "mna_reserve_operation list"

record 'db storage_ext = state_ext +
  x_db_get :: "'db \<Rightarrow> tree \<Rightarrow> bytes \<Rightarrow> string + bytes option"
  x_db_insert :: "'db \<Rightarrow> tree \<Rightarrow> bytes \<Rightarrow> bytes \<Rightarrow> (string + unit) \<times> 'db"
  x_db_flush :: "'db \<Rightarrow> string + unit"
  x_enc_block :: "block \<Rightarrow> encoding_error + bytes"
  x_dec_block :: "bytes \<Rightarrow> encoding_error + block"
  x_dec_pre_program_block :: "bytes \<Rightarrow> encoding_error + pre_program_block"
  x_dec_legacy_block :: "bytes \<Rightarrow> encoding_error + legacy_block"
  x_enc_signed_transaction :: "transaction \<Rightarrow> encoding_error + bytes"
  x_dec_signed_transaction :: "bytes \<Rightarrow> encoding_error + transaction"
  x_dec_snapshot :: "bytes \<Rightarrow> encoding_error + state_snapshot"
  x_dec_pre_program :: "bytes \<Rightarrow> encoding_error + pre_program_state_snapshot"
  x_dec_legacy_asset :: "bytes \<Rightarrow> encoding_error + legacy_asset_state_snapshot"
  x_dec_legacy :: "bytes \<Rightarrow> encoding_error + legacy_state_snapshot"

datatype storage_error = Database string | StEncoding string | Missing | Corrupt | ChainIdMismatch | GenesisMismatch

fun storage_error_string :: "storage_error \<Rightarrow> string" where
  "storage_error_string (Database e) = ''database error: '' @ e"
| "storage_error_string (StEncoding e) = ''encoding error: '' @ e"
| "storage_error_string Missing = ''stored value is missing''"
| "storage_error_string Corrupt = ''stored value is corrupt''"
| "storage_error_string ChainIdMismatch = ''chain ID does not match stored chain''"
| "storage_error_string GenesisMismatch = ''genesis hash does not match stored chain''"

definition db_get :: "('db, 'a) storage_ext_scheme \<Rightarrow> 'db \<Rightarrow> tree \<Rightarrow> bytes \<Rightarrow> storage_error + bytes option" where
  "db_get X db t k = map_err Database (x_db_get X db t k)"

definition db_insert ::
    "('db, 'a) storage_ext_scheme \<Rightarrow> 'db \<Rightarrow> tree \<Rightarrow> bytes \<Rightarrow> bytes \<Rightarrow> (storage_error + unit) \<times> 'db" where
  "db_insert X db t k v = (case x_db_insert X db t k v of (r, db') \<Rightarrow> (map_err Database r, db'))"

definition db_flush :: "('db, 'a) storage_ext_scheme \<Rightarrow> 'db \<Rightarrow> (storage_error + unit) \<times> 'db" where
  "db_flush X db = (map_err Database (x_db_flush X db), db)"

definition META_CHAIN_ID :: bytes where "META_CHAIN_ID = str_bytes ''chain_id''"
definition META_GENESIS_HASH :: bytes where "META_GENESIS_HASH = str_bytes ''genesis_hash''"
definition META_LATEST_HEIGHT :: bytes where "META_LATEST_HEIGHT = str_bytes ''latest_height''"
definition META_LATEST_HASH :: bytes where "META_LATEST_HASH = str_bytes ''latest_hash''"
definition META_FINALIZED_HEIGHT :: bytes where "META_FINALIZED_HEIGHT = str_bytes ''finalized_height''"
definition META_FINALIZED_HASH :: bytes where "META_FINALIZED_HASH = str_bytes ''finalized_hash''"
definition STATE_LATEST :: bytes where "STATE_LATEST = str_bytes ''latest''"

section \<open>Decoding\<close>

definition height_key :: "u64 \<Rightarrow> bytes" where
  "height_key height = to_be_bytes height"

definition decode_hash :: "bytes \<Rightarrow> storage_error + hash" where
  "decode_hash value = (if length value \<noteq> 32 then Err Corrupt else Ok (Hash value))"

definition block_of_legacy :: "legacy_block \<Rightarrow> block" where
  "block_of_legacy b =
     \<lparr>blk_header = lb_header b, blk_transactions = lb_transactions b, blk_asset_operations = [],
      blk_token_operations = [], blk_mna_swap_operations = [], blk_mna_reserve_operations = [],
      blk_program_operations = []\<rparr>"

definition block_of_pre_program :: "pre_program_block \<Rightarrow> block" where
  "block_of_pre_program b =
     \<lparr>blk_header = lb_header b, blk_transactions = lb_transactions b,
      blk_asset_operations = lb_asset_operations b, blk_token_operations = lb_token_operations b,
      blk_mna_swap_operations = lb_mna_swap_operations b,
      blk_mna_reserve_operations = lb_mna_reserve_operations b, blk_program_operations = []\<rparr>"

definition decode_block :: "('db, 'a) storage_ext_scheme \<Rightarrow> bytes \<Rightarrow> storage_error + block" where
  "decode_block X value =
     (case x_dec_block X value of
        Inr b \<Rightarrow> Ok b
      | Inl _ \<Rightarrow>
          (case x_dec_pre_program_block X value of
             Inr b \<Rightarrow> Ok (block_of_pre_program b)
           | Inl _ \<Rightarrow>
               (case x_dec_legacy_block X value of
                  Inr b \<Rightarrow> Ok (block_of_legacy b)
                | Inl _ \<Rightarrow> Err Corrupt)))"

definition snapshot_of_pre_program :: "pre_program_state_snapshot \<Rightarrow> state_snapshot" where
  "snapshot_of_pre_program s = pre_program_state_snapshot.extend s
     (state_snapshot.fields bt_empty bt_empty bt_empty)"

definition snapshot_of_legacy_asset :: "legacy_asset_state_snapshot \<Rightarrow> state_snapshot" where
  "snapshot_of_legacy_asset s = snapshot_of_pre_program (legacy_asset_state_snapshot.extend s
     (pre_program_state_snapshot.fields bt_empty bt_empty bt_empty bt_empty default_reserve_ledger
        bt_empty bt_empty bt_empty bt_empty))"

definition snapshot_of_legacy :: "legacy_state_snapshot \<Rightarrow> state_snapshot" where
  "snapshot_of_legacy s = snapshot_of_legacy_asset (legacy_state_snapshot.extend s
     (legacy_asset_state_snapshot.fields bt_empty bt_empty bt_empty))"

definition decode_state :: "('db, 'a) storage_ext_scheme \<Rightarrow> bytes \<Rightarrow> storage_error + state_snapshot" where
  "decode_state X value =
     (case x_dec_snapshot X value of
        Inr s \<Rightarrow> Ok s
      | Inl _ \<Rightarrow>
          (case x_dec_pre_program X value of
             Inr s \<Rightarrow> Ok (snapshot_of_pre_program s)
           | Inl _ \<Rightarrow>
               (case x_dec_legacy_asset X value of
                  Inr s \<Rightarrow> Ok (snapshot_of_legacy_asset s)
                | Inl _ \<Rightarrow>
                    (case x_dec_legacy X value of
                       Inr s \<Rightarrow> Ok (snapshot_of_legacy s)
                     | Inl _ \<Rightarrow> Err Corrupt))))"

section \<open>Reading\<close>

definition db_require :: "('db, 'a) storage_ext_scheme \<Rightarrow> 'db \<Rightarrow> tree \<Rightarrow> bytes \<Rightarrow> storage_error + bytes" where
  "db_require X db t k =
     (case db_get X db t k of
        Inl e \<Rightarrow> Err e
      | Inr v \<Rightarrow> ok_or v Missing)"

definition store_chain_id :: "('db, 'a) storage_ext_scheme \<Rightarrow> 'db \<Rightarrow> storage_error + string" where
  "store_chain_id X db =
     (case db_require X db TMeta META_CHAIN_ID of
        Inl e \<Rightarrow> Err e
      | Inr v \<Rightarrow> if utf8_ok (map unat v) then Ok (bytes_str v) else Err Corrupt)"

definition store_genesis_hash :: "('db, 'a) storage_ext_scheme \<Rightarrow> 'db \<Rightarrow> storage_error + hash" where
  "store_genesis_hash X db =
     (case db_require X db TMeta META_GENESIS_HASH of Inl e \<Rightarrow> Err e | Inr v \<Rightarrow> decode_hash v)"

definition decode_height :: "bytes \<Rightarrow> storage_error + u64" where
  "decode_height value = (if length value \<noteq> 8 then Err Corrupt else Ok (from_be_bytes value))"

definition latest_height :: "('db, 'a) storage_ext_scheme \<Rightarrow> 'db \<Rightarrow> storage_error + u64" where
  "latest_height X db =
     (case db_require X db TMeta META_LATEST_HEIGHT of Inl e \<Rightarrow> Err e | Inr v \<Rightarrow> decode_height v)"

definition latest_hash :: "('db, 'a) storage_ext_scheme \<Rightarrow> 'db \<Rightarrow> storage_error + hash" where
  "latest_hash X db =
     (case db_require X db TMeta META_LATEST_HASH of Inl e \<Rightarrow> Err e | Inr v \<Rightarrow> decode_hash v)"

definition finalized_height :: "('db, 'a) storage_ext_scheme \<Rightarrow> 'db \<Rightarrow> storage_error + u64" where
  "finalized_height X db =
     (case db_require X db TMeta META_FINALIZED_HEIGHT of Inl e \<Rightarrow> Err e | Inr v \<Rightarrow> decode_height v)"

definition finalized_hash :: "('db, 'a) storage_ext_scheme \<Rightarrow> 'db \<Rightarrow> storage_error + hash" where
  "finalized_hash X db =
     (case db_require X db TMeta META_FINALIZED_HASH of Inl e \<Rightarrow> Err e | Inr v \<Rightarrow> decode_hash v)"

definition get_block :: "('db, 'a) storage_ext_scheme \<Rightarrow> 'db \<Rightarrow> hash \<Rightarrow> storage_error + block" where
  "get_block X db h =
     (case db_require X db TBlocks (hash_bytes h) of Inl e \<Rightarrow> Err e | Inr v \<Rightarrow> decode_block X v)"

definition latest_block :: "('db, 'a) storage_ext_scheme \<Rightarrow> 'db \<Rightarrow> storage_error + block" where
  "latest_block X db = (case latest_hash X db of Inl e \<Rightarrow> Err e | Inr h \<Rightarrow> get_block X db h)"

definition get_block_by_height :: "('db, 'a) storage_ext_scheme \<Rightarrow> 'db \<Rightarrow> u64 \<Rightarrow> storage_error + block" where
  "get_block_by_height X db height =
     (case db_require X db THeights (height_key height) of
        Inl e \<Rightarrow> Err e
      | Inr v \<Rightarrow> (case decode_hash v of Inl e \<Rightarrow> Err e | Inr h \<Rightarrow> get_block X db h))"

definition get_transaction :: "('db, 'a) storage_ext_scheme \<Rightarrow> 'db \<Rightarrow> hash \<Rightarrow> storage_error + transaction" where
  "get_transaction X db h =
     (case db_require X db TTransactions (hash_bytes h) of
        Inl e \<Rightarrow> Err e
      | Inr v \<Rightarrow> map_err (\<lambda>_. Corrupt) (x_dec_signed_transaction X v))"

definition latest_state :: "('db, 'a) storage_ext_scheme \<Rightarrow> 'db \<Rightarrow> storage_error + state_snapshot" where
  "latest_state X db =
     (case db_require X db TState STATE_LATEST of Inl e \<Rightarrow> Err e | Inr v \<Rightarrow> decode_state X v)"

definition is_initialized :: "('db, 'a) storage_ext_scheme \<Rightarrow> 'db \<Rightarrow> storage_error + bool" where
  "is_initialized X db =
     (case db_get X db TMeta META_CHAIN_ID of Inl e \<Rightarrow> Err e | Inr v \<Rightarrow> Ok (v \<noteq> None))"

section \<open>Writing\<close>

fun commit_transactions ::
    "('db, 'a) storage_ext_scheme \<Rightarrow> 'db \<Rightarrow> transaction list \<Rightarrow> (storage_error + unit) \<times> 'db" where
  "commit_transactions X db [] = (Ok (), db)"
| "commit_transactions X db (tx # txs) =
     (case transaction_id X tx of
        Inl e \<Rightarrow> (Err (StEncoding (crypto_error_string e)), db)
      | Inr h \<Rightarrow>
          (case x_enc_signed_transaction X tx of
             Inl e \<Rightarrow> (Err (StEncoding (encoding_error_string e)), db)
           | Inr bs \<Rightarrow>
               try_then (db_insert X db TTransactions (hash_bytes h) bs)
                 (\<lambda>_ db. commit_transactions X db txs)))"

definition store_commit ::
    "('db, 'a) storage_ext_scheme \<Rightarrow> 'db \<Rightarrow> hash \<Rightarrow> block \<Rightarrow> state_snapshot \<Rightarrow> (storage_error + unit) \<times> 'db" where
  "store_commit X db h block snap =
     (case x_enc_block X block of
        Inl e \<Rightarrow> (Err (StEncoding (encoding_error_string e)), db)
      | Inr block_bytes \<Rightarrow>
          (case x_enc_snapshot X snap of
             Inl e \<Rightarrow> (Err (StEncoding (encoding_error_string e)), db)
           | Inr state_bytes \<Rightarrow>
               try_then (db_insert X db TBlocks (hash_bytes h) block_bytes) (\<lambda>_ db.
               try_then (db_insert X db THeights (height_key (bh_height (blk_header block))) (hash_bytes h)) (\<lambda>_ db.
               try_then (db_insert X db TState STATE_LATEST state_bytes) (\<lambda>_ db.
               try_then (commit_transactions X db (blk_transactions block)) (\<lambda>_ db.
               try_then (db_insert X db TMeta META_LATEST_HEIGHT (to_be_bytes (bh_height (blk_header block)))) (\<lambda>_ db.
               try_then (db_insert X db TMeta META_LATEST_HASH (hash_bytes h)) (\<lambda>_ db.
               db_flush X db))))))))"

definition mark_finalized ::
    "('db, 'a) storage_ext_scheme \<Rightarrow> 'db \<Rightarrow> u64 \<Rightarrow> hash \<Rightarrow> (storage_error + unit) \<times> 'db" where
  "mark_finalized X db height h =
     (case get_block X db h of
        Inl e \<Rightarrow> (Err e, db)
      | Inr block \<Rightarrow>
          if bh_height (blk_header block) \<noteq> height then (Err Corrupt, db)
          else case finalized_height X db of
            Inl e \<Rightarrow> (Err e, db)
          | Inr current \<Rightarrow>
              if height < current then (Ok (), db)
              else
                try_then (db_insert X db TMeta META_FINALIZED_HEIGHT (to_be_bytes height)) (\<lambda>_ db.
                try_then (db_insert X db TMeta META_FINALIZED_HASH (hash_bytes h)) (\<lambda>_ db.
                db_flush X db)))"

text \<open>The two branches of \<open>ensure_genesis\<close>: the chain is there already, or it is written now.\<close>

definition check_stored_genesis ::
    "('db, 'a) storage_ext_scheme \<Rightarrow> 'db \<Rightarrow> bytes \<Rightarrow> genesis_config \<Rightarrow> hash \<Rightarrow> (storage_error + hash) \<times> 'db" where
  "check_stored_genesis X db chain_id genesis block_hash =
     (if \<not> utf8_ok (map unat chain_id) then (Err Corrupt, db)
      else if bytes_str chain_id \<noteq> gen_chain_id genesis then (Err ChainIdMismatch, db)
      else case db_get X db TMeta META_GENESIS_HASH of
        Inl e \<Rightarrow> (Err e, db)
      | Inr None \<Rightarrow> (Err Corrupt, db)
      | Inr (Some stored_hash) \<Rightarrow>
          if stored_hash \<noteq> hash_bytes block_hash then (Err GenesisMismatch, db)
          else case db_get X db TMeta META_FINALIZED_HEIGHT of
            Inl e \<Rightarrow> (Err e, db)
          | Inr (Some _) \<Rightarrow> (Ok block_hash, db)
          | Inr None \<Rightarrow>
              try_then (db_insert X db TMeta META_FINALIZED_HEIGHT (to_be_bytes (0 :: u64))) (\<lambda>_ db.
              try_then (db_insert X db TMeta META_FINALIZED_HASH (hash_bytes block_hash)) (\<lambda>_ db.
              try_then (db_flush X db) (\<lambda>_ db. (Ok block_hash, db)))))"

definition write_genesis ::
    "('db, 'a) storage_ext_scheme \<Rightarrow> 'db \<Rightarrow> genesis_config \<Rightarrow> hash \<Rightarrow> block \<Rightarrow> state_snapshot \<Rightarrow>
     (storage_error + hash) \<times> 'db" where
  "write_genesis X db genesis block_hash genesis_block genesis_state =
     try_then (db_insert X db TMeta META_CHAIN_ID (str_bytes (gen_chain_id genesis))) (\<lambda>_ db.
     try_then (db_insert X db TMeta META_GENESIS_HASH (hash_bytes block_hash)) (\<lambda>_ db.
     try_then (db_insert X db TMeta META_FINALIZED_HEIGHT (to_be_bytes (0 :: u64))) (\<lambda>_ db.
     try_then (db_insert X db TMeta META_FINALIZED_HASH (hash_bytes block_hash)) (\<lambda>_ db.
     try_then (store_commit X db block_hash genesis_block genesis_state) (\<lambda>_ db.
     try_then (db_flush X db) (\<lambda>_ db. (Ok block_hash, db)))))))"

definition ensure_genesis ::
    "('db, 'a) storage_ext_scheme \<Rightarrow> 'db \<Rightarrow> genesis_config \<Rightarrow> block \<Rightarrow> state_snapshot \<Rightarrow>
     (storage_error + hash) \<times> 'db" where
  "ensure_genesis X db genesis genesis_block genesis_state =
     (case block_header_id X (blk_header genesis_block) of
        Inl e \<Rightarrow> (Err (StEncoding (crypto_error_string e)), db)
      | Inr block_hash \<Rightarrow>
          (case db_get X db TMeta META_CHAIN_ID of
             Inl e \<Rightarrow> (Err e, db)
           | Inr (Some chain_id) \<Rightarrow> check_stored_genesis X db chain_id genesis block_hash
           | Inr None \<Rightarrow> write_genesis X db genesis block_hash genesis_block genesis_state))"

section \<open>What the store promises\<close>

text \<open>
  The documented behaviour of \<open>sled\<close> that the store relies on: after an insert that succeeded, the
  tree reads the new value at that key, and every other key of every tree reads as before.
\<close>

definition sled_ok :: "('db, 'a) storage_ext_scheme \<Rightarrow> bool" where
  "sled_ok X =
     (\<forall>db t k v db'. x_db_insert X db t k v = (Inr (), db') \<longrightarrow>
        (\<forall>t' k'. x_db_get X db' t' k' = (if t' = t \<and> k' = k then Inr (Some v) else x_db_get X db t' k')))"

text \<open>The decoders read back what the encoders write.\<close>

definition codecs_ok :: "('db, 'a) storage_ext_scheme \<Rightarrow> bool" where
  "codecs_ok X =
     ((\<forall>b bs. x_enc_block X b = Inr bs \<longrightarrow> x_dec_block X bs = Inr b) \<and>
      (\<forall>s bs. x_enc_snapshot X s = Inr bs \<longrightarrow> x_dec_snapshot X bs = Inr s) \<and>
      (\<forall>t bs. x_enc_signed_transaction X t = Inr bs \<longrightarrow> x_dec_signed_transaction X bs = Inr t))"

definition store_laws :: "('db, 'a) storage_ext_scheme \<Rightarrow> bool" where
  "store_laws X = (sled_ok X \<and> codecs_ok X)"

lemma try_then_Ok: "try_then r f = (Ok y, s') \<longleftrightarrow> (\<exists>a s. r = (Ok a, s) \<and> f a s = (Ok y, s'))"
  by (cases r; cases "fst r") (auto simp: try_then_def)

lemma db_insert_Ok: "db_insert X db t k v = (Ok u, db') \<longleftrightarrow> x_db_insert X db t k v = (Inr u, db')"
  by (cases "x_db_insert X db t k v") (auto simp: db_insert_def)

lemma db_flush_Ok: "db_flush X db = (Ok u, db') \<longleftrightarrow> x_db_flush X db = Inr u \<and> db' = db"
  by (auto simp: db_flush_def)

lemma db_get_insert:
  "sled_ok X \<Longrightarrow> db_insert X db t k v = (Ok u, db') \<Longrightarrow>
    db_get X db' t' k' = (if t' = t \<and> k' = k then Ok (Some v) else db_get X db t' k')"
  by (cases u) (simp add: db_insert_Ok sled_ok_def db_get_def)

lemma db_require_insert:
  "sled_ok X \<Longrightarrow> db_insert X db t k v = (Ok u, db') \<Longrightarrow>
    db_require X db' t' k' = (if t' = t \<and> k' = k then Ok v else db_require X db t' k')"
  by (simp add: db_require_def db_get_insert ok_or_def)

lemma str_bytes_inj [simp]: "str_bytes a = str_bytes b \<longleftrightarrow> a = b"
  by (metis bytes_str_bytes)

lemmas meta_key_defs = META_CHAIN_ID_def META_GENESIS_HASH_def META_LATEST_HEIGHT_def META_LATEST_HASH_def
  META_FINALIZED_HEIGHT_def META_FINALIZED_HASH_def

lemma latest_keys_neq [simp]: "META_LATEST_HASH \<noteq> META_LATEST_HEIGHT" "META_LATEST_HEIGHT \<noteq> META_LATEST_HASH"
  by (simp_all add: meta_key_defs)

lemma height_key_inj [simp]: "height_key a = height_key b \<longleftrightarrow> a = b"
proof -
  have "from_be_bytes (height_key h) = h" for h :: u64
    unfolding height_key_def by (rule from_to_be_bytes) simp
  then show ?thesis by metis
qed

lemma commit_transactions_frame:
  "sled_ok X \<Longrightarrow> commit_transactions X db txs = (Ok u, db') \<Longrightarrow> t \<noteq> TTransactions \<Longrightarrow>
    db_get X db' t k = db_get X db t k"
proof (induction X db txs rule: commit_transactions.induct)
  case (2 X db tx txs)
  then obtain h bs d where "transaction_id X tx = Ok h" "x_enc_signed_transaction X tx = Ok bs"
    "db_insert X db TTransactions (hash_bytes h) bs = (Ok (), d)"
    "commit_transactions X d txs = (Ok u, db')"
    by (auto simp: try_then_Ok split: sum.splits)
  with 2 show ?case by (simp add: db_get_insert)
qed simp


text \<open>
  What a successful commit leaves in the database, key by key. The transactions tree apart, only the
  five keys that the block and its height name have changed.
\<close>

lemma store_commit_Ok:
  assumes "sled_ok X" and "store_commit X db h b s = (Ok u, db')"
  obtains bb sb where "x_enc_block X b = Inr bb" and "x_enc_snapshot X s = Inr sb"
    and "\<And>t k. t \<noteq> TTransactions \<Longrightarrow> db_require X db' t k =
      (if t = TBlocks \<and> k = hash_bytes h then Ok bb
       else if t = THeights \<and> k = height_key (bh_height (blk_header b)) then Ok (hash_bytes h)
       else if t = TState \<and> k = STATE_LATEST then Ok sb
       else if t = TMeta \<and> k = META_LATEST_HEIGHT then Ok (to_be_bytes (bh_height (blk_header b)))
       else if t = TMeta \<and> k = META_LATEST_HASH then Ok (hash_bytes h)
       else db_require X db t k)"
proof -
  let ?n = "bh_height (blk_header b)"
  obtain bb sb d1 d2 d3 d4 d5 d6 where enc: "x_enc_block X b = Inr bb" "x_enc_snapshot X s = Inr sb"
    and steps: "db_insert X db TBlocks (hash_bytes h) bb = (Ok (), d1)"
      "db_insert X d1 THeights (height_key ?n) (hash_bytes h) = (Ok (), d2)"
      "db_insert X d2 TState STATE_LATEST sb = (Ok (), d3)"
      "db_insert X d4 TMeta META_LATEST_HEIGHT (to_be_bytes ?n) = (Ok (), d5)"
      "db_insert X d5 TMeta META_LATEST_HASH (hash_bytes h) = (Ok (), d6)" "db' = d6"
    and txs: "commit_transactions X d3 (blk_transactions b) = (Ok (), d4)"
    using assms(2) by (auto simp: store_commit_def try_then_Ok db_flush_Ok split: sum.splits)
  have mid: "t \<noteq> TTransactions \<Longrightarrow> db_require X d4 t k = db_require X d3 t k" for t k
    by (simp add: db_require_def commit_transactions_frame [OF assms(1) txs])
  show thesis
    using steps(6) by (intro that [OF enc]) (auto simp: mid
        db_require_insert [OF assms(1) steps(5)] db_require_insert [OF assms(1) steps(4)]
        db_require_insert [OF assms(1) steps(3)] db_require_insert [OF assms(1) steps(2)]
        db_require_insert [OF assms(1) steps(1)])
qed

lemma decode_hash_wf [simp]: "wf_hash h \<Longrightarrow> decode_hash (hash_bytes h) = Ok h"
  by (simp add: decode_hash_def wf_hash_def)

lemma decode_height_key [simp]: "decode_height (to_be_bytes n) = Ok n"
  by (simp add: decode_height_def from_to_be_bytes)

lemma decode_block_enc: "codecs_ok X \<Longrightarrow> x_enc_block X b = Inr bb \<Longrightarrow> decode_block X bb = Ok b"
  by (simp add: codecs_ok_def decode_block_def)

lemma decode_state_enc: "codecs_ok X \<Longrightarrow> x_enc_snapshot X s = Inr sb \<Longrightarrow> decode_state X sb = Ok s"
  by (simp add: codecs_ok_def decode_state_def)

lemma commit_get_block:
  "store_laws X \<Longrightarrow> store_commit X db h b s = (Ok u, db') \<Longrightarrow>
    get_block X db' h' = (if h' = h then Ok b else get_block X db h')"
  by (auto simp: store_laws_def get_block_def decode_block_enc hash.expand elim!: store_commit_Ok)

lemma commit_get_block_by_height:
  "store_laws X \<Longrightarrow> wf_hash h \<Longrightarrow> store_commit X db h b s = (Ok u, db') \<Longrightarrow>
    get_block_by_height X db' (bh_height (blk_header b)) = Ok b"
  by (auto simp: store_laws_def get_block_by_height_def get_block_def decode_block_enc elim!: store_commit_Ok)

lemma commit_latest:
  assumes "store_laws X" and "wf_hash h" and "store_commit X db h b s = (Ok u, db')"
  shows "latest_block X db' = Ok b" and "latest_height X db' = Ok (bh_height (blk_header b))"
    and "latest_hash X db' = Ok h" and "latest_state X db' = Ok s"
  using assms by (auto simp: store_laws_def latest_block_def latest_hash_def latest_height_def latest_state_def
      get_block_def decode_block_enc decode_state_enc elim!: store_commit_Ok)

lemma commit_meta:
  assumes "sled_ok X" and "store_commit X db h b s = (Ok u, db')"
    and "k \<noteq> META_LATEST_HEIGHT" and "k \<noteq> META_LATEST_HASH"
  shows "db_require X db' TMeta k = db_require X db TMeta k"
  using assms(1,2) by (rule store_commit_Ok) (use assms(3,4) in simp)

lemma commit_finalized:
  assumes "sled_ok X" and "store_commit X db h b s = (Ok u, db')"
  shows "finalized_height X db' = finalized_height X db" and "finalized_hash X db' = finalized_hash X db"
    and "store_chain_id X db' = store_chain_id X db" and "store_genesis_hash X db' = store_genesis_hash X db"
  by (simp_all add: finalized_height_def finalized_hash_def store_chain_id_def store_genesis_hash_def
      commit_meta [OF assms] meta_key_defs)


lemma commit_keeps_height:
  assumes "store_laws X" and "store_commit X db h b s = (Ok u, db')" and "\<not> is_ok (get_block X db h)"
    and "n \<noteq> bh_height (blk_header b)" and "get_block_by_height X db n = Ok b'"
  shows "get_block_by_height X db' n = Ok b'"
proof -
  obtain v h' where v: "db_require X db THeights (height_key n) = Ok v" "decode_hash v = Ok h'"
    and get: "get_block X db h' = Ok b'"
    using assms(5) by (auto simp: get_block_by_height_def split: sum.splits)
  then have "h' \<noteq> h" using assms(3) by auto
  then have "get_block X db' h' = Ok b'" using commit_get_block [OF assms(1,2)] get by simp
  moreover have "db_require X db' THeights (height_key n) = Ok v"
    using assms(1,4) v(1) unfolding store_laws_def
    by (auto elim!: store_commit_Ok [OF _ assms(2)])
  ultimately show ?thesis using v(2) by (simp add: get_block_by_height_def)
qed

section \<open>The contract of a block store\<close>

text \<open>
  What the node relies on when it restarts: the operations it calls, the laws of one commit, and
  from them the fate of a whole sequence of commits.
\<close>

fun commit_all ::
    "('db \<Rightarrow> hash \<Rightarrow> 'b \<Rightarrow> 's \<Rightarrow> ('e + unit) \<times> 'db) \<Rightarrow> 'db \<Rightarrow> (hash \<times> 'b \<times> 's) list \<Rightarrow> ('e + unit) \<times> 'db" where
  "commit_all commit db [] = (Ok (), db)"
| "commit_all commit db ((h, b, s) # cs) = try_then (commit db h b s) (\<lambda>_ db. commit_all commit db cs)"

locale block_store =
  fixes legit :: "hash \<Rightarrow> bool"
    and commit :: "'db \<Rightarrow> hash \<Rightarrow> 'b \<Rightarrow> 's \<Rightarrow> ('e + unit) \<times> 'db"
    and get :: "'db \<Rightarrow> hash \<Rightarrow> 'e + 'b"
    and by_height :: "'db \<Rightarrow> u64 \<Rightarrow> 'e + 'b"
    and tip :: "'db \<Rightarrow> 'e + 'b"
    and tip_state :: "'db \<Rightarrow> 'e + 's"
    and height :: "'b \<Rightarrow> u64"
  assumes get_commit: "legit h \<Longrightarrow> commit db h b s = (Ok (), db') \<Longrightarrow>
      get db' h' = (if h' = h then Ok b else get db h')"
    and by_height_commit: "legit h \<Longrightarrow> commit db h b s = (Ok (), db') \<Longrightarrow> by_height db' (height b) = Ok b"
    and by_height_kept: "legit h \<Longrightarrow> commit db h b s = (Ok (), db') \<Longrightarrow> \<not> is_ok (get db h) \<Longrightarrow>
      n \<noteq> height b \<Longrightarrow> by_height db n = Ok b' \<Longrightarrow> by_height db' n = Ok b'"
    and tip_commit: "legit h \<Longrightarrow> commit db h b s = (Ok (), db') \<Longrightarrow> tip db' = Ok b \<and> tip_state db' = Ok s"
begin

text \<open>Commits of new blocks at new heights keep what was stored.\<close>

lemma chain_kept:
  "commit_all commit db cs = (Ok (), db') \<Longrightarrow> \<forall>c \<in> set cs. legit (fst c) \<and> \<not> is_ok (get db (fst c)) \<Longrightarrow>
   distinct (map fst cs) \<Longrightarrow>
   (h \<notin> fst ` set cs \<longrightarrow> get db' h = get db h) \<and>
   (\<forall>b. n \<notin> (\<lambda>c. height (fst (snd c))) ` set cs \<longrightarrow> by_height db n = Ok b \<longrightarrow> by_height db' n = Ok b)"
proof (induction cs arbitrary: db)
  case (Cons c cs)
  obtain h1 b1 s1 d where c: "c = (h1, b1, s1)" and run: "commit db h1 b1 s1 = (Ok (), d)"
    and rest: "commit_all commit d cs = (Ok (), db')"
    using Cons.prems(1) by (cases c) (auto simp: try_then_Ok)
  have lh: "legit h1" "\<not> is_ok (get db h1)" using Cons.prems(2) by (auto simp: c)
  have "\<forall>c \<in> set cs. legit (fst c) \<and> \<not> is_ok (get d (fst c))"
    using Cons.prems(2,3) get_commit [OF lh(1) run] by (auto simp: c)
  note IH = Cons.IH [OF rest this]
  show ?case
    using IH Cons.prems(3) get_commit [OF lh(1) run, of h] by_height_kept [OF lh(1) run lh(2), of n] by (auto simp: c)
qed simp

lemma chain_readable:
  "commit_all commit db cs = (Ok (), db') \<Longrightarrow> \<forall>c \<in> set cs. legit (fst c) \<and> \<not> is_ok (get db (fst c)) \<Longrightarrow>
   distinct (map fst cs) \<Longrightarrow> distinct (map (\<lambda>c. height (fst (snd c))) cs) \<Longrightarrow>
   \<forall>(h, b, s) \<in> set cs. get db' h = Ok b \<and> by_height db' (height b) = Ok b"
proof (induction cs arbitrary: db)
  case (Cons c cs)
  obtain h1 b1 s1 d where c: "c = (h1, b1, s1)" and run: "commit db h1 b1 s1 = (Ok (), d)"
    and rest: "commit_all commit d cs = (Ok (), db')"
    using Cons.prems(1) by (cases c) (auto simp: try_then_Ok)
  have lh: "legit h1" "\<not> is_ok (get db h1)" using Cons.prems(2) by (auto simp: c)
  have fresh: "\<forall>c \<in> set cs. legit (fst c) \<and> \<not> is_ok (get d (fst c))"
    using Cons.prems(2,3) get_commit [OF lh(1) run] by (auto simp: c)
  have "get db' h1 = Ok b1 \<and> by_height db' (height b1) = Ok b1"
    using chain_kept [OF rest fresh, of h1 "height b1"] Cons.prems(3,4) get_commit [OF lh(1) run, of h1]
      by_height_commit [OF lh(1) run] by (auto simp: c)
  then show ?case using Cons.IH [OF rest fresh] Cons.prems(3,4) by (simp add: c)
qed simp

lemma chain_tip:
  "commit_all commit db cs = (Ok (), db') \<Longrightarrow> \<forall>c \<in> set cs. legit (fst c) \<Longrightarrow> cs \<noteq> [] \<Longrightarrow>
   tip db' = Ok (fst (snd (last cs))) \<and> tip_state db' = Ok (snd (snd (last cs)))"
proof (induction cs arbitrary: db)
  case (Cons c cs)
  obtain h1 b1 s1 d where c: "c = (h1, b1, s1)" and run: "commit db h1 b1 s1 = (Ok (), d)"
    and rest: "commit_all commit d cs = (Ok (), db')"
    using Cons.prems(1) by (cases c) (auto simp: try_then_Ok)
  show ?case
    using Cons.IH [OF rest] Cons.prems(2) tip_commit [OF _ run] rest by (cases cs) (auto simp: c)
qed simp

end

interpretation chain_store: block_store "\<lambda>h. store_laws X \<and> wf_hash h" "store_commit X" "get_block X"
  "get_block_by_height X" "latest_block X" "latest_state X" "\<lambda>b. bh_height (blk_header b)" for X
proof unfold_locales
  fix h h' db b s db' n b'
  assume "store_laws X \<and> wf_hash h" and run: "store_commit X db h b s = (Ok (), db')"
  then have laws: "store_laws X" "wf_hash h" by auto
  show "get_block X db' h' = (if h' = h then Ok b else get_block X db h')"
    by (rule commit_get_block [OF laws(1) run])
  show "get_block_by_height X db' (bh_height (blk_header b)) = Ok b"
    by (rule commit_get_block_by_height [OF laws run])
  show "latest_block X db' = Ok b \<and> latest_state X db' = Ok s"
    using commit_latest [OF laws run] by blast
  show "get_block_by_height X db' n = Ok b'"
    if "\<not> is_ok (get_block X db h)" "n \<noteq> bh_height (blk_header b)" "get_block_by_height X db n = Ok b'"
    by (rule commit_keeps_height [OF laws(1) run that])
qed


text \<open>
  The store of the witnesses: a map per tree, an encoder that knows two blocks and two snapshots.
\<close>

type_synonym toy_db = "tree \<Rightarrow> bytes \<Rightarrow> bytes option"

definition toy_codec :: "'a \<Rightarrow> 'a \<Rightarrow> ('a \<Rightarrow> encoding_error + bytes) \<times> (bytes \<Rightarrow> encoding_error + 'a)" where
  "toy_codec x y =
     (\<lambda>z. if z = x then Inr [0] else if z = y then Inr [1, 1] else Inl (Encode ''unknown''),
      \<lambda>bs. if bs = [0] then Inr x else if bs = [1, 1] then Inr y else Inl (Decode ''unknown''))"

definition toy_storage_ext ::
    "block \<Rightarrow> block \<Rightarrow> state_snapshot \<Rightarrow> state_snapshot \<Rightarrow> transaction \<Rightarrow> toy_db storage_ext" where
  "toy_storage_ext b1 b2 s1 s2 tx = state_ext.extend toy_state_ext
     \<lparr>x_db_get = (\<lambda>db t k. Inr (db t k)), x_db_insert = (\<lambda>db t k v. (Inr (), db(t := (db t)(k \<mapsto> v)))),
      x_db_flush = (\<lambda>_. Inr ()), x_enc_block = fst (toy_codec b1 b2), x_dec_block = snd (toy_codec b1 b2),
      x_dec_pre_program_block = (\<lambda>_. Inl (Decode ''pre'')), x_dec_legacy_block = (\<lambda>_. Inl (Decode ''legacy'')),
      x_enc_signed_transaction = fst (toy_codec tx tx), x_dec_signed_transaction = snd (toy_codec tx tx),
      x_dec_snapshot = snd (toy_codec s1 s2), x_dec_pre_program = (\<lambda>_. Inl (Decode ''pre'')),
      x_dec_legacy_asset = (\<lambda>_. Inl (Decode ''asset'')), x_dec_legacy = (\<lambda>_. Inl (Decode ''legacy''))\<rparr>
     \<lparr>x_enc_snapshot := fst (toy_codec s1 s2)\<rparr>"

lemmas toy_storage_defs = toy_storage_ext_def state_ext.defs toy_state_ext_defs

lemma toy_codec_ok: "fst (toy_codec x y) z = Inr bs \<Longrightarrow> snd (toy_codec x y) bs = Inr z"
  by (auto simp: toy_codec_def split: if_splits)

lemma toy_store_laws: "store_laws (toy_storage_ext b1 b2 s1 s2 tx)"
  by (auto simp: store_laws_def sled_ok_def codecs_ok_def toy_codec_ok toy_storage_defs)

definition toy_header :: "u64 \<Rightarrow> block_header" where
  "toy_header n = \<lparr>bh_version = 1, bh_chain_id = CHAIN_ID, bh_height = n, bh_parent_hash = HASH_ZERO,
     bh_timestamp = 0, bh_transaction_root = HASH_ZERO, bh_state_root = HASH_ZERO, bh_proposer = None,
     bh_proposer_signature = None\<rparr>"

definition toy_block :: "u64 \<Rightarrow> block" where
  "toy_block n = \<lparr>blk_header = toy_header n, blk_transactions = [], blk_asset_operations = [],
     blk_token_operations = [], blk_mna_swap_operations = [], blk_mna_reserve_operations = [],
     blk_program_operations = []\<rparr>"

definition toy_store :: "toy_db storage_ext" where
  "toy_store = toy_storage_ext (toy_block 0) (toy_block 1) (snapshot toy_state) (snapshot toy_ledger) toy_faucet_transfer"

definition toy_hash :: "byte \<Rightarrow> hash" where
  "toy_hash n = Hash (replicate 32 n)"

lemma toy_hash_simps [simp]: "wf_hash (toy_hash n)" "toy_hash a = toy_hash b \<longleftrightarrow> a = b"
  by (auto simp: toy_hash_def wf_hash_def)

lemma toy_block_height [simp]: "bh_height (blk_header (toy_block n)) = n"
  by (simp add: toy_block_def toy_header_def)

lemma toy_encoders:
  "x_enc_block toy_store (toy_block 0) = Inr [0]" "x_enc_block toy_store (toy_block 1) = Inr [1, 1]"
  "x_enc_snapshot toy_store (snapshot toy_state) = Inr [0]"
  "\<exists>bs. x_enc_snapshot toy_store (snapshot toy_ledger) = Inr bs"
  by (simp_all add: toy_store_def toy_storage_defs toy_codec_def toy_block_def toy_header_def)

lemma toy_decoders: "x_dec_block toy_store [0] = Inr (toy_block 0)" "x_dec_block toy_store [1, 1] = Inr (toy_block 1)"
  by (simp_all add: toy_store_def toy_storage_defs toy_codec_def)

lemma toy_db_insert [simp]: "db_insert toy_store db t k v = (Ok (), db(t := (db t)(k \<mapsto> v)))"
  by (simp add: db_insert_def toy_store_def toy_storage_defs)

lemma toy_db_flush [simp]: "db_flush toy_store db = (Ok (), db)"
  by (simp add: db_flush_def toy_store_def toy_storage_defs)

lemma toy_db_get [simp]: "db_get toy_store db t k = Ok (db t k)"
  by (simp add: db_get_def toy_store_def toy_storage_defs)

lemma toy_laws: "store_laws toy_store" "sled_ok toy_store"
  using toy_store_laws [of "toy_block 0" "toy_block 1"] by (simp_all add: toy_store_def store_laws_def)

lemma toy_commit:
  "\<exists>db'. store_commit toy_store db h (toy_block 0) (snapshot toy_state) = (Ok (), db')"
  "\<exists>db'. store_commit toy_store db h (toy_block 1) (snapshot toy_ledger) = (Ok (), db')"
  using toy_encoders by (auto simp: store_commit_def try_then_def toy_block_def)

text \<open>
  Commit then read. After a commit that reported success the block can be read under its hash and
  under its height, it is the latest block with its height and hash, the snapshot is the latest
  state; every other block, the finalized height and hash and the chain's identity are as before.
\<close>

theorem commit_then_read:
  assumes "store_laws X" and "wf_hash h" and "store_commit X db h b s = (Ok (), db')"
  shows "get_block X db' h = Ok b \<and> get_block_by_height X db' (bh_height (blk_header b)) = Ok b \<and>
    latest_block X db' = Ok b \<and> latest_height X db' = Ok (bh_height (blk_header b)) \<and>
    latest_hash X db' = Ok h \<and> latest_state X db' = Ok s \<and>
    (\<forall>h'. h' \<noteq> h \<longrightarrow> get_block X db' h' = get_block X db h') \<and>
    finalized_height X db' = finalized_height X db \<and> finalized_hash X db' = finalized_hash X db \<and>
    store_chain_id X db' = store_chain_id X db \<and> store_genesis_hash X db' = store_genesis_hash X db"
  using assms commit_finalized [of X] commit_get_block [OF assms(1,3)] commit_get_block_by_height [OF assms]
    commit_latest [OF assms] by (simp add: store_laws_def)

theorem commit_then_read_witness:
  "\<exists>db'. latest_block toy_store db' = Ok (toy_block 0) \<and> latest_state toy_store db' = Ok (snapshot toy_state)"
  using commit_then_read [OF toy_laws(1) toy_hash_simps(1)] toy_commit(1) by blast

text \<open>
  A chain of commits stays readable. When a sequence of commits reports success throughout, with new
  and distinct hashes and distinct heights, every one of its blocks can be read at the end, by hash
  and by height, and the tip and the latest state are those of the last commit.
\<close>

theorem committed_chain_readable:
  assumes "store_laws X" and "commit_all (store_commit X) db cs = (Ok (), db')" and "cs \<noteq> []"
    and "\<forall>c \<in> set cs. wf_hash (fst c) \<and> \<not> is_ok (get_block X db (fst c))"
    and "distinct (map fst cs)" and "distinct (map (\<lambda>c. bh_height (blk_header (fst (snd c)))) cs)"
  shows "(\<forall>(h, b, s) \<in> set cs. get_block X db' h = Ok b \<and>
      get_block_by_height X db' (bh_height (blk_header b)) = Ok b) \<and>
    latest_block X db' = Ok (fst (snd (last cs))) \<and> latest_state X db' = Ok (snd (snd (last cs)))"
  using chain_store.chain_readable [OF assms(2)] chain_store.chain_tip [OF assms(2)] assms by blast

theorem committed_chain_readable_witness:
  "\<exists>db. get_block_by_height toy_store db 0 = Ok (toy_block 0) \<and> get_block toy_store db (toy_hash 2) = Ok (toy_block 1) \<and>
     latest_state toy_store db = Ok (snapshot toy_ledger)"
proof -
  let ?cs = "[(toy_hash 1, toy_block 0, snapshot toy_state), (toy_hash 2, toy_block 1, snapshot toy_ledger)]"
  let ?db = "(\<lambda>_ _. None) :: toy_db"
  obtain db' where "commit_all (store_commit toy_store) ?db ?cs = (Ok (), db')"
    using toy_commit by (simp add: try_then_def) (metis (mono_tags, lifting) case_prod_conv sum.case(2))
  moreover note toy_laws(1)
  moreover have "\<forall>c \<in> set ?cs. wf_hash (fst c) \<and> \<not> is_ok (get_block toy_store ?db (fst c))"
    by (simp add: get_block_def db_require_def ok_or_def)
  ultimately have "(\<forall>(h, b, s) \<in> set ?cs. get_block toy_store db' h = Ok b \<and>
      get_block_by_height toy_store db' (bh_height (blk_header b)) = Ok b) \<and>
    latest_block toy_store db' = Ok (fst (snd (last ?cs))) \<and> latest_state toy_store db' = Ok (snd (snd (last ?cs)))"
    by (intro committed_chain_readable) (simp_all del: commit_all.simps)
  then show ?thesis by auto
qed


section \<open>Finality\<close>

lemma mark_finalized_Ok:
  assumes "mark_finalized X db n h = (Ok u, db')"
  obtains b cur where "get_block X db h = Ok b" "bh_height (blk_header b) = n" "finalized_height X db = Ok cur"
    "n < cur" "db' = db"
  | b cur d where "get_block X db h = Ok b" "bh_height (blk_header b) = n" "finalized_height X db = Ok cur"
    "cur \<le> n" "db_insert X db TMeta META_FINALIZED_HEIGHT (to_be_bytes n) = (Ok (), d)"
    "db_insert X d TMeta META_FINALIZED_HASH (hash_bytes h) = (Ok (), db')"
  using assms by (auto simp: mark_finalized_def try_then_Ok db_flush_Ok split: sum.splits if_splits)

lemma get_block_meta:
  "sled_ok X \<Longrightarrow> db_insert X db TMeta k v = (Ok u, db') \<Longrightarrow> get_block X db' h = get_block X db h"
  by (simp add: get_block_def db_require_insert)

text \<open>
  Finality does not go back. A successful \<open>mark_finalized\<close> found the block, at the height it was
  given; the finalized height afterwards is the larger of the old one and that height, at the larger
  height the finalized hash is the block's, and no block is touched.
\<close>

theorem finality_moves_forward:
  assumes "sled_ok X" and "wf_hash h" and "mark_finalized X db n h = (Ok (), db')"
  shows "\<exists>b cur. get_block X db h = Ok b \<and> bh_height (blk_header b) = n \<and>
    finalized_height X db = Ok cur \<and> finalized_height X db' = Ok (max cur n) \<and>
    (cur \<le> n \<longrightarrow> finalized_hash X db' = Ok h) \<and> (n < cur \<longrightarrow> db' = db) \<and>
    (\<forall>h'. get_block X db' h' = get_block X db h')"
  using assms(3)
proof (cases rule: mark_finalized_Ok)
  case (1 b cur)
  then show ?thesis by (auto simp: max_def)
next
  case (2 b cur d)
  have "finalized_height X db' = Ok n" "finalized_hash X db' = Ok h"
    using assms(2) by (simp_all add: finalized_height_def finalized_hash_def meta_key_defs
        db_require_insert [OF assms(1) 2(6)] db_require_insert [OF assms(1) 2(5)])
  moreover have "get_block X db' h' = get_block X db h'" for h'
    using get_block_meta [OF assms(1) 2(6)] get_block_meta [OF assms(1) 2(5)] by simp
  ultimately show ?thesis using 2 by (auto simp: max_def)
qed

definition toy_chain :: toy_db where
  "toy_chain = (\<lambda>t k. if t = TBlocks \<and> k = hash_bytes (toy_hash 2) then Some [1, 1]
     else if t = TMeta \<and> k = META_FINALIZED_HEIGHT then Some (to_be_bytes (0 :: u64)) else None)"

theorem finality_moves_forward_witness:
  "\<exists>db'. finalized_height toy_store db' = Ok 1 \<and> finalized_hash toy_store db' = Ok (toy_hash 2)"
proof -
  have blk: "get_block toy_store toy_chain (toy_hash 2) = Ok (toy_block 1)"
    using toy_decoders by (simp add: get_block_def db_require_def toy_chain_def ok_or_def decode_block_def)
  have fin: "finalized_height toy_store toy_chain = Ok 0"
    by (simp add: finalized_height_def db_require_def toy_chain_def ok_or_def)
  obtain db' where "mark_finalized toy_store toy_chain 1 (toy_hash 2) = (Ok (), db')"
    by (simp add: mark_finalized_def blk fin try_then_def)
  then show ?thesis
    using toy_laws(2) finality_moves_forward [of toy_store "toy_hash 2" toy_chain 1 db'] fin by (auto simp: max_def)
qed

section \<open>Opening a chain\<close>

lemma write_genesis_Ok:
  assumes "sled_ok X" and "write_genesis X db g h b s = (Ok r, db')"
  shows "r = h" and "db_require X db' TMeta META_CHAIN_ID = Ok (str_bytes (gen_chain_id g))"
    and "db_require X db' TMeta META_GENESIS_HASH = Ok (hash_bytes h)"
    and "db_require X db' TMeta META_FINALIZED_HEIGHT = Ok (to_be_bytes (0 :: u64))"
    and "\<exists>d. store_commit X d h b s = (Ok (), db')"
proof -
  obtain d1 d2 d3 d4 where steps: "db_insert X db TMeta META_CHAIN_ID (str_bytes (gen_chain_id g)) = (Ok (), d1)"
    "db_insert X d1 TMeta META_GENESIS_HASH (hash_bytes h) = (Ok (), d2)"
    "db_insert X d2 TMeta META_FINALIZED_HEIGHT (to_be_bytes (0 :: u64)) = (Ok (), d3)"
    "db_insert X d3 TMeta META_FINALIZED_HASH (hash_bytes h) = (Ok (), d4)"
    and commit: "store_commit X d4 h b s = (Ok (), db')" and "r = h"
    using assms(2) by (auto simp: write_genesis_def try_then_Ok db_flush_Ok)
  then show "r = h" "\<exists>d. store_commit X d h b s = (Ok (), db')" by blast+
  note reads = commit_meta [OF assms(1) commit] db_require_insert [OF assms(1) steps(1)]
    db_require_insert [OF assms(1) steps(2)] db_require_insert [OF assms(1) steps(3)]
    db_require_insert [OF assms(1) steps(4)]
  show "db_require X db' TMeta META_CHAIN_ID = Ok (str_bytes (gen_chain_id g))"
    "db_require X db' TMeta META_GENESIS_HASH = Ok (hash_bytes h)"
    "db_require X db' TMeta META_FINALIZED_HEIGHT = Ok (to_be_bytes (0 :: u64))"
    by (simp_all add: reads meta_key_defs)
qed

lemma db_require_get: "db_require X db t k = Ok v \<longleftrightarrow> db_get X db t k = Ok (Some v)"
  by (auto simp: db_require_def split: sum.splits)

definition valid_utf8 :: "string \<Rightarrow> bool" where
  "valid_utf8 s = utf8_ok (map of_char s)"

text \<open>
  Opening a chain. When \<open>ensure_genesis\<close> created a chain in an empty store, the genesis block and state
  are the latest, opening the same chain again answers the same hash and writes nothing, and opening
  it with another chain id or another genesis block is refused and writes nothing.
\<close>

theorem genesis_reopens:
  assumes "store_laws X" and "wf_hash h" and "valid_utf8 (gen_chain_id g)"
    and "db_get X db TMeta META_CHAIN_ID = Ok None"
    and "ensure_genesis X db g b s = (Ok h, db')"
    and "block_header_id X (blk_header b') = Ok h'"
  shows "latest_block X db' = Ok b \<and> latest_state X db' = Ok s \<and>
    ensure_genesis X db' g b s = (Ok h, db') \<and>
    (gen_chain_id g' \<noteq> gen_chain_id g \<longrightarrow> ensure_genesis X db' g' b' s' = (Err ChainIdMismatch, db')) \<and>
    (gen_chain_id g' = gen_chain_id g \<longrightarrow> h' \<noteq> h \<longrightarrow> ensure_genesis X db' g' b' s' = (Err GenesisMismatch, db'))"
proof -
  have sled: "sled_ok X" using assms(1) by (simp add: store_laws_def)
  obtain h0 where id: "block_header_id X (blk_header b) = Ok h0" and "write_genesis X db g h0 b s = (Ok h, db')"
    using assms(4,5) by (auto simp: ensure_genesis_def split: sum.splits)
  moreover from this have "h0 = h" using write_genesis_Ok(1) [OF sled] by metis
  ultimately have w: "write_genesis X db g h b s = (Ok h, db')" by simp
  note stored = write_genesis_Ok(2-4) [OF sled w, unfolded db_require_get]
  obtain d where "store_commit X d h b s = (Ok (), db')" using write_genesis_Ok(5) [OF sled w] by blast
  then have "latest_block X db' = Ok b" "latest_state X db' = Ok s"
    using commit_latest [OF assms(1,2)] by blast+
  moreover have "utf8_ok (map unat (str_bytes (gen_chain_id g)))"
    using assms(3) by (simp add: unat_str_bytes valid_utf8_def)
  ultimately show ?thesis
    using assms(6) id \<open>h0 = h\<close>
    by (auto simp: ensure_genesis_def check_stored_genesis_def stored hash.expand)
qed

theorem genesis_reopens_witness:
  "\<exists>db' h. ensure_genesis toy_store db' toy_genesis (toy_block 0) (snapshot toy_state) = (Ok h, db') \<and>
     latest_state toy_store db' = Ok (snapshot toy_state)"
proof -
  let ?db = "(\<lambda>_ _. None) :: toy_db"
  obtain h where h: "block_header_id toy_store (blk_header (toy_block 0)) = Ok h" "wf_hash h"
    by (simp add: block_header_id_def hash_encoded_def sha256_domain_def toy_store_def toy_storage_defs wf_hash_def)
  obtain db' where "ensure_genesis toy_store ?db toy_genesis (toy_block 0) (snapshot toy_state) = (Ok h, db')"
    using toy_commit(1) [of _ h] by (simp add: ensure_genesis_def h write_genesis_def try_then_def)
      (metis (mono_tags, lifting) case_prod_conv sum.case(2))
  moreover have "valid_utf8 (gen_chain_id toy_genesis)"
    by (simp add: valid_utf8_def toy_genesis_def CHAIN_ID_def)
  ultimately have "ensure_genesis toy_store db' toy_genesis (toy_block 0) (snapshot toy_state) = (Ok h, db') \<and>
      latest_state toy_store db' = Ok (snapshot toy_state)"
    using genesis_reopens [OF toy_laws(1) h(2), of toy_genesis ?db "toy_block 0" "snapshot toy_state" db'
        "toy_block 0" h] h(1) by simp
  then show ?thesis by blast
qed

text \<open>
  An interrupted creation is taken for a chain. The chain id, the genesis hash and the finalized height
  are written first, so when the commit that follows is lost, opening the store again succeeds and
  writes nothing, although the store has no block.
\<close>

theorem interrupted_genesis_accepted:
  assumes "sled_ok X" and "valid_utf8 (gen_chain_id g)"
    and "block_header_id X (blk_header b) = Ok h"
    and "db_require X db TMeta META_LATEST_HASH = Err Missing"
    and "db_insert X db TMeta META_CHAIN_ID (str_bytes (gen_chain_id g)) = (Ok (), d1)"
    and "db_insert X d1 TMeta META_GENESIS_HASH (hash_bytes h) = (Ok (), d2)"
    and "db_insert X d2 TMeta META_FINALIZED_HEIGHT (to_be_bytes (0 :: u64)) = (Ok (), d3)"
  shows "ensure_genesis X d3 g b s = (Ok h, d3) \<and> latest_block X d3 = Err Missing"
proof -
  note reads = db_require_insert [OF assms(1,5)] db_require_insert [OF assms(1,6)] db_require_insert [OF assms(1,7)]
  have "db_require X d3 TMeta META_CHAIN_ID = Ok (str_bytes (gen_chain_id g))"
    "db_require X d3 TMeta META_GENESIS_HASH = Ok (hash_bytes h)"
    "db_require X d3 TMeta META_FINALIZED_HEIGHT = Ok (to_be_bytes (0 :: u64))"
    by (simp_all add: reads meta_key_defs)
  note stored = this [unfolded db_require_get]
  have "db_require X d3 TMeta META_LATEST_HASH = Err Missing"
    using assms(4) by (simp add: reads meta_key_defs)
  moreover have "utf8_ok (map unat (str_bytes (gen_chain_id g)))"
    using assms(2) by (simp add: unat_str_bytes valid_utf8_def)
  ultimately show ?thesis
    using assms(3) by (simp add: ensure_genesis_def check_stored_genesis_def stored latest_block_def latest_hash_def)
qed

theorem interrupted_genesis_accepted_witness:
  "\<exists>db h. ensure_genesis toy_store db toy_genesis (toy_block 0) (snapshot toy_state) = (Ok h, db) \<and>
     latest_block toy_store db = Err Missing"
proof -
  let ?db = "(\<lambda>_ _. None) :: toy_db"
  obtain h where h: "block_header_id toy_store (blk_header (toy_block 0)) = Ok h"
    by (simp add: block_header_id_def hash_encoded_def toy_store_def toy_storage_defs)
  have "valid_utf8 (gen_chain_id toy_genesis)" by (simp add: valid_utf8_def toy_genesis_def CHAIN_ID_def)
  moreover have "db_require toy_store ?db TMeta META_LATEST_HASH = Err Missing"
    by (simp add: db_require_def ok_or_def)
  ultimately show ?thesis
    using interrupted_genesis_accepted [OF toy_laws(2) _ h _ toy_db_insert toy_db_insert toy_db_insert] by blast
qed

end
