(* ===== verification/Mempool.thy ===== *)
theory Mempool
  imports Consensus Storage
begin

text \<open>
  \<open>crates/wsc-node/src/lib.rs\<close>, first part: the errors of the node and the pool of transactions
  waiting for a block. The pool keeps the transactions in arrival order beside the set of their
  identifiers; the invariant ties the two together.
\<close>

section \<open>Errors\<close>

datatype node_error =
    NIo string | NJson string | NState state_error | NStorage storage_error | NCrypto string
  | ConfigChainIdMismatch | DuplicateTransaction | MempoolFull | DuplicateAssetOperation
  | InvalidAssetOperation string | DuplicateTokenOperation | InvalidTokenOperation string
  | DuplicateMnaSwapOperation | InvalidMnaSwapOperation string | DuplicateMnaReserveOperation
  | InvalidMnaReserveOperation string | DuplicateProgramOperation | NotProposer
  | CorruptChain string | FaucetDisabled | InvalidBlock string | NConsensus string

primrec node_error_string :: "node_error \<Rightarrow> string" where
  "node_error_string (NIo e) = ''I/O error: '' @ e"
| "node_error_string (NJson e) = ''JSON error: '' @ e"
| "node_error_string (NState e) = ''state error: '' @ state_error_string e"
| "node_error_string (NStorage e) = ''storage error: '' @ storage_error_string e"
| "node_error_string (NCrypto e) = ''crypto error: '' @ e"
| "node_error_string ConfigChainIdMismatch = ''node configuration chain ID does not match genesis''"
| "node_error_string DuplicateTransaction = ''mempool already contains this transaction''"
| "node_error_string MempoolFull = ''mempool capacity has been reached''"
| "node_error_string DuplicateAssetOperation = ''asset operation already exists''"
| "node_error_string (InvalidAssetOperation e) = ''invalid asset operation: '' @ e"
| "node_error_string DuplicateTokenOperation = ''token operation already exists''"
| "node_error_string (InvalidTokenOperation e) = ''invalid token operation: '' @ e"
| "node_error_string DuplicateMnaSwapOperation = ''MNA swap operation already exists''"
| "node_error_string (InvalidMnaSwapOperation e) = ''invalid MNA swap operation: '' @ e"
| "node_error_string DuplicateMnaReserveOperation = ''MNA reserve operation already exists''"
| "node_error_string (InvalidMnaReserveOperation e) = ''invalid MNA reserve operation: '' @ e"
| "node_error_string DuplicateProgramOperation = ''program operation already exists''"
| "node_error_string NotProposer = ''node is not the scheduled proposer''"
| "node_error_string (CorruptChain e) = ''persisted chain data is inconsistent: '' @ e"
| "node_error_string FaucetDisabled = ''devnet faucet is disabled on this chain''"
| "node_error_string (InvalidBlock e) = ''invalid imported block: '' @ e"
| "node_error_string (NConsensus e) = ''consensus error: '' @ e"

text \<open>\<open>map_err(|error| NodeError::Crypto(error.to_string()))\<close>.\<close>

abbreviation crypto_err :: "crypto_error + 'a \<Rightarrow> node_error + 'a" where
  "crypto_err \<equiv> map_err (\<lambda>e. NCrypto (crypto_error_string e))"

section \<open>The pool\<close>

definition MAX_MEMPOOL_TRANSACTIONS :: nat where "MAX_MEMPOOL_TRANSACTIONS = 10000"

record mempool =
  mp_transactions :: "transaction list"
  mp_ids :: "hash btree_set"

definition mempool_default :: mempool where
  "mempool_default = \<lparr>mp_transactions = [], mp_ids = bt_empty\<rparr>"

definition mempool_len :: "mempool \<Rightarrow> nat" where
  "mempool_len m = length (mp_transactions m)"

definition mempool_admit ::
    "('a) crypto_ext_scheme \<Rightarrow> mempool \<Rightarrow> state \<Rightarrow> transaction \<Rightarrow> (node_error + hash) \<times> mempool" where
  "mempool_admit X m s tx =
     (if MAX_MEMPOOL_TRANSACTIONS \<le> length (mp_transactions m) then (Err MempoolFull, m)
      else case validate_transaction X s tx of
        Inl e \<Rightarrow> (Err (NState e), m)
      | Inr i \<Rightarrow>
          if bt_contains (mp_ids m) i then (Err DuplicateTransaction, m)
          else (Ok i, m\<lparr>mp_ids := bt_insert i () (mp_ids m), mp_transactions := mp_transactions m @ [tx]\<rparr>))"

definition mempool_drain :: "mempool \<Rightarrow> transaction list \<times> mempool" where
  "mempool_drain m = (mp_transactions m, m\<lparr>mp_ids := bt_empty, mp_transactions := []\<rparr>)"

definition retained :: "('a) crypto_ext_scheme \<Rightarrow> hash list \<Rightarrow> transaction \<Rightarrow> bool" where
  "retained X ids tx = (case transaction_id X tx of Inl _ \<Rightarrow> True | Inr i \<Rightarrow> i \<notin> set ids)"

definition mempool_remove_ids :: "('a) crypto_ext_scheme \<Rightarrow> mempool \<Rightarrow> hash list \<Rightarrow> mempool" where
  "mempool_remove_ids X m ids =
     m\<lparr>mp_ids := foldl (\<lambda>s i. bt_remove i s) (mp_ids m) ids,
       mp_transactions := filter (retained X ids) (mp_transactions m)\<rparr>"

section \<open>The invariant of the pool\<close>

definition mempool_ok :: "('a) crypto_ext_scheme \<Rightarrow> mempool \<Rightarrow> bool" where
  "mempool_ok X m =
     (length (mp_transactions m) \<le> MAX_MEMPOOL_TRANSACTIONS \<and>
      distinct (map (transaction_id X) (mp_transactions m)) \<and>
      transaction_id X ` set (mp_transactions m) = Ok ` bt_keys (mp_ids m))"

lemma mempool_ok_id: "mempool_ok X m \<Longrightarrow> tx \<in> set (mp_transactions m) \<Longrightarrow> \<exists>i \<in> bt_keys (mp_ids m). transaction_id X tx = Ok i"
  by (auto simp: mempool_ok_def dest!: equalityD1)

lemma mempool_default_ok: "mempool_ok X mempool_default"
  by (simp add: mempool_ok_def mempool_default_def)

lemma mempool_drain_ok: "mempool_ok X (snd (mempool_drain m))"
  by (simp add: mempool_ok_def mempool_drain_def)

lemma mempool_admit_Ok:
  "fst (mempool_admit X m s tx) = Ok i \<longleftrightarrow>
    length (mp_transactions m) < MAX_MEMPOOL_TRANSACTIONS \<and> validate_transaction X s tx = Ok i \<and>
    i \<notin> bt_keys (mp_ids m)"
  by (auto simp: mempool_admit_def bt_keys_def split: sum.splits)

lemma mempool_admit_result:
  "fst (mempool_admit X m s tx) = Ok i \<Longrightarrow>
    snd (mempool_admit X m s tx) = m\<lparr>mp_ids := bt_insert i () (mp_ids m), mp_transactions := mp_transactions m @ [tx]\<rparr>"
  "fst (mempool_admit X m s tx) = Err e \<Longrightarrow> snd (mempool_admit X m s tx) = m"
  by (auto simp: mempool_admit_def split: sum.splits if_splits)

lemma mempool_admit_ok:
  assumes "mempool_ok X m"
  shows "mempool_ok X (snd (mempool_admit X m s tx))"
proof (cases "fst (mempool_admit X m s tx)")
  case (Inl e)
  then show ?thesis using assms by (simp add: mempool_admit_result(2))
next
  case (Inr i)
  then have new: "length (mp_transactions m) < MAX_MEMPOOL_TRANSACTIONS" "i \<notin> bt_keys (mp_ids m)"
    and v: "validate_transaction X s tx = Ok i" by (simp_all add: mempool_admit_Ok)
  have id: "transaction_id X tx = Ok i" by (rule validate_transaction_Ok(11) [OF v])
  then have "transaction_id X tx \<notin> transaction_id X ` set (mp_transactions m)"
    using assms new(2) by (auto simp: mempool_ok_def)
  then show ?thesis
    using assms new by (simp add: mempool_ok_def mempool_admit_result(1) [OF Inr] id)
qed

lemma removed_keys: "bt_keys (foldl (\<lambda>s i. bt_remove i s) m ids) = bt_keys m - set ids"
  by (induction ids arbitrary: m) auto

lemma mempool_remove_transactions:
  "mp_transactions (mempool_remove_ids X m ids) = filter (retained X ids) (mp_transactions m)"
  by (simp add: mempool_remove_ids_def)

lemma mempool_remove_ok:
  assumes "mempool_ok X m"
  shows "mempool_ok X (mempool_remove_ids X m ids)"
proof -
  let ?txs = "mp_transactions m"
  have "distinct (map (transaction_id X) (filter (retained X ids) ?txs))"
    using assms by (auto simp: mempool_ok_def distinct_map inj_on_def)
  moreover have "length (filter (retained X ids) ?txs) \<le> MAX_MEMPOOL_TRANSACTIONS"
    using assms length_filter_le [of "retained X ids" ?txs] unfolding mempool_ok_def by linarith
  moreover have "transaction_id X ` set (filter (retained X ids) ?txs) = Ok ` (bt_keys (mp_ids m) - set ids)"
  proof (intro equalityI subsetI)
    fix r assume "r \<in> transaction_id X ` set (filter (retained X ids) ?txs)"
    then obtain tx where "tx \<in> set ?txs" "retained X ids tx" and r: "r = transaction_id X tx" by auto
    then obtain i where "i \<in> bt_keys (mp_ids m)" "transaction_id X tx = Ok i"
      using mempool_ok_id [OF assms] by blast
    with \<open>retained X ids tx\<close> show "r \<in> Ok ` (bt_keys (mp_ids m) - set ids)"
      by (simp add: r retained_def)
  next
    fix r :: "crypto_error + hash" assume "r \<in> Ok ` (bt_keys (mp_ids m) - set ids)"
    then obtain i where i: "i \<in> bt_keys (mp_ids m)" "i \<notin> set ids" and r: "r = Ok i" by auto
    then have "Ok i \<in> transaction_id X ` set ?txs"
      using assms unfolding mempool_ok_def by (metis image_eqI)
    then obtain tx where "tx \<in> set ?txs" "transaction_id X tx = Ok i" by force
    then show "r \<in> transaction_id X ` set (filter (retained X ids) ?txs)"
      using i(2) by (force simp: r retained_def)
  qed
  ultimately show ?thesis
    by (simp add: mempool_ok_def mempool_remove_ids_def removed_keys)
qed

text \<open>
  The pool stays sound. Starting from a pool without repeated identifiers, of at most 10000
  transactions, whose set of identifiers is the one of its transactions: admitting a transaction,
  draining and removing identifiers keep all of it. A refused transaction changes nothing, and an
  admitted one is valid in the state, new to the pool, and last in it.
\<close>

theorem mempool_stays_sound:
  assumes "mempool_ok X m"
  shows "mempool_ok X (snd (mempool_admit X m s tx)) \<and> mempool_ok X (snd (mempool_drain m)) \<and>
    mempool_ok X (mempool_remove_ids X m ids) \<and>
    (\<forall>e. fst (mempool_admit X m s tx) = Err e \<longrightarrow> snd (mempool_admit X m s tx) = m) \<and>
    (\<forall>i. fst (mempool_admit X m s tx) = Ok i \<longrightarrow> validate_transaction X s tx = Ok i \<and> i \<notin> bt_keys (mp_ids m) \<and>
       mp_transactions (snd (mempool_admit X m s tx)) = mp_transactions m @ [tx])"
proof (intro conjI allI impI)
  show "mempool_ok X (snd (mempool_admit X m s tx))" "mempool_ok X (snd (mempool_drain m))"
    "mempool_ok X (mempool_remove_ids X m ids)"
    using mempool_admit_ok mempool_drain_ok mempool_remove_ok assms by blast+
  show "snd (mempool_admit X m s tx) = m" if "fst (mempool_admit X m s tx) = Err e" for e
    using that by (rule mempool_admit_result(2))
  fix i assume i: "fst (mempool_admit X m s tx) = Ok i"
  then show "validate_transaction X s tx = Ok i" "i \<notin> bt_keys (mp_ids m)"
    by (simp_all add: mempool_admit_Ok)
  show "mp_transactions (snd (mempool_admit X m s tx)) = mp_transactions m @ [tx]"
    by (simp add: mempool_admit_result(1) [OF i])
qed

theorem mempool_stays_sound_witness:
  "mempool_ok toy_state_ext (snd (mempool_admit toy_state_ext mempool_default toy_ledger (toy_transfer toy_key)))"
  using mempool_stays_sound [OF mempool_default_ok] by blast

end
