(* ===== verification/Node.thy ===== *)
theory Node
  imports Mempool
begin

text \<open>
  \<open>crates/wsc-node/src/lib.rs\<close>, second part: the node and its methods. A node owns its store, so the
  database is a field of the record; a method on \<open>&mut self\<close> returns its result with the node it
  leaves. The clock is an argument of the methods that read it, the genesis file of \<open>open\<close> is the
  result of reading and parsing it. Heights are 64 bits wide: \<open>height + 1\<close> is written with the
  wrap-around of a release build, a debug build panics there.
\<close>

section \<open>The node\<close>

record node_config =
  nc_chain_id :: string
  nc_block_time_ms :: u64
  nc_data_dir :: string
  nc_genesis_path :: string

record 'db node =
  nd_config :: node_config
  nd_genesis :: genesis_config
  nd_store :: 'db
  nd_state :: state
  nd_latest_block :: block
  nd_mempool :: mempool
  nd_pending_assets :: "asset_operation list"
  nd_pending_tokens :: "token_operation list"
  nd_pending_swaps :: "mna_swap_operation list"
  nd_pending_reserves :: "mna_reserve_operation list"
  nd_pending_programs :: "program_operation list"

definition init_genesis :: "string \<Rightarrow> u64 \<Rightarrow> genesis_config" where
  "init_genesis chain_id now =
     \<lparr>gen_version = 1, gen_chain_id = chain_id, gen_genesis_time = now, gen_block_time_ms = 2000,
      gen_initial_supply = 0, gen_fee_minimum = 1, gen_validators = [], gen_allocations = [], gen_assets = []\<rparr>"

definition block_id_for :: "('a) crypto_ext_scheme \<Rightarrow> block \<Rightarrow> node_error + hash" where
  "block_id_for X b = crypto_err (block_header_id X (blk_header b))"

definition transaction_id_for :: "('a) crypto_ext_scheme \<Rightarrow> transaction \<Rightarrow> node_error + hash" where
  "transaction_id_for X tx = crypto_err (transaction_id X tx)"

definition node_latest_hash :: "('a) crypto_ext_scheme \<Rightarrow> 'db node \<Rightarrow> node_error + hash" where
  "node_latest_hash X n = block_id_for X (nd_latest_block n)"

definition node_height :: "'db node \<Rightarrow> u64" where
  "node_height n = bh_height (blk_header (nd_latest_block n))"

definition is_devnet :: "genesis_config \<Rightarrow> bool" where
  "is_devnet g = str_contains (gen_chain_id g) ''devnet''"

definition is_expected_proposer :: "'db node \<Rightarrow> public_key \<Rightarrow> bool" where
  "is_expected_proposer n pk =
     (if gen_validators (nd_genesis n) = [] then True
      else case proposer_for_height (gen_validators (nd_genesis n)) (saturating_add (node_height n) 1) 0 of
        None \<Rightarrow> False
      | Some v \<Rightarrow> val_public_key v = pk)"

definition account_of :: "'db node \<Rightarrow> address \<Rightarrow> amount \<times> u64" where
  "account_of n a = (balance_of (nd_state n) a, nonce_of (nd_state n) a)"

section \<open>Submitting operations\<close>

definition submit_transaction ::
    "('db, 'a) storage_ext_scheme \<Rightarrow> 'db node \<Rightarrow> transaction \<Rightarrow> (node_error + hash) \<times> 'db node" where
  "submit_transaction X n tx =
     (case crypto_err (transaction_id X tx) of
        Inl e \<Rightarrow> (Err e, n)
      | Inr i \<Rightarrow>
          if is_ok (get_transaction X (nd_store n) i) then (Err DuplicateTransaction, n)
          else case mempool_admit X (nd_mempool n) (nd_state n) tx of
            (r, m) \<Rightarrow> (r, n\<lparr>nd_mempool := m\<rparr>))"

definition submit_asset_operation ::
    "'db node \<Rightarrow> asset_operation \<Rightarrow> (node_error + hash) \<times> 'db node" where
  "submit_asset_operation n op =
     (if ao_version op \<noteq> 1 then (Err (InvalidAssetOperation ''unsupported version''), n)
      else if processed_asset_operation (nd_state n) (ao_operation_id op) \<or>
        list_ex (\<lambda>item. ao_operation_id item = ao_operation_id op) (nd_pending_assets n)
      then (Err DuplicateAssetOperation, n)
      else (Ok (ao_operation_id op), n\<lparr>nd_pending_assets := nd_pending_assets n @ [op]\<rparr>))"

text \<open>An item of a queue with this identifier; one that cannot be encoded has none.\<close>

definition queued :: "('o \<Rightarrow> crypto_error + hash) \<Rightarrow> 'o list \<Rightarrow> hash \<Rightarrow> bool" where
  "queued idf pending i = list_ex (\<lambda>item. idf item = Ok i) pending"

definition submit_token_operation ::
    "('a) crypto_ext_scheme \<Rightarrow> 'db node \<Rightarrow> token_operation \<Rightarrow> (node_error + hash) \<times> 'db node" where
  "submit_token_operation X n op =
     (case crypto_err (token_operation_id X op) of
        Inl e \<Rightarrow> (Err e, n)
      | Inr i \<Rightarrow>
          if processed_token_operation (nd_state n) i \<or> queued (token_operation_id X) (nd_pending_tokens n) i
          then (Err DuplicateTokenOperation, n)
          else case validate_token_operation X (nd_state n) op of
            Inl e \<Rightarrow> (Err (NState e), n)
          | Inr _ \<Rightarrow> (Ok i, n\<lparr>nd_pending_tokens := nd_pending_tokens n @ [op]\<rparr>))"

definition submit_mna_swap ::
    "('a) crypto_ext_scheme \<Rightarrow> 'db node \<Rightarrow> mna_swap_operation \<Rightarrow> (node_error + hash) \<times> 'db node" where
  "submit_mna_swap X n op =
     (case crypto_err (mna_swap_operation_id X op) of
        Inl e \<Rightarrow> (Err e, n)
      | Inr i \<Rightarrow>
          if bt_contains (st_mna_swap_operation_records (nd_state n)) i \<or>
            queued (mna_swap_operation_id X) (nd_pending_swaps n) i
          then (Err DuplicateMnaSwapOperation, n)
          else case validate_mna_swap X (nd_state n) op of
            Inl e \<Rightarrow> (Err (NState e), n)
          | Inr _ \<Rightarrow> (Ok i, n\<lparr>nd_pending_swaps := nd_pending_swaps n @ [op]\<rparr>))"

definition submit_mna_reserve_operation ::
    "('a) crypto_ext_scheme \<Rightarrow> 'db node \<Rightarrow> mna_reserve_operation \<Rightarrow> (node_error + hash) \<times> 'db node" where
  "submit_mna_reserve_operation X n op =
     (case crypto_err (mna_reserve_operation_id X op) of
        Inl e \<Rightarrow> (Err e, n)
      | Inr i \<Rightarrow>
          if bt_contains (st_mna_reserve_operation_records (nd_state n)) i \<or>
            queued (mna_reserve_operation_id X) (nd_pending_reserves n) i
          then (Err DuplicateMnaReserveOperation, n)
          else case validate_mna_reserve_operation X (nd_state n) op of
            Inl e \<Rightarrow> (Err (NState e), n)
          | Inr _ \<Rightarrow> (Ok i, n\<lparr>nd_pending_reserves := nd_pending_reserves n @ [op]\<rparr>))"

definition submit_program_operation ::
    "('a) program_ext_scheme \<Rightarrow> 'db node \<Rightarrow> program_operation \<Rightarrow> (node_error + hash) \<times> 'db node" where
  "submit_program_operation X n op =
     (case crypto_err (program_operation_id X op) of
        Inl e \<Rightarrow> (Err e, n)
      | Inr i \<Rightarrow>
          if bt_contains (st_program_receipts (nd_state n)) i \<or>
            queued (program_operation_id X) (nd_pending_programs n) i
          then (Err DuplicateProgramOperation, n)
          else case validate_program_operation X (nd_state n) op of
            Inl e \<Rightarrow> (Err (NState e), n)
          | Inr _ \<Rightarrow> (Ok i, n\<lparr>nd_pending_programs := nd_pending_programs n @ [op]\<rparr>))"

section \<open>Committing a block\<close>

text \<open>The six lists of operations of a block, as \<open>commit_block\<close> takes them.\<close>

record operations =
  ops_transactions :: "transaction list"
  ops_assets :: "asset_operation list"
  ops_tokens :: "token_operation list"
  ops_swaps :: "mna_swap_operation list"
  ops_reserves :: "mna_reserve_operation list"
  ops_programs :: "program_operation list"

definition no_operations :: operations where
  "no_operations = \<lparr>ops_transactions = [], ops_assets = [], ops_tokens = [], ops_swaps = [],
     ops_reserves = [], ops_programs = []\<rparr>"

definition operations_of :: "block \<Rightarrow> operations" where
  "operations_of b = \<lparr>ops_transactions = blk_transactions b, ops_assets = blk_asset_operations b,
     ops_tokens = blk_token_operations b, ops_swaps = blk_mna_swap_operations b,
     ops_reserves = blk_mna_reserve_operations b, ops_programs = blk_program_operations b\<rparr>"

definition block_with :: "block_header \<Rightarrow> operations \<Rightarrow> block" where
  "block_with header ops = \<lparr>blk_header = header, blk_transactions = ops_transactions ops,
     blk_asset_operations = ops_assets ops, blk_token_operations = ops_tokens ops,
     blk_mna_swap_operations = ops_swaps ops, blk_mna_reserve_operations = ops_reserves ops,
     blk_program_operations = ops_programs ops\<rparr>"

text \<open>\<open>iter().map(id).collect::<Result<Vec<_>, _>>()\<close>: the first error ends it.\<close>

fun collect_ids :: "('o \<Rightarrow> crypto_error + hash) \<Rightarrow> 'o list \<Rightarrow> crypto_error + hash list" where
  "collect_ids idf [] = Ok []"
| "collect_ids idf (op # ops) =
     (case idf op of
        Inl e \<Rightarrow> Err e
      | Inr i \<Rightarrow> (case collect_ids idf ops of Inl e \<Rightarrow> Err e | Inr ids \<Rightarrow> Ok (i # ids)))"

definition operation_ids :: "('a) crypto_ext_scheme \<Rightarrow> operations \<Rightarrow> node_error + hash list" where
  "operation_ids X ops =
     (case crypto_err (collect_ids (transaction_id X) (ops_transactions ops)) of Inl e \<Rightarrow> Err e | Inr txs \<Rightarrow>
      (case crypto_err (collect_ids (token_operation_id X) (ops_tokens ops)) of Inl e \<Rightarrow> Err e | Inr tokens \<Rightarrow>
       (case crypto_err (collect_ids (mna_swap_operation_id X) (ops_swaps ops)) of Inl e \<Rightarrow> Err e | Inr swaps \<Rightarrow>
        (case crypto_err (collect_ids (mna_reserve_operation_id X) (ops_reserves ops)) of Inl e \<Rightarrow> Err e | Inr reserves \<Rightarrow>
         (case crypto_err (collect_ids (program_operation_id X) (ops_programs ops)) of Inl e \<Rightarrow> Err e | Inr programs \<Rightarrow>
          Ok (txs @ map ao_operation_id (ops_assets ops) @ tokens @ swaps @ reserves @ programs))))))"

definition make_header ::
    "('db, 'a) storage_ext_scheme \<Rightarrow> u64 \<Rightarrow> 'db node \<Rightarrow> state \<Rightarrow> hash list \<Rightarrow> key_pair option \<Rightarrow>
     node_error + block_header" where
  "make_header X now n next_state ids proposer =
     (case node_latest_hash X n of
        Inl e \<Rightarrow> Err e
      | Inr parent \<Rightarrow>
          (case map_err NState (state_root X next_state) of
             Inl e \<Rightarrow> Err e
           | Inr root \<Rightarrow>
               let header = \<lparr>bh_version = 1, bh_chain_id = gen_chain_id (nd_genesis n),
                     bh_height = node_height n + 1, bh_parent_hash = parent, bh_timestamp = now,
                     bh_transaction_root = merkle_root X ids, bh_state_root = root,
                     bh_proposer = map_option (kp_public_key X) proposer, bh_proposer_signature = None\<rparr>
               in case proposer of
                    None \<Rightarrow> Ok header
                  | Some key \<Rightarrow>
                      (case header_signing_bytes X header of
                         Inl e \<Rightarrow> Err (NCrypto (encoding_error_string e))
                       | Inr bs \<Rightarrow> Ok (header\<lparr>bh_proposer_signature := Some (kp_sign X key bs)\<rparr>))))"

definition commit_block ::
    "('db, 'a) storage_ext_scheme \<Rightarrow> u64 \<Rightarrow> 'db node \<Rightarrow> state \<Rightarrow> operations \<Rightarrow> key_pair option \<Rightarrow>
     (node_error + block) \<times> 'db node" where
  "commit_block X now n next_state ops proposer =
     (case operation_ids X ops of
        Inl e \<Rightarrow> (Err e, n)
      | Inr ids \<Rightarrow>
          (case make_header X now n next_state ids proposer of
             Inl e \<Rightarrow> (Err e, n)
           | Inr header \<Rightarrow>
               let b = block_with header ops
               in case block_id_for X b of
                    Inl e \<Rightarrow> (Err e, n)
                  | Inr h \<Rightarrow>
                      (case store_commit X (nd_store n) h b (snapshot next_state) of
                         (Inl e, db) \<Rightarrow> (Err (NStorage e), n\<lparr>nd_store := db\<rparr>)
                       | (Inr _, db) \<Rightarrow>
                           (Ok b, n\<lparr>nd_store := db, nd_state := next_state, nd_latest_block := b\<rparr>))))"

section \<open>Producing a block\<close>

text \<open>
  One queue: every operation is applied to the state left by the one before, whatever its result,
  and is kept for the block when the result is \<open>Ok\<close>.
\<close>

fun produce_lane ::
    "('s \<Rightarrow> 'o \<Rightarrow> ('e + 'r) \<times> 's) \<Rightarrow> 's \<Rightarrow> 'o list \<Rightarrow> 'o list \<times> 's" where
  "produce_lane run s [] = ([], s)"
| "produce_lane run s (op # ops) =
     (case run s op of (r, s') \<Rightarrow>
      (case produce_lane run s' ops of (accepted, t) \<Rightarrow>
       (if is_ok r then op # accepted else accepted, t)))"

fun produce_transactions ::
    "('db, 'a) storage_ext_scheme \<Rightarrow> 'db \<Rightarrow> state \<Rightarrow> transaction list \<Rightarrow> node_error + transaction list \<times> state" where
  "produce_transactions X db s [] = Ok ([], s)"
| "produce_transactions X db s (tx # txs) =
     (case crypto_err (transaction_id X tx) of
        Inl e \<Rightarrow> Err e
      | Inr i \<Rightarrow>
          if is_ok (get_transaction X db i) then produce_transactions X db s txs
          else case apply_transaction X s tx of (r, s') \<Rightarrow>
            (case produce_transactions X db s' txs of
               Inl e \<Rightarrow> Err e
             | Inr (accepted, t) \<Rightarrow> Ok (if is_ok r then tx # accepted else accepted, t)))"

fun produce_tokens ::
    "('a) crypto_ext_scheme \<Rightarrow> state \<Rightarrow> token_operation list \<Rightarrow> node_error + token_operation list \<times> state" where
  "produce_tokens X s [] = Ok ([], s)"
| "produce_tokens X s (op # ops) =
     (case crypto_err (token_operation_id X op) of
        Inl e \<Rightarrow> Err e
      | Inr i \<Rightarrow>
          (case apply_token_operation X s op i of (r, s') \<Rightarrow>
           (case produce_tokens X s' ops of
              Inl e \<Rightarrow> Err e
            | Inr (accepted, t) \<Rightarrow> Ok (if is_ok r then op # accepted else accepted, t))))"

definition drained :: "'db node \<Rightarrow> 'db node" where
  "drained n = n\<lparr>nd_mempool := snd (mempool_drain (nd_mempool n)), nd_pending_assets := [],
     nd_pending_tokens := [], nd_pending_swaps := [], nd_pending_reserves := [], nd_pending_programs := []\<rparr>"

definition select_operations ::
    "('db, 'a) storage_ext_scheme \<Rightarrow> 'db node \<Rightarrow> node_error + operations \<times> state" where
  "select_operations X n =
     (case produce_transactions X (nd_store n) (nd_state n) (mp_transactions (nd_mempool n)) of
        Inl e \<Rightarrow> Err e
      | Inr (txs, s1) \<Rightarrow>
          (case produce_lane apply_asset_operation s1 (nd_pending_assets n) of (assets, s2) \<Rightarrow>
           (case produce_tokens X s2 (nd_pending_tokens n) of
              Inl e \<Rightarrow> Err e
            | Inr (tokens, s3) \<Rightarrow>
                (case produce_lane (apply_mna_swap X) s3 (nd_pending_swaps n) of (swaps, s4) \<Rightarrow>
                (case produce_lane (apply_mna_reserve_operation X) s4 (nd_pending_reserves n) of (reserves, s5) \<Rightarrow>
                (case produce_lane (\<lambda>s op. apply_program_operation X s op (saturating_add (node_height n) 1)) s5
                        (nd_pending_programs n) of (programs, s6) \<Rightarrow>
                 Ok (\<lparr>ops_transactions = txs, ops_assets = assets, ops_tokens = tokens, ops_swaps = swaps,
                      ops_reserves = reserves, ops_programs = programs\<rparr>, s6)))))))"

definition produce_block ::
    "('db, 'a) storage_ext_scheme \<Rightarrow> u64 \<Rightarrow> 'db node \<Rightarrow> key_pair option \<Rightarrow> (node_error + block) \<times> 'db node" where
  "produce_block X now n proposer =
     (if (case proposer of None \<Rightarrow> False | Some key \<Rightarrow> \<not> is_expected_proposer n (kp_public_key X key))
      then (Err NotProposer, n)
      else case select_operations X n of
        Inl e \<Rightarrow> (Err e, drained n)
      | Inr (ops, next_state) \<Rightarrow> commit_block X now (drained n) next_state ops proposer)"

definition node_faucet ::
    "('db, 'a) storage_ext_scheme \<Rightarrow> u64 \<Rightarrow> 'db node \<Rightarrow> address \<Rightarrow> amount \<Rightarrow> (node_error + block) \<times> 'db node" where
  "node_faucet X now n a amt =
     (if \<not> is_devnet (nd_genesis n) then (Err FaucetDisabled, n)
      else case credit_devnet (nd_state n) a amt of
        (Inl e, _) \<Rightarrow> (Err (NState e), n)
      | (Inr _, next_state) \<Rightarrow> commit_block X now n next_state no_operations None)"

section \<open>Importing a block\<close>

definition check_proposer :: "('a) crypto_ext_scheme \<Rightarrow> genesis_config \<Rightarrow> block_header \<Rightarrow> node_error + unit" where
  "check_proposer X g header =
     (case (bh_proposer header, bh_proposer_signature header) of
        (Some proposer, Some sig) \<Rightarrow>
          if \<not> list_ex (\<lambda>v. val_public_key v = proposer) (gen_validators g)
          then Err (InvalidBlock ''unknown block proposer'')
          else if (case proposer_for_height (gen_validators g) (bh_height header) 0 of
                     None \<Rightarrow> True | Some v \<Rightarrow> val_public_key v \<noteq> proposer)
          then Err (InvalidBlock ''block proposer is not scheduled for this height'')
          else (case header_signing_bytes X header of
                  Inl e \<Rightarrow> Err (NCrypto (encoding_error_string e))
                | Inr bs \<Rightarrow>
                    if \<not> kp_verify X proposer bs sig then Err (InvalidBlock ''invalid proposer signature'')
                    else Ok ())
      | (None, None) \<Rightarrow>
          if gen_validators g = [] \<or> is_devnet g then Ok ()
          else Err (InvalidBlock ''validator block requires proposer signature'')
      | _ \<Rightarrow> Err (InvalidBlock ''proposer and signature must be paired''))"

definition check_header :: "('db, 'a) storage_ext_scheme \<Rightarrow> 'db node \<Rightarrow> block_header \<Rightarrow> node_error + unit" where
  "check_header X n header =
     (if bh_chain_id header \<noteq> gen_chain_id (nd_genesis n) then Err (InvalidBlock ''wrong chain ID'')
      else if bh_height header \<noteq> node_height n + 1
      then Err (InvalidBlock (''expected height '' @ show_nat (unat (node_height n + 1)) @ '', got '' @
             show_nat (unat (bh_height header))))
      else case node_latest_hash X n of
        Inl e \<Rightarrow> Err e
      | Inr parent \<Rightarrow>
          if bh_parent_hash header \<noteq> parent then Err (InvalidBlock ''wrong parent hash'')
          else check_proposer X (nd_genesis n) header)"

fun import_transactions ::
    "('a) crypto_ext_scheme \<Rightarrow> state \<Rightarrow> hash list \<Rightarrow> transaction list \<Rightarrow> node_error + state \<times> hash list" where
  "import_transactions X s ids [] = Ok (s, ids)"
| "import_transactions X s ids (tx # txs) =
     (case apply_transaction X s tx of
        (Inl e, _) \<Rightarrow> Err (NState e)
      | (Inr i, s') \<Rightarrow> import_transactions X s' (ids @ [i]) txs)"

text \<open>One of the five lists after the transactions: an operation that was seen before ends the import.\<close>

fun import_lane ::
    "(state \<Rightarrow> 'o \<Rightarrow> hash \<Rightarrow> (state_error + bool) \<times> state) \<Rightarrow> ('o \<Rightarrow> crypto_error + hash) \<Rightarrow> string \<Rightarrow>
     state \<Rightarrow> hash list \<Rightarrow> 'o list \<Rightarrow> node_error + state \<times> hash list" where
  "import_lane run idf what s ids [] = Ok (s, ids)"
| "import_lane run idf what s ids (op # ops) =
     (case crypto_err (idf op) of
        Inl e \<Rightarrow> Err e
      | Inr i \<Rightarrow>
          (case run s op i of
             (Inl e, _) \<Rightarrow> Err (NState e)
           | (Inr fresh, s') \<Rightarrow>
               if \<not> fresh then Err (InvalidBlock (''duplicate '' @ what @ '' operation''))
               else import_lane run idf what s' (ids @ [i]) ops))"

definition import_operations ::
    "('a) state_ext_scheme \<Rightarrow> state \<Rightarrow> block \<Rightarrow> node_error + state \<times> hash list" where
  "import_operations X s b =
     (case import_transactions X s [] (blk_transactions b) of Inl e \<Rightarrow> Err e | Inr (s1, i1) \<Rightarrow>
      (case import_lane (\<lambda>s op _. apply_asset_operation s op) (\<lambda>op. Ok (ao_operation_id op)) ''asset''
              s1 i1 (blk_asset_operations b) of Inl e \<Rightarrow> Err e | Inr (s2, i2) \<Rightarrow>
       (case import_lane (apply_token_operation X) (token_operation_id X) ''token''
               s2 i2 (blk_token_operations b) of Inl e \<Rightarrow> Err e | Inr (s3, i3) \<Rightarrow>
        (case import_lane (\<lambda>s op _. apply_mna_swap X s op) (mna_swap_operation_id X) ''MNA swap''
                s3 i3 (blk_mna_swap_operations b) of Inl e \<Rightarrow> Err e | Inr (s4, i4) \<Rightarrow>
         (case import_lane (\<lambda>s op _. apply_mna_reserve_operation X s op) (mna_reserve_operation_id X) ''MNA reserve''
                 s4 i4 (blk_mna_reserve_operations b) of Inl e \<Rightarrow> Err e | Inr (s5, i5) \<Rightarrow>
          import_lane (\<lambda>s op _. apply_program_operation X s op (bh_height (blk_header b))) (program_operation_id X)
            ''program'' s5 i5 (blk_program_operations b))))))"

definition check_roots ::
    "('a) state_ext_scheme \<Rightarrow> block_header \<Rightarrow> state \<Rightarrow> hash list \<Rightarrow> node_error + unit" where
  "check_roots X header next_state ids =
     (if merkle_root X ids \<noteq> bh_transaction_root header then Err (InvalidBlock ''transaction root mismatch'')
      else case state_root X next_state of
        Inl e \<Rightarrow> Err (NState e)
      | Inr root \<Rightarrow>
          if root \<noteq> bh_state_root header then Err (InvalidBlock ''state root mismatch'') else Ok ())"

definition apply_imported ::
    "('db, 'a) storage_ext_scheme \<Rightarrow> 'db node \<Rightarrow> block \<Rightarrow> hash \<Rightarrow> (node_error + hash) \<times> 'db node" where
  "apply_imported X n b h =
     (case import_operations X (nd_state n) b of
        Inl e \<Rightarrow> (Err e, n)
      | Inr (next_state, ids) \<Rightarrow>
          (case check_roots X (blk_header b) next_state ids of
             Inl e \<Rightarrow> (Err e, n)
           | Inr _ \<Rightarrow>
               (case store_commit X (nd_store n) h b (snapshot next_state) of
                  (Inl e, db) \<Rightarrow> (Err (NStorage e), n\<lparr>nd_store := db\<rparr>)
                | (Inr _, db) \<Rightarrow>
                    (Ok h, n\<lparr>nd_store := db, nd_mempool := mempool_remove_ids X (nd_mempool n) ids,
                       nd_state := next_state, nd_latest_block := b\<rparr>))))"

definition import_block ::
    "('db, 'a) storage_ext_scheme \<Rightarrow> 'db node \<Rightarrow> block \<Rightarrow> (node_error + hash) \<times> 'db node" where
  "import_block X n b =
     (if bh_version (blk_header b) \<noteq> 1 then (Err (InvalidBlock ''unsupported block version''), n)
      else case block_id_for X b of
        Inl e \<Rightarrow> (Err e, n)
      | Inr h \<Rightarrow>
          if is_ok (get_block X (nd_store n) h) then (Ok h, n)
          else case check_header X n (blk_header b) of
            Inl e \<Rightarrow> (Err e, n)
          | Inr _ \<Rightarrow> apply_imported X n b h)"

section \<open>Finality\<close>

fun check_votes ::
    "('a) crypto_ext_scheme \<Rightarrow> vote_encoder \<Rightarrow> validator_set \<Rightarrow> string \<Rightarrow> u64 \<Rightarrow> u64 \<Rightarrow> hash \<Rightarrow> vote list \<Rightarrow>
     node_error + unit" where
  "check_votes X enc vs chain_id height round h [] = Ok ()"
| "check_votes X enc vs chain_id height round h (v # votes) =
     (case validate_vote X enc vs v chain_id height round h of
        Inl e \<Rightarrow> Err (NConsensus (consensus_error_string e))
      | Inr _ \<Rightarrow> check_votes X enc vs chain_id height round h votes)"

definition finalize_votes ::
    "('db, 'a) storage_ext_scheme \<Rightarrow> vote_encoder \<Rightarrow> 'db node \<Rightarrow> vote_set \<Rightarrow> (node_error + u64) \<times> 'db node" where
  "finalize_votes X enc n s =
     (let vs = validator_set_new (gen_validators (nd_genesis n)) in
      case node_latest_hash X n of
        Inl e \<Rightarrow> (Err e, n)
      | Inr latest \<Rightarrow>
          if vs_height s \<noteq> node_height n then (Err (InvalidBlock ''finality vote height is not latest''), n)
          else if vs_block_hash s \<noteq> latest then (Err (InvalidBlock ''finality votes target another block''), n)
          else if \<not> vote_set_is_quorum s vs then (Err (NConsensus (consensus_error_string CNoQuorum)), n)
          else case check_votes X enc vs (gen_chain_id (nd_genesis n)) (vs_height s) (vs_round s) latest
                      (bt_values (vs_votes s)) of
            Inl e \<Rightarrow> (Err e, n)
          | Inr _ \<Rightarrow>
              (case mark_finalized X (nd_store n) (vs_height s) latest of
                 (Inl e, db) \<Rightarrow> (Err (NStorage e), n\<lparr>nd_store := db\<rparr>)
               | (Inr _, db) \<Rightarrow> (Ok (vs_height s), n\<lparr>nd_store := db\<rparr>)))"

section \<open>Opening a node\<close>

definition make_genesis_block :: "('a) state_ext_scheme \<Rightarrow> genesis_config \<Rightarrow> state \<Rightarrow> node_error + block" where
  "make_genesis_block X g s =
     (case state_root X s of
        Inl e \<Rightarrow> Err (NState e)
      | Inr root \<Rightarrow>
          Ok (block_with
            \<lparr>bh_version = 1, bh_chain_id = gen_chain_id g, bh_height = 0, bh_parent_hash = HASH_ZERO,
             bh_timestamp = gen_genesis_time g, bh_transaction_root = merkle_root X [], bh_state_root = root,
             bh_proposer = None, bh_proposer_signature = None\<rparr> no_operations))"

definition restore_node ::
    "('db, 'a) storage_ext_scheme \<Rightarrow> node_config \<Rightarrow> genesis_config \<Rightarrow> 'db \<Rightarrow> node_error + 'db node" where
  "restore_node X cfg g db =
     (case latest_block X db of
        Inl e \<Rightarrow> Err (NStorage e)
      | Inr b \<Rightarrow>
          (case latest_state X db of
             Inl e \<Rightarrow> Err (NStorage e)
           | Inr snap \<Rightarrow>
               if bh_chain_id (blk_header b) \<noteq> gen_chain_id g
               then Err (CorruptChain ''latest block has the wrong chain ID'')
               else (case state_root X (from_snapshot snap) of
                       Inl e \<Rightarrow> Err (CorruptChain (state_error_string e))
                     | Inr root \<Rightarrow>
                         if root \<noteq> bh_state_root (blk_header b)
                         then Err (CorruptChain ''latest state root does not match latest block'')
                         else Ok \<lparr>nd_config = cfg, nd_genesis = g, nd_store = db,
                           nd_state = from_snapshot snap, nd_latest_block = b, nd_mempool = mempool_default,
                           nd_pending_assets = [], nd_pending_tokens = [], nd_pending_swaps = [],
                           nd_pending_reserves = [], nd_pending_programs = []\<rparr>)))"

definition node_open ::
    "('db, 'a) storage_ext_scheme \<Rightarrow> node_config \<Rightarrow> node_error + genesis_config \<Rightarrow> 'db \<Rightarrow>
     (node_error + 'db node) \<times> 'db" where
  "node_open X cfg genesis_file db =
     (case genesis_file of
        Inl e \<Rightarrow> (Err e, db)
      | Inr g \<Rightarrow>
          if gen_chain_id g \<noteq> nc_chain_id cfg then (Err ConfigChainIdMismatch, db)
          else case from_genesis g of
            Inl e \<Rightarrow> (Err (NState e), db)
          | Inr s \<Rightarrow>
              (case make_genesis_block X g s of
                 Inl e \<Rightarrow> (Err e, db)
               | Inr b \<Rightarrow>
                   (case ensure_genesis X db g b (snapshot s) of
                      (Inl e, db') \<Rightarrow> (Err (NStorage e), db')
                    | (Inr _, db') \<Rightarrow> (restore_node X cfg g db', db'))))"

end
