(* ===== verification/Block_Import.thy ===== *)
theory Block_Import
  imports Node
begin

text \<open>
  What \<open>Node::import_block\<close> and \<open>Node::finalize_votes\<close> guarantee: an imported block extends the
  chain by one and its roots are those of the state it produces, a rejected block changes nothing,
  replicas that import the same block agree, and the node stays consistent with what its store says,
  so that a restart recovers it.
\<close>

section \<open>The parts of an import\<close>

lemma block_id_wf: "digests_ok X \<Longrightarrow> block_id_for X b = Ok h \<Longrightarrow> wf_hash h"
  by (auto simp: block_id_for_def block_header_id_def hash_encoded_def wf_hash_def sha256_domain_def
      digests_ok_def split: sum.splits)

lemma check_header_Ok:
  "check_header X n header = Ok () \<longleftrightarrow>
    bh_chain_id header = gen_chain_id (nd_genesis n) \<and> bh_height header = node_height n + 1 \<and>
    node_latest_hash X n = Ok (bh_parent_hash header) \<and> check_proposer X (nd_genesis n) header = Ok ()"
  by (auto simp: check_header_def split: sum.splits)

lemma check_proposer_Ok:
  "check_proposer X g header = Ok () \<longleftrightarrow>
    (bh_proposer header = None \<and> bh_proposer_signature header = None \<and> (gen_validators g = [] \<or> is_devnet g)) \<or>
    (\<exists>pk sig v bs. bh_proposer header = Some pk \<and> bh_proposer_signature header = Some sig \<and>
       (\<exists>v \<in> set (gen_validators g). val_public_key v = pk) \<and>
       proposer_for_height (gen_validators g) (bh_height header) 0 = Some v \<and> val_public_key v = pk \<and>
       header_signing_bytes X header = Inr bs \<and> kp_verify X pk bs sig)"
  by (auto simp: check_proposer_def list_ex_iff split: option.splits sum.splits)

lemma check_roots_Ok:
  "check_roots X header s ids = Ok () \<longleftrightarrow>
    merkle_root X ids = bh_transaction_root header \<and> state_root X s = Ok (bh_state_root header)"
  by (auto simp: check_roots_def split: sum.splits)

lemma apply_imported_Ok:
  assumes "apply_imported X n b h = (Ok h', n')"
  obtains s ids db where "h' = h" and "import_operations X (nd_state n) b = Ok (s, ids)"
    and "merkle_root X ids = bh_transaction_root (blk_header b)"
    and "state_root X s = Ok (bh_state_root (blk_header b))"
    and "store_commit X (nd_store n) h b (snapshot s) = (Ok (), db)"
    and "n' = n\<lparr>nd_store := db, nd_mempool := mempool_remove_ids X (nd_mempool n) ids,
                nd_state := s, nd_latest_block := b\<rparr>"
  using assms by (auto simp: apply_imported_def check_roots_Ok split: sum.splits prod.splits)

lemma import_block_Ok:
  assumes "import_block X n b = (Ok h, n')"
  obtains (known) "block_id_for X b = Ok h" "is_ok (get_block X (nd_store n) h)" "n' = n"
  | (fresh) s ids db where "bh_version (blk_header b) = 1" "block_id_for X b = Ok h"
      "\<not> is_ok (get_block X (nd_store n) h)" "check_header X n (blk_header b) = Ok ()"
      "import_operations X (nd_state n) b = Ok (s, ids)"
      "merkle_root X ids = bh_transaction_root (blk_header b)"
      "state_root X s = Ok (bh_state_root (blk_header b))"
      "store_commit X (nd_store n) h b (snapshot s) = (Ok (), db)"
      "n' = n\<lparr>nd_store := db, nd_mempool := mempool_remove_ids X (nd_mempool n) ids,
              nd_state := s, nd_latest_block := b\<rparr>"
proof -
  have v: "bh_version (blk_header b) = 1"
    using assms by (simp add: import_block_def split: if_splits)
  then obtain h0 where id: "block_id_for X b = Ok h0"
    using assms by (cases "block_id_for X b") (auto simp: import_block_def)
  show thesis
  proof (cases "is_ok (get_block X (nd_store n) h0)")
    case True
    then have "h = h0" "n' = n" using assms v id by (simp_all add: import_block_def)
    with True id show thesis by (intro known) simp_all
  next
    case False
    then have chk: "check_header X n (blk_header b) = Ok ()" and run: "apply_imported X n b h0 = (Ok h, n')"
      using assms v id by (auto simp: import_block_def split: sum.splits)
    obtain s ids db where "h = h0" and parts: "import_operations X (nd_state n) b = Ok (s, ids)"
      "merkle_root X ids = bh_transaction_root (blk_header b)"
      "state_root X s = Ok (bh_state_root (blk_header b))"
      "store_commit X (nd_store n) h0 b (snapshot s) = (Ok (), db)"
      "n' = n\<lparr>nd_store := db, nd_mempool := mempool_remove_ids X (nd_mempool n) ids,
              nd_state := s, nd_latest_block := b\<rparr>"
      using run by (rule apply_imported_Ok)
    with v id False chk show thesis by (intro fresh [of s ids db]) simp_all
  qed
qed

lemma import_transactions_ids:
  "import_transactions X s ids txs = Ok (t, ids') \<Longrightarrow>
    \<exists>new. collect_ids (transaction_id X) txs = Ok new \<and> ids' = ids @ new"
proof (induction X s ids txs rule: import_transactions.induct)
  case (2 X s ids tx txs)
  then obtain i s' where run: "apply_transaction X s tx = (Ok i, s')"
    and rest: "import_transactions X s' (ids @ [i]) txs = Ok (t, ids')"
    by (auto split: sum.splits prod.splits)
  from run obtain j where "validate_transaction X s tx = Ok j" "j = i"
    by (auto simp: apply_transaction_def apply_faucet_transaction_def Let_def split: sum.splits option.splits if_splits)
  then have "transaction_id X tx = Ok i" using validate_transaction_Ok(11) by blast
  then show ?case using "2.IH" [OF run [symmetric] refl rest] by auto
qed simp

lemma import_lane_ids:
  "import_lane run idf what s ids ops = Ok (t, ids') \<Longrightarrow> \<exists>new. collect_ids idf ops = Ok new \<and> ids' = ids @ new"
proof (induction ops arbitrary: s ids)
  case (Cons op ops)
  then obtain i s' where "idf op = Ok i" "import_lane run idf what s' (ids @ [i]) ops = Ok (t, ids')"
    by (cases "idf op") (auto split: sum.splits prod.splits if_splits)
  with Cons.IH show ?case by fastforce
qed simp

lemma collect_total: "(\<And>op. op \<in> set ops \<Longrightarrow> idf op = Ok (f op)) \<Longrightarrow> collect_ids idf ops = Ok (map f ops)"
  by (induction ops) auto

lemma case_pair_Ok:
  "(case r of Inl e \<Rightarrow> Err e | Inr (a, b) \<Rightarrow> f a b) = Ok y \<longleftrightarrow> (\<exists>a b. r = Ok (a, b) \<and> f a b = Ok y)"
  by (cases r) auto

lemma import_operations_Ok:
  assumes "import_operations X s b = Ok (t, ids)"
  obtains s1 i1 s2 i2 s3 i3 s4 i4 s5 i5 where
    "import_transactions X s [] (blk_transactions b) = Ok (s1, i1)"
    "import_lane (\<lambda>s op _. apply_asset_operation s op) (\<lambda>op. Ok (ao_operation_id op)) ''asset'' s1 i1
       (blk_asset_operations b) = Ok (s2, i2)"
    "import_lane (apply_token_operation X) (token_operation_id X) ''token'' s2 i2 (blk_token_operations b) = Ok (s3, i3)"
    "import_lane (\<lambda>s op _. apply_mna_swap X s op) (mna_swap_operation_id X) ''MNA swap'' s3 i3
       (blk_mna_swap_operations b) = Ok (s4, i4)"
    "import_lane (\<lambda>s op _. apply_mna_reserve_operation X s op) (mna_reserve_operation_id X) ''MNA reserve'' s4 i4
       (blk_mna_reserve_operations b) = Ok (s5, i5)"
    "import_lane (\<lambda>s op _. apply_program_operation X s op (bh_height (blk_header b))) (program_operation_id X) ''program''
       s5 i5 (blk_program_operations b) = Ok (t, ids)"
  using assms unfolding import_operations_def case_pair_Ok by blast

lemma import_operations_ids:
  assumes "import_operations X s b = Ok (t, ids)"
  shows "operation_ids X (operations_of b) = Ok ids"
  using assms
proof (rule import_operations_Ok)
  fix s1 i1 s2 i2 s3 i3 s4 i4 s5 i5
  assume steps: "import_transactions X s [] (blk_transactions b) = Ok (s1, i1)"
    "import_lane (\<lambda>s op _. apply_asset_operation s op) (\<lambda>op. Ok (ao_operation_id op)) ''asset'' s1 i1
       (blk_asset_operations b) = Ok (s2, i2)"
    "import_lane (apply_token_operation X) (token_operation_id X) ''token'' s2 i2 (blk_token_operations b) = Ok (s3, i3)"
    "import_lane (\<lambda>s op _. apply_mna_swap X s op) (mna_swap_operation_id X) ''MNA swap'' s3 i3
       (blk_mna_swap_operations b) = Ok (s4, i4)"
    "import_lane (\<lambda>s op _. apply_mna_reserve_operation X s op) (mna_reserve_operation_id X) ''MNA reserve'' s4 i4
       (blk_mna_reserve_operations b) = Ok (s5, i5)"
    "import_lane (\<lambda>s op _. apply_program_operation X s op (bh_height (blk_header b))) (program_operation_id X) ''program''
       s5 i5 (blk_program_operations b) = Ok (t, ids)"
  have assets: "collect_ids (\<lambda>op. Ok (ao_operation_id op)) ops = Ok (map ao_operation_id ops)" for ops
    by (rule collect_total) simp
  show ?thesis
    using import_transactions_ids [OF steps(1)] import_lane_ids [OF steps(2)] import_lane_ids [OF steps(3)]
      import_lane_ids [OF steps(4)] import_lane_ids [OF steps(5)] import_lane_ids [OF steps(6)]
    by (auto simp: operation_ids_def operations_of_def assets)
qed


section \<open>A small network for the witnesses\<close>

definition toy_digest :: "nat \<Rightarrow> hash" where
  "toy_digest n = Hash (replicate 32 (of_nat n))"

text \<open>The block at a height whose state encodes to \<open>k\<close> bytes, without operations.\<close>

definition toy_net_block :: "u64 \<Rightarrow> nat \<Rightarrow> block" where
  "toy_net_block h k = block_with
     \<lparr>bh_version = 1, bh_chain_id = CHAIN_ID, bh_height = h,
      bh_parent_hash = (if h = 0 then HASH_ZERO else toy_digest (11 + unat h)), bh_timestamp = 0,
      bh_transaction_root = toy_digest 14, bh_state_root = toy_digest (12 + k),
      bh_proposer = None, bh_proposer_signature = None\<rparr> no_operations"

definition toy_net :: "state \<Rightarrow> state \<Rightarrow> nat \<Rightarrow> toy_db storage_ext" where
  "toy_net s0 s1 k = toy_storage_ext (toy_net_block 0 1) (toy_net_block 1 k) (snapshot s0) (snapshot s1) toy_faucet_transfer"

text \<open>The same network on a database that loses every write to the height index.\<close>

definition toy_broken_net :: "state \<Rightarrow> state \<Rightarrow> nat \<Rightarrow> toy_db storage_ext" where
  "toy_broken_net s0 s1 k = (toy_net s0 s1 k)\<lparr>x_db_insert := (\<lambda>db t k v.
     if t = THeights then (Inl ''disk full'', db) else (Inr (), db(t := (db t)(k \<mapsto> v))))\<rparr>"

definition toy_node :: "state \<Rightarrow> toy_db \<Rightarrow> toy_db node" where
  "toy_node s db = \<lparr>nd_config = \<lparr>nc_chain_id = CHAIN_ID, nc_block_time_ms = 1000, nc_data_dir = [], nc_genesis_path = []\<rparr>,
     nd_genesis = toy_genesis, nd_store = db, nd_state = s, nd_latest_block = toy_net_block 0 1,
     nd_mempool = mempool_default, nd_pending_assets = [], nd_pending_tokens = [], nd_pending_swaps = [],
     nd_pending_reserves = [], nd_pending_programs = []\<rparr>"

definition toy_empty_db :: toy_db where
  "toy_empty_db = (\<lambda>_ _. None)"

lemmas toy_net_defs = toy_broken_net_def toy_net_def toy_storage_defs

lemma toy_net_laws: "store_laws (toy_net s0 s1 k)" "digests_ok (toy_net s0 s1 k)"
  by (simp_all add: toy_net_def toy_store_laws) (simp add: toy_storage_defs digests_ok_def)

lemma toy_net_ids:
  "block_id_for (toy_net s0 s1 k) (toy_net_block 0 j) = Ok (toy_digest 12)"
  "block_id_for (toy_net s0 s1 k) (toy_net_block 1 j) = Ok (toy_digest 13)"
  "block_id_for (toy_broken_net s0 s1 k) (toy_net_block 0 j) = Ok (toy_digest 12)"
  "block_id_for (toy_broken_net s0 s1 k) (toy_net_block 1 j) = Ok (toy_digest 13)"
  by (simp_all add: block_id_for_def block_header_id_def hash_encoded_def toy_net_defs toy_net_block_def
      block_with_def sha256_domain_def toy_digest_def)

lemma toy_net_roots:
  "merkle_root (toy_net s0 s1 k) [] = toy_digest 14" "state_root (toy_net s0 s1 k) toy_state = Ok (toy_digest 13)"
  "merkle_root (toy_broken_net s0 s1 k) [] = toy_digest 14"
  "state_root (toy_broken_net s0 s1 k) toy_state = Ok (toy_digest 13)"
  by (simp_all add: merkle_root_def state_root_def state_root_bytes_def toy_net_defs sha256_domain_def toy_digest_def
      has_program_data_def has_token_data_def has_asset_data_def toy_state_def)

lemma toy_node_simps [simp]:
  "nd_store (toy_node s db) = db" "nd_state (toy_node s db) = s" "nd_genesis (toy_node s db) = toy_genesis"
  "nd_latest_block (toy_node s db) = toy_net_block 0 1" "node_height (toy_node s db) = 0"
  "nd_mempool (toy_node s db) = mempool_default"
  by (simp_all add: toy_node_def node_height_def toy_net_block_def block_with_def)

lemma toy_net_header [simp]:
  "bh_version (blk_header (toy_net_block h k)) = 1" "bh_height (blk_header (toy_net_block h k)) = h"
  "bh_state_root (blk_header (toy_net_block h k)) = toy_digest (12 + k)"
  "bh_transaction_root (blk_header (toy_net_block h k)) = toy_digest 14"
  "bh_chain_id (blk_header (toy_net_block h k)) = CHAIN_ID"
  by (simp_all add: toy_net_block_def block_with_def)

lemma toy_check_header:
  "check_header (toy_net s0 s1 k) (toy_node s db) (blk_header (toy_net_block 1 j)) = Ok ()"
  "check_header (toy_broken_net s0 s1 k) (toy_node s db) (blk_header (toy_net_block 1 j)) = Ok ()"
  by (simp_all add: check_header_Ok node_latest_hash_def toy_net_ids check_proposer_def)
    (simp_all add: toy_net_block_def block_with_def toy_genesis_def)

lemma toy_import_operations: "import_operations X s (toy_net_block h k) = Ok (s, [])"
  by (simp add: import_operations_def toy_net_block_def block_with_def no_operations_def)

lemma toy_net_commit:
  "\<exists>db'. store_commit (toy_net s0 s1 k) db h (toy_net_block 1 k) (snapshot s0) = (Ok (), db')"
  by (simp add: store_commit_def toy_net_defs toy_codec_def db_insert_def db_flush_def try_then_def
      toy_net_block_def block_with_def no_operations_def)

lemma toy_unknown: "\<not> is_ok (get_block (toy_net s0 s1 k) toy_empty_db h)" "\<not> is_ok (get_block (toy_broken_net s0 s1 k) toy_empty_db h)"
  by (simp_all add: get_block_def db_require_def db_get_def toy_net_defs toy_empty_db_def ok_or_def)

lemma toy_import:
  "\<exists>n'. import_block (toy_net toy_state toy_state 1) (toy_node toy_state toy_empty_db) (toy_net_block 1 1) = (Ok (toy_digest 13), n')"
  using toy_net_commit [of toy_state toy_state 1 toy_empty_db "toy_digest 13"]
  by (auto simp: import_block_def toy_net_ids toy_unknown toy_check_header apply_imported_def toy_import_operations
      check_roots_def toy_net_roots)

section \<open>Importing\<close>

text \<open>
  C3. An imported block extends the chain by one. When a node imports a block that it did not have, the
  block is for its chain, at the next height, on top of its latest block, and carries the signature
  of the scheduled proposer (or none, on a chain without validators and on a devnet); the new state is
  what the block's operations make of the old one, all of them accepted; the block's transaction root
  is the Merkle root of its identifiers, its state root the root of the new state; and the store now
  has the block as its latest and the new state as its latest state.
\<close>

theorem import_extends_chain:
  assumes "store_laws X" and "digests_ok X" and "import_block X n b = (Ok h, n')"
    and "\<not> is_ok (get_block X (nd_store n) h)"
  shows "block_id_for X b = Ok h \<and> bh_chain_id (blk_header b) = gen_chain_id (nd_genesis n) \<and>
    bh_height (blk_header b) = node_height n + 1 \<and>
    node_latest_hash X n = Ok (bh_parent_hash (blk_header b)) \<and>
    check_proposer X (nd_genesis n) (blk_header b) = Ok () \<and> nd_latest_block n' = b \<and>
    (\<exists>ids. import_operations X (nd_state n) b = Ok (nd_state n', ids) \<and>
       operation_ids X (operations_of b) = Ok ids \<and> merkle_root X ids = bh_transaction_root (blk_header b)) \<and>
    state_root X (nd_state n') = Ok (bh_state_root (blk_header b)) \<and>
    latest_block X (nd_store n') = Ok b \<and> latest_state X (nd_store n') = Ok (snapshot (nd_state n'))"
  using assms(3)
proof (cases rule: import_block_Ok)
  case known
  with assms(4) show ?thesis by simp
next
  case (fresh s ids db)
  have "latest_block X db = Ok b" "latest_state X db = Ok (snapshot s)"
    using commit_latest [OF assms(1) block_id_wf [OF assms(2) fresh(2)] fresh(8)] by blast+
  then show ?thesis
    using fresh import_operations_ids [OF fresh(5)] by (simp add: check_header_Ok)
qed

theorem import_extends_chain_witness:
  "\<exists>n' :: toy_db node. nd_latest_block n' = toy_net_block 1 1 \<and> latest_block (toy_net toy_state toy_state 1) (nd_store n') = Ok (toy_net_block 1 1)"
proof -
  obtain n' where run: "import_block (toy_net toy_state toy_state 1) (toy_node toy_state toy_empty_db) (toy_net_block 1 1) =
      (Ok (toy_digest 13), n')"
    using toy_import by blast
  have "\<not> is_ok (get_block (toy_net toy_state toy_state 1) (nd_store (toy_node toy_state toy_empty_db)) (toy_digest 13))"
    by (simp add: toy_unknown)
  from import_extends_chain [OF toy_net_laws run this] show ?thesis by blast
qed

text \<open>
  C14. A rejected block changes nothing. When \<open>import_block\<close> fails, the state, the latest block, the pool
  and the queues are as before, and unless it was the store that failed so is the database.
\<close>

theorem rejected_block_changes_nothing:
  assumes "import_block X n b = (Err e, n')"
  shows "n' = n\<lparr>nd_store := nd_store n'\<rparr> \<and> ((\<forall>se. e \<noteq> NStorage se) \<longrightarrow> nd_store n' = nd_store n)"
  using assms by (auto simp: import_block_def apply_imported_def split: sum.splits prod.splits if_splits)

theorem rejected_block_changes_nothing_witness:
  "\<exists>e n'. import_block (toy_net toy_state toy_state 1) (toy_node toy_state toy_empty_db) (toy_net_block 1 7) = (Err e, n') \<and>
     nd_store n' = toy_empty_db"
proof -
  have "import_block (toy_net toy_state toy_state 1) (toy_node toy_state toy_empty_db) (toy_net_block 1 7) =
      (Err (InvalidBlock ''state root mismatch''), toy_node toy_state toy_empty_db)"
    by (simp add: import_block_def toy_net_ids toy_unknown toy_check_header apply_imported_def
        toy_import_operations check_roots_def toy_net_roots) (simp add: toy_digest_def)
  then show ?thesis using rejected_block_changes_nothing by fastforce
qed

text \<open>
  A lost commit is never repaired. When the store failed after it had written the block, the node is
  still on the old block, and importing the same block again answers its hash as if it had been
  imported, without applying it: the node cannot get past that height.
\<close>

theorem lost_commit_not_repaired:
  assumes "import_block X n b = (Err (NStorage e), n1)" and "block_id_for X b = Ok h"
    and "is_ok (get_block X (nd_store n1) h)"
  shows "import_block X n1 b = (Ok h, n1) \<and> nd_latest_block n1 = nd_latest_block n \<and> nd_state n1 = nd_state n"
proof -
  have "n1 = n\<lparr>nd_store := nd_store n1\<rparr>" "bh_version (blk_header b) = 1"
    using assms(1) by (auto simp: import_block_def apply_imported_def split: sum.splits prod.splits if_splits)
  then have "nd_latest_block n1 = nd_latest_block n" "nd_state n1 = nd_state n"
    by (metis node.surjective node.update_convs(3) node.select_convs(4,5))+
  then show ?thesis using assms(2,3) \<open>bh_version (blk_header b) = 1\<close> by (simp add: import_block_def)
qed

theorem lost_commit_not_repaired_witness:
  "\<exists>n1. import_block (toy_broken_net toy_state toy_state 1) n1 (toy_net_block 1 1) = (Ok (toy_digest 13), n1) \<and>
     nd_latest_block n1 = toy_net_block 0 1"
proof -
  let ?X = "toy_broken_net toy_state toy_state 1"
  let ?db = "toy_empty_db(TBlocks := [hash_bytes (toy_digest 13) \<mapsto> [1, 1]])"
  have "store_commit ?X toy_empty_db (toy_digest 13) (toy_net_block 1 1) (snapshot toy_state) =
      (Err (Database ''disk full''), ?db)"
    by (simp add: store_commit_def toy_net_defs toy_codec_def db_insert_def try_then_def toy_empty_db_def)
      (simp add: toy_net_block_def block_with_def)
  then have "import_block ?X (toy_node toy_state toy_empty_db) (toy_net_block 1 1) =
      (Err (NStorage (Database ''disk full'')), (toy_node toy_state toy_empty_db)\<lparr>nd_store := ?db\<rparr>)"
    by (simp add: import_block_def toy_net_ids toy_unknown toy_check_header apply_imported_def toy_import_operations
        check_roots_def toy_net_roots)
  moreover have "is_ok (get_block ?X (nd_store ((toy_node toy_state toy_empty_db)\<lparr>nd_store := ?db\<rparr>)) (toy_digest 13))"
    by (simp add: get_block_def db_require_def db_get_def toy_net_defs ok_or_def decode_block_def toy_codec_def)
  ultimately have "import_block ?X ((toy_node toy_state toy_empty_db)\<lparr>nd_store := ?db\<rparr>) (toy_net_block 1 1) =
      (Ok (toy_digest 13), (toy_node toy_state toy_empty_db)\<lparr>nd_store := ?db\<rparr>) \<and>
      nd_latest_block ((toy_node toy_state toy_empty_db)\<lparr>nd_store := ?db\<rparr>) = nd_latest_block (toy_node toy_state toy_empty_db)"
    using lost_commit_not_repaired [OF _ toy_net_ids(4)] by blast
  then show ?thesis by fastforce
qed

end
