(* ===== verification/Replication.thy ===== *)
theory Replication
  imports Block_Import
begin

text \<open>
  Nodes that follow a chain: what a sequence of imports does to the node, to its state and to its
  store. The store is used through the contract \<open>block_store\<close>, interpreted by \<open>chain_store\<close>.
\<close>

section \<open>Following a chain\<close>

text \<open>The node imports the blocks one after the other, each new to it, without an error.\<close>

inductive follows ::
    "('db, 'a) storage_ext_scheme \<Rightarrow> 'db node \<Rightarrow> block list \<Rightarrow> 'db node \<Rightarrow> bool" for X where
  none: "follows X n [] n"
| import: "import_block X n b = (Ok h, n') \<Longrightarrow> \<not> is_ok (get_block X (nd_store n) h) \<Longrightarrow> follows X n' bs m \<Longrightarrow>
    follows X n (b # bs) m"

inductive_cases follows_NilE: "follows X n [] m"
inductive_cases follows_ConsE: "follows X n (b # bs) m"

text \<open>The ledger that a list of blocks makes of a state.\<close>

fun replay :: "('a) state_ext_scheme \<Rightarrow> state \<Rightarrow> block list \<Rightarrow> node_error + state" where
  "replay X s [] = Ok s"
| "replay X s (b # bs) =
     (case import_operations X s b of Inl e \<Rightarrow> Err e | Inr (s', _) \<Rightarrow> replay X s' bs)"

text \<open>Consecutive heights from the given one, and every parent hash is the hash of the block before.\<close>

fun linked :: "('a) crypto_ext_scheme \<Rightarrow> block \<Rightarrow> block list \<Rightarrow> bool" where
  "linked X p [] = True"
| "linked X p (b # bs) =
     (bh_height (blk_header b) = bh_height (blk_header p) + 1 \<and>
      block_id_for X p = Ok (bh_parent_hash (blk_header b)) \<and> linked X b bs)"

definition last_block :: "block \<Rightarrow> block list \<Rightarrow> block" where
  "last_block p bs = (if bs = [] then p else last bs)"

lemma import_fresh:
  assumes "import_block X n b = (Ok h, n')" and "\<not> is_ok (get_block X (nd_store n) h)"
  obtains s ids db where "block_id_for X b = Ok h" "check_header X n (blk_header b) = Ok ()"
    "import_operations X (nd_state n) b = Ok (s, ids)" "store_commit X (nd_store n) h b (snapshot s) = (Ok (), db)"
    "n' = n\<lparr>nd_store := db, nd_mempool := mempool_remove_ids X (nd_mempool n) ids, nd_state := s, nd_latest_block := b\<rparr>"
    "state_root X s = Ok (bh_state_root (blk_header b))"
  using assms(1)
proof (cases rule: import_block_Ok)
  case known
  with assms(2) show ?thesis by simp
next
  case (fresh s ids db)
  then show ?thesis by (intro that)
qed

lemma follows_replay: "follows X n bs m \<Longrightarrow> replay X (nd_state n) bs = Ok (nd_state m)"
proof (induction rule: follows.induct)
  case (import n b h n' bs m)
  from import(1,2) show ?case by (rule import_fresh) (use import(4) in simp)
qed simp

lemma follows_linked: "follows X n bs m \<Longrightarrow> linked X (nd_latest_block n) bs \<and> nd_latest_block m = last_block (nd_latest_block n) bs"
proof (induction rule: follows.induct)
  case (import n b h n' bs m)
  from import(1,2) show ?case
    by (rule import_fresh)
      (use import(4) in \<open>auto simp: check_header_Ok node_height_def node_latest_hash_def last_block_def\<close>)
qed (simp add: last_block_def)

lemma follows_genesis: "follows X n bs m \<Longrightarrow> nd_genesis m = nd_genesis n"
proof (induction rule: follows.induct)
  case (import n b h n' bs m)
  from import(1,2) show ?case by (rule import_fresh) (use import(4) in simp)
qed simp

text \<open>
  C4. Replicas agree. Two nodes in the same state on the same block that follow the same list of blocks,
  whatever their stores and pools hold, end in the same state on the same block: the state is the one
  that the operations of the blocks make of the first, and the blocks are a chain on top of it.
\<close>

theorem replicas_agree:
  assumes "follows X n1 bs m1" and "follows X n2 bs m2" and "nd_state n1 = nd_state n2"
    and "nd_latest_block n1 = nd_latest_block n2"
  shows "nd_state m1 = nd_state m2 \<and> nd_latest_block m1 = nd_latest_block m2 \<and>
    replay X (nd_state n1) bs = Ok (nd_state m1) \<and> linked X (nd_latest_block n1) bs"
  using follows_replay [OF assms(1)] follows_replay [OF assms(2)] follows_linked [OF assms(1)]
    follows_linked [OF assms(2)] assms(3,4) by simp

lemma toy_follows:
  "\<exists>m. follows (toy_net toy_state toy_state 1) (toy_node toy_state toy_empty_db) [toy_net_block 1 1] m"
proof -
  obtain n' where run: "import_block (toy_net toy_state toy_state 1) (toy_node toy_state toy_empty_db) (toy_net_block 1 1) =
      (Ok (toy_digest 13), n')"
    using toy_import by blast
  have "\<not> is_ok (get_block (toy_net toy_state toy_state 1) (nd_store (toy_node toy_state toy_empty_db)) (toy_digest 13))"
    by (simp add: toy_unknown)
  with run show ?thesis by (blast intro: follows.intros)
qed

theorem replicas_agree_witness:
  "\<exists>m :: toy_db node. nd_latest_block m = toy_net_block 1 1 \<and>
     replay (toy_net toy_state toy_state 1) toy_state [toy_net_block 1 1] = Ok (nd_state m) \<and>
     linked (toy_net toy_state toy_state 1) (toy_net_block 0 1) [toy_net_block 1 1]"
proof -
  obtain m where m: "follows (toy_net toy_state toy_state 1) (toy_node toy_state toy_empty_db) [toy_net_block 1 1] m"
    using toy_follows by blast
  have "nd_latest_block m = toy_net_block 1 1" using follows_linked [OF m] by (simp add: last_block_def)
  with replicas_agree [OF m m refl refl] show ?thesis by auto
qed

section \<open>The store of a follower\<close>

lemma linked_heights:
  "linked X p bs \<Longrightarrow> unat (bh_height (blk_header p)) + length bs < 2 ^ 64 \<Longrightarrow>
   \<forall>i < length bs. unat (bh_height (blk_header (bs ! i))) = unat (bh_height (blk_header p)) + i + 1"
proof (induction bs arbitrary: p)
  case (Cons b bs)
  have "unat (bh_height (blk_header b)) = unat (bh_height (blk_header p)) + 1"
    using Cons.prems by (simp add: unat_word_ariths)
  then show ?case using Cons by (auto simp: less_Suc_eq_0_disj nth_Cons split: nat.split)
qed simp

lemma linked_distinct:
  assumes "linked X p bs" and "unat (bh_height (blk_header p)) + length bs < 2 ^ 64"
  shows "distinct (map (\<lambda>b. bh_height (blk_header b)) bs)"
proof -
  have "bh_height (blk_header (bs ! i)) = bh_height (blk_header (bs ! j)) \<longrightarrow> i = j"
    if "i < length bs" "j < length bs" for i j
  proof
    assume "bh_height (blk_header (bs ! i)) = bh_height (blk_header (bs ! j))"
    then have "unat (bh_height (blk_header (bs ! i))) = unat (bh_height (blk_header (bs ! j)))" by simp
    then show "i = j" using linked_heights [OF assms] that by simp
  qed
  then show ?thesis by (simp add: distinct_conv_nth) blast
qed

text \<open>The commits that a follower makes: one for every block, with hashes that were not in the store.\<close>

lemma follows_commits:
  assumes "store_laws X" and "digests_ok X" and "follows X n bs m"
  obtains cs where "commit_all (store_commit X) (nd_store n) cs = (Ok (), nd_store m)"
    and "map (\<lambda>c. fst (snd c)) cs = bs" and "distinct (map fst cs)"
    and "\<forall>c \<in> set cs. wf_hash (fst c) \<and> \<not> is_ok (get_block X (nd_store n) (fst c)) \<and>
      block_id_for X (fst (snd c)) = Ok (fst c)"
    and "cs \<noteq> [] \<longrightarrow> snd (snd (last cs)) = snapshot (nd_state m)"
  using assms(3)
proof (induction arbitrary: thesis rule: follows.induct)
  case (none n)
  show ?case by (rule none [of "[]"]) simp_all
next
  case (import n b h n' bs m)
  obtain s ids db where id: "block_id_for X b = Ok h" and run: "store_commit X (nd_store n) h b (snapshot s) = (Ok (), db)"
    and n': "n' = n\<lparr>nd_store := db, nd_mempool := mempool_remove_ids X (nd_mempool n) ids, nd_state := s, nd_latest_block := b\<rparr>"
    using import(1,2) by (rule import_fresh)
  obtain cs where cs: "commit_all (store_commit X) (nd_store n') cs = (Ok (), nd_store m)"
    "map (\<lambda>c. fst (snd c)) cs = bs" "distinct (map fst cs)"
    "\<forall>c \<in> set cs. wf_hash (fst c) \<and> \<not> is_ok (get_block X (nd_store n') (fst c)) \<and>
      block_id_for X (fst (snd c)) = Ok (fst c)"
    "cs \<noteq> [] \<longrightarrow> snd (snd (last cs)) = snapshot (nd_state m)"
    using import.IH by blast
  have get: "get_block X (nd_store n') h' = (if h' = h then Ok b else get_block X (nd_store n) h')" for h'
    using commit_get_block [OF assms(1) run] by (simp add: n')
  have wf: "wf_hash h" by (rule block_id_wf [OF assms(2) id])
  have new: "h \<notin> fst ` set cs" and old: "\<forall>c \<in> set cs. \<not> is_ok (get_block X (nd_store n) (fst c))"
    using cs(4) get by (auto split: if_splits)
  have empty: "cs = [] \<longrightarrow> m = n'" using cs(2) import(3) by (auto elim: follows_NilE)
  show ?case
  proof (rule import.prems [of "(h, b, snapshot s) # cs"])
    show "commit_all (store_commit X) (nd_store n) ((h, b, snapshot s) # cs) = (Ok (), nd_store m)"
      using run cs(1) by (simp add: try_then_def n')
    show "\<forall>c \<in> set ((h, b, snapshot s) # cs). wf_hash (fst c) \<and> \<not> is_ok (get_block X (nd_store n) (fst c)) \<and>
        block_id_for X (fst (snd c)) = Ok (fst c)"
      using cs(4) old wf id import(2) by auto
    show "(h, b, snapshot s) # cs \<noteq> [] \<longrightarrow> snd (snd (last ((h, b, snapshot s) # cs))) = snapshot (nd_state m)"
      using cs(5) empty by (auto simp: n')
  qed (use cs(2,3) new in auto)
qed

lemma followed_blocks:
  assumes "store_laws X" and "digests_ok X" and "follows X n bs m" and "bs \<noteq> []"
    and "unat (node_height n) + length bs < 2 ^ 64"
  shows "\<forall>b \<in> set bs. get_block_by_height X (nd_store m) (bh_height (blk_header b)) = Ok b \<and>
      (\<exists>h. block_id_for X b = Ok h \<and> get_block X (nd_store m) h = Ok b)"
    and "latest_block X (nd_store m) = Ok (nd_latest_block m)"
    and "latest_state X (nd_store m) = Ok (snapshot (nd_state m))"
proof -
  obtain cs where cs: "commit_all (store_commit X) (nd_store n) cs = (Ok (), nd_store m)"
    "map (\<lambda>c. fst (snd c)) cs = bs" "distinct (map fst cs)"
    "\<forall>c \<in> set cs. wf_hash (fst c) \<and> \<not> is_ok (get_block X (nd_store n) (fst c)) \<and>
      block_id_for X (fst (snd c)) = Ok (fst c)"
    "cs \<noteq> [] \<longrightarrow> snd (snd (last cs)) = snapshot (nd_state m)"
    using follows_commits [OF assms(1-3)] by blast
  have "cs \<noteq> []" using cs(2) assms(4) by auto
  have link: "linked X (nd_latest_block n) bs" "nd_latest_block m = last bs"
    using follows_linked [OF assms(3)] assms(4) by (simp_all add: last_block_def)
  have "distinct (map (\<lambda>b. bh_height (blk_header b)) bs)"
    using linked_distinct [OF link(1)] assms(5) by (simp add: node_height_def)
  then have "distinct (map (\<lambda>c. bh_height (blk_header (fst (snd c)))) cs)"
    unfolding cs(2) [symmetric] by (simp add: comp_def)
  then have read: "\<forall>(h, b, s) \<in> set cs. get_block X (nd_store m) h = Ok b \<and>
      get_block_by_height X (nd_store m) (bh_height (blk_header b)) = Ok b"
    using chain_store.chain_readable [OF cs(1)] assms(1) cs(3,4) by blast
  have "\<exists>c \<in> set cs. b = fst (snd c)" if "b \<in> set bs" for b using that cs(2) by auto
  then show "\<forall>b \<in> set bs. get_block_by_height X (nd_store m) (bh_height (blk_header b)) = Ok b \<and>
      (\<exists>h. block_id_for X b = Ok h \<and> get_block X (nd_store m) h = Ok b)"
    using read cs(4) by (fastforce simp: case_prod_beta)
  have "fst (snd (last cs)) = last bs" using \<open>cs \<noteq> []\<close> by (simp add: cs(2) [symmetric] last_map)
  then show "latest_block X (nd_store m) = Ok (nd_latest_block m)" "latest_state X (nd_store m) = Ok (snapshot (nd_state m))"
    using chain_store.chain_tip [OF cs(1)] assms(1) cs(4,5) \<open>cs \<noteq> []\<close> link(2) by simp_all
qed

text \<open>
  A follower's store is the chain. After following a list of blocks (below the last height of 64 bits)
  every one of them can be read from the store, by its hash and by its height, and the store's latest
  block and state are those of the node.
\<close>

theorem followed_chain_readable:
  assumes "store_laws X" and "digests_ok X" and "follows X n bs m" and "bs \<noteq> []"
    and "unat (node_height n) + length bs < 2 ^ 64"
  shows "(\<forall>b \<in> set bs. get_block_by_height X (nd_store m) (bh_height (blk_header b)) = Ok b \<and>
      (\<exists>h. block_id_for X b = Ok h \<and> get_block X (nd_store m) h = Ok b)) \<and>
    latest_block X (nd_store m) = Ok (nd_latest_block m) \<and>
    latest_state X (nd_store m) = Ok (snapshot (nd_state m))"
  using followed_blocks [OF assms] by blast

theorem followed_chain_readable_witness:
  "\<exists>m :: toy_db node. get_block_by_height (toy_net toy_state toy_state 1) (nd_store m) 1 = Ok (toy_net_block 1 1)"
proof -
  obtain m where m: "follows (toy_net toy_state toy_state 1) (toy_node toy_state toy_empty_db) [toy_net_block 1 1] m"
    using toy_follows by blast
  from followed_chain_readable [OF toy_net_laws m] show ?thesis by auto
qed

end
