(* ===== verification/Block_Production.thy ===== *)
theory Block_Production
  imports Replication
begin

text \<open>
  The blocks that \<open>Node::produce_block_with_proposer\<close> and \<open>Node::faucet\<close> make, as the peers see them.
  A peer in the same state imports a produced block when every queued operation either succeeded for
  the first time or left the state alone; the block of the devnet credit, and a signed block on a
  chain without validators, are made but not imported by anyone.
\<close>

section \<open>A produced block and its queues\<close>

text \<open>
  The operations of a queue, run one after the other, each succeed with an accepted result or leave
  the state as it was.
\<close>

fun lane_clean :: "('s \<Rightarrow> 'o \<Rightarrow> ('e + bool) \<times> 's) \<Rightarrow> 's \<Rightarrow> 'o list \<Rightarrow> bool" where
  "lane_clean run s [] = True"
| "lane_clean run s (op # ops) =
     ((case run s op of (Inl e, s') \<Rightarrow> s' = s | (Inr fresh, s') \<Rightarrow> fresh) \<and> lane_clean run (snd (run s op)) ops)"

fun transactions_clean :: "('db, 'a) storage_ext_scheme \<Rightarrow> 'db \<Rightarrow> state \<Rightarrow> transaction list \<Rightarrow> bool" where
  "transactions_clean X db s [] = True"
| "transactions_clean X db s (tx # txs) =
     (case transaction_id X tx of
        Inl e \<Rightarrow> True
      | Inr i \<Rightarrow>
          if is_ok (get_transaction X db i) then transactions_clean X db s txs
          else (is_ok (fst (apply_transaction X s tx)) \<or> snd (apply_transaction X s tx) = s) \<and>
            transactions_clean X db (snd (apply_transaction X s tx)) txs)"

text \<open>A token operation with its own identifier, as both sides apply it.\<close>

definition token_run ::
    "('a) crypto_ext_scheme \<Rightarrow> state \<Rightarrow> token_operation \<Rightarrow> (state_error + bool) \<times> state" where
  "token_run X s op =
     (case token_operation_id X op of
        Inl e \<Rightarrow> (Err InvalidTokenId, s)
      | Inr i \<Rightarrow> apply_token_operation X s op i)"

definition queues_clean :: "('db, 'a) storage_ext_scheme \<Rightarrow> 'db node \<Rightarrow> bool" where
  "queues_clean X n =
     (transactions_clean X (nd_store n) (nd_state n) (mp_transactions (nd_mempool n)) \<and>
      (\<forall>txs s1. produce_transactions X (nd_store n) (nd_state n) (mp_transactions (nd_mempool n)) = Ok (txs, s1) \<longrightarrow>
        lane_clean apply_asset_operation s1 (nd_pending_assets n) \<and>
        (let s2 = snd (produce_lane apply_asset_operation s1 (nd_pending_assets n));
             s3 = snd (produce_lane (token_run X) s2 (nd_pending_tokens n));
             s4 = snd (produce_lane (apply_mna_swap X) s3 (nd_pending_swaps n));
             s5 = snd (produce_lane (apply_mna_reserve_operation X) s4 (nd_pending_reserves n))
         in lane_clean (token_run X) s2 (nd_pending_tokens n) \<and>
            lane_clean (apply_mna_swap X) s3 (nd_pending_swaps n) \<and>
            lane_clean (apply_mna_reserve_operation X) s4 (nd_pending_reserves n) \<and>
            lane_clean (\<lambda>s op. apply_program_operation X s op (saturating_add (node_height n) 1)) s5
              (nd_pending_programs n))))"

section \<open>One lane: what is produced is imported\<close>

lemma produce_lane_import:
  assumes "lane_clean run s ops" and "produce_lane run s ops = (acc, t)" and "collect_ids idf acc = Ok is"
  shows "import_lane (\<lambda>s op _. run s op) idf what s ids acc = Ok (t, ids @ is)"
  using assms
proof (induction ops arbitrary: s acc "is" ids)
  case (Cons op ops)
  obtain r s' where run: "run s op = (r, s')" by fastforce
  obtain acc' where rest: "produce_lane run s' ops = (acc', t)" and acc: "acc = (if is_ok r then op # acc' else acc')"
    using Cons.prems(2) by (auto simp: run split: prod.splits)
  have clean: "lane_clean run s' ops" using Cons.prems(1) by (simp add: run)
  show ?case
  proof (cases r)
    case (Inl e)
    then have "s' = s" using Cons.prems(1) by (simp add: run)
    then show ?thesis using Cons.IH clean rest Cons.prems(3) Inl acc by simp
  next
    case (Inr fresh)
    then have "fresh" "acc = op # acc'" using Cons.prems(1) acc by (simp_all add: run)
    moreover from this obtain i is' where "idf op = Ok i" "collect_ids idf acc' = Ok is'" "is = i # is'"
      using Cons.prems(3) by (auto split: sum.splits)
    ultimately show ?thesis using Cons.IH [OF clean rest] Inr by (simp add: run)
  qed
qed simp

lemma produce_tokens_lane:
  "produce_tokens X s ops = Ok (acc, t) \<Longrightarrow> produce_lane (token_run X) s ops = (acc, t)"
proof (induction ops arbitrary: s acc)
  case (Cons op ops)
  obtain i where id: "token_operation_id X op = Ok i"
    using Cons.prems by (auto split: sum.splits)
  obtain r s' where run: "apply_token_operation X s op i = (r, s')" by fastforce
  then obtain acc' where "produce_tokens X s' ops = Ok (acc', t)" "acc = (if is_ok r then op # acc' else acc')"
    using Cons.prems id by (auto split: sum.splits)
  then show ?case using Cons.IH by (simp add: token_run_def id run)
qed simp

lemma import_tokens_lane:
  "import_lane (apply_token_operation X) (token_operation_id X) what s ids ops =
   import_lane (\<lambda>s op _. token_run X s op) (token_operation_id X) what s ids ops"
  by (induction ops arbitrary: s ids) (auto simp: token_run_def split: sum.splits prod.splits)

lemma apply_transaction_id: "apply_transaction X s tx = (Ok i, s') \<Longrightarrow> transaction_id X tx = Ok i"
proof -
  assume "apply_transaction X s tx = (Ok i, s')"
  then obtain j where "validate_transaction X s tx = Ok j" "j = i"
    by (auto simp: apply_transaction_def apply_faucet_transaction_def Let_def split: sum.splits option.splits if_splits)
  then show ?thesis using validate_transaction_Ok(11) by blast
qed

lemma produce_transactions_import:
  assumes "transactions_clean X db s txs" and "produce_transactions X db s txs = Ok (acc, t)"
    and "collect_ids (transaction_id X) acc = Ok is"
  shows "import_transactions X s ids acc = Ok (t, ids @ is)"
  using assms
proof (induction txs arbitrary: s acc "is" ids)
  case (Cons tx txs)
  obtain i where id: "transaction_id X tx = Ok i" using Cons.prems(2) by (auto split: sum.splits)
  show ?case
  proof (cases "is_ok (get_transaction X db i)")
    case True
    then show ?thesis using Cons.prems Cons.IH id by simp
  next
    case False
    obtain r s' where run: "apply_transaction X s tx = (r, s')" by fastforce
    then obtain acc' where rest: "produce_transactions X db s' txs = Ok (acc', t)"
      and acc: "acc = (if is_ok r then tx # acc' else acc')"
      using Cons.prems(2) id False by (auto split: sum.splits)
    have clean: "transactions_clean X db s' txs" using Cons.prems(1) id False by (simp add: run)
    show ?thesis
    proof (cases r)
      case (Inl e)
      then have "s' = s" using Cons.prems(1) id False by (simp add: run)
      then show ?thesis using Cons.IH clean rest Cons.prems(3) Inl acc by simp
    next
      case (Inr j)
      then have "j = i" using apply_transaction_id run id by fastforce
      have acc': "acc = tx # acc'" using acc Inr by simp
      obtain is' where "collect_ids (transaction_id X) acc' = Ok is'" "is = i # is'"
        using Cons.prems(3) id acc' by (auto split: sum.splits)
      then show ?thesis using Cons.IH [OF clean rest] run Inr \<open>j = i\<close> acc' by simp
    qed
  qed
qed simp

section \<open>The whole block\<close>

text \<open>What verifying a signature that was made with the key itself answers, as Ed25519 documents it.\<close>

definition signatures_ok :: "('a) crypto_ext_scheme \<Rightarrow> key_pair \<Rightarrow> bool" where
  "signatures_ok X key = (\<forall>message. kp_verify X (kp_public_key X key) message (kp_sign X key message))"

lemma select_import:
  assumes "queues_clean X n" and "select_operations X n = Ok (ops, t)" and "operation_ids X ops = Ok ids"
    and "bh_height header = saturating_add (node_height n) 1"
  shows "import_operations X (nd_state n) (block_with header ops) = Ok (t, ids)"
proof -
  obtain txs s1 where txs: "produce_transactions X (nd_store n) (nd_state n) (mp_transactions (nd_mempool n)) = Ok (txs, s1)"
    using assms(2) by (auto simp: select_operations_def split: sum.splits)
  obtain assets s2 where assets: "produce_lane apply_asset_operation s1 (nd_pending_assets n) = (assets, s2)" by fastforce
  obtain tokens s3 where tokens: "produce_tokens X s2 (nd_pending_tokens n) = Ok (tokens, s3)"
    using assms(2) by (auto simp: select_operations_def txs assets split: sum.splits)
  obtain swaps s4 where swaps: "produce_lane (apply_mna_swap X) s3 (nd_pending_swaps n) = (swaps, s4)" by fastforce
  obtain reserves s5 where reserves:
    "produce_lane (apply_mna_reserve_operation X) s4 (nd_pending_reserves n) = (reserves, s5)" by fastforce
  obtain programs s6 where programs: "produce_lane (\<lambda>s op. apply_program_operation X s op (saturating_add (node_height n) 1)) s5
      (nd_pending_programs n) = (programs, s6)" by fastforce
  have ops: "ops = \<lparr>ops_transactions = txs, ops_assets = assets, ops_tokens = tokens, ops_swaps = swaps,
      ops_reserves = reserves, ops_programs = programs\<rparr>" and t: "t = s6"
    using assms(2) by (simp_all add: select_operations_def txs assets tokens swaps reserves programs)
  obtain i1 i3 i4 i5 i6 where ids: "collect_ids (transaction_id X) txs = Ok i1"
    "collect_ids (token_operation_id X) tokens = Ok i3" "collect_ids (mna_swap_operation_id X) swaps = Ok i4"
    "collect_ids (mna_reserve_operation_id X) reserves = Ok i5" "collect_ids (program_operation_id X) programs = Ok i6"
    and all: "ids = i1 @ map ao_operation_id assets @ i3 @ i4 @ i5 @ i6"
    using assms(3) by (auto simp: operation_ids_def ops split: sum.splits)
  have i2: "collect_ids (\<lambda>op. Ok (ao_operation_id op)) assets = Ok (map ao_operation_id assets)"
    by (rule collect_total) simp
  note tokens' = produce_tokens_lane [OF tokens]
  have clean: "transactions_clean X (nd_store n) (nd_state n) (mp_transactions (nd_mempool n))"
    "lane_clean apply_asset_operation s1 (nd_pending_assets n)" "lane_clean (token_run X) s2 (nd_pending_tokens n)"
    "lane_clean (apply_mna_swap X) s3 (nd_pending_swaps n)"
    "lane_clean (apply_mna_reserve_operation X) s4 (nd_pending_reserves n)"
    "lane_clean (\<lambda>s op. apply_program_operation X s op (saturating_add (node_height n) 1)) s5 (nd_pending_programs n)"
    using assms(1) txs by (simp_all add: queues_clean_def assets tokens' swaps reserves)
  note lanes = produce_transactions_import [OF clean(1) txs ids(1)] produce_lane_import [OF clean(2) assets i2]
    produce_lane_import [OF clean(3) tokens' ids(2)] produce_lane_import [OF clean(4) swaps ids(3)]
    produce_lane_import [OF clean(5) reserves ids(4)] produce_lane_import [OF clean(6) programs ids(5)]
  show ?thesis
    by (simp add: import_operations_def block_with_def ops import_tokens_lane lanes assms(4) t all)
qed

lemma header_signature_bytes:
  "header_signing_bytes X (h\<lparr>bh_proposer_signature := s\<rparr>) = header_signing_bytes X h"
  by (simp add: header_signing_bytes_def)

lemma saturating_add_one:
  fixes h :: u64
  assumes "h \<noteq> - 1"
  shows "saturating_add h 1 = h + 1"
proof -
  have "unat h \<noteq> 2 ^ 64 - 1"
  proof
    assume "unat h = 2 ^ 64 - 1"
    then have "unat h = unat (- 1 :: u64)" by (simp add: unat_max_word)
    with assms show False unfolding word_unat_eq_iff by blast
  qed
  then have "unat h < 2 ^ 64 - 1" using unat_less [of h] by simp
  then show ?thesis by (simp add: saturating_add_def)
qed

text \<open>The signature that a producer puts under a header is the one that an importer asks for.\<close>

lemma produced_header_proposer:
  assumes "make_header X now n s ids proposer = Ok header"
    and "case proposer of None \<Rightarrow> gen_validators (nd_genesis n) = [] \<or> is_devnet (nd_genesis n)
         | Some key \<Rightarrow> signatures_ok X key \<and> gen_validators (nd_genesis n) \<noteq> [] \<and>
             is_expected_proposer n (kp_public_key X key)"
    and "node_height n \<noteq> - 1"
  shows "check_proposer X (nd_genesis n) header = Ok ()"
proof (cases proposer)
  case None
  then show ?thesis using assms(1,2)
    by (auto simp: make_header_def check_proposer_def Let_def split: sum.splits)
next
  case (Some key)
  let ?pk = "kp_public_key X key" and ?vs = "gen_validators (nd_genesis n)"
  have height: "saturating_add (node_height n) 1 = node_height n + 1"
    using assms(3) by (rule saturating_add_one)
  obtain v where v: "proposer_for_height ?vs (node_height n + 1) 0 = Some v" "val_public_key v = ?pk"
    using assms(2) Some by (auto simp: is_expected_proposer_def height split: option.splits)
  then have "v \<in> set ?vs" by (auto simp: proposer_for_height_def split: if_splits)
  obtain h bs where "header_signing_bytes X h = Ok bs" "header = h\<lparr>bh_proposer_signature := Some (kp_sign X key bs)\<rparr>"
    "bh_proposer h = Some ?pk" "bh_height h = node_height n + 1"
    using assms(1) Some by (auto simp: make_header_def Let_def split: sum.splits)
  then show ?thesis
    using v \<open>v \<in> set ?vs\<close> assms(2) Some
    by (auto simp: check_proposer_Ok header_signature_bytes signatures_ok_def)
qed

lemma drained_simps [simp]:
  "nd_genesis (drained n) = nd_genesis n" "nd_state (drained n) = nd_state n" "nd_store (drained n) = nd_store n"
  "nd_latest_block (drained n) = nd_latest_block n" "node_height (drained n) = node_height n"
  "node_latest_hash X (drained n) = node_latest_hash X n"
  "is_expected_proposer (drained n) pk = is_expected_proposer n pk"
  by (simp_all add: drained_def node_height_def node_latest_hash_def is_expected_proposer_def)

lemma make_header_Ok:
  assumes "make_header X now n s ids proposer = Ok header"
  shows "state_root X s = Ok (bh_state_root header)" and "bh_chain_id header = gen_chain_id (nd_genesis n)"
    and "bh_height header = node_height n + 1" and "node_latest_hash X n = Ok (bh_parent_hash header)"
    and "bh_transaction_root header = merkle_root X ids" and "bh_version header = 1"
    and "bh_proposer header = map_option (kp_public_key X) proposer"
  using assms by (auto simp: make_header_def Let_def split: sum.splits option.splits)

lemma commit_block_Ok:
  assumes "commit_block X now n s ops proposer = (Ok b, n')"
  obtains ids header h db where "operation_ids X ops = Ok ids" "make_header X now n s ids proposer = Ok header"
    "b = block_with header ops" "block_id_for X b = Ok h" "store_commit X (nd_store n) h b (snapshot s) = (Ok (), db)"
    "n' = n\<lparr>nd_store := db, nd_state := s, nd_latest_block := b\<rparr>"
  using assms by (auto simp: commit_block_def Let_def split: sum.splits prod.splits)

lemma block_with_header [simp]: "blk_header (block_with header ops) = header"
  by (simp add: block_with_def)

lemma produce_block_Ok:
  assumes "produce_block X now n proposer = (Ok b, n')"
  obtains ops s where "select_operations X n = Ok (ops, s)" "commit_block X now (drained n) s ops proposer = (Ok b, n')"
    "\<And>key. proposer = Some key \<Longrightarrow> is_expected_proposer n (kp_public_key X key)"
  using assms by (auto simp: produce_block_def split: sum.splits if_splits option.splits)

text \<open>
  A peer in the same state on the same block accepts the header of a committed block when it accepts
  the proposer.
\<close>

lemma committed_header_accepted:
  assumes "make_header X now n s ids proposer = Ok header" and "check_proposer X (nd_genesis n) header = Ok ()"
    and "nd_genesis m = nd_genesis n" and "nd_latest_block m = nd_latest_block n"
  shows "check_header X m header = Ok ()"
  using make_header_Ok [OF assms(1)] assms(2-4)
  by (simp add: check_header_Ok node_height_def node_latest_hash_def)

text \<open>Who may produce: nobody signs on a chain without validators or on a devnet, a scheduled validator signs.\<close>

definition may_produce :: "('db, 'a) storage_ext_scheme \<Rightarrow> 'db node \<Rightarrow> key_pair option \<Rightarrow> bool" where
  "may_produce X n proposer =
     (case proposer of
        None \<Rightarrow> gen_validators (nd_genesis n) = [] \<or> is_devnet (nd_genesis n)
      | Some key \<Rightarrow> signatures_ok X key \<and> gen_validators (nd_genesis n) \<noteq> [])"

text \<open>
  C16. A produced block is importable. When every queued operation succeeds for the first time or leaves the
  state alone, the block that a node produces is accepted by every peer with the same genesis, state
  and latest block that does not have it yet and whose store does not fail, and the peer ends in the
  producer's state.
\<close>

theorem produced_block_imports:
  assumes "queues_clean X n" and "may_produce X n proposer" and "node_height n \<noteq> - 1"
    and "produce_block X now n proposer = (Ok b, n')" and "block_id_for X b = Ok h"
    and "nd_genesis m = nd_genesis n" and "nd_state m = nd_state n" and "nd_latest_block m = nd_latest_block n"
    and "\<not> is_ok (get_block X (nd_store m) h)"
    and "fst (store_commit X (nd_store m) h b (snapshot (nd_state n'))) = Ok ()"
  shows "\<exists>m'. import_block X m b = (Ok h, m') \<and> nd_state m' = nd_state n' \<and> nd_latest_block m' = nd_latest_block n'"
proof -
  obtain ops s where sel: "select_operations X n = Ok (ops, s)"
    and commit: "commit_block X now (drained n) s ops proposer = (Ok b, n')"
    and expected: "\<And>key. proposer = Some key \<Longrightarrow> is_expected_proposer n (kp_public_key X key)"
    using assms(4) by (rule produce_block_Ok) blast
  obtain ids header db where ids: "operation_ids X ops = Ok ids"
    and header: "make_header X now (drained n) s ids proposer = Ok header" and b: "b = block_with header ops"
    and n': "n' = (drained n)\<lparr>nd_store := db, nd_state := s, nd_latest_block := b\<rparr>"
    using commit by (rule commit_block_Ok) blast
  note made = make_header_Ok [OF header]
  have "check_proposer X (nd_genesis n) header = Ok ()"
    using produced_header_proposer [OF header] assms(2,3) expected
    by (auto simp: may_produce_def split: option.splits)
  then have "check_header X m header = Ok ()"
    using committed_header_accepted [OF header] assms(6,8) by simp
  moreover have "import_operations X (nd_state n) b = Ok (s, ids)"
    unfolding b using assms(3) by (intro select_import [OF assms(1) sel ids]) (simp add: made saturating_add_one)
  moreover have "check_roots X header s ids = Ok ()" using made by (simp add: check_roots_Ok)
  moreover obtain db' where "store_commit X (nd_store m) h b (snapshot s) = (Ok (), db')"
    using assms(10) by (cases "store_commit X (nd_store m) h b (snapshot s)") (simp add: n')
  ultimately show ?thesis
    using assms(5,7,9) made(6) by (simp add: import_block_def apply_imported_def b n')
qed

lemma toy_select: "select_operations X (toy_node s db) = Ok (no_operations, s)"
  by (simp add: select_operations_def toy_node_def mempool_default_def no_operations_def)

text \<open>A node with a bridge deposit in its queue, and the block it makes of it.\<close>

definition toy_deposit :: asset_operation where
  "toy_deposit = toy_asset_op AssetMint solana_usdc 10"

definition toy_deposited :: state where
  "toy_deposited = snd (apply_asset_operation toy_state toy_deposit)"

definition toy_deposit_block :: "u64 \<Rightarrow> block" where
  "toy_deposit_block h = block_with ((blk_header (toy_net_block h 1))\<lparr>bh_transaction_root := HASH_ZERO\<rparr>)
     (no_operations\<lparr>ops_assets := [toy_deposit]\<rparr>)"

definition toy_deposit_net :: "toy_db storage_ext" where
  "toy_deposit_net = toy_storage_ext (toy_deposit_block 1) (toy_deposit_block 2) (snapshot toy_deposited) (snapshot toy_deposited)
     toy_faucet_transfer"

lemma toy_deposit_applied: "apply_asset_operation toy_state toy_deposit = (Ok True, toy_deposited)"
proof -
  have "fst (apply_asset_operation toy_state toy_deposit) = Ok True"
    by (simp add: toy_deposit_def toy_state_def state_new_def apply_asset_operation_def toy_asset_op_def Let_def asset_ledger_step_def asset_balance_step_def
        default_reserve_ledger_def checked_add_def ok_or_def solana_usdc_def wrapped_asset_def)
  then show ?thesis by (simp add: toy_deposited_def prod_eq_iff)
qed

lemma toy_deposited_root: "state_root toy_deposit_net toy_deposited = Ok (toy_digest 13)"
  by (simp add: state_root_def state_root_bytes_def toy_deposit_net_def toy_storage_defs toy_codec_def sha256_domain_def
      toy_digest_def)

lemma toy_deposit_ids:
  "block_id_for toy_deposit_net (toy_deposit_block h) = Ok (toy_digest (12 + unat h))"
  "block_id_for toy_deposit_net (toy_net_block 0 j) = Ok (toy_digest 12)"
  by (simp_all add: block_id_for_def block_header_id_def hash_encoded_def toy_deposit_net_def toy_storage_defs
      toy_deposit_block_def toy_net_block_def block_with_def sha256_domain_def toy_digest_def)

lemma toy_deposit_header:
  "bh_version (blk_header (toy_deposit_block h)) = 1" "bh_height (blk_header (toy_deposit_block h)) = h"
  "bh_transaction_root (blk_header (toy_deposit_block h)) = HASH_ZERO"
  "bh_state_root (blk_header (toy_deposit_block h)) = toy_digest 13"
  by (simp_all add: toy_deposit_block_def)

lemma toy_deposit_merkle: "merkle_root toy_deposit_net [HASH_ZERO] = HASH_ZERO"
  by (simp add: merkle_root_def merkle_loop.simps)

lemma toy_deposit_operations:
  "import_operations X toy_state (toy_deposit_block h) = Ok (toy_deposited, [HASH_ZERO])"
  using toy_deposit_applied
  by (simp add: import_operations_def toy_deposit_block_def block_with_def no_operations_def)
    (simp add: toy_deposit_def toy_asset_op_def)

lemma toy_deposit_commit:
  "h \<in> {1, 2} \<Longrightarrow> \<exists>db'. store_commit toy_deposit_net db i (toy_deposit_block h) (snapshot toy_deposited) = (Ok (), db')"
  by (auto simp: store_commit_def toy_deposit_net_def toy_storage_defs toy_codec_def db_insert_def db_flush_def try_then_def
      toy_deposit_block_def block_with_def no_operations_def)

definition toy_holder :: "toy_db node" where
  "toy_holder = (toy_node toy_state toy_empty_db)\<lparr>nd_pending_assets := [toy_deposit]\<rparr>"

lemma toy_deposit_unknown: "\<not> is_ok (get_block toy_deposit_net toy_empty_db h)"
  by (simp add: get_block_def db_require_def db_get_def toy_deposit_net_def toy_storage_defs toy_empty_db_def ok_or_def)

lemma toy_holder_clean: "queues_clean X toy_holder"
  using toy_deposit_applied by (simp add: queues_clean_def toy_holder_def toy_node_def mempool_default_def Let_def)

lemma toy_holder_produces:
  "\<exists>n'. produce_block toy_deposit_net 0 toy_holder None = (Ok (toy_deposit_block 1), n') \<and> nd_state n' = toy_deposited"
proof -
  let ?ops = "no_operations\<lparr>ops_assets := [toy_deposit]\<rparr>"
  have "select_operations toy_deposit_net toy_holder = Ok (?ops, toy_deposited)"
    using toy_deposit_applied
    by (simp add: select_operations_def toy_holder_def toy_node_def mempool_default_def no_operations_def)
  moreover have "make_header toy_deposit_net 0 (drained toy_holder) toy_deposited [HASH_ZERO] None = Ok (blk_header (toy_deposit_block 1))"
    by (simp add: make_header_def node_latest_hash_def toy_deposit_ids toy_deposited_root toy_deposit_merkle toy_holder_def)
      (simp add: toy_deposit_block_def toy_net_block_def block_with_def toy_genesis_def node_height_def)
  moreover have "operation_ids toy_deposit_net ?ops = Ok [HASH_ZERO]"
    by (simp add: operation_ids_def no_operations_def) (simp add: toy_deposit_def toy_asset_op_def)
  moreover have "block_with (blk_header (toy_deposit_block 1)) ?ops = toy_deposit_block 1"
    by (simp add: toy_deposit_block_def)
  moreover have "nd_store (drained toy_holder) = toy_empty_db" by (simp add: toy_holder_def)
  moreover obtain db where "store_commit toy_deposit_net toy_empty_db (toy_digest 13) (toy_deposit_block 1) (snapshot toy_deposited) = (Ok (), db)"
    using toy_deposit_commit by blast
  ultimately show ?thesis
    using toy_deposit_ids(1) [of 1] by (simp add: produce_block_def commit_block_def Let_def)
qed

theorem produced_block_imports_witness:
  "\<exists>n' m'. nd_pending_assets toy_holder = [toy_deposit] \<and>
     produce_block toy_deposit_net 0 toy_holder None = (Ok (toy_deposit_block 1), n') \<and>
     import_block toy_deposit_net (toy_node toy_state toy_empty_db) (toy_deposit_block 1) = (Ok (toy_digest 13), m') \<and>
     nd_state m' = toy_deposited"
proof -
  let ?m = "toy_node toy_state toy_empty_db"
  obtain n' where run: "produce_block toy_deposit_net 0 toy_holder None = (Ok (toy_deposit_block 1), n')" "nd_state n' = toy_deposited"
    using toy_holder_produces by blast
  have holder: "nd_genesis ?m = nd_genesis toy_holder" "nd_state ?m = nd_state toy_holder"
    "nd_latest_block ?m = nd_latest_block toy_holder" "node_height toy_holder \<noteq> - 1"
    by (simp_all add: toy_holder_def node_height_def)
  have "may_produce toy_deposit_net toy_holder None" by (simp add: may_produce_def toy_genesis_def toy_holder_def)
  moreover have "\<not> is_ok (get_block toy_deposit_net (nd_store ?m) (toy_digest 13))" by (simp add: toy_deposit_unknown)
  moreover have "fst (store_commit toy_deposit_net (nd_store ?m) (toy_digest 13) (toy_deposit_block 1) (snapshot (nd_state n'))) = Ok ()"
    using toy_deposit_commit [of 1 toy_empty_db "toy_digest 13"] run(2) by auto
  moreover have "block_id_for toy_deposit_net (toy_deposit_block 1) = Ok (toy_digest 13)"
    using toy_deposit_ids(1) [of 1] by simp
  ultimately obtain m' where "import_block toy_deposit_net ?m (toy_deposit_block 1) = (Ok (toy_digest 13), m')" "nd_state m' = nd_state n'"
    using produced_block_imports [OF toy_holder_clean _ holder(4) run(1) _ holder(1-3)] by blast
  then show ?thesis using run by (simp add: toy_holder_def)
qed

end
