(* ===== verification/Block_Rejection.thy ===== *)
theory Block_Rejection
  imports Block_Production
begin

text \<open>
  Blocks that a node makes and no peer imports: a block that repeats an operation which was still in a
  queue when a block with it was imported, the block of the devnet credit, and a signed block on a
  chain without validators.
\<close>

section \<open>Operations that were applied before\<close>

text \<open>The identifiers of applied operations, of the lanes whose queues are checked by identifier.\<close>

datatype mark = MAsset hash | MToken hash | MProgram hash

definition marks :: "state \<Rightarrow> mark set" where
  "marks s = MAsset ` bt_keys (st_processed_asset_operations s) \<union> MToken ` bt_keys (st_processed_token_operations s) \<union>
     MProgram ` bt_keys (st_program_receipts s)"

lemma in_marks [simp]:
  "MAsset i \<in> marks s \<longleftrightarrow> bt_contains (st_processed_asset_operations s) i"
  "MToken i \<in> marks s \<longleftrightarrow> bt_contains (st_processed_token_operations s) i"
  "MProgram i \<in> marks s \<longleftrightarrow> bt_contains (st_program_receipts s) i"
  by (auto simp: marks_def bt_keys_def)

lemma marks_cong:
  "st_processed_asset_operations t = st_processed_asset_operations s \<Longrightarrow>
   st_processed_token_operations t = st_processed_token_operations s \<Longrightarrow>
   st_program_receipts t = st_program_receipts s \<Longrightarrow> marks t = marks s"
  by (simp add: marks_def)

lemma transaction_marks: "marks (snd (apply_transaction X s tx)) = marks s"
  by (rule marks_cong; auto simp: apply_transaction_def apply_faucet_transaction_def Let_def
      split: sum.splits option.splits)

lemma asset_marks: "marks s \<subseteq> marks (snd (apply_asset_operation s op))"
  by (cases rule: apply_asset_operation_cases [of s op]) (auto simp: asset_admitted_def marks_def)

lemma token_marks: "marks s \<subseteq> marks (snd (apply_token_operation X s op i))"
proof (cases "fst (apply_token_operation X s op i) = Ok True")
  case True
  then obtain s' where s': "apply_token_operation X s op i = (Ok True, s')"
    by (cases "apply_token_operation X s op i") auto
  obtain s1 s2 where fee: "token_charge_fee s (tk_unsigned op) = Ok s1"
    and steps: "token_steps X (tk_unsigned op) i s1 s2"
    and eq: "s' = s2\<lparr>st_processed_token_operations := bt_insert i () (st_processed_token_operations s2),
       st_token_operation_records := bt_insert i op (st_token_operation_records s2)\<rparr>"
    using s' by (rule apply_token_operation_True)
  have "marks s1 = marks s" using fee by (auto elim!: token_charge_fee_Ok simp: marks_def)
  moreover have "marks s2 = marks s1" using steps by (auto simp: token_steps_def with_tokens_def marks_def)
  moreover have "marks s2 \<subseteq> marks s'" by (auto simp: marks_def eq)
  ultimately show ?thesis by (simp add: s')
qed (simp add: apply_token_operation_else)

lemma token_run_marks: "marks s \<subseteq> marks (snd (token_run X s op))"
  by (cases "token_operation_id X op") (simp_all add: token_run_def token_marks)

lemma swap_marks: "marks (snd (apply_mna_swap X s op)) = marks s"
proof (cases rule: apply_mna_swap_cases [of X s op])
  case (success s')
  obtain i s2 where eff: "swap_effect (s\<lparr>st_processed_mna_swap_operations :=
        bt_insert i () (st_processed_mna_swap_operations s)\<rparr>) (sw_unsigned op) = Ok s2"
    and s': "s' = s2\<lparr>st_mna_swap_operation_records := bt_insert i op (st_mna_swap_operation_records s2)\<rparr>"
    using success by (rule apply_mna_swap_True)
  from eff have "marks s2 = marks s" by (cases rule: swap_effect_Ok) (auto simp: swapped_def marks_def)
  then show ?thesis by (simp add: success s' marks_def)
qed (simp_all add: marks_def)

lemma reserve_marks: "marks (snd (apply_mna_reserve_operation X s op)) = marks s"
proof (cases rule: apply_reserve_cases [of X s op])
  case (success s')
  obtain i s2 where eff: "reserve_effect (s\<lparr>st_processed_mna_reserve_operations :=
           bt_insert i () (st_processed_mna_reserve_operations s)\<rparr>) op = Ok s2"
    and s': "s' = s2\<lparr>st_mna_reserve_operation_records := bt_insert i op (st_mna_reserve_operation_records s2)\<rparr>"
    using success by (rule apply_reserve_True)
  have "marks s2 = marks s"
    using eff by (auto simp: reserve_effect_def reserve_verify_sol_def result_ok marks_def split: if_splits)
  then show ?thesis by (simp add: success s' marks_def)
qed (simp_all add: marks_def)

lemma program_marks: "marks s \<subseteq> marks (snd (apply_program_operation X s op h))"
proof (cases "fst (apply_program_operation X s op h) = Ok True")
  case True
  then have "apply_program_operation X s op h = (Ok True, snd (apply_program_operation X s op h))"
    by (simp add: prod_eq_iff)
  then obtain i o' max_fee s1 out s2 where auth: "program_authorize X s op = Ok (i, o', max_fee, s1)"
    and act: "program_act X s1 op o' h = Ok (out, s2)"
    and charge: "program_charge s2 op i o' max_fee out = Ok (snd (apply_program_operation X s op h))"
    by (rule apply_program_operation_True)
  have "marks s1 = marks s" by (simp add: program_authorize_Ok(8) [OF auth] marks_def)
  moreover have "marks s2 = marks s1" using program_act_step [OF act] by (auto simp: with_programs_def marks_def)
  moreover have "marks s2 \<subseteq> marks (snd (apply_program_operation X s op h))"
    using charge by (rule program_charge_Ok) (auto simp: marks_def)
  ultimately show ?thesis by simp
qed (simp add: apply_program_operation_else)

section \<open>Marks along a lane\<close>

text \<open>A lane that forgets no mark and answers \<open>Ok\<close> to new operations only, leaving their mark.\<close>

lemma produce_lane_marks:
  assumes "\<And>s op. marks s \<subseteq> marks (snd (run s op))" and "produce_lane run s ops = (acc, t)"
  shows "marks s \<subseteq> marks t"
  using assms(2)
proof (induction ops arbitrary: s acc)
  case (Cons op ops)
  then show ?case using assms(1) [of s op] by (fastforce split: prod.splits)
qed simp

lemma produce_transactions_marks: "produce_transactions X db s txs = Ok (acc, t) \<Longrightarrow> marks t = marks s"
proof (induction txs arbitrary: s acc)
  case (Cons tx txs)
  then show ?case using transaction_marks [of X s tx] by (fastforce split: sum.splits if_splits prod.splits)
qed simp

lemma import_transactions_marks: "import_transactions X s ids txs = Ok (t, ids') \<Longrightarrow> marks t = marks s"
proof (induction txs arbitrary: s ids)
  case (Cons tx txs)
  then show ?case using transaction_marks [of X s tx] by (fastforce split: sum.splits prod.splits)
qed simp

lemma import_lane_marks:
  assumes "\<And>s op i. marks s \<subseteq> marks (snd (run s op i))" and "import_lane run idf what s ids ops = Ok (t, ids')"
  shows "marks s \<subseteq> marks t"
  using assms(2)
proof (induction ops arbitrary: s ids)
  case (Cons op ops)
  then obtain i s' where "run s op i = (Ok True, s')" "import_lane run idf what s' (ids @ [i]) ops = Ok (t, ids')"
    by (auto split: sum.splits prod.splits if_splits)
  then show ?case using Cons.IH assms(1) [of s op i] by fastforce
qed simp

text \<open>An operation that was marked before is in the produced lane, and a lane that has it is not imported.\<close>

lemma produce_lane_known:
  assumes "\<And>s op. marks s \<subseteq> marks (snd (run s op))" and "op \<in> set ops" and "known s"
    and "\<And>s t. marks s \<subseteq> marks t \<Longrightarrow> known s \<Longrightarrow> known t" and "\<And>s. known s \<Longrightarrow> run s op = (Ok False, s)"
    and "produce_lane run s ops = (acc, t)"
  shows "op \<in> set acc"
  using assms(2,3,6)
proof (induction ops arbitrary: s acc)
  case (Cons o1 ops)
  obtain r s' where run: "run s o1 = (r, s')" by fastforce
  then obtain acc' where rest: "produce_lane run s' ops = (acc', t)" "acc = (if is_ok r then o1 # acc' else acc')"
    using Cons.prems(3) by (auto split: prod.splits)
  have "known s'" using assms(1) [of s o1] assms(4) Cons.prems(2) run by fastforce
  then show ?case using Cons rest run assms(5) [OF Cons.prems(2)] by (cases "op = o1") auto
qed simp

lemma import_lane_repeats:
  assumes "\<And>s op i. marks s \<subseteq> marks (snd (run s op i))" and "op \<in> set ops" and "M \<in> marks s"
    and "\<And>s i. M \<in> marks s \<Longrightarrow> idf op = Ok i \<Longrightarrow> fst (run s op i) \<noteq> Ok True"
  shows "import_lane run idf what s ids ops \<noteq> Ok r"
  using assms(2,3)
proof (induction ops arbitrary: s ids)
  case (Cons o1 ops)
  show ?case
  proof
    assume "import_lane run idf what s ids (o1 # ops) = Ok r"
    then obtain i s' where id: "idf o1 = Ok i" and run: "run s o1 i = (Ok True, s')"
      and rest: "import_lane run idf what s' (ids @ [i]) ops = Ok r"
      by (auto split: sum.splits prod.splits if_splits)
    have "op \<noteq> o1" using assms(4) [OF Cons.prems(2)] id run by fastforce
    then show False using Cons assms(1) [of s o1 i] run rest by fastforce
  qed
qed simp

text \<open>After a lane has been imported, each of its operations is marked.\<close>

lemma import_lane_marked:
  assumes "\<And>s op i. marks s \<subseteq> marks (snd (run s op i))" and "op \<in> set ops"
    and "\<And>s i s'. idf op = Ok i \<Longrightarrow> run s op i = (Ok True, s') \<Longrightarrow> M \<in> marks s' \<and> P"
    and "import_lane run idf what s ids ops = Ok (t, ids')"
  shows "M \<in> marks t \<and> P"
  using assms(2,4)
proof (induction ops arbitrary: s ids)
  case (Cons o1 ops)
  then obtain i s' where id: "idf o1 = Ok i" and run: "run s o1 i = (Ok True, s')"
    and rest: "import_lane run idf what s' (ids @ [i]) ops = Ok (t, ids')"
    by (auto split: sum.splits prod.splits if_splits)
  show ?case
  proof (cases "op = o1")
    case True
    then show ?thesis using assms(3) id run import_lane_marks [OF assms(1) rest] by blast
  next
    case False
    then show ?thesis using Cons rest by auto
  qed
qed simp

section \<open>A repeated operation\<close>

definition known_asset :: "state \<Rightarrow> asset_operation \<Rightarrow> bool" where
  "known_asset s op =
     (ao_version op = 1 \<and> ao_amount op \<noteq> 0 \<and> asset_namespace (ao_asset_id op) \<noteq> ''worldstreet'' \<and>
      asset_contract (ao_asset_id op) \<noteq> None \<and> MAsset (ao_operation_id op) \<in> marks s)"

definition known_token :: "('a) crypto_ext_scheme \<Rightarrow> state \<Rightarrow> token_operation \<Rightarrow> bool" where
  "known_token X s op = (case token_operation_id X op of Inl _ \<Rightarrow> False | Inr i \<Rightarrow> MToken i \<in> marks s)"

definition known_program :: "('a) crypto_ext_scheme \<Rightarrow> state \<Rightarrow> program_operation \<Rightarrow> bool" where
  "known_program X s op = (case program_operation_id X op of Inl _ \<Rightarrow> False | Inr i \<Rightarrow> MProgram i \<in> marks s)"

definition repeats ::
    "('a) crypto_ext_scheme \<Rightarrow> state \<Rightarrow> asset_operation list \<Rightarrow> token_operation list \<Rightarrow> program_operation list \<Rightarrow> bool" where
  "repeats X s assets tokens programs =
     (list_ex (known_asset s) assets \<or> list_ex (known_token X s) tokens \<or> list_ex (known_program X s) programs)"

lemma known_asset_run: "known_asset s op \<Longrightarrow> apply_asset_operation s op = (Ok False, s)"
  by (simp add: known_asset_def apply_asset_operation_def)

lemma known_token_run: "known_token X s op \<Longrightarrow> token_run X s op = (Ok False, s)"
  by (auto simp: known_token_def token_run_def apply_token_operation_def split: sum.splits)

lemma known_program_run: "known_program X s op \<Longrightarrow> apply_program_operation X s op h = (Ok False, s)"
  by (auto simp: known_program_def apply_program_operation_def split: sum.splits)

lemma known_mono:
  assumes "marks s \<subseteq> marks t"
  shows "known_asset s op1 \<Longrightarrow> known_asset t op1" and "known_token X s op2 \<Longrightarrow> known_token X t op2"
    and "known_program X s op3 \<Longrightarrow> known_program X t op3"
  using assms by (auto simp: known_asset_def known_token_def known_program_def simp del: in_marks split: sum.splits)

lemma repeats_mono: "marks s \<subseteq> marks t \<Longrightarrow> repeats X s as ts ps \<Longrightarrow> repeats X t as ts ps"
  unfolding repeats_def list_ex_iff using known_mono by blast

text \<open>The operations of an imported block are known in the state it leaves.\<close>

lemma asset_applied_known: "apply_asset_operation s op = (Ok True, s') \<Longrightarrow> known_asset s' op"
proof -
  assume run: "apply_asset_operation s op = (Ok True, s')"
  then have "MAsset (ao_operation_id op) \<in> marks s'"
    using asset_lane.applied_marks [of s op] by (simp add: bt_keys_def)
  moreover have "ao_version op = 1 \<and> ao_amount op \<noteq> 0 \<and> asset_namespace (ao_asset_id op) \<noteq> ''worldstreet'' \<and>
      asset_contract (ao_asset_id op) \<noteq> None"
    using run by (simp add: apply_asset_operation_def split: if_splits)
  ultimately show ?thesis unfolding known_asset_def by blast
qed

lemma token_applied_marked: "apply_token_operation X s op i = (Ok True, s') \<Longrightarrow> MToken i \<in> marks s'"
  by (erule apply_token_operation_True) simp

lemma program_applied_marked:
  assumes "apply_program_operation X s op h = (Ok True, s')" and "program_operation_id X op = Ok i"
  shows "MProgram i \<in> marks s'"
  using apply_program_operation_parts(2) [OF assms(1)] assms(2) by auto

lemma collected_id: "collect_ids idf ops = Ok ids \<Longrightarrow> op \<in> set ops \<Longrightarrow> \<exists>i. idf op = Ok i"
  by (induction ops arbitrary: ids) (auto split: sum.splits)

lemma imported_known:
  assumes "import_operations X s b = Ok (t, ids)"
  shows "list_all (known_asset t) (blk_asset_operations b) \<and> list_all (known_token X t) (blk_token_operations b) \<and>
    list_all (known_program X t) (blk_program_operations b)"
  using assms
proof (rule import_operations_Ok)
  fix s1 i1 s2 i2 s3 i3 s4 i4 s5 i5
  assume steps: "import_lane (\<lambda>s op _. apply_asset_operation s op) (\<lambda>op. Ok (ao_operation_id op)) ''asset'' s1 i1
       (blk_asset_operations b) = Ok (s2, i2)"
    "import_lane (apply_token_operation X) (token_operation_id X) ''token'' s2 i2 (blk_token_operations b) = Ok (s3, i3)"
    "import_lane (\<lambda>s op _. apply_mna_swap X s op) (mna_swap_operation_id X) ''MNA swap'' s3 i3
       (blk_mna_swap_operations b) = Ok (s4, i4)"
    "import_lane (\<lambda>s op _. apply_mna_reserve_operation X s op) (mna_reserve_operation_id X) ''MNA reserve'' s4 i4
       (blk_mna_reserve_operations b) = Ok (s5, i5)"
    "import_lane (\<lambda>s op _. apply_program_operation X s op (bh_height (blk_header b))) (program_operation_id X) ''program''
       s5 i5 (blk_program_operations b) = Ok (t, ids)"
  have "marks s2 \<subseteq> marks s3" by (rule import_lane_marks [OF token_marks steps(2)])
  moreover have "marks s3 \<subseteq> marks s4" by (rule import_lane_marks [OF _ steps(3)]) (simp add: swap_marks)
  moreover have "marks s4 \<subseteq> marks s5" by (rule import_lane_marks [OF _ steps(4)]) (simp add: reserve_marks)
  moreover have "marks s5 \<subseteq> marks t" by (rule import_lane_marks [OF program_marks steps(5)])
  ultimately have "marks s2 \<subseteq> marks t" "marks s3 \<subseteq> marks t" by blast+
  moreover have "known_asset s2 op" if "op \<in> set (blk_asset_operations b)" for op
  proof -
    have "MAsset (ao_operation_id op) \<in> marks s2 \<and> (ao_version op = 1 \<and> ao_amount op \<noteq> 0 \<and>
        asset_namespace (ao_asset_id op) \<noteq> ''worldstreet'' \<and> asset_contract (ao_asset_id op) \<noteq> None)"
      by (rule import_lane_marked [OF asset_marks that _ steps(1)])
        (use asset_applied_known in \<open>unfold known_asset_def, blast\<close>)
    then show ?thesis unfolding known_asset_def by blast
  qed
  moreover have "known_token X s3 op" if "op \<in> set (blk_token_operations b)" for op
  proof -
    obtain i where i: "token_operation_id X op = Ok i"
      using import_lane_ids [OF steps(2)] collected_id [OF _ \<open>op \<in> _\<close>] by blast
    have "MToken i \<in> marks s3 \<and> True"
      by (rule import_lane_marked [OF token_marks that _ steps(2)]) (use i token_applied_marked in fastforce)
    then show ?thesis by (simp add: known_token_def i)
  qed
  moreover have "known_program X t op" if "op \<in> set (blk_program_operations b)" for op
  proof -
    obtain i where i: "program_operation_id X op = Ok i"
      using import_lane_ids [OF steps(5)] collected_id [OF _ \<open>op \<in> _\<close>] by blast
    have "MProgram i \<in> marks t \<and> True"
      by (rule import_lane_marked [OF program_marks that _ steps(5)]) (use i program_applied_marked in fastforce)
    then show ?thesis by (simp add: known_program_def i)
  qed
  ultimately show ?thesis
    unfolding list_all_iff using known_mono(1,2) by blast
qed

lemma repeated_not_imported:
  assumes "repeats X s (blk_asset_operations b) (blk_token_operations b) (blk_program_operations b)"
  shows "import_operations X s b \<noteq> Ok r"
proof
  assume "import_operations X s b = Ok r"
  then obtain t ids where ok: "import_operations X s b = Ok (t, ids)" by (cases r) simp
  then show False
  proof (rule import_operations_Ok)
    fix s1 i1 s2 i2 s3 i3 s4 i4 s5 i5
    assume steps: "import_transactions X s [] (blk_transactions b) = Ok (s1, i1)"
      "import_lane (\<lambda>s op _. apply_asset_operation s op) (\<lambda>op. Ok (ao_operation_id op)) ''asset'' s1 i1
         (blk_asset_operations b) = Ok (s2, i2)"
      "import_lane (apply_token_operation X) (token_operation_id X) ''token'' s2 i2 (blk_token_operations b) = Ok (s3, i3)"
      "import_lane (\<lambda>s op _. apply_mna_swap X s op) (mna_swap_operation_id X) ''MNA swap'' s3 i3
         (blk_mna_swap_operations b) = Ok (s4, i4)"
      "import_lane (\<lambda>s op _. apply_mna_reserve_operation X s op) (mna_reserve_operation_id X) ''MNA reserve'' s4 i4
         (blk_mna_reserve_operations b) = Ok (s5, i5)"
      "import_lane (\<lambda>s op _. apply_program_operation X s op (bh_height (blk_header b))) (program_operation_id X) ''program''
         s5 i5 (blk_program_operations b) = Ok (t, ids)"
    have grow: "marks s \<subseteq> marks s1" "marks s1 \<subseteq> marks s2" "marks s2 \<subseteq> marks s3" "marks s3 \<subseteq> marks s4" "marks s4 \<subseteq> marks s5"
      using import_transactions_marks [OF steps(1)] import_lane_marks [OF asset_marks steps(2)]
        import_lane_marks [OF token_marks steps(3)] import_lane_marks [OF _ steps(4)] import_lane_marks [OF _ steps(5)]
      by (simp_all add: swap_marks reserve_marks)
    consider (asset) op where "op \<in> set (blk_asset_operations b)" "known_asset s op"
      | (token) op where "op \<in> set (blk_token_operations b)" "known_token X s op"
      | (program) op where "op \<in> set (blk_program_operations b)" "known_program X s op"
      using assms unfolding repeats_def list_ex_iff by blast
    then show False
    proof cases
      case asset
      then have "MAsset (ao_operation_id op) \<in> marks s1" using grow by (auto simp: known_asset_def simp del: in_marks)
      then show False
        using import_lane_repeats [OF asset_marks asset(1), of "MAsset (ao_operation_id op)"] steps(2)
          asset_lane.seen_blocks [of op] by (simp add: bt_keys_def)
    next
      case token
      then obtain i where i: "token_operation_id X op = Ok i" "MToken i \<in> marks s2"
        using grow by (auto simp: known_token_def simp del: in_marks split: sum.splits)
      show False
        by (rule import_lane_repeats [OF token_marks token(1) i(2), THEN notE, OF _ steps(3)])
          (use i(1) in \<open>auto simp: apply_token_operation_def\<close>)
    next
      case program
      then have "known_program X s5 op" using grow known_mono(3) by blast
      then obtain i where i: "program_operation_id X op = Ok i" "MProgram i \<in> marks s5"
        by (auto simp: known_program_def split: sum.splits)
      show False
        by (rule import_lane_repeats [OF program_marks program(1) i(2), THEN notE, OF _ steps(6)])
          (use i(1) in \<open>auto simp: apply_program_operation_def\<close>)
    qed
  qed
qed

lemma repeated_produced:
  assumes "repeats X (nd_state n) (nd_pending_assets n) (nd_pending_tokens n) (nd_pending_programs n)"
    and "select_operations X n = Ok (ops, t)"
  shows "repeats X (nd_state n) (ops_assets ops) (ops_tokens ops) (ops_programs ops)"
proof -
  let ?program = "\<lambda>s op. apply_program_operation X s op (saturating_add (node_height n) 1)"
  obtain txs s1 where txs: "produce_transactions X (nd_store n) (nd_state n) (mp_transactions (nd_mempool n)) = Ok (txs, s1)"
    using assms(2) by (auto simp: select_operations_def split: sum.splits)
  obtain assets s2 where assets: "produce_lane apply_asset_operation s1 (nd_pending_assets n) = (assets, s2)" by fastforce
  obtain tokens s3 where "produce_tokens X s2 (nd_pending_tokens n) = Ok (tokens, s3)"
    using assms(2) by (auto simp: select_operations_def txs assets split: sum.splits)
  note tokens = this produce_tokens_lane [OF this]
  obtain swaps s4 where swaps: "produce_lane (apply_mna_swap X) s3 (nd_pending_swaps n) = (swaps, s4)" by fastforce
  obtain reserves s5 where reserves:
    "produce_lane (apply_mna_reserve_operation X) s4 (nd_pending_reserves n) = (reserves, s5)" by fastforce
  obtain programs s6 where programs: "produce_lane ?program s5 (nd_pending_programs n) = (programs, s6)" by fastforce
  have ops: "ops_assets ops = assets" "ops_tokens ops = tokens" "ops_programs ops = programs"
    using assms(2) by (auto simp: select_operations_def txs assets tokens(1) swaps reserves programs)
  have grow: "marks (nd_state n) \<subseteq> marks s1" "marks s1 \<subseteq> marks s2" "marks s2 \<subseteq> marks s3" "marks s3 \<subseteq> marks s4" "marks s4 \<subseteq> marks s5"
    using produce_transactions_marks [OF txs] produce_lane_marks [OF asset_marks assets]
      produce_lane_marks [OF token_run_marks tokens(2)] produce_lane_marks [OF _ swaps] produce_lane_marks [OF _ reserves]
    by (simp_all add: swap_marks reserve_marks)
  then have grow2: "marks (nd_state n) \<subseteq> marks s2" "marks (nd_state n) \<subseteq> marks s5" by blast+
  consider (asset) op where "op \<in> set (nd_pending_assets n)" "known_asset (nd_state n) op"
    | (token) op where "op \<in> set (nd_pending_tokens n)" "known_token X (nd_state n) op"
    | (program) op where "op \<in> set (nd_pending_programs n)" "known_program X (nd_state n) op"
    using assms(1) unfolding repeats_def list_ex_iff by blast
  then show ?thesis
  proof cases
    case asset
    have "op \<in> set assets"
      by (rule produce_lane_known [where known = "\<lambda>s. known_asset s op",
            OF asset_marks asset(1) known_mono(1) [OF grow(1) asset(2)] _ known_asset_run assets]) (rule known_mono(1))
    then show ?thesis using asset(2) by (auto simp: repeats_def list_ex_iff ops)
  next
    case token
    have "op \<in> set tokens"
      by (rule produce_lane_known [where known = "\<lambda>s. known_token X s op",
            OF token_run_marks token(1) known_mono(2) [OF grow2(1) token(2)] _ known_token_run tokens(2)]) (rule known_mono(2))
    then show ?thesis using token(2) by (auto simp: repeats_def list_ex_iff ops)
  next
    case program
    have "op \<in> set programs"
      by (rule produce_lane_known [where known = "\<lambda>s. known_program X s op",
            OF program_marks program(1) known_mono(3) [OF grow2(2) program(2)] _ known_program_run programs]) (rule known_mono(3))
    then show ?thesis using program(2) by (auto simp: repeats_def list_ex_iff ops)
  qed
qed

text \<open>An operation that is both in a queue of the node and in the block.\<close>

definition shares_queued :: "'db node \<Rightarrow> block \<Rightarrow> bool" where
  "shares_queued n b =
     (list_ex (\<lambda>op. op \<in> set (blk_asset_operations b)) (nd_pending_assets n) \<or>
      list_ex (\<lambda>op. op \<in> set (blk_token_operations b)) (nd_pending_tokens n) \<or>
      list_ex (\<lambda>op. op \<in> set (blk_program_operations b)) (nd_pending_programs n))"

lemma imported_queue_repeats:
  assumes "import_block X n b = (Ok h, n')" and "\<not> is_ok (get_block X (nd_store n) h)" and "shares_queued n b"
  shows "repeats X (nd_state n') (nd_pending_assets n') (nd_pending_tokens n') (nd_pending_programs n')"
proof -
  obtain s ids db where ops: "import_operations X (nd_state n) b = Ok (s, ids)"
    and n': "n' = n\<lparr>nd_store := db, nd_mempool := mempool_remove_ids X (nd_mempool n) ids, nd_state := s, nd_latest_block := b\<rparr>"
    using assms(1,2) by (rule import_fresh)
  from imported_known [OF ops] assms(3) show ?thesis
    by (auto simp: repeats_def shares_queued_def list_ex_iff list_all_iff n')
qed

text \<open>
  C22. A queue that outlives its operations forks the chain. Importing a block does not take the block's
  asset, token and program operations out of the node's queues. When one of them was still queued at the
  import of a new block, the next block that the node produces contains an operation that is applied already,
  the node itself moves on to that block, and every peer in the same state that does not have the block
  rejects it, unchanged.
\<close>

theorem queued_operation_forks:
  assumes "import_block X n b1 = (Ok h1, n1)" and "\<not> is_ok (get_block X (nd_store n) h1)" and "shares_queued n b1"
    and "produce_block X now n1 proposer = (Ok b, n2)" and "block_id_for X b = Ok h"
    and "nd_state m = nd_state n1" and "\<not> is_ok (get_block X (nd_store m) h)"
  shows "repeats X (nd_state n1) (blk_asset_operations b) (blk_token_operations b) (blk_program_operations b) \<and>
    nd_latest_block n2 = b \<and> (\<exists>e. import_block X m b = (Err e, m))"
proof -
  obtain ops s where sel: "select_operations X n1 = Ok (ops, s)"
    and commit: "commit_block X now (drained n1) s ops proposer = (Ok b, n2)"
    using assms(4) by (rule produce_block_Ok)
  obtain header where b: "b = block_with header ops" and n2: "nd_latest_block n2 = b"
    using commit by (rule commit_block_Ok) simp
  have "repeats X (nd_state n1) (ops_assets ops) (ops_tokens ops) (ops_programs ops)"
    by (rule repeated_produced [OF imported_queue_repeats [OF assms(1-3)] sel])
  then have repeated: "repeats X (nd_state n1) (blk_asset_operations b) (blk_token_operations b) (blk_program_operations b)"
    by (simp add: b block_with_def)
  then have "import_operations X (nd_state m) b \<noteq> Ok r" for r
    using assms(6) by (intro repeated_not_imported) simp
  then obtain e where "import_operations X (nd_state m) b = Err e"
    by (cases "import_operations X (nd_state m) b") auto
  then show ?thesis
    using repeated n2 assms(5,7) by (auto simp: import_block_def apply_imported_def split: sum.splits)
qed

lemma toy_deposit_repeated: "apply_asset_operation toy_deposited toy_deposit = (Ok False, toy_deposited)"
  by (rule known_asset_run [OF asset_applied_known [OF toy_deposit_applied]])

lemma remove_empty: "bt_remove k bt_empty = bt_empty"
  by transfer simp

lemma toy_deposit_import:
  "\<exists>db. import_block toy_deposit_net toy_holder (toy_deposit_block 1) = (Ok (toy_digest 13), toy_holder
     \<lparr>nd_store := db, nd_state := toy_deposited, nd_latest_block := toy_deposit_block 1\<rparr>)"
proof -
  obtain db where "store_commit toy_deposit_net toy_empty_db (toy_digest 13) (toy_deposit_block 1) (snapshot toy_deposited) = (Ok (), db)"
    using toy_deposit_commit by blast
  moreover have "check_header toy_deposit_net toy_holder (blk_header (toy_deposit_block 1)) = Ok ()"
  proof -
    have "nd_latest_block toy_holder = toy_net_block 0 1" "nd_genesis toy_holder = toy_genesis"
      by (simp_all add: toy_holder_def)
    then show ?thesis
      by (simp add: check_header_Ok node_latest_hash_def node_height_def check_proposer_def toy_deposit_ids)
        (simp add: toy_deposit_block_def toy_net_block_def block_with_def toy_genesis_def)
  qed
  ultimately show ?thesis
    using toy_deposit_ids(1) [of 1]
    by (simp add: import_block_def apply_imported_def toy_deposit_unknown toy_deposit_operations check_roots_def
        toy_deposit_merkle toy_deposited_root toy_deposit_header toy_holder_def mempool_remove_ids_def mempool_default_def
        toy_node_def remove_empty)
qed

lemma toy_deposit_produced:
  "\<exists>n2. produce_block toy_deposit_net 0 (toy_holder\<lparr>nd_store := db, nd_state := toy_deposited,
     nd_latest_block := toy_deposit_block 1\<rparr>) None = (Ok (toy_deposit_block 2), n2)"
proof -
  let ?n = "toy_holder\<lparr>nd_store := db, nd_state := toy_deposited, nd_latest_block := toy_deposit_block 1\<rparr>"
  let ?ops = "no_operations\<lparr>ops_assets := [toy_deposit]\<rparr>"
  have "select_operations toy_deposit_net ?n = Ok (?ops, toy_deposited)"
    using toy_deposit_repeated
    by (simp add: select_operations_def toy_holder_def toy_node_def mempool_default_def no_operations_def)
  moreover have "make_header toy_deposit_net 0 (drained ?n) toy_deposited [HASH_ZERO] None = Ok (blk_header (toy_deposit_block 2))"
    by (simp add: make_header_def node_latest_hash_def toy_deposit_ids toy_deposited_root toy_deposit_merkle)
      (simp add: toy_deposit_block_def toy_net_block_def block_with_def toy_genesis_def toy_holder_def node_height_def)
  moreover have "operation_ids toy_deposit_net ?ops = Ok [HASH_ZERO]"
    by (simp add: operation_ids_def no_operations_def) (simp add: toy_deposit_def toy_asset_op_def)
  moreover have "block_with (blk_header (toy_deposit_block 2)) ?ops = toy_deposit_block 2"
    by (simp add: toy_deposit_block_def)
  moreover obtain db' where "store_commit toy_deposit_net db (toy_digest 14) (toy_deposit_block 2) (snapshot toy_deposited) = (Ok (), db')"
    using toy_deposit_commit by blast
  ultimately show ?thesis
    using toy_deposit_ids(1) [of 2] by (simp add: produce_block_def commit_block_def Let_def)
qed

theorem queued_operation_forks_witness:
  "\<exists>e. import_block toy_deposit_net (toy_node toy_deposited toy_empty_db) (toy_deposit_block 2) =
     (Err e, toy_node toy_deposited toy_empty_db)"
proof -
  obtain db where imported: "import_block toy_deposit_net toy_holder (toy_deposit_block 1) = (Ok (toy_digest 13), toy_holder
     \<lparr>nd_store := db, nd_state := toy_deposited, nd_latest_block := toy_deposit_block 1\<rparr>)"
    using toy_deposit_import by blast
  obtain n2 where produced: "produce_block toy_deposit_net 0 (toy_holder\<lparr>nd_store := db, nd_state := toy_deposited,
     nd_latest_block := toy_deposit_block 1\<rparr>) None = (Ok (toy_deposit_block 2), n2)"
    using toy_deposit_produced by blast
  have "\<not> is_ok (get_block toy_deposit_net (nd_store toy_holder) (toy_digest 13))"
    by (simp add: toy_holder_def toy_deposit_unknown)
  moreover have "shares_queued toy_holder (toy_deposit_block 1)"
    by (simp add: shares_queued_def toy_holder_def toy_deposit_block_def block_with_def)
  ultimately show ?thesis
    using queued_operation_forks [OF imported _ _ produced toy_deposit_ids(1), of "toy_node toy_deposited toy_empty_db"]
    by (simp add: toy_deposit_unknown)
qed

section \<open>The devnet credit and signed blocks without validators\<close>

text \<open>
  The credit of \<open>Node::faucet\<close> is in no operation of its block. Whenever the credit changed the state
  root, the block's header promises a state that its empty lists of operations do not make, so a peer
  that was in the same state rejects the block and stays behind.
\<close>

theorem faucet_block_rejected:
  assumes "node_faucet X now n a amt = (Ok b, n')" and "block_id_for X b = Ok h"
    and "state_root X (nd_state n') \<noteq> state_root X (nd_state n)"
    and "nd_state m = nd_state n" and "\<not> is_ok (get_block X (nd_store m) h)"
  shows "operations_of b = no_operations \<and> (\<exists>e. import_block X m b = (Err e, m))"
proof -
  obtain s where "commit_block X now n s no_operations None = (Ok b, n')"
    using assms(1) by (auto simp: node_faucet_def split: if_splits prod.splits sum.splits)
  then obtain ids header where header: "make_header X now n s ids None = Ok header"
    and b: "b = block_with header no_operations" and n': "nd_state n' = s"
    by (rule commit_block_Ok) simp
  have "import_operations X (nd_state m) b = Ok (nd_state m, [])"
    by (simp add: import_operations_def b block_with_def no_operations_def)
  moreover have "check_roots X header (nd_state m) [] \<noteq> Ok ()"
    using make_header_Ok(1) [OF header] assms(3,4) by (simp add: check_roots_Ok n')
  ultimately have "\<exists>e. import_block X m b = (Err e, m)"
    using assms(2,5) by (auto simp: import_block_def apply_imported_def b split: sum.splits)
  moreover have "operations_of b = no_operations" by (simp add: operations_of_def b block_with_def no_operations_def)
  ultimately show ?thesis by blast
qed

definition toy_credited :: state where
  "toy_credited = snd (credit_devnet toy_state (toy_address 1) 5)"

definition toy_credit_net :: "toy_db storage_ext" where
  "toy_credit_net = (toy_net toy_state toy_credited 2)
     \<lparr>x_enc_legacy := (\<lambda>l. if snap_accounts l = st_accounts toy_state then Inr [1] else Inr [1, 1])\<rparr>"

lemmas toy_credit_defs = toy_credit_net_def toy_net_defs

lemma toy_credit: "credit_devnet toy_state (toy_address 1) 5 = (Ok (), toy_credited)"
proof -
  have "fst (credit_devnet toy_state (toy_address 1) 5) = Ok ()"
    by (simp add: credit_devnet_def toy_state_def toy_address_def state_new_def checked_add_def bt_get_or_def bt_entry_def)
  then show ?thesis by (simp add: toy_credited_def prod_eq_iff)
qed

lemma toy_credit_balance: "balance_of toy_credited (toy_address 1) = 105" "balance_of toy_state (toy_address 1) = 100"
  by (simp_all add: toy_credited_def credit_devnet_def toy_state_def toy_address_def state_new_def checked_add_def bt_get_or_def
      bt_entry_def balance_of_def)

lemma toy_credit_roots:
  "state_root toy_credit_net toy_state = Ok (toy_digest 13)" "state_root toy_credit_net toy_credited = Ok (toy_digest 14)"
proof -
  have "st_accounts toy_credited \<noteq> st_accounts toy_state"
    using toy_credit_balance by (auto simp: balance_of_def)
  moreover have "\<not> has_program_data s \<and> \<not> has_token_data s \<and> \<not> has_asset_data s" if "s \<in> {toy_state, toy_credited}" for s
    using that by (auto simp: has_program_data_def has_token_data_def has_asset_data_def toy_state_def state_new_def
        toy_credited_def credit_devnet_def Let_def split: option.splits)
  ultimately show "state_root toy_credit_net toy_state = Ok (toy_digest 13)"
    "state_root toy_credit_net toy_credited = Ok (toy_digest 14)"
    by (simp_all add: state_root_def state_root_bytes_def toy_credit_defs sha256_domain_def toy_digest_def legacy_snapshot_eq)
qed

lemma toy_credit_block:
  "\<exists>n'. node_faucet toy_credit_net 0 (toy_node toy_state toy_empty_db) (toy_address 1) 5 = (Ok (toy_net_block 1 2), n') \<and>
     nd_state n' = toy_credited"
proof -
  let ?n = "toy_node toy_state toy_empty_db"
  have ids: "block_id_for toy_credit_net (toy_net_block h j) = Ok (toy_digest (12 + unat h))" for h j
    by (simp add: block_id_for_def block_header_id_def hash_encoded_def toy_credit_defs toy_net_block_def
      block_with_def sha256_domain_def toy_digest_def)
  have "make_header toy_credit_net 0 ?n toy_credited [] None = Ok (blk_header (toy_net_block 1 2))"
    using ids [of 0 1] toy_credit_roots(2)
    by (simp add: make_header_def node_latest_hash_def)
      (simp add: toy_net_block_def block_with_def toy_genesis_def merkle_root_def toy_credit_defs sha256_domain_def toy_digest_def)
  moreover have "block_with (blk_header (toy_net_block 1 2)) no_operations = toy_net_block 1 2"
    by (simp add: toy_net_block_def)
  moreover have "\<exists>db. store_commit toy_credit_net toy_empty_db (toy_digest 13) (toy_net_block 1 2) (snapshot toy_credited) = (Ok (), db)"
    by (simp add: store_commit_def toy_credit_defs toy_codec_def db_insert_def db_flush_def try_then_def
      toy_net_block_def block_with_def no_operations_def)
  ultimately have "\<exists>n'. commit_block toy_credit_net 0 ?n toy_credited no_operations None = (Ok (toy_net_block 1 2), n') \<and>
      nd_state n' = toy_credited"
    using ids [of 1 2] by (auto simp: commit_block_def operation_ids_def no_operations_def Let_def)
  moreover have "is_devnet toy_genesis"
    by (simp add: is_devnet_def toy_genesis_def CHAIN_ID_def)
  ultimately show ?thesis by (simp add: node_faucet_def toy_credit)
qed

theorem faucet_block_rejected_witness:
  "\<exists>e. import_block toy_credit_net (toy_node toy_state toy_empty_db) (toy_net_block 1 2) =
     (Err e, toy_node toy_state toy_empty_db)"
proof -
  obtain n' where run: "node_faucet toy_credit_net 0 (toy_node toy_state toy_empty_db) (toy_address 1) 5 = (Ok (toy_net_block 1 2), n')"
    "nd_state n' = toy_credited"
    using toy_credit_block by blast
  have "block_id_for toy_credit_net (toy_net_block 1 2) = Ok (toy_digest 13)"
    by (simp add: block_id_for_def block_header_id_def hash_encoded_def toy_credit_defs toy_net_block_def
      block_with_def sha256_domain_def toy_digest_def)
  moreover have "state_root toy_credit_net (nd_state n') \<noteq> state_root toy_credit_net toy_state"
    by (simp add: run(2) toy_credit_roots toy_digest_def)
  moreover have "\<not> is_ok (get_block toy_credit_net toy_empty_db h)" for h
    by (simp add: get_block_def db_require_def db_get_def toy_credit_defs toy_empty_db_def ok_or_def)
  ultimately show ?thesis
    using faucet_block_rejected [OF run(1), of _ "toy_node toy_state toy_empty_db"] by simp
qed

text \<open>
  On a chain without validators every key is an expected proposer, so a node signs its blocks when it
  is given a key; but an importer looks the signer up in the empty list of validators, and every peer
  on the node's latest block rejects the block.
\<close>

theorem signed_block_without_validators_rejected:
  assumes "gen_validators (nd_genesis n) = []" and "produce_block X now n (Some key) = (Ok b, n')"
    and "block_id_for X b = Ok h" and "nd_genesis m = nd_genesis n" and "nd_latest_block m = nd_latest_block n"
    and "\<not> is_ok (get_block X (nd_store m) h)"
  shows "is_expected_proposer n (kp_public_key X key) \<and>
    import_block X m b = (Err (InvalidBlock ''unknown block proposer''), m)"
proof -
  obtain ops s where "commit_block X now (drained n) s ops (Some key) = (Ok b, n')"
    using assms(2) by (rule produce_block_Ok)
  then obtain ids header where header: "make_header X now (drained n) s ids (Some key) = Ok header"
    and b: "b = block_with header ops"
    by (rule commit_block_Ok)
  note made = make_header_Ok [OF header]
  have "bh_proposer header = Some (kp_public_key X key)" "bh_proposer_signature header \<noteq> None"
    using header by (auto simp: make_header_def Let_def split: sum.splits)
  then have "check_proposer X (nd_genesis m) header = Err (InvalidBlock ''unknown block proposer'')"
    using assms(1,4) by (auto simp: check_proposer_def)
  then have "check_header X m header = Err (InvalidBlock ''unknown block proposer'')"
    using made assms(4,5) by (simp add: check_header_def node_latest_hash_def node_height_def)
  then show ?thesis
    using assms(1,3,6) made(6) by (simp add: import_block_def b is_expected_proposer_def)
qed

definition toy_signed_block :: block where
  "toy_signed_block = block_with ((blk_header (toy_net_block 1 1))\<lparr>bh_proposer := Some (kp_public_key toy_ext (KeyPair [])),
     bh_proposer_signature := Some (kp_sign toy_ext (KeyPair []) [0])\<rparr>) no_operations"

definition toy_signed_net :: "toy_db storage_ext" where
  "toy_signed_net = toy_storage_ext (toy_net_block 0 1) toy_signed_block (snapshot toy_state) (snapshot toy_state) toy_faucet_transfer"

lemma toy_signed_produced:
  "\<exists>n'. produce_block toy_signed_net 0 (toy_node toy_state toy_empty_db) (Some (KeyPair [])) = (Ok toy_signed_block, n')"
proof -
  let ?n = "toy_node toy_state toy_empty_db"
  have ids: "block_id_for toy_signed_net (toy_net_block 0 j) = Ok (toy_digest 12)"
    "block_id_for toy_signed_net toy_signed_block = Ok (toy_digest 13)" for j
    by (simp_all add: block_id_for_def block_header_id_def hash_encoded_def toy_signed_net_def toy_storage_defs toy_net_block_def
        block_with_def sha256_domain_def toy_digest_def toy_signed_block_def)
  have "make_header toy_signed_net 0 (drained ?n) toy_state [] (Some (KeyPair [])) = Ok (blk_header toy_signed_block)"
    using toy_net_roots(1,2) [of toy_state toy_state 1]
    by (simp add: make_header_def node_latest_hash_def ids)
      (simp add: toy_signed_block_def toy_net_block_def block_with_def toy_genesis_def header_signing_bytes_def kp_public_key_def
        kp_sign_def toy_signed_net_def toy_storage_defs state_root_def state_root_bytes_def merkle_root_def sha256_domain_def
        toy_digest_def has_program_data_def has_token_data_def has_asset_data_def toy_state_def Let_def)
  moreover have "block_with (blk_header toy_signed_block) no_operations = toy_signed_block"
    by (simp add: toy_signed_block_def)
  moreover have "\<exists>db. store_commit toy_signed_net toy_empty_db (toy_digest 13) toy_signed_block (snapshot toy_state) = (Ok (), db)"
    by (simp add: store_commit_def toy_signed_net_def toy_storage_defs toy_codec_def db_insert_def db_flush_def try_then_def
        toy_signed_block_def toy_net_block_def block_with_def no_operations_def)
  ultimately show ?thesis
    by (auto simp: produce_block_def is_expected_proposer_def toy_genesis_def toy_select commit_block_def operation_ids_def
        no_operations_def ids Let_def)
qed

theorem signed_block_without_validators_rejected_witness:
  "import_block toy_signed_net (toy_node toy_state toy_empty_db) toy_signed_block =
     (Err (InvalidBlock ''unknown block proposer''), toy_node toy_state toy_empty_db)"
proof -
  obtain n' where run: "produce_block toy_signed_net 0 (toy_node toy_state toy_empty_db) (Some (KeyPair [])) = (Ok toy_signed_block, n')"
    using toy_signed_produced by blast
  have "block_id_for toy_signed_net toy_signed_block = Ok (toy_digest 13)"
    by (simp add: block_id_for_def block_header_id_def hash_encoded_def toy_signed_net_def toy_storage_defs toy_net_block_def
        block_with_def sha256_domain_def toy_digest_def toy_signed_block_def)
  moreover have "\<not> is_ok (get_block toy_signed_net toy_empty_db h)" for h
    by (simp add: get_block_def db_require_def db_get_def toy_signed_net_def toy_storage_defs toy_empty_db_def ok_or_def)
  ultimately show ?thesis
    using signed_block_without_validators_rejected [OF _ run _ refl refl] by (simp add: toy_genesis_def)
qed

end
