(* ===== verification/Node_Consistency.thy ===== *)
theory Node_Consistency
  imports Block_Rejection
begin

text \<open>
  The node as a state machine over its public methods, and what ties its memory to its store: the
  latest block and state are the stored ones and the state root is the one in the block. While the
  store does not fail this holds after any sequence of calls, so a restart recovers the node.
\<close>

section \<open>The machine\<close>

datatype node_call =
    SubmitTransaction transaction | SubmitAsset asset_operation | SubmitToken token_operation
  | SubmitSwap mna_swap_operation | SubmitReserve mna_reserve_operation | SubmitProgram program_operation
  | Produce u64 "key_pair option" | Faucet u64 address amount | Import block | Finalize vote_set

definition error_of :: "'e + 'a \<Rightarrow> 'e option" where
  "error_of r = (case r of Inl e \<Rightarrow> Some e | Inr _ \<Rightarrow> None)"

definition node_run ::
    "('db, 'a) storage_ext_scheme \<Rightarrow> vote_encoder \<Rightarrow> 'db node \<Rightarrow> node_call \<Rightarrow> node_error option \<times> 'db node" where
  "node_run X enc n c =
     (case c of
        SubmitTransaction tx \<Rightarrow> map_prod error_of id (submit_transaction X n tx)
      | SubmitAsset op \<Rightarrow> map_prod error_of id (submit_asset_operation n op)
      | SubmitToken op \<Rightarrow> map_prod error_of id (submit_token_operation X n op)
      | SubmitSwap op \<Rightarrow> map_prod error_of id (submit_mna_swap X n op)
      | SubmitReserve op \<Rightarrow> map_prod error_of id (submit_mna_reserve_operation X n op)
      | SubmitProgram op \<Rightarrow> map_prod error_of id (submit_program_operation X n op)
      | Produce now proposer \<Rightarrow> map_prod error_of id (produce_block X now n proposer)
      | Faucet now a amt \<Rightarrow> map_prod error_of id (node_faucet X now n a amt)
      | Import b \<Rightarrow> map_prod error_of id (import_block X n b)
      | Finalize s \<Rightarrow> map_prod error_of id (finalize_votes X enc n s))"

definition store_failed :: "node_error option \<Rightarrow> bool" where
  "store_failed r = (case r of Some (NStorage _) \<Rightarrow> True | _ \<Rightarrow> False)"

lemma store_failed_error [simp]: "store_failed (error_of (Err (NStorage e)))" "\<not> store_failed (error_of (Ok a))"
  by (simp_all add: store_failed_def error_of_def)

text \<open>Any sequence of calls during which the store does not fail.\<close>

inductive node_reach ::
    "('db, 'a) storage_ext_scheme \<Rightarrow> vote_encoder \<Rightarrow> 'db node \<Rightarrow> 'db node \<Rightarrow> bool" for X enc n0 where
  start: "node_reach X enc n0 n0"
| step: "node_reach X enc n0 n \<Longrightarrow> \<not> store_failed (fst (node_run X enc n c)) \<Longrightarrow>
    node_reach X enc n0 (snd (node_run X enc n c))"

section \<open>The invariant\<close>

definition genesis_stored :: "('db, 'a) storage_ext_scheme \<Rightarrow> 'db \<Rightarrow> genesis_config \<Rightarrow> hash \<Rightarrow> bool" where
  "genesis_stored X db g h =
     (db_require X db TMeta META_CHAIN_ID = Ok (str_bytes (gen_chain_id g)) \<and>
      db_require X db TMeta META_GENESIS_HASH = Ok (hash_bytes h) \<and>
      (\<exists>v. db_require X db TMeta META_FINALIZED_HEIGHT = Ok v))"

definition node_ok :: "('db, 'a) storage_ext_scheme \<Rightarrow> hash \<Rightarrow> 'db node \<Rightarrow> bool" where
  "node_ok X h n =
     (state_root X (nd_state n) = Ok (bh_state_root (blk_header (nd_latest_block n))) \<and>
      bh_chain_id (blk_header (nd_latest_block n)) = gen_chain_id (nd_genesis n) \<and>
      latest_block X (nd_store n) = Ok (nd_latest_block n) \<and>
      latest_state X (nd_store n) = Ok (snapshot (nd_state n)) \<and>
      mempool_ok X (nd_mempool n) \<and> genesis_stored X (nd_store n) (nd_genesis n) h)"

lemma commit_block_Err:
  "commit_block X now n s ops proposer = (Err e, n') \<Longrightarrow> \<not> store_failed (Some e) \<Longrightarrow> n' = n"
  by (auto simp: commit_block_def Let_def store_failed_def split: sum.splits prod.splits)

lemma genesis_stored_commit:
  assumes "sled_ok X" and "store_commit X db h b s = (Ok u, db')" and "genesis_stored X db g h0"
  shows "genesis_stored X db' g h0"
  using assms(3) by (simp add: genesis_stored_def commit_meta [OF assms(1,2)] meta_key_defs)

lemma commit_block_keeps:
  assumes "store_laws X" and "digests_ok X" and "node_ok X h0 n" and "commit_block X now n s ops proposer = (Ok b, n')"
  shows "node_ok X h0 n'"
  using assms(4)
proof (rule commit_block_Ok)
  fix ids header h db
  assume header: "make_header X now n s ids proposer = Ok header" and b: "b = block_with header ops"
    and id: "block_id_for X b = Ok h" and run: "store_commit X (nd_store n) h b (snapshot s) = (Ok (), db)"
    and n': "n' = n\<lparr>nd_store := db, nd_state := s, nd_latest_block := b\<rparr>"
  have "genesis_stored X db (nd_genesis n) h0"
    using assms(1,3) by (intro genesis_stored_commit [OF _ run]) (simp_all add: store_laws_def node_ok_def)
  then show ?thesis
    using commit_latest [OF assms(1) block_id_wf [OF assms(2) id] run] make_header_Ok [OF header] assms(3)
    by (simp add: node_ok_def n' b)
qed

lemma import_keeps:
  assumes "store_laws X" and "digests_ok X" and "node_ok X h0 n" and "import_block X n b = (Ok h, n')"
  shows "node_ok X h0 n'"
  using assms(4)
proof (cases rule: import_block_Ok)
  case known
  with assms(3) show ?thesis by simp
next
  case (fresh s ids db)
  have "genesis_stored X db (nd_genesis n) h0"
    using assms(1,3) by (intro genesis_stored_commit [OF _ fresh(8)]) (simp_all add: store_laws_def node_ok_def)
  moreover have "mempool_ok X (mempool_remove_ids X (nd_mempool n) ids)"
    using assms(3) by (intro mempool_remove_ok) (simp add: node_ok_def)
  ultimately show ?thesis
    using commit_latest [OF assms(1) block_id_wf [OF assms(2) fresh(2)] fresh(8)] fresh(4,7) assms(3)
    by (simp add: node_ok_def fresh(9) check_header_Ok)
qed

lemma finality_write_keeps:
  assumes "sled_ok X" and "db_insert X db TMeta k v = (Ok u, db')" and "k \<in> {META_FINALIZED_HEIGHT, META_FINALIZED_HASH}"
  shows "latest_block X db' = latest_block X db" and "latest_state X db' = latest_state X db"
    and "genesis_stored X db g h \<Longrightarrow> genesis_stored X db' g h"
proof -
  have meta: "db_require X db' TMeta META_CHAIN_ID = db_require X db TMeta META_CHAIN_ID"
    "db_require X db' TMeta META_GENESIS_HASH = db_require X db TMeta META_GENESIS_HASH"
    "db_require X db' TMeta META_LATEST_HASH = db_require X db TMeta META_LATEST_HASH"
    using assms(3) by (auto simp: db_require_insert [OF assms(1,2)] meta_key_defs)
  have height: "\<exists>w. db_require X db' TMeta META_FINALIZED_HEIGHT = Ok w"
    if "db_require X db TMeta META_FINALIZED_HEIGHT = Ok w" for w
    using that by (simp add: db_require_insert [OF assms(1,2)])
  show "latest_block X db' = latest_block X db"
    by (simp only: latest_block_def latest_hash_def meta get_block_meta [OF assms(1,2)])
  show "latest_state X db' = latest_state X db"
    by (simp add: latest_state_def db_require_insert [OF assms(1,2)])
  show "genesis_stored X db' g h" if "genesis_stored X db g h"
    using that height by (auto simp: genesis_stored_def meta)
qed

lemma mark_finalized_keeps:
  assumes "sled_ok X" and "mark_finalized X db n h = (Ok u, db')"
  shows "latest_block X db' = latest_block X db \<and> latest_state X db' = latest_state X db \<and>
    (genesis_stored X db g h0 \<longrightarrow> genesis_stored X db' g h0)"
  using assms(2)
proof (cases rule: mark_finalized_Ok)
  case 1
  then show ?thesis by simp
next
  case (2 b cur d)
  then show ?thesis
    using finality_write_keeps [OF assms(1) 2(5)] finality_write_keeps [OF assms(1) 2(6)] by auto
qed

lemma drained_ok: "node_ok X h n \<Longrightarrow> node_ok X h (drained n)"
  by (simp add: node_ok_def drained_def mempool_drain_ok)

lemma finalize_keeps:
  assumes "store_laws X" and "node_ok X h0 n" and "finalize_votes X enc n s = (r, n')" and "\<not> store_failed (error_of r)"
  shows "node_ok X h0 n'"
proof (cases r)
  case (Inl e)
  then have "n' = n"
    using assms(3,4) by (auto simp: finalize_votes_def Let_def store_failed_def error_of_def split: sum.splits prod.splits if_splits)
  with assms(2) show ?thesis by simp
next
  case (Inr h)
  then obtain latest db where "mark_finalized X (nd_store n) (vs_height s) latest = (Ok (), db)" and n': "n' = n\<lparr>nd_store := db\<rparr>"
    using assms(3) by (auto simp: finalize_votes_def Let_def split: sum.splits prod.splits if_splits)
  then show ?thesis
    using mark_finalized_keeps [of X "nd_store n" "vs_height s" latest "()" db] assms(1,2)
    by (auto simp: node_ok_def store_laws_def)
qed

lemma produce_keeps:
  assumes "store_laws X" and "digests_ok X" and "node_ok X h0 n" and "produce_block X now n proposer = (r, n')"
    and "\<not> store_failed (error_of r)"
  shows "node_ok X h0 n'"
proof (cases "\<exists>ops s. n' = n \<or> n' = drained n \<or> (\<exists>b. r = Ok b \<and> commit_block X now (drained n) s ops proposer = (r, n'))")
  case True
  then show ?thesis using commit_block_keeps [OF assms(1,2) drained_ok [OF assms(3)]] drained_ok [OF assms(3)] assms(3) by blast
next
  case False
  then have "\<exists>ops s. commit_block X now (drained n) s ops proposer = (r, n')" "\<forall>b. r \<noteq> Ok b"
    using assms(4) by (auto simp: produce_block_def split: sum.splits if_splits)
  then obtain e ops s where "r = Err e" "commit_block X now (drained n) s ops proposer = (Err e, n')"
    by (cases r) auto
  then have "n' = drained n" using commit_block_Err assms(5) by (fastforce simp: error_of_def)
  with False show ?thesis by blast
qed


lemma mempool_update_ok:
  "node_ok X h n \<Longrightarrow> mempool_ok X m \<Longrightarrow> node_ok X h (n\<lparr>nd_mempool := m\<rparr>)"
  by (simp add: node_ok_def)

lemma submit_keeps:
  assumes "node_ok X h n"
  shows "node_ok X h (snd (submit_transaction X n tx))" and "node_ok X h (snd (submit_asset_operation n op1))"
    and "node_ok X h (snd (submit_token_operation X n op2))" and "node_ok X h (snd (submit_mna_swap X n op3))"
    and "node_ok X h (snd (submit_mna_reserve_operation X n op4))" and "node_ok X h (snd (submit_program_operation X n op5))"
proof -
  have "mempool_ok X (snd (mempool_admit X (nd_mempool n) (nd_state n) tx))"
    using assms by (intro mempool_admit_ok) (simp add: node_ok_def)
  then show "node_ok X h (snd (submit_transaction X n tx))"
    using assms mempool_update_ok by (auto simp: submit_transaction_def split: sum.splits prod.splits)
qed (use assms in \<open>auto simp: submit_asset_operation_def submit_token_operation_def submit_mna_swap_def
    submit_mna_reserve_operation_def submit_program_operation_def node_ok_def split: sum.splits\<close>)

lemma faucet_keeps:
  assumes "store_laws X" and "digests_ok X" and "node_ok X h0 n" and "node_faucet X now n a amt = (r, n')"
    and "\<not> store_failed (error_of r)"
  shows "node_ok X h0 n'"
proof -
  consider "n' = n" | s where "commit_block X now n s no_operations None = (r, n')"
    using assms(4) by (auto simp: node_faucet_def split: if_splits prod.splits sum.splits)
  then show ?thesis
  proof cases
    case 2
    then show ?thesis
      using commit_block_keeps [OF assms(1-3)] commit_block_Err [of X now n s no_operations None _ n'] assms(3,5)
      by (cases r) (auto simp: error_of_def)
  qed (simp add: assms(3))
qed

lemma node_run_keeps:
  assumes "store_laws X" and "digests_ok X" and "node_ok X h0 n" and "\<not> store_failed (fst (node_run X enc n c))"
  shows "node_ok X h0 (snd (node_run X enc n c))"
proof (cases c)
  case (Produce now proposer)
  then show ?thesis using assms(4) produce_keeps [OF assms(1-3)]
    by (cases "produce_block X now n proposer") (simp add: node_run_def)
next
  case (Faucet now a amt)
  then show ?thesis using assms(4) faucet_keeps [OF assms(1-3)]
    by (cases "node_faucet X now n a amt") (simp add: node_run_def)
next
  case (Import b)
  obtain r n' where run: "import_block X n b = (r, n')" by fastforce
  show ?thesis
  proof (cases r)
    case (Inl e)
    then have "n' = n" using assms(4) run Import
      by (auto simp: import_block_def apply_imported_def node_run_def store_failed_def error_of_def
          split: sum.splits prod.splits if_splits)
    then show ?thesis using assms(3) by (simp add: node_run_def Import run)
  next
    case (Inr h)
    then show ?thesis using import_keeps [OF assms(1-3)] run by (simp add: node_run_def Import)
  qed
next
  case (Finalize s)
  then show ?thesis using assms(4) finalize_keeps [OF assms(1,3)]
    by (cases "finalize_votes X enc n s") (simp add: node_run_def)
qed (use submit_keeps [OF assms(3)] in \<open>simp_all add: node_run_def\<close>)

lemma node_run_frame:
  "nd_genesis (snd (node_run X enc n c)) = nd_genesis n \<and> nd_config (snd (node_run X enc n c)) = nd_config n"
proof -
  have commit: "nd_genesis (snd (commit_block X now m s ops p)) = nd_genesis m \<and>
      nd_config (snd (commit_block X now m s ops p)) = nd_config m" for now m s ops p
    by (auto simp: commit_block_def Let_def split: sum.splits prod.splits)
  show ?thesis
  proof (cases c)
    case (Produce now p)
    then show ?thesis using commit [of now "drained n"]
      by (auto simp: node_run_def produce_block_def drained_def split: sum.splits)
  next
    case (Faucet now a amt)
    then show ?thesis using commit [of now n] by (auto simp: node_run_def node_faucet_def split: sum.splits prod.splits)
  qed (auto simp: node_run_def submit_transaction_def submit_asset_operation_def submit_token_operation_def
      submit_mna_swap_def submit_mna_reserve_operation_def submit_program_operation_def import_block_def
      apply_imported_def finalize_votes_def Let_def split: sum.splits prod.splits)
qed

lemma node_reach_ok:
  assumes "node_reach X enc n0 n" and "store_laws X" and "digests_ok X" and "node_ok X h n0"
  shows "node_ok X h n \<and> nd_genesis n = nd_genesis n0 \<and> nd_config n = nd_config n0"
  using assms(1)
proof induction
  case start
  then show ?case using assms(4) by simp
next
  case (step n c)
  then show ?case using node_run_keeps [OF assms(2,3)] node_run_frame by metis
qed

section \<open>Opening and restarting\<close>

text \<open>A node as \<open>open\<close> builds it: the memory of the given node, empty pools.\<close>

definition restarted :: "'db node \<Rightarrow> 'db node" where
  "restarted n = n\<lparr>nd_mempool := mempool_default, nd_pending_assets := [], nd_pending_tokens := [],
     nd_pending_swaps := [], nd_pending_reserves := [], nd_pending_programs := []\<rparr>"

lemma restore_ok:
  assumes "node_ok X h n"
  shows "restore_node X (nd_config n) (nd_genesis n) (nd_store n) = Ok (restarted n)"
  using assms by (simp add: restore_node_def node_ok_def from_snapshot_snapshot restarted_def)

lemma open_Ok:
  assumes "node_open X cfg (Ok g) db = (Ok n, db')"
  obtains s b h where "gen_chain_id g = nc_chain_id cfg" "from_genesis g = Ok s" "make_genesis_block X g s = Ok b"
    "ensure_genesis X db g b (snapshot s) = (Ok h, db')" "restore_node X cfg g db' = Ok n"
  using assms by (auto simp: node_open_def split: if_splits sum.splits prod.splits)

lemma restore_Ok:
  assumes "restore_node X cfg g db = Ok n"
  shows "state_root X (nd_state n) = Ok (bh_state_root (blk_header (nd_latest_block n)))"
    and "bh_chain_id (blk_header (nd_latest_block n)) = gen_chain_id g"
    and "latest_block X db = Ok (nd_latest_block n)" and "latest_state X db = Ok (snapshot (nd_state n))"
    and "nd_mempool n = mempool_default" and "nd_store n = db" and "nd_genesis n = g" and "nd_config n = cfg"
  using assms snapshot_from_snapshot
  by (auto simp: restore_node_def split: sum.splits if_splits)


lemma ensure_genesis_Ok:
  assumes "store_laws X" and "ensure_genesis X db g b s = (Ok h, db')"
  shows "block_header_id X (blk_header b) = Ok h" and "genesis_stored X db' g h"
proof -
  have sled: "sled_ok X" using assms(1) by (simp add: store_laws_def)
  obtain h0 where id: "block_header_id X (blk_header b) = Ok h0"
    using assms(2) by (cases "block_header_id X (blk_header b)") (auto simp: ensure_genesis_def)
  have "h = h0 \<and> genesis_stored X db' g h"
  proof (cases "db_get X db TMeta META_CHAIN_ID")
    case (Inl e)
    with assms(2) id show ?thesis by (simp add: ensure_genesis_def)
  next
    case (Inr v)
    show ?thesis
    proof (cases v)
      case None
      then have w: "write_genesis X db g h0 b s = (Ok h, db')" using assms(2) id Inr by (simp add: ensure_genesis_def)
      from write_genesis_Ok(1-4) [OF sled w] show ?thesis by (auto simp: genesis_stored_def)
    next
      case (Some chain_id)
      then have c: "check_stored_genesis X db chain_id g h0 = (Ok h, db')"
        using assms(2) id Inr by (simp add: ensure_genesis_def)
      then have "bytes_str chain_id = gen_chain_id g" "h = h0"
        and stored: "db_get X db TMeta META_GENESIS_HASH = Ok (Some (hash_bytes h0))"
        by (auto simp: check_stored_genesis_def try_then_Ok db_flush_Ok split: if_splits sum.splits option.splits)
      then have chain: "chain_id = str_bytes (gen_chain_id g)" "h = h0" using str_bytes_str by metis+
      consider v where "db_get X db TMeta META_FINALIZED_HEIGHT = Ok (Some v)" "db' = db"
        | d where "db_insert X db TMeta META_FINALIZED_HEIGHT (to_be_bytes (0 :: u64)) = (Ok (), d)"
            "db_insert X d TMeta META_FINALIZED_HASH (hash_bytes h0) = (Ok (), db')"
        using c by (auto simp: check_stored_genesis_def try_then_Ok db_flush_Ok split: if_splits sum.splits option.splits)
      then show ?thesis
      proof cases
        case 1
        then show ?thesis using chain stored Some Inr by (simp add: genesis_stored_def db_require_get)
      next
        case 2
        then show ?thesis using chain stored Some Inr
          by (simp add: genesis_stored_def db_require_insert [OF sled 2(2)] db_require_insert [OF sled 2(1)]
              meta_key_defs db_require_get [symmetric])
      qed
    qed
  qed
  then show "block_header_id X (blk_header b) = Ok h" "genesis_stored X db' g h" using id by auto
qed

lemma ensure_genesis_again:
  assumes "genesis_stored X db g h" and "block_header_id X (blk_header b) = Ok h" and "valid_utf8 (gen_chain_id g)"
  shows "ensure_genesis X db g b s = (Ok h, db)"
proof -
  have "utf8_ok (map unat (str_bytes (gen_chain_id g)))"
    using assms(3) by (simp add: unat_str_bytes valid_utf8_def)
  then show ?thesis
    using assms(1,2) by (auto simp: genesis_stored_def db_require_get ensure_genesis_def check_stored_genesis_def)
qed

lemma open_ok:
  assumes "store_laws X" and "node_open X cfg (Ok g) db = (Ok n, db')"
  obtains s b h where "gen_chain_id g = nc_chain_id cfg" "from_genesis g = Ok s" "make_genesis_block X g s = Ok b"
    "block_header_id X (blk_header b) = Ok h" "node_ok X h n" "nd_genesis n = g" "nd_config n = cfg" "nd_store n = db'"
  using assms(2)
proof (rule open_Ok)
  fix s b h
  assume parts: "gen_chain_id g = nc_chain_id cfg" "from_genesis g = Ok s" "make_genesis_block X g s = Ok b"
    and eg: "ensure_genesis X db g b (snapshot s) = (Ok h, db')" and restore: "restore_node X cfg g db' = Ok n"
  note r = restore_Ok [OF restore]
  have "node_ok X h n"
    using ensure_genesis_Ok(2) [OF assms(1) eg] r mempool_default_ok by (simp add: node_ok_def)
  then show thesis using that parts ensure_genesis_Ok(1) [OF assms(1) eg] r by blast
qed

lemma reopened:
  assumes "store_laws X" and "digests_ok X" and "valid_utf8 (gen_chain_id g)"
    and "node_open X cfg (Ok g) db = (Ok n0, db0)" and "node_reach X enc n0 n"
  shows "node_open X cfg (Ok g) (nd_store n) = (Ok (restarted n), nd_store n)"
  using assms(1,4)
proof (rule open_ok)
  fix s b h
  assume parts: "gen_chain_id g = nc_chain_id cfg" "from_genesis g = Ok s" "make_genesis_block X g s = Ok b"
    "block_header_id X (blk_header b) = Ok h" and "node_ok X h n0" "nd_genesis n0 = g" "nd_config n0 = cfg"
  then have n: "node_ok X h n" "nd_genesis n = g" "nd_config n = cfg"
    using node_reach_ok [OF assms(5,1,2)] by auto
  then have "ensure_genesis X (nd_store n) g b (snapshot s) = (Ok h, nd_store n)"
    using ensure_genesis_again [OF _ parts(4) assms(3)] by (simp add: node_ok_def)
  then show ?thesis using parts restore_ok [OF n(1)] n(2,3) by (simp add: node_open_def)
qed

text \<open>
  C15. A restart recovers the node. Whatever calls were made since the node was opened, as long as none of
  them reported a failure of the store, opening the node again on its store succeeds, writes nothing,
  and gives the same state, latest block, genesis and configuration, with empty pools.
\<close>

theorem restart_recovers:
  assumes "store_laws X" and "digests_ok X" and "valid_utf8 (gen_chain_id g)"
    and "node_open X cfg (Ok g) db = (Ok n0, db0)" and "node_reach X enc n0 n"
  shows "node_open X cfg (Ok g) (nd_store n) = (Ok (restarted n), nd_store n)"
  by (rule reopened [OF assms])

lemma toy_make_genesis:
  "make_genesis_block (toy_net s0 s1 k) toy_genesis toy_state = Ok (toy_net_block 0 1)"
  by (simp add: make_genesis_block_def toy_net_roots toy_net_block_def toy_genesis_def)

lemma toy_write_genesis:
  "\<exists>db. write_genesis (toy_net toy_state toy_state 1) toy_empty_db toy_genesis (toy_digest 12) (toy_net_block 0 1) (snapshot toy_state) =
     (Ok (toy_digest 12), db)"
  by (simp add: write_genesis_def store_commit_def toy_net_defs toy_codec_def db_insert_def db_flush_def try_then_def
      toy_net_block_def block_with_def no_operations_def)

lemma toy_chain_id: "gen_chain_id toy_genesis = CHAIN_ID"
  by (simp add: toy_genesis_def)

lemma toy_open:
  "\<exists>n db. node_open (toy_net toy_state toy_state 1) \<lparr>nc_chain_id = CHAIN_ID, nc_block_time_ms = 1000, nc_data_dir = [], nc_genesis_path = []\<rparr>
     (Ok toy_genesis) toy_empty_db = (Ok n, db)"
proof -
  let ?X = "toy_net toy_state toy_state 1"
  obtain db where w: "write_genesis ?X toy_empty_db toy_genesis (toy_digest 12) (toy_net_block 0 1) (snapshot toy_state) =
      (Ok (toy_digest 12), db)"
    using toy_write_genesis by blast
  have "block_header_id ?X (blk_header (toy_net_block 0 1)) = Ok (toy_digest 12)"
    using toy_net_ids(1) [of toy_state toy_state 1 1] by (simp add: block_id_for_def)
  moreover have "db_get ?X toy_empty_db TMeta META_CHAIN_ID = Ok None"
    by (simp add: db_get_def toy_net_defs toy_empty_db_def)
  ultimately have eg: "ensure_genesis ?X toy_empty_db toy_genesis (toy_net_block 0 1) (snapshot toy_state) = (Ok (toy_digest 12), db)"
    using w by (simp add: ensure_genesis_def)
  have wf: "wf_hash (toy_digest 12)" by (simp add: toy_digest_def wf_hash_def)
  obtain d where commit: "store_commit ?X d (toy_digest 12) (toy_net_block 0 1) (snapshot toy_state) = (Ok (), db)"
    using write_genesis_Ok(5) [OF _ w] toy_net_laws(1) [of toy_state toy_state 1] by (auto simp: store_laws_def)
  have "latest_block ?X db = Ok (toy_net_block 0 1)" "latest_state ?X db = Ok (snapshot toy_state)"
    using commit_latest(1,4) [OF toy_net_laws(1) wf commit] by simp_all
  then have "\<exists>n. restore_node ?X cfg toy_genesis db = Ok n" for cfg
    using toy_net_roots(2) [of toy_state toy_state 1]
    by (simp add: restore_node_def from_snapshot_snapshot toy_genesis_def)
  then show ?thesis
    using toy_chain_id by (simp add: node_open_def toy_from_genesis toy_make_genesis eg [unfolded One_nat_def])
qed

theorem restart_recovers_witness:
  "\<exists>cfg (n :: toy_db node). node_open (toy_net toy_state toy_state 1) cfg (Ok toy_genesis) (nd_store n) = (Ok (restarted n), nd_store n)"
proof -
  have "valid_utf8 (gen_chain_id toy_genesis)" by (simp add: valid_utf8_def toy_genesis_def CHAIN_ID_def)
  then show ?thesis
    using restart_recovers [OF toy_net_laws _ _ node_reach.start] toy_open by blast
qed

end
