(* ===== verification/Network.thy ===== *)
theory Network
  imports Node_Consistency
begin

text \<open>
  \<open>crates/wsc-network/src/lib.rs\<close>: the messages between peers, their frames on the connection, the
  handshake and what a node does with each message. The Postcard encoding of a message is a field of
  \<open>message_ext\<close>. A connection is the bytes that the peer will have sent, whether it then keeps the
  connection open, and how many bytes it still takes. The node, the vote sets and the counters are
  shared by all connections; here one connection runs at a time on a lock that is not poisoned, and
  \<open>Full_Node\<close> has the tasks, their interleaving and the poisoned lock.
\<close>

section \<open>Messages and errors\<close>

record network_config =
  ncf_chain_id :: string
  ncf_listen_addr :: string
  ncf_peers :: "string list"
  ncf_node_id :: string

datatype network_message =
    Hello string hash u64 string
  | GetBlocks u64 u64
  | Blocks "block list"
  | GetMempool
  | Transactions "transaction list"
  | MTransaction transaction
  | MVote vote

record network_metrics =
  nm_peer_connections :: u64
  nm_blocks_imported :: u64
  nm_transactions_relayed :: u64
  nm_votes_received :: u64

definition network_metrics_default :: network_metrics where
  "network_metrics_default = \<lparr>nm_peer_connections = 0, nm_blocks_imported = 0, nm_transactions_relayed = 0,
     nm_votes_received = 0\<rparr>"

datatype network_error =
    NetIo string | NetEncoding string | InvalidFrameLength | NetTimeout | Handshake string | NetNode string

primrec network_error_string :: "network_error \<Rightarrow> string" where
  "network_error_string (NetIo e) = ''I/O error: '' @ e"
| "network_error_string (NetEncoding e) = ''encoding error: '' @ e"
| "network_error_string InvalidFrameLength = ''invalid frame length''"
| "network_error_string NetTimeout = ''peer frame read timed out''"
| "network_error_string (Handshake e) = ''peer handshake failed: '' @ e"
| "network_error_string (NetNode e) = ''node error: '' @ e"

definition net_node_error :: "node_error \<Rightarrow> network_error" where
  "net_node_error e = NetNode (node_error_string e)"

section \<open>Frames\<close>

definition MAX_FRAME_BYTES :: nat where "MAX_FRAME_BYTES = 8 * 1024 * 1024"

record message_ext =
  x_enc_message :: "network_message \<Rightarrow> encoding_error + bytes"
  x_dec_message :: "bytes \<Rightarrow> encoding_error + network_message"

text \<open>Decoding what was encoded, and no message with an empty encoding, as Postcard documents it.\<close>

definition message_codec_ok :: "('a) message_ext_scheme \<Rightarrow> bool" where
  "message_codec_ok M =
     (\<forall>m bs. x_enc_message M m = Inr bs \<longrightarrow> x_dec_message M bs = Inr m \<and> bs \<noteq> [])"

record connection =
  cn_input :: bytes
  cn_open :: bool
  cn_room :: nat
  cn_output :: bytes

definition read_exact :: "nat \<Rightarrow> connection \<Rightarrow> (network_error + bytes) \<times> connection" where
  "read_exact n c =
     (if n \<le> length (cn_input c) then (Ok (take n (cn_input c)), c\<lparr>cn_input := drop n (cn_input c)\<rparr>)
      else (Err (if cn_open c then NetTimeout else NetIo ''early eof''), c\<lparr>cn_input := []\<rparr>))"

definition write_all :: "bytes \<Rightarrow> connection \<Rightarrow> (network_error + unit) \<times> connection" where
  "write_all bs c =
     (if length bs \<le> cn_room c
      then (Ok (), c\<lparr>cn_output := cn_output c @ bs, cn_room := cn_room c - length bs\<rparr>)
      else (Err (NetIo ''connection reset''), c\<lparr>cn_output := cn_output c @ take (cn_room c) bs, cn_room := 0\<rparr>))"

definition write_message ::
    "('a) message_ext_scheme \<Rightarrow> network_message \<Rightarrow> connection \<Rightarrow> (network_error + unit) \<times> connection" where
  "write_message M m c =
     (case x_enc_message M m of
        Inl e \<Rightarrow> (Err (NetEncoding (encoding_error_string e)), c)
      | Inr payload \<Rightarrow>
          if MAX_FRAME_BYTES < length payload then (Err InvalidFrameLength, c)
          else if 2 ^ 32 \<le> length payload then (Err InvalidFrameLength, c)
          else case write_all (to_be_bytes (of_nat (length payload) :: u32)) c of
            (Inl e, c1) \<Rightarrow> (Err e, c1)
          | (Inr _, c1) \<Rightarrow> write_all payload c1)"

definition read_message ::
    "('a) message_ext_scheme \<Rightarrow> connection \<Rightarrow> (network_error + network_message) \<times> connection" where
  "read_message M c =
     (case read_exact 4 c of
        (Inl e, c1) \<Rightarrow> (Err e, c1)
      | (Inr length_bytes, c1) \<Rightarrow>
          let len = unat (from_be_bytes length_bytes :: u32)
          in if len = 0 \<or> MAX_FRAME_BYTES < len then (Err InvalidFrameLength, c1)
             else case read_exact len c1 of
               (Inl e, c2) \<Rightarrow> (Err e, c2)
             | (Inr payload, c2) \<Rightarrow>
                 (case x_dec_message M payload of
                    Inl e \<Rightarrow> (Err (NetEncoding (encoding_error_string e)), c2)
                  | Inr m \<Rightarrow> (Ok m, c2)))"

section \<open>The handshake\<close>

record hello_fields =
  hf_chain_id :: string
  hf_genesis_hash :: hash
  hf_height :: u64
  hf_node_id :: string

definition node_genesis_hash :: "('db, 'a) storage_ext_scheme \<Rightarrow> 'db node \<Rightarrow> node_error + hash" where
  "node_genesis_hash X n = map_err NStorage (store_genesis_hash X (nd_store n))"

definition node_block_by_height :: "('db, 'a) storage_ext_scheme \<Rightarrow> 'db node \<Rightarrow> u64 \<Rightarrow> node_error + block" where
  "node_block_by_height X n height = map_err NStorage (get_block_by_height X (nd_store n) height)"

definition local_hello ::
    "('db, 'a) storage_ext_scheme \<Rightarrow> 'db node \<Rightarrow> network_config \<Rightarrow> network_error + hello_fields" where
  "local_hello X n cfg =
     (if nc_chain_id (nd_config n) \<noteq> ncf_chain_id cfg
      then Err (Handshake ''configured chain ID does not match node'')
      else case map_err net_node_error (node_genesis_hash X n) of
        Inl e \<Rightarrow> Err e
      | Inr h \<Rightarrow> Ok \<lparr>hf_chain_id = ncf_chain_id cfg, hf_genesis_hash = h, hf_height = node_height n,
                      hf_node_id = ncf_node_id cfg\<rparr>)"

fun validate_hello :: "network_message \<Rightarrow> hello_fields \<Rightarrow> network_error + unit" where
  "validate_hello (Hello chain_id genesis_hash height node_id) expected =
     (if chain_id = hf_chain_id expected \<and> genesis_hash = hf_genesis_hash expected then Ok ()
      else Err (Handshake (''peer chain mismatch: chain_id='' @ chain_id @ '', genesis_hash='' @
             hash_to_string genesis_hash)))"
| "validate_hello _ expected = Err (Handshake ''first peer message must be Hello'')"

definition hello_message :: "hello_fields \<Rightarrow> network_message" where
  "hello_message h = Hello (hf_chain_id h) (hf_genesis_hash h) (hf_height h) (hf_node_id h)"

definition first_request :: "hello_fields \<Rightarrow> network_message" where
  "first_request h = GetBlocks (saturating_add (hf_height h) 1) (saturating_add (hf_height h) 129)"

section \<open>Serving blocks\<close>

text \<open>\<open>for height in from..=end\<close>: the blocks that can be read.\<close>

fun blocks_of_heights ::
    "('db, 'a) storage_ext_scheme \<Rightarrow> 'db node \<Rightarrow> nat list \<Rightarrow> block list" where
  "blocks_of_heights X n [] = []"
| "blocks_of_heights X n (h # hs) =
     (case node_block_by_height X n (of_nat h) of
        Inl _ \<Rightarrow> blocks_of_heights X n hs
      | Inr b \<Rightarrow> b # blocks_of_heights X n hs)"

definition collect_blocks ::
    "('db, 'a) storage_ext_scheme \<Rightarrow> 'db node \<Rightarrow> u64 \<Rightarrow> u64 \<Rightarrow> network_error + block list" where
  "collect_blocks X n from_height to_height =
     (if to_height < from_height \<or> 128 < saturating_sub to_height from_height
      then Err (Handshake ''block range must be ordered and at most 128 blocks'')
      else let end_height = min to_height (node_height n)
           in if end_height < from_height then Ok []
              else Ok (blocks_of_heights X n [unat from_height..<Suc (unat end_height)]))"

section \<open>Handling a message\<close>

type_synonym vote_key = "u64 \<times> hash \<times> u64"

record 'db network =
  net_node :: "'db node"
  net_votes :: "vote_key \<Rightarrow> vote_set option"
  net_metrics :: network_metrics

definition count_imported :: "network_metrics \<Rightarrow> network_metrics" where
  "count_imported m = m\<lparr>nm_blocks_imported := nm_blocks_imported m + 1\<rparr>"

definition count_relayed :: "network_metrics \<Rightarrow> network_metrics" where
  "count_relayed m = m\<lparr>nm_transactions_relayed := nm_transactions_relayed m + 1\<rparr>"

definition count_vote :: "network_metrics \<Rightarrow> network_metrics" where
  "count_vote m = m\<lparr>nm_votes_received := nm_votes_received m + 1\<rparr>"

definition count_connection :: "network_metrics \<Rightarrow> network_metrics" where
  "count_connection m = m\<lparr>nm_peer_connections := nm_peer_connections m + 1\<rparr>"

text \<open>\<open>filter_map\<close> over the blocks: a block that has no identifier or cannot be signed gets no vote.\<close>

fun block_votes ::
    "('a) crypto_ext_scheme \<Rightarrow> vote_encoder \<Rightarrow> string \<Rightarrow> key_pair \<Rightarrow> block list \<Rightarrow> vote list" where
  "block_votes X enc chain_id key [] = []"
| "block_votes X enc chain_id key (b # bs) =
     (case block_id_for X b of
        Inl _ \<Rightarrow> block_votes X enc chain_id key bs
      | Inr h \<Rightarrow>
          (case vote_sign X enc chain_id (bh_height (blk_header b)) 0 h key of
             Inl _ \<Rightarrow> block_votes X enc chain_id key bs
           | Inr v \<Rightarrow> v # block_votes X enc chain_id key bs))"

fun import_blocks ::
    "('db, 'a) storage_ext_scheme \<Rightarrow> 'db network \<Rightarrow> block list \<Rightarrow> (network_error + unit) \<times> 'db network" where
  "import_blocks X s [] = (Ok (), s)"
| "import_blocks X s (b # bs) =
     (case import_block X (net_node s) b of
        (Inl e, n) \<Rightarrow> (Err (net_node_error e), s\<lparr>net_node := n\<rparr>)
      | (Inr _, n) \<Rightarrow>
          import_blocks X (s\<lparr>net_node := n, net_metrics := count_imported (net_metrics s)\<rparr>) bs)"

definition next_request :: "block list \<Rightarrow> network_message list" where
  "next_request blocks =
     (if length blocks = 129
      then let from_height = saturating_add (bh_height (blk_header (last blocks))) 1
           in [GetBlocks from_height (saturating_add from_height 128)]
      else [])"

definition handle_blocks ::
    "('db, 'a) storage_ext_scheme \<Rightarrow> vote_encoder \<Rightarrow> key_pair option \<Rightarrow> 'db network \<Rightarrow> block list \<Rightarrow>
     (network_error + network_message list) \<times> 'db network" where
  "handle_blocks X enc validator s blocks =
     (let votes = (case validator of
                     None \<Rightarrow> []
                   | Some key \<Rightarrow> block_votes X enc (nc_chain_id (nd_config (net_node s))) key blocks)
      in case import_blocks X s blocks of
           (Inl e, s') \<Rightarrow> (Err e, s')
         | (Inr _, s') \<Rightarrow> (Ok (next_request blocks @ map MVote votes), s'))"

definition relay_transaction ::
    "('db, 'a) storage_ext_scheme \<Rightarrow> 'db network \<Rightarrow> transaction \<Rightarrow> (network_error + unit) \<times> 'db network" where
  "relay_transaction X s tx =
     (case submit_transaction X (net_node s) tx of
        (Inl e, n) \<Rightarrow> (Err (net_node_error e), s\<lparr>net_node := n\<rparr>)
      | (Inr _, n) \<Rightarrow> (Ok (), s\<lparr>net_node := n, net_metrics := count_relayed (net_metrics s)\<rparr>))"

fun relay_transactions ::
    "('db, 'a) storage_ext_scheme \<Rightarrow> 'db network \<Rightarrow> transaction list \<Rightarrow> 'db network" where
  "relay_transactions X s [] = s"
| "relay_transactions X s (tx # txs) = relay_transactions X (snd (relay_transaction X s tx)) txs"

definition vote_key_of :: "vote \<Rightarrow> vote_key" where
  "vote_key_of v = (vote_height v, vote_block_hash v, vote_round v)"

text \<open>\<open>entry(key).or_insert_with(..)\<close>: the set is created from the fields of the vote, before any check.\<close>

definition vote_set_entry :: "'db network \<Rightarrow> vote \<Rightarrow> vote_set" where
  "vote_set_entry s v =
     (case net_votes s (vote_key_of v) of
        None \<Rightarrow> vote_set_new (vote_chain_id v) (vote_height v) (vote_round v) (vote_block_hash v)
      | Some vs \<Rightarrow> vs)"

definition handle_vote ::
    "('db, 'a) storage_ext_scheme \<Rightarrow> vote_encoder \<Rightarrow> 'db network \<Rightarrow> vote \<Rightarrow> (network_error + unit) \<times> 'db network" where
  "handle_vote X enc s v =
     (let validators = validator_set_new (gen_validators (nd_genesis (net_node s)));
          s1 = s\<lparr>net_metrics := count_vote (net_metrics s)\<rparr>
      in case vote_set_record X enc (vote_set_entry s v) validators v of
           (Inl e, vs) \<Rightarrow>
             (Err (NetNode (consensus_error_string e)), s1\<lparr>net_votes := (net_votes s)(vote_key_of v \<mapsto> vs)\<rparr>)
         | (Inr _, vs) \<Rightarrow>
             let s2 = s1\<lparr>net_votes := (net_votes s)(vote_key_of v \<mapsto> vs)\<rparr>
             in if vote_set_is_quorum vs validators
                then (case finalize_votes X enc (net_node s) vs of
                        (Inl e, n) \<Rightarrow> (Err (net_node_error e), s2\<lparr>net_node := n\<rparr>)
                      | (Inr _, n) \<Rightarrow> (Ok (), s2\<lparr>net_node := n\<rparr>))
                else (Ok (), s2))"

text \<open>One message: the answers to write, and what becomes of the node, the vote sets and the counters.\<close>

fun handle_message ::
    "('db, 'a) storage_ext_scheme \<Rightarrow> vote_encoder \<Rightarrow> key_pair option \<Rightarrow> 'db network \<Rightarrow> network_message \<Rightarrow>
     (network_error + network_message list) \<times> 'db network" where
  "handle_message X enc validator s (Hello _ _ _ _) = (Ok [], s)"
| "handle_message X enc validator s (GetBlocks from_height to_height) =
     (case collect_blocks X (net_node s) from_height to_height of
        Inl e \<Rightarrow> (Err e, s)
      | Inr blocks \<Rightarrow> (Ok [Blocks blocks], s))"
| "handle_message X enc validator s GetMempool =
     (Ok [Transactions (mp_transactions (nd_mempool (net_node s)))], s)"
| "handle_message X enc validator s (Blocks blocks) = handle_blocks X enc validator s blocks"
| "handle_message X enc validator s (Transactions txs) = (Ok [], relay_transactions X s txs)"
| "handle_message X enc validator s (MTransaction tx) =
     (case relay_transaction X s tx of (Inl e, s') \<Rightarrow> (Err e, s') | (Inr _, s') \<Rightarrow> (Ok [], s'))"
| "handle_message X enc validator s (MVote v) =
     (case handle_vote X enc s v of (Inl e, s') \<Rightarrow> (Err e, s') | (Inr _, s') \<Rightarrow> (Ok [], s'))"

section \<open>Serving a connection\<close>

fun write_messages ::
    "('m) message_ext_scheme \<Rightarrow> network_message list \<Rightarrow> connection \<Rightarrow> (network_error + unit) \<times> connection" where
  "write_messages M [] c = (Ok (), c)"
| "write_messages M (m # ms) c =
     (case write_message M m c of (Inl e, c') \<Rightarrow> (Err e, c') | (Inr _, c') \<Rightarrow> write_messages M ms c')"

lemma write_input:
  "write_all bs c = (r, c') \<Longrightarrow> cn_input c' = cn_input c"
  "write_message M m c = (r, c') \<Longrightarrow> cn_input c' = cn_input c"
  "write_messages M ms c = (r, c') \<Longrightarrow> cn_input c' = cn_input c"
proof -
  show all: "cn_input c' = cn_input c" if "write_all bs c = (r, c')" for bs c r c'
    using that by (auto simp: write_all_def split: if_splits)
  show one: "cn_input c' = cn_input c" if "write_message M m c = (r, c')" for m c r c'
    using that by (auto simp: write_message_def split: sum.splits if_splits prod.splits dest!: all)
  show "cn_input c' = cn_input c" if "write_messages M ms c = (r, c')"
    using that by (induction ms arbitrary: c) (auto split: sum.splits prod.splits dest!: one)
qed

lemma read_message_consumes: "read_message M c = (Ok m, c') \<Longrightarrow> length (cn_input c') < length (cn_input c)"
  by (auto simp: read_message_def read_exact_def Let_def split: if_splits sum.splits)

lemma served_consumes:
  "(Ok m, c1) = read_message M c \<Longrightarrow> (Ok u, c2) = write_messages M ms c1 \<Longrightarrow>
    length (cn_input c2) < length (cn_input c)"
  by (metis read_message_consumes write_input(3))

text \<open>
  The loop of \<open>serve_connection\<close>. It ends with the first error; every round takes at least five bytes
  off the input, so it ends.
\<close>

function serve_loop ::
    "('db, 'a) storage_ext_scheme \<Rightarrow> ('m) message_ext_scheme \<Rightarrow> vote_encoder \<Rightarrow> key_pair option \<Rightarrow>
     connection \<Rightarrow> 'db network \<Rightarrow> network_error \<times> connection \<times> 'db network" where
  "serve_loop X M enc validator c s =
     (case read_message M c of
        (Inl e, c1) \<Rightarrow> (e, c1, s)
      | (Inr m, c1) \<Rightarrow>
          (case handle_message X enc validator s m of
             (Inl e, s1) \<Rightarrow> (e, c1, s1)
           | (Inr replies, s1) \<Rightarrow>
               (case write_messages M replies c1 of
                  (Inl e, c2) \<Rightarrow> (e, c2, s1)
                | (Inr _, c2) \<Rightarrow> serve_loop X M enc validator c2 s1)))"
  by pat_completeness auto
termination
  by (relation "measure (\<lambda>(X, M, enc, validator, c, s). length (cn_input c))")
    (auto dest: served_consumes)

declare serve_loop.simps [simp del]

text \<open>Greeting the peer, in the order of the side that opened the connection and of the one that accepted it.\<close>

definition greet ::
    "('m) message_ext_scheme \<Rightarrow> bool \<Rightarrow> hello_fields \<Rightarrow> connection \<Rightarrow> (network_error + unit) \<times> connection" where
  "greet M initiator hello c =
     (if initiator
      then case write_message M (hello_message hello) c of (Inl e, c1) \<Rightarrow> (Err e, c1) | (Inr _, c1) \<Rightarrow>
          (case read_message M c1 of (Inl e, c2) \<Rightarrow> (Err e, c2) | (Inr m, c2) \<Rightarrow>
            (case validate_hello m hello of
               Inl e \<Rightarrow> (Err e, c2)
             | Inr _ \<Rightarrow> write_message M (first_request hello) c2))
      else case read_message M c of (Inl e, c1) \<Rightarrow> (Err e, c1) | (Inr m, c1) \<Rightarrow>
          (case validate_hello m hello of
             Inl e \<Rightarrow> (Err e, c1)
           | Inr _ \<Rightarrow> write_messages M [hello_message hello, first_request hello] c1))"

definition serve_connection ::
    "('db, 'a) storage_ext_scheme \<Rightarrow> ('m) message_ext_scheme \<Rightarrow> vote_encoder \<Rightarrow> network_config \<Rightarrow> key_pair option \<Rightarrow>
     bool \<Rightarrow> connection \<Rightarrow> 'db network \<Rightarrow> network_error \<times> connection \<times> 'db network" where
  "serve_connection X M enc cfg validator initiator c s =
     (case local_hello X (net_node s) cfg of
        Inl e \<Rightarrow> (e, c, s)
      | Inr hello \<Rightarrow>
          (case greet M initiator hello c of
             (Inl e, c1) \<Rightarrow> (e, c1, s)
           | (Inr _, c1) \<Rightarrow>
               let s1 = s\<lparr>net_metrics := count_connection (net_metrics s)\<rparr>
               in case write_message M GetMempool c1 of
                    (Inl e, c2) \<Rightarrow> (e, c2, s1)
                  | (Inr _, c2) \<Rightarrow> serve_loop X M enc validator c2 s1))"

end
