(* ===== verification/Text_Parsing.thy ===== *)
theory Text_Parsing
  imports Core_Types
begin

text \<open>
  The text functions of the Rust standard library that the RPC server, the bridge configuration and
  the program frontend call: integers from text in a radix and back, \<open>trim\<close>, \<open>split_once\<close>, \<open>splitn\<close>
  and the ASCII case functions. Strings are UTF-8 bytes, one \<open>char\<close> each.
\<close>

section \<open>Unsigned integers\<close>

text \<open>\<open>char::to_digit\<close> for a radix up to 16.\<close>

definition to_digit :: "nat \<Rightarrow> char \<Rightarrow> nat option" where
  "to_digit radix c =
     (let n = of_char c :: nat;
          d = if 48 \<le> n \<and> n \<le> 57 then n - 48
              else if 65 \<le> n \<and> n \<le> 70 then n - 55
              else if 97 \<le> n \<and> n \<le> 102 then n - 87 else radix
      in if d < radix then Some d else None)"

fun digits_value :: "nat \<Rightarrow> nat \<Rightarrow> string \<Rightarrow> nat option" where
  "digits_value radix acc [] = Some acc"
| "digits_value radix acc (c # cs) =
     (case to_digit radix c of None \<Rightarrow> None | Some d \<Rightarrow> digits_value radix (radix * acc + d) cs)"

text \<open>
  \<open>from_str_radix\<close> of an unsigned type, and \<open>str::parse\<close>: a leading plus sign is accepted, an empty
  text, a lone sign, any other character and a value out of range are errors.
\<close>

definition from_str_radix :: "nat \<Rightarrow> string \<Rightarrow> 'a::len word option" where
  "from_str_radix radix s =
     (let digits = (if s \<noteq> [] \<and> hd s = CHR ''+'' then tl s else s)
      in if digits = [] then None
         else case digits_value radix 0 digits of
           None \<Rightarrow> None
         | Some n \<Rightarrow> if n < 2 ^ LENGTH('a) then Some (of_nat n) else None)"

abbreviation parse_unsigned :: "string \<Rightarrow> 'a::len word option" where
  "parse_unsigned \<equiv> from_str_radix 10"

lemma to_digit_char: "d < 10 \<Longrightarrow> to_digit 10 (digit_char d) = Some d"
  by (simp add: to_digit_def digit_char_def Let_def of_char_of)

lemma to_digit_hex: "d < 16 \<Longrightarrow> to_digit 16 (hex_digit d) = Some d"
  by (auto simp: to_digit_def of_char_hex_digit Let_def)

lemma digits_value_append:
  "digits_value r acc (s @ t) =
    (case digits_value r acc s of None \<Rightarrow> None | Some n \<Rightarrow> digits_value r n t)"
  by (induction r acc s rule: digits_value.induct) (auto split: option.splits)

lemma digits_value_show: "digits_value 10 0 (show_nat n) = Some n"
proof (induction n rule: show_nat.induct)
  case (1 n)
  show ?case
  proof (cases "n < 10")
    case True
    then show ?thesis by (simp add: show_nat.simps [of n] to_digit_char)
  next
    case False
    with 1 have "digits_value 10 0 (show_nat (n div 10)) = Some (n div 10)" by simp
    moreover have "n mod 10 < 10" by simp
    ultimately show ?thesis
      using False by (simp add: show_nat.simps [of n] digits_value_append to_digit_char)
  qed
qed

lemma show_nat_nonempty: "show_nat n \<noteq> []"
  by (subst show_nat.simps) simp

lemma show_nat_digits: "c \<in> set (show_nat n) \<Longrightarrow> \<exists>d < 10. c = digit_char d"
proof (induction n rule: show_nat.induct)
  case (1 n)
  show ?case
  proof (cases "n < 10 \<or> c \<notin> set (show_nat (n div 10))")
    case True
    then have "c = digit_char (n mod 10)" using 1(2) by (auto simp: show_nat.simps [of n] split: if_splits)
    then show ?thesis by (intro exI [of _ "n mod 10"]) simp
  next
    case False
    then show ?thesis using 1(1) by simp
  qed
qed

lemma digit_char_neq: "d < 10 \<Longrightarrow> digit_char d \<noteq> CHR ''+'' \<and> digit_char d \<noteq> CHR ''-''"
proof -
  assume "d < 10"
  then have "(of_char (digit_char d) :: nat) = 48 + d" by (simp add: digit_char_def of_char_of)
  then show ?thesis by auto
qed

text \<open>\<open>parse\<close> reads back what \<open>to_string\<close> wrote.\<close>

lemma parse_show: "parse_unsigned (show_nat (unat w)) = Some w" for w :: "'a::len word"
proof -
  have "hd (show_nat (unat w)) \<in> set (show_nat (unat w))" using show_nat_nonempty by (rule hd_in_set)
  then have "hd (show_nat (unat w)) \<noteq> CHR ''+''" using show_nat_digits digit_char_neq by metis
  then show ?thesis
    by (simp add: from_str_radix_def Let_def show_nat_nonempty digits_value_show unat_less)
qed

section \<open>Signed integers\<close>

text \<open>\<open>str::parse::<i32>\<close> and the \<open>Display\<close> of a signed integer.\<close>

definition parse_i32 :: "string \<Rightarrow> int option" where
  "parse_i32 s =
     (let negative = s \<noteq> [] \<and> hd s = CHR ''-'';
          digits = (if s \<noteq> [] \<and> (hd s = CHR ''+'' \<or> hd s = CHR ''-'') then tl s else s)
      in if digits = [] then None
         else case digits_value 10 0 digits of
           None \<Rightarrow> None
         | Some n \<Rightarrow>
             let v = (if negative then - int n else int n)
             in if - (2 ^ 31) \<le> v \<and> v < 2 ^ 31 then Some v else None)"

definition show_int :: "int \<Rightarrow> string" where
  "show_int v = (if v < 0 then CHR ''-'' # show_nat (nat (- v)) else show_nat (nat v))"

lemma parse_show_i32_iff: "parse_i32 (show_int v) = (if - (2 ^ 31) \<le> v \<and> v < 2 ^ 31 then Some v else None)"
proof (cases "v < 0")
  case True
  then show ?thesis
    by (auto simp: parse_i32_def show_int_def Let_def show_nat_nonempty digits_value_show)
next
  case False
  have "hd (show_nat (nat v)) \<in> set (show_nat (nat v))" using show_nat_nonempty by (rule hd_in_set)
  then have "hd (show_nat (nat v)) \<noteq> CHR ''+''" "hd (show_nat (nat v)) \<noteq> CHR ''-''"
    using show_nat_digits digit_char_neq by metis+
  then show ?thesis
    using False by (auto simp: parse_i32_def show_int_def Let_def show_nat_nonempty digits_value_show)
qed

section \<open>Splitting and trimming\<close>

text \<open>\<open>str::split_once\<close> with a string: the text before its first occurrence and the text after.\<close>

fun split_once :: "string \<Rightarrow> string \<Rightarrow> (string \<times> string) option" where
  "split_once p [] = (if p = [] then Some ([], []) else None)"
| "split_once p (c # cs) =
     (if str_prefix p (c # cs) then Some ([], drop (length p) (c # cs))
      else case split_once p cs of None \<Rightarrow> None | Some (a, b) \<Rightarrow> Some (c # a, b))"

text \<open>The characters of a text, each as its bytes: a byte and the continuation bytes after it.\<close>

definition is_cont :: "char \<Rightarrow> bool" where
  "is_cont c = utf8_cont (of_char c)"

function utf8_chars :: "string \<Rightarrow> string list" where
  "utf8_chars [] = []"
| "utf8_chars (c # cs) = (c # takeWhile is_cont cs) # utf8_chars (dropWhile is_cont cs)"
  by pat_completeness auto
termination
  by (relation "measure length") (auto simp: le_imp_less_Suc length_dropWhile_le)

definition str_trim_start :: "string \<Rightarrow> string" where
  "str_trim_start s = concat (dropWhile trim_is_empty (utf8_chars s))"

definition str_trim_end :: "string \<Rightarrow> string" where
  "str_trim_end s = concat (rev (dropWhile trim_is_empty (rev (utf8_chars s))))"

definition str_trim :: "string \<Rightarrow> string" where
  "str_trim s = str_trim_end (str_trim_start s)"

definition trim_end_char :: "char \<Rightarrow> string \<Rightarrow> string" where
  "trim_end_char c s = rev (dropWhile (\<lambda>x. x = c) (rev s))"

text \<open>\<open>trim_start_matches\<close> with a string: every repetition of it at the start.\<close>

function trim_start_str :: "string \<Rightarrow> string \<Rightarrow> string" where
  "trim_start_str p s = (if p \<noteq> [] \<and> str_prefix p s then trim_start_str p (drop (length p) s) else s)"
  by pat_completeness auto
termination
  by (relation "measure (\<lambda>(p, s). length s)") (auto simp: str_prefix_iff)

declare trim_start_str.simps [simp del]

definition to_ascii_lowercase :: "string \<Rightarrow> string" where
  "to_ascii_lowercase s = map ascii_lower s"

definition to_ascii_uppercase :: "string \<Rightarrow> string" where
  "to_ascii_uppercase s = map (\<lambda>c. let n = of_char c :: nat in if 97 \<le> n \<and> n \<le> 122 then char_of (n - 32) else c) s"

lemma concat_utf8_chars [simp]: "concat (utf8_chars s) = s"
  by (induction s rule: utf8_chars.induct) simp_all

lemma utf8_chars_ascii: "list_all (\<lambda>c. \<not> is_cont c) s \<Longrightarrow> utf8_chars s = map (\<lambda>c. [c]) s"
proof (induction s)
  case (Cons c s)
  then have "takeWhile is_cont s = []" "dropWhile is_cont s = s" by (cases s; simp)+
  with Cons show ?case by simp
qed simp

end
