(* ===== verification/Bridge_Config.thy ===== *)
theory Bridge_Config
  imports Text_Parsing
begin

text \<open>
  \<open>crates/wsc-bridge/src/lib.rs\<close>: the configuration of the bridges from the environment, the assets
  they stand for, and the JSON-RPC clients. The environment is the function \<open>env\<close>; what an external
  chain answers is a field of \<open>bridge_ext\<close>.
\<close>

section \<open>JSON\<close>

text \<open>A \<open>serde_json::Value\<close>; the members of an object in the order in which the code writes them.\<close>

datatype json =
    JNull | JBool bool | JNum int | JStr string | JArr "json list" | JObj "(string \<times> json) list"

type_synonym environment = "string \<Rightarrow> string option"

definition env_or_default :: "environment \<Rightarrow> string \<Rightarrow> string" where
  "env_or_default env name = (case env name of None \<Rightarrow> [] | Some v \<Rightarrow> v)"

definition env_or :: "environment \<Rightarrow> string \<Rightarrow> string \<Rightarrow> string" where
  "env_or env name value = (case env name of None \<Rightarrow> value | Some v \<Rightarrow> v)"

definition env_number :: "environment \<Rightarrow> string \<Rightarrow> 'a::len word \<Rightarrow> 'a word" where
  "env_number env name n = (case Option.bind (env name) parse_unsigned of None \<Rightarrow> n | Some v \<Rightarrow> v)"

section \<open>Ethereum\<close>

record ethereum_config =
  ec_network :: string
  ec_rpc_url :: string
  ec_bridge_contract :: string
  ec_deposit_event_topic :: string
  ec_confirmations :: u64
  ec_enabled :: bool

definition ethereum_from_env :: "environment \<Rightarrow> ethereum_config" where
  "ethereum_from_env env =
     (let rpc_url = env_or_default env ''WSC_ETHEREUM_RPC_URL'';
          bridge_contract = env_or_default env ''WSC_ETHEREUM_BRIDGE_CONTRACT'';
          deposit_event_topic = env_or_default env ''WSC_ETHEREUM_DEPOSIT_TOPIC''
      in \<lparr>ec_network = env_or env ''WSC_ETHEREUM_NETWORK'' ''sepolia'', ec_rpc_url = rpc_url,
          ec_bridge_contract = bridge_contract, ec_deposit_event_topic = deposit_event_topic,
          ec_confirmations = env_number env ''WSC_ETHEREUM_CONFIRMATIONS'' 12,
          ec_enabled = (rpc_url \<noteq> [] \<and> bridge_contract \<noteq> [] \<and> deposit_event_topic \<noteq> [])\<rparr>)"

definition weth_definition :: "ethereum_config \<Rightarrow> asset_definition" where
  "weth_definition c =
     \<lparr>adef_id = wrapped_asset ''ethereum'' ''WETH''
        (ec_network c @ (if ec_bridge_contract c = [] then '':bridge-placeholder'' else '':'' @ ec_bridge_contract c)) 18,
      adef_display_name = ''Wrapped Ether'', adef_wrapped = True, adef_enabled = ec_enabled c\<rparr>"

record ethereum_usdc_config =
  uc_network :: string
  uc_rpc_url :: string
  uc_bridge_contract :: string
  uc_token_contract :: string
  uc_deposit_event_topic :: string
  uc_confirmations :: u64
  uc_enabled :: bool

definition ethereum_usdc_from_env :: "environment \<Rightarrow> ethereum_usdc_config" where
  "ethereum_usdc_from_env env =
     (let rpc_url = env_or_default env ''WSC_ETHEREUM_RPC_URL'';
          bridge_contract = env_or_default env ''WSC_ETHEREUM_USDC_BRIDGE_CONTRACT'';
          token_contract = env_or_default env ''WSC_ETHEREUM_USDC_TOKEN'';
          deposit_event_topic = env_or_default env ''WSC_ETHEREUM_USDC_DEPOSIT_TOPIC''
      in \<lparr>uc_network = env_or env ''WSC_ETHEREUM_NETWORK'' ''sepolia'', uc_rpc_url = rpc_url,
          uc_bridge_contract = bridge_contract, uc_token_contract = token_contract,
          uc_deposit_event_topic = deposit_event_topic,
          uc_confirmations = env_number env ''WSC_ETHEREUM_CONFIRMATIONS'' 12,
          uc_enabled = (rpc_url \<noteq> [] \<and> bridge_contract \<noteq> [] \<and> token_contract \<noteq> [] \<and> deposit_event_topic \<noteq> [])\<rparr>)"

definition usdc_definition :: "ethereum_usdc_config \<Rightarrow> asset_definition" where
  "usdc_definition c =
     \<lparr>adef_id = wrapped_asset ''ethereum'' ''USDC''
        (uc_network c @ (if uc_token_contract c = [] then '':token-placeholder'' else '':'' @ uc_token_contract c)) 6,
      adef_display_name = ''USD Coin'', adef_wrapped = True, adef_enabled = uc_enabled c\<rparr>"

section \<open>Solana\<close>

record solana_config =
  sc_network :: string
  sc_mode :: string
  sc_rpc_url :: string
  sc_bridge_program :: string
  sc_vault_address :: string
  sc_vault_keypair :: string
  sc_wsol_mint :: string
  sc_spl_usdc_mint :: string
  sc_spl_usdc_vault_token_account :: string
  sc_spl_usdc_enabled :: bool
  sc_commitment :: string
  sc_confirmations :: u64
  sc_enabled :: bool

definition solana_from_env :: "environment \<Rightarrow> solana_config" where
  "solana_from_env env =
     (let rpc_url = env_or_default env ''WSC_SOLANA_RPC_URL'';
          mode = env_or env ''WSC_SOLANA_MODE'' ''disabled'';
          bridge_program = env_or_default env ''WSC_SOLANA_BRIDGE_PROGRAM'';
          vault_address = env_or_default env ''WSC_SOLANA_VAULT_ADDRESS'';
          wsol_mint = env_or_default env ''WSC_SOLANA_WSOL_MINT'';
          spl_usdc_mint = env_or_default env ''WSC_SOLANA_SPL_USDC_MINT'';
          spl_usdc_vault_token_account = env_or_default env ''WSC_SOLANA_SPL_USDC_VAULT_TOKEN_ACCOUNT'';
          custody_ready = (mode = ''custody'' \<and> vault_address \<noteq> []);
          program_ready = (mode = ''program'' \<and> bridge_program \<noteq> []);
          enabled = (rpc_url \<noteq> [] \<and> wsol_mint \<noteq> [] \<and> (custody_ready \<or> program_ready))
      in \<lparr>sc_network = env_or env ''WSC_SOLANA_NETWORK'' ''devnet'', sc_mode = mode, sc_rpc_url = rpc_url,
          sc_bridge_program = bridge_program, sc_vault_address = vault_address,
          sc_vault_keypair = env_or_default env ''WSC_SOLANA_VAULT_KEYPAIR'', sc_wsol_mint = wsol_mint,
          sc_spl_usdc_mint = spl_usdc_mint, sc_spl_usdc_vault_token_account = spl_usdc_vault_token_account,
          sc_spl_usdc_enabled = (enabled \<and> spl_usdc_mint \<noteq> [] \<and> spl_usdc_vault_token_account \<noteq> []),
          sc_commitment = env_or env ''WSC_SOLANA_COMMITMENT'' ''finalized'',
          sc_confirmations = env_number env ''WSC_SOLANA_CONFIRMATIONS'' 32, sc_enabled = enabled\<rparr>)"

definition spl_usdc_definition :: "solana_config \<Rightarrow> asset_definition" where
  "spl_usdc_definition c =
     \<lparr>adef_id = wrapped_asset ''solana'' ''USDC''
        (sc_network c @ (if sc_spl_usdc_mint c = [] then '':mint-placeholder'' else '':'' @ sc_spl_usdc_mint c)) 6,
      adef_display_name = ''USD Coin (Solana)'', adef_wrapped = True, adef_enabled = sc_spl_usdc_enabled c\<rparr>"

definition wsol_reference :: "solana_config \<Rightarrow> string" where
  "wsol_reference c =
     (if sc_mode c = ''custody''
      then if sc_vault_address c = [] \<or> sc_wsol_mint c = [] then sc_network c @ '':custody-placeholder''
           else sc_network c @ '':vault:'' @ sc_vault_address c @ '':'' @ sc_wsol_mint c
      else if sc_bridge_program c = [] \<or> sc_wsol_mint c = [] then sc_network c @ '':bridge-placeholder''
      else sc_network c @ '':'' @ sc_bridge_program c @ '':'' @ sc_wsol_mint c)"

definition wsol_definition :: "solana_config \<Rightarrow> asset_definition" where
  "wsol_definition c =
     \<lparr>adef_id = wrapped_asset ''solana'' ''WSOL'' (wsol_reference c) 9, adef_display_name = ''Wrapped SOL'',
      adef_wrapped = True, adef_enabled = sc_enabled c\<rparr>"

section \<open>The clients\<close>

datatype bridge_error = BHttp string | BRpc string | BResponse string

primrec bridge_error_string :: "bridge_error \<Rightarrow> string" where
  "bridge_error_string (BHttp e) = ''external chain RPC request failed: '' @ e"
| "bridge_error_string (BRpc e) = ''external chain RPC returned an error: '' @ e"
| "bridge_error_string (BResponse e) = ''invalid external chain RPC response: '' @ e"

record 'a rpc_reply =
  rr_result :: "'a option"
  rr_error :: "string option"

record eth_log_filter =
  lf_from_block :: "string option"
  lf_to_block :: "string option"
  lf_address :: "string option"
  lf_topics :: "string list option"

record eth_log =
  el_address :: string
  el_topics :: "string list"
  el_data :: string
  el_block_number :: "string option"
  el_transaction_hash :: "string option"
  el_log_index :: "string option"

text \<open>One HTTP exchange with an endpoint, decoded to the type the call expects, or why there is none;
  and the \<open>Debug\<close> text of two results.\<close>

record bridge_ext =
  x_debug_ethereum :: "bridge_error + string \<Rightarrow> bridge_error + u64 \<Rightarrow> string"
  x_debug_solana :: "bridge_error + string \<Rightarrow> bridge_error + u64 \<Rightarrow> string"
  x_post_string :: "string \<Rightarrow> json \<Rightarrow> string + string rpc_reply"
  x_post_u64 :: "string \<Rightarrow> json \<Rightarrow> string + u64 rpc_reply"
  x_post_logs :: "string \<Rightarrow> json \<Rightarrow> string + eth_log list rpc_reply"

definition call_body :: "string \<Rightarrow> json \<Rightarrow> json" where
  "call_body method params =
     JObj [(''jsonrpc'', JStr ''2.0''), (''id'', JNum 1), (''method'', JStr method), (''params'', params)]"

definition client_call :: "(json \<Rightarrow> string + 'r rpc_reply) \<Rightarrow> string \<Rightarrow> json \<Rightarrow> bridge_error + 'r" where
  "client_call post method params =
     (case post (call_body method params) of
        Inl e \<Rightarrow> Err (BHttp e)
      | Inr response \<Rightarrow>
          (case rr_error response of
             Some message \<Rightarrow> Err (BRpc message)
           | None \<Rightarrow> ok_or (rr_result response) (BResponse ''missing result'')))"

definition solana_health :: "('a) bridge_ext_scheme \<Rightarrow> string \<Rightarrow> bridge_error + string" where
  "solana_health X endpoint = client_call (x_post_string X endpoint) ''getHealth'' (JArr [])"

definition solana_slot :: "('a) bridge_ext_scheme \<Rightarrow> string \<Rightarrow> string \<Rightarrow> bridge_error + u64" where
  "solana_slot X endpoint commitment =
     client_call (x_post_u64 X endpoint) ''getSlot'' (JArr [JObj [(''commitment'', JStr commitment)]])"

definition eth_chain_id :: "('a) bridge_ext_scheme \<Rightarrow> string \<Rightarrow> bridge_error + string" where
  "eth_chain_id X endpoint = client_call (x_post_string X endpoint) ''eth_chainId'' (JArr [])"

text \<open>The \<open>Display\<close> of a \<open>ParseIntError\<close>: what the first character that cannot be taken is.\<close>

fun digits_error :: "nat \<Rightarrow> nat \<Rightarrow> nat \<Rightarrow> string \<Rightarrow> string" where
  "digits_error radix bound acc [] = []"
| "digits_error radix bound acc (c # cs) =
     (case to_digit radix c of
        None \<Rightarrow> ''invalid digit found in string''
      | Some d \<Rightarrow>
          if bound \<le> radix * acc + d then ''number too large to fit in target type''
          else digits_error radix bound (radix * acc + d) cs)"

definition radix_error :: "nat \<Rightarrow> nat \<Rightarrow> string \<Rightarrow> string" where
  "radix_error radix bound s =
     (if s = [] then ''cannot parse integer from empty string''
      else if s = ''+'' then ''invalid digit found in string''
      else digits_error radix bound 0 (if hd s = CHR ''+'' then tl s else s))"

definition eth_block_number :: "('a) bridge_ext_scheme \<Rightarrow> string \<Rightarrow> bridge_error + u64" where
  "eth_block_number X endpoint =
     (case client_call (x_post_string X endpoint) ''eth_blockNumber'' (JArr []) of
        Inl e \<Rightarrow> Err e
      | Inr text_value \<Rightarrow>
          let digits = trim_start_str ''0x'' text_value
          in ok_or (from_str_radix 16 digits)
               (BResponse (''invalid block number: '' @ radix_error 16 (2 ^ 64) digits)))"

text \<open>A field of the filter that is not set is left out.\<close>

definition filter_json :: "eth_log_filter \<Rightarrow> json" where
  "filter_json f =
     JObj (List.map_filter (\<lambda>(k, v). map_option (Pair k) v)
       [(''from_block'', map_option JStr (lf_from_block f)), (''to_block'', map_option JStr (lf_to_block f)),
        (''address'', map_option JStr (lf_address f)), (''topics'', map_option (\<lambda>ts. JArr (map JStr ts)) (lf_topics f))])"

definition eth_get_logs :: "('a) bridge_ext_scheme \<Rightarrow> string \<Rightarrow> eth_log_filter \<Rightarrow> bridge_error + eth_log list" where
  "eth_get_logs X endpoint f = client_call (x_post_logs X endpoint) ''eth_getLogs'' (JArr [filter_json f])"

section \<open>Properties\<close>

text \<open>The assets that the configuration of the bridges names, in the order the RPC server lists them.\<close>

definition bridge_assets :: "environment \<Rightarrow> asset_definition list" where
  "bridge_assets env =
     [usdc_definition (ethereum_usdc_from_env env), wsol_definition (solana_from_env env),
      spl_usdc_definition (solana_from_env env), weth_definition (ethereum_from_env env)]"

text \<open>
  Whatever the environment, the assets of the bridges have different keys, none of them in the
  namespaces of the native asset and the native tokens.
\<close>

theorem bridge_assets_distinct:
  "distinct (map (\<lambda>a. canonical_key (adef_id a)) (bridge_assets env)) \<and>
   list_all (\<lambda>a. asset_namespace (adef_id a) \<notin> {''worldstreet'', ''intertrain''}) (bridge_assets env)"
  by (simp add: bridge_assets_def canonical_key_def wrapped_asset_def usdc_definition_def wsol_definition_def
      spl_usdc_definition_def weth_definition_def)

text \<open>A bridge that is enabled has everything it needs, so an empty environment enables none.\<close>

lemma ethereum_enabled:
  "ec_enabled (ethereum_from_env env) \<longleftrightarrow>
    (\<forall>name \<in> {''WSC_ETHEREUM_RPC_URL'', ''WSC_ETHEREUM_BRIDGE_CONTRACT'', ''WSC_ETHEREUM_DEPOSIT_TOPIC''}.
       \<exists>v. env name = Some v \<and> v \<noteq> [])"
  by (auto simp: ethereum_from_env_def env_or_default_def Let_def split: option.splits)

end
