(* ===== verification/Program_Frontend.thy ===== *)
theory Program_Frontend
  imports Program_Package Text_Parsing
begin

text \<open>
  \<open>compile_rust_source\<close> of \<open>crates/wsc-program/src/lib.rs\<close>: the frontend that turns a Rust source of
  one shape into a package. The WAT assembler is the parameter \<open>wat\<close>.
\<close>

definition disallowed :: "string \<Rightarrow> bool" where
  "disallowed source =
     (str_contains source ''unsafe'' \<or> str_contains source ''extern crate'' \<or> str_contains source ''std::'')"

text \<open>The text after the first brace, up to the first closing brace, and in it what is returned.\<close>

definition main_body :: "string \<Rightarrow> string" where
  "main_body source =
     (let body = (case split_once ''{'' source of None \<Rightarrow> [] | Some (_, rest) \<Rightarrow> rest)
      in takeWhile (\<lambda>c. c \<noteq> CHR ''}'') body)"

definition value_text :: "string \<Rightarrow> string" where
  "value_text body =
     str_trim (trim_end_char (CHR '';'')
       (str_trim (case split_once ''return'' body of None \<Rightarrow> body | Some (_, rest) \<Rightarrow> rest)))"

definition wat_source :: "int \<Rightarrow> string" where
  "wat_source value = ''(module (func (export \"main\") (result i32) i32.const '' @ show_int value @ ''))''"

definition frontend_manifest :: "string \<Rightarrow> program_manifest" where
  "frontend_manifest name =
     \<lparr>pm_name = name, pm_language = ''rust'', pm_compiler_version = ''it-rust-subset-0.1'', pm_vm_version = ''1'',
      pm_entrypoint = ''main'', pm_capabilities = [], pm_abi = bt_empty\<rparr>"

definition compile_rust_source ::
    "('a) program_ext_scheme \<Rightarrow> (string \<Rightarrow> string + bytes) \<Rightarrow> string \<Rightarrow> string \<Rightarrow> program_error + program_package" where
  "compile_rust_source X wat name source =
     (let source = str_trim source in
      if disallowed source then Err (WasmValidation ''Rust source uses a disallowed feature'')
      else if \<not> str_contains source ''fn main'' \<or> \<not> str_contains source ''-> i32''
      then Err (WasmValidation ''Rust MVP source must define fn main() -> i32'')
      else case parse_i32 (value_text (main_body source)) of
        None \<Rightarrow> Err (WasmValidation ''Rust MVP main must return a signed i32 literal'')
      | Some value \<Rightarrow>
          (case wat (wat_source value) of
             Inl e \<Rightarrow> Err (WasmValidation e)
           | Inr wasm \<Rightarrow> package_from_wasm X (frontend_manifest name) wasm))"

section \<open>What is compiled\<close>

text \<open>A package that the frontend built passes verification.\<close>

lemma from_wasm_verified: "package_from_wasm X m wasm = Ok p \<Longrightarrow> package_verify X p = Ok () \<and> pkg_manifest p = m \<and> pkg_wasm p = wasm"
  by (auto simp: package_from_wasm_def package_verify_def split: if_splits sum.splits)

lemma compiled_package:
  assumes "compile_rust_source X wat name source = Ok p"
  obtains v wasm where "parse_i32 (value_text (main_body (str_trim source))) = Some v"
    "wat (wat_source v) = Inr wasm" "package_from_wasm X (frontend_manifest name) wasm = Ok p"
    "\<not> disallowed (str_trim source)"
  using assms by (auto simp: compile_rust_source_def Let_def split: if_splits option.splits sum.splits)

text \<open>The source of the documentation, with a literal in it.\<close>

definition main_source :: "int \<Rightarrow> string" where
  "main_source value = ''fn main() -> i32 { return '' @ show_int value @ ''; }''"

definition plain :: "char \<Rightarrow> bool" where
  "plain c \<longleftrightarrow> c = CHR ''-'' \<or> (\<exists>d < 10. c = digit_char d)"

lemma plain_code: "plain c \<Longrightarrow> (of_char c :: nat) = 45 \<or> (48 \<le> (of_char c :: nat) \<and> (of_char c :: nat) < 58)"
  by (auto simp: plain_def digit_char_def of_char_of)

lemma plain_show: "list_all plain (show_int v)"
  using show_nat_digits by (auto simp: show_int_def list_all_iff plain_def)

lemma plain_not: "plain c \<Longrightarrow> \<not> is_cont c \<and> \<not> trim_is_empty [c] \<and> c \<noteq> CHR ''}'' \<and> c \<noteq> CHR '';'' \<and> c \<noteq> CHR '' ''"
  by (drule plain_code) (auto simp: is_cont_def utf8_cont_def trim_is_empty_def)

lemma ascii_trim:
  assumes "list_all (\<lambda>c. \<not> is_cont c) s"
  shows "str_trim_start s = dropWhile (\<lambda>c. trim_is_empty [c]) s"
    "str_trim_end s = rev (dropWhile (\<lambda>c. trim_is_empty [c]) (rev s))"
  using assms
  by (simp_all add: str_trim_start_def str_trim_end_def utf8_chars_ascii dropWhile_map comp_def rev_map)

text \<open>Blanks around a text without blanks at its ends are what \<open>trim\<close> removes.\<close>

lemma trim_blanks:
  assumes "list_all (\<lambda>c. \<not> is_cont c) s" "s \<noteq> []" "\<not> trim_is_empty [hd s]" "\<not> trim_is_empty [last s]"
    "set a \<subseteq> {CHR '' ''}" "set b \<subseteq> {CHR '' ''}"
  shows "str_trim (a @ s @ b) = s"
proof -
  have blank: "trim_is_empty [CHR '' '']" "\<not> is_cont (CHR '' '')" by code_simp+
  have outer: "trim_is_empty [c] \<and> \<not> is_cont c" if "c \<in> set a \<union> set b" for c
    using that assms(5,6) blank by blast
  have ascii: "list_all (\<lambda>c. \<not> is_cont c) (s @ b)" "list_all (\<lambda>c. \<not> is_cont c) (a @ s @ b)"
    using assms(1) outer by (auto simp: list_all_iff)
  have "dropWhile (\<lambda>c. trim_is_empty [c]) (a @ s @ b) = dropWhile (\<lambda>c. trim_is_empty [c]) (s @ b)"
    using outer by (intro dropWhile_append2) simp
  also have "\<dots> = s @ b" using assms(2,3) by (cases s) simp_all
  finally have left: "dropWhile (\<lambda>c. trim_is_empty [c]) (a @ s @ b) = s @ b" .
  have "dropWhile (\<lambda>c. trim_is_empty [c]) (rev b @ rev s) = dropWhile (\<lambda>c. trim_is_empty [c]) (rev s)"
    using outer by (intro dropWhile_append2) simp
  also have "\<dots> = rev s" using assms(2,4) by (cases s rule: rev_cases) simp_all
  finally show ?thesis by (simp add: str_trim_def ascii_trim [OF ascii(1)] ascii_trim [OF ascii(2)] left)
qed

lemma contains_set: "str_contains s p \<Longrightarrow> set p \<subseteq> set s"
proof (induction s p rule: str_contains.induct)
  case (2 c cs p)
  show ?case
  proof (cases "str_prefix p (c # cs)")
    case True
    then obtain r where "c # cs = p @ r" by (auto simp: str_prefix_iff)
    then have "set (c # cs) = set p \<union> set r" by (metis set_append)
    then show ?thesis by blast
  next
    case False
    then show ?thesis using 2 by auto
  qed
qed simp

lemma value_text_literal:
  assumes "list_all plain d" "d \<noteq> []"
  shows "value_text ('' return '' @ d @ ''; '') = d"
proof -
  have d: "c \<in> set d \<Longrightarrow> \<not> is_cont c \<and> \<not> trim_is_empty [c] \<and> c \<noteq> CHR '';''" for c
    using assms(1) plain_not by (auto simp: list_all_iff)
  have "split_once ''return'' ('' return '' @ d @ ''; '') = Some ('' '', '' '' @ d @ ''; '')" by simp
  moreover have "str_trim ('' '' @ (d @ '';'') @ '' '') = d @ '';''"
    using d assms(2) by (intro trim_blanks) (auto simp: list_all_iff is_cont_def utf8_cont_def trim_is_empty_def)
  moreover have "trim_end_char (CHR '';'') (d @ '';'') = d"
    using d assms(2) by (cases d rule: rev_cases) (auto simp: trim_end_char_def)
  moreover have "str_trim ([] @ d @ []) = d" using d assms(2) by (intro trim_blanks) (auto simp: list_all_iff)
  ultimately show ?thesis by (simp add: value_text_def)
qed

text \<open>
  The frontend compiles \<open>fn main() -> i32 { return v; }\<close> to the module that returns \<open>v\<close>, for every
  signed 32-bit literal, and refuses every literal out of that range.
\<close>

theorem literal_main_compiles:
  shows "compile_rust_source X wat name (main_source v) =
    (if - (2 ^ 31) \<le> v \<and> v < 2 ^ 31
     then case wat (wat_source v) of
         Inl e \<Rightarrow> Err (WasmValidation e)
       | Inr wasm \<Rightarrow> package_from_wasm X (frontend_manifest name) wasm
     else Err (WasmValidation ''Rust MVP main must return a signed i32 literal''))"
proof -
  let ?d = "show_int v" and ?s = "main_source v"
  have d: "c \<in> set ?d \<Longrightarrow> \<not> is_cont c \<and> c \<noteq> CHR ''}''" for c
    using plain_show [of v] plain_not by (auto simp: list_all_iff)
  have nonempty: "?d \<noteq> []" by (simp add: show_int_def show_nat_nonempty)
  have "str_trim ([] @ ?s @ []) = ?s"
    using d by (intro trim_blanks) (auto simp: main_source_def list_all_iff is_cont_def utf8_cont_def trim_is_empty_def)
  then have trim: "str_trim ?s = ?s" by simp
  have plain_set: "c \<in> set ?d \<Longrightarrow> c \<noteq> CHR ''s'' \<and> c \<noteq> CHR ''x''" for c
    using plain_show [of v] plain_code by (fastforce simp: list_all_iff)
  then have absent: "CHR ''s'' \<notin> set ?s" "CHR ''x'' \<notin> set ?s" by (auto simp: main_source_def)
  have "\<not> str_contains ?s p" if "CHR ''s'' \<in> set p \<or> CHR ''x'' \<in> set p" for p
    using contains_set [of ?s p] that absent by blast
  then have ok: "\<not> disallowed ?s" by (simp add: disallowed_def)
  have shape: "str_contains ?s ''fn main''" "str_contains ?s ''-> i32''" by (simp_all add: main_source_def)
  have "takeWhile (\<lambda>c. c \<noteq> CHR ''}'') ('' return '' @ ?d @ ''; }'') = '' return '' @ ?d @ ''; ''"
    using d by (simp add: takeWhile_append2)
  then have body: "main_body ?s = '' return '' @ ?d @ ''; ''"
    by (simp add: main_body_def main_source_def)
  have literal: "value_text (main_body ?s) = ?d"
    unfolding body by (rule value_text_literal [OF plain_show nonempty])
  have "parse_i32 ?d = (if - (2 ^ 31) \<le> v \<and> v < 2 ^ 31 then Some v else None)"
    by (rule parse_show_i32_iff)
  then show ?thesis
    by (simp add: compile_rust_source_def trim ok shape literal Let_def)
qed

text \<open>
  The frontend reads the first braces of the source, whatever function they belong to: a source whose
  \<open>main\<close> returns 2 after another function that returns 1 becomes the program that returns 1.
\<close>

definition helper_source :: string where
  "helper_source = ''fn helper() -> i32 { return 1; } fn main() -> i32 { return 2; }''"

theorem first_function_compiled:
  "compile_rust_source X wat name helper_source = compile_rust_source X wat name (main_source 1)"
proof -
  have helper: "str_trim helper_source = helper_source" "\<not> disallowed helper_source"
    "str_contains helper_source ''fn main'' \<and> str_contains helper_source ''-> i32''"
    "value_text (main_body helper_source) = ''1''"
    by code_simp+
  have main: "str_trim (main_source 1) = main_source 1" "\<not> disallowed (main_source 1)"
    "str_contains (main_source 1) ''fn main'' \<and> str_contains (main_source 1) ''-> i32''"
    "value_text (main_body (main_source 1)) = ''1''"
    by code_simp+
  show ?thesis by (simp add: compile_rust_source_def helper main)
qed

end
