(* ===== verification/Rpc_Parsing.thy ===== *)
theory Rpc_Parsing
  imports Network Bridge_Config Program_Frontend
begin

text \<open>
  \<open>crates/wsc-rpc/src/lib.rs\<close>, first part: the parameters of the requests and their conversion to
  the types of the core. Deserializing the JSON of a request into one of the parameter structs (serde),
  hexadecimal and Base64 text, and the serialization of the structs that are answered as they are, are
  the fields of \<open>rpc_ext\<close>.
\<close>

type_synonym rpc_error = "int \<times> string"

section \<open>The parameters of the requests\<close>

record it_build_params =
  ibp_language :: string
  ibp_source :: string
  ibp_name :: string

record program_deploy_params =
  pdp_package_base64 :: string
  pdp_public_key :: string
  pdp_signature :: string
  pdp_nonce :: u64
  pdp_fee :: u128

record program_call_params =
  pcp_program_id :: string
  pcp_gas_limit :: u64
  pcp_public_key :: string
  pcp_signature :: string
  pcp_nonce :: u64
  pcp_fee :: u128

record program_storage_get_params =
  psg_program_id :: string
  psg_key :: string

record program_storage_set_params =
  pss_program_id :: string
  pss_key :: string
  pss_value :: string
  pss_public_key :: string
  pss_signature :: string
  pss_nonce :: u64
  pss_fee :: u128

record program_close_params =
  pcl_program_id :: string
  pcl_public_key :: string
  pcl_signature :: string
  pcl_nonce :: u64
  pcl_fee :: u128

record faucet_params =
  fp_address :: string
  fp_amount :: string

record bridge_operation_params =
  bop_operator_token :: string
  bop_operation_id :: string
  bop_asset_id :: string
  bop_address :: string
  bop_destination :: string
  bop_amount :: string
  bop_external_transaction :: string
  bop_memo :: string

record rpc_unsigned_mna_swap =
  rsw_version :: u8
  rsw_chain_id :: string
  rsw_nonce :: u64
  rsw_from :: string
  rsw_kind :: mna_swap_kind
  rsw_collateral_asset :: string
  rsw_amount_usdc :: string
  rsw_amount_mna :: string
  rsw_fee :: string
  rsw_public_key :: string
  rsw_memo :: string

record rpc_mna_swap_operation =
  rso_unsigned :: rpc_unsigned_mna_swap
  rso_signature :: string

record mna_reserve_operation_params =
  mrp_operator_token :: string
  mrp_collateral_asset :: string
  mrp_address :: string
  mrp_amount_usdc :: string
  mrp_amount_mna :: string
  mrp_collateral_amount :: string
  mrp_oracle_price_usd_micro_per_sol :: string
  mrp_oracle_timestamp :: u64
  mrp_fee_mna :: string
  mrp_external_transaction :: string
  mrp_destination :: string
  mrp_memo :: string

record rpc_unsigned_transaction =
  rut_version :: u8
  rut_chain_id :: string
  rut_nonce :: u64
  rut_from :: string
  rut_to :: string
  rut_amount :: string
  rut_fee :: string
  rut_public_key :: string
  rut_memo :: string

record rpc_transaction =
  rt_unsigned :: rpc_unsigned_transaction
  rt_signature :: string

record rpc_unsigned_token_operation =
  rtk_version :: u8
  rtk_chain_id :: string
  rtk_nonce :: u64
  rtk_from :: string
  rtk_kind :: token_operation_kind
  rtk_token_id :: string
  rtk_to :: "string option"
  rtk_amount :: string
  rtk_fee :: string
  rtk_public_key :: string
  rtk_name :: string
  rtk_symbol :: string
  rtk_decimals :: u8
  rtk_max_supply :: "string option"
  rtk_mint_authority :: "string option"
  rtk_burn_authority :: "string option"
  rtk_freeze_authority :: "string option"
  rtk_metadata_uri :: string
  rtk_metadata_hash :: string
  rtk_memo :: string

record rpc_token_operation =
  rto_unsigned :: rpc_unsigned_token_operation
  rto_signature :: string

record challenge_params =
  cp_address :: string
  cp_domain :: string

record verify_params =
  vp_address :: string
  vp_domain :: string
  vp_nonce :: string
  vp_public_key :: string
  vp_signature :: string

record token_balance_params =
  tbp_address :: string
  tbp_token_id :: string

text \<open>
  What the server takes from other crates: serde on the parameter structs (a struct of one field is
  that field), hex and Base64, and \<open>Serialize\<close> of the operations.
\<close>

record 'db rpc_ext = "'db storage_ext" +
  x_hex_decode :: "string \<Rightarrow> string + bytes"
  x_base64_encode :: "bytes \<Rightarrow> string"
  x_base64_decode :: "string \<Rightarrow> string + bytes"
  x_wat_parse :: "string \<Rightarrow> string + bytes"
  x_params_package :: "json \<Rightarrow> string + string"
  x_params_it_build :: "json \<Rightarrow> string + it_build_params"
  x_params_deploy :: "json \<Rightarrow> string + program_deploy_params"
  x_params_call :: "json \<Rightarrow> string + program_call_params"
  x_params_storage_get :: "json \<Rightarrow> string + program_storage_get_params"
  x_params_storage_set :: "json \<Rightarrow> string + program_storage_set_params"
  x_params_close :: "json \<Rightarrow> string + program_close_params"
  x_params_program_id :: "json \<Rightarrow> string + string"
  x_params_operation_id :: "json \<Rightarrow> string + string"
  x_params_hash :: "json \<Rightarrow> string + string"
  x_params_height :: "json \<Rightarrow> string + u64"
  x_params_address :: "json \<Rightarrow> string + string"
  x_params_faucet :: "json \<Rightarrow> string + faucet_params"
  x_params_bridge :: "json \<Rightarrow> string + bridge_operation_params"
  x_params_amount_usdc :: "json \<Rightarrow> string + string"
  x_params_amount_lamports :: "json \<Rightarrow> string + string"
  x_params_swap_prepare :: "json \<Rightarrow> string + rpc_unsigned_mna_swap"
  x_params_swap :: "json \<Rightarrow> string + rpc_mna_swap_operation"
  x_params_reserve :: "json \<Rightarrow> string + mna_reserve_operation_params"
  x_params_token_prepare :: "json \<Rightarrow> string + rpc_unsigned_token_operation"
  x_params_token :: "json \<Rightarrow> string + rpc_token_operation"
  x_params_token_balance :: "json \<Rightarrow> string + token_balance_params"
  x_params_broadcast :: "json \<Rightarrow> string + rpc_transaction"
  x_params_challenge :: "json \<Rightarrow> string + challenge_params"
  x_params_verify :: "json \<Rightarrow> string + verify_params"
  x_json_manifest :: "program_manifest \<Rightarrow> json"
  x_json_address :: "address \<Rightarrow> json"
  x_json_program_kind :: "program_operation_kind \<Rightarrow> json"
  x_json_swap :: "mna_swap_operation \<Rightarrow> json"
  x_json_reserve :: "mna_reserve_operation \<Rightarrow> json"
  x_json_program :: "program_operation \<Rightarrow> json"

section \<open>Parsing fields\<close>

definition address_error_string :: "address_error \<Rightarrow> string" where
  "address_error_string e =
     (case e of
        InvalidEncoding \<Rightarrow> ''invalid Bech32m address''
      | WrongPrefix \<Rightarrow> ''address has the wrong human-readable prefix''
      | WrongLength \<Rightarrow> ''address payload must be 21 bytes''
      | UnsupportedVersion \<Rightarrow> ''unsupported address version'')"

definition address_of_text :: "('a) crypto_ext_scheme \<Rightarrow> string \<Rightarrow> address_error + address" where
  "address_of_text X = from_bech32m (x_bech32m_decode X)"

definition address_text :: "('a) crypto_ext_scheme \<Rightarrow> address \<Rightarrow> string" where
  "address_text X = to_bech32m (x_bech32m_encode X)"

definition parse_params :: "string + 'p \<Rightarrow> rpc_error + 'p" where
  "parse_params = map_err (\<lambda>e. (-32602, ''invalid params: '' @ e))"

text \<open>\<open>copy_from_slice\<close> of exactly \<open>n\<close> bytes.\<close>

definition decode_fixed :: "('db, 'a) rpc_ext_scheme \<Rightarrow> nat \<Rightarrow> string \<Rightarrow> string \<Rightarrow> string + bytes" where
  "decode_fixed X n text_value field =
     (case x_hex_decode X text_value of
        Inl _ \<Rightarrow> Err (field @ '' must be hex'')
      | Inr bs \<Rightarrow> if length bs \<noteq> n then Err (field @ '' must be '' @ show_nat n @ ''-byte hex'') else Ok bs)"

definition parse_hash_string :: "('db, 'a) rpc_ext_scheme \<Rightarrow> string \<Rightarrow> string \<Rightarrow> string + hash" where
  "parse_hash_string X text_value field =
     (case x_hex_decode X text_value of
        Inl _ \<Rightarrow> Err (field @ '' must be 32-byte hex'')
      | Inr bs \<Rightarrow> if length bs \<noteq> 32 then Err (field @ '' must be 32-byte hex'') else Ok (Hash bs))"

definition parse_hash :: "('db, 'a) rpc_ext_scheme \<Rightarrow> string \<Rightarrow> rpc_error + hash" where
  "parse_hash X text_value =
     (case x_hex_decode X text_value of
        Inl _ \<Rightarrow> Err (-32602, ''hash must be 32-byte hex'')
      | Inr bs \<Rightarrow> if length bs \<noteq> 32 then Err (-32602, ''hash must be 32-byte hex'') else Ok (Hash bs))"

definition parse_address :: "('a) crypto_ext_scheme \<Rightarrow> string \<Rightarrow> rpc_error + address" where
  "parse_address X text_value =
     map_err (\<lambda>e. (-32602, ''invalid address: '' @ address_error_string e)) (address_of_text X text_value)"

text \<open>\<open>splitn(3, ':')\<close>, each missing part empty.\<close>

definition split_three :: "string \<Rightarrow> string \<times> string \<times> string" where
  "split_three s =
     (case split_once '':'' s of
        None \<Rightarrow> (s, [], [])
      | Some (a, rest) \<Rightarrow> (case split_once '':'' rest of None \<Rightarrow> (a, rest, []) | Some (b, c) \<Rightarrow> (a, b, c)))"

definition external_decimals :: "string \<Rightarrow> u8 option" where
  "external_decimals symbol =
     (let upper = to_ascii_uppercase symbol in
      if upper = ''WETH'' then Some 18
      else if upper = ''WSOL'' \<or> upper = ''SOL'' then Some 9
      else if upper = ''USDC'' then Some 6
      else None)"

definition parse_asset_id :: "string \<Rightarrow> rpc_error + asset_id" where
  "parse_asset_id text_value =
     (case split_three text_value of (namespace, symbol, reference) \<Rightarrow>
        if namespace = [] \<or> symbol = [] \<or> reference = [] \<or> namespace = ''worldstreet''
        then Err (-32602, ''asset_id must be namespace:symbol:reference for a wrapped asset'')
        else case external_decimals symbol of
          None \<Rightarrow> Err (-32602, ''unsupported external asset symbol'')
        | Some decimals \<Rightarrow> Ok (wrapped_asset namespace symbol reference decimals))"

definition parse_amount :: "string \<Rightarrow> string \<Rightarrow> string + u128" where
  "parse_amount field text_value = ok_or (parse_unsigned text_value) (field @ '' must be an unsigned integer string'')"

section \<open>Into the core types\<close>

definition parse_from_address :: "('a) crypto_ext_scheme \<Rightarrow> string \<Rightarrow> string \<Rightarrow> string + address" where
  "parse_from_address X what text_value =
     map_err (\<lambda>e. ''invalid '' @ what @ '': '' @ address_error_string e) (address_of_text X text_value)"

definition transaction_into_core :: "('db, 'a) rpc_ext_scheme \<Rightarrow> rpc_transaction \<Rightarrow> string + transaction" where
  "transaction_into_core X t =
     (let u = rt_unsigned t in
      case parse_from_address X ''from address'' (rut_from u) of Inl e \<Rightarrow> Err e | Inr sender \<Rightarrow>
      (case parse_from_address X ''to address'' (rut_to u) of Inl e \<Rightarrow> Err e | Inr recipient \<Rightarrow>
      (case decode_fixed X 32 (rut_public_key u) ''public_key'' of Inl e \<Rightarrow> Err e | Inr pk \<Rightarrow>
      (case decode_fixed X 64 (rt_signature t) ''signature'' of Inl e \<Rightarrow> Err e | Inr sig \<Rightarrow>
      (case parse_amount ''amount'' (rut_amount u) of Inl e \<Rightarrow> Err e | Inr amount \<Rightarrow>
      (case parse_amount ''fee'' (rut_fee u) of Inl e \<Rightarrow> Err e | Inr fee \<Rightarrow>
        Ok \<lparr>tx_unsigned = \<lparr>utx_version = rut_version u, utx_chain_id = rut_chain_id u, utx_nonce = rut_nonce u,
              utx_from = sender, utx_to = recipient, utx_amount = amount, utx_fee = fee,
              utx_public_key = PublicKey pk, utx_memo = rut_memo u\<rparr>,
            tx_signature = Signature sig\<rparr>))))))"

definition swap_unsigned_into_core ::
    "('db, 'a) rpc_ext_scheme \<Rightarrow> rpc_unsigned_mna_swap \<Rightarrow> string + unsigned_mna_swap_operation" where
  "swap_unsigned_into_core X u =
     (case parse_from_address X ''from address'' (rsw_from u) of Inl e \<Rightarrow> Err e | Inr sender \<Rightarrow>
      (case map_err snd (parse_asset_id (rsw_collateral_asset u)) of Inl e \<Rightarrow> Err e | Inr collateral \<Rightarrow>
      (case parse_amount ''amount_usdc'' (rsw_amount_usdc u) of Inl e \<Rightarrow> Err e | Inr amount_usdc \<Rightarrow>
      (case parse_amount ''amount_mna'' (rsw_amount_mna u) of Inl e \<Rightarrow> Err e | Inr amount_mna \<Rightarrow>
      (case parse_amount ''fee'' (rsw_fee u) of Inl e \<Rightarrow> Err e | Inr fee \<Rightarrow>
      (case decode_fixed X 32 (rsw_public_key u) ''public_key'' of Inl e \<Rightarrow> Err e | Inr pk \<Rightarrow>
        Ok \<lparr>usw_version = rsw_version u, usw_chain_id = rsw_chain_id u, usw_nonce = rsw_nonce u, usw_from = sender,
            usw_kind = rsw_kind u, usw_collateral_asset = collateral, usw_amount_usdc = amount_usdc,
            usw_amount_mna = amount_mna, usw_fee = fee, usw_public_key = PublicKey pk, usw_memo = rsw_memo u\<rparr>))))))"

definition swap_into_core :: "('db, 'a) rpc_ext_scheme \<Rightarrow> rpc_mna_swap_operation \<Rightarrow> string + mna_swap_operation" where
  "swap_into_core X s =
     (case swap_unsigned_into_core X (rso_unsigned s) of Inl e \<Rightarrow> Err e | Inr u \<Rightarrow>
      (case decode_fixed X 64 (rso_signature s) ''signature'' of Inl e \<Rightarrow> Err e | Inr sig \<Rightarrow>
        Ok \<lparr>sw_unsigned = u, sw_signature = Signature sig\<rparr>))"

text \<open>An optional field: absent and empty are none; the value is parsed otherwise (\<open>transpose\<close>).\<close>

definition parse_optional :: "(string \<Rightarrow> string + 'v) \<Rightarrow> string option \<Rightarrow> string + 'v option" where
  "parse_optional parse_value text_value =
     (case text_value of
        None \<Rightarrow> Ok None
      | Some s \<Rightarrow> if s = [] then Ok None else (case parse_value s of Inl e \<Rightarrow> Err e | Inr v \<Rightarrow> Ok (Some v)))"

definition token_unsigned_into_core ::
    "('db, 'a) rpc_ext_scheme \<Rightarrow> rpc_unsigned_token_operation \<Rightarrow> string + unsigned_token_operation" where
  "token_unsigned_into_core X u =
     (case parse_from_address X ''from address'' (rtk_from u) of Inl e \<Rightarrow> Err e | Inr sender \<Rightarrow>
      (case parse_hash_string X (rtk_token_id u) ''token_id'' of Inl e \<Rightarrow> Err e | Inr token_id \<Rightarrow>
      (case parse_optional (parse_from_address X ''to address'') (rtk_to u) of Inl e \<Rightarrow> Err e | Inr recipient \<Rightarrow>
      (case parse_amount ''amount'' (rtk_amount u) of Inl e \<Rightarrow> Err e | Inr amount \<Rightarrow>
      (case parse_amount ''fee'' (rtk_fee u) of Inl e \<Rightarrow> Err e | Inr fee \<Rightarrow>
      (case decode_fixed X 32 (rtk_public_key u) ''public_key'' of Inl e \<Rightarrow> Err e | Inr pk \<Rightarrow>
      (case parse_optional (parse_amount ''max_supply'') (rtk_max_supply u) of Inl e \<Rightarrow> Err e | Inr max_supply \<Rightarrow>
      (case parse_optional (parse_from_address X ''mint_authority'') (rtk_mint_authority u) of Inl e \<Rightarrow> Err e | Inr minter \<Rightarrow>
      (case parse_optional (parse_from_address X ''burn_authority'') (rtk_burn_authority u) of Inl e \<Rightarrow> Err e | Inr burner \<Rightarrow>
      (case parse_optional (parse_from_address X ''freeze_authority'') (rtk_freeze_authority u) of Inl e \<Rightarrow> Err e | Inr freezer \<Rightarrow>
      (case if rtk_metadata_hash u = [] then Ok HASH_ZERO else parse_hash_string X (rtk_metadata_hash u) ''metadata_hash''
       of Inl e \<Rightarrow> Err e | Inr metadata_hash \<Rightarrow>
        Ok \<lparr>utk_version = rtk_version u, utk_chain_id = rtk_chain_id u, utk_nonce = rtk_nonce u, utk_from = sender,
            utk_kind = rtk_kind u, utk_token_id = token_id, utk_to = recipient, utk_amount = amount, utk_fee = fee,
            utk_public_key = PublicKey pk, utk_name = rtk_name u, utk_symbol = rtk_symbol u,
            utk_decimals = rtk_decimals u, utk_max_supply = max_supply, utk_mint_authority = minter,
            utk_burn_authority = burner, utk_freeze_authority = freezer, utk_metadata_uri = rtk_metadata_uri u,
            utk_metadata_hash = metadata_hash, utk_memo = rtk_memo u\<rparr>)))))))))))"

definition token_into_core :: "('db, 'a) rpc_ext_scheme \<Rightarrow> rpc_token_operation \<Rightarrow> string + token_operation" where
  "token_into_core X t =
     (case token_unsigned_into_core X (rto_unsigned t) of Inl e \<Rightarrow> Err e | Inr u \<Rightarrow>
      (case decode_fixed X 64 (rto_signature t) ''signature'' of Inl e \<Rightarrow> Err e | Inr sig \<Rightarrow>
        Ok \<lparr>tk_unsigned = u, tk_signature = Signature sig\<rparr>))"

end
