(* ===== verification/Rpc_Views.thy ===== *)
theory Rpc_Views
  imports Rpc_Parsing
begin

text \<open>
  \<open>crates/wsc-rpc/src/lib.rs\<close>, second part: what the server answers for a transaction, an operation, a
  token, a program and a block; and that what it shows of a transaction and of an asset is read back.
\<close>

section \<open>JSON helpers\<close>

definition jnat :: "'a::len word \<Rightarrow> json" where
  "jnat w = JNum (uint w)"

text \<open>A 128-bit amount is answered as a decimal string.\<close>

definition jamount :: "u128 \<Rightarrow> json" where
  "jamount w = JStr (show_nat (unat w))"

definition jhash :: "hash \<Rightarrow> json" where
  "jhash h = JStr (hash_to_string h)"

definition joption :: "('v \<Rightarrow> json) \<Rightarrow> 'v option \<Rightarrow> json" where
  "joption f v = (case v of None \<Rightarrow> JNull | Some x \<Rightarrow> f x)"

definition jaddress :: "('a) crypto_ext_scheme \<Rightarrow> address \<Rightarrow> json" where
  "jaddress X a = JStr (address_text X a)"

section \<open>Transactions\<close>

text \<open>\<open>RpcTransactionView\<close> has the fields of \<open>RpcTransactionInput\<close>.\<close>

definition transaction_view :: "('db, 'a) rpc_ext_scheme \<Rightarrow> transaction \<Rightarrow> rpc_transaction" where
  "transaction_view X tx =
     (let u = tx_unsigned tx in
      \<lparr>rt_unsigned = \<lparr>rut_version = utx_version u, rut_chain_id = utx_chain_id u, rut_nonce = utx_nonce u,
         rut_from = address_text X (utx_from u), rut_to = address_text X (utx_to u),
         rut_amount = show_nat (unat (utx_amount u)), rut_fee = show_nat (unat (utx_fee u)),
         rut_public_key = x_hex_encode X (pk_bytes (utx_public_key u)), rut_memo = utx_memo u\<rparr>,
       rt_signature = x_hex_encode X (sig_bytes (tx_signature tx))\<rparr>)"

definition transaction_json :: "rpc_transaction \<Rightarrow> json" where
  "transaction_json t =
     (let u = rt_unsigned t in
      JObj [(''unsigned'', JObj [(''version'', jnat (rut_version u)), (''chain_id'', JStr (rut_chain_id u)),
         (''nonce'', jnat (rut_nonce u)), (''from'', JStr (rut_from u)), (''to'', JStr (rut_to u)),
         (''amount'', JStr (rut_amount u)), (''fee'', JStr (rut_fee u)), (''public_key'', JStr (rut_public_key u)),
         (''memo'', JStr (rut_memo u))]),
       (''signature'', JStr (rt_signature t))])"

section \<open>Operations\<close>

definition token_kind_debug :: "token_operation_kind \<Rightarrow> string" where
  "token_kind_debug k =
     (case k of
        TokenCreate \<Rightarrow> ''Create'' | TokenTransfer \<Rightarrow> ''Transfer'' | TokenMint \<Rightarrow> ''Mint'' | TokenBurn \<Rightarrow> ''Burn''
      | TokenSetAuthorities \<Rightarrow> ''SetAuthorities'' | TokenFreeze \<Rightarrow> ''Freeze'' | TokenUnfreeze \<Rightarrow> ''Unfreeze''
      | TokenPause \<Rightarrow> ''Pause'' | TokenUnpause \<Rightarrow> ''Unpause'' | TokenUpdateMetadata \<Rightarrow> ''UpdateMetadata'')"

definition token_operation_unsigned_view :: "('db, 'a) rpc_ext_scheme \<Rightarrow> unsigned_token_operation \<Rightarrow> json" where
  "token_operation_unsigned_view X u =
     JObj [(''version'', jnat (utk_version u)), (''chain_id'', JStr (utk_chain_id u)), (''nonce'', jnat (utk_nonce u)),
       (''from'', jaddress X (utk_from u)), (''kind'', JStr (to_ascii_lowercase (token_kind_debug (utk_kind u)))),
       (''token_id'', jhash (utk_token_id u)), (''to'', joption (jaddress X) (utk_to u)),
       (''amount'', jamount (utk_amount u)), (''fee'', jamount (utk_fee u)),
       (''public_key'', JStr (x_hex_encode X (pk_bytes (utk_public_key u)))), (''name'', JStr (utk_name u)),
       (''symbol'', JStr (utk_symbol u)), (''decimals'', jnat (utk_decimals u)),
       (''max_supply'', joption jamount (utk_max_supply u)), (''mint_authority'', joption (jaddress X) (utk_mint_authority u)),
       (''burn_authority'', joption (jaddress X) (utk_burn_authority u)),
       (''freeze_authority'', joption (jaddress X) (utk_freeze_authority u)),
       (''metadata_uri'', JStr (utk_metadata_uri u)), (''metadata_hash'', jhash (utk_metadata_hash u)),
       (''memo'', JStr (utk_memo u))]"

definition token_operation_view :: "('db, 'a) rpc_ext_scheme \<Rightarrow> hash \<Rightarrow> token_operation \<Rightarrow> json" where
  "token_operation_view X operation_id operation =
     JObj [(''operation_id'', jhash operation_id), (''unsigned'', token_operation_unsigned_view X (tk_unsigned operation)),
       (''signature'', JStr (x_hex_encode X (sig_bytes (tk_signature operation))))]"

definition asset_kind_text :: "asset_operation_kind \<Rightarrow> string" where
  "asset_kind_text k = (case k of AssetMint \<Rightarrow> ''mint'' | AssetBurn \<Rightarrow> ''burn'')"

definition asset_operation_view :: "('a) crypto_ext_scheme \<Rightarrow> asset_operation \<Rightarrow> json" where
  "asset_operation_view X operation =
     JObj [(''operation_id'', jhash (ao_operation_id operation)), (''kind'', JStr (asset_kind_text (ao_kind operation))),
       (''asset_id'', JStr (canonical_key (ao_asset_id operation))), (''address'', jaddress X (ao_address operation)),
       (''destination'', JStr (ao_destination operation)), (''amount'', jamount (ao_amount operation)),
       (''external_transaction'', JStr (ao_external_transaction operation)), (''memo'', JStr (ao_memo operation))]"

section \<open>Tokens and programs\<close>

text \<open>The first recorded creation whose identifier gives the token.\<close>

definition token_creation_operation_id :: "('a) crypto_ext_scheme \<Rightarrow> state \<Rightarrow> hash \<Rightarrow> hash option" where
  "token_creation_operation_id X s token_id =
     map_option fst (find (\<lambda>(operation_id, operation).
       utk_kind (tk_unsigned operation) = TokenCreate \<and> token_id_from_operation X operation_id = token_id)
       (bt_entries (st_token_operation_records s)))"

definition token_definition_view :: "('a) crypto_ext_scheme \<Rightarrow> token_definition \<Rightarrow> (string \<times> json) list" where
  "token_definition_view X d =
     [(''token_id'', jhash (td_token_id d)),
      (''id'', JStr (canonical_key (custom_asset (td_token_id d) (td_symbol d) (td_decimals d)))),
      (''creator'', jaddress X (td_creator d)), (''name'', JStr (td_name d)), (''symbol'', JStr (td_symbol d)),
      (''decimals'', jnat (td_decimals d)), (''total_supply'', jamount (td_total_supply d)),
      (''max_supply'', joption jamount (td_max_supply d)), (''mint_authority'', joption (jaddress X) (td_mint_authority d)),
      (''burn_authority'', joption (jaddress X) (td_burn_authority d)),
      (''freeze_authority'', joption (jaddress X) (td_freeze_authority d)), (''metadata_uri'', JStr (td_metadata_uri d)),
      (''metadata_hash'', jhash (td_metadata_hash d)), (''paused'', JBool (td_paused d))]"

definition token_entry_view :: "('a) crypto_ext_scheme \<Rightarrow> state \<Rightarrow> token_definition \<Rightarrow> json" where
  "token_entry_view X s d =
     JObj (token_definition_view X d @
       (case token_creation_operation_id X s (td_token_id d) of
          None \<Rightarrow> [] | Some operation_id \<Rightarrow> [(''creation_operation_id'', jhash operation_id)]))"

definition program_view :: "('db, 'a) rpc_ext_scheme \<Rightarrow> program_record \<Rightarrow> json" where
  "program_view X r =
     (let package = (case package_decode X (pr_package r) of Inl _ \<Rightarrow> None | Inr p \<Rightarrow> Some p)
      in JObj [(''program_id'', joption (\<lambda>p. JStr (program_id p)) package),
           (''code_hash'', joption (\<lambda>p. JStr (pkg_code_hash p)) package),
           (''manifest'', joption (\<lambda>p. x_json_manifest X (pkg_manifest p)) package),
           (''creator'', x_json_address X (pr_creator r)), (''deployed_at_height'', jnat (pr_deployed_at_height r)),
           (''wasm_bytes'', joption (\<lambda>p. JNum (int (length (pkg_wasm p)))) package),
           (''storage_keys'', JNum (int (bt_len (pr_storage r))))])"

section \<open>Blocks\<close>

definition id_or_empty :: "crypto_error + hash \<Rightarrow> string" where
  "id_or_empty r = (case r of Inl _ \<Rightarrow> [] | Inr h \<Rightarrow> hash_to_string h)"

definition operation_entry :: "('o \<Rightarrow> crypto_error + hash) \<Rightarrow> ('o \<Rightarrow> json) \<Rightarrow> 'o \<Rightarrow> json" where
  "operation_entry ident show_operation op =
     JObj [(''operation_id'', JStr (id_or_empty (ident op))), (''operation'', show_operation op)]"

fun token_views :: "('db, 'a) rpc_ext_scheme \<Rightarrow> token_operation list \<Rightarrow> rpc_error + json list" where
  "token_views X [] = Ok []"
| "token_views X (op # ops) =
     (case token_operation_id X op of
        Inl e \<Rightarrow> Err (-32000, crypto_error_string e)
      | Inr operation_id \<Rightarrow>
          (case token_views X ops of Inl e \<Rightarrow> Err e | Inr vs \<Rightarrow> Ok (token_operation_view X operation_id op # vs)))"

definition block_view :: "('db, 'a) rpc_ext_scheme \<Rightarrow> block \<Rightarrow> rpc_error + json" where
  "block_view X b =
     (let h = blk_header b in
      case block_header_id X h of
        Inl e \<Rightarrow> Err (-32000, crypto_error_string e)
      | Inr block_hash \<Rightarrow>
          (case token_views X (blk_token_operations b) of
             Inl e \<Rightarrow> Err e
           | Inr token_operations \<Rightarrow>
               Ok (JObj [(''hash'', jhash block_hash), (''height'', jnat (bh_height h)), (''chain_id'', JStr (bh_chain_id h)),
                 (''parent_hash'', jhash (bh_parent_hash h)), (''timestamp'', jnat (bh_timestamp h)),
                 (''transaction_root'', jhash (bh_transaction_root h)), (''state_root'', jhash (bh_state_root h)),
                 (''proposer'', joption (\<lambda>k. JStr (x_hex_encode X (pk_bytes k))) (bh_proposer h)),
                 (''proposer_signature'', joption (\<lambda>s. JStr (x_hex_encode X (sig_bytes s))) (bh_proposer_signature h)),
                 (''transactions'', JArr (map (\<lambda>tx. transaction_json (transaction_view X tx)) (blk_transactions b))),
                 (''asset_operations'', JArr (map (asset_operation_view X) (blk_asset_operations b))),
                 (''token_operations'', JArr token_operations),
                 (''mna_swap_operations'',
                    JArr (map (operation_entry (mna_swap_operation_id X) (x_json_swap X)) (blk_mna_swap_operations b))),
                 (''mna_reserve_operations'',
                    JArr (map (operation_entry (mna_reserve_operation_id X) (x_json_reserve X)) (blk_mna_reserve_operations b))),
                 (''program_operations'',
                    JArr (map (operation_entry (program_operation_id X) (x_json_program X)) (blk_program_operations b)))])))"

section \<open>Round trips\<close>

text \<open>Hexadecimal and Bech32m text read back what they wrote, as both crates document.\<close>

definition text_codecs_ok :: "('db, 'a) rpc_ext_scheme \<Rightarrow> bool" where
  "text_codecs_ok X \<longleftrightarrow>
     (\<forall>bs. x_hex_decode X (x_hex_encode X bs) = Ok bs) \<and>
     (\<forall>bs. x_bech32m_decode X (x_bech32m_encode X ADDRESS_HRP bs) = Some (ADDRESS_HRP, bs))"

definition wf_transaction :: "transaction \<Rightarrow> bool" where
  "wf_transaction tx \<longleftrightarrow>
     wf_address (utx_from (tx_unsigned tx)) \<and> wf_address (utx_to (tx_unsigned tx)) \<and>
     length (pk_bytes (utx_public_key (tx_unsigned tx))) = 32 \<and> length (sig_bytes (tx_signature tx)) = 64"

lemma address_round_trip: "text_codecs_ok X \<Longrightarrow> wf_address a \<Longrightarrow> address_of_text X (address_text X a) = Ok a"
  by (cases a) (simp add: address_of_text_def address_text_def to_bech32m_def from_bech32m_def text_codecs_ok_def wf_address_def)

lemma amount_round_trip: "parse_amount field (show_nat (unat w)) = Ok w"
  by (simp add: parse_amount_def parse_show)

lemma fixed_round_trip:
  "text_codecs_ok X \<Longrightarrow> length bs = n \<Longrightarrow> decode_fixed X n (x_hex_encode X bs) field = Ok bs"
  by (simp add: decode_fixed_def text_codecs_ok_def)

text \<open>
  What the server shows of a transaction is what a client can send back: the view of a well-formed
  transaction converts into that transaction, for all amounts and memos.
\<close>

theorem transaction_view_round_trip:
  assumes "text_codecs_ok X" "wf_transaction tx"
  shows "transaction_into_core X (transaction_view X tx) = Ok tx"
  using assms
  by (simp add: transaction_into_core_def transaction_view_def wf_transaction_def Let_def parse_from_address_def
      address_round_trip amount_round_trip fixed_round_trip)

lemma split_once_colon:
  "CHR '':'' \<notin> set a \<Longrightarrow> split_once '':'' (a @ CHR '':'' # rest) = Some (a, rest)"
  by (induction a) auto

lemma canonical_key_round_trip:
  assumes "asset_contract a = Some c" "c \<noteq> []" "external_decimals (asset_symbol a) = Some (asset_decimals a)"
    "asset_namespace a \<notin> {[], ''worldstreet''}" "asset_symbol a \<noteq> []"
    "CHR '':'' \<notin> set (asset_namespace a)" "CHR '':'' \<notin> set (asset_symbol a)"
  shows "parse_asset_id (canonical_key a) = Ok a"
proof -
  have "split_three (canonical_key a) = (asset_namespace a, asset_symbol a, c)"
    using assms by (simp add: split_three_def canonical_key_def split_once_colon)
  then show ?thesis using assms by (simp add: parse_asset_id_def wrapped_asset_def)
qed

text \<open>
  The key of every asset that the bridges are configured with is parsed back to that asset, whatever
  the environment says, so the operator can name each of them in a bridge operation.
\<close>

theorem bridge_assets_parse_back:
  "list_all (\<lambda>d. parse_asset_id (canonical_key (adef_id d)) = Ok (adef_id d)) (bridge_assets env)"
proof -
  have upper: "to_ascii_uppercase ''USDC'' = ''USDC''" "to_ascii_uppercase ''WSOL'' = ''WSOL''"
    "to_ascii_uppercase ''WETH'' = ''WETH''" by code_simp+
  have "wsol_reference c \<noteq> []" for c by (simp add: wsol_reference_def)
  then show ?thesis
    by (simp add: bridge_assets_def canonical_key_round_trip usdc_definition_def wsol_definition_def
        spl_usdc_definition_def weth_definition_def wrapped_asset_def external_decimals_def upper)
qed

section \<open>Concrete codecs\<close>

text \<open>Text that is its bytes, an address that is its prefix and payload, and no parameter that is valid.\<close>

definition toy_rpc :: "toy_db rpc_ext" where
  "toy_rpc = storage_ext.extend
     (toy_store\<lparr>x_hex_encode := bytes_str, x_bech32m_encode := (\<lambda>hrp bs. hrp @ bytes_str bs),
        x_bech32m_decode := (\<lambda>s. Some (take 3 s, str_bytes (drop 3 s)))\<rparr>)
     \<lparr>x_hex_decode = (\<lambda>s. Ok (str_bytes s)), x_base64_encode = bytes_str, x_base64_decode = (\<lambda>s. Ok (str_bytes s)),
      x_wat_parse = (\<lambda>_. Err ''wat''), x_params_package = (\<lambda>_. Err ''params''), x_params_it_build = (\<lambda>_. Err ''params''),
      x_params_deploy = (\<lambda>_. Err ''params''), x_params_call = (\<lambda>_. Err ''params''),
      x_params_storage_get = (\<lambda>_. Err ''params''), x_params_storage_set = (\<lambda>_. Err ''params''),
      x_params_close = (\<lambda>_. Err ''params''), x_params_program_id = (\<lambda>_. Err ''params''),
      x_params_operation_id = (\<lambda>_. Err ''params''), x_params_hash = (\<lambda>_. Err ''params''),
      x_params_height = (\<lambda>_. Err ''params''), x_params_address = (\<lambda>_. Err ''params''),
      x_params_faucet = (\<lambda>_. Err ''params''), x_params_bridge = (\<lambda>_. Err ''params''),
      x_params_amount_usdc = (\<lambda>_. Err ''params''), x_params_amount_lamports = (\<lambda>_. Err ''params''),
      x_params_swap_prepare = (\<lambda>_. Err ''params''), x_params_swap = (\<lambda>_. Err ''params''),
      x_params_reserve = (\<lambda>_. Err ''params''), x_params_token_prepare = (\<lambda>_. Err ''params''),
      x_params_token = (\<lambda>_. Err ''params''), x_params_token_balance = (\<lambda>_. Err ''params''),
      x_params_broadcast = (\<lambda>_. Err ''params''), x_params_challenge = (\<lambda>_. Err ''params''),
      x_params_verify = (\<lambda>_. Err ''params''), x_json_manifest = (\<lambda>_. JNull), x_json_address = (\<lambda>_. JNull),
      x_json_program_kind = (\<lambda>_. JNull), x_json_swap = (\<lambda>_. JNull), x_json_reserve = (\<lambda>_. JNull),
      x_json_program = (\<lambda>_. JNull)\<rparr>"

lemmas toy_rpc_defs = toy_rpc_def storage_ext.defs toy_store_def toy_storage_defs

lemma toy_text_codecs: "text_codecs_ok toy_rpc"
  by (simp add: text_codecs_ok_def toy_rpc_defs ADDRESS_HRP_def)

theorem transaction_view_round_trip_witness:
  "transaction_into_core toy_rpc (transaction_view toy_rpc (toy_transfer toy_key\<lparr>tx_signature := Signature (replicate 64 1)\<rparr>)) =
    Ok (toy_transfer toy_key\<lparr>tx_signature := Signature (replicate 64 1)\<rparr>)"
proof (rule transaction_view_round_trip [OF toy_text_codecs])
  show "wf_transaction (toy_transfer toy_key\<lparr>tx_signature := Signature (replicate 64 1)\<rparr>)"
    by code_simp
qed

end
