(* ===== verification/Rpc_Login.thy ===== *)
theory Rpc_Login
  imports Rpc_Views
begin

text \<open>
  \<open>crates/wsc-rpc/src/lib.rs\<close>, third part: the state of the server and the login challenges. Time and
  randomness of a request are in \<open>rpc_env\<close>. \<open>verify_challenge\<close> takes the lock of the challenges
  twice, so its two halves are definitions of their own.
\<close>

section \<open>The server\<close>

definition LOGIN_TTL_SECONDS :: u64 where "LOGIN_TTL_SECONDS = 300"
definition MAX_PENDING_CHALLENGES :: nat where "MAX_PENDING_CHALLENGES = 10000"
definition MAX_RPC_REQUESTS_PER_SECOND :: u64 where "MAX_RPC_REQUESTS_PER_SECOND = 1000"

record login_challenge =
  lc_chain_id :: string
  lc_address :: address
  lc_domain :: string
  lc_issued_at :: u64
  lc_expires_at :: u64

text \<open>Counters wrap; an instant is in milliseconds.\<close>

record rpc_metrics =
  rm_rpc_requests :: u64
  rm_rpc_errors :: u64
  rm_transactions_broadcast :: u64
  rm_blocks_produced :: u64
  rm_started_at :: nat
  rm_rate_window :: "nat \<times> u64"

text \<open>The node is behind a lock; a thread that panics while it holds the lock poisons it for good.\<close>

record 'db rpc_context =
  rx_node :: "'db node"
  rx_poisoned :: bool
  rx_challenges :: "(string, login_challenge) btree_map"
  rx_programs :: "(string, program_package) btree_map"
  rx_metrics :: rpc_metrics

record rpc_env =
  en_instant :: nat
  en_seconds :: u64
  en_vars :: environment
  en_random :: "nat \<Rightarrow> string + bytes"

definition rpc_context_new :: "nat \<Rightarrow> 'db node \<Rightarrow> 'db rpc_context" where
  "rpc_context_new now n =
     \<lparr>rx_node = n, rx_poisoned = False, rx_challenges = bt_empty, rx_programs = bt_empty,
      rx_metrics = \<lparr>rm_rpc_requests = 0, rm_rpc_errors = 0, rm_transactions_broadcast = 0, rm_blocks_produced = 0,
        rm_started_at = now, rm_rate_window = (now, 0)\<rparr>\<rparr>"

section \<open>Login\<close>

definition format_login_message_for_chain ::
    "('a) crypto_ext_scheme \<Rightarrow> string \<Rightarrow> string \<Rightarrow> address \<Rightarrow> string \<Rightarrow> u64 \<Rightarrow> u64 \<Rightarrow> string" where
  "format_login_message_for_chain X chain_id domain a nonce issued_at expires_at =
     ''Intertrain Login'' @ newline @ newline @ ''Domain: '' @ domain @ newline @ ''Chain ID: '' @ chain_id @ newline @
     ''Address: '' @ address_text X a @ newline @ ''Nonce: '' @ nonce @ newline @
     ''Issued At: '' @ show_nat (unat issued_at) @ newline @ ''Expires At: '' @ show_nat (unat expires_at)"

definition format_login_message ::
    "('a) crypto_ext_scheme \<Rightarrow> string \<Rightarrow> address \<Rightarrow> string \<Rightarrow> u64 \<Rightarrow> u64 \<Rightarrow> string" where
  "format_login_message X = format_login_message_for_chain X CHAIN_ID"

definition create_challenge ::
    "('db, 'a) rpc_ext_scheme \<Rightarrow> rpc_env \<Rightarrow> 'db rpc_context \<Rightarrow> json \<Rightarrow> (rpc_error + json) \<times> 'db rpc_context" where
  "create_challenge X env ctx params =
     (case parse_params (x_params_challenge X params) of Inl e \<Rightarrow> (Err e, ctx) | Inr p \<Rightarrow>
      (case parse_address X (cp_address p) of Inl e \<Rightarrow> (Err e, ctx) | Inr a \<Rightarrow>
        if trim_is_empty (cp_domain p) \<or> 255 < length (cp_domain p)
        then (Err (-32602, ''domain must be 1-255 bytes''), ctx)
        else (case en_random env 24 of Inl e \<Rightarrow> (Err (-32000, e), ctx) | Inr nonce_bytes \<Rightarrow>
          if rx_poisoned ctx then (Err (-32000, ''node lock poisoned''), ctx)
          else let nonce = x_hex_encode X nonce_bytes;
              issued_at = en_seconds env;
              expires_at = issued_at + LOGIN_TTL_SECONDS;
              chain_id = nc_chain_id (nd_config (rx_node ctx));
              challenge = \<lparr>lc_chain_id = chain_id, lc_address = a, lc_domain = cp_domain p,
                           lc_issued_at = issued_at, lc_expires_at = expires_at\<rparr>;
              message = format_login_message_for_chain X chain_id (cp_domain p) a nonce issued_at expires_at
          in if MAX_PENDING_CHALLENGES \<le> bt_len (rx_challenges ctx)
             then (Err (-32029, ''too many pending login challenges''), ctx)
             else (Ok (JObj [(''nonce'', JStr nonce), (''message'', JStr message), (''issued_at'', jnat issued_at),
                             (''expires_at'', jnat expires_at)]),
                   ctx\<lparr>rx_challenges := bt_insert nonce challenge (rx_challenges ctx)\<rparr>))))"

text \<open>Up to the verified signature: nothing is changed.\<close>

definition verify_check ::
    "('db, 'a) rpc_ext_scheme \<Rightarrow> rpc_env \<Rightarrow> 'db rpc_context \<Rightarrow> verify_params \<Rightarrow> rpc_error + address" where
  "verify_check X env ctx p =
     (case parse_address X (vp_address p) of Inl e \<Rightarrow> Err e | Inr a \<Rightarrow>
      (case x_hex_decode X (vp_public_key p) of Inl _ \<Rightarrow> Err (-32602, ''public_key must be hex'') | Inr pk \<Rightarrow>
      (case x_hex_decode X (vp_signature p) of Inl _ \<Rightarrow> Err (-32602, ''signature must be hex'') | Inr sig \<Rightarrow>
        if length pk \<noteq> 32 \<or> length sig \<noteq> 64
        then Err (-32602, ''public_key or signature has the wrong length'')
        else if address_from_public_key X (PublicKey pk) \<noteq> a
        then Err (-32001, ''public key does not derive address'')
        else (case bt_get (rx_challenges ctx) (vp_nonce p) of
            None \<Rightarrow> Err (-32004, ''challenge not found or already used'')
          | Some c \<Rightarrow>
              if lc_address c \<noteq> a \<or> lc_domain c \<noteq> vp_domain p \<or> lc_expires_at c < en_seconds env
              then Err (-32004, ''challenge is invalid or expired'')
              else if \<not> kp_verify X (PublicKey pk)
                (str_bytes (format_login_message_for_chain X (lc_chain_id c) (vp_domain p) a (vp_nonce p)
                   (lc_issued_at c) (lc_expires_at c))) (Signature sig)
              then Err (-32001, ''invalid login signature'')
              else Ok a))))"

text \<open>Under the second lock: remove the challenge, whether or not it is still there, and make the token.\<close>

definition verify_finish ::
    "('db, 'a) rpc_ext_scheme \<Rightarrow> rpc_env \<Rightarrow> 'db rpc_context \<Rightarrow> string \<Rightarrow> address \<Rightarrow> (rpc_error + json) \<times> 'db rpc_context" where
  "verify_finish X env ctx nonce a =
     (let ctx' = ctx\<lparr>rx_challenges := bt_remove nonce (rx_challenges ctx)\<rparr> in
      case en_random env 32 of
        Inl e \<Rightarrow> (Err (-32000, e), ctx')
      | Inr token_bytes \<Rightarrow>
          (Ok (JObj [(''authenticated'', JBool True), (''address'', jaddress X a),
                     (''session_token'', JStr (x_hex_encode X token_bytes))]), ctx'))"

definition verify_challenge ::
    "('db, 'a) rpc_ext_scheme \<Rightarrow> rpc_env \<Rightarrow> 'db rpc_context \<Rightarrow> json \<Rightarrow> (rpc_error + json) \<times> 'db rpc_context" where
  "verify_challenge X env ctx params =
     (case parse_params (x_params_verify X params) of Inl e \<Rightarrow> (Err e, ctx) | Inr p \<Rightarrow>
      (case verify_check X env ctx p of Inl e \<Rightarrow> (Err e, ctx) | Inr a \<Rightarrow> verify_finish X env ctx (vp_nonce p) a))"

section \<open>What a login proves\<close>

lemma verify_check_Ok:
  assumes "verify_check X env ctx p = Ok a"
  obtains pk sig c where "x_hex_decode X (vp_public_key p) = Ok pk" "x_hex_decode X (vp_signature p) = Ok sig"
    "address_from_public_key X (PublicKey pk) = a" "parse_address X (vp_address p) = Ok a"
    "bt_get (rx_challenges ctx) (vp_nonce p) = Some c" "lc_address c = a" "lc_domain c = vp_domain p"
    "en_seconds env \<le> lc_expires_at c"
    "kp_verify X (PublicKey pk) (str_bytes (format_login_message_for_chain X (lc_chain_id c) (vp_domain p) a (vp_nonce p)
       (lc_issued_at c) (lc_expires_at c))) (Signature sig)"
  using assms by (auto simp: verify_check_def split: sum.splits option.splits if_splits)

lemma verify_challenge_Ok:
  assumes "verify_challenge X env ctx params = (Ok answer, ctx')"
  obtains p a where "x_params_verify X params = Ok p" "verify_check X env ctx p = Ok a"
    "ctx' = ctx\<lparr>rx_challenges := bt_remove (vp_nonce p) (rx_challenges ctx)\<rparr>"
  using assms
  by (auto simp: verify_challenge_def verify_finish_def parse_params_def Let_def split: sum.splits)

text \<open>
  C30. A login that succeeds proves possession: the key signed the message of a challenge that is stored
  under the nonce, was issued for that address and domain and has not expired; the challenge is gone
  afterwards and nothing else changed.
\<close>

theorem login_sound:
  assumes "verify_challenge X env ctx params = (Ok answer, ctx')"
  shows "\<exists>p pk sig c.
    x_params_verify X params = Ok p \<and> bt_get (rx_challenges ctx) (vp_nonce p) = Some c \<and>
    x_hex_decode X (vp_public_key p) = Ok pk \<and> x_hex_decode X (vp_signature p) = Ok sig \<and>
    address_from_public_key X (PublicKey pk) = lc_address c \<and> lc_domain c = vp_domain p \<and>
    en_seconds env \<le> lc_expires_at c \<and>
    kp_verify X (PublicKey pk) (str_bytes (format_login_message_for_chain X (lc_chain_id c) (lc_domain c) (lc_address c)
       (vp_nonce p) (lc_issued_at c) (lc_expires_at c))) (Signature sig) \<and>
    bt_get (rx_challenges ctx') (vp_nonce p) = None \<and>
    (\<forall>nonce. nonce \<noteq> vp_nonce p \<longrightarrow> bt_get (rx_challenges ctx') nonce = bt_get (rx_challenges ctx) nonce) \<and>
    rx_node ctx' = rx_node ctx"
  using assms
  by (elim verify_challenge_Ok verify_check_Ok) (auto simp: map_simps)

section \<open>Sequences of login requests\<close>

datatype login_request = AskChallenge json | VerifyLogin json
datatype login_event = Issued string | LoggedIn string | Refused

text \<open>One request, and what it says of a nonce.\<close>

definition login_step ::
    "('db, 'a) rpc_ext_scheme \<Rightarrow> 'db rpc_context \<Rightarrow> rpc_env \<times> login_request \<Rightarrow> login_event \<times> 'db rpc_context" where
  "login_step X ctx request =
     (case request of
        (env, AskChallenge params) \<Rightarrow>
          (case create_challenge X env ctx params of
             (Inl _, ctx') \<Rightarrow> (Refused, ctx')
           | (Inr _, ctx') \<Rightarrow>
               (case en_random env 24 of Inl _ \<Rightarrow> Refused | Inr bs \<Rightarrow> Issued (x_hex_encode X bs), ctx'))
      | (env, VerifyLogin params) \<Rightarrow>
          (case verify_challenge X env ctx params of
             (Inl _, ctx') \<Rightarrow> (Refused, ctx')
           | (Inr _, ctx') \<Rightarrow>
               (case x_params_verify X params of Inl _ \<Rightarrow> Refused | Inr p \<Rightarrow> LoggedIn (vp_nonce p), ctx')))"

fun login_run ::
    "('db, 'a) rpc_ext_scheme \<Rightarrow> 'db rpc_context \<Rightarrow> (rpc_env \<times> login_request) list \<Rightarrow> login_event list \<times> 'db rpc_context" where
  "login_run X ctx [] = ([], ctx)"
| "login_run X ctx (r # rs) =
     (case login_step X ctx r of (e, ctx1) \<Rightarrow> case login_run X ctx1 rs of (es, ctx2) \<Rightarrow> (e # es, ctx2))"

lemma create_challenge_Ok:
  assumes "create_challenge X env ctx params = (Ok answer, ctx')"
  obtains bs c where "en_random env 24 = Ok bs" "bt_len (rx_challenges ctx) < MAX_PENDING_CHALLENGES"
    "ctx' = ctx\<lparr>rx_challenges := bt_insert (x_hex_encode X bs) c (rx_challenges ctx)\<rparr>"
    "lc_expires_at c = en_seconds env + LOGIN_TTL_SECONDS" "lc_chain_id c = nc_chain_id (nd_config (rx_node ctx))"
  using assms by (auto simp: create_challenge_def Let_def split: sum.splits if_splits)

lemma create_challenge_Err: "create_challenge X env ctx params = (Err e, ctx') \<Longrightarrow> ctx' = ctx"
  by (auto simp: create_challenge_def Let_def split: sum.splits if_splits)

lemma verify_challenge_Err:
  "verify_challenge X env ctx params = (Err e, ctx') \<Longrightarrow>
    ctx' = ctx \<or> (\<exists>nonce. ctx' = ctx\<lparr>rx_challenges := bt_remove nonce (rx_challenges ctx)\<rparr>)"
  by (auto simp: verify_challenge_def verify_finish_def Let_def split: sum.splits)

definition pending_of :: "'db rpc_context \<Rightarrow> string \<Rightarrow> nat" where
  "pending_of ctx nonce = (if bt_contains (rx_challenges ctx) nonce then 1 else 0)"

lemma contains_get: "bt_contains m k \<longleftrightarrow> bt_get m k \<noteq> None"
  by (simp add: bt_contains_def)

text \<open>A step gives out at most as much as it takes in.\<close>

lemma login_step_count:
  assumes "login_step X ctx r = (event, ctx')"
  shows "(if event = LoggedIn nonce then 1 else 0) + pending_of ctx' nonce \<le>
    (if event = Issued nonce then 1 else 0) + pending_of ctx nonce"
proof (cases r)
  case (Pair env request)
  show ?thesis
  proof (cases request)
    case (AskChallenge params)
    obtain answer ctx1 where c: "create_challenge X env ctx params = (answer, ctx1)" by (rule prod.exhaust)
    show ?thesis
    proof (cases answer)
      case (Inl e)
      then show ?thesis
        using assms c create_challenge_Err [OF c [unfolded Inl]] Pair AskChallenge by (auto simp: login_step_def)
    next
      case (Inr a)
      from c Inr obtain bs ch where "en_random env 24 = Ok bs"
        "ctx1 = ctx\<lparr>rx_challenges := bt_insert (x_hex_encode X bs) ch (rx_challenges ctx)\<rparr>"
        by (metis create_challenge_Ok)
      then show ?thesis using assms c Inr Pair AskChallenge
        by (auto simp: login_step_def pending_of_def map_simps)
    qed
  next
    case (VerifyLogin params)
    obtain answer ctx1 where v: "verify_challenge X env ctx params = (answer, ctx1)" by (rule prod.exhaust)
    show ?thesis
    proof (cases answer)
      case (Inl e)
      have "pending_of ctx1 nonce \<le> pending_of ctx nonce"
        using verify_challenge_Err [OF v [unfolded Inl]] by (auto simp: pending_of_def map_simps)
      then show ?thesis using assms v Inl Pair VerifyLogin by (auto simp: login_step_def)
    next
      case (Inr a)
      from v Inr obtain p ad where p: "x_params_verify X params = Ok p" "verify_check X env ctx p = Ok ad"
        "ctx1 = ctx\<lparr>rx_challenges := bt_remove (vp_nonce p) (rx_challenges ctx)\<rparr>"
        by (metis verify_challenge_Ok)
      then have "bt_get (rx_challenges ctx) (vp_nonce p) \<noteq> None" by (auto elim: verify_check_Ok)
      with p show ?thesis using assms v Inr Pair VerifyLogin
        by (auto simp: login_step_def pending_of_def map_simps contains_get)
    qed
  qed
qed

text \<open>
  A challenge is good for one login: in any sequence of requests a nonce logs in at most as often as it
  was issued, counting the challenge that may have been there before.
\<close>

theorem logins_bounded_by_challenges:
  "count_list (fst (login_run X ctx requests)) (LoggedIn nonce) \<le>
   count_list (fst (login_run X ctx requests)) (Issued nonce) + pending_of ctx nonce"
proof (induction requests arbitrary: ctx)
  case (Cons r rs)
  obtain event ctx1 where s: "login_step X ctx r = (event, ctx1)" by (rule prod.exhaust)
  then show ?case
    using login_step_count [OF s, of nonce] Cons.IH [of ctx1] by (auto split: prod.splits)
qed simp

text \<open>
  Two logins that overlap share one challenge: when both have checked the nonce before one of them
  removes it, both succeed, although a check after the first removal is refused.
\<close>

theorem concurrent_logins_share_challenge:
  assumes "verify_check X env ctx p = Ok a" "is_ok (en_random env 32)"
  shows "\<exists>ctx1. verify_finish X env ctx (vp_nonce p) a = (fst (verify_finish X env ctx (vp_nonce p) a), ctx1) \<and>
    is_ok (fst (verify_finish X env ctx (vp_nonce p) a)) \<and>
    is_ok (fst (verify_finish X env ctx1 (vp_nonce p) a)) \<and>
    \<not> is_ok (verify_check X env ctx1 p)"
proof -
  from assms(2) obtain token where token: "en_random env 32 = Ok token" by (auto simp: is_ok_ex)
  let ?ctx1 = "ctx\<lparr>rx_challenges := bt_remove (vp_nonce p) (rx_challenges ctx)\<rparr>"
  have "\<not> is_ok (verify_check X env ?ctx1 p)"
    by (auto simp: is_ok_ex map_simps elim: verify_check_Ok)
  then show ?thesis by (intro exI [of _ ?ctx1]) (simp add: verify_finish_def token Let_def)
qed

text \<open>
  Challenges that expired are never dropped, and an issue needs room: once ten thousand have expired,
  no request is answered any more, whatever the clients send, until the server is restarted.
\<close>

theorem expired_challenges_block_login:
  assumes "MAX_PENDING_CHALLENGES \<le> bt_len (rx_challenges ctx)"
    "\<forall>nonce c. bt_get (rx_challenges ctx) nonce = Some c \<longrightarrow> lc_expires_at c < t"
    "\<forall>(env, r) \<in> set requests. t \<le> en_seconds env"
  shows "login_run X ctx requests = (replicate (length requests) Refused, ctx)"
  using assms(3)
proof (induction requests)
  case (Cons r rs)
  obtain env request where r: "r = (env, request)" by (rule prod.exhaust)
  have "login_step X ctx r = (Refused, ctx)"
  proof (cases request)
    case (AskChallenge params)
    obtain answer ctx' where c: "create_challenge X env ctx params = (answer, ctx')" by (rule prod.exhaust)
    have "\<nexists>a. answer = Ok a"
      using c assms(1) by (auto elim: create_challenge_Ok)
    then show ?thesis using c create_challenge_Err r AskChallenge
      by (cases answer) (auto simp: login_step_def)
  next
    case (VerifyLogin params)
    have "verify_check X env ctx p \<noteq> Ok a" for p a
    proof
      assume "verify_check X env ctx p = Ok a"
      then obtain c where "bt_get (rx_challenges ctx) (vp_nonce p) = Some c" "en_seconds env \<le> lc_expires_at c"
        by (rule verify_check_Ok)
      moreover have "t \<le> en_seconds env" using Cons.prems r by simp
      ultimately show False using assms(2) by (meson leD order_trans)
    qed
    then have "\<exists>e. verify_challenge X env ctx params = (Err e, ctx)"
      by (auto simp: verify_challenge_def split: sum.splits)
    then show ?thesis using r VerifyLogin by (auto simp: login_step_def)
  qed
  with Cons show ?case by simp
qed simp

section \<open>Concrete logins\<close>

definition toy_env :: "u64 \<Rightarrow> rpc_env" where
  "toy_env now = \<lparr>en_instant = 0, en_seconds = now, en_vars = (\<lambda>_. None), en_random = (\<lambda>n. Ok (replicate n 9))\<rparr>"

definition toy_challenge :: login_challenge where
  "toy_challenge = \<lparr>lc_chain_id = CHAIN_ID, lc_address = toy_address 46, lc_domain = ''app'', lc_issued_at = 10, lc_expires_at = 310\<rparr>"

definition toy_verify :: verify_params where
  "toy_verify = \<lparr>vp_address = address_text toy_rpc (toy_address 46), vp_domain = ''app'', vp_nonce = ''n'',
     vp_public_key = bytes_str (replicate 32 7), vp_signature = bytes_str (replicate 64 1)\<rparr>"

definition toy_login_rpc :: "toy_db rpc_ext" where
  "toy_login_rpc = toy_rpc\<lparr>x_params_verify := (\<lambda>_. Ok toy_verify)\<rparr>"

definition toy_server :: "(string, login_challenge) btree_map \<Rightarrow> toy_db rpc_context" where
  "toy_server cs = (rpc_context_new 0 (toy_node toy_state toy_empty_db))\<lparr>rx_challenges := cs\<rparr>"

lemma toy_check: "verify_check toy_login_rpc (toy_env 20) (toy_server (bt_insert ''n'' toy_challenge bt_empty)) toy_verify = Ok (toy_address 46)"
proof -
  have "address_of_text toy_login_rpc (address_text toy_rpc (toy_address 46)) = Ok (toy_address 46)"
    using address_round_trip [OF toy_text_codecs, of "toy_address 46"]
    by (simp add: wf_address_def toy_address_def address_of_text_def toy_login_rpc_def toy_rpc_defs)
  moreover have "address_from_public_key toy_login_rpc (PublicKey (replicate 32 7)) = toy_address 46"
    by (simp add: address_from_public_key_def toy_login_rpc_def toy_rpc_defs address_from_hash_eq toy_address_def)
  moreover have "kp_verify toy_login_rpc k m s" for k m s by (simp add: kp_verify_def toy_login_rpc_def toy_rpc_defs)
  moreover have "x_hex_decode toy_login_rpc = (\<lambda>s. Ok (str_bytes s))" by (simp add: toy_login_rpc_def toy_rpc_defs)
  ultimately show ?thesis
    by (simp add: verify_check_def parse_address_def toy_verify_def toy_server_def toy_challenge_def toy_env_def
        map_simps)
qed

theorem login_sound_witness:
  "\<exists>answer ctx'. verify_challenge toy_login_rpc (toy_env 20) (toy_server (bt_insert ''n'' toy_challenge bt_empty)) JNull =
      (Ok answer, ctx') \<and> bt_get (rx_challenges ctx') ''n'' = None"
proof -
  let ?ctx = "toy_server (bt_insert ''n'' toy_challenge bt_empty)"
  have params: "x_params_verify toy_login_rpc JNull = Ok toy_verify" by (simp add: toy_login_rpc_def)
  then obtain answer ctx' where v: "verify_challenge toy_login_rpc (toy_env 20) ?ctx JNull = (Ok answer, ctx')"
    by (simp add: verify_challenge_def parse_params_def toy_check verify_finish_def Let_def) (simp add: toy_env_def)
  have "vp_nonce toy_verify = ''n''" by (simp add: toy_verify_def)
  with login_sound [OF v] params v show ?thesis by auto
qed

theorem concurrent_logins_share_challenge_witness:
  "is_ok (fst (verify_finish toy_login_rpc (toy_env 20) (toy_server bt_empty) ''n'' (toy_address 46))) \<and>
   (\<exists>ctx1. \<not> is_ok (verify_check toy_login_rpc (toy_env 20) ctx1 toy_verify))"
proof -
  have "is_ok (en_random (toy_env 20) 32)" by (simp add: toy_env_def)
  then have "is_ok (fst (verify_finish toy_login_rpc (toy_env 20) (toy_server bt_empty) ''n'' (toy_address 46)))"
    by (simp add: verify_finish_def toy_env_def Let_def)
  with concurrent_logins_share_challenge [OF toy_check] \<open>is_ok (en_random (toy_env 20) 32)\<close> show ?thesis by blast
qed

lemma bt_len_collect:
  "distinct ks \<Longrightarrow> \<forall>k \<in> set ks. \<not> bt_contains m k \<Longrightarrow>
    bt_len (fold (\<lambda>k. bt_insert k v) ks m) = length ks + bt_len m"
proof (induction ks arbitrary: m)
  case (Cons k ks)
  have "\<forall>j \<in> set ks. \<not> bt_contains (bt_insert k v m) j" using Cons.prems by (auto simp: map_simps)
  with Cons show ?case by (simp add: map_simps)
qed simp

lemma get_collect: "bt_get (fold (\<lambda>k. bt_insert k v) ks m) k = (if k \<in> set ks then Some v else bt_get m k)"
  by (induction ks arbitrary: m) (auto simp: map_simps)

theorem expired_challenges_block_login_witness:
  "\<exists>cs. login_run toy_login_rpc (toy_server cs) [(toy_env 400, AskChallenge JNull)] = ([Refused], toy_server cs)"
proof -
  let ?cs = "fold (\<lambda>k. bt_insert k toy_challenge) (map (\<lambda>n. replicate n CHR ''a'') [0..<10000]) bt_empty"
  have "inj (\<lambda>n. replicate n CHR ''a'')" by (auto simp: inj_def dest: arg_cong [of _ _ length])
  then have "distinct (map (\<lambda>n. replicate n CHR ''a'') [0..<10000])"
    by (simp add: distinct_map inj_on_def inj_def)
  then have "bt_len ?cs = 10000" by (subst bt_len_collect) (auto simp: contains_get map_simps)
  then have "MAX_PENDING_CHALLENGES \<le> bt_len (rx_challenges (toy_server ?cs))"
    by (simp add: MAX_PENDING_CHALLENGES_def toy_server_def)
  moreover have "\<forall>nonce c. bt_get (rx_challenges (toy_server ?cs)) nonce = Some c \<longrightarrow> lc_expires_at c < 400"
    by (auto simp: get_collect toy_server_def toy_challenge_def map_simps split: if_splits)
  ultimately show ?thesis
    using expired_challenges_block_login [of "toy_server ?cs" 400 "[(toy_env 400, AskChallenge JNull)]" toy_login_rpc]
    by (intro exI [of _ ?cs]) (simp add: toy_env_def)
qed

end
