(* ===== verification/Rpc_Handlers.thy ===== *)
theory Rpc_Handlers
  imports Rpc_Login
begin

text \<open>
  \<open>crates/wsc-rpc/src/lib.rs\<close>, fourth part: what each method does. A handler answers, fails with a code
  and a message, or panics. \<open>json!\<close> unwraps the conversion of its values, which \<open>serde_json\<close> refuses for
  an integer beyond 64 bits; a handler that panics while it holds the lock of the node poisons it.
\<close>

section \<open>Answers and the lock\<close>

datatype rpc_answer = Answer json | Failure rpc_error | Panicked

definition attempt ::
    "rpc_error + 'v \<Rightarrow> 'c \<Rightarrow> ('v \<Rightarrow> rpc_answer \<times> 'c) \<Rightarrow> rpc_answer \<times> 'c" where
  "attempt r ctx f = (case r of Inl e \<Rightarrow> (Failure e, ctx) | Inr v \<Rightarrow> f v)"

abbreviation bad_params :: "string + 'v \<Rightarrow> rpc_error + 'v" where
  "bad_params \<equiv> map_err (\<lambda>e. (-32602, e))"

text \<open>Whether every number of a value fits a \<open>serde_json::Number\<close>.\<close>

fun representable :: "json \<Rightarrow> bool" where
  "representable JNull = True"
| "representable (JBool b) = True"
| "representable (JNum i) = (- (2 ^ 63) \<le> i \<and> i < 2 ^ 64)"
| "representable (JStr s) = True"
| "representable (JArr vs) = (\<forall>v \<in> set vs. representable v)"
| "representable (JObj ms) = (\<forall>m \<in> set ms. representable (snd m))"

definition rpc_node_error :: "node_error \<Rightarrow> rpc_error" where
  "rpc_node_error e =
     (case e of
        NStorage Missing \<Rightarrow> (-32004, ''not found'')
      | NState _ \<Rightarrow> (-32010, node_error_string e)
      | DuplicateTransaction \<Rightarrow> (-32011, node_error_string e)
      | MempoolFull \<Rightarrow> (-32029, node_error_string e)
      | _ \<Rightarrow> (-32000, node_error_string e))"

definition view_error :: "rpc_error \<Rightarrow> node_error" where
  "view_error e = NCrypto (snd e)"

definition lock_error :: rpc_error where
  "lock_error = (-32000, ''node lock poisoned'')"

definition with_node ::
    "'db rpc_context \<Rightarrow> ('db node \<Rightarrow> node_error + json) \<Rightarrow> rpc_answer \<times> 'db rpc_context" where
  "with_node ctx operation =
     (if rx_poisoned ctx then (Failure lock_error, ctx)
      else case operation (rx_node ctx) of
        Inl e \<Rightarrow> (Failure (rpc_node_error e), ctx)
      | Inr v \<Rightarrow> if representable v then (Answer v, ctx) else (Panicked, ctx\<lparr>rx_poisoned := True\<rparr>))"

definition with_node_mut ::
    "'db rpc_context \<Rightarrow> ('db node \<Rightarrow> (node_error + json) \<times> 'db node) \<Rightarrow> rpc_answer \<times> 'db rpc_context" where
  "with_node_mut ctx operation =
     (if rx_poisoned ctx then (Failure lock_error, ctx)
      else case operation (rx_node ctx) of
        (Inl e, n) \<Rightarrow> (Failure (rpc_node_error e), ctx\<lparr>rx_node := n\<rparr>)
      | (Inr v, n) \<Rightarrow>
          if representable v then (Answer v, ctx\<lparr>rx_node := n\<rparr>)
          else (Panicked, ctx\<lparr>rx_node := n, rx_poisoned := True\<rparr>))"

text \<open>A handler that takes the lock itself.\<close>

definition with_lock :: "'db rpc_context \<Rightarrow> ('db node \<Rightarrow> rpc_error + json) \<Rightarrow> rpc_answer \<times> 'db rpc_context" where
  "with_lock ctx operation =
     (if rx_poisoned ctx then (Failure lock_error, ctx)
      else case operation (rx_node ctx) of
        Inl e \<Rightarrow> (Failure e, ctx)
      | Inr v \<Rightarrow> if representable v then (Answer v, ctx) else (Panicked, ctx\<lparr>rx_poisoned := True\<rparr>))"

definition submitted :: "(node_error + hash) \<times> 'db node \<Rightarrow> (hash \<Rightarrow> json) \<Rightarrow> (node_error + json) \<times> 'db node" where
  "submitted r answer = (case r of (Inl e, n) \<Rightarrow> (Err e, n) | (Inr h, n) \<Rightarrow> (Ok (answer h), n))"

section \<open>The node's own queries\<close>

definition node_finalized_height :: "('db, 'a) storage_ext_scheme \<Rightarrow> 'db node \<Rightarrow> node_error + u64" where
  "node_finalized_height X n = map_err NStorage (finalized_height X (nd_store n))"

definition node_finalized_hash :: "('db, 'a) storage_ext_scheme \<Rightarrow> 'db node \<Rightarrow> node_error + hash" where
  "node_finalized_hash X n = map_err NStorage (finalized_hash X (nd_store n))"

definition node_get_block :: "('db, 'a) storage_ext_scheme \<Rightarrow> 'db node \<Rightarrow> hash \<Rightarrow> node_error + block" where
  "node_get_block X n h = map_err NStorage (get_block X (nd_store n) h)"

definition node_get_transaction :: "('db, 'a) storage_ext_scheme \<Rightarrow> 'db node \<Rightarrow> hash \<Rightarrow> node_error + transaction" where
  "node_get_transaction X n h = map_err NStorage (get_transaction X (nd_store n) h)"

definition node_asset_balances :: "'db node \<Rightarrow> address \<Rightarrow> (string, amount) btree_map" where
  "node_asset_balances n a = asset_balances_of (nd_state n) a"

definition node_token_balance :: "'db node \<Rightarrow> address \<Rightarrow> hash \<Rightarrow> amount" where
  "node_token_balance n a token_id = token_balance_of (nd_state n) a token_id"

section \<open>Programs\<close>

definition it_build ::
    "('db, 'a) rpc_ext_scheme \<Rightarrow> 'db rpc_context \<Rightarrow> json \<Rightarrow> rpc_answer \<times> 'db rpc_context" where
  "it_build X ctx params =
     attempt (parse_params (x_params_it_build X params)) ctx (\<lambda>p.
       if to_ascii_lowercase (ibp_language p) \<noteq> ''rust''
       then (Failure (-32602, ''only Rust is enabled; Python and JavaScript frontends are planned''), ctx)
       else attempt (map_err (\<lambda>e. (-32602, program_error_string e))
                (compile_rust_source X (x_wat_parse X) (ibp_name p) (ibp_source p))) ctx (\<lambda>package.
            attempt (map_err (\<lambda>e. (-32602, program_error_string e)) (package_encode X package)) ctx (\<lambda>bs.
              (Answer (JObj [(''status'', JStr ''built''), (''program_id'', JStr (program_id package)),
                 (''code_hash'', JStr (pkg_code_hash package)), (''package_base64'', JStr (x_base64_encode X bs)),
                 (''manifest'', x_json_manifest X (pkg_manifest package))]), ctx))))"

definition decode_program_package :: "('db, 'a) rpc_ext_scheme \<Rightarrow> string \<Rightarrow> rpc_error + program_package" where
  "decode_program_package X encoded =
     (case x_base64_decode X encoded of
        Inl e \<Rightarrow> Err (-32602, ''package_base64 is invalid: '' @ e)
      | Inr bs \<Rightarrow> map_err (\<lambda>e. (-32602, program_error_string e)) (package_decode X bs))"

definition make_program_operation ::
    "('db, 'a) rpc_ext_scheme \<Rightarrow> program_operation_kind \<Rightarrow> string \<Rightarrow> bytes \<Rightarrow> u64 \<Rightarrow> string \<Rightarrow> string \<Rightarrow> string \<Rightarrow> string \<Rightarrow>
     u64 \<Rightarrow> u128 \<Rightarrow> rpc_error + program_operation" where
  "make_program_operation X kind pid package gas_limit key entry public_key sig nonce fee =
     (case bad_params (decode_fixed X 32 public_key ''public_key'') of Inl e \<Rightarrow> Err e | Inr pk \<Rightarrow>
      (case bad_params (decode_fixed X 64 sig ''signature'') of Inl e \<Rightarrow> Err e | Inr sg \<Rightarrow>
        Ok \<lparr>po_version = 1, po_chain_id = CHAIN_ID, po_kind = kind, po_nonce = nonce, po_fee = fee,
            po_program_id = pid, po_package = package, po_gas_limit = gas_limit, po_key = key, po_value = entry,
            po_public_key = PublicKey pk, po_signature = Signature sg\<rparr>))"

definition submit_program ::
    "('db, 'a) rpc_ext_scheme \<Rightarrow> 'db rpc_context \<Rightarrow> program_operation \<Rightarrow> (hash \<Rightarrow> json) \<Rightarrow> rpc_answer \<times> 'db rpc_context" where
  "submit_program X ctx operation answer =
     with_node_mut ctx (\<lambda>n. submitted (submit_program_operation X n operation) answer)"

definition pending_program :: "string \<Rightarrow> hash \<Rightarrow> json" where
  "pending_program pid operation_id =
     JObj [(''status'', JStr ''pending''), (''program_id'', JStr pid), (''operation_id'', jhash operation_id)]"

definition program_upload ::
    "('db, 'a) rpc_ext_scheme \<Rightarrow> 'db rpc_context \<Rightarrow> json \<Rightarrow> rpc_answer \<times> 'db rpc_context" where
  "program_upload X ctx params =
     attempt (parse_params (x_params_package X params)) ctx (\<lambda>encoded.
     attempt (decode_program_package X encoded) ctx (\<lambda>package.
       let pid = program_id package in
       (Answer (JObj [(''status'', JStr ''verified''), (''program_id'', JStr pid), (''code_hash'', JStr (pkg_code_hash package)),
          (''manifest'', x_json_manifest X (pkg_manifest package)), (''wasm_bytes'', JNum (int (length (pkg_wasm package))))]),
        ctx\<lparr>rx_programs := bt_insert pid package (rx_programs ctx)\<rparr>)))"

definition rpc_program_deploy ::
    "('db, 'a) rpc_ext_scheme \<Rightarrow> 'db rpc_context \<Rightarrow> json \<Rightarrow> rpc_answer \<times> 'db rpc_context" where
  "rpc_program_deploy X ctx params =
     attempt (parse_params (x_params_deploy X params)) ctx (\<lambda>p.
     attempt (decode_program_package X (pdp_package_base64 p)) ctx (\<lambda>package.
     attempt (map_err (\<lambda>e. (-32602, program_error_string e)) (package_encode X package)) ctx (\<lambda>bs.
     attempt (make_program_operation X ProgramDeploy (program_id package) bs 0 [] [] (pdp_public_key p) (pdp_signature p)
         (pdp_nonce p) (pdp_fee p)) ctx (\<lambda>operation.
       submit_program X ctx operation (pending_program (program_id package))))))"

definition program_get ::
    "('db, 'a) rpc_ext_scheme \<Rightarrow> 'db rpc_context \<Rightarrow> json \<Rightarrow> rpc_answer \<times> 'db rpc_context" where
  "program_get X ctx params =
     attempt (parse_params (x_params_program_id X params)) ctx (\<lambda>pid.
       with_lock ctx (\<lambda>n.
         case bt_get (st_programs (nd_state n)) pid of
           None \<Rightarrow> Err (-32004, ''program not found'')
         | Some r \<Rightarrow> Ok (program_view X r)))"

definition program_list :: "('db, 'a) rpc_ext_scheme \<Rightarrow> 'db rpc_context \<Rightarrow> rpc_answer \<times> 'db rpc_context" where
  "program_list X ctx =
     with_lock ctx (\<lambda>n. Ok (JObj [(''programs'', JArr (map (program_view X) (bt_values (st_programs (nd_state n)))))]))"

definition rpc_program_call ::
    "('db, 'a) rpc_ext_scheme \<Rightarrow> 'db rpc_context \<Rightarrow> json \<Rightarrow> rpc_answer \<times> 'db rpc_context" where
  "rpc_program_call X ctx params =
     attempt (parse_params (x_params_call X params)) ctx (\<lambda>p.
       if pcp_gas_limit p = 0 then (Failure (-32602, ''gas_limit must be positive''), ctx)
       else attempt (make_program_operation X ProgramCall (pcp_program_id p) [] (pcp_gas_limit p) [] [] (pcp_public_key p)
              (pcp_signature p) (pcp_nonce p) (pcp_fee p)) ctx (\<lambda>operation.
            submit_program X ctx operation (pending_program (pcp_program_id p))))"

definition program_receipt ::
    "('db, 'a) rpc_ext_scheme \<Rightarrow> 'db rpc_context \<Rightarrow> json \<Rightarrow> rpc_answer \<times> 'db rpc_context" where
  "program_receipt X ctx params =
     attempt (parse_params (x_params_operation_id X params)) ctx (\<lambda>text_value.
     attempt (parse_hash X text_value) ctx (\<lambda>h.
       with_lock ctx (\<lambda>n.
         case bt_get (st_program_receipts (nd_state n)) h of
           None \<Rightarrow> Err (-32004, ''program receipt not found'')
         | Some r \<Rightarrow>
             Ok (JObj [(''operation_id'', jhash (rc_operation_id r)), (''program_id'', JStr (rc_program_id r)),
               (''kind'', x_json_program_kind X (rc_kind r)), (''status'', JStr (rc_status r)),
               (''return_data_hex'', JStr (x_hex_encode X (rc_return_data r))), (''gas_used'', jnat (rc_gas_used r)),
               (''gas_limit'', jnat (rc_gas_limit r)), (''fee_paid'', jamount (rc_fee_paid r)),
               (''error'', joption JStr (rc_error r))]))))"

definition program_storage_get ::
    "('db, 'a) rpc_ext_scheme \<Rightarrow> 'db rpc_context \<Rightarrow> json \<Rightarrow> rpc_answer \<times> 'db rpc_context" where
  "program_storage_get X ctx params =
     attempt (parse_params (x_params_storage_get X params)) ctx (\<lambda>p.
       with_lock ctx (\<lambda>n.
         case bt_get (st_programs (nd_state n)) (psg_program_id p) of
           None \<Rightarrow> Err (-32004, ''program not found'')
         | Some r \<Rightarrow>
             Ok (JObj [(''program_id'', JStr (psg_program_id p)), (''key'', JStr (psg_key p)),
               (''value'', joption JStr (bt_get (pr_storage r) (psg_key p)))])))"

definition rpc_program_storage_set ::
    "('db, 'a) rpc_ext_scheme \<Rightarrow> 'db rpc_context \<Rightarrow> json \<Rightarrow> rpc_answer \<times> 'db rpc_context" where
  "rpc_program_storage_set X ctx params =
     attempt (parse_params (x_params_storage_set X params)) ctx (\<lambda>p.
       if 128 < length (pss_key p) \<or> 4096 < length (pss_value p)
       then (Failure (-32602, ''storage key/value exceeds MVP limits''), ctx)
       else attempt (make_program_operation X ProgramStorageSet (pss_program_id p) [] 0 (pss_key p) (pss_value p)
              (pss_public_key p) (pss_signature p) (pss_nonce p) (pss_fee p)) ctx (\<lambda>operation.
            submit_program X ctx operation (\<lambda>operation_id.
              JObj [(''status'', JStr ''pending''), (''program_id'', JStr (pss_program_id p)), (''key'', JStr (pss_key p)),
                (''operation_id'', jhash operation_id)])))"

definition rpc_program_close ::
    "('db, 'a) rpc_ext_scheme \<Rightarrow> 'db rpc_context \<Rightarrow> json \<Rightarrow> rpc_answer \<times> 'db rpc_context" where
  "rpc_program_close X ctx params =
     attempt (parse_params (x_params_close X params)) ctx (\<lambda>p.
     attempt (make_program_operation X ProgramClose (pcl_program_id p) [] 0 [] [] (pcl_public_key p) (pcl_signature p)
         (pcl_nonce p) (pcl_fee p)) ctx (\<lambda>operation.
       submit_program X ctx operation (pending_program (pcl_program_id p))))"

section \<open>Quotes and the reserve\<close>

definition mna_quote :: "('db, 'a) rpc_ext_scheme \<Rightarrow> 'db rpc_context \<Rightarrow> json \<Rightarrow> rpc_answer \<times> 'db rpc_context" where
  "mna_quote X ctx params =
     attempt (parse_params (x_params_amount_usdc X params)) ctx (\<lambda>text_value.
     attempt (bad_params (parse_amount ''amount_usdc'' text_value)) ctx (\<lambda>usdc.
       if usdc = 0 \<or> usdc mod MNA_USDC_DENOMINATOR \<noteq> 0
       then (Failure (-32602, ''amount_usdc must be an even integer number of micro-USDC''), ctx)
       else (Answer (JObj [(''amount_usdc'', jamount usdc), (''amount_mna'', jamount (usdc div MNA_USDC_DENOMINATOR)),
               (''usdc_per_mna'', JStr ''2''), (''mna_per_usdc'', JStr ''0.5''), (''price_usdc'', JStr ''2.000000''),
               (''decimals'', JNum 6)]), ctx)))"

definition mna_reserve_status :: "'db rpc_context \<Rightarrow> rpc_answer \<times> 'db rpc_context" where
  "mna_reserve_status ctx =
     with_node ctx (\<lambda>n.
       let ledger = st_mna_reserve_ledger (nd_state n);
           reserves_usdc = saturating_sub (led_total_verified_deposits_usdc ledger) (led_total_released_usdc ledger);
           reserves_sol_usd = saturating_sub (led_total_verified_sol_usd ledger) (led_total_released_sol_usd ledger);
           reserves = saturating_add reserves_usdc reserves_sol_usd;
           required = saturating_mul (led_reserve_backed_mna_minted ledger) MNA_USDC_DENOMINATOR
       in Ok (JObj [(''rate'', JStr ''2 USD = 1 MNA''), (''paused'', JBool (led_paused ledger)),
            (''total_verified_deposits_usdc'', jamount (led_total_verified_deposits_usdc ledger)),
            (''total_released_usdc'', jamount (led_total_released_usdc ledger)),
            (''current_reserves_usdc'', jamount reserves_usdc),
            (''total_verified_sol_lamports'', jamount (led_total_verified_sol_lamports ledger)),
            (''total_released_sol_lamports'', jamount (led_total_released_sol_lamports ledger)),
            (''current_reserves_sol_usd'', jamount reserves_sol_usd),
            (''current_reserves_total_usd'', jamount reserves),
            (''reserve_backed_mna_minted'', jamount (led_reserve_backed_mna_minted ledger)),
            (''total_redeemed_mna'', jamount (led_total_redeemed_mna ledger)),
            (''required_reserve_usd'', jamount required),
            (''surplus_usd'', jamount (saturating_sub reserves required)),
            (''collateralized'', JBool (required \<le> reserves))]))"

text \<open>The amounts of a quote for SOL: dollars, gross, fee and net, and the clamped fee rate.\<close>

definition sol_quote_fee_bps :: "environment \<Rightarrow> u128" where
  "sol_quote_fee_bps vars = max 50 (min 500 (env_number vars ''WSC_SOL_MNA_FEE_BPS'' 50))"

definition sol_quote_amounts :: "u128 \<Rightarrow> u128 \<Rightarrow> u128 \<Rightarrow> (u128 \<times> u128 \<times> u128 \<times> u128) option" where
  "sol_quote_amounts lamports price fee_bps =
     (case checked_mul lamports price of
        None \<Rightarrow> None
      | Some product \<Rightarrow>
          let usd = product div 1000000000;
              gross = usd div MNA_USDC_DENOMINATOR;
              fee = saturating_mul gross fee_bps div 10000
          in Some (usd, gross, fee, saturating_sub gross fee))"

definition sol_mna_quote ::
    "('db, 'a) rpc_ext_scheme \<Rightarrow> rpc_env \<Rightarrow> 'db rpc_context \<Rightarrow> json \<Rightarrow> rpc_answer \<times> 'db rpc_context" where
  "sol_mna_quote X env ctx params =
     attempt (parse_params (x_params_amount_lamports X params)) ctx (\<lambda>text_value.
     attempt (bad_params (parse_amount ''amount_lamports'' text_value)) ctx (\<lambda>lamports.
       if lamports = 0 then (Failure (-32602, ''amount_lamports must be positive''), ctx)
       else let price = env_number (en_vars env) ''WSC_SOL_MNA_PRICE_USD_MICRO_PER_SOL'' 0 in
         if price = 0 then (Failure (-32010, ''SOL/MNA oracle is not configured''), ctx)
         else (case sol_quote_amounts lamports price (sol_quote_fee_bps (en_vars env)) of
             None \<Rightarrow> (Failure (-32000, ''SOL quote overflow''), ctx)
           | Some (usd, gross, fee, amount_mna) \<Rightarrow>
               (Answer (JObj [(''amount_lamports'', jamount lamports), (''oracle_price_usd_micro_per_sol'', jamount price),
                  (''amount_usd_micro'', jamount usd), (''gross_mna'', jamount gross), (''fee_mna'', jamount fee),
                  (''amount_mna'', jamount amount_mna), (''fee_bps'', jnat (sol_quote_fee_bps (en_vars env)))]), ctx))))"

definition mna_swap_prepare ::
    "('db, 'a) rpc_ext_scheme \<Rightarrow> 'db rpc_context \<Rightarrow> json \<Rightarrow> rpc_answer \<times> 'db rpc_context" where
  "mna_swap_prepare X ctx params =
     attempt (parse_params (x_params_swap_prepare X params)) ctx (\<lambda>p.
     attempt (bad_params (swap_unsigned_into_core X p)) ctx (\<lambda>u.
     attempt (map_err (\<lambda>e. (-32000, crypto_error_string e))
         (mna_swap_operation_id X \<lparr>sw_unsigned = u, sw_signature = Signature (replicate 64 0)\<rparr>)) ctx (\<lambda>h.
     attempt (map_err (\<lambda>e. (-32000, encoding_error_string e)) (x_enc_mna_swap X u)) ctx (\<lambda>bs.
       (Answer (JObj [(''operation_id'', jhash h), (''signing_bytes'', JStr (x_hex_encode X bs))]), ctx)))))"

definition queued_answer :: "hash \<Rightarrow> json" where
  "queued_answer h = JObj [(''operation_id'', jhash h), (''status'', JStr ''queued'')]"

definition mna_swap_broadcast ::
    "('db, 'a) rpc_ext_scheme \<Rightarrow> 'db rpc_context \<Rightarrow> json \<Rightarrow> rpc_answer \<times> 'db rpc_context" where
  "mna_swap_broadcast X ctx params =
     attempt (parse_params (x_params_swap X params)) ctx (\<lambda>p.
     attempt (bad_params (swap_into_core X p)) ctx (\<lambda>op.
       with_node_mut ctx (\<lambda>n. submitted (submit_mna_swap X n op) queued_answer)))"

definition not_found_answer :: "hash \<Rightarrow> json" where
  "not_found_answer h = JObj [(''operation_id'', jhash h), (''status'', JStr ''not_found'')]"

definition status_answer :: "string \<Rightarrow> hash \<Rightarrow> json \<Rightarrow> json" where
  "status_answer status h operation =
     JObj [(''operation_id'', jhash h), (''status'', JStr status), (''operation'', operation)]"

definition mna_swap_status ::
    "('db, 'a) rpc_ext_scheme \<Rightarrow> 'db rpc_context \<Rightarrow> json \<Rightarrow> rpc_answer \<times> 'db rpc_context" where
  "mna_swap_status X ctx params =
     attempt (parse_params (x_params_hash X params)) ctx (\<lambda>text_value.
     attempt (parse_hash X text_value) ctx (\<lambda>h.
       with_node ctx (\<lambda>n.
         Ok (case bt_get (st_mna_swap_operation_records (nd_state n)) h of
               Some op \<Rightarrow> status_answer ''confirmed'' h (x_json_swap X op)
             | None \<Rightarrow>
                 (case find (\<lambda>op. mna_swap_operation_id X op = Ok h) (nd_pending_swaps n) of
                    Some op \<Rightarrow> status_answer ''pending'' h (x_json_swap X op)
                  | None \<Rightarrow> not_found_answer h)))))"

text \<open>The operator's token, from the environment; an empty one authorizes nobody.\<close>

definition operator_authorized :: "environment \<Rightarrow> string \<Rightarrow> bool" where
  "operator_authorized vars token =
     (let expected = env_or_default vars ''WSC_BRIDGE_OPERATOR_TOKEN'' in expected \<noteq> [] \<and> token = expected)"

definition operator_error :: rpc_error where
  "operator_error = (-32001, ''bridge operator authorization failed'')"

definition parse_unsigned_field :: "string \<Rightarrow> string \<Rightarrow> rpc_error + u128" where
  "parse_unsigned_field field text_value = ok_or (parse_unsigned text_value) (-32602, field @ '' must be unsigned'')"

text \<open>The operation before its identifier is filled in.\<close>

definition reserve_operation ::
    "('db, 'a) rpc_ext_scheme \<Rightarrow> mna_reserve_operation_kind \<Rightarrow> mna_reserve_operation_params \<Rightarrow> rpc_error + mna_reserve_operation" where
  "reserve_operation X kind p =
     (case parse_asset_id (mrp_collateral_asset p) of Inl e \<Rightarrow> Err e | Inr collateral \<Rightarrow>
      (case parse_address X (mrp_address p) of Inl e \<Rightarrow> Err e | Inr a \<Rightarrow>
      (case parse_unsigned_field ''amount_usdc'' (mrp_amount_usdc p) of Inl e \<Rightarrow> Err e | Inr amount_usdc \<Rightarrow>
      (case parse_unsigned_field ''amount_mna'' (mrp_amount_mna p) of Inl e \<Rightarrow> Err e | Inr amount_mna \<Rightarrow>
      (case parse_unsigned_field ''collateral_amount'' (mrp_collateral_amount p) of Inl e \<Rightarrow> Err e | Inr collateral_amount \<Rightarrow>
      (case parse_unsigned_field ''oracle_price_usd_micro_per_sol'' (mrp_oracle_price_usd_micro_per_sol p) of
         Inl e \<Rightarrow> Err e
       | Inr price \<Rightarrow>
      (case parse_unsigned_field ''fee_mna'' (mrp_fee_mna p) of Inl e \<Rightarrow> Err e | Inr fee_mna \<Rightarrow>
        Ok \<lparr>ro_version = 1, ro_operation_id = HASH_ZERO, ro_kind = kind, ro_collateral_asset = collateral, ro_address = a,
            ro_amount_usdc = amount_usdc, ro_amount_mna = amount_mna, ro_collateral_amount = collateral_amount,
            ro_oracle_price_usd_micro_per_sol = price, ro_oracle_timestamp = mrp_oracle_timestamp p, ro_fee_mna = fee_mna,
            ro_destination = mrp_destination p, ro_external_transaction = mrp_external_transaction p,
            ro_memo = mrp_memo p\<rparr>)))))))"

definition mna_reserve_request ::
    "('db, 'a) rpc_ext_scheme \<Rightarrow> rpc_env \<Rightarrow> 'db rpc_context \<Rightarrow> string \<Rightarrow> json \<Rightarrow> rpc_answer \<times> 'db rpc_context" where
  "mna_reserve_request X env ctx method params =
     attempt (parse_params (x_params_reserve X params)) ctx (\<lambda>p.
       if \<not> operator_authorized (en_vars env) (mrp_operator_token p) then (Failure operator_error, ctx)
       else attempt (reserve_operation X (if str_suffix ''mint'' method then VerifyDeposit else Release) p) ctx (\<lambda>op0.
            attempt (map_err (\<lambda>e. (-32000, crypto_error_string e)) (mna_reserve_operation_id X op0)) ctx (\<lambda>h.
              with_node_mut ctx (\<lambda>n. submitted (submit_mna_reserve_operation X n (op0\<lparr>ro_operation_id := h\<rparr>)) (\<lambda>_. queued_answer h)))))"

definition mna_reserve_recent :: "('db, 'a) rpc_ext_scheme \<Rightarrow> 'db rpc_context \<Rightarrow> rpc_answer \<times> 'db rpc_context" where
  "mna_reserve_recent X ctx =
     with_node ctx (\<lambda>n. Ok (JObj [(''operations'',
       JArr (map (x_json_reserve X) (take 1000 (rev (bt_values (st_mna_reserve_operation_records (nd_state n)))))))]))"

section \<open>Tokens\<close>

definition token_of_operation :: "('a) crypto_ext_scheme \<Rightarrow> unsigned_token_operation \<Rightarrow> hash \<Rightarrow> hash" where
  "token_of_operation X u operation_id =
     (if utk_kind u = TokenCreate then token_id_from_operation X operation_id else utk_token_id u)"

definition token_operation_prepare ::
    "('db, 'a) rpc_ext_scheme \<Rightarrow> 'db rpc_context \<Rightarrow> json \<Rightarrow> rpc_answer \<times> 'db rpc_context" where
  "token_operation_prepare X ctx params =
     attempt (parse_params (x_params_token_prepare X params)) ctx (\<lambda>p.
     attempt (bad_params (token_unsigned_into_core X p)) ctx (\<lambda>u.
     attempt (map_err (\<lambda>e. (-32000, encoding_error_string e)) (x_enc_token_operation X u)) ctx (\<lambda>bs.
     attempt (map_err (\<lambda>e. (-32000, crypto_error_string e))
         (token_operation_id X \<lparr>tk_unsigned = u, tk_signature = Signature (replicate 64 0)\<rparr>)) ctx (\<lambda>h.
       (Answer (JObj [(''operation_id'', jhash h), (''token_id'', jhash (token_of_operation X u h)),
          (''signing_bytes'', JStr (x_hex_encode X bs)),
          (''kind'', JStr (to_ascii_lowercase (token_kind_debug (utk_kind u))))]), ctx)))))"

definition token_operation_broadcast ::
    "('db, 'a) rpc_ext_scheme \<Rightarrow> 'db rpc_context \<Rightarrow> json \<Rightarrow> rpc_answer \<times> 'db rpc_context" where
  "token_operation_broadcast X ctx params =
     attempt (parse_params (x_params_token X params)) ctx (\<lambda>p.
     attempt (bad_params (token_into_core X p)) ctx (\<lambda>op.
       with_node_mut ctx (\<lambda>n.
         case crypto_err (token_operation_id X op) of
           Inl e \<Rightarrow> (Err e, n)
         | Inr operation_id \<Rightarrow>
             submitted (submit_token_operation X n op) (\<lambda>h.
               JObj [(''operation_id'', jhash h), (''token_id'', jhash (token_of_operation X (tk_unsigned op) operation_id)),
                 (''status'', JStr ''queued'')]))))"

definition token_operation_status ::
    "('db, 'a) rpc_ext_scheme \<Rightarrow> 'db rpc_context \<Rightarrow> json \<Rightarrow> rpc_answer \<times> 'db rpc_context" where
  "token_operation_status X ctx params =
     attempt (parse_params (x_params_hash X params)) ctx (\<lambda>text_value.
     attempt (parse_hash X text_value) ctx (\<lambda>h.
       with_node ctx (\<lambda>n.
         Ok (case bt_get (st_token_operation_records (nd_state n)) h of
               Some op \<Rightarrow> status_answer ''confirmed'' h (token_operation_view X h op)
             | None \<Rightarrow>
                 (case find (\<lambda>op. token_operation_id X op = Ok h) (nd_pending_tokens n) of
                    Some op \<Rightarrow> status_answer ''pending'' h (token_operation_view X h op)
                  | None \<Rightarrow> not_found_answer h)))))"

definition token_list :: "('db, 'a) rpc_ext_scheme \<Rightarrow> 'db rpc_context \<Rightarrow> rpc_answer \<times> 'db rpc_context" where
  "token_list X ctx =
     with_node ctx (\<lambda>n. Ok (JObj [(''tokens'',
       JArr (map (token_entry_view X (nd_state n)) (bt_values (st_token_definitions (nd_state n)))))]))"

definition token_get ::
    "('db, 'a) rpc_ext_scheme \<Rightarrow> 'db rpc_context \<Rightarrow> json \<Rightarrow> rpc_answer \<times> 'db rpc_context" where
  "token_get X ctx params =
     attempt (parse_params (x_params_hash X params)) ctx (\<lambda>text_value.
     attempt (parse_hash X text_value) ctx (\<lambda>token_id.
       with_node ctx (\<lambda>n.
         case bt_get (st_token_definitions (nd_state n)) token_id of
           None \<Rightarrow> Err (NCrypto ''token not found'')
         | Some d \<Rightarrow>
             Ok (JObj (token_definition_view X d @
               (case token_creation_operation_id X (nd_state n) token_id of
                  None \<Rightarrow> [] | Some operation_id \<Rightarrow> [(''creation_operation_id'', jhash operation_id)]))))))"

definition rpc_token_balance ::
    "('db, 'a) rpc_ext_scheme \<Rightarrow> 'db rpc_context \<Rightarrow> json \<Rightarrow> rpc_answer \<times> 'db rpc_context" where
  "rpc_token_balance X ctx params =
     attempt (parse_params (x_params_token_balance X params)) ctx (\<lambda>p.
     attempt (parse_address X (tbp_address p)) ctx (\<lambda>a.
     attempt (parse_hash X (tbp_token_id p)) ctx (\<lambda>token_id.
       with_node ctx (\<lambda>n.
         case bt_get (st_token_definitions (nd_state n)) token_id of
           None \<Rightarrow> Err (NCrypto ''token not found'')
         | Some d \<Rightarrow>
             Ok (JObj [(''address'', jaddress X a), (''token_id'', jhash token_id), (''symbol'', JStr (td_symbol d)),
               (''decimals'', jnat (td_decimals d)), (''balance'', jamount (node_token_balance n a token_id))])))))"

end
