(* ===== verification/Rpc_Service.thy ===== *)
theory Rpc_Service
  imports Rpc_Handlers
begin

text \<open>
  \<open>crates/wsc-rpc/src/lib.rs\<close>, fifth part: assets, blocks, transactions, accounts and the bridge; the
  table of methods, the HTTP handlers with the limit on requests, and the tick of the producer.
\<close>

section \<open>Assets\<close>

definition asset_definition_view :: "asset_definition \<Rightarrow> json" where
  "asset_definition_view d =
     JObj [(''id'', JStr (canonical_key (adef_id d))), (''symbol'', JStr (asset_symbol (adef_id d))),
       (''display_name'', JStr (adef_display_name d)), (''decimals'', jnat (asset_decimals (adef_id d))),
       (''origin_chain'', JStr (asset_namespace (adef_id d))), (''origin_reference'', joption JStr (asset_contract (adef_id d))),
       (''wrapped'', JBool (adef_wrapped d)), (''enabled'', JBool (adef_enabled d))]"

definition native_asset_view :: json where
  "native_asset_view =
     JObj [(''id'', JStr ''worldstreet:MNA:native''), (''symbol'', JStr ''MNA''), (''display_name'', JStr ''MANNA''),
       (''decimals'', JNum 6), (''wrapped'', JBool False), (''enabled'', JBool True)]"

definition token_asset_view :: "('a) crypto_ext_scheme \<Rightarrow> token_definition \<Rightarrow> json" where
  "token_asset_view X d =
     JObj (token_definition_view X d @
       [(''wrapped'', JBool False), (''enabled'', JBool True), (''display_name'', JStr (td_name d))])"

definition asset_list :: "('db, 'a) rpc_ext_scheme \<Rightarrow> rpc_env \<Rightarrow> 'db rpc_context \<Rightarrow> rpc_answer \<times> 'db rpc_context" where
  "asset_list X env ctx =
     with_node ctx (\<lambda>n. Ok (JObj [(''assets'', JArr
       ([native_asset_view] @
        map asset_definition_view (filter (\<lambda>d. asset_symbol (adef_id d) \<noteq> ''WSOL'') (gen_assets (nd_genesis n))) @
        [asset_definition_view (usdc_definition (ethereum_usdc_from_env (en_vars env))),
         asset_definition_view (wsol_definition (solana_from_env (en_vars env))),
         asset_definition_view (spl_usdc_definition (solana_from_env (en_vars env)))] @
        map (token_asset_view X) (bt_values (st_token_definitions (nd_state n)))))]))"

section \<open>Blocks and transactions\<close>

definition block_answer :: "('db, 'a) rpc_ext_scheme \<Rightarrow> block \<Rightarrow> node_error + json" where
  "block_answer X b = map_err view_error (block_view X b)"

definition rpc_block_latest :: "('db, 'a) rpc_ext_scheme \<Rightarrow> 'db rpc_context \<Rightarrow> rpc_answer \<times> 'db rpc_context" where
  "rpc_block_latest X ctx = with_node ctx (\<lambda>n. block_answer X (nd_latest_block n))"

definition rpc_block_get ::
    "('db, 'a) rpc_ext_scheme \<Rightarrow> 'db rpc_context \<Rightarrow> json \<Rightarrow> rpc_answer \<times> 'db rpc_context" where
  "rpc_block_get X ctx params =
     attempt (parse_params (x_params_hash X params)) ctx (\<lambda>text_value.
     attempt (parse_hash X text_value) ctx (\<lambda>h.
       with_node ctx (\<lambda>n. case node_get_block X n h of Inl e \<Rightarrow> Err e | Inr b \<Rightarrow> block_answer X b)))"

definition rpc_block_get_by_height ::
    "('db, 'a) rpc_ext_scheme \<Rightarrow> 'db rpc_context \<Rightarrow> json \<Rightarrow> rpc_answer \<times> 'db rpc_context" where
  "rpc_block_get_by_height X ctx params =
     attempt (parse_params (x_params_height X params)) ctx (\<lambda>height.
       with_node ctx (\<lambda>n. case node_block_by_height X n height of Inl e \<Rightarrow> Err e | Inr b \<Rightarrow> block_answer X b))"

definition rpc_transaction_get ::
    "('db, 'a) rpc_ext_scheme \<Rightarrow> 'db rpc_context \<Rightarrow> json \<Rightarrow> rpc_answer \<times> 'db rpc_context" where
  "rpc_transaction_get X ctx params =
     attempt (parse_params (x_params_hash X params)) ctx (\<lambda>text_value.
     attempt (parse_hash X text_value) ctx (\<lambda>h.
       with_node ctx (\<lambda>n.
         case node_get_transaction X n h of
           Inl e \<Rightarrow> Err e
         | Inr tx \<Rightarrow>
             Ok (JObj [(''hash'', jhash h), (''transaction'', transaction_json (transaction_view X tx))]))))"

definition transaction_answer :: "('db, 'a) rpc_ext_scheme \<Rightarrow> string \<Rightarrow> hash \<Rightarrow> transaction \<Rightarrow> json" where
  "transaction_answer X status h tx =
     JObj [(''hash'', jhash h), (''status'', JStr status), (''transaction'', transaction_json (transaction_view X tx))]"

definition rpc_transaction_status ::
    "('db, 'a) rpc_ext_scheme \<Rightarrow> 'db rpc_context \<Rightarrow> json \<Rightarrow> rpc_answer \<times> 'db rpc_context" where
  "rpc_transaction_status X ctx params =
     attempt (parse_params (x_params_hash X params)) ctx (\<lambda>text_value.
     attempt (parse_hash X text_value) ctx (\<lambda>h.
       with_node ctx (\<lambda>n.
         Ok (case node_get_transaction X n h of
               Inr tx \<Rightarrow> transaction_answer X ''confirmed'' h tx
             | Inl _ \<Rightarrow>
                 (case find (\<lambda>tx. transaction_id X tx = Ok h) (mp_transactions (nd_mempool n)) of
                    Some tx \<Rightarrow> transaction_answer X ''pending'' h tx
                  | None \<Rightarrow> JObj [(''hash'', jhash h), (''status'', JStr ''not_found'')])))))"

definition count_broadcast :: "rpc_answer \<times> 'db rpc_context \<Rightarrow> rpc_answer \<times> 'db rpc_context" where
  "count_broadcast r =
     (case r of
        (Answer v, ctx) \<Rightarrow>
          (Answer v, ctx\<lparr>rx_metrics := (rx_metrics ctx)
             \<lparr>rm_transactions_broadcast := rm_transactions_broadcast (rx_metrics ctx) + 1\<rparr>\<rparr>)
      | _ \<Rightarrow> r)"

definition rpc_transaction_broadcast ::
    "('db, 'a) rpc_ext_scheme \<Rightarrow> 'db rpc_context \<Rightarrow> json \<Rightarrow> rpc_answer \<times> 'db rpc_context" where
  "rpc_transaction_broadcast X ctx params =
     attempt (parse_params (x_params_broadcast X params)) ctx (\<lambda>p.
       count_broadcast (with_node_mut ctx (\<lambda>n.
         case transaction_into_core X p of
           Inl e \<Rightarrow> (Err (NCrypto e), n)
         | Inr tx \<Rightarrow>
             submitted (submit_transaction X n tx) (\<lambda>h. JObj [(''hash'', jhash h), (''status'', JStr ''accepted'')]))))"

section \<open>Accounts and the faucet\<close>

definition MAX_FAUCET_AMOUNT :: u128 where "MAX_FAUCET_AMOUNT = 1000000000000"

definition faucet_unsigned :: "('a) crypto_ext_scheme \<Rightarrow> string \<Rightarrow> address \<Rightarrow> u128 \<Rightarrow> unsigned_transaction" where
  "faucet_unsigned X chain_id a amount =
     \<lparr>utx_version = 1, utx_chain_id = chain_id, utx_nonce = 0, utx_from = address_from_public_key X (kp_public_key X devnet_faucet),
      utx_to = a, utx_amount = amount, utx_fee = 1, utx_public_key = kp_public_key X devnet_faucet, utx_memo = ''devnet faucet''\<rparr>"

definition devnet_faucet_request ::
    "('db, 'a) rpc_ext_scheme \<Rightarrow> 'db rpc_context \<Rightarrow> json \<Rightarrow> rpc_answer \<times> 'db rpc_context" where
  "devnet_faucet_request X ctx params =
     attempt (parse_params (x_params_faucet X params)) ctx (\<lambda>p.
     attempt (parse_address X (fp_address p)) ctx (\<lambda>a.
     attempt (bad_params (parse_amount ''amount'' (fp_amount p))) ctx (\<lambda>amount.
       if amount = 0 \<or> MAX_FAUCET_AMOUNT < amount
       then (Failure (-32602, ''devnet faucet amount must be between 1 and 1000000000000 microMNA''), ctx)
       else with_node_mut ctx (\<lambda>n.
         if \<not> str_contains (nc_chain_id (nd_config n)) ''devnet'' then (Err FaucetDisabled, n)
         else let u = faucet_unsigned X (nc_chain_id (nd_config n)) a amount in
           case map_err (\<lambda>e. NCrypto (encoding_error_string e)) (x_enc_transaction X u) of
             Inl e \<Rightarrow> (Err e, n)
           | Inr bs \<Rightarrow>
               submitted (submit_transaction X n \<lparr>tx_unsigned = u, tx_signature = kp_sign X devnet_faucet bs\<rparr>) (\<lambda>h.
                 JObj [(''status'', JStr ''queued''), (''address'', jaddress X a), (''amount'', jamount amount),
                   (''hash'', jhash h)])))))"

text \<open>The balances of the assets are answered as numbers.\<close>

definition balances_view :: "(string, amount) btree_map \<Rightarrow> json" where
  "balances_view m = JObj (map (\<lambda>(k, v). (k, jnat v)) (bt_entries m))"

definition account_get ::
    "('db, 'a) rpc_ext_scheme \<Rightarrow> 'db rpc_context \<Rightarrow> json \<Rightarrow> rpc_answer \<times> 'db rpc_context" where
  "account_get X ctx params =
     attempt (parse_params (x_params_address X params)) ctx (\<lambda>text_value.
     attempt (parse_address X text_value) ctx (\<lambda>a.
       with_node ctx (\<lambda>n.
         case account_of n a of (balance, nonce) \<Rightarrow>
           Ok (JObj [(''address'', jaddress X a), (''asset'', JStr ''MNA''), (''balance'', jamount balance),
             (''nonce'', jnat nonce), (''assets'', balances_view (node_asset_balances n a))]))))"

definition mempool_status :: "'db rpc_context \<Rightarrow> rpc_answer \<times> 'db rpc_context" where
  "mempool_status ctx =
     with_node ctx (\<lambda>n. Ok (JObj [(''size'', JNum (int (mempool_len (nd_mempool n))))]))"

definition validator_set :: "('db, 'a) rpc_ext_scheme \<Rightarrow> 'db rpc_context \<Rightarrow> rpc_answer \<times> 'db rpc_context" where
  "validator_set X ctx =
     with_node ctx (\<lambda>n. Ok (JObj [(''validators'', JArr (map (\<lambda>v.
       JObj [(''name'', JStr (val_name v)), (''public_key'', JStr (x_hex_encode X (pk_bytes (val_public_key v))))])
       (gen_validators (nd_genesis n))))]))"

definition finality_status :: "('db, 'a) rpc_ext_scheme \<Rightarrow> 'db rpc_context \<Rightarrow> rpc_answer \<times> 'db rpc_context" where
  "finality_status X ctx =
     with_node ctx (\<lambda>n.
       case node_finalized_height X n of Inl e \<Rightarrow> Err e | Inr height \<Rightarrow>
       (case node_finalized_hash X n of Inl e \<Rightarrow> Err e | Inr h \<Rightarrow>
         Ok (JObj [(''height'', jnat height), (''hash'', jhash h)])))"

definition chain_info :: "('db, 'a) rpc_ext_scheme \<Rightarrow> 'db rpc_context \<Rightarrow> rpc_answer \<times> 'db rpc_context" where
  "chain_info X ctx =
     with_node ctx (\<lambda>n.
       case node_genesis_hash X n of Inl e \<Rightarrow> Err e | Inr g \<Rightarrow>
       (case node_latest_hash X n of Inl e \<Rightarrow> Err e | Inr l \<Rightarrow>
       (case node_finalized_height X n of Inl e \<Rightarrow> Err e | Inr height \<Rightarrow>
       (case node_finalized_hash X n of Inl e \<Rightarrow> Err e | Inr h \<Rightarrow>
         Ok (JObj [(''chain_id'', JStr (nc_chain_id (nd_config n))),
           (''native_asset'', JObj [(''name'', JStr ''MANNA''), (''symbol'', JStr ''MNA''), (''decimals'', JNum 6)]),
           (''genesis_hash'', jhash g), (''latest_height'', jnat (node_height n)),
           (''latest_hash'', jhash l), (''finalized_height'', jnat height), (''finalized_hash'', jhash h)])))))"

section \<open>The bridge\<close>

definition bridge_asset_operation ::
    "('db, 'a) rpc_ext_scheme \<Rightarrow> rpc_env \<Rightarrow> 'db rpc_context \<Rightarrow> json \<Rightarrow> asset_operation_kind \<Rightarrow> rpc_answer \<times> 'db rpc_context" where
  "bridge_asset_operation X env ctx params kind =
     attempt (parse_params (x_params_bridge X params)) ctx (\<lambda>p.
       if \<not> operator_authorized (en_vars env) (bop_operator_token p) then (Failure operator_error, ctx)
       else attempt (parse_hash X (bop_operation_id p)) ctx (\<lambda>operation_id.
            attempt (parse_asset_id (bop_asset_id p)) ctx (\<lambda>asset.
            attempt (parse_address X (bop_address p)) ctx (\<lambda>a.
            attempt (bad_params (parse_amount ''amount'' (bop_amount p))) ctx (\<lambda>amount.
              if amount = 0 then (Failure (-32602, ''amount must be greater than zero''), ctx)
              else with_node_mut ctx (\<lambda>n. submitted
                (submit_asset_operation n
                  \<lparr>ao_version = 1, ao_operation_id = operation_id, ao_kind = kind, ao_asset_id = asset, ao_address = a,
                   ao_destination = bop_destination p, ao_amount = amount,
                   ao_external_transaction = bop_external_transaction p, ao_memo = bop_memo p\<rparr>)
                (\<lambda>h. JObj [(''operation_id'', jhash h), (''status'', JStr ''queued''), (''kind'', JStr (asset_kind_text kind))])))))))"

definition bridge_operation_status ::
    "('db, 'a) rpc_ext_scheme \<Rightarrow> 'db rpc_context \<Rightarrow> json \<Rightarrow> rpc_answer \<times> 'db rpc_context" where
  "bridge_operation_status X ctx params =
     attempt (parse_params (x_params_operation_id X params)) ctx (\<lambda>text_value.
     attempt (parse_hash X text_value) ctx (\<lambda>operation_id.
       with_node ctx (\<lambda>n.
         Ok (if processed_asset_operation (nd_state n) operation_id
             then JObj [(''operation_id'', jhash operation_id), (''status'', JStr ''confirmed'')]
             else (case find (\<lambda>item. ao_operation_id item = operation_id) (nd_pending_assets n) of
                 Some op \<Rightarrow> status_answer ''pending'' operation_id (asset_operation_view X op)
               | None \<Rightarrow> not_found_answer operation_id)))))"

definition bridge_operations_pending ::
    "('db, 'a) rpc_ext_scheme \<Rightarrow> 'db rpc_context \<Rightarrow> rpc_answer \<times> 'db rpc_context" where
  "bridge_operations_pending X ctx =
     with_node ctx (\<lambda>n. Ok (JObj [(''operations'', JArr (map (asset_operation_view X) (nd_pending_assets n)))]))"

definition bridge_operations_recent ::
    "('db, 'a) rpc_ext_scheme \<Rightarrow> 'db rpc_context \<Rightarrow> rpc_answer \<times> 'db rpc_context" where
  "bridge_operations_recent X ctx =
     with_node ctx (\<lambda>n. Ok (JObj [(''operations'', JArr (map (asset_operation_view X)
       (take 1000 (rev (bt_values (st_asset_operation_records (nd_state n)))))))]))"

text \<open>What is known of an external chain is added to its section of the answer.\<close>

definition ethereum_connection :: "('b) bridge_ext_scheme \<Rightarrow> ethereum_config \<Rightarrow> (string \<times> json) list" where
  "ethereum_connection B c =
     (if ec_enabled c
      then (case (eth_chain_id B (ec_rpc_url c), eth_block_number B (ec_rpc_url c)) of
          (Inr chain, Inr block_number) \<Rightarrow>
            [(''connected'', JBool True), (''chain_id'', JStr chain), (''block_number'', jnat block_number)]
        | (chain_result, block_result) \<Rightarrow>
            [(''connected'', JBool False), (''error'', JStr (x_debug_ethereum B chain_result block_result))])
      else [(''connected'', JBool False),
        (''reason'', JStr ''set WSC_ETHEREUM_RPC_URL, WSC_ETHEREUM_BRIDGE_CONTRACT, and WSC_ETHEREUM_DEPOSIT_TOPIC to enable the testnet bridge'')])"

definition solana_connection :: "('b) bridge_ext_scheme \<Rightarrow> solana_config \<Rightarrow> (string \<times> json) list" where
  "solana_connection B c =
     (if sc_enabled c
      then (case (solana_health B (sc_rpc_url c), solana_slot B (sc_rpc_url c) (sc_commitment c)) of
          (Inr health, Inr slot) \<Rightarrow>
            [(''connected'', JBool (health = ''ok'')), (''health'', JStr health), (''slot'', jnat slot)]
        | (health_result, slot_result) \<Rightarrow>
            [(''connected'', JBool False), (''error'', JStr (x_debug_solana B health_result slot_result))])
      else [(''connected'', JBool False),
        (''reason'', JStr ''WSOL is disabled until SOL liquidity is funded; set WSC_SOLANA_MODE=custody and configure the vault to reactivate it'')])"

definition asset_summary :: "asset_definition \<Rightarrow> string \<Rightarrow> int \<Rightarrow> (string \<times> json) list" where
  "asset_summary d symbol decimals =
     [(''asset_id'', JStr (canonical_key (adef_id d))), (''symbol'', JStr symbol), (''decimals'', JNum decimals)]"

definition bridge_status :: "('b) bridge_ext_scheme \<Rightarrow> environment \<Rightarrow> json" where
  "bridge_status B vars =
     (let e = ethereum_from_env vars; u = ethereum_usdc_from_env vars; s = solana_from_env vars
      in JObj [
        (''ethereum'', JObj ([(''network'', JStr (ec_network e)), (''bridge_contract'', JStr (ec_bridge_contract e)),
          (''confirmations'', jnat (ec_confirmations e)), (''enabled'', JBool (ec_enabled e)),
          (''rpc_configured'', JBool (ec_rpc_url e \<noteq> [])),
          (''deposit_topic_configured'', JBool (ec_deposit_event_topic e \<noteq> []))] @ ethereum_connection B e)),
        (''usdc'', JObj [(''network'', JStr (uc_network u)), (''token_contract'', JStr (uc_token_contract u)),
          (''bridge_contract'', JStr (uc_bridge_contract u)), (''confirmations'', jnat (uc_confirmations u)),
          (''enabled'', JBool (uc_enabled u)), (''token_configured'', JBool (uc_token_contract u \<noteq> [])),
          (''deposit_topic_configured'', JBool (uc_deposit_event_topic u \<noteq> []))]),
        (''weth'', JObj (asset_summary (weth_definition e) ''WETH'' 18)),
        (''usdc_asset'', JObj (asset_summary (usdc_definition u) ''USDC'' 6)),
        (''solana'', JObj ([(''network'', JStr (sc_network s)), (''mode'', JStr (sc_mode s)),
          (''bridge_program'', JStr (sc_bridge_program s)), (''vault_address'', JStr (sc_vault_address s)),
          (''wsol_mint'', JStr (sc_wsol_mint s)), (''spl_usdc_mint'', JStr (sc_spl_usdc_mint s)),
          (''spl_usdc_vault_token_account'', JStr (sc_spl_usdc_vault_token_account s)),
          (''spl_usdc_enabled'', JBool (sc_spl_usdc_enabled s)), (''commitment'', JStr (sc_commitment s)),
          (''confirmations'', jnat (sc_confirmations s)), (''enabled'', JBool (sc_enabled s)),
          (''rpc_configured'', JBool (sc_rpc_url s \<noteq> []))] @ solana_connection B s)),
        (''wsol'', JObj (asset_summary (wsol_definition s) ''WSOL'' 9)),
        (''solana_usdc'', JObj (asset_summary (spl_usdc_definition s) ''USDC'' 6 @
          [(''enabled'', JBool (sc_spl_usdc_enabled s))]))])"

section \<open>The methods\<close>

definition login_answer :: "(rpc_error + json) \<times> 'db rpc_context \<Rightarrow> rpc_answer \<times> 'db rpc_context" where
  "login_answer r = (case r of (Inl e, ctx) \<Rightarrow> (Failure e, ctx) | (Inr v, ctx) \<Rightarrow> (Answer v, ctx))"

definition dispatch ::
    "('db, 'a) rpc_ext_scheme \<Rightarrow> ('b) bridge_ext_scheme \<Rightarrow> rpc_env \<Rightarrow> 'db rpc_context \<Rightarrow> string \<Rightarrow> json \<Rightarrow>
     rpc_answer \<times> 'db rpc_context" where
  "dispatch X B env ctx method params =
     (if method = ''it_build'' then it_build X ctx params
      else if method \<in> {''it_verify'', ''program_upload'', ''contract_upload''} then program_upload X ctx params
      else if method = ''program_deploy'' then rpc_program_deploy X ctx params
      else if method = ''program_close'' then rpc_program_close X ctx params
      else if method = ''program_get'' then program_get X ctx params
      else if method = ''program_list'' then program_list X ctx
      else if method = ''program_call'' then rpc_program_call X ctx params
      else if method = ''program_receipt'' then program_receipt X ctx params
      else if method = ''program_storage_get'' then program_storage_get X ctx params
      else if method = ''program_storage_set'' then rpc_program_storage_set X ctx params
      else if method \<in> {''node_status'', ''chain_info''} then chain_info X ctx
      else if method = ''bridge_status'' then (Answer (bridge_status B (en_vars env)), ctx)
      else if method = ''bridge_mint'' then bridge_asset_operation X env ctx params AssetMint
      else if method = ''bridge_burn'' then bridge_asset_operation X env ctx params AssetBurn
      else if method = ''bridge_operation_status'' then bridge_operation_status X ctx params
      else if method = ''bridge_operations_pending'' then bridge_operations_pending X ctx
      else if method = ''bridge_operations_recent'' then bridge_operations_recent X ctx
      else if method = ''mna_quote'' then mna_quote X ctx params
      else if method = ''mna_reserve_status'' then mna_reserve_status ctx
      else if method = ''sol_mna_quote'' then sol_mna_quote X env ctx params
      else if method = ''mna_swap_prepare'' then mna_swap_prepare X ctx params
      else if method = ''mna_swap_broadcast'' then mna_swap_broadcast X ctx params
      else if method = ''mna_swap_status'' then mna_swap_status X ctx params
      else if method \<in> {''mna_reserve_mint'', ''mna_reserve_release''} then mna_reserve_request X env ctx method params
      else if method = ''mna_reserve_status_recent'' then mna_reserve_recent X ctx
      else if method = ''token_operation_prepare'' then token_operation_prepare X ctx params
      else if method = ''token_operation_broadcast'' then token_operation_broadcast X ctx params
      else if method = ''token_operation_status'' then token_operation_status X ctx params
      else if method = ''token_list'' then token_list X ctx
      else if method = ''token_get'' then token_get X ctx params
      else if method = ''token_balance'' then rpc_token_balance X ctx params
      else if method = ''asset_list'' then asset_list X env ctx
      else if method = ''block_latest'' then rpc_block_latest X ctx
      else if method = ''block_get'' then rpc_block_get X ctx params
      else if method = ''block_get_by_height'' then rpc_block_get_by_height X ctx params
      else if method = ''transaction_get'' then rpc_transaction_get X ctx params
      else if method = ''transaction_status'' then rpc_transaction_status X ctx params
      else if method = ''transaction_broadcast'' then rpc_transaction_broadcast X ctx params
      else if method = ''devnet_faucet'' then devnet_faucet_request X ctx params
      else if method = ''account_get'' then account_get X ctx params
      else if method = ''mempool_status'' then mempool_status ctx
      else if method = ''validator_set'' then validator_set X ctx
      else if method = ''finality_status'' then finality_status X ctx
      else if method = ''auth_challenge'' then login_answer (create_challenge X env ctx params)
      else if method = ''auth_verify'' then login_answer (verify_challenge X env ctx params)
      else (Failure (-32601, ''method not found: '' @ method), ctx))"

section \<open>HTTP\<close>

text \<open>At most \<open>MAX_RPC_REQUESTS_PER_SECOND\<close> in a window, which starts anew once it is a second old.\<close>

definition allow_request :: "nat \<Rightarrow> rpc_metrics \<Rightarrow> bool \<times> rpc_metrics" where
  "allow_request now m =
     (let window = (if 1000 \<le> now - fst (rm_rate_window m) then (now, 0) else rm_rate_window m)
      in if MAX_RPC_REQUESTS_PER_SECOND \<le> snd window then (False, m\<lparr>rm_rate_window := window\<rparr>)
         else (True, m\<lparr>rm_rate_window := (fst window, snd window + 1)\<rparr>))"

record rpc_request =
  rq_jsonrpc :: string
  rq_id :: json
  rq_method :: string
  rq_params :: json

record rpc_response =
  rs_id :: json
  rs_result :: "json option"
  rs_error :: "rpc_error option"

definition error_response :: "json \<Rightarrow> int \<Rightarrow> string \<Rightarrow> rpc_response" where
  "error_response i code message = \<lparr>rs_id = i, rs_result = None, rs_error = Some (code, message)\<rparr>"

definition count_error :: "'db rpc_context \<Rightarrow> 'db rpc_context" where
  "count_error ctx = ctx\<lparr>rx_metrics := (rx_metrics ctx)\<lparr>rm_rpc_errors := rm_rpc_errors (rx_metrics ctx) + 1\<rparr>\<rparr>"

definition count_request :: "'db rpc_context \<Rightarrow> 'db rpc_context" where
  "count_request ctx = ctx\<lparr>rx_metrics := (rx_metrics ctx)\<lparr>rm_rpc_requests := rm_rpc_requests (rx_metrics ctx) + 1\<rparr>\<rparr>"

text \<open>A request whose handler panics gets no response: its connection is dropped.\<close>

definition handle_rpc ::
    "('db, 'a) rpc_ext_scheme \<Rightarrow> ('b) bridge_ext_scheme \<Rightarrow> rpc_env \<Rightarrow> 'db rpc_context \<Rightarrow> rpc_request \<Rightarrow>
     rpc_response option \<times> 'db rpc_context" where
  "handle_rpc X B env ctx rq =
     (case allow_request (en_instant env) (rx_metrics ctx) of
        (False, m) \<Rightarrow>
          (Some (error_response (rq_id rq) (-32029) ''RPC rate limit exceeded''), count_error (ctx\<lparr>rx_metrics := m\<rparr>))
      | (True, m) \<Rightarrow>
          let ctx = count_request (ctx\<lparr>rx_metrics := m\<rparr>)
          in if rq_jsonrpc rq \<noteq> ''2.0'' then (Some (error_response (rq_id rq) (-32600) ''jsonrpc must be 2.0''), ctx)
             else case dispatch X B env ctx (rq_method rq) (rq_params rq) of
               (Failure (code, message), ctx') \<Rightarrow> (Some (error_response (rq_id rq) code message), count_error ctx')
             | (Answer v, ctx') \<Rightarrow> (Some \<lparr>rs_id = rq_id rq, rs_result = Some v, rs_error = None\<rparr>, ctx')
             | (Panicked, ctx') \<Rightarrow> (None, ctx'))"

definition handle_health :: "('db, 'a) storage_ext_scheme \<Rightarrow> 'db rpc_context \<Rightarrow> nat \<times> json" where
  "handle_health X ctx =
     (if rx_poisoned ctx then (503, JObj [(''status'', JStr ''unavailable'')])
      else let n = rx_node ctx in
        (200, JObj [(''status'', JStr ''ok''), (''chain_id'', JStr (nc_chain_id (nd_config n))),
           (''height'', jnat (node_height n)),
           (''finalized_height'', jnat (case node_finalized_height X n of Inl _ \<Rightarrow> 0 | Inr h \<Rightarrow> h))]))"

text \<open>The numbers of the metrics page, in its order.\<close>

definition handle_metrics ::
    "('db, 'a) storage_ext_scheme \<Rightarrow> nat \<Rightarrow> network_metrics \<Rightarrow> 'db rpc_context \<Rightarrow> nat list" where
  "handle_metrics X now net ctx =
     (let m = rx_metrics ctx; n = rx_node ctx;
          (height, finalized) =
            (if rx_poisoned ctx then (0, 0)
             else (node_height n, case node_finalized_height X n of Inl _ \<Rightarrow> 0 | Inr h \<Rightarrow> h))
      in [unat (rm_rpc_requests m), unat (rm_rpc_errors m), unat (rm_transactions_broadcast m), unat (rm_blocks_produced m),
          unat (nm_peer_connections net), unat (nm_blocks_imported net), unat (nm_transactions_relayed net),
          unat (nm_votes_received net), unat height, unat finalized, (now - rm_started_at m) div 1000])"

section \<open>The producer\<close>

text \<open>One turn of the production loop; a poisoned lock is skipped, and an error is only logged.\<close>

definition producer_tick ::
    "('db, 'a) rpc_ext_scheme \<Rightarrow> u64 \<Rightarrow> key_pair option \<Rightarrow> 'db rpc_context \<Rightarrow> 'db rpc_context" where
  "producer_tick X now proposer ctx =
     (if rx_poisoned ctx then ctx
      else if (case proposer of None \<Rightarrow> False | Some key \<Rightarrow> \<not> is_expected_proposer (rx_node ctx) (kp_public_key X key)) then ctx
      else case produce_block X now (rx_node ctx) proposer of
        (r, n) \<Rightarrow>
          ctx\<lparr>rx_node := n,
            rx_metrics := (if is_ok r then (rx_metrics ctx)\<lparr>rm_blocks_produced := rm_blocks_produced (rx_metrics ctx) + 1\<rparr>
                           else rx_metrics ctx)\<rparr>)"

end
