(* ===== verification/Rpc_Safety.thy ===== *)
theory Rpc_Safety
  imports Rpc_Service
begin

text \<open>
  What the RPC server can do to the node: every request is at most one submission, of the kind its
  method stands for; so no request touches the chain. A handler that panics poisons the lock, and
  behind a poisoned lock no request does anything to the node.
\<close>

section \<open>Handlers as submissions\<close>

named_theorems effect_intro \<open>what a combinator of the handlers does to the node\<close>

text \<open>The token of the operator that a request carries, and whether it is the operator's.\<close>

definition presented_token :: "('db, 'a) rpc_ext_scheme \<Rightarrow> string \<Rightarrow> json \<Rightarrow> string option" where
  "presented_token X method params =
     (if method \<in> {''bridge_mint'', ''bridge_burn''}
      then (case x_params_bridge X params of Inl _ \<Rightarrow> None | Inr p \<Rightarrow> Some (bop_operator_token p))
      else (case x_params_reserve X params of Inl _ \<Rightarrow> None | Inr p \<Rightarrow> Some (mrp_operator_token p)))"

definition from_operator :: "('db, 'a) rpc_ext_scheme \<Rightarrow> environment \<Rightarrow> string \<Rightarrow> json \<Rightarrow> bool" where
  "from_operator X vars method params =
     (case presented_token X method params of None \<Rightarrow> False | Some token \<Rightarrow> operator_authorized vars token)"

text \<open>The call of the node that a request may lead to.\<close>

definition allowed_call ::
    "('db, 'a) rpc_ext_scheme \<Rightarrow> environment \<Rightarrow> string \<Rightarrow> json \<Rightarrow> node_call \<Rightarrow> bool" where
  "allowed_call X vars method params c =
     (case c of
        SubmitTransaction tx \<Rightarrow>
          method = ''transaction_broadcast'' \<or>
          method = ''devnet_faucet'' \<and> utx_nonce (tx_unsigned tx) = 0 \<and> utx_amount (tx_unsigned tx) \<le> MAX_FAUCET_AMOUNT \<and>
          utx_public_key (tx_unsigned tx) = kp_public_key X devnet_faucet
      | SubmitAsset op \<Rightarrow>
          (method = ''bridge_mint'' \<and> ao_kind op = AssetMint \<or> method = ''bridge_burn'' \<and> ao_kind op = AssetBurn) \<and>
          from_operator X vars method params \<and> ao_amount op \<noteq> 0 \<and> asset_namespace (ao_asset_id op) \<noteq> ''worldstreet''
      | SubmitToken op \<Rightarrow> method = ''token_operation_broadcast''
      | SubmitSwap op \<Rightarrow> method = ''mna_swap_broadcast''
      | SubmitReserve op \<Rightarrow>
          (method = ''mna_reserve_mint'' \<and> ro_kind op = VerifyDeposit \<or>
           method = ''mna_reserve_release'' \<and> ro_kind op = Release) \<and>
          from_operator X vars method params
      | SubmitProgram op \<Rightarrow>
          method = ''program_deploy'' \<and> po_kind op = ProgramDeploy \<or> method = ''program_close'' \<and> po_kind op = ProgramClose \<or>
          method = ''program_call'' \<and> po_kind op = ProgramCall \<and> po_gas_limit op \<noteq> 0 \<or>
          method = ''program_storage_set'' \<and> po_kind op = ProgramStorageSet
      | _ \<Rightarrow> False)"

definition effect_ok ::
    "('db, 'a) rpc_ext_scheme \<Rightarrow> vote_encoder \<Rightarrow> (node_call \<Rightarrow> bool) \<Rightarrow> 'db node \<Rightarrow> 'db node \<Rightarrow> bool" where
  "effect_ok X enc allowed n n' \<longleftrightarrow> n' = n \<or> (\<exists>c. allowed c \<and> n' = snd (node_run X enc n c))"

lemma effect_refl [effect_intro]: "effect_ok X enc P n n"
  by (simp add: effect_ok_def)

lemma effect_call: "P c \<Longrightarrow> n' = snd (node_run X enc n c) \<Longrightarrow> effect_ok X enc P n n'"
  by (auto simp: effect_ok_def)

lemma effect_calls:
  "P (SubmitTransaction tx) \<Longrightarrow> effect_ok X enc P n (snd (submit_transaction X n tx))"
  "P (SubmitAsset a) \<Longrightarrow> effect_ok X enc P n (snd (submit_asset_operation n a))"
  "P (SubmitToken t) \<Longrightarrow> effect_ok X enc P n (snd (submit_token_operation X n t))"
  "P (SubmitSwap s) \<Longrightarrow> effect_ok X enc P n (snd (submit_mna_swap X n s))"
  "P (SubmitReserve r) \<Longrightarrow> effect_ok X enc P n (snd (submit_mna_reserve_operation X n r))"
  "P (SubmitProgram p) \<Longrightarrow> effect_ok X enc P n (snd (submit_program_operation X n p))"
  by (erule effect_call, simp add: node_run_def)+

lemma effect_attempt [effect_intro]:
  assumes "\<And>v. r = Inr v \<Longrightarrow> effect_ok X enc P (rx_node ctx) (rx_node (snd (f v)))"
  shows "effect_ok X enc P (rx_node ctx) (rx_node (snd (attempt r ctx f)))"
  using assms by (cases r) (simp_all add: attempt_def effect_refl)

lemma node_with_node [simp]: "rx_node (snd (with_node ctx f)) = rx_node ctx"
  by (simp add: with_node_def split: sum.split)

lemma node_with_lock [simp]: "rx_node (snd (with_lock ctx f)) = rx_node ctx"
  by (simp add: with_lock_def split: sum.split)

lemma effect_with_node_mut [effect_intro]:
  assumes "effect_ok X enc P (rx_node ctx) (snd (f (rx_node ctx)))"
  shows "effect_ok X enc P (rx_node ctx) (rx_node (snd (with_node_mut ctx f)))"
  using assms by (cases "f (rx_node ctx)") (auto simp: with_node_mut_def effect_refl split: sum.split)

lemma snd_submitted [simp]: "snd (submitted r f) = snd r"
  by (auto simp: submitted_def split: prod.split sum.split)

lemma node_count_broadcast [simp]: "rx_node (snd (count_broadcast r)) = rx_node (snd r)"
  by (auto simp: count_broadcast_def split: prod.split rpc_answer.split)

text \<open>The handlers that submit.\<close>

lemma make_program_operation_kind:
  "make_program_operation X kind pid package gas key entry pk sig nonce fee = Inr op \<Longrightarrow> po_kind op = kind \<and> po_gas_limit op = gas"
  by (auto simp: make_program_operation_def split: sum.splits)

lemma program_effects:
  "method = ''program_deploy'' \<Longrightarrow>
     effect_ok X enc (allowed_call X vars method params) (rx_node ctx) (rx_node (snd (rpc_program_deploy X ctx params)))"
  "method = ''program_close'' \<Longrightarrow>
     effect_ok X enc (allowed_call X vars method params) (rx_node ctx) (rx_node (snd (rpc_program_close X ctx params)))"
  "method = ''program_call'' \<Longrightarrow>
     effect_ok X enc (allowed_call X vars method params) (rx_node ctx) (rx_node (snd (rpc_program_call X ctx params)))"
  "method = ''program_storage_set'' \<Longrightarrow>
     effect_ok X enc (allowed_call X vars method params) (rx_node ctx) (rx_node (snd (rpc_program_storage_set X ctx params)))"
  unfolding rpc_program_deploy_def rpc_program_close_def rpc_program_call_def rpc_program_storage_set_def submit_program_def
  by (intro effect_intro; (split if_split, intro conjI impI)?; simp?;
      (intro effect_intro)?; simp?; intro effect_calls; auto simp: allowed_call_def dest!: make_program_operation_kind)+

lemma parse_asset_id_namespace: "parse_asset_id t = Inr a \<Longrightarrow> asset_namespace a \<noteq> ''worldstreet''"
  by (auto simp: parse_asset_id_def wrapped_asset_def split: prod.splits if_splits option.splits)

lemma parse_params_Inr: "parse_params r = Inr p \<longleftrightarrow> r = Inr p"
  by (cases r) (simp_all add: parse_params_def)

lemma from_operator_bridge:
  "x_params_bridge X params = Inr p \<Longrightarrow> operator_authorized vars (bop_operator_token p) \<Longrightarrow>
    method \<in> {''bridge_mint'', ''bridge_burn''} \<Longrightarrow> from_operator X vars method params"
  by (auto simp: from_operator_def presented_token_def)

lemma from_operator_reserve:
  "x_params_reserve X params = Inr p \<Longrightarrow> operator_authorized vars (mrp_operator_token p) \<Longrightarrow>
    method \<in> {''mna_reserve_mint'', ''mna_reserve_release''} \<Longrightarrow> from_operator X vars method params"
  by (auto simp: from_operator_def presented_token_def)

lemma bridge_effect:
  assumes "method = (if kind = AssetMint then ''bridge_mint'' else ''bridge_burn'')"
  shows "effect_ok X enc (allowed_call X (en_vars env) method params) (rx_node ctx)
    (rx_node (snd (bridge_asset_operation X env ctx params kind)))"
  unfolding bridge_asset_operation_def
proof (intro effect_attempt)
  fix p
  assume "parse_params (x_params_bridge X params) = Inr p"
  then have p: "x_params_bridge X params = Inr p" by (simp add: parse_params_Inr)
  show "effect_ok X enc (allowed_call X (en_vars env) method params) (rx_node ctx) (rx_node (snd
    (if \<not> operator_authorized (en_vars env) (bop_operator_token p) then (Failure operator_error, ctx)
       else attempt (parse_hash X (bop_operation_id p)) ctx (\<lambda>operation_id.
            attempt (parse_asset_id (bop_asset_id p)) ctx (\<lambda>asset.
            attempt (parse_address X (bop_address p)) ctx (\<lambda>a.
            attempt (bad_params (parse_amount ''amount'' (bop_amount p))) ctx (\<lambda>amount.
              if amount = 0 then (Failure (-32602, ''amount must be greater than zero''), ctx)
              else with_node_mut ctx (\<lambda>n. submitted
                (submit_asset_operation n
                  \<lparr>ao_version = 1, ao_operation_id = operation_id, ao_kind = kind, ao_asset_id = asset, ao_address = a,
                   ao_destination = bop_destination p, ao_amount = amount,
                   ao_external_transaction = bop_external_transaction p, ao_memo = bop_memo p\<rparr>)
                (\<lambda>h. JObj [(''operation_id'', jhash h), (''status'', JStr ''queued''), (''kind'', JStr (asset_kind_text kind))])))))))))"
  proof (cases "operator_authorized (en_vars env) (bop_operator_token p)")
    case True
    have op: "from_operator X (en_vars env) method params"
      using from_operator_bridge [OF p True] assms by simp
    have allowed: "asset_namespace a \<noteq> ''worldstreet'' \<Longrightarrow> amount \<noteq> 0 \<Longrightarrow> allowed_call X (en_vars env) method params
      (SubmitAsset \<lparr>ao_version = 1, ao_operation_id = i, ao_kind = kind, ao_asset_id = a, ao_address = ad,
        ao_destination = d, ao_amount = amount, ao_external_transaction = t, ao_memo = m\<rparr>)" for a amount i ad d t m
      using assms op by (cases kind) (simp_all add: allowed_call_def)
    show ?thesis using True
      by (auto intro!: effect_intro effect_calls allowed dest!: parse_asset_id_namespace)
  qed (simp add: effect_refl)
qed

lemma reserve_operation_kind: "reserve_operation X kind p = Inr op \<Longrightarrow> ro_kind op = kind \<and> ro_operation_id op = HASH_ZERO"
  by (auto simp: reserve_operation_def split: sum.splits)

lemma reserve_effect:
  assumes "method \<in> {''mna_reserve_mint'', ''mna_reserve_release''}"
  shows "effect_ok X enc (allowed_call X (en_vars env) method params) (rx_node ctx)
    (rx_node (snd (mna_reserve_request X env ctx method params)))"
proof -
  have suffix: "str_suffix ''mint'' method \<longleftrightarrow> method = ''mna_reserve_mint''"
    using assms by (auto simp: str_suffix_def)
  have allowed: "allowed_call X (en_vars env) method params (SubmitReserve (op\<lparr>ro_operation_id := h\<rparr>))"
    if "x_params_reserve X params = Inr p" "operator_authorized (en_vars env) (mrp_operator_token p)"
      "reserve_operation X (if str_suffix ''mint'' method then VerifyDeposit else Release) p = Inr op" for p op h
    using that(3) from_operator_reserve [OF that(1,2) assms] assms
    by (auto simp: allowed_call_def suffix dest!: reserve_operation_kind split: if_splits)
  show ?thesis
    unfolding mna_reserve_request_def
  proof (rule effect_attempt)
    fix p
    assume "parse_params (x_params_reserve X params) = Inr p"
    then have p: "x_params_reserve X params = Inr p" by (simp add: parse_params_Inr)
    show "effect_ok X enc (allowed_call X (en_vars env) method params) (rx_node ctx) (rx_node (snd
      (if \<not> operator_authorized (en_vars env) (mrp_operator_token p) then (Failure operator_error, ctx)
       else attempt (reserve_operation X (if str_suffix ''mint'' method then VerifyDeposit else Release) p) ctx (\<lambda>op0.
            attempt (map_err (\<lambda>e. (-32000, crypto_error_string e)) (mna_reserve_operation_id X op0)) ctx (\<lambda>h.
              with_node_mut ctx (\<lambda>n. submitted (submit_mna_reserve_operation X n (op0\<lparr>ro_operation_id := h\<rparr>))
                (\<lambda>_. queued_answer h)))))))"
    proof (cases "operator_authorized (en_vars env) (mrp_operator_token p)")
      case True
      have "effect_ok X enc (allowed_call X (en_vars env) method params) (rx_node ctx) (rx_node (snd
        (attempt (reserve_operation X (if str_suffix ''mint'' method then VerifyDeposit else Release) p) ctx (\<lambda>op0.
            attempt (map_err (\<lambda>e. (-32000, crypto_error_string e)) (mna_reserve_operation_id X op0)) ctx (\<lambda>h.
              with_node_mut ctx (\<lambda>n. submitted (submit_mna_reserve_operation X n (op0\<lparr>ro_operation_id := h\<rparr>))
                (\<lambda>_. queued_answer h)))))))"
        by (intro effect_intro, unfold snd_submitted, intro effect_calls allowed [OF p True])
      with True show ?thesis by simp
    qed (simp add: effect_refl)
  qed
qed

lemma token_effect:
  "effect_ok X enc (allowed_call X vars ''token_operation_broadcast'' params) (rx_node ctx)
    (rx_node (snd (token_operation_broadcast X ctx params)))"
  unfolding token_operation_broadcast_def
  by (auto intro!: effect_intro effect_calls simp: allowed_call_def split: sum.splits)

lemma swap_effect_ok:
  "effect_ok X enc (allowed_call X vars ''mna_swap_broadcast'' params) (rx_node ctx)
    (rx_node (snd (mna_swap_broadcast X ctx params)))"
  unfolding mna_swap_broadcast_def by (auto intro!: effect_intro effect_calls simp: allowed_call_def)

lemma broadcast_effect:
  "effect_ok X enc (allowed_call X vars ''transaction_broadcast'' params) (rx_node ctx)
    (rx_node (snd (rpc_transaction_broadcast X ctx params)))"
  unfolding rpc_transaction_broadcast_def
  by (auto intro!: effect_intro effect_calls simp: allowed_call_def split: sum.splits)

lemma faucet_effect:
  "effect_ok X enc (allowed_call X vars ''devnet_faucet'' params) (rx_node ctx)
    (rx_node (snd (devnet_faucet_request X ctx params)))"
  unfolding devnet_faucet_request_def
  by (auto intro!: effect_intro effect_calls simp: allowed_call_def faucet_unsigned_def Let_def not_less split: sum.splits)

text \<open>The others.\<close>

lemma create_challenge_node: "rx_node (snd (create_challenge X env ctx params)) = rx_node ctx"
  by (simp add: create_challenge_def Let_def split: sum.split)

lemma verify_challenge_node: "rx_node (snd (verify_challenge X env ctx params)) = rx_node ctx"
  by (simp add: verify_challenge_def verify_finish_def Let_def split: sum.split)

lemma node_login_answer [simp]: "rx_node (snd (login_answer r)) = rx_node (snd r)"
  by (simp add: login_answer_def split: prod.split sum.split)

lemma node_attempt:
  "(\<And>v. r = Inr v \<Longrightarrow> rx_node (snd (f v)) = rx_node ctx) \<Longrightarrow> rx_node (snd (attempt r ctx f)) = rx_node ctx"
  by (cases r) (simp_all add: attempt_def)

lemmas reader_defs =
  it_build_def program_upload_def program_get_def program_list_def program_receipt_def program_storage_get_def
  chain_info_def bridge_operation_status_def bridge_operations_pending_def bridge_operations_recent_def mna_quote_def
  mna_reserve_status_def sol_mna_quote_def mna_swap_prepare_def mna_swap_status_def mna_reserve_recent_def
  token_operation_prepare_def token_operation_status_def token_list_def token_get_def rpc_token_balance_def asset_list_def
  rpc_block_latest_def rpc_block_get_def rpc_block_get_by_height_def rpc_transaction_get_def rpc_transaction_status_def
  account_get_def mempool_status_def validator_set_def finality_status_def

lemma reader_nodes [simp]:
  "rx_node (snd (it_build X ctx params)) = rx_node ctx" "rx_node (snd (program_upload X ctx params)) = rx_node ctx"
  "rx_node (snd (program_get X ctx params)) = rx_node ctx" "rx_node (snd (program_list X ctx)) = rx_node ctx"
  "rx_node (snd (program_receipt X ctx params)) = rx_node ctx" "rx_node (snd (program_storage_get X ctx params)) = rx_node ctx"
  "rx_node (snd (chain_info X ctx)) = rx_node ctx" "rx_node (snd (bridge_operation_status X ctx params)) = rx_node ctx"
  "rx_node (snd (bridge_operations_pending X ctx)) = rx_node ctx" "rx_node (snd (bridge_operations_recent X ctx)) = rx_node ctx"
  "rx_node (snd (mna_quote X ctx params)) = rx_node ctx" "rx_node (snd (mna_reserve_status ctx)) = rx_node ctx"
  "rx_node (snd (sol_mna_quote X env ctx params)) = rx_node ctx" "rx_node (snd (mna_swap_prepare X ctx params)) = rx_node ctx"
  "rx_node (snd (mna_swap_status X ctx params)) = rx_node ctx" "rx_node (snd (mna_reserve_recent X ctx)) = rx_node ctx"
  "rx_node (snd (token_operation_prepare X ctx params)) = rx_node ctx" "rx_node (snd (token_operation_status X ctx params)) = rx_node ctx"
  "rx_node (snd (token_list X ctx)) = rx_node ctx" "rx_node (snd (token_get X ctx params)) = rx_node ctx"
  "rx_node (snd (rpc_token_balance X ctx params)) = rx_node ctx" "rx_node (snd (asset_list X env ctx)) = rx_node ctx"
  "rx_node (snd (rpc_block_latest X ctx)) = rx_node ctx" "rx_node (snd (rpc_block_get X ctx params)) = rx_node ctx"
  "rx_node (snd (rpc_block_get_by_height X ctx params)) = rx_node ctx" "rx_node (snd (rpc_transaction_get X ctx params)) = rx_node ctx"
  "rx_node (snd (rpc_transaction_status X ctx params)) = rx_node ctx" "rx_node (snd (account_get X ctx params)) = rx_node ctx"
  "rx_node (snd (mempool_status ctx)) = rx_node ctx" "rx_node (snd (validator_set X ctx)) = rx_node ctx"
  "rx_node (snd (finality_status X ctx)) = rx_node ctx"
  by (unfold reader_defs Let_def, (auto intro!: node_attempt split: option.split))

lemma effect_refl_eq: "n' = n \<Longrightarrow> effect_ok X enc P n n'"
  by (simp add: effect_ok_def)

lemma effect_if:
  "(c \<Longrightarrow> effect_ok X enc P n (rx_node (snd a))) \<Longrightarrow> effect_ok X enc P n (rx_node (snd b)) \<Longrightarrow>
    effect_ok X enc P n (rx_node (snd (if c then a else b)))"
  by simp

lemma dispatch_effect:
  "effect_ok X enc (allowed_call X (en_vars env) method params) (rx_node ctx)
    (rx_node (snd (dispatch X B env ctx method params)))"
  unfolding dispatch_def
proof (intro effect_if)
  assume "method = ''program_deploy''"
  then show "effect_ok X enc (allowed_call X (en_vars env) method params) (rx_node ctx) (rx_node (snd (rpc_program_deploy X ctx params)))"
    by (rule program_effects)
next
  assume "method = ''program_close''"
  then show "effect_ok X enc (allowed_call X (en_vars env) method params) (rx_node ctx) (rx_node (snd (rpc_program_close X ctx params)))"
    by (rule program_effects)
next
  assume "method = ''program_call''"
  then show "effect_ok X enc (allowed_call X (en_vars env) method params) (rx_node ctx) (rx_node (snd (rpc_program_call X ctx params)))"
    by (rule program_effects)
next
  assume "method = ''program_storage_set''"
  then show "effect_ok X enc (allowed_call X (en_vars env) method params) (rx_node ctx) (rx_node (snd (rpc_program_storage_set X ctx params)))"
    by (rule program_effects)
next
  assume "method = ''bridge_mint''"
  then show "effect_ok X enc (allowed_call X (en_vars env) method params) (rx_node ctx)
    (rx_node (snd (bridge_asset_operation X env ctx params AssetMint)))"
    by (intro bridge_effect) simp
next
  assume "method = ''bridge_burn''"
  then show "effect_ok X enc (allowed_call X (en_vars env) method params) (rx_node ctx)
    (rx_node (snd (bridge_asset_operation X env ctx params AssetBurn)))"
    by (intro bridge_effect) simp
qed (simp_all add: effect_refl create_challenge_node verify_challenge_node reserve_effect token_effect swap_effect_ok
    broadcast_effect faucet_effect)

section \<open>What a request can do\<close>

lemma rx_node_counts [simp]: "rx_node (count_error ctx) = rx_node ctx" "rx_node (count_request ctx) = rx_node ctx"
  "rx_poisoned (count_error ctx) = rx_poisoned ctx" "rx_poisoned (count_request ctx) = rx_poisoned ctx"
  by (simp_all add: count_error_def count_request_def)

lemma request_effect:
  "effect_ok X enc (allowed_call X (en_vars env) (rq_method rq) (rq_params rq)) (rx_node ctx)
    (rx_node (snd (handle_rpc X B env ctx rq)))"
proof -
  have "effect_ok X enc (allowed_call X (en_vars env) (rq_method rq) (rq_params rq)) (rx_node ctx) (rx_node ctx')"
    if "dispatch X B env (count_request (ctx\<lparr>rx_metrics := m\<rparr>)) (rq_method rq) (rq_params rq) = (r, ctx')" for m r ctx'
    using dispatch_effect [of X enc env "rq_method rq" "rq_params rq" "count_request (ctx\<lparr>rx_metrics := m\<rparr>)" B] that by simp
  then show ?thesis
    by (auto simp: handle_rpc_def Let_def effect_refl split: prod.splits rpc_answer.splits bool.splits)
qed

lemma allowed_call_frame:
  assumes "allowed_call X vars method params c"
  shows "nd_store (snd (node_run X enc n c)) = nd_store n" "nd_state (snd (node_run X enc n c)) = nd_state n"
    "nd_latest_block (snd (node_run X enc n c)) = nd_latest_block n"
  using assms
  by (cases c; simp add: allowed_call_def node_run_def submit_transaction_def submit_asset_operation_def
      submit_token_operation_def submit_mna_swap_def submit_mna_reserve_operation_def submit_program_operation_def
      split: sum.split prod.split)+

text \<open>
  C23. The server refines the node: a request is no call of the node or one submission, of the kind that
  its method stands for, where the bridge and the reserve need the operator's token. So no request
  changes the store, the state or the latest block.
\<close>

theorem requests_are_submissions:
  "(rx_node (snd (handle_rpc X B env ctx rq)) = rx_node ctx \<or>
    (\<exists>c. allowed_call X (en_vars env) (rq_method rq) (rq_params rq) c \<and>
         rx_node (snd (handle_rpc X B env ctx rq)) = snd (node_run X enc (rx_node ctx) c))) \<and>
   nd_store (rx_node (snd (handle_rpc X B env ctx rq))) = nd_store (rx_node ctx) \<and>
   nd_state (rx_node (snd (handle_rpc X B env ctx rq))) = nd_state (rx_node ctx) \<and>
   nd_latest_block (rx_node (snd (handle_rpc X B env ctx rq))) = nd_latest_block (rx_node ctx)"
  using request_effect [of X enc env rq ctx B] allowed_call_frame [of X "en_vars env" "rq_method rq" "rq_params rq"]
  by (auto simp: effect_ok_def)

section \<open>A handler that panics\<close>

text \<open>Behind a poisoned lock nothing changes any more.\<close>

definition frozen :: "'db rpc_context \<Rightarrow> rpc_answer \<times> 'db rpc_context \<Rightarrow> bool" where
  "frozen ctx r \<longleftrightarrow> rx_poisoned (snd r) \<and> rx_node (snd r) = rx_node ctx"

lemma frozen_attempt:
  "rx_poisoned ctx \<Longrightarrow> (\<And>v. r = Inr v \<Longrightarrow> frozen ctx (f v)) \<Longrightarrow> frozen ctx (attempt r ctx f)"
  by (cases r) (simp_all add: attempt_def frozen_def)

lemma frozen_refl: "rx_poisoned ctx \<Longrightarrow> frozen ctx (r, ctx)"
  by (simp add: frozen_def)

lemma frozen_lock:
  "rx_poisoned ctx \<Longrightarrow> frozen ctx (with_node ctx f)" "rx_poisoned ctx \<Longrightarrow> frozen ctx (with_lock ctx g)"
  "rx_poisoned ctx \<Longrightarrow> frozen ctx (with_node_mut ctx u)"
  by (simp_all add: with_node_def with_lock_def with_node_mut_def frozen_def)

lemma frozen_if: "frozen ctx a \<Longrightarrow> frozen ctx b \<Longrightarrow> frozen ctx (if c then a else b)"
  by simp

lemma frozen_option: "frozen ctx a \<Longrightarrow> (\<And>v. frozen ctx (f v)) \<Longrightarrow> frozen ctx (case x of None \<Rightarrow> a | Some v \<Rightarrow> f v)"
  by (cases x) simp_all

lemma frozen_prod: "(\<And>a b. frozen ctx (f a b)) \<Longrightarrow> frozen ctx (case x of (a, b) \<Rightarrow> f a b)"
  by (cases x) simp

lemma frozen_program_upload: "rx_poisoned ctx \<Longrightarrow> frozen ctx (program_upload X ctx params)"
  unfolding program_upload_def Let_def by (intro frozen_attempt) (simp_all add: frozen_def)

lemma frozen_count: "frozen ctx r \<Longrightarrow> frozen ctx (count_broadcast r)"
  by (auto simp: frozen_def count_broadcast_def split: prod.splits rpc_answer.splits)

lemma frozen_login:
  "rx_poisoned ctx \<Longrightarrow> frozen ctx (login_answer (create_challenge X env ctx params))"
  "rx_poisoned ctx \<Longrightarrow> frozen ctx (login_answer (verify_challenge X env ctx params))"
  by (auto simp: frozen_def login_answer_def create_challenge_def verify_challenge_def verify_finish_def Let_def
      split: sum.split prod.split)

lemmas frozen_rules = frozen_attempt frozen_if frozen_option frozen_prod frozen_count frozen_lock frozen_refl
  frozen_program_upload frozen_login

lemmas writer_defs =
  rpc_program_deploy_def rpc_program_close_def rpc_program_call_def rpc_program_storage_set_def submit_program_def
  bridge_asset_operation_def mna_swap_broadcast_def mna_reserve_request_def token_operation_broadcast_def
  rpc_transaction_broadcast_def devnet_faucet_request_def

lemma frozen_readers:
  assumes "rx_poisoned ctx"
  shows "frozen ctx (it_build X ctx params)"
    and "frozen ctx (program_get X ctx params)"
    and "frozen ctx (program_list X ctx)"
    and "frozen ctx (program_receipt X ctx params)"
    and "frozen ctx (program_storage_get X ctx params)"
    and "frozen ctx (chain_info X ctx)"
    and "frozen ctx (bridge_operation_status X ctx params)"
    and "frozen ctx (bridge_operations_pending X ctx)"
    and "frozen ctx (bridge_operations_recent X ctx)"
    and "frozen ctx (mna_quote X ctx params)"
    and "frozen ctx (mna_reserve_status ctx)"
    and "frozen ctx (sol_mna_quote X env ctx params)"
    and "frozen ctx (mna_swap_prepare X ctx params)"
    and "frozen ctx (mna_swap_status X ctx params)"
    and "frozen ctx (mna_reserve_recent X ctx)"
    and "frozen ctx (token_operation_prepare X ctx params)"
    and "frozen ctx (token_operation_status X ctx params)"
    and "frozen ctx (token_list X ctx)"
    and "frozen ctx (token_get X ctx params)"
    and "frozen ctx (rpc_token_balance X ctx params)"
    and "frozen ctx (asset_list X env ctx)"
    and "frozen ctx (rpc_block_latest X ctx)"
    and "frozen ctx (rpc_block_get X ctx params)"
    and "frozen ctx (rpc_block_get_by_height X ctx params)"
    and "frozen ctx (rpc_transaction_get X ctx params)"
    and "frozen ctx (rpc_transaction_status X ctx params)"
    and "frozen ctx (account_get X ctx params)"
    and "frozen ctx (mempool_status ctx)"
    and "frozen ctx (validator_set X ctx)"
    and "frozen ctx (finality_status X ctx)"
  by (unfold reader_defs Let_def; intro frozen_rules assms)+

lemma frozen_writers:
  assumes "rx_poisoned ctx"
  shows "frozen ctx (rpc_program_deploy X ctx params)"
    and "frozen ctx (rpc_program_close X ctx params)"
    and "frozen ctx (rpc_program_call X ctx params)"
    and "frozen ctx (rpc_program_storage_set X ctx params)"
    and "frozen ctx (bridge_asset_operation X env ctx params kind)"
    and "frozen ctx (mna_swap_broadcast X ctx params)"
    and "frozen ctx (mna_reserve_request X env ctx method params)"
    and "frozen ctx (token_operation_broadcast X ctx params)"
    and "frozen ctx (rpc_transaction_broadcast X ctx params)"
    and "frozen ctx (devnet_faucet_request X ctx params)"
  by (unfold writer_defs Let_def; intro frozen_rules assms)+

lemma frozen_dispatch:
  assumes "rx_poisoned ctx"
  shows "frozen ctx (dispatch X B env ctx method params)"
  unfolding dispatch_def
  by (intro frozen_if frozen_readers frozen_writers frozen_program_upload frozen_login frozen_refl assms)

lemma frozen_request:
  assumes "rx_poisoned ctx"
  shows "rx_poisoned (snd (handle_rpc X B env ctx rq)) \<and> rx_node (snd (handle_rpc X B env ctx rq)) = rx_node ctx"
proof -
  have "rx_poisoned ctx' \<and> rx_node ctx' = rx_node ctx"
    if "dispatch X B env (count_request (ctx\<lparr>rx_metrics := m\<rparr>)) (rq_method rq) (rq_params rq) = (r, ctx')" for m r ctx'
    using frozen_dispatch [of "count_request (ctx\<lparr>rx_metrics := m\<rparr>)" X B env "rq_method rq" "rq_params rq"] that assms
    by (simp add: frozen_def)
  then show ?thesis using assms
    by (auto simp: handle_rpc_def Let_def split: prod.splits rpc_answer.splits bool.splits)
qed

lemma representable_balances:
  "representable (balances_view m) \<longleftrightarrow> (\<forall>k v. bt_get m k = Some v \<longrightarrow> unat v < 2 ^ 64)"
proof -
  have small: "uint v < 2 ^ 64 \<longleftrightarrow> unat v < 2 ^ 64" and nonneg: "- (2 ^ 63) \<le> uint v" for v :: u128
  proof -
    show "uint v < 2 ^ 64 \<longleftrightarrow> unat v < 2 ^ 64"
      using nat_less_iff [OF uint_ge_0, of v "2 ^ 64"] by auto
    show "- (2 ^ 63) \<le> uint v" by (rule order_trans [OF _ uint_ge_0]) simp
  qed
  have "representable (balances_view m) \<longleftrightarrow> (\<forall>p \<in> set (bt_entries m). unat (snd p) < 2 ^ 64)"
    unfolding balances_view_def jnat_def representable.simps using small nonneg by (auto simp: split_beta)
  then show ?thesis by (auto simp: bt_get_def map_of_eq_Some_iff [OF bt_entries_distinct])
qed

text \<open>
  A query for an account that holds at least \<open>2 ^ 64\<close> units of some asset gets no response and poisons the lock.
\<close>

lemma large_balance_poisons:
  assumes "x_params_address X (rq_params rq) = Ok t" and "parse_address X t = Ok a"
    and "bt_get (node_asset_balances (rx_node ctx) a) k = Some v" and "2 ^ 64 \<le> unat v"
    and "rq_method rq = ''account_get''" and "rq_jsonrpc rq = ''2.0''" and "fst (allow_request (en_instant env) (rx_metrics ctx))"
    and "\<not> rx_poisoned ctx" and "handle_rpc X B env ctx rq = (response, ctx1)"
  shows "response = None \<and> rx_node ctx1 = rx_node ctx \<and> rx_poisoned ctx1"
proof -
  obtain m where m: "allow_request (en_instant env) (rx_metrics ctx) = (True, m)"
    using assms(7) by (cases "allow_request (en_instant env) (rx_metrics ctx)") simp
  let ?ctx = "count_request (ctx\<lparr>rx_metrics := m\<rparr>)"
  have large: "\<not> representable (balances_view (node_asset_balances (rx_node ctx) a))"
    using assms(3,4) by (auto simp: representable_balances not_less)
  have "account_get X ?ctx (rq_params rq) = (Panicked, ?ctx\<lparr>rx_poisoned := True\<rparr>)"
    using assms(1,2,8) large by (simp add: account_get_def attempt_def parse_params_def with_node_def account_of_def)
  then have "handle_rpc X B env ctx rq = (None, ?ctx\<lparr>rx_poisoned := True\<rparr>)"
    using m assms(5,6) by (simp add: handle_rpc_def dispatch_def)
  then show ?thesis using assms(9) by auto
qed

section \<open>Concrete servers\<close>

definition toy_whale :: "toy_db node" where
  "toy_whale = toy_node (toy_state\<lparr>st_asset_balances := bt_insert (toy_address 46) (bt_insert ''ethereum:WETH:sepolia:0x1'' (2 ^ 64) bt_empty) bt_empty\<rparr>)
     toy_empty_db"

definition toy_whale_rpc :: "toy_db rpc_ext" where
  "toy_whale_rpc = toy_rpc\<lparr>x_params_address := (\<lambda>_. Ok (address_text toy_rpc (toy_address 46)))\<rparr>"

definition toy_bridge :: bridge_ext where
  "toy_bridge = \<lparr>x_debug_ethereum = (\<lambda>_ _. []), x_debug_solana = (\<lambda>_ _. []), x_post_string = (\<lambda>_ _. Err ''offline''),
     x_post_u64 = (\<lambda>_ _. Err ''offline''), x_post_logs = (\<lambda>_ _. Err ''offline'')\<rparr>"

definition toy_query :: rpc_request where
  "toy_query = \<lparr>rq_jsonrpc = ''2.0'', rq_id = JNum 1, rq_method = ''account_get'', rq_params = JNull\<rparr>"

lemma toy_whale_query:
  "x_params_address toy_whale_rpc (rq_params toy_query) = Ok (address_text toy_rpc (toy_address 46))"
  "parse_address toy_whale_rpc (address_text toy_rpc (toy_address 46)) = Ok (toy_address 46)"
  "bt_get (node_asset_balances toy_whale (toy_address 46)) ''ethereum:WETH:sepolia:0x1'' = Some (2 ^ 64)"
proof -
  have "address_of_text toy_whale_rpc (address_text toy_rpc (toy_address 46)) = Ok (toy_address 46)"
    using address_round_trip [OF toy_text_codecs, of "toy_address 46"]
    by (simp add: wf_address_def toy_address_def address_of_text_def toy_whale_rpc_def toy_rpc_defs)
  then show "parse_address toy_whale_rpc (address_text toy_rpc (toy_address 46)) = Ok (toy_address 46)"
    by (simp add: parse_address_def)
qed (simp_all add: toy_whale_rpc_def node_asset_balances_def asset_balances_of_def toy_whale_def toy_node_def bt_get_or_def map_simps)

end
