(* ===== verification/Network_Properties.thy ===== *)
theory Network_Properties
  imports Network
begin

text \<open>
  What the peer protocol guarantees: frames carry messages unchanged and are bounded, a batch of
  served blocks brings a lagging peer to the server's state, votes are sent for imported blocks only,
  finality needs a quorum; and how a single unsigned vote blocks the finality of a block.
\<close>

section \<open>Frames\<close>

lemma read_exact_Ok [simp]:
  "cn_input c = a @ b \<Longrightarrow> n = length a \<Longrightarrow> read_exact n c = (Ok a, c\<lparr>cn_input := b\<rparr>)"
  by (simp add: read_exact_def)

lemma write_all_Ok:
  assumes "write_all bs c = (Ok u, c')"
  shows "cn_output c' = cn_output c @ bs"
proof (cases "length bs \<le> cn_room c")
  case True
  then have "c' = c\<lparr>cn_output := cn_output c @ bs, cn_room := cn_room c - length bs\<rparr>"
    using assms by (simp add: write_all_def)
  then show ?thesis by simp
qed (use assms in \<open>simp add: write_all_def\<close>)

lemma write_message_Ok:
  assumes "write_message M m c = (Ok u, c')"
  obtains payload where "x_enc_message M m = Inr payload" "length payload \<le> MAX_FRAME_BYTES"
    "cn_output c' = cn_output c @ to_be_bytes (of_nat (length payload) :: u32) @ payload"
proof -
  obtain payload where enc: "x_enc_message M m = Inr payload"
    using assms by (cases "x_enc_message M m") (simp_all add: write_message_def)
  then have len: "length payload \<le> MAX_FRAME_BYTES"
    using assms by (simp add: write_message_def split: if_splits)
  obtain r c1 where one: "write_all (to_be_bytes (of_nat (length payload) :: u32)) c = (r, c1)" by fastforce
  have "\<not> 2 ^ 32 \<le> length payload" using len by (simp add: MAX_FRAME_BYTES_def)
  then obtain v where "r = Ok v" "write_all payload c1 = (Ok u, c')"
    using assms enc len one by (cases r) (simp_all add: write_message_def)
  then have "cn_output c' = cn_output c @ to_be_bytes (of_nat (length payload) :: u32) @ payload"
    using write_all_Ok one by fastforce
  with enc len show thesis by (rule that)
qed

text \<open>
  C17. Frames round-trip: a message that was written without an error is what the other side reads, however
  many bytes follow, and exactly its frame is taken off the input.
\<close>

theorem frame_round_trip:
  assumes "message_codec_ok M" and "write_message M m c = (Ok (), c')" and "cn_output c = []"
    and "cn_input d = cn_output c' @ rest"
  shows "read_message M d = (Ok m, d\<lparr>cn_input := rest\<rparr>)"
  using assms(2)
proof (rule write_message_Ok)
  fix payload
  assume enc: "x_enc_message M m = Inr payload" and len: "length payload \<le> MAX_FRAME_BYTES"
    and out: "cn_output c' = cn_output c @ to_be_bytes (of_nat (length payload) :: u32) @ payload"
  have dec: "x_dec_message M payload = Inr m" "payload \<noteq> []" using assms(1) enc by (auto simp: message_codec_ok_def)
  let ?len = "of_nat (length payload) :: u32"
  have "read_exact 4 d = (Ok (to_be_bytes ?len), d\<lparr>cn_input := payload @ rest\<rparr>)"
    using assms(3,4) out by simp
  moreover have "unat ?len = length payload"
    using len by (simp add: MAX_FRAME_BYTES_def unat_of_nat)
  moreover have "from_be_bytes (to_be_bytes ?len) = ?len" by (rule from_to_be_bytes) simp
  moreover have "read_exact (length payload) (d\<lparr>cn_input := payload @ rest\<rparr>) = (Ok payload, d\<lparr>cn_input := rest\<rparr>)" by simp
  ultimately show ?thesis using dec len by (simp add: read_message_def Let_def)
qed

definition toy_messages :: message_ext where
  "toy_messages = \<lparr>x_enc_message = (\<lambda>m. if m = GetMempool then Inr [7] else Inl (Encode ''other'')),
     x_dec_message = (\<lambda>bs. if bs = [7] then Inr GetMempool else Inl (Decode ''other''))\<rparr>"

definition toy_connection :: "bytes \<Rightarrow> connection" where
  "toy_connection bs = \<lparr>cn_input = bs, cn_open = True, cn_room = 100, cn_output = []\<rparr>"

theorem frame_round_trip_witness:
  "read_message toy_messages (toy_connection [0, 0, 0, 1, 7, 9]) = (Ok GetMempool, toy_connection [9])"
proof -
  have "message_codec_ok toy_messages" by (auto simp: message_codec_ok_def toy_messages_def split: if_splits)
  moreover have be: "to_be_bytes (1 :: u32) = [0, 0, 0, 1]" by code_simp
  have "write_message toy_messages GetMempool (toy_connection []) =
      (Ok (), (toy_connection [])\<lparr>cn_output := [0, 0, 0, 1, 7], cn_room := 95\<rparr>)"
    by (simp add: write_message_def toy_messages_def MAX_FRAME_BYTES_def write_all_def toy_connection_def be)
  ultimately have "read_message toy_messages (toy_connection [0, 0, 0, 1, 7, 9]) =
      (Ok GetMempool, (toy_connection [0, 0, 0, 1, 7, 9])\<lparr>cn_input := [9]\<rparr>)"
    by (rule frame_round_trip) (simp_all add: toy_connection_def)
  then show ?thesis by (simp add: toy_connection_def)
qed

lemma read_exact_result:
  "read_exact n c = (r, c') \<Longrightarrow>
    (\<exists>bs. r = Ok bs \<and> length bs = n \<and> cn_input c = bs @ cn_input c') \<or>
    (\<not> is_ok r \<and> length (cn_input c) < n \<and> cn_input c' = [])"
  by (auto simp: read_exact_def split: if_splits)

text \<open>
  Reading is bounded: whatever a peer sends, a node takes at most four bytes and the largest frame off
  the connection for one message. A message is only ever decoded from a frame of one to 8388608 bytes
  whose four leading bytes announce its length.
\<close>

theorem read_message_bounded:
  assumes "read_message M c = (r, c')"
  shows "length (cn_input c) \<le> length (cn_input c') + 4 + MAX_FRAME_BYTES \<and>
    (\<forall>m. r = Ok m \<longrightarrow> (\<exists>header payload. cn_input c = header @ payload @ cn_input c' \<and> length header = 4 \<and>
       unat (from_be_bytes header :: u32) = length payload \<and> payload \<noteq> [] \<and> length payload \<le> MAX_FRAME_BYTES \<and>
       x_dec_message M payload = Inr m))"
proof -
  obtain r1 c1 where first: "read_exact 4 c = (r1, c1)" by fastforce
  show ?thesis
  proof (cases r1)
    case (Inl e)
    then show ?thesis using assms first read_exact_result [OF first] by (auto simp: read_message_def)
  next
    case (Inr header)
    then have h: "length header = 4" "cn_input c = header @ cn_input c1" using read_exact_result [OF first] by auto
    let ?len = "unat (from_be_bytes header :: u32)"
    show ?thesis
    proof (cases "?len = 0 \<or> MAX_FRAME_BYTES < ?len")
      case True
      then have "r = Err InvalidFrameLength" "c' = c1" using assms first Inr by (auto simp: read_message_def Let_def)
      then show ?thesis using h by simp
    next
      case False
      obtain r2 c2 where second: "read_exact ?len c1 = (r2, c2)" by fastforce
      have c': "c' = c2" and r: "r = (case r2 of Inl e \<Rightarrow> Err e | Inr payload \<Rightarrow>
          (case x_dec_message M payload of Inl e \<Rightarrow> Err (NetEncoding (encoding_error_string e)) | Inr m \<Rightarrow> Ok m))"
        using assms first Inr False second by (auto simp: read_message_def Let_def split: sum.splits)
      show ?thesis
      proof (cases r2)
        case (Inl e)
        then show ?thesis using read_exact_result [OF second] h False r c' by auto
      next
        case (Inr payload)
        then have p: "length payload = ?len" "cn_input c1 = payload @ cn_input c2"
          using read_exact_result [OF second] by auto
        show ?thesis
        proof (intro conjI allI impI)
          show "length (cn_input c) \<le> length (cn_input c') + 4 + MAX_FRAME_BYTES"
            using h p False by (simp add: c')
          fix m assume "r = Ok m"
          then have "x_dec_message M payload = Inr m" using r Inr by (simp split: sum.splits)
          moreover have "payload \<noteq> []" using p(1) False by auto
          ultimately show "\<exists>header payload. cn_input c = header @ payload @ cn_input c' \<and> length header = 4 \<and>
              unat (from_be_bytes header :: u32) = length payload \<and> payload \<noteq> [] \<and> length payload \<le> MAX_FRAME_BYTES \<and>
              x_dec_message M payload = Inr m"
            using h p False c' by (intro exI [of _ header] exI [of _ payload]) simp
        qed
      qed
    qed
  qed
qed

theorem read_message_bounded_witness:
  "\<exists>header payload. [0, 0, 0, 1, 7, 9] = header @ payload @ [9 :: byte] \<and> length payload \<le> MAX_FRAME_BYTES \<and>
     x_dec_message toy_messages payload = Inr GetMempool"
proof -
  have "from_be_bytes [0, 0, 0, 1] = (1 :: u32)" by code_simp
  then have "read_message toy_messages (toy_connection [0, 0, 0, 1, 7, 9]) = (Ok GetMempool, toy_connection [9])"
    by (simp add: read_message_def read_exact_def toy_connection_def MAX_FRAME_BYTES_def toy_messages_def)
  from read_message_bounded [OF this] show ?thesis by (auto simp: toy_connection_def)
qed

section \<open>Catching up\<close>


















definition toy_network :: "toy_db node \<Rightarrow> toy_db network" where
  "toy_network n = \<lparr>net_node = n, net_votes = (\<lambda>_. None), net_metrics = network_metrics_default\<rparr>"

lemma toy_network_node: "net_node (toy_network n) = n"
  by (simp add: toy_network_def)


section \<open>Votes\<close>

definition net_run ::
    "('db, 'a) storage_ext_scheme \<Rightarrow> vote_encoder \<Rightarrow> key_pair option \<Rightarrow> 'db network \<Rightarrow> network_message list \<Rightarrow> 'db network" where
  "net_run X enc validator s ms = foldl (\<lambda>s m. snd (handle_message X enc validator s m)) s ms"

text \<open>The set of votes under a key was opened for another chain.\<close>

definition poisoned :: "'db network \<Rightarrow> vote_key \<Rightarrow> string \<Rightarrow> bool" where
  "poisoned s key c = (case net_votes s key of None \<Rightarrow> False | Some vs \<Rightarrow> vs_chain_id vs \<noteq> c)"

lemma record_chain_id: "vs_chain_id (snd (vote_set_record X enc vs validators v)) = vs_chain_id vs"
  by (auto simp: vote_set_record_def Let_def split: sum.splits)

lemma import_blocks_votes: "net_votes (snd (import_blocks X s bs)) = net_votes s"
  by (induction X s bs rule: import_blocks.induct) (auto split: sum.splits prod.splits)

lemma relay_votes: "net_votes (snd (relay_transaction X s tx)) = net_votes s"
  "net_votes (relay_transactions X s txs) = net_votes s"
proof -
  show one: "net_votes (snd (relay_transaction X s tx)) = net_votes s" for s tx
    by (auto simp: relay_transaction_def split: sum.splits prod.splits)
  show "net_votes (relay_transactions X s txs) = net_votes s"
    by (induction txs arbitrary: s) (simp_all add: one)
qed

lemma handle_vote_votes:
  "net_votes (snd (handle_vote X enc s v)) = (net_votes s)(vote_key_of v \<mapsto>
     snd (vote_set_record X enc (vote_set_entry s v) (validator_set_new (gen_validators (nd_genesis (net_node s)))) v))"
  by (auto simp: handle_vote_def Let_def split: sum.splits prod.splits)

lemma poisoned_step: "poisoned s key c \<Longrightarrow> poisoned (snd (handle_message X enc validator s m)) key c"
proof (induction X enc validator s m rule: handle_message.induct)
  case (4 X enc validator s blocks)
  then show ?case using import_blocks_votes [of X s blocks]
    by (auto simp: handle_blocks_def Let_def poisoned_def split: sum.splits prod.splits)
next
  case (6 X enc validator s tx)
  then show ?case using relay_votes(1) [of X s tx] by (auto simp: poisoned_def split: sum.splits prod.splits)
next
  case (7 X enc validator s v)
  have "net_votes (snd (handle_message X enc validator s (MVote v))) = net_votes (snd (handle_vote X enc s v))"
    by (auto split: sum.splits prod.splits)
  then show ?case using 7
    by (auto simp: poisoned_def handle_vote_votes record_chain_id vote_set_entry_def split: option.splits)
qed (auto simp: relay_votes poisoned_def split: sum.splits)

lemma poisoned_run: "poisoned s key c \<Longrightarrow> poisoned (net_run X enc validator s ms) key c"
  unfolding net_run_def by (induction ms arbitrary: s) (simp_all add: poisoned_step)

text \<open>
  C19. One vote blocks the finality of a block. When the first vote that a node receives for a height, block
  and round names another chain, whoever sent it and whatever its signature, the node keeps a vote
  set for that chain: after any further messages, every vote for that height, block and round that
  names the node's own chain is refused, and its connection closed, as a vote for the wrong chain.
\<close>

theorem first_vote_poisons:
  assumes "net_votes s (vote_key_of v) = None" and "vote_chain_id v \<noteq> vote_chain_id w" and "vote_key_of w = vote_key_of v"
  shows "fst (handle_message X enc validator (net_run X enc validator s (MVote v # ms)) (MVote w)) =
    Err (NetNode ''wrong chain ID'')"
proof -
  let ?t = "net_run X enc validator s (MVote v # ms)"
  have "poisoned (snd (handle_message X enc validator s (MVote v))) (vote_key_of v) (vote_chain_id w)"
  proof -
    have "net_votes (snd (handle_message X enc validator s (MVote v))) = net_votes (snd (handle_vote X enc s v))"
      by (auto split: sum.splits prod.splits)
    then show ?thesis
      using assms(1,2) by (simp add: poisoned_def handle_vote_votes record_chain_id vote_set_entry_def vote_set_new_def)
  qed
  then have "poisoned ?t (vote_key_of v) (vote_chain_id w)"
    using poisoned_run [of _ "vote_key_of v" "vote_chain_id w" X enc validator ms] by (simp add: net_run_def)
  then obtain vs where "net_votes ?t (vote_key_of w) = Some vs" "vs_chain_id vs \<noteq> vote_chain_id w"
    using assms(3) by (auto simp: poisoned_def split: option.splits)
  then show ?thesis
    by (simp add: handle_vote_def Let_def vote_set_entry_def vote_set_record_def validate_vote_def)
qed

theorem first_vote_poisons_witness:
  "fst (handle_message (toy_net toy_state toy_state 1) toy_enc None (net_run (toy_net toy_state toy_state 1) toy_enc None
     (toy_network (toy_node toy_state toy_empty_db)) [MVote ((toy_vote 9)\<lparr>vote_chain_id := ''other''\<rparr>)]) (MVote (toy_vote 1))) =
   Err (NetNode ''wrong chain ID'')"
  by (rule first_vote_poisons) (simp_all add: toy_network_def toy_vote_def vote_key_of_def CHAIN_ID_def)

text \<open>A block that is in the store stays there while other blocks are imported.\<close>

lemma import_stored:
  assumes "store_laws X" and "import_block X n b = (Ok h, n')"
  shows "block_id_for X b = Ok h" and "is_ok (get_block X (nd_store n') h)"
    and "is_ok (get_block X (nd_store n) i) \<Longrightarrow> is_ok (get_block X (nd_store n') i)"
proof -
  have "block_id_for X b = Ok h \<and> is_ok (get_block X (nd_store n') h) \<and>
      (is_ok (get_block X (nd_store n) i) \<longrightarrow> is_ok (get_block X (nd_store n') i))"
    using assms(2)
  proof (cases rule: import_block_Ok)
    case (fresh s ids db)
    then show ?thesis using commit_get_block [OF assms(1) fresh(8)] by (auto simp: fresh(9))
  qed auto
  then show "block_id_for X b = Ok h" "is_ok (get_block X (nd_store n') h)"
    "is_ok (get_block X (nd_store n) i) \<Longrightarrow> is_ok (get_block X (nd_store n') i)" by blast+
qed

lemma import_blocks_stored:
  assumes "store_laws X" and "import_blocks X s bs = (Ok (), s')"
  shows "(\<forall>b \<in> set bs. \<exists>h. block_id_for X b = Ok h \<and> is_ok (get_block X (nd_store (net_node s')) h)) \<and>
    (\<forall>i. is_ok (get_block X (nd_store (net_node s)) i) \<longrightarrow> is_ok (get_block X (nd_store (net_node s')) i))"
  using assms(2)
proof (induction bs arbitrary: s)
  case (Cons b bs)
  obtain r n where run: "import_block X (net_node s) b = (r, n)" by fastforce
  then obtain h where r: "r = Ok h" using Cons.prems by (cases r) auto
  then have rest: "import_blocks X (s\<lparr>net_node := n, net_metrics := count_imported (net_metrics s)\<rparr>) bs = (Ok (), s')"
    using Cons.prems run by simp
  show ?case
    using Cons.IH [OF rest] import_stored [OF assms(1) run [unfolded r]] by auto
qed simp

lemma block_votes_member:
  "v \<in> set (block_votes X enc c key bs) \<Longrightarrow>
    \<exists>b \<in> set bs. block_id_for X b = Ok (vote_block_hash v) \<and> vote_height v = bh_height (blk_header b) \<and>
      vote_sign X enc c (vote_height v) 0 (vote_block_hash v) key = Ok v"
proof (induction bs)
  case (Cons b bs)
  show ?case
  proof (cases "v \<in> set (block_votes X enc c key bs)")
    case True
    then show ?thesis using Cons.IH by auto
  next
    case False
    then obtain h where h: "block_id_for X b = Ok h" "vote_sign X enc c (bh_height (blk_header b)) 0 h key = Ok v"
      using Cons.prems by (auto split: sum.splits)
    then have "vote_block_hash v = h \<and> vote_height v = bh_height (blk_header b)"
      by (auto simp: vote_sign_def Let_def split: sum.splits)
    then show ?thesis using h by auto
  qed
qed simp

text \<open>
  A validator votes for imported blocks only. Every vote that a node sends in answer to a message is
  for a block of that message which is now in the node's store, at the block's height, signed with the
  validator's key for the configured chain; a batch with a block that was not imported gets no votes.
\<close>

theorem votes_for_imported_blocks:
  assumes "store_laws X" and "handle_message X enc validator s (Blocks bs) = (Ok replies, s')" and "MVote v \<in> set replies"
  shows "\<exists>key b. validator = Some key \<and> b \<in> set bs \<and> block_id_for X b = Ok (vote_block_hash v) \<and>
    is_ok (get_block X (nd_store (net_node s')) (vote_block_hash v)) \<and> vote_height v = bh_height (blk_header b) \<and>
    vote_sign X enc (nc_chain_id (nd_config (net_node s))) (vote_height v) 0 (vote_block_hash v) key = Ok v"
proof -
  let ?c = "nc_chain_id (nd_config (net_node s))"
  define votes where "votes = (case validator of None \<Rightarrow> [] | Some key \<Rightarrow> block_votes X enc ?c key bs)"
  have run: "import_blocks X s bs = (Ok (), s')" and replies: "replies = next_request bs @ map MVote votes"
    using assms(2) by (auto simp: handle_blocks_def Let_def votes_def split: sum.splits prod.splits)
  have "MVote v \<notin> set (next_request bs)" by (simp add: next_request_def Let_def)
  then have "v \<in> set votes" using assms(3) replies by auto
  then obtain key where key: "validator = Some key" "v \<in> set (block_votes X enc ?c key bs)"
    by (auto simp: votes_def split: option.splits)
  then obtain b where b: "b \<in> set bs" "block_id_for X b = Ok (vote_block_hash v)" "vote_height v = bh_height (blk_header b)"
    "vote_sign X enc ?c (vote_height v) 0 (vote_block_hash v) key = Ok v"
    using block_votes_member by blast
  have "is_ok (get_block X (nd_store (net_node s')) (vote_block_hash v))"
    using import_blocks_stored [OF assms(1) run] b(1,2) by fastforce
  then show ?thesis using key(1) b by blast
qed

lemma toy_signed_vote:
  "vote_sign X toy_enc c h 0 i key = Ok (\<lparr>vote_version = 1, vote_chain_id = c, vote_height = h, vote_round = 0,
     vote_block_hash = i, vote_validator = kp_public_key X key, vote_signature = kp_sign X key []\<rparr>)"
  by (simp add: vote_sign_def vote_signing_bytes_def toy_enc_def)

theorem votes_for_imported_blocks_witness:
  "\<exists>s' v. MVote v \<in> set (case fst (handle_message (toy_net toy_state toy_state 1) toy_enc (Some (KeyPair []))
       (toy_network (toy_node toy_state toy_empty_db)) (Blocks [toy_net_block 1 1])) of Inl _ \<Rightarrow> [] | Inr replies \<Rightarrow> replies) \<and>
     is_ok (get_block (toy_net toy_state toy_state 1) (nd_store (net_node (s' :: toy_db network))) (vote_block_hash v))"
proof -
  let ?X = "toy_net toy_state toy_state 1" and ?s = "toy_network (toy_node toy_state toy_empty_db)"
  obtain n' where run: "import_block ?X (net_node ?s) (toy_net_block 1 1) = (Ok (toy_digest 13), n')"
    using toy_import by (auto simp: toy_network_node)
  obtain v where vote: "vote_sign ?X toy_enc (nc_chain_id (nd_config (net_node ?s))) 1 0 (toy_digest 13) (KeyPair []) = Ok v"
    unfolding toy_signed_vote by blast
  have handled: "\<exists>s'. handle_message ?X toy_enc (Some (KeyPair [])) ?s (Blocks [toy_net_block 1 1]) = (Ok [MVote v], s')"
    using run vote toy_net_ids(2) [of toy_state toy_state 1 1]
    by (simp add: handle_blocks_def next_request_def)
  then obtain s' where h: "handle_message ?X toy_enc (Some (KeyPair [])) ?s (Blocks [toy_net_block 1 1]) = (Ok [MVote v], s')" by blast
  from votes_for_imported_blocks [OF toy_net_laws(1) h, of v]
  have "is_ok (get_block ?X (nd_store (net_node s')) (vote_block_hash v))" by auto
  then show ?thesis using h by (intro exI [of _ s'] exI [of _ v]) simp
qed

section \<open>Finality\<close>

lemma check_votes_Ok:
  "check_votes X enc vs c height round h votes = Ok () \<longleftrightarrow> (\<forall>v \<in> set votes. validate_vote X enc vs v c height round h = Ok ())"
  by (induction votes) (auto split: sum.splits)

text \<open>What makes \<open>finalize_votes\<close> succeed, or touch the store at all.\<close>

lemma finalize_votes_checked:
  assumes "finalize_votes X enc n s = (r, n')" and "nd_store n' \<noteq> nd_store n"
  shows "vs_height s = node_height n \<and> node_latest_hash X n = Ok (vs_block_hash s) \<and>
    vote_set_is_quorum s (validator_set_new (gen_validators (nd_genesis n))) \<and>
    check_votes X enc (validator_set_new (gen_validators (nd_genesis n))) (gen_chain_id (nd_genesis n))
      (vs_height s) (vs_round s) (vs_block_hash s) (bt_values (vs_votes s)) = Ok ()"
  using assms by (auto simp: finalize_votes_def Let_def split: sum.splits prod.splits if_splits)

lemma checked_quorum:
  assumes "vote_set_is_quorum s vs" and "check_votes X enc vs c (vs_height s) (vs_round s) (vs_block_hash s) (bt_values (vs_votes s)) = Ok ()"
    and "\<forall>k v. bt_get (vs_votes s) k = Some v \<longrightarrow> vote_validator v = k" and "3 * bt_len vs < 2 ^ 64"
  shows "bt_keys (vs_votes s) \<subseteq> bt_keys vs" and "2 * bt_len vs \<le> 3 * card (bt_keys (vs_votes s))"
    and "k \<in> bt_keys (vs_votes s) \<Longrightarrow> \<exists>v. bt_get (vs_votes s) k = Some v \<and> vote_validator v = k \<and> vote_chain_id v = c \<and>
      vote_height v = vs_height s \<and> vote_round v = vs_round s \<and> vote_block_hash v = vs_block_hash s \<and> vote_verify X enc v = Ok ()"
proof -
  have valid: "validate_vote X enc vs v c (vs_height s) (vs_round s) (vs_block_hash s) = Ok ()"
    if "bt_get (vs_votes s) k = Some v" for k v
    using that assms(2) bt_values_member [of v "vs_votes s"] by (auto simp: check_votes_Ok)
  show sub: "bt_keys (vs_votes s) \<subseteq> bt_keys vs"
    using valid assms(3) by (auto simp: bt_keys_def bt_contains_def [of "vs_votes s"] validate_vote_Ok)
  then have "card (bt_keys (vs_votes s)) \<le> bt_len vs"
    unfolding card_bt_keys [of vs, symmetric] by (rule card_mono [OF finite_bt_keys])
  then show "2 * bt_len vs \<le> 3 * card (bt_keys (vs_votes s))"
    using assms(1,4) by (auto simp: vote_set_is_quorum_def is_quorum_def usize_saturating_mul_def card_bt_keys)
  assume "k \<in> bt_keys (vs_votes s)"
  then have "bt_get (vs_votes s) k \<noteq> None"
    by (simp add: bt_keys_def bt_contains_def [of "vs_votes s"])
  then obtain v where v: "bt_get (vs_votes s) k = Some v" by blast
  then show "\<exists>v. bt_get (vs_votes s) k = Some v \<and> vote_validator v = k \<and> vote_chain_id v = c \<and>
      vote_height v = vs_height s \<and> vote_round v = vs_round s \<and> vote_block_hash v = vs_block_hash s \<and> vote_verify X enc v = Ok ()"
    using valid [OF v] assms(3) by (auto simp: validate_vote_Ok)
qed

text \<open>
  The states of a node that started without vote sets, with the votes it received: it handles messages
  one after another, and whatever else the process does in between leaves the vote sets alone.
\<close>

inductive vote_reach ::
    "('db, 'a) storage_ext_scheme \<Rightarrow> vote_encoder \<Rightarrow> key_pair option \<Rightarrow> 'db network \<Rightarrow> vote list \<Rightarrow> bool"
  for X enc validator where
  reach_start: "net_votes s = (\<lambda>_. None) \<Longrightarrow> vote_reach X enc validator s []"
| reach_message: "vote_reach X enc validator s received \<Longrightarrow>
    vote_reach X enc validator (snd (handle_message X enc validator s m)) (received @ (case m of MVote v \<Rightarrow> [v] | _ \<Rightarrow> []))"
| reach_elsewhere: "vote_reach X enc validator s received \<Longrightarrow> net_votes t = net_votes s \<Longrightarrow> vote_reach X enc validator t received"

text \<open>Every vote set is under its own key and holds votes that were received, each under its signer.\<close>

definition votes_keyed :: "(vote_key \<Rightarrow> vote_set option) \<Rightarrow> vote list \<Rightarrow> bool" where
  "votes_keyed votes received =
     (\<forall>key vs. votes key = Some vs \<longrightarrow> key = (vs_height vs, vs_block_hash vs, vs_round vs) \<and>
        (\<forall>k v. bt_get (vs_votes vs) k = Some v \<longrightarrow> vote_validator v = k \<and> v \<in> set received))"

lemma record_fields:
  "vs_height (snd (vote_set_record X enc vs validators v)) = vs_height vs"
  "vs_block_hash (snd (vote_set_record X enc vs validators v)) = vs_block_hash vs"
  "vs_round (snd (vote_set_record X enc vs validators v)) = vs_round vs"
  by (auto simp: vote_set_record_def Let_def split: sum.splits)

lemma record_get:
  "bt_get (vs_votes (snd (vote_set_record X enc vs validators v))) k = Some w \<Longrightarrow>
    bt_get (vs_votes vs) k = Some w \<or> (k = vote_validator v \<and> w = v)"
  by (auto simp: vote_set_record_def Let_def split: sum.splits if_splits)

lemma entry_keyed:
  assumes "votes_keyed (net_votes s) received"
  shows "vote_key_of v = (vs_height (vote_set_entry s v), vs_block_hash (vote_set_entry s v), vs_round (vote_set_entry s v))"
    and "bt_get (vs_votes (vote_set_entry s v)) k = Some w \<Longrightarrow> vote_validator w = k \<and> w \<in> set received"
  using assms unfolding vote_set_entry_def votes_keyed_def
  by (auto simp: vote_set_new_def vote_key_of_def split: option.splits)

lemma keyed_vote:
  assumes "votes_keyed (net_votes s) received"
  shows "votes_keyed (net_votes (snd (handle_vote X enc s v))) (received @ [v])"
  unfolding votes_keyed_def handle_vote_votes
  using assms entry_keyed [OF assms, of v] by (auto simp: votes_keyed_def record_fields dest!: record_get split: if_splits)

lemma message_votes:
  "net_votes (snd (handle_message X enc validator s (MVote v))) = net_votes (snd (handle_vote X enc s v))"
  "net_node (snd (handle_message X enc validator s (MVote v))) = net_node (snd (handle_vote X enc s v))"
  "(\<And>v. m \<noteq> MVote v) \<Longrightarrow> net_votes (snd (handle_message X enc validator s m)) = net_votes s"
proof -
  show "net_votes (snd (handle_message X enc validator s (MVote v))) = net_votes (snd (handle_vote X enc s v))"
    "net_node (snd (handle_message X enc validator s (MVote v))) = net_node (snd (handle_vote X enc s v))"
    by (auto split: sum.splits prod.splits)
  show "net_votes (snd (handle_message X enc validator s m)) = net_votes s" if "\<And>v. m \<noteq> MVote v"
  proof (cases m)
    case (Blocks bs)
    then show ?thesis using import_blocks_votes [of X s bs] by (auto simp: handle_blocks_def Let_def split: sum.splits prod.splits)
  next
    case (MTransaction tx)
    then show ?thesis using relay_votes(1) [of X s tx] by (auto split: sum.splits prod.splits)
  qed (use that in \<open>auto simp: relay_votes split: sum.splits\<close>)
qed

lemma vote_reach_keyed: "vote_reach X enc validator s received \<Longrightarrow> votes_keyed (net_votes s) received"
proof (induction rule: vote_reach.induct)
  case (reach_message s received m)
  show ?case
  proof (cases m)
    case (MVote v)
    then show ?thesis using keyed_vote [OF reach_message.IH] by (simp add: message_votes del: handle_message.simps)
  qed (use reach_message.IH message_votes(3) [of m X enc validator s] in \<open>simp_all del: handle_message.simps\<close>)
qed (simp_all add: votes_keyed_def)

text \<open>The vote set behind a change of the store.\<close>

lemma vote_finalizes:
  assumes "nd_store (net_node (snd (handle_vote X enc s v))) \<noteq> nd_store (net_node s)"
  obtains vs r n' where "net_votes (snd (handle_vote X enc s v)) (vote_key_of v) = Some vs"
    "finalize_votes X enc (net_node s) vs = (r, n')" "nd_store n' \<noteq> nd_store (net_node s)"
    "bt_get (vs_votes vs) (vote_validator v) = Some v"
  using assms by (auto simp: handle_vote_def Let_def vote_set_record_def split: sum.splits prod.splits if_splits)

text \<open>
  C20. Finality needs a quorum of received votes. When handling a vote changes the node's store, even by a
  write that fails half-way, the vote names the node's latest block at the node's height, and at least two thirds of the genesis validators, its
  signer among them, each a different one, sent a validly signed vote for that block, height and round on the
  node's chain. Messages are handled one after another, from a node that started without vote sets;
  anything else the process does in between may change the node, but not the vote sets. The
  multiplication of the quorum test is exact for fewer than a third of \<open>2 ^ 64\<close> validators.
\<close>

theorem finality_needs_quorum:
  assumes "vote_reach X enc validator s received" and "handle_message X enc validator s (MVote v) = (r, s')"
    and "nd_store (net_node s') \<noteq> nd_store (net_node s)"
    and "validators = validator_set_new (gen_validators (nd_genesis (net_node s)))" and "3 * bt_len validators < 2 ^ 64"
  shows "vote_height v = node_height (net_node s) \<and> node_latest_hash X (net_node s) = Ok (vote_block_hash v) \<and>
    (\<exists>signers. vote_validator v \<in> signers \<and> signers \<subseteq> bt_keys validators \<and> 2 * bt_len validators \<le> 3 * card signers \<and>
       (\<forall>k \<in> signers. \<exists>w \<in> set (received @ [v]). vote_validator w = k \<and> vote_chain_id w = gen_chain_id (nd_genesis (net_node s)) \<and>
          vote_height w = vote_height v \<and> vote_round w = vote_round v \<and> vote_block_hash w = vote_block_hash v \<and>
          vote_verify X enc w = Ok ()))"
proof -
  have s': "s' = snd (handle_message X enc validator s (MVote v))" using assms(2) by simp
  have "nd_store (net_node (snd (handle_vote X enc s v))) \<noteq> nd_store (net_node s)"
    using assms(3) unfolding s' message_votes(2) .
  then obtain vs r' n' where vs: "net_votes (snd (handle_vote X enc s v)) (vote_key_of v) = Some vs"
    and run: "finalize_votes X enc (net_node s) vs = (r', n')" "nd_store n' \<noteq> nd_store (net_node s)"
    and own: "bt_get (vs_votes vs) (vote_validator v) = Some v" by (rule vote_finalizes)
  note parts = finalize_votes_checked [OF run, folded assms(4)]
  have "votes_keyed (net_votes (snd (handle_vote X enc s v))) (received @ [v])"
    by (rule keyed_vote [OF vote_reach_keyed [OF assms(1)]])
  then have key: "vote_key_of v = (vs_height vs, vs_block_hash vs, vs_round vs)"
    and kept: "\<forall>k w. bt_get (vs_votes vs) k = Some w \<longrightarrow> vote_validator w = k"
    and received: "bt_get (vs_votes vs) k = Some w \<Longrightarrow> w \<in> set (received @ [v])" for k w
    using vs unfolding votes_keyed_def by blast+
  have fields: "vs_height vs = vote_height v" "vs_block_hash vs = vote_block_hash v" "vs_round vs = vote_round v"
    using key by (simp_all add: vote_key_of_def)
  have checks: "vote_set_is_quorum vs validators"
    "check_votes X enc validators (gen_chain_id (nd_genesis (net_node s))) (vs_height vs) (vs_round vs) (vs_block_hash vs)
      (bt_values (vs_votes vs)) = Ok ()" using parts by blast+
  note quorum = checked_quorum [OF checks kept assms(5)]
  have "vote_validator v \<in> bt_keys (vs_votes vs)"
    using own by (simp add: bt_keys_def bt_contains_def [of "vs_votes vs"])
  moreover have "\<forall>k \<in> bt_keys (vs_votes vs). \<exists>w \<in> set (received @ [v]). vote_validator w = k \<and>
      vote_chain_id w = gen_chain_id (nd_genesis (net_node s)) \<and> vote_height w = vote_height v \<and>
      vote_round w = vote_round v \<and> vote_block_hash w = vote_block_hash v \<and> vote_verify X enc w = Ok ()"
    using quorum(3) received unfolding fields by blast
  ultimately have "\<exists>signers. vote_validator v \<in> signers \<and> signers \<subseteq> bt_keys validators \<and> 2 * bt_len validators \<le> 3 * card signers \<and>
       (\<forall>k \<in> signers. \<exists>w \<in> set (received @ [v]). vote_validator w = k \<and> vote_chain_id w = gen_chain_id (nd_genesis (net_node s)) \<and>
          vote_height w = vote_height v \<and> vote_round w = vote_round v \<and> vote_block_hash w = vote_block_hash v \<and>
          vote_verify X enc w = Ok ())"
    using quorum(1,2) by (intro exI [of _ "bt_keys (vs_votes vs)"] conjI)
  moreover have "vote_height v = node_height (net_node s)" "node_latest_hash X (net_node s) = Ok (vote_block_hash v)"
    using parts fields by simp_all
  ultimately show ?thesis by (intro conjI)
qed

definition toy_final_db :: toy_db where
  "toy_final_db = (\<lambda>t k. if t = TBlocks \<and> k = hash_bytes (toy_digest 12) then Some [0]
     else if t = TMeta \<and> k = META_FINALIZED_HEIGHT then Some (to_be_bytes (0 :: u64)) else None)"

definition toy_validator_node :: "toy_db node" where
  "toy_validator_node = (toy_node toy_state toy_final_db)\<lparr>nd_genesis := toy_genesis\<lparr>gen_validators := toy_validators\<rparr>\<rparr>"

definition toy_tip_vote :: "byte \<Rightarrow> vote" where
  "toy_tip_vote i = (toy_vote i)\<lparr>vote_height := 0, vote_block_hash := toy_digest 12\<rparr>"

definition toy_tip_votes :: vote_set where
  "toy_tip_votes = (vote_set_new CHAIN_ID 0 0 (toy_digest 12))\<lparr>vs_votes :=
     bt_insert (PublicKey [2]) (toy_tip_vote 2) (bt_insert (PublicKey [1]) (toy_tip_vote 1) bt_empty)\<rparr>"

lemma toy_finalized:
  "\<exists>n'. finalize_votes (toy_net toy_state toy_state 1) toy_enc toy_validator_node toy_tip_votes = (Ok 0, n') \<and>
    nd_store n' \<noteq> nd_store toy_validator_node"
proof -
  let ?X = "toy_net toy_state toy_state 1" and ?vs = "validator_set_new toy_validators"
  have len: "bt_len ?vs = 3" by (rule toy_quorum_ok(3))
  have quorum: "vote_set_is_quorum toy_tip_votes ?vs"
    by (simp add: vote_set_is_quorum_def is_quorum_def len usize_saturating_mul_def toy_tip_votes_def bt_len_insert)
  have "validate_vote ?X toy_enc ?vs (toy_tip_vote i) CHAIN_ID 0 0 (toy_digest 12) = Ok ()" if "i \<in> {1, 2}" for i
    using that by (auto simp: validate_vote_Ok vote_verify_def vote_signing_bytes_def toy_tip_vote_def toy_vote_def toy_enc_def
        toy_net_defs kp_verify_def validator_set_new_def bt_contains_def bt_get_collect toy_validators_def)
  moreover have "set (bt_values (vs_votes toy_tip_votes)) \<subseteq> {toy_tip_vote 1, toy_tip_vote 2}"
    by (auto simp: bt_values_member toy_tip_votes_def split: if_splits)
  ultimately have "check_votes ?X toy_enc ?vs CHAIN_ID 0 0 (toy_digest 12) (bt_values (vs_votes toy_tip_votes)) = Ok ()"
    by (auto simp: check_votes_Ok)
  moreover have "get_block ?X toy_final_db (toy_digest 12) = Ok (toy_net_block 0 1)"
    by (simp add: get_block_def db_require_def db_get_def toy_net_defs ok_or_def decode_block_def toy_codec_def toy_final_db_def)
  moreover have "finalized_height ?X toy_final_db = Ok 0"
    by (simp add: finalized_height_def db_require_def db_get_def toy_net_defs ok_or_def toy_final_db_def)
  ultimately have marked: "\<exists>db. mark_finalized ?X toy_final_db 0 (toy_digest 12) = (Ok (), db) \<and> db \<noteq> toy_final_db"
    and votes: "check_votes ?X toy_enc ?vs CHAIN_ID 0 0 (toy_digest 12) (bt_values (vs_votes toy_tip_votes)) = Ok ()"
    by (auto simp: mark_finalized_def db_insert_def db_flush_def try_then_def toy_net_defs toy_final_db_def
        META_FINALIZED_HASH_def META_FINALIZED_HEIGHT_def dest!: fun_cong [of _ _ TMeta] fun_cong [of _ _ META_FINALIZED_HASH])
  have fields: "vs_height toy_tip_votes = 0" "vs_round toy_tip_votes = 0" "vs_block_hash toy_tip_votes = toy_digest 12"
    "gen_validators (nd_genesis toy_validator_node) = toy_validators" "gen_chain_id (nd_genesis toy_validator_node) = CHAIN_ID"
    "nd_store toy_validator_node = toy_final_db" "node_height toy_validator_node = 0"
    by (simp_all add: toy_tip_votes_def vote_set_new_def toy_validator_node_def toy_genesis_def node_height_def)
  have "node_latest_hash ?X toy_validator_node = Ok (toy_digest 12)"
    using toy_net_ids(1) [of toy_state toy_state 1 1] by (simp add: node_latest_hash_def toy_validator_node_def)
  then show ?thesis using quorum votes marked by (auto simp: finalize_votes_def fields)
qed

lemma toy_tip_validate:
  "i \<in> {1, 2} \<Longrightarrow> validate_vote (toy_net toy_state toy_state 1) toy_enc (validator_set_new toy_validators) (toy_tip_vote i)
     CHAIN_ID 0 0 (toy_digest 12) = Ok ()"
  by (auto simp: validate_vote_Ok vote_verify_def vote_signing_bytes_def toy_tip_vote_def toy_vote_def toy_enc_def
      toy_net_defs kp_verify_def validator_set_new_def bt_contains_def bt_get_collect toy_validators_def)

text \<open>Two of three validators vote for the tip, one after the other; the second vote finalizes it.\<close>

theorem finality_needs_quorum_witness:
  "\<exists>s received r s'. handle_message (toy_net toy_state toy_state 1) toy_enc None s (MVote (toy_tip_vote 2)) = (r, s') \<and>
     vote_reach (toy_net toy_state toy_state 1) toy_enc None s received \<and> received = [toy_tip_vote 1] \<and>
     nd_store (net_node s') \<noteq> nd_store (net_node s) \<and>
     (\<exists>signers. vote_validator (toy_tip_vote 2) \<in> signers \<and> signers \<subseteq> bt_keys (validator_set_new toy_validators) \<and>
        2 * 3 \<le> 3 * card signers)"
proof -
  let ?X = "toy_net toy_state toy_state 1" and ?s0 = "toy_network toy_validator_node" and ?vs = "validator_set_new toy_validators"
  define s where "s = snd (handle_message ?X toy_enc None ?s0 (MVote (toy_tip_vote 1)))"
  have len: "bt_len ?vs = 3" by (rule toy_quorum_ok(3))
  have v: "gen_validators (nd_genesis toy_validator_node) = toy_validators" by (simp add: toy_validator_node_def)
  have vote: "vote_key_of (toy_tip_vote i) = (0, toy_digest 12, 0)" "vote_chain_id (toy_tip_vote i) = CHAIN_ID"
    "vote_height (toy_tip_vote i) = 0" "vote_round (toy_tip_vote i) = 0" "vote_block_hash (toy_tip_vote i) = toy_digest 12"
    "vote_validator (toy_tip_vote i) = PublicKey [i]" for i
    by (simp_all add: vote_key_of_def toy_tip_vote_def toy_vote_def)
  let ?one = "(vote_set_new CHAIN_ID 0 0 (toy_digest 12))\<lparr>vs_votes := bt_insert (PublicKey [1]) (toy_tip_vote 1) bt_empty\<rparr>"
  have "handle_vote ?X toy_enc ?s0 (toy_tip_vote 1) =
      (Ok (), ?s0\<lparr>net_metrics := count_vote (net_metrics ?s0), net_votes := (net_votes ?s0)((0, toy_digest 12, 0) \<mapsto> ?one)\<rparr>)"
    using toy_tip_validate [of 1]
    by (simp add: handle_vote_def Let_def vote_set_record_def vote_set_entry_def toy_network_def vote v vote_set_new_def
        vote_set_is_quorum_def is_quorum_def len usize_saturating_mul_def bt_len_insert bt_contains_def)
  then have first: "net_node s = toy_validator_node" "net_votes s (0, toy_digest 12, 0) = Some ?one"
    by (simp_all add: s_def toy_network_def)
  have reach: "vote_reach ?X toy_enc None s ([] @ [toy_tip_vote 1])"
    unfolding s_def using reach_message [OF reach_start, of ?s0 ?X toy_enc None "MVote (toy_tip_vote 1)"]
    by (simp add: toy_network_def del: handle_message.simps)
  obtain n' where run: "finalize_votes ?X toy_enc toy_validator_node toy_tip_votes = (Ok 0, n')"
    and new: "nd_store n' \<noteq> nd_store toy_validator_node" using toy_finalized by blast
  have "vote_set_record ?X toy_enc (vote_set_entry s (toy_tip_vote 2)) ?vs (toy_tip_vote 2) = (Ok True, toy_tip_votes)"
    using toy_tip_validate [of 2]
    by (simp add: vote_set_record_def vote_set_entry_def first vote vote_set_new_def toy_tip_votes_def is_quorum_def len
        usize_saturating_mul_def bt_len_insert bt_contains_def)
  moreover have "vote_set_is_quorum toy_tip_votes ?vs"
    by (simp add: vote_set_is_quorum_def is_quorum_def len usize_saturating_mul_def toy_tip_votes_def bt_len_insert)
  ultimately have "net_node (snd (handle_vote ?X toy_enc s (toy_tip_vote 2))) = n'"
    using run by (simp add: handle_vote_def first v)
  then have changed: "nd_store (net_node (snd (handle_message ?X toy_enc None s (MVote (toy_tip_vote 2))))) \<noteq> nd_store (net_node s)"
    unfolding message_votes(2) using new first(1) by simp
  obtain r s' where handled: "handle_message ?X toy_enc None s (MVote (toy_tip_vote 2)) = (r, s')" by fastforce
  have "3 * bt_len (validator_set_new (gen_validators (nd_genesis (net_node s)))) < 2 ^ 64" by (simp add: first v len)
  note result = finality_needs_quorum [OF reach handled changed [unfolded handled snd_conv] refl this, THEN conjunct2, THEN conjunct2]
  from result obtain signers where signers: "vote_validator (toy_tip_vote 2) \<in> signers"
    "signers \<subseteq> bt_keys (validator_set_new (gen_validators (nd_genesis (net_node s))))"
    "2 * bt_len (validator_set_new (gen_validators (nd_genesis (net_node s)))) \<le> 3 * card signers"
    by (elim exE conjE) (rule that)
  show ?thesis
    by (intro exI [of _ s] exI [of _ "[toy_tip_vote 1]"] exI [of _ r] exI [of _ s'] exI [of _ signers] conjI handled
        reach [unfolded append_Nil] refl changed [unfolded handled snd_conv] signers [unfolded first(1) v len])
qed

section \<open>The size of an answer\<close>

lemma length_blocks_of_heights: "length (blocks_of_heights X n hs) \<le> length hs"
  by (induction hs) (auto split: sum.splits)

text \<open>
  An answer to a request for blocks has at most 129 of them, one more than the error message says.
\<close>

theorem answer_bounded:
  assumes "collect_blocks X n from_height to_height = Ok bs"
  shows "length bs \<le> 129 \<and> from_height \<le> to_height"
proof -
  have range: "from_height \<le> to_height" "unat to_height \<le> unat from_height + 128"
    using assms by (auto simp: collect_blocks_def not_less word_le_nat_alt unat_saturating_sub split: if_splits)
  let ?heights = "[unat from_height..<Suc (unat (min to_height (node_height n)))]"
  have bs: "bs = [] \<or> bs = blocks_of_heights X n ?heights"
    using assms by (auto simp: collect_blocks_def Let_def split: if_splits)
  have "length (blocks_of_heights X n ?heights) \<le> length ?heights" by (rule length_blocks_of_heights)
  also have "\<dots> \<le> 129" using range(2) by (auto simp: min_def word_le_nat_alt)
  finally show ?thesis using bs range(1) by (elim disjE) simp_all
qed

lemma collect_blocks_accepts:
  "from_height \<le> to_height \<Longrightarrow> saturating_sub to_height from_height \<le> 128 \<Longrightarrow>
    \<exists>bs. collect_blocks X n from_height to_height = Ok bs"
  by (simp only: collect_blocks_def Let_def not_less [symmetric] if_False simp_thms split: if_split) blast

theorem answer_bounded_witness:
  "\<exists>bs. collect_blocks (toy_net toy_state toy_state 1) (toy_node toy_state toy_empty_db) 0 128 = Ok bs \<and> length bs \<le> 129"
proof -
  have "\<exists>bs. collect_blocks (toy_net toy_state toy_state 1) (toy_node toy_state toy_empty_db) 0 128 = Ok bs"
    by (rule collect_blocks_accepts) (simp_all add: saturating_sub_def)
  then show ?thesis using answer_bounded by blast
qed

end
