(* ===== verification/Full_Node.thy ===== *)
theory Full_Node
  imports Rpc_Safety Network_Properties
begin

text \<open>
  The process of \<open>run_with_network\<close> (\<open>crates/wsc-rpc/src/lib.rs\<close>, \<open>run_async_internal\<close>; \<open>crates/wsc-network/src/lib.rs\<close>,
  \<open>run_with_validator\<close>): the RPC server, the producer and any number of connections to peers, as tasks
  that share one node behind a lock. A task of a connection is the list of its coming critical sections;
  the sections of all tasks interleave in any order, and a poisoned lock is met in each as the code
  meets it. Every run is a run of the node over its public methods, and a connection that is
  served alone does what \<open>serve_connection\<close> of \<open>Network\<close> does.
\<close>

section \<open>The shared state and the critical sections\<close>

record 'db shared =
  sh_rpc :: "'db rpc_context"
  sh_votes :: "vote_key \<Rightarrow> vote_set option"
  sh_metrics :: network_metrics

text \<open>
  What a connection does between two releases of the lock: the start of a message, the import of one
  of its blocks, the submission of one of its transactions, the finalization after a vote, and the
  answers that are sent at the end.
\<close>

datatype critical_section =
    Enter network_message | ImportOne block | RelayOne transaction | FinalizeSet vote_set
  | SendAll "network_message list"

definition poisoned_lock :: network_error where
  "poisoned_lock = NetNode ''node lock poisoned''"

definition sh_node :: "'db shared \<Rightarrow> 'db node" where
  "sh_node s = rx_node (sh_rpc s)"

definition sh_poisoned :: "'db shared \<Rightarrow> bool" where
  "sh_poisoned s \<longleftrightarrow> rx_poisoned (sh_rpc s)"

definition network_of :: "'db shared \<Rightarrow> 'db network" where
  "network_of s = \<lparr>net_node = sh_node s, net_votes = sh_votes s, net_metrics = sh_metrics s\<rparr>"

definition with_network :: "'db shared \<Rightarrow> 'db network \<Rightarrow> 'db shared" where
  "with_network s w =
     s\<lparr>sh_rpc := (sh_rpc s)\<lparr>rx_node := net_node w\<rparr>, sh_votes := net_votes w, sh_metrics := net_metrics w\<rparr>"

text \<open>The part of a vote's handling under both locks: the set of votes, when it has a quorum.\<close>

definition record_section ::
    "('db, 'a) storage_ext_scheme \<Rightarrow> vote_encoder \<Rightarrow> 'db network \<Rightarrow> vote \<Rightarrow> (network_error + vote_set option) \<times> 'db network" where
  "record_section X enc w v =
     (let validators = validator_set_new (gen_validators (nd_genesis (net_node w)))
      in case vote_set_record X enc (vote_set_entry w v) validators v of
           (r, vs) \<Rightarrow>
             let w' = w\<lparr>net_votes := (net_votes w)(vote_key_of v \<mapsto> vs)\<rparr>
             in case r of
                  Inl e \<Rightarrow> (Err (NetNode (consensus_error_string e)), w')
                | Inr _ \<Rightarrow> (Ok (if vote_set_is_quorum vs validators then Some vs else None), w'))"

text \<open>
  A section gives the messages to write and the sections that follow it, or the error that ends the
  connection. Where the code has \<open>if let Ok(mut node) = node.lock()\<close> a poisoned lock skips the section, elsewhere it is the error.
\<close>

definition lock_or_skip ::
    "'db shared \<Rightarrow> ('db network \<Rightarrow> (network_error + unit) \<times> 'db network) \<Rightarrow>
     (network_error + network_message list \<times> critical_section list) \<times> 'db shared" where
  "lock_or_skip s operation =
     (if sh_poisoned s then (Ok ([], []), s)
      else case operation (network_of s) of (r, w) \<Rightarrow> (map_sum id (\<lambda>_. ([], [])) r, with_network s w))"

definition import_section ::
    "('db, 'a) storage_ext_scheme \<Rightarrow> block \<Rightarrow> 'db network \<Rightarrow> (network_error + unit) \<times> 'db network" where
  "import_section X b w =
     (case import_block X (net_node w) b of
        (Inl e, n) \<Rightarrow> (Err (net_node_error e), w\<lparr>net_node := n\<rparr>)
      | (Inr _, n) \<Rightarrow> (Ok (), w\<lparr>net_node := n, net_metrics := count_imported (net_metrics w)\<rparr>))"

definition finalize_section ::
    "('db, 'a) storage_ext_scheme \<Rightarrow> vote_encoder \<Rightarrow> vote_set \<Rightarrow> 'db network \<Rightarrow> (network_error + unit) \<times> 'db network" where
  "finalize_section X enc vs w =
     (case finalize_votes X enc (net_node w) vs of
        (Inl e, n) \<Rightarrow> (Err (net_node_error e), w\<lparr>net_node := n\<rparr>)
      | (Inr _, n) \<Rightarrow> (Ok (), w\<lparr>net_node := n\<rparr>))"

fun enter_message ::
    "('db, 'a) storage_ext_scheme \<Rightarrow> vote_encoder \<Rightarrow> key_pair option \<Rightarrow> 'db shared \<Rightarrow> network_message \<Rightarrow>
     (network_error + network_message list \<times> critical_section list) \<times> 'db shared" where
  "enter_message X enc validator s (Hello _ _ _ _) = (Ok ([], []), s)"
| "enter_message X enc validator s (GetBlocks from_height to_height) =
     (case collect_blocks X (sh_node s) from_height to_height of
        Inl e \<Rightarrow> (Err e, s)
      | Inr blocks \<Rightarrow> if sh_poisoned s then (Err poisoned_lock, s) else (Ok ([Blocks blocks], []), s))"
| "enter_message X enc validator s GetMempool =
     (if sh_poisoned s then (Err poisoned_lock, s)
      else (Ok ([Transactions (mp_transactions (nd_mempool (sh_node s)))], []), s))"
| "enter_message X enc validator s (Blocks blocks) =
     (case validator of
        None \<Rightarrow> (Ok ([], map ImportOne blocks @ [SendAll (next_request blocks)]), s)
      | Some key \<Rightarrow>
          if sh_poisoned s then (Err poisoned_lock, s)
          else (Ok ([], map ImportOne blocks @
                  [SendAll (next_request blocks @
                     map MVote (block_votes X enc (nc_chain_id (nd_config (sh_node s))) key blocks))]), s))"
| "enter_message X enc validator s (Transactions txs) = (Ok ([], map RelayOne txs), s)"
| "enter_message X enc validator s (MTransaction tx) = lock_or_skip s (\<lambda>w. relay_transaction X w tx)"
| "enter_message X enc validator s (MVote v) =
     (let s1 = s\<lparr>sh_metrics := count_vote (sh_metrics s)\<rparr>
      in if sh_poisoned s then (Err poisoned_lock, s1)
         else case record_section X enc (network_of s1) v of
           (Inl e, w) \<Rightarrow> (Err e, with_network s1 w)
         | (Inr None, w) \<Rightarrow> (Ok ([], []), with_network s1 w)
         | (Inr (Some vs), w) \<Rightarrow> (Ok ([], [FinalizeSet vs]), with_network s1 w))"

fun run_section ::
    "('db, 'a) storage_ext_scheme \<Rightarrow> vote_encoder \<Rightarrow> key_pair option \<Rightarrow> 'db shared \<Rightarrow> critical_section \<Rightarrow>
     (network_error + network_message list \<times> critical_section list) \<times> 'db shared" where
  "run_section X enc validator s (Enter m) = enter_message X enc validator s m"
| "run_section X enc validator s (ImportOne b) = lock_or_skip s (import_section X b)"
| "run_section X enc validator s (RelayOne tx) =
     (case lock_or_skip s (\<lambda>w. relay_transaction X w tx) of (_, s') \<Rightarrow> (Ok ([], []), s'))"
| "run_section X enc validator s (FinalizeSet vs) =
     (if sh_poisoned s then (Err poisoned_lock, s) else lock_or_skip s (finalize_section X enc vs))"
| "run_section X enc validator s (SendAll ms) = (Ok (ms, []), s)"

section \<open>The task of a connection\<close>

type_synonym task = "connection \<times> critical_section list"

text \<open>
  One turn of a task: with nothing left to do it reads a message, otherwise it runs a section and
  writes what that gives. An error ends the task.
\<close>

definition task_step ::
    "('db, 'a) storage_ext_scheme \<Rightarrow> ('m) message_ext_scheme \<Rightarrow> vote_encoder \<Rightarrow> key_pair option \<Rightarrow> task \<Rightarrow> 'db shared \<Rightarrow>
     (network_error \<times> connection + task) \<times> 'db shared" where
  "task_step X M enc validator t s =
     (case t of
        (c, []) \<Rightarrow>
          (case read_message M c of
             (Inl e, c') \<Rightarrow> (Inl (e, c'), s)
           | (Inr m, c') \<Rightarrow> (Inr (c', [Enter m]), s))
      | (c, sec # rest) \<Rightarrow>
          (case run_section X enc validator s sec of
             (Inl e, s') \<Rightarrow> (Inl (e, c), s')
           | (Inr (out, following), s') \<Rightarrow>
               (case write_messages M out c of
                  (Inl e, c') \<Rightarrow> (Inl (e, c'), s')
                | (Inr _, c') \<Rightarrow> (Inr (c', following @ rest), s'))))"

text \<open>\<open>serve_connection\<close> up to its loop.\<close>

definition open_connection ::
    "('db, 'a) storage_ext_scheme \<Rightarrow> ('m) message_ext_scheme \<Rightarrow> network_config \<Rightarrow> bool \<Rightarrow> connection \<Rightarrow> 'db shared \<Rightarrow>
     (network_error \<times> connection + task) \<times> 'db shared" where
  "open_connection X M cfg initiator c s =
     (if sh_poisoned s then (Inl (poisoned_lock, c), s)
      else case local_hello X (sh_node s) cfg of
        Inl e \<Rightarrow> (Inl (e, c), s)
      | Inr hello \<Rightarrow>
          (case greet M initiator hello c of
             (Inl e, c1) \<Rightarrow> (Inl (e, c1), s)
           | (Inr _, c1) \<Rightarrow>
               let s1 = s\<lparr>sh_metrics := count_connection (sh_metrics s)\<rparr>
               in case write_message M GetMempool c1 of
                    (Inl e, c2) \<Rightarrow> (Inl (e, c2), s1)
                  | (Inr _, c2) \<Rightarrow> (Inr (c2, []), s1)))"

text \<open>A task that has the node to itself until it ends: it does, as every message is finite and takes input.\<close>

fun section_weight :: "critical_section \<Rightarrow> nat" where
  "section_weight (Enter (Blocks bs)) = length bs + 2"
| "section_weight (Enter (Transactions txs)) = length txs + 2"
| "section_weight (Enter _) = 2"
| "section_weight _ = 1"

definition task_weight :: "critical_section list \<Rightarrow> nat" where
  "task_weight secs = sum_list (map section_weight secs)"

lemma task_weight_simps [simp]:
  "task_weight [] = 0" "task_weight (sec # secs) = section_weight sec + task_weight secs"
  "task_weight (secs @ secs') = task_weight secs + task_weight secs'"
  "task_weight (map ImportOne bs) = length bs" "task_weight (map RelayOne txs) = length txs"
proof -
  show "task_weight (map ImportOne bs) = length bs" by (induction bs) (simp_all add: task_weight_def)
  show "task_weight (map RelayOne txs) = length txs" by (induction txs) (simp_all add: task_weight_def)
qed (simp_all add: task_weight_def)

lemma lock_or_skip_Ok:
  assumes "lock_or_skip s f = (Ok (out, following), s')"
  shows "out = [] \<and> following = []"
proof -
  obtain r w where "f (network_of s) = (r, w)" by fastforce
  with assms show ?thesis by (cases r) (auto simp: lock_or_skip_def split: if_splits)
qed

lemma enter_weight:
  assumes "enter_message X enc validator s m = (Ok (out, following), s')"
  shows "task_weight following < section_weight (Enter m)"
  using assms
  by (cases m) (auto simp: Let_def dest: lock_or_skip_Ok split: if_splits sum.splits prod.splits option.splits)

lemma run_section_weight:
  assumes "run_section X enc validator s sec = (Ok (out, following), s')"
  shows "task_weight following < section_weight sec"
proof (cases sec)
  case (Enter m)
  then show ?thesis using enter_weight assms by (simp only: run_section.simps)
qed (use assms in \<open>auto dest!: lock_or_skip_Ok split: if_splits prod.splits\<close>)

lemma task_step_shrinks:
  assumes "(Inr t', s') = task_step X M enc validator t s"
  shows "length (cn_input (fst t')) < length (cn_input (fst t)) \<or>
    cn_input (fst t') = cn_input (fst t) \<and> task_weight (snd t') < task_weight (snd t)"
proof -
  obtain c secs where t: "t = (c, secs)" by fastforce
  show ?thesis
  proof (cases secs)
    case Nil
    then show ?thesis using assms t by (auto simp: task_step_def dest: read_message_consumes split: sum.splits prod.splits)
  next
    case (Cons sec rest)
    then obtain out following c' u where "run_section X enc validator s sec = (Ok (out, following), s')"
      and "write_messages M out c = (Ok u, c')" and "t' = (c', following @ rest)"
      using assms t by (auto simp: task_step_def split: sum.splits prod.splits)
    then show ?thesis using t Cons run_section_weight write_input(3) by fastforce
  qed
qed

function run_task ::
    "('db, 'a) storage_ext_scheme \<Rightarrow> ('m) message_ext_scheme \<Rightarrow> vote_encoder \<Rightarrow> key_pair option \<Rightarrow> task \<Rightarrow> 'db shared \<Rightarrow>
     (network_error \<times> connection) \<times> 'db shared" where
  "run_task X M enc validator t s =
     (case task_step X M enc validator t s of
        (Inl stop, s') \<Rightarrow> (stop, s')
      | (Inr t', s') \<Rightarrow> run_task X M enc validator t' s')"
  by pat_completeness auto
termination
  by (relation "measures [\<lambda>(X, M, enc, validator, t, s). length (cn_input (fst t)),
        \<lambda>(X, M, enc, validator, t, s). task_weight (snd t)]")
    (auto dest!: task_step_shrinks)

declare run_task.simps [simp del]

section \<open>A connection that is served alone\<close>

lemma network_with [simp]: "network_of (with_network s w) = w" "sh_poisoned (with_network s w) = sh_poisoned s"
  "with_network (with_network s w) w' = with_network s w'" "with_network s (network_of s) = s"
  by (simp_all add: network_of_def with_network_def sh_node_def sh_poisoned_def)

lemma run_task_section:
  "run_task X M enc validator (c, sec # rest) s =
     (case run_section X enc validator s sec of
        (Inl e, s') \<Rightarrow> ((e, c), s')
      | (Inr (out, following), s') \<Rightarrow>
          (case write_messages M out c of
             (Inl e, c') \<Rightarrow> ((e, c'), s')
           | (Inr _, c') \<Rightarrow> run_task X M enc validator (c', following @ rest) s'))"
  by (subst run_task.simps) (simp add: task_step_def split: sum.split prod.split)

lemma run_task_message:
  "run_task X M enc validator (c, []) s =
     (case read_message M c of (Inl e, c') \<Rightarrow> ((e, c'), s) | (Inr m, c') \<Rightarrow> run_task X M enc validator (c', [Enter m]) s)"
  by (subst run_task.simps) (simp add: task_step_def split: sum.split prod.split)

lemma run_imports:
  assumes "\<not> sh_poisoned s"
  shows "run_task X M enc validator (c, map ImportOne bs @ rest) s =
     (case import_blocks X (network_of s) bs of
        (Inl e, w) \<Rightarrow> ((e, c), with_network s w)
      | (Inr _, w) \<Rightarrow> run_task X M enc validator (c, rest) (with_network s w))"
  using assms
  by (induction bs arbitrary: s)
    (simp_all add: run_task_section lock_or_skip_def import_section_def split: sum.split prod.split)

lemma run_relays:
  assumes "\<not> sh_poisoned s"
  shows "run_task X M enc validator (c, map RelayOne txs @ rest) s =
     run_task X M enc validator (c, rest) (with_network s (relay_transactions X (network_of s) txs))"
  using assms
  by (induction txs arbitrary: s) (simp_all add: run_task_section lock_or_skip_def split: prod.split)

lemma handle_vote_sections:
  "handle_vote X enc w v =
     (case record_section X enc (w\<lparr>net_metrics := count_vote (net_metrics w)\<rparr>) v of
        (Inl e, w') \<Rightarrow> (Err e, w')
      | (Inr None, w') \<Rightarrow> (Ok (), w')
      | (Inr (Some vs), w') \<Rightarrow> finalize_section X enc vs w')"
  by (auto simp: handle_vote_def record_section_def finalize_section_def vote_set_entry_def Let_def
      split: prod.split sum.split)

lemma run_message:
  assumes "\<not> sh_poisoned s"
  shows "run_task X M enc validator (c, [Enter m]) s =
     (case handle_message X enc validator (network_of s) m of
        (Inl e, w) \<Rightarrow> ((e, c), with_network s w)
      | (Inr replies, w) \<Rightarrow>
          (case write_messages M replies c of
             (Inl e, c') \<Rightarrow> ((e, c'), with_network s w)
           | (Inr _, c') \<Rightarrow> run_task X M enc validator (c', []) (with_network s w)))"
proof (cases m)
  case (Blocks bs)
  have tail: "run_task X M enc v (c, [SendAll out]) s' =
      (case write_messages M out c of (Inl e, c') \<Rightarrow> ((e, c'), s') | (Inr _, c') \<Rightarrow> run_task X M enc v (c', []) s')"
    for out s' v by (simp add: run_task_section split: sum.split prod.split)
  show ?thesis
    using assms
    by (cases validator)
      (simp_all add: Blocks run_task_section [where sec = "Enter m" for m] run_imports tail handle_blocks_def Let_def
        network_of_def split: sum.split prod.split)
next
  case (Transactions txs)
  then show ?thesis
    using run_relays [OF assms, where rest = "[]"] by (simp add: run_task_section [where sec = "Enter m" for m])
next
  case (MTransaction tx)
  then show ?thesis
    using assms by (simp add: run_task_section lock_or_skip_def split: sum.split prod.split)
next
  case (MVote v)
  let ?s = "s\<lparr>sh_metrics := count_vote (sh_metrics s)\<rparr>"
  have s1: "network_of ?s = (network_of s)\<lparr>net_metrics := count_vote (net_metrics (network_of s))\<rparr>"
    "with_network ?s w = with_network s w" for w
    by (simp_all add: network_of_def with_network_def sh_node_def)
  obtain r w where recorded: "record_section X enc (network_of ?s) v = (r, w)" by fastforce
  show ?thesis
  proof (cases r)
    case (Inl e)
    then show ?thesis
      using assms recorded by (simp add: MVote run_task_section handle_vote_sections Let_def s1)
  next
    case (Inr quorum)
    obtain r' w' where "\<And>vs. quorum = Some vs \<Longrightarrow> finalize_section X enc vs w = (r', w')"
      by (cases quorum; cases "finalize_section X enc (the quorum) w") auto
    then show ?thesis
      using assms recorded Inr
      by (cases quorum; cases r')
        (simp_all add: MVote run_task_section lock_or_skip_def handle_vote_sections Let_def s1)
  qed
qed (use assms in \<open>simp_all add: run_task_section network_of_def with_network_def sh_node_def split: sum.split prod.split\<close>)

lemma run_task_serves:
  assumes "\<not> sh_poisoned s"
  shows "run_task X M enc validator (c, []) s =
    (case serve_loop X M enc validator c (network_of s) of (e, c', w) \<Rightarrow> ((e, c'), with_network s w))"
  using assms
proof (induction X M enc validator c "network_of s" arbitrary: s rule: serve_loop.induct)
  case (1 X M enc validator c)
  show ?case
  proof (subst serve_loop.simps, cases "read_message M c")
    case (Pair r c1)
    show "run_task X M enc validator (c, []) s = (case (case read_message M c of
        (Inl e, c1) \<Rightarrow> (e, c1, network_of s)
      | (Inr m, c1) \<Rightarrow>
          (case handle_message X enc validator (network_of s) m of
             (Inl e, s1) \<Rightarrow> (e, c1, s1)
           | (Inr replies, s1) \<Rightarrow>
               (case write_messages M replies c1 of
                  (Inl e, c2) \<Rightarrow> (e, c2, s1)
                | (Inr _, c2) \<Rightarrow> serve_loop X M enc validator c2 s1))) of (e, c', w) \<Rightarrow> ((e, c'), with_network s w))"
      using 1 Pair
      by (auto simp: run_task_message run_message split: sum.split prod.split)
  qed
qed

text \<open>
  The sections and the loop are two readings of the same code, and they agree. A connection that has the
  node to itself is served as \<open>serve_connection\<close> says: the critical sections of its messages, one after the
  other, give the same error at the end, the same bytes to the peer and the same node, vote sets and counters.
\<close>

theorem sections_serve_connection:
  assumes "\<not> sh_poisoned s"
  shows "(case open_connection X M cfg initiator c s of
            (Inl stop, s') \<Rightarrow> (stop, s')
          | (Inr t, s') \<Rightarrow> run_task X M enc validator t s') =
    (case serve_connection X M enc cfg validator initiator c (network_of s) of (e, c', w) \<Rightarrow> ((e, c'), with_network s w))"
proof -
  let ?s = "s\<lparr>sh_metrics := count_connection (sh_metrics s)\<rparr>"
  have s1: "network_of ?s = (network_of s)\<lparr>net_metrics := count_connection (net_metrics (network_of s))\<rparr>"
    "with_network ?s w = with_network s w" "\<not> sh_poisoned ?s" for w
    using assms by (simp_all add: network_of_def with_network_def sh_node_def sh_poisoned_def)
  have n: "net_node (network_of s) = sh_node s" "with_network s ((network_of s)\<lparr>net_metrics := m\<rparr>) = s\<lparr>sh_metrics := m\<rparr>"
    "net_metrics (network_of s) = sh_metrics s" for m
    by (simp_all add: network_of_def with_network_def sh_node_def)
  show ?thesis
    using assms
    by (simp add: open_connection_def serve_connection_def n Let_def run_task_serves s1 split: sum.split prod.split)
qed

definition toy_network_config :: "string \<Rightarrow> network_config" where
  "toy_network_config chain = \<lparr>ncf_chain_id = chain, ncf_listen_addr = [], ncf_peers = [], ncf_node_id = ''a''\<rparr>"

definition toy_shared :: "toy_db shared" where
  "toy_shared = \<lparr>sh_rpc = rpc_context_new 0 toy_whale, sh_votes = Map.empty, sh_metrics = network_metrics_default\<rparr>"

theorem sections_serve_connection_witness:
  "(case open_connection toy_whale_rpc toy_messages (toy_network_config ''other'') True (toy_connection [7]) toy_shared of
      (Inl stop, s') \<Rightarrow> (stop, s')
    | (Inr t, s') \<Rightarrow> run_task toy_whale_rpc toy_messages toy_enc None t s') =
   ((Handshake ''configured chain ID does not match node'', toy_connection [7]), toy_shared)"
proof -
  have "\<not> sh_poisoned toy_shared" by (simp add: toy_shared_def sh_poisoned_def rpc_context_new_def)
  moreover have "nc_chain_id (nd_config (net_node (network_of toy_shared))) \<noteq> ''other''"
    by (simp add: toy_shared_def rpc_context_new_def sh_node_def network_of_def toy_whale_def toy_node_def CHAIN_ID_def)
  then have "serve_connection toy_whale_rpc toy_messages toy_enc (toy_network_config ''other'') None True
      (toy_connection [7]) (network_of toy_shared) =
      (Handshake ''configured chain ID does not match node'', toy_connection [7], network_of toy_shared)"
    by (simp add: serve_connection_def local_hello_def toy_network_config_def)
  ultimately show ?thesis
    using sections_serve_connection [where s = toy_shared and X = toy_whale_rpc and M = toy_messages and enc = toy_enc
        and cfg = "toy_network_config ''other''" and validator = None and initiator = True and c = "toy_connection [7]"]
    by simp
qed

section \<open>The process\<close>

record 'db full_node =
  fn_shared :: "'db shared"
  fn_tasks :: "nat \<Rightarrow> task option"

definition full_node_new :: "nat \<Rightarrow> 'db node \<Rightarrow> 'db full_node" where
  "full_node_new now n =
     \<lparr>fn_shared = \<lparr>sh_rpc = rpc_context_new now n, sh_votes = Map.empty, sh_metrics = network_metrics_default\<rparr>,
      fn_tasks = (\<lambda>_. None)\<rparr>"

abbreviation fn_node :: "'db full_node \<Rightarrow> 'db node" where
  "fn_node f \<equiv> sh_node (fn_shared f)"

text \<open>
  What may happen next: a request, a turn of the producer, a connection that is made or accepted under
  a free number, a turn of the task of a connection, the loss of a connection. The connection of an
  event carries all that its peer will ever send, so every behaviour of the peers is some choice of events.
\<close>

datatype full_event =
    RpcCall rpc_env rpc_request | ProducerTurn u64 | Connected nat bool connection | TaskTurn nat | Lost nat

record process_params =
  pp_network :: "network_config option"
  pp_proposer :: "key_pair option"

definition connected_step ::
    "('db, 'a) rpc_ext_scheme \<Rightarrow> ('m) message_ext_scheme \<Rightarrow> process_params \<Rightarrow> 'db full_node \<Rightarrow> nat \<Rightarrow> bool \<Rightarrow>
     connection \<Rightarrow> 'db full_node" where
  "connected_step X M P f i initiator c =
     (case pp_network P of
        None \<Rightarrow> f
      | Some cfg \<Rightarrow>
          if fn_tasks f i \<noteq> None then f
          else case open_connection X M cfg initiator c (fn_shared f) of
            (Inl _, s) \<Rightarrow> f\<lparr>fn_shared := s\<rparr>
          | (Inr t, s) \<Rightarrow> f\<lparr>fn_shared := s, fn_tasks := (fn_tasks f)(i \<mapsto> t)\<rparr>)"

definition task_turn ::
    "('db, 'a) rpc_ext_scheme \<Rightarrow> ('m) message_ext_scheme \<Rightarrow> vote_encoder \<Rightarrow> process_params \<Rightarrow> 'db full_node \<Rightarrow> nat \<Rightarrow>
     'db full_node" where
  "task_turn X M enc P f i =
     (case fn_tasks f i of
        None \<Rightarrow> f
      | Some t \<Rightarrow>
          (case task_step X M enc (pp_proposer P) t (fn_shared f) of
             (Inl _, s) \<Rightarrow> f\<lparr>fn_shared := s, fn_tasks := (fn_tasks f)(i := None)\<rparr>
           | (Inr t', s) \<Rightarrow> f\<lparr>fn_shared := s, fn_tasks := (fn_tasks f)(i \<mapsto> t')\<rparr>))"

definition full_step ::
    "('db, 'a) rpc_ext_scheme \<Rightarrow> ('m) message_ext_scheme \<Rightarrow> ('b) bridge_ext_scheme \<Rightarrow> vote_encoder \<Rightarrow> process_params \<Rightarrow>
     'db full_node \<Rightarrow> full_event \<Rightarrow> 'db full_node" where
  "full_step X M B enc P f e =
     (let s = fn_shared f in
      case e of
        RpcCall env rq \<Rightarrow> f\<lparr>fn_shared := s\<lparr>sh_rpc := snd (handle_rpc X B env (sh_rpc s) rq)\<rparr>\<rparr>
      | ProducerTurn now \<Rightarrow> f\<lparr>fn_shared := s\<lparr>sh_rpc := producer_tick X now (pp_proposer P) (sh_rpc s)\<rparr>\<rparr>
      | Connected i initiator c \<Rightarrow> connected_step X M P f i initiator c
      | TaskTurn i \<Rightarrow> task_turn X M enc P f i
      | Lost i \<Rightarrow> f\<lparr>fn_tasks := (fn_tasks f)(i := None)\<rparr>)"

text \<open>The call of the node in a step of the producer or of a connection.\<close>

fun section_call :: "critical_section \<Rightarrow> node_call option" where
  "section_call (Enter (MTransaction tx)) = Some (SubmitTransaction tx)"
| "section_call (ImportOne b) = Some (Import b)"
| "section_call (RelayOne tx) = Some (SubmitTransaction tx)"
| "section_call (FinalizeSet vs) = Some (Finalize vs)"
| "section_call _ = None"

definition event_call :: "process_params \<Rightarrow> 'db full_node \<Rightarrow> full_event \<Rightarrow> node_call option" where
  "event_call P f e =
     (if sh_poisoned (fn_shared f) then None
      else case e of
        ProducerTurn now \<Rightarrow> Some (Produce now (pp_proposer P))
      | TaskTurn i \<Rightarrow> (case fn_tasks f i of Some (_, sec # _) \<Rightarrow> section_call sec | _ \<Rightarrow> None)
      | _ \<Rightarrow> None)"

text \<open>Runs of the process during which no call reports a failure of the store.\<close>

inductive full_reach ::
    "('db, 'a) rpc_ext_scheme \<Rightarrow> ('m) message_ext_scheme \<Rightarrow> ('b) bridge_ext_scheme \<Rightarrow> vote_encoder \<Rightarrow> process_params \<Rightarrow>
     'db full_node \<Rightarrow> 'db full_node \<Rightarrow> bool"
  for X M B enc P f0 where
  full_start: "full_reach X M B enc P f0 f0"
| full_event: "full_reach X M B enc P f0 f \<Longrightarrow>
    (\<And>c. event_call P f e = Some c \<Longrightarrow> \<not> store_failed (fst (node_run X enc (fn_node f) c))) \<Longrightarrow>
    full_reach X M B enc P f0 (full_step X M B enc P f e)"

section \<open>The process runs the node\<close>

lemma node_sh [simp]: "sh_node (s\<lparr>sh_metrics := m\<rparr>) = sh_node s" "sh_node (s\<lparr>sh_votes := v\<rparr>) = sh_node s"
  "sh_node (with_network s w) = net_node w" "net_node (network_of s) = sh_node s"
  by (simp_all add: sh_node_def with_network_def network_of_def)

text \<open>A section that makes one call of the node: behind the lock it is that call, behind a poisoned lock nothing.\<close>

definition called :: "('db, 'a) storage_ext_scheme \<Rightarrow> vote_encoder \<Rightarrow> 'db shared \<Rightarrow> node_call option \<Rightarrow> 'db node" where
  "called X enc s oc =
     (if sh_poisoned s then sh_node s
      else case oc of None \<Rightarrow> sh_node s | Some c \<Rightarrow> snd (node_run X enc (sh_node s) c))"

locale node_section =
  fixes X :: "('db, 'a) storage_ext_scheme" and enc :: vote_encoder
    and operation :: "'db network \<Rightarrow> (network_error + unit) \<times> 'db network" and c :: node_call
  assumes one_call: "net_node (snd (operation w)) = snd (node_run X enc (net_node w) c)"
begin

lemma locked_node:
  assumes "lock_or_skip s operation = (r, s')"
  shows "sh_node s' = called X enc s (Some c)"
  using assms one_call [of "network_of s"]
  by (auto simp: lock_or_skip_def called_def split: if_splits prod.splits)

end

interpretation relayed: node_section X enc "\<lambda>w. relay_transaction X w tx" "SubmitTransaction tx" for X enc tx
  by unfold_locales (auto simp: relay_transaction_def node_run_def split: prod.splits sum.splits)

interpretation imported: node_section X enc "import_section X b" "Import b" for X enc b
  by unfold_locales (auto simp: import_section_def node_run_def split: prod.splits sum.splits)

interpretation finalized: node_section X enc "finalize_section X enc vs" "Finalize vs" for X enc vs
  by unfold_locales (auto simp: finalize_section_def node_run_def split: prod.splits sum.splits)

lemma record_section_node: "record_section X enc w v = (r, w') \<Longrightarrow> net_node w' = net_node w"
  by (auto simp: record_section_def Let_def split: prod.splits sum.splits)

lemma run_section_node:
  assumes "run_section X enc validator s sec = (r, s')"
  shows "sh_node s' = called X enc s (section_call sec)"
proof (cases sec)
  case (Enter m)
  show ?thesis
  proof (cases m)
    case (MTransaction tx)
    with Enter show ?thesis using assms relayed.locked_node by simp
  qed (use Enter assms in \<open>auto simp: called_def Let_def dest: record_section_node
      split: sum.splits prod.splits option.splits if_splits\<close>)
next
  case (RelayOne tx)
  then show ?thesis using assms relayed.locked_node by (auto split: prod.splits)
next
  case (FinalizeSet vs)
  show ?thesis
  proof (cases "sh_poisoned s")
    case True
    then show ?thesis using assms FinalizeSet by (simp add: called_def)
  next
    case False
    then show ?thesis using assms FinalizeSet finalized.locked_node by simp
  qed
next
  case (ImportOne b)
  then show ?thesis using assms imported.locked_node by simp
qed (use assms in \<open>simp add: called_def\<close>)

lemma task_step_node:
  assumes "task_step X M enc validator t s = (r, s')"
  shows "sh_node s' = called X enc s (case t of (_, sec # _) \<Rightarrow> section_call sec | _ \<Rightarrow> None)"
proof -
  obtain c secs where t: "t = (c, secs)" by fastforce
  show ?thesis
    using assms
    by (cases secs)
      (auto simp: t task_step_def called_def dest!: run_section_node split: sum.splits prod.splits)
qed

lemma open_connection_node: "open_connection X M cfg initiator c s = (r, s') \<Longrightarrow> sh_node s' = sh_node s"
  by (auto simp: open_connection_def Let_def split: if_splits sum.splits prod.splits)

text \<open>The node after a step is the one that the call of the step leaves; a request submits at most once.\<close>

lemma full_step_node:
  assumes "\<And>env rq. e \<noteq> RpcCall env rq"
  shows "fn_node (full_step X M B enc P f e) = fn_node f \<or>
    (\<exists>c. event_call P f e = Some c \<and> fn_node (full_step X M B enc P f e) = snd (node_run X enc (fn_node f) c))"
proof (cases e)
  case (ProducerTurn now)
  then show ?thesis
    by (auto simp: full_step_def event_call_def node_run_def producer_tick_def Let_def sh_node_def sh_poisoned_def
        split: prod.splits)
next
  case (Connected i initiator c)
  then show ?thesis
    by (auto simp: full_step_def connected_step_def dest: open_connection_node split: option.splits prod.splits sum.splits)
next
  case (TaskTurn i)
  show ?thesis
  proof (cases "fn_tasks f i")
    case None
    then show ?thesis by (simp add: TaskTurn full_step_def task_turn_def)
  next
    case (Some t)
    obtain r s' where run: "task_step X M enc (pp_proposer P) t (fn_shared f) = (r, s')" by fastforce
    have "fn_node (full_step X M B enc P f e) = sh_node s'"
      using Some run by (simp add: TaskTurn full_step_def task_turn_def split: sum.split)
    then show ?thesis
      using task_step_node [OF run] Some by (auto simp: TaskTurn called_def event_call_def split: prod.splits list.splits)
  qed
qed (use assms in \<open>simp_all add: full_step_def\<close>)

lemma crypto_err_kind: "crypto_err r \<noteq> Err (NStorage e)"
  by (cases r) simp_all

lemma mempool_admit_kind: "mempool_admit X m s tx \<noteq> (Err (NStorage e), m')"
  by (simp add: mempool_admit_def split: sum.split)

lemma submissions_reach:
  assumes "effect_ok X enc (allowed_call X vars method params) n n'" and "node_reach X enc n0 n"
  shows "node_reach X enc n0 n'"
proof -
  have "node_reach X enc n0 (snd (node_run X enc n c))" if "allowed_call X vars method params c" for c
  proof (rule node_reach.step [OF assms(2)])
    show "\<not> store_failed (fst (node_run X enc n c))"
      using that
      by (cases c)
        (auto simp: crypto_err_kind mempool_admit_kind allowed_call_def node_run_def store_failed_def error_of_def submit_transaction_def
          submit_asset_operation_def submit_token_operation_def submit_mna_swap_def submit_mna_reserve_operation_def
          submit_program_operation_def split: sum.splits prod.splits if_splits node_error.splits)
  qed
  then show ?thesis using assms by (auto simp: effect_ok_def)
qed

lemma full_reach_node:
  assumes "full_reach X M B enc P f0 f"
  shows "node_reach X enc (fn_node f0) (fn_node f)"
  using assms
proof induction
  case full_start
  show ?case by (rule node_reach.start)
next
  case (full_event f e)
  show ?case
  proof (cases "\<exists>env rq. e = RpcCall env rq")
    case True
    then obtain env rq where e: "e = RpcCall env rq" by blast
    show ?thesis
      using submissions_reach [OF request_effect, of X enc "fn_node f0" "sh_rpc (fn_shared f)" B env rq] full_event.IH
      by (simp add: e full_step_def Let_def sh_node_def)
  next
    case False
    then have "fn_node (full_step X M B enc P f e) = fn_node f \<or>
      (\<exists>c. event_call P f e = Some c \<and> fn_node (full_step X M B enc P f e) = snd (node_run X enc (fn_node f) c))"
      by (intro full_step_node) blast
    then show ?thesis
    proof (elim disjE exE conjE)
      fix c
      assume "event_call P f e = Some c" "fn_node (full_step X M B enc P f e) = snd (node_run X enc (fn_node f) c)"
      then show ?thesis using node_reach.step [OF full_event.IH full_event.hyps(2)] by simp
    qed (use full_event.IH in simp)
  qed
qed

text \<open>
  C24. The process refines the node and survives a restart. However the requests, the producer and the
  connections interleave, the node has gone through a sequence of calls of its public methods; and
  while no call reports a failure of the store, the node agrees with its store, and opening the store again
  after a stop at any point succeeds and gives the same chain and state with empty pools.
\<close>

theorem full_node_recovers:
  assumes "store_laws X" and "digests_ok X" and "valid_utf8 (gen_chain_id g)"
    and "node_open X cfg (Ok g) db = (Ok n0, db0)" and "full_reach X M B enc P (full_node_new now n0) f"
  shows "node_reach X enc n0 (fn_node f) \<and> (\<exists>h. node_ok X h (fn_node f)) \<and>
    node_open X cfg (Ok g) (nd_store (fn_node f)) = (Ok (restarted (fn_node f)), nd_store (fn_node f))"
proof -
  have reach: "node_reach X enc n0 (fn_node f)"
    using full_reach_node [OF assms(5)] by (simp add: full_node_new_def sh_node_def rpc_context_new_def)
  obtain h where "node_ok X h n0" using assms(1,4) by (rule open_ok)
  then show ?thesis using reach reopened [OF assms(1-4) reach] node_reach_ok [OF reach assms(1,2)] by blast
qed

section \<open>The process behind a poisoned lock\<close>

text \<open>What a poisoned process still is: the node and the votes as they were, and no connection that was not there.\<close>

definition stopped_since :: "'db full_node \<Rightarrow> 'db full_node \<Rightarrow> bool" where
  "stopped_since f f' \<longleftrightarrow> sh_poisoned (fn_shared f') \<and> fn_node f' = fn_node f \<and>
     sh_votes (fn_shared f') = sh_votes (fn_shared f) \<and> (\<forall>i. fn_tasks f i = None \<longrightarrow> fn_tasks f' i = None)"

lemma poisoned_section:
  assumes "run_section X enc validator s sec = (r, s')" and "sh_poisoned s"
  shows "sh_rpc s' = sh_rpc s \<and> sh_votes s' = sh_votes s"
proof (cases sec)
  case (Enter m)
  then show ?thesis using assms
    by (cases m) (auto simp: lock_or_skip_def Let_def split: if_splits sum.splits option.splits)
qed (use assms in \<open>auto simp: lock_or_skip_def split: if_splits\<close>)

lemma poisoned_task:
  assumes "task_step X M enc validator t s = (r, s')" and "sh_poisoned s"
  shows "sh_rpc s' = sh_rpc s \<and> sh_votes s' = sh_votes s"
proof -
  obtain c secs where t: "t = (c, secs)" by fastforce
  show ?thesis
    using assms
    by (cases secs) (auto simp: t task_step_def dest!: poisoned_section split: sum.splits prod.splits)
qed

lemma stopped_step:
  assumes "stopped_since f0 f"
  shows "stopped_since f0 (full_step X M B enc P f e)"
proof (cases e)
  case (RpcCall env rq)
  then show ?thesis
    using assms frozen_request [of "sh_rpc (fn_shared f)" X B env rq]
    by (simp add: full_step_def stopped_since_def Let_def sh_node_def sh_poisoned_def)
next
  case (ProducerTurn now)
  then show ?thesis
    using assms by (simp add: full_step_def stopped_since_def Let_def producer_tick_def sh_node_def sh_poisoned_def)
next
  case (Connected i initiator c)
  then show ?thesis
    using assms by (simp add: full_step_def connected_step_def open_connection_def stopped_since_def split: option.split)
next
  case (TaskTurn i)
  show ?thesis
  proof (cases "fn_tasks f i")
    case None
    then show ?thesis using assms by (simp add: TaskTurn full_step_def task_turn_def)
  next
    case (Some t)
    obtain r s' where run: "task_step X M enc (pp_proposer P) t (fn_shared f) = (r, s')" by fastforce
    obtain t0 where "fn_tasks f0 i = Some t0"
      using assms Some by (cases "fn_tasks f0 i") (simp_all add: stopped_since_def)
    then show ?thesis
      using assms Some run poisoned_task [OF run]
      by (cases r) (auto simp: TaskTurn full_step_def task_turn_def stopped_since_def sh_poisoned_def sh_node_def)
  qed
next
  case (Lost i)
  then show ?thesis using assms by (simp add: full_step_def stopped_since_def)
qed

lemma stopped_run: "stopped_since f0 f \<Longrightarrow> stopped_since f0 (foldl (full_step X M B enc P) f events)"
  by (induction events arbitrary: f) (simp_all add: stopped_step)

text \<open>
  C25. One balance stops the process. A query for an account that holds at least \<open>2 ^ 64\<close> units of some asset
  gets no response and poisons the lock: from then on, whatever arrives, no block is produced or
  imported, nothing is queued, no vote is recorded, no connection is made, and the health is reported
  as unavailable.
\<close>

theorem large_balance_stops_process:
  assumes "x_params_address X (rq_params rq) = Ok t" and "parse_address X t = Ok a"
    and "bt_get (node_asset_balances (fn_node f) a) k = Some v" and "2 ^ 64 \<le> unat v"
    and "rq_method rq = ''account_get''" and "rq_jsonrpc rq = ''2.0''"
    and "fst (allow_request (en_instant env) (rx_metrics (sh_rpc (fn_shared f))))" and "\<not> sh_poisoned (fn_shared f)"
    and "f' = foldl (full_step X M B enc P) (full_step X M B enc P f (RpcCall env rq)) events"
  shows "fst (handle_rpc X B env (sh_rpc (fn_shared f)) rq) = None \<and>
    fn_node f' = fn_node f \<and> sh_votes (fn_shared f') = sh_votes (fn_shared f) \<and>
    (\<forall>i. fn_tasks f i = None \<longrightarrow> fn_tasks f' i = None) \<and> fst (handle_health X (sh_rpc (fn_shared f'))) = 503"
proof -
  obtain response ctx1 where run: "handle_rpc X B env (sh_rpc (fn_shared f)) rq = (response, ctx1)" by fastforce
  have "response = None \<and> rx_node ctx1 = fn_node f \<and> rx_poisoned ctx1"
    using large_balance_poisons [OF assms(1,2) _ assms(4-7) _ run] assms(3,8) by (simp add: sh_node_def sh_poisoned_def)
  then have "response = None" "stopped_since f (full_step X M B enc P f (RpcCall env rq))"
    using run by (simp_all add: stopped_since_def full_step_def Let_def sh_node_def sh_poisoned_def)
  moreover from this(2) have "stopped_since f f'" unfolding assms(9) by (rule stopped_run)
  ultimately show ?thesis using run by (simp add: stopped_since_def handle_health_def sh_poisoned_def)
qed

section \<open>A vote that comes late\<close>

text \<open>
  The lock is released between the vote that completes a quorum and the finalization. When a block is
  imported or produced in between, the finalization fails, and its error ends the connection.
\<close>

lemma outrun_quorum:
  assumes "\<not> sh_poisoned (fn_shared f)" and "fn_tasks f i = Some (c, FinalizeSet vs # rest)"
    and "vs_height vs \<noteq> node_height (fn_node f)"
  shows "fn_tasks (full_step X M B enc P f (TaskTurn i)) i = None \<and> fn_node (full_step X M B enc P f (TaskTurn i)) = fn_node f"
proof -
  have "\<exists>e. finalize_votes X enc (fn_node f) vs = (Err e, fn_node f)"
    using assms(3) by (cases "node_latest_hash X (fn_node f)") (simp_all add: finalize_votes_def Let_def)
  then obtain e where "finalize_votes X enc (fn_node f) vs = (Err e, fn_node f)" by blast
  then have "finalize_section X enc vs (network_of (fn_shared f)) = (Err (net_node_error e), network_of (fn_shared f))"
    by (simp add: finalize_section_def)
  then show ?thesis
    using assms(1,2) by (simp add: full_step_def task_turn_def task_step_def lock_or_skip_def)
qed

text \<open>
  So the vote of an honest validator for a block that has its quorum already, but is no longer the
  latest, ends the connection it came on.
\<close>

theorem late_vote_drops_peer:
  assumes "\<not> sh_poisoned (fn_shared f)" and "fn_tasks f i = Some (c, [Enter (MVote v)])"
    and "vote_set_record X enc (vote_set_entry (network_of (fn_shared f)) v)
      (validator_set_new (gen_validators (nd_genesis (fn_node f)))) v = (Ok quorum, vs)"
    and "vote_set_is_quorum vs (validator_set_new (gen_validators (nd_genesis (fn_node f))))"
    and "vs_height vs \<noteq> node_height (fn_node f)"
    and "f' = full_step X M B enc P (full_step X M B enc P f (TaskTurn i)) (TaskTurn i)"
  shows "fn_tasks f' i = None \<and> fn_node f' = fn_node f"
proof -
  let ?s = "(fn_shared f)\<lparr>sh_metrics := count_vote (sh_metrics (fn_shared f))\<rparr>"
  have "net_node (network_of ?s) = fn_node f" by simp
  moreover have "vote_set_entry (network_of ?s) v = vote_set_entry (network_of (fn_shared f)) v"
    by (simp add: vote_set_entry_def network_of_def)
  ultimately obtain w where "record_section X enc (network_of ?s) v = (Ok (Some vs), w)" and w: "net_node w = fn_node f"
    using assms(3,4) by (simp add: record_section_def Let_def)
  then have "full_step X M B enc P f (TaskTurn i) =
      f\<lparr>fn_shared := with_network ?s w, fn_tasks := (fn_tasks f)(i \<mapsto> (c, [FinalizeSet vs]))\<rparr>"
    using assms(1,2) by (simp add: full_step_def task_turn_def task_step_def Let_def)
  moreover have "\<not> sh_poisoned (with_network ?s w)" using assms(1) by (simp add: sh_poisoned_def with_network_def)
  ultimately show ?thesis
    using outrun_quorum [of "full_step X M B enc P f (TaskTurn i)" i c vs "[]" X M B enc P] assms(5,6) w
    by (simp del: network_with)
qed

section \<open>Concrete processes\<close>

text \<open>The store of the toys, with the rest of what the server needs.\<close>

lemma extend_fields:
  "x_sha256 (storage_ext.extend Y M) = x_sha256 Y" "x_hmac_sha512 (storage_ext.extend Y M) = x_hmac_sha512 Y"
  "x_enc_header (storage_ext.extend Y M) = x_enc_header Y"
  "x_enc_snapshot (storage_ext.extend Y M) = x_enc_snapshot Y" "x_enc_legacy (storage_ext.extend Y M) = x_enc_legacy Y"
  "x_enc_legacy_asset (storage_ext.extend Y M) = x_enc_legacy_asset Y"
  "x_enc_pre_program (storage_ext.extend Y M) = x_enc_pre_program Y"
  "x_db_get (storage_ext.extend Y M) = x_db_get Y" "x_db_insert (storage_ext.extend Y M) = x_db_insert Y"
  "x_db_flush (storage_ext.extend Y M) = x_db_flush Y" "x_enc_block (storage_ext.extend Y M) = x_enc_block Y"
  "x_dec_block (storage_ext.extend Y M) = x_dec_block Y" "x_dec_snapshot (storage_ext.extend Y M) = x_dec_snapshot Y"
  "x_dec_pre_program_block (storage_ext.extend Y M) = x_dec_pre_program_block Y"
  "x_dec_legacy_block (storage_ext.extend Y M) = x_dec_legacy_block Y"
  "x_enc_signed_transaction (storage_ext.extend Y M) = x_enc_signed_transaction Y"
  "x_dec_signed_transaction (storage_ext.extend Y M) = x_dec_signed_transaction Y"
  "x_dec_pre_program (storage_ext.extend Y M) = x_dec_pre_program Y" "x_dec_legacy (storage_ext.extend Y M) = x_dec_legacy Y"
  "x_dec_legacy_asset (storage_ext.extend Y M) = x_dec_legacy_asset Y"
  "x_enc_transaction (storage_ext.extend Y M) = x_enc_transaction Y"
  by (simp_all add: storage_ext.defs)

lemma extend_db:
  "db_get (storage_ext.extend Y M) = db_get Y" "db_insert (storage_ext.extend Y M) = db_insert Y"
  "db_flush (storage_ext.extend Y M) = db_flush Y" "db_require (storage_ext.extend Y M) = db_require Y"
  by (intro ext; unfold db_get_def db_insert_def db_flush_def db_require_def extend_fields; rule refl)+

lemma extend_hashes:
  "hash_encoded (storage_ext.extend Y M) = hash_encoded Y" "state_root (storage_ext.extend Y M) = state_root Y"
  "merkle_root (storage_ext.extend Y M) [] = merkle_root Y []"
  by ((intro ext)?; unfold hash_encoded_def state_root_def state_root_bytes_def sha256_domain_def extend_fields
      merkle_root_def if_P [OF refl]; rule refl)+

lemma extend_headers:
  "block_header_id (storage_ext.extend Y M) = block_header_id Y" "transaction_id (storage_ext.extend Y M) = transaction_id Y"
  by (intro ext; unfold block_header_id_def transaction_id_def extend_fields extend_hashes; rule refl)+

lemma extend_store:
  "latest_block (storage_ext.extend Y M) = latest_block Y" "latest_state (storage_ext.extend Y M) = latest_state Y"
  by (intro ext; unfold latest_block_def latest_hash_def get_block_def decode_block_def latest_state_def decode_state_def
      extend_fields extend_db; rule refl)+

lemma extend_index: "commit_transactions (storage_ext.extend Y M) db txs = commit_transactions Y db txs"
  by (induction txs arbitrary: db)
    (simp_all add: extend_fields extend_db extend_headers try_then_def cong: sum.case_cong prod.case_cong)

lemma extend_commit: "store_commit (storage_ext.extend Y M) = store_commit Y"
  by (intro ext; unfold store_commit_def extend_fields extend_db extend_index; rule refl)

lemma extend_laws:
  "digests_ok (storage_ext.extend Y M) = digests_ok Y" "store_laws (storage_ext.extend Y M) = store_laws Y"
  by (unfold extend_fields digests_ok_def store_laws_def sled_ok_def codecs_ok_def; rule refl)+

lemma extend_open: "node_open (storage_ext.extend Y M) cfg g db = node_open Y cfg g db"
  by (unfold node_open_def make_genesis_block_def ensure_genesis_def check_stored_genesis_def write_genesis_def
      restore_node_def extend_db extend_hashes extend_headers extend_store extend_commit; rule refl)

definition toy_server_ext :: "toy_db rpc_ext" where
  "toy_server_ext = storage_ext.extend (toy_net toy_state toy_state 1) (storage_ext.more toy_rpc)"

lemma toy_server_open:
  "\<exists>n db. node_open toy_server_ext \<lparr>nc_chain_id = CHAIN_ID, nc_block_time_ms = 1000, nc_data_dir = [], nc_genesis_path = []\<rparr>
     (Ok toy_genesis) toy_empty_db = (Ok n, db)"
  using toy_open unfolding toy_server_ext_def extend_open .

theorem full_node_recovers_witness:
  "\<exists>cfg now (n :: toy_db node). let f = full_step toy_server_ext toy_messages toy_bridge toy_enc
       \<lparr>pp_network = Some (toy_network_config CHAIN_ID), pp_proposer = None\<rparr>
       (full_step toy_server_ext toy_messages toy_bridge toy_enc
         \<lparr>pp_network = Some (toy_network_config CHAIN_ID), pp_proposer = None\<rparr> (full_node_new now n) (RpcCall (toy_env 5) toy_query))
       (Connected 0 False (toy_connection [0, 0, 0, 1, 7]))
     in node_open toy_server_ext cfg (Ok toy_genesis) (nd_store (fn_node f)) = (Ok (restarted (fn_node f)), nd_store (fn_node f))"
proof -
  let ?cfg = "\<lparr>nc_chain_id = CHAIN_ID, nc_block_time_ms = 1000, nc_data_dir = [], nc_genesis_path = []\<rparr>"
  let ?P = "\<lparr>pp_network = Some (toy_network_config CHAIN_ID), pp_proposer = None\<rparr>"
  let ?step = "full_step toy_server_ext toy_messages toy_bridge toy_enc ?P"
  obtain n db where opened: "node_open toy_server_ext ?cfg (Ok toy_genesis) toy_empty_db = (Ok n, db)"
    using toy_server_open by blast
  have laws: "store_laws toy_server_ext" "digests_ok toy_server_ext"
    using toy_net_laws by (simp_all add: toy_server_ext_def extend_laws)
  have utf8: "valid_utf8 (gen_chain_id toy_genesis)" by (simp add: valid_utf8_def toy_genesis_def CHAIN_ID_def)
  have "full_reach toy_server_ext toy_messages toy_bridge toy_enc ?P (full_node_new 0 n)
      (?step (?step (full_node_new 0 n) (RpcCall (toy_env 5) toy_query)) (Connected 0 False (toy_connection [0, 0, 0, 1, 7])))"
    by (intro full_event full_start) (auto simp: event_call_def split: if_splits)
  from full_node_recovers [OF laws utf8 opened this] show ?thesis by (auto simp: Let_def)
qed

theorem large_balance_stops_process_witness:
  "fst (handle_rpc toy_whale_rpc toy_bridge (toy_env 5) (sh_rpc toy_shared) toy_query) = None \<and>
   sh_votes (fn_shared (foldl (full_step toy_whale_rpc toy_messages toy_bridge toy_enc \<lparr>pp_network = None, pp_proposer = None\<rparr>)
     (full_step toy_whale_rpc toy_messages toy_bridge toy_enc \<lparr>pp_network = None, pp_proposer = None\<rparr>
        \<lparr>fn_shared = toy_shared, fn_tasks = Map.empty\<rparr> (RpcCall (toy_env 5) toy_query)) [ProducerTurn 7])) = Map.empty"
proof -
  let ?f = "\<lparr>fn_shared = toy_shared, fn_tasks = Map.empty\<rparr>"
  have "fst (allow_request (en_instant (toy_env 5)) (rx_metrics (sh_rpc (fn_shared ?f))))"
    by (simp add: allow_request_def rpc_context_new_def toy_env_def MAX_RPC_REQUESTS_PER_SECOND_def toy_shared_def)
  moreover have "fn_node ?f = toy_whale" "\<not> sh_poisoned (fn_shared ?f)"
    by (simp_all add: rpc_context_new_def toy_shared_def sh_node_def sh_poisoned_def)
  moreover have "2 ^ 64 \<le> unat (2 ^ 64 :: u128)" by simp
  moreover have "rq_method toy_query = ''account_get''" "rq_jsonrpc toy_query = ''2.0''" by (simp_all add: toy_query_def)
  ultimately show ?thesis
    using large_balance_stops_process [OF toy_whale_query(1,2), of ?f "''ethereum:WETH:sepolia:0x1''" "2 ^ 64" "toy_env 5" _
        toy_messages toy_bridge toy_enc "\<lparr>pp_network = None, pp_proposer = None\<rparr>" "[ProducerTurn 7]"] toy_whale_query(3)
    by (simp add: toy_shared_def)
qed

end
