(* ===== verification/Solana_Bridge.thy ===== *)
theory Solana_Bridge
  imports Core_Types
begin

text \<open>
  \<open>contracts/solana/wsol-bridge-program/src/lib.rs\<close>: the on-chain program that locks and releases SOL
  and one SPL token. The ledger of Solana is a map from keys to accounts, so that two account
  arguments with the same key are the same account. An instruction that fails is rolled back by the
  runtime, which is why an error carries no store. Program-derived addresses, the rent table, hexadecimal
  and Base58 text and calls into other programs (\<open>invoke\<close>, \<open>invoke_signed\<close> on the system and token programs) are the
  fields of \<open>sol_ext\<close>.
\<close>

section \<open>Accounts\<close>

type_synonym pubkey = bytes

definition PUBKEY_DEFAULT :: pubkey where "PUBKEY_DEFAULT = replicate 32 0"
definition SYSTEM_PROGRAM_ID :: pubkey where "SYSTEM_PROGRAM_ID = replicate 32 0"

record sol_account =
  sa_owner :: pubkey
  sa_lamports :: u64
  sa_data :: bytes

type_synonym sol_store = "pubkey \<Rightarrow> sol_account"

record account_info =
  ai_key :: pubkey
  ai_is_signer :: bool
  ai_is_writable :: bool

datatype sol_error =
    SInvalidInstructionData | SInvalidAccountData | SInvalidArgument | SMissingRequiredSignature | SIllegalOwner
  | SAccountAlreadyInitialized | SIncorrectProgramId | SInsufficientFunds | SArithmeticOverflow
  | SNotEnoughAccountKeys | SExternal string

text \<open>What the program asks other programs to do; an account of a token instruction with its two flags.\<close>

datatype sol_instruction =
    CreateAccount pubkey pubkey u64 u64 pubkey
  | SystemTransfer pubkey pubkey u64
  | ProgramInstruction pubkey "(pubkey \<times> bool \<times> bool) list" bytes

record sol_ext =
  x_token_program :: pubkey
  x_create_address :: "pubkey \<Rightarrow> bytes list \<Rightarrow> pubkey option"
  x_find_pda :: "pubkey \<Rightarrow> bytes list \<Rightarrow> pubkey \<times> u8"
  x_minimum_balance :: "nat \<Rightarrow> u64"
  x_hex :: "bytes \<Rightarrow> string"
  x_base58 :: "pubkey \<Rightarrow> string"
  x_invoke :: "pubkey \<Rightarrow> sol_instruction \<Rightarrow> account_info list \<Rightarrow> bytes list list \<Rightarrow> sol_store \<Rightarrow> sol_error + sol_store"

definition TAG_INITIALIZE :: u8 where "TAG_INITIALIZE = 0"
definition TAG_LOCK_NATIVE_SOL :: u8 where "TAG_LOCK_NATIVE_SOL = 1"
definition TAG_LOCK_NATIVE_SOL_MNA :: u8 where "TAG_LOCK_NATIVE_SOL_MNA = 5"
definition TAG_RELEASE_NATIVE_SOL :: u8 where "TAG_RELEASE_NATIVE_SOL = 2"
definition TAG_LOCK_SPL :: u8 where "TAG_LOCK_SPL = 3"
definition TAG_RELEASE_SPL :: u8 where "TAG_RELEASE_SPL = 4"
definition STATE_LEN :: nat where "STATE_LEN = 96"
definition REPLAY_LEN :: nat where "REPLAY_LEN = 1"

lemmas tag_defs = TAG_INITIALIZE_def TAG_LOCK_NATIVE_SOL_def TAG_LOCK_NATIVE_SOL_MNA_def TAG_RELEASE_NATIVE_SOL_def
  TAG_LOCK_SPL_def TAG_RELEASE_SPL_def

section \<open>Reading arguments and accounts\<close>

definition read_u64 :: "bytes \<Rightarrow> sol_error + u64" where
  "read_u64 input = (if length input < 8 then Err SInvalidInstructionData else Ok (from_le_bytes (take 8 input)))"

definition read_id :: "bytes \<Rightarrow> sol_error + bytes" where
  "read_id input = (if length input < 32 then Err SInvalidInstructionData else Ok (take 32 input))"

definition pda :: "('a) sol_ext_scheme \<Rightarrow> pubkey \<Rightarrow> string \<Rightarrow> bytes option \<Rightarrow> pubkey \<times> u8" where
  "pda X program_id seed op_id =
     (case op_id of
        Some i \<Rightarrow> x_find_pda X program_id [str_bytes seed, i]
      | None \<Rightarrow> x_find_pda X program_id [str_bytes seed])"

definition read_state ::
    "sol_store \<Rightarrow> account_info \<Rightarrow> pubkey \<Rightarrow> sol_error + (pubkey \<times> pubkey \<times> pubkey)" where
  "read_state st state program_id =
     (let a = st (ai_key state) in
      if sa_owner a \<noteq> program_id \<or> length (sa_data a) \<noteq> STATE_LEN then Err SInvalidAccountData
      else Ok (take 32 (sa_data a), take 32 (drop 32 (sa_data a)), take 32 (drop 64 (sa_data a))))"

definition create_pda ::
    "('a) sol_ext_scheme \<Rightarrow> sol_store \<Rightarrow> account_info \<Rightarrow> account_info \<Rightarrow> account_info \<Rightarrow> pubkey \<Rightarrow> bytes list \<Rightarrow> nat \<Rightarrow>
     sol_error + sol_store" where
  "create_pda X st payer acct system program_id seeds space =
     (case x_find_pda X program_id seeds of (expected, bump) \<Rightarrow>
        if ai_key acct \<noteq> expected \<or> sa_owner (st (ai_key acct)) = program_id then Ok st
        else if sa_owner (st (ai_key acct)) \<noteq> SYSTEM_PROGRAM_ID then Err SIllegalOwner
        else x_invoke X program_id
               (CreateAccount (ai_key payer) (ai_key acct) (x_minimum_balance X space) (of_nat space) program_id)
               [payer, acct, system] [seeds @ [[bump]]] st)"

definition validate_replay :: "sol_store \<Rightarrow> account_info \<Rightarrow> pubkey \<Rightarrow> sol_error + unit" where
  "validate_replay st replay program_id =
     (if sa_owner (st (ai_key replay)) = program_id then Err SAccountAlreadyInitialized
      else if sa_owner (st (ai_key replay)) \<noteq> SYSTEM_PROGRAM_ID then Err SIllegalOwner
      else Ok ())"

definition read_token_account ::
    "('a) sol_ext_scheme \<Rightarrow> sol_store \<Rightarrow> account_info \<Rightarrow> pubkey \<Rightarrow> pubkey \<Rightarrow> sol_error + u64" where
  "read_token_account X st acct mint owner =
     (let a = st (ai_key acct) in
      if sa_owner a \<noteq> x_token_program X \<or> length (sa_data a) < 72 then Err SInvalidAccountData
      else if take 32 (sa_data a) \<noteq> mint \<or> take 32 (drop 32 (sa_data a)) \<noteq> owner then Err SInvalidAccountData
      else Ok (from_le_bytes (take 8 (drop 64 (sa_data a)))))"

definition read_recipient_token_account ::
    "('a) sol_ext_scheme \<Rightarrow> sol_store \<Rightarrow> account_info \<Rightarrow> pubkey \<Rightarrow> sol_error + unit" where
  "read_recipient_token_account X st acct mint =
     (let a = st (ai_key acct) in
      if sa_owner a \<noteq> x_token_program X \<or> length (sa_data a) < 72 then Err SInvalidAccountData
      else if take 32 (sa_data a) \<noteq> mint then Err SInvalidAccountData
      else Ok ())"

definition read_mint_decimals :: "('a) sol_ext_scheme \<Rightarrow> sol_store \<Rightarrow> account_info \<Rightarrow> sol_error + u8" where
  "read_mint_decimals X st mint =
     (let a = st (ai_key mint) in
      if sa_owner a \<noteq> x_token_program X \<or> length (sa_data a) < 45 then Err SInvalidAccountData
      else Ok (sa_data a ! 44))"

definition transfer_checked ::
    "('a) sol_ext_scheme \<Rightarrow> pubkey \<Rightarrow> sol_store \<Rightarrow> account_info \<Rightarrow> account_info \<Rightarrow> account_info \<Rightarrow> account_info \<Rightarrow>
     account_info \<Rightarrow> u64 \<Rightarrow> u8 \<Rightarrow> bytes list option \<Rightarrow> sol_error + sol_store" where
  "transfer_checked X program_id st token_program source_acct mint destination authority amount decimals signed_seeds =
     (if ai_key token_program \<noteq> x_token_program X then Err SIncorrectProgramId
      else x_invoke X program_id
             (ProgramInstruction (x_token_program X)
                [(ai_key source_acct, False, True), (ai_key mint, False, False), (ai_key destination, False, True),
                 (ai_key authority, True, False)]
                ([12] @ to_le_bytes amount @ [decimals]))
             [source_acct, mint, destination, authority, token_program]
             (case signed_seeds of None \<Rightarrow> [] | Some seeds \<Rightarrow> [seeds]) st)"

section \<open>The instructions\<close>

text \<open>The amount, the identifier and the destination of a lock, and the amount and identifier of a release.\<close>

definition lock_arguments :: "bytes \<Rightarrow> sol_error + (u64 \<times> bytes \<times> bytes)" where
  "lock_arguments rest =
     (case read_u64 rest of Inl e \<Rightarrow> Err e | Inr amount \<Rightarrow>
      (case read_id (drop 8 rest) of Inl e \<Rightarrow> Err e | Inr deposit_id \<Rightarrow>
        if length rest < 42 then Err SInvalidInstructionData
        else let dest_len = unat (from_le_bytes (take 2 (drop 40 rest)) :: u16)
             in if length rest < 42 + dest_len then Err SInvalidInstructionData
                else let destination = take dest_len (drop 42 rest)
                     in if amount = 0 \<or> dest_len = 0 \<or> 128 < dest_len \<or> \<not> list_all (\<lambda>b. b < 128) destination
                        then Err SInvalidArgument
                        else Ok (amount, deposit_id, destination)))"

definition release_arguments :: "bytes \<Rightarrow> sol_error + (u64 \<times> bytes)" where
  "release_arguments rest =
     (case read_u64 rest of Inl e \<Rightarrow> Err e | Inr amount \<Rightarrow>
      (case read_id (drop 8 rest) of Inl e \<Rightarrow> Err e | Inr burn_id \<Rightarrow> Ok (amount, burn_id)))"

text \<open>Create the account that marks an identifier as used.\<close>

definition take_replay ::
    "('a) sol_ext_scheme \<Rightarrow> sol_store \<Rightarrow> account_info \<Rightarrow> account_info \<Rightarrow> account_info \<Rightarrow> pubkey \<Rightarrow> string \<Rightarrow> bytes \<Rightarrow>
     sol_error + sol_store" where
  "take_replay X st payer replay system program_id seed op_id =
     (if ai_key replay \<noteq> fst (pda X program_id seed (Some op_id)) then Err SInvalidArgument
      else case validate_replay st replay program_id of
        Inl e \<Rightarrow> Err e
      | Inr _ \<Rightarrow> create_pda X st payer replay system program_id [str_bytes seed, op_id] REPLAY_LEN)"

definition configured_mint_of :: "bytes \<Rightarrow> pubkey" where
  "configured_mint_of rest = (if rest = [] then PUBKEY_DEFAULT else rest)"

definition write_state :: "pubkey \<Rightarrow> pubkey \<Rightarrow> pubkey \<Rightarrow> sol_store \<Rightarrow> pubkey \<Rightarrow> sol_error + sol_store" where
  "write_state state_key vault_key mint st authority =
     (let data = sa_data (st state_key) in
      if length data \<noteq> STATE_LEN then Err SInvalidAccountData
      else if take 32 data \<noteq> PUBKEY_DEFAULT \<and>
        (take 32 data \<noteq> authority \<or> take 32 (drop 32 data) \<noteq> vault_key \<or> take 32 (drop 64 data) \<noteq> mint)
      then Err SIllegalOwner
      else Ok (st(state_key := (st state_key)\<lparr>sa_data := authority @ vault_key @ mint\<rparr>)))"

definition process_initialize ::
    "('a) sol_ext_scheme \<Rightarrow> pubkey \<Rightarrow> account_info list \<Rightarrow> bytes \<Rightarrow> sol_store \<Rightarrow> sol_error + (sol_store \<times> string list)" where
  "process_initialize X program_id accounts rest st =
     (case accounts of
        authority # state # vault # system # _ \<Rightarrow>
          if \<not> ai_is_signer authority \<or> \<not> ai_is_writable state \<or> \<not> ai_is_writable vault \<or> ai_key system \<noteq> SYSTEM_PROGRAM_ID
          then Err SMissingRequiredSignature
          else if length rest \<noteq> 0 \<and> length rest \<noteq> 32 then Err SInvalidInstructionData
          else if ai_key state \<noteq> fst (pda X program_id ''intertrain-wsol-state'' None) \<or>
            ai_key vault \<noteq> fst (pda X program_id ''intertrain-wsol-vault'' None)
          then Err SInvalidArgument
          else case create_pda X st authority state system program_id [str_bytes ''intertrain-wsol-state''] STATE_LEN of
            Inl e \<Rightarrow> Err e
          | Inr st1 \<Rightarrow>
              (case create_pda X st1 authority vault system program_id [str_bytes ''intertrain-wsol-vault''] 0 of
                 Inl e \<Rightarrow> Err e
               | Inr st2 \<Rightarrow>
                   (case write_state (ai_key state) (ai_key vault) (configured_mint_of rest) st2 (ai_key authority) of
                      Inl e \<Rightarrow> Err e
                    | Inr st3 \<Rightarrow>
                        Ok (st3, [''INTERTRAIN_INITIALIZED authority='' @ x_base58 X (ai_key authority) @
                          '' vault='' @ x_base58 X (ai_key vault) @
                          '' spl_mint='' @ x_base58 X (configured_mint_of rest)])))
      | _ \<Rightarrow> Err SNotEnoughAccountKeys)"

text \<open>Tags 1 and 5: SOL from the depositor into the vault.\<close>

definition lock_native_log :: "('a) sol_ext_scheme \<Rightarrow> u8 \<Rightarrow> bytes \<Rightarrow> u64 \<Rightarrow> bytes \<Rightarrow> string" where
  "lock_native_log X tag deposit_id amount destination =
     (if tag = TAG_LOCK_NATIVE_SOL_MNA then ''INTERTRAIN_SOL_MNA_DEPOSIT id='' else ''INTERTRAIN_WSOL_DEPOSIT id='') @
     x_hex X deposit_id @ '' amount='' @ show_nat (unat amount) @ '' destination='' @ bytes_str destination"

definition process_lock_native ::
    "('a) sol_ext_scheme \<Rightarrow> pubkey \<Rightarrow> account_info list \<Rightarrow> u8 \<Rightarrow> bytes \<Rightarrow> sol_store \<Rightarrow> sol_error + (sol_store \<times> string list)" where
  "process_lock_native X program_id accounts tag rest st =
     (case lock_arguments rest of Inl e \<Rightarrow> Err e | Inr (amount, deposit_id, destination) \<Rightarrow>
      (case accounts of
         depositor # vault # state # replay # system # _ \<Rightarrow>
           if \<not> ai_is_signer depositor \<or> \<not> ai_is_writable vault \<or> \<not> ai_is_writable replay \<or>
             ai_key system \<noteq> SYSTEM_PROGRAM_ID
           then Err SMissingRequiredSignature
           else case read_state st state program_id of Inl e \<Rightarrow> Err e | Inr (_, expected_vault, _) \<Rightarrow>
             if expected_vault \<noteq> ai_key vault \<or> sa_owner (st (ai_key vault)) \<noteq> program_id then Err SInvalidAccountData
             else (case take_replay X st depositor replay system program_id ''deposit'' deposit_id of
               Inl e \<Rightarrow> Err e
             | Inr st1 \<Rightarrow>
                 (case x_invoke X program_id (SystemTransfer (ai_key depositor) (ai_key vault) amount)
                         [depositor, vault, system] [] st1 of
                    Inl e \<Rightarrow> Err e
                  | Inr st2 \<Rightarrow> Ok (st2, [lock_native_log X tag deposit_id amount destination])))
       | _ \<Rightarrow> Err SNotEnoughAccountKeys))"

text \<open>Tag 2: SOL from the vault to a recipient, which may be the vault or the new replay account itself.\<close>

definition move_lamports :: "pubkey \<Rightarrow> pubkey \<Rightarrow> u64 \<Rightarrow> sol_store \<Rightarrow> sol_error + sol_store" where
  "move_lamports vault recipient amount st =
     (if sa_lamports (st vault) < amount then Err SInsufficientFunds
      else let st1 = st(vault := (st vault)\<lparr>sa_lamports := sa_lamports (st vault) - amount\<rparr>)
           in case checked_add (sa_lamports (st1 recipient)) amount of
                None \<Rightarrow> Err SArithmeticOverflow
              | Some credited \<Rightarrow> Ok (st1(recipient := (st1 recipient)\<lparr>sa_lamports := credited\<rparr>)))"

definition process_release_native ::
    "('a) sol_ext_scheme \<Rightarrow> pubkey \<Rightarrow> account_info list \<Rightarrow> bytes \<Rightarrow> sol_store \<Rightarrow> sol_error + (sol_store \<times> string list)" where
  "process_release_native X program_id accounts rest st =
     (case release_arguments rest of Inl e \<Rightarrow> Err e | Inr (amount, burn_id) \<Rightarrow>
      (case accounts of
         authority # state # vault # recipient # replay # system # _ \<Rightarrow>
           if \<not> ai_is_signer authority \<or> \<not> ai_is_writable vault \<or> \<not> ai_is_writable recipient \<or>
             \<not> ai_is_writable replay \<or> ai_key system \<noteq> SYSTEM_PROGRAM_ID
           then Err SMissingRequiredSignature
           else case read_state st state program_id of
             Inl e \<Rightarrow> Err e
           | Inr (expected_authority, expected_vault, _) \<Rightarrow>
             if expected_authority \<noteq> ai_key authority \<or> expected_vault \<noteq> ai_key vault \<or>
               sa_owner (st (ai_key vault)) \<noteq> program_id \<or> amount = 0
             then Err SInvalidArgument
             else (case take_replay X st authority replay system program_id ''release'' burn_id of
               Inl e \<Rightarrow> Err e
             | Inr st1 \<Rightarrow>
                 (case move_lamports (ai_key vault) (ai_key recipient) amount st1 of
                    Inl e \<Rightarrow> Err e
                  | Inr st2 \<Rightarrow>
                      Ok (st2, [''INTERTRAIN_WSOL_RELEASE id='' @ x_hex X burn_id @ '' amount='' @
                        show_nat (unat amount) @ '' recipient='' @ x_base58 X (ai_key recipient)])))
       | _ \<Rightarrow> Err SNotEnoughAccountKeys))"

text \<open>Tag 3: tokens of the configured mint from the depositor into the token account of the vault.\<close>

definition process_lock_spl ::
    "('a) sol_ext_scheme \<Rightarrow> pubkey \<Rightarrow> account_info list \<Rightarrow> bytes \<Rightarrow> sol_store \<Rightarrow> sol_error + (sol_store \<times> string list)" where
  "process_lock_spl X program_id accounts rest st =
     (case lock_arguments rest of Inl e \<Rightarrow> Err e | Inr (amount, deposit_id, destination) \<Rightarrow>
      (case accounts of
         depositor # source_acct # mint # vault_token # vault # state # replay # token_program # system # _ \<Rightarrow>
           if \<not> ai_is_signer depositor \<or> \<not> ai_is_writable source_acct \<or> \<not> ai_is_writable vault_token \<or>
             \<not> ai_is_writable replay \<or> ai_key system \<noteq> SYSTEM_PROGRAM_ID
           then Err SMissingRequiredSignature
           else case read_state st state program_id of
             Inl e \<Rightarrow> Err e
           | Inr (_, expected_vault, expected_mint) \<Rightarrow>
             if expected_mint = PUBKEY_DEFAULT \<or> expected_vault \<noteq> ai_key vault \<or> expected_mint \<noteq> ai_key mint
             then Err SInvalidArgument
             else (case read_mint_decimals X st mint of Inl e \<Rightarrow> Err e | Inr decimals \<Rightarrow>
               (case read_token_account X st source_acct (ai_key mint) (ai_key depositor) of Inl e \<Rightarrow> Err e | Inr _ \<Rightarrow>
               (case read_token_account X st vault_token (ai_key mint) (ai_key vault) of Inl e \<Rightarrow> Err e | Inr _ \<Rightarrow>
               (case take_replay X st depositor replay system program_id ''spl-deposit'' deposit_id of
                 Inl e \<Rightarrow> Err e
               | Inr st1 \<Rightarrow>
                   (case transfer_checked X program_id st1 token_program source_acct mint vault_token depositor
                           amount decimals None of
                      Inl e \<Rightarrow> Err e
                    | Inr st2 \<Rightarrow>
                        Ok (st2, [''INTERTRAIN_SPL_DEPOSIT id='' @ x_hex X deposit_id @ '' mint='' @
                          x_base58 X (ai_key mint) @ '' amount='' @ show_nat (unat amount) @ '' decimals='' @
                          show_nat (unat decimals) @ '' destination='' @ bytes_str destination]))))))
       | _ \<Rightarrow> Err SNotEnoughAccountKeys))"

text \<open>Tag 4: tokens back; the transfer names \<open>state\<close> as authority and signs with the seeds of the vault.\<close>

definition process_release_spl ::
    "('a) sol_ext_scheme \<Rightarrow> pubkey \<Rightarrow> account_info list \<Rightarrow> bytes \<Rightarrow> sol_store \<Rightarrow> sol_error + (sol_store \<times> string list)" where
  "process_release_spl X program_id accounts rest st =
     (case release_arguments rest of Inl e \<Rightarrow> Err e | Inr (amount, burn_id) \<Rightarrow>
      (case accounts of
         authority # state # vault_token # recipient_token # mint # replay # token_program # system # _ \<Rightarrow>
           if \<not> ai_is_signer authority \<or> \<not> ai_is_writable vault_token \<or> \<not> ai_is_writable recipient_token \<or>
             \<not> ai_is_writable replay \<or> ai_key system \<noteq> SYSTEM_PROGRAM_ID
           then Err SMissingRequiredSignature
           else case read_state st state program_id of
             Inl e \<Rightarrow> Err e
           | Inr (expected_authority, expected_vault, expected_mint) \<Rightarrow>
             if expected_authority \<noteq> ai_key authority \<or> expected_mint = PUBKEY_DEFAULT \<or>
               expected_mint \<noteq> ai_key mint \<or> amount = 0
             then Err SInvalidArgument
             else (case read_token_account X st vault_token (ai_key mint) expected_vault of
               Inl e \<Rightarrow> Err e
             | Inr vault_balance \<Rightarrow>
               (case read_mint_decimals X st mint of Inl e \<Rightarrow> Err e | Inr _ \<Rightarrow>
                if vault_balance < amount then Err SInsufficientFunds
                else (case read_recipient_token_account X st recipient_token (ai_key mint) of
                  Inl e \<Rightarrow> Err e
                | Inr _ \<Rightarrow>
                  (case take_replay X st authority replay system program_id ''spl-release'' burn_id of
                    Inl e \<Rightarrow> Err e
                  | Inr st1 \<Rightarrow>
                    (case read_mint_decimals X st1 mint of Inl e \<Rightarrow> Err e | Inr decimals \<Rightarrow>
                      (case transfer_checked X program_id st1 token_program vault_token mint recipient_token state
                              amount decimals
                              (Some [str_bytes ''intertrain-wsol-vault'',
                                     [snd (pda X program_id ''intertrain-wsol-vault'' None)]]) of
                         Inl e \<Rightarrow> Err e
                       | Inr st2 \<Rightarrow>
                           Ok (st2, [''INTERTRAIN_SPL_RELEASE id='' @ x_hex X burn_id @ '' mint='' @
                             x_base58 X (ai_key mint) @ '' amount='' @ show_nat (unat amount) @ '' recipient_token='' @
                             x_base58 X (ai_key recipient_token)])))))))
       | _ \<Rightarrow> Err SNotEnoughAccountKeys))"

definition process_instruction ::
    "('a) sol_ext_scheme \<Rightarrow> pubkey \<Rightarrow> account_info list \<Rightarrow> bytes \<Rightarrow> sol_store \<Rightarrow> sol_error + (sol_store \<times> string list)" where
  "process_instruction X program_id accounts input st =
     (case input of
        [] \<Rightarrow> Err SInvalidInstructionData
      | tag # rest \<Rightarrow>
          if tag = TAG_INITIALIZE then process_initialize X program_id accounts rest st
          else if tag = TAG_LOCK_NATIVE_SOL \<or> tag = TAG_LOCK_NATIVE_SOL_MNA
          then process_lock_native X program_id accounts tag rest st
          else if tag = TAG_RELEASE_NATIVE_SOL then process_release_native X program_id accounts rest st
          else if tag = TAG_LOCK_SPL then process_lock_spl X program_id accounts rest st
          else if tag = TAG_RELEASE_SPL then process_release_spl X program_id accounts rest st
          else Err SInvalidInstructionData)"

end
