(* ===== verification/Solana_Safety.thy ===== *)
theory Solana_Safety
  imports Solana_Bridge
begin

text \<open>
  What the bridge program keeps true over any run on the ledger of Solana: calls of the program, with
  whatever accounts the caller chose, between steps of other programs. The laws of the runtime and of
  the system program are the hypotheses \<open>runtime_ok\<close>; what other programs can do is \<open>mild\<close>.
\<close>

section \<open>The runtime\<close>

definition state_key :: "('a) sol_ext_scheme \<Rightarrow> pubkey \<Rightarrow> pubkey" where
  "state_key X p = fst (pda X p ''intertrain-wsol-state'' None)"

definition vault_key :: "('a) sol_ext_scheme \<Rightarrow> pubkey \<Rightarrow> pubkey" where
  "vault_key X p = fst (pda X p ''intertrain-wsol-vault'' None)"

definition all_zero :: "bytes \<Rightarrow> bool" where
  "all_zero bs = list_all (\<lambda>b. b = 0) bs"

text \<open>
  The rules for a step of other programs, for the accounts of program \<open>p\<close>: only \<open>p\<close> debits or
  rewrites them, an account is handed to \<open>p\<close> with zeroed data only, and the owner of the system
  program's own account stays.
\<close>

definition mild :: "pubkey \<Rightarrow> sol_store \<Rightarrow> sol_store \<Rightarrow> bool" where
  "mild p st st' \<longleftrightarrow>
     (\<forall>k. sa_owner (st k) = p \<longrightarrow>
        sa_owner (st' k) = p \<and> sa_data (st' k) = sa_data (st k) \<and> sa_lamports (st k) \<le> sa_lamports (st' k)) \<and>
     (\<forall>k. sa_owner (st' k) = p \<longrightarrow> sa_owner (st k) \<noteq> p \<longrightarrow> all_zero (sa_data (st' k))) \<and>
     sa_owner (st' SYSTEM_PROGRAM_ID) = sa_owner (st SYSTEM_PROGRAM_ID)"

text \<open>
  The documented behaviour of \<open>invoke\<close>: it is a step of another program; an account that an instruction
  needs as signer signed the transaction or has an address derived from the given seeds; the system
  program creates only unused accounts and moves exactly the lamports of a transfer.
\<close>

definition invoke_signers :: "('a) sol_ext_scheme \<Rightarrow> pubkey \<Rightarrow> bool" where
  "invoke_signers X p \<longleftrightarrow>
     (\<forall>q metas data infos seeds st st' k w.
        x_invoke X p (ProgramInstruction q metas data) infos seeds st = Ok st' \<longrightarrow> (k, True, w) \<in> set metas \<longrightarrow>
        (\<exists>a \<in> set infos. ai_key a = k \<and> ai_is_signer a) \<or> (\<exists>ss \<in> set seeds. x_create_address X p ss = Some k))"

definition invoke_create :: "('a) sol_ext_scheme \<Rightarrow> pubkey \<Rightarrow> bool" where
  "invoke_create X p \<longleftrightarrow>
     (\<forall>payer new lamports space owner infos seeds st st'.
        x_invoke X p (CreateAccount payer new lamports space owner) infos seeds st = Ok st' \<longrightarrow>
        sa_lamports (st new) = 0 \<and> sa_data (st new) = [] \<and> sa_owner (st' new) = owner \<and>
        sa_data (st' new) = replicate (unat space) 0 \<and>
        (\<forall>k. k \<noteq> payer \<longrightarrow> k \<noteq> new \<longrightarrow> st' k = st k))"

definition invoke_transfer :: "('a) sol_ext_scheme \<Rightarrow> pubkey \<Rightarrow> bool" where
  "invoke_transfer X p \<longleftrightarrow>
     (\<forall>payer payee amount infos seeds st st'.
        x_invoke X p (SystemTransfer payer payee amount) infos seeds st = Ok st' \<longrightarrow>
        sa_owner (st payer) = SYSTEM_PROGRAM_ID \<and>
        (payer \<noteq> payee \<longrightarrow>
           unat (sa_lamports (st' payee)) = unat (sa_lamports (st payee)) + unat amount \<and>
           unat (sa_lamports (st payer)) = unat (sa_lamports (st' payer)) + unat amount) \<and>
        (\<forall>k. k \<noteq> payer \<longrightarrow> k \<noteq> payee \<longrightarrow> st' k = st k))"

definition runtime_ok :: "('a) sol_ext_scheme \<Rightarrow> pubkey \<Rightarrow> bool" where
  "runtime_ok X p \<longleftrightarrow>
     (\<forall>i infos seeds st st'. x_invoke X p i infos seeds st = Ok st' \<longrightarrow> mild p st st') \<and>
     invoke_signers X p \<and> invoke_create X p \<and> invoke_transfer X p"

text \<open>Keys have 32 bytes; an address derived from the program and the system program's key cannot sign.\<close>

definition valid_accounts :: "('a) sol_ext_scheme \<Rightarrow> pubkey \<Rightarrow> account_info list \<Rightarrow> bool" where
  "valid_accounts X p accounts \<longleftrightarrow>
     (\<forall>a \<in> set accounts. length (ai_key a) = 32 \<and>
        (ai_is_signer a \<longrightarrow> ai_key a \<noteq> SYSTEM_PROGRAM_ID \<and>
           ai_key a \<notin> {state_key X p, vault_key X p}))"

lemma mild_refl: "mild p st st"
  by (simp add: mild_def)

lemma mild_trans:
  assumes "mild p st st1" "mild p st1 st2"
  shows "mild p st st2"
  unfolding mild_def
proof (intro conjI allI impI)
  fix k
  show "sa_owner (st2 k) = p" "sa_data (st2 k) = sa_data (st k)" "sa_lamports (st k) \<le> sa_lamports (st2 k)"
    if "sa_owner (st k) = p"
    using assms that by (auto simp: mild_def intro: order_trans)
  show "all_zero (sa_data (st2 k))" if "sa_owner (st2 k) = p" "sa_owner (st k) \<noteq> p"
    using assms that by (cases "sa_owner (st1 k) = p") (auto simp: mild_def)
qed (use assms in \<open>simp add: mild_def\<close>)

lemma runtime_mild: "runtime_ok X p \<Longrightarrow> x_invoke X p i infos seeds st = Ok st' \<Longrightarrow> mild p st st'"
  by (auto simp: runtime_ok_def)

lemma mild_data: "mild p st st' \<Longrightarrow> sa_owner (st k) = p \<Longrightarrow> sa_data (st' k) = sa_data (st k)"
  by (simp add: mild_def)

lemma mild_owner: "mild p st st' \<Longrightarrow> sa_owner (st k) = p \<Longrightarrow> sa_owner (st' k) = p"
  by (simp add: mild_def)

lemma mild_lamports: "mild p st st' \<Longrightarrow> sa_owner (st k) = p \<Longrightarrow> sa_lamports (st k) \<le> sa_lamports (st' k)"
  by (simp add: mild_def)

section \<open>Replay accounts\<close>

lemma create_pda_mild:
  "runtime_ok X p \<Longrightarrow> create_pda X st payer acct system p seeds space = Ok st' \<Longrightarrow> mild p st st'"
  by (auto simp: create_pda_def mild_refl dest: runtime_mild split: prod.splits if_splits)

lemma take_replay_Ok:
  assumes "runtime_ok X p" "take_replay X st payer replay system p seed op_id = Ok st'"
  shows "ai_key replay = fst (pda X p seed (Some op_id))" "sa_owner (st (ai_key replay)) = SYSTEM_PROGRAM_ID"
    "sa_owner (st (ai_key replay)) \<noteq> p" "sa_lamports (st (ai_key replay)) = 0"
    "sa_owner (st' (ai_key replay)) = p" "mild p st st'"
    "\<And>k. k \<noteq> ai_key payer \<Longrightarrow> k \<noteq> ai_key replay \<Longrightarrow> st' k = st k"
proof -
  let ?k = "ai_key replay"
  from assms(2) have k: "?k = fst (pda X p seed (Some op_id))"
    and owner: "sa_owner (st ?k) \<noteq> p" "sa_owner (st ?k) = SYSTEM_PROGRAM_ID"
    and create: "create_pda X st payer replay system p [str_bytes seed, op_id] REPLAY_LEN = Ok st'"
    by (auto simp: take_replay_def validate_replay_def split: if_splits)
  from k have "fst (x_find_pda X p [str_bytes seed, op_id]) = ?k" by (simp add: pda_def)
  with create owner obtain rent space seeds where
    "x_invoke X p (CreateAccount (ai_key payer) ?k rent space p) [payer, replay, system] seeds st = Ok st'"
    by (auto simp: create_pda_def split: prod.splits if_splits)
  with assms(1) have "sa_lamports (st ?k) = 0 \<and> sa_owner (st' ?k) = p \<and>
      (\<forall>k. k \<noteq> ai_key payer \<longrightarrow> k \<noteq> ?k \<longrightarrow> st' k = st k)"
    unfolding runtime_ok_def invoke_create_def by blast
  then show "sa_lamports (st ?k) = 0" "sa_owner (st' ?k) = p"
    "\<And>k. k \<noteq> ai_key payer \<Longrightarrow> k \<noteq> ?k \<Longrightarrow> st' k = st k" by auto
  show "mild p st st'" using create_pda_mild assms(1) create .
  show "ai_key replay = fst (pda X p seed (Some op_id))" "sa_owner (st ?k) \<noteq> p"
    "sa_owner (st ?k) = SYSTEM_PROGRAM_ID" by (fact k, fact owner(1), fact owner(2))
qed


section \<open>The instructions that succeed\<close>

lemma lock_native_Ok:
  assumes "process_lock_native X p accounts tag rest st = Ok (st', logs)"
  obtains amount deposit_id destination depositor vault state replay system more authority mint st1 where
    "lock_arguments rest = Ok (amount, deposit_id, destination)"
    "accounts = depositor # vault # state # replay # system # more" "ai_is_signer depositor"
    "read_state st state p = Ok (authority, ai_key vault, mint)" "sa_owner (st (ai_key vault)) = p"
    "take_replay X st depositor replay system p ''deposit'' deposit_id = Ok st1"
    "x_invoke X p (SystemTransfer (ai_key depositor) (ai_key vault) amount) [depositor, vault, system] [] st1 = Ok st'"
    "logs = [lock_native_log X tag deposit_id amount destination]"
  using assms that unfolding process_lock_native_def
  by (clarsimp split: sum.splits list.splits if_splits)

lemma release_native_Ok:
  assumes "process_release_native X p accounts rest st = Ok (st', logs)"
  obtains amount burn_id authority state vault recipient replay system more mint st1 where
    "release_arguments rest = Ok (amount, burn_id)"
    "accounts = authority # state # vault # recipient # replay # system # more" "ai_is_signer authority"
    "read_state st state p = Ok (ai_key authority, ai_key vault, mint)" "sa_owner (st (ai_key vault)) = p" "amount \<noteq> 0"
    "take_replay X st authority replay system p ''release'' burn_id = Ok st1"
    "move_lamports (ai_key vault) (ai_key recipient) amount st1 = Ok st'"
  using assms that unfolding process_release_native_def
  by (clarsimp split: sum.splits list.splits if_splits)

lemma lock_spl_Ok:
  assumes "process_lock_spl X p accounts rest st = Ok (st', logs)"
  obtains amount deposit_id destination depositor source_acct mint vault_token vault state replay token_program system more
      authority decimals st1 where
    "lock_arguments rest = Ok (amount, deposit_id, destination)"
    "accounts = depositor # source_acct # mint # vault_token # vault # state # replay # token_program # system # more"
    "ai_is_signer depositor" "read_state st state p = Ok (authority, ai_key vault, ai_key mint)"
    "ai_key mint \<noteq> PUBKEY_DEFAULT"
    "take_replay X st depositor replay system p ''spl-deposit'' deposit_id = Ok st1"
    "transfer_checked X p st1 token_program source_acct mint vault_token depositor amount decimals None = Ok st'"
  using assms that unfolding process_lock_spl_def
  by (clarsimp split: sum.splits list.splits if_splits)

lemma release_spl_Ok:
  assumes "process_release_spl X p accounts rest st = Ok (st', logs)"
  obtains amount burn_id authority state vault_token recipient_token mint replay token_program system more vault decimals st1
  where
    "release_arguments rest = Ok (amount, burn_id)"
    "accounts = authority # state # vault_token # recipient_token # mint # replay # token_program # system # more"
    "ai_is_signer authority" "read_state st state p = Ok (ai_key authority, vault, ai_key mint)"
    "ai_key mint \<noteq> PUBKEY_DEFAULT"
    "take_replay X st authority replay system p ''spl-release'' burn_id = Ok st1"
    "transfer_checked X p st1 token_program vault_token mint recipient_token state amount decimals
       (Some [str_bytes ''intertrain-wsol-vault'', [snd (pda X p ''intertrain-wsol-vault'' None)]]) = Ok st'"
  using assms that unfolding process_release_spl_def
  by (clarsimp split: sum.splits list.splits if_splits)

lemma initialize_Ok:
  assumes "process_initialize X p accounts rest st = Ok (st', logs)"
  obtains authority state vault system more st1 st2 where
    "accounts = authority # state # vault # system # more" "ai_is_signer authority"
    "length rest = 0 \<or> length rest = 32" "ai_key state = state_key X p" "ai_key vault = vault_key X p"
    "create_pda X st authority state system p [str_bytes ''intertrain-wsol-state''] STATE_LEN = Ok st1"
    "create_pda X st1 authority vault system p [str_bytes ''intertrain-wsol-vault''] 0 = Ok st2"
    "write_state (ai_key state) (ai_key vault) (configured_mint_of rest) st2 (ai_key authority) = Ok st'"
  using assms that unfolding process_initialize_def
  by (clarsimp simp: state_key_def vault_key_def split: sum.splits list.splits if_splits)

lemma transfer_checked_mild:
  "runtime_ok X p \<Longrightarrow> transfer_checked X p st tp src mint dst auth amount dec seeds = Ok st' \<Longrightarrow> mild p st st'"
  by (auto simp: transfer_checked_def dest: runtime_mild split: if_splits)

lemma move_lamports_frame:
  assumes "move_lamports vault recipient amount st = Ok st'"
  shows "sa_owner (st' k) = sa_owner (st k)" "sa_data (st' k) = sa_data (st k)"
  using assms by (auto simp: move_lamports_def Let_def split: if_splits option.splits)

lemma write_state_Ok:
  assumes "write_state sk vk mint st authority = Ok st'"
  shows "length (sa_data (st sk)) = STATE_LEN"
    "take 32 (sa_data (st sk)) = PUBKEY_DEFAULT \<or>
      take 32 (sa_data (st sk)) = authority \<and> take 32 (drop 32 (sa_data (st sk))) = vk \<and>
      take 32 (drop 64 (sa_data (st sk))) = mint"
    "st' = st(sk := (st sk)\<lparr>sa_data := authority @ vk @ mint\<rparr>)"
  using assms by (auto simp: write_state_def Let_def split: if_splits)

section \<open>The invariant\<close>

text \<open>
  The accounts of the program that are not blank are the state account, which holds an authority and
  names the vault.
\<close>

definition initialized :: "('a) sol_ext_scheme \<Rightarrow> pubkey \<Rightarrow> sol_store \<Rightarrow> bool" where
  "initialized X p st \<longleftrightarrow>
     (let a = st (state_key X p) in
      sa_owner a = p \<and> length (sa_data a) = STATE_LEN \<and> take 32 (sa_data a) \<noteq> PUBKEY_DEFAULT \<and>
      take 32 (drop 32 (sa_data a)) = vault_key X p)"

definition bridge_inv :: "('a) sol_ext_scheme \<Rightarrow> pubkey \<Rightarrow> sol_store \<Rightarrow> bool" where
  "bridge_inv X p st \<longleftrightarrow>
     sa_owner (st SYSTEM_PROGRAM_ID) \<noteq> p \<and>
     (\<forall>k. sa_owner (st k) = p \<longrightarrow> \<not> all_zero (sa_data (st k)) \<longrightarrow> k = state_key X p \<and> initialized X p st)"

lemma mild_initialized: "initialized X p st \<Longrightarrow> mild p st st' \<Longrightarrow> initialized X p st'"
  by (simp add: initialized_def mild_def Let_def)

lemma mild_inv:
  assumes "bridge_inv X p st" "mild p st st'"
  shows "bridge_inv X p st'"
  unfolding bridge_inv_def
proof (intro conjI allI impI)
  show "sa_owner (st' SYSTEM_PROGRAM_ID) \<noteq> p" using assms by (simp add: bridge_inv_def mild_def)
  fix k assume k: "sa_owner (st' k) = p" "\<not> all_zero (sa_data (st' k))"
  with assms(2) have "sa_owner (st k) = p" by (auto simp: mild_def)
  moreover from this have "\<not> all_zero (sa_data (st k))" using assms(2) k by (simp add: mild_def)
  ultimately show "k = state_key X p" "initialized X p st'"
    using assms(1) mild_initialized[OF _ assms(2)] by (auto simp: bridge_inv_def)
qed

lemma frame_inv:
  assumes "bridge_inv X p st" "\<And>k. sa_owner (st' k) = sa_owner (st k)" "\<And>k. sa_data (st' k) = sa_data (st k)"
  shows "bridge_inv X p st'"
  using assms by (auto simp: bridge_inv_def initialized_def Let_def)

text \<open>A state account that passes the checks of the program is the one that was initialized.\<close>

lemma all_zero_take: "all_zero bs \<Longrightarrow> n + 32 \<le> length bs \<Longrightarrow> take 32 (drop n bs) = replicate 32 0"
  by (auto simp: all_zero_def list_all_length list_eq_iff_nth_eq)

lemma read_state_Ok:
  assumes "bridge_inv X p st" "read_state st state p = Ok (authority, vault, mint)"
  shows "(ai_key state = state_key X p \<and> vault = vault_key X p \<and> initialized X p st \<and> sa_data (st (state_key X p)) \<noteq> [] \<and>
       authority = take 32 (sa_data (st (state_key X p))) \<and> mint = take 32 (drop 64 (sa_data (st (state_key X p))))) \<or>
     (authority = PUBKEY_DEFAULT \<and> vault = PUBKEY_DEFAULT \<and> mint = PUBKEY_DEFAULT)"
proof -
  let ?d = "sa_data (st (ai_key state))"
  from assms(2) have d: "sa_owner (st (ai_key state)) = p" "length ?d = 96" "authority = take 32 ?d"
    "vault = take 32 (drop 32 ?d)" "mint = take 32 (drop 64 ?d)"
    by (auto simp: read_state_def Let_def STATE_LEN_def split: if_splits)
  show ?thesis
  proof (cases "all_zero ?d")
    case True
    with d show ?thesis using all_zero_take[of ?d 0] all_zero_take[of ?d 32] all_zero_take[of ?d 64]
      by (simp add: PUBKEY_DEFAULT_def)
  next
    case False
    with d assms(1) have "ai_key state = state_key X p" "initialized X p st" by (auto simp: bridge_inv_def)
    with d show ?thesis by (auto simp: initialized_def Let_def)
  qed
qed


lemma create_pda_owner:
  assumes "runtime_ok X p" "create_pda X st payer acct system p seeds space = Ok st'"
    "ai_key acct = fst (x_find_pda X p seeds)"
  shows "sa_owner (st' (ai_key acct)) = p"
proof (cases "sa_owner (st (ai_key acct)) = p")
  case True
  then show ?thesis using create_pda_mild[OF assms(1,2)] by (rule mild_owner[rotated])
next
  case False
  with assms(2,3) obtain rent space' seeds' where
    "x_invoke X p (CreateAccount (ai_key payer) (ai_key acct) rent space' p) [payer, acct, system] seeds' st = Ok st'"
    by (auto simp: create_pda_def split: prod.splits if_splits)
  with assms(1) show ?thesis unfolding runtime_ok_def invoke_create_def by blast
qed

lemma state_parts:
  "length data = 96 \<Longrightarrow> take 32 data @ take 32 (drop 32 data) @ take 32 (drop 64 data) = data"
  by (rule nth_equalityI) (auto simp: nth_append min_def)

lemma initialize_effect:
  assumes R: "runtime_ok X p" and inv: "bridge_inv X p st" and V: "valid_accounts X p accounts"
    and ok: "process_initialize X p accounts rest st = Ok (st', logs)"
  shows "bridge_inv X p st'" "initialized X p st'"
    "sa_owner (st k) = p \<Longrightarrow> sa_owner (st' k) = p \<and> sa_lamports (st k) \<le> sa_lamports (st' k)"
    "initialized X p st \<Longrightarrow> sa_data (st' (state_key X p)) = sa_data (st (state_key X p))"
proof -
  from ok obtain authority state vault system more st1 st2 where
    a: "accounts = authority # state # vault # system # more" "ai_is_signer authority"
      "length rest = 0 \<or> length rest = 32" and
    keys: "ai_key state = state_key X p" "ai_key vault = vault_key X p" and
    c1: "create_pda X st authority state system p [str_bytes ''intertrain-wsol-state''] STATE_LEN = Ok st1" and
    c2: "create_pda X st1 authority vault system p [str_bytes ''intertrain-wsol-vault''] 0 = Ok st2" and
    w: "write_state (ai_key state) (ai_key vault) (configured_mint_of rest) st2 (ai_key authority) = Ok st'"
    by (rule initialize_Ok)
  let ?s = "state_key X p" and ?mint = "configured_mint_of rest"
  have m: "mild p st st2" using create_pda_mild[OF R c1] create_pda_mild[OF R c2] by (rule mild_trans)
  have owner: "sa_owner (st2 ?s) = p"
    using mild_owner[OF create_pda_mild[OF R c2], of ?s] create_pda_owner[OF R c1] keys
    by (simp add: state_key_def pda_def)
  note w = write_state_Ok[OF w, unfolded keys]
  have len: "length (ai_key authority) = 32" "length (vault_key X p) = 32" "length ?mint = 32"
    using V a keys by (auto simp: valid_accounts_def configured_mint_of_def PUBKEY_DEFAULT_def)
  have auth: "ai_key authority \<noteq> PUBKEY_DEFAULT"
    using V a by (simp add: valid_accounts_def PUBKEY_DEFAULT_def SYSTEM_PROGRAM_ID_def)
  show init': "initialized X p st'"
    using w(3) owner len auth by (simp add: initialized_def STATE_LEN_def)
  have inv2: "bridge_inv X p st2" by (rule mild_inv[OF inv m])
  show "bridge_inv X p st'"
    unfolding bridge_inv_def
  proof (intro conjI allI impI)
    show "sa_owner (st' SYSTEM_PROGRAM_ID) \<noteq> p" using inv2 w(3) by (auto simp: bridge_inv_def)
    fix j assume j: "sa_owner (st' j) = p" "\<not> all_zero (sa_data (st' j))"
    show "j = ?s"
    proof (rule ccontr)
      assume "j \<noteq> ?s"
      with j w(3) have "sa_owner (st2 j) = p" "\<not> all_zero (sa_data (st2 j))" by simp_all
      with inv2 \<open>j \<noteq> ?s\<close> show False by (auto simp: bridge_inv_def)
    qed
    show "initialized X p st'" by (fact init')
  qed
  show "sa_owner (st' k) = p \<and> sa_lamports (st k) \<le> sa_lamports (st' k)" if "sa_owner (st k) = p"
    using mild_owner[OF m that] mild_lamports[OF m that] w(3) by auto
  show "sa_data (st' ?s) = sa_data (st ?s)" if init: "initialized X p st"
  proof -
    have "sa_data (st2 ?s) = sa_data (st ?s)" using mild_data[OF m] init by (simp add: initialized_def Let_def)
    moreover from this have "take 32 (sa_data (st2 ?s)) \<noteq> PUBKEY_DEFAULT" "length (sa_data (st2 ?s)) = 96"
      using init by (simp_all add: initialized_def Let_def STATE_LEN_def)
    ultimately show ?thesis using w(2,3) len(3) state_parts[of "sa_data (st2 ?s)"] by auto
  qed
qed

section \<open>One instruction\<close>

text \<open>The identifier that an instruction uses up, with the class of the operations it is unique in.\<close>

definition operation_of :: "bytes \<Rightarrow> (string \<times> bytes) option" where
  "operation_of input =
     (case input of
        [] \<Rightarrow> None
      | tag # rest \<Rightarrow>
          let op_id = take 32 (drop 8 rest)
          in if tag = TAG_LOCK_NATIVE_SOL \<or> tag = TAG_LOCK_NATIVE_SOL_MNA then Some (''deposit'', op_id)
             else if tag = TAG_RELEASE_NATIVE_SOL then Some (''release'', op_id)
             else if tag = TAG_LOCK_SPL then Some (''spl-deposit'', op_id)
             else if tag = TAG_RELEASE_SPL then Some (''spl-release'', op_id)
             else None)"

definition replay_key :: "('a) sol_ext_scheme \<Rightarrow> pubkey \<Rightarrow> string \<times> bytes \<Rightarrow> pubkey" where
  "replay_key X p operation = fst (pda X p (fst operation) (Some (snd operation)))"

lemma lock_arguments_id: "lock_arguments rest = Ok (amount, deposit_id, destination) \<Longrightarrow>
    deposit_id = take 32 (drop 8 rest) \<and> read_u64 rest = Ok amount"
  by (auto simp: lock_arguments_def read_id_def Let_def split: sum.splits if_splits)

lemma release_arguments_id: "release_arguments rest = Ok (amount, burn_id) \<Longrightarrow>
    burn_id = take 32 (drop 8 rest) \<and> read_u64 rest = Ok amount"
  by (auto simp: release_arguments_def read_id_def split: sum.splits if_splits)

text \<open>An instruction other than \<open>Initialize\<close> takes a replay account and is \<open>mild\<close> but for a release of lamports.\<close>

lemma instruction_replay:
  assumes R: "runtime_ok X p" and ok: "process_instruction X p accounts input st = Ok (st', logs)"
    and operation: "operation_of input = Some operation"
  obtains payer replay system st1 where
    "take_replay X st payer replay system p (fst operation) (snd operation) = Ok st1"
    "mild p st1 st' \<or> (\<forall>k. sa_owner (st' k) = sa_owner (st1 k) \<and> sa_data (st' k) = sa_data (st1 k))"
proof -
  from operation obtain tag rest where input: "input = tag # rest"
    by (auto simp: operation_of_def split: list.splits)
  consider "tag = 1 \<or> tag = 5" | "tag = 2" | "tag = 3" | "tag = 4"
    using operation by (auto simp: operation_of_def input tag_defs Let_def split: if_splits)
  then show ?thesis
  proof cases
    case 1
    with ok have "process_lock_native X p accounts tag rest st = Ok (st', logs)"
      by (auto simp: process_instruction_def input tag_defs)
    then show ?thesis
      using operation 1 that runtime_mild[OF R]
      by (elim lock_native_Ok) (fastforce simp: operation_of_def input tag_defs Let_def dest!: lock_arguments_id)
  next
    case 2
    with ok have "process_release_native X p accounts rest st = Ok (st', logs)"
      by (auto simp: process_instruction_def input tag_defs)
    then show ?thesis
      using operation 2 that
      by (elim release_native_Ok)
        (fastforce simp: operation_of_def input tag_defs Let_def move_lamports_frame dest!: release_arguments_id)
  next
    case 3
    with ok have "process_lock_spl X p accounts rest st = Ok (st', logs)"
      by (auto simp: process_instruction_def input tag_defs)
    then show ?thesis
      using operation 3 that transfer_checked_mild[OF R]
      by (elim lock_spl_Ok) (fastforce simp: operation_of_def input tag_defs Let_def dest!: lock_arguments_id)
  next
    case 4
    with ok have "process_release_spl X p accounts rest st = Ok (st', logs)"
      by (auto simp: process_instruction_def input tag_defs)
    then show ?thesis
      using operation 4 that transfer_checked_mild[OF R]
      by (elim release_spl_Ok) (fastforce simp: operation_of_def input tag_defs Let_def dest!: release_arguments_id)
  qed
qed


lemma process_initialize_input:
  assumes "process_instruction X p accounts input st = Ok (st', logs)" "operation_of input = None"
  obtains rest where "input = TAG_INITIALIZE # rest" "process_initialize X p accounts rest st = Ok (st', logs)"
  using assms that by (auto simp: process_instruction_def operation_of_def Let_def split: list.splits if_splits)

lemma instruction_effect:
  assumes R: "runtime_ok X p" and inv: "bridge_inv X p st" and V: "valid_accounts X p accounts"
    and ok: "process_instruction X p accounts input st = Ok (st', logs)"
  shows "bridge_inv X p st'"
    "sa_owner (st k) = p \<Longrightarrow> sa_owner (st' k) = p"
    "initialized X p st \<Longrightarrow> initialized X p st' \<and> sa_data (st' (state_key X p)) = sa_data (st (state_key X p))"
proof -
  have all: "bridge_inv X p st' \<and> (sa_owner (st k) = p \<longrightarrow> sa_owner (st' k) = p) \<and>
    (initialized X p st \<longrightarrow> initialized X p st' \<and> sa_data (st' (state_key X p)) = sa_data (st (state_key X p)))"
  proof (cases "operation_of input")
    case None
    with ok obtain rest where "process_initialize X p accounts rest st = Ok (st', logs)"
      by (rule process_initialize_input)
    then show ?thesis using initialize_effect[OF R inv V] by blast
  next
    case (Some operation)
    obtain payer replay system st1 where
      t: "take_replay X st payer replay system p (fst operation) (snd operation) = Ok st1" and
      rest: "mild p st1 st' \<or> (\<forall>k. sa_owner (st' k) = sa_owner (st1 k) \<and> sa_data (st' k) = sa_data (st1 k))"
      by (rule instruction_replay[OF R ok Some])
    have m: "mild p st st1" by (rule take_replay_Ok(6)[OF R t])
    have inv': "bridge_inv X p st'" using rest mild_inv[OF mild_inv[OF inv m]] frame_inv[OF mild_inv[OF inv m]] by blast
    have data: "sa_owner (st' j) = p \<and> sa_data (st' j) = sa_data (st j)" if "sa_owner (st j) = p" for j
      using rest mild_owner[OF m that] mild_data[OF m that] mild_owner[of p st1 st' j] mild_data[of p st1 st' j] by auto
    show ?thesis using inv' data by (auto simp: initialized_def Let_def)
  qed
  then show "bridge_inv X p st'" "sa_owner (st k) = p \<Longrightarrow> sa_owner (st' k) = p"
    "initialized X p st \<Longrightarrow> initialized X p st' \<and> sa_data (st' (state_key X p)) = sa_data (st (state_key X p))"
    by blast+
qed

lemma instruction_takes_replay:
  assumes R: "runtime_ok X p" and ok: "process_instruction X p accounts input st = Ok (st', logs)"
    and operation: "operation_of input = Some operation"
  shows "sa_owner (st (replay_key X p operation)) \<noteq> p" "sa_owner (st' (replay_key X p operation)) = p"
    "sa_lamports (st (replay_key X p operation)) = 0"
proof -
  obtain payer replay system st1 where
    t: "take_replay X st payer replay system p (fst operation) (snd operation) = Ok st1" and
    rest: "mild p st1 st' \<or> (\<forall>k. sa_owner (st' k) = sa_owner (st1 k) \<and> sa_data (st' k) = sa_data (st1 k))"
    by (rule instruction_replay[OF R ok operation])
  have k: "ai_key replay = replay_key X p operation"
    using take_replay_Ok(1)[OF R t] by (simp add: replay_key_def)
  show "sa_owner (st (replay_key X p operation)) \<noteq> p" "sa_lamports (st (replay_key X p operation)) = 0"
    using take_replay_Ok(3,4)[OF R t] k by simp_all
  show "sa_owner (st' (replay_key X p operation)) = p"
    using rest take_replay_Ok(5)[OF R t] mild_owner[of p st1 st'] k by auto
qed

section \<open>Runs\<close>

text \<open>Calls of the program that succeed, between steps of others; a call that fails leaves no trace.\<close>

inductive sol_run :: "('a) sol_ext_scheme \<Rightarrow> pubkey \<Rightarrow> sol_store \<Rightarrow> bytes list \<Rightarrow> sol_store \<Rightarrow> bool"
  for X :: "('a) sol_ext_scheme" and p :: pubkey and st0 :: sol_store where
  run_start: "sol_run X p st0 [] st0"
| run_call: "sol_run X p st0 inputs st \<Longrightarrow> valid_accounts X p accounts \<Longrightarrow>
    process_instruction X p accounts input st = Ok (st', logs) \<Longrightarrow> sol_run X p st0 (inputs @ [input]) st'"
| run_others: "sol_run X p st0 inputs st \<Longrightarrow> mild p st st' \<Longrightarrow> sol_run X p st0 inputs st'"

definition unused :: "pubkey \<Rightarrow> sol_store \<Rightarrow> bool" where
  "unused p st \<longleftrightarrow> (\<forall>k. sa_owner (st k) \<noteq> p)"

lemma unused_inv: "unused p st \<Longrightarrow> bridge_inv X p st"
  by (simp add: unused_def bridge_inv_def)

lemma run_inv:
  assumes "runtime_ok X p" "sol_run X p st0 inputs st" "bridge_inv X p st0"
  shows "bridge_inv X p st \<and> (sa_owner (st0 k) = p \<longrightarrow> sa_owner (st k) = p) \<and>
    (initialized X p st0 \<longrightarrow> initialized X p st \<and> sa_data (st (state_key X p)) = sa_data (st0 (state_key X p)))"
  using assms(2)
proof (induction rule: sol_run.induct)
  case run_start
  then show ?case using assms(3) by simp
next
  case (run_call inputs st accounts input st' logs)
  then show ?case using instruction_effect[OF assms(1) _ run_call.hyps(2,3)] by simp
next
  case (run_others inputs st st')
  then show ?case
    using mild_inv[of X p st st'] mild_owner[of p st st'] mild_initialized[of X p st st'] mild_data[of p st st']
    by (auto simp: initialized_def Let_def)
qed

text \<open>
  C27. No operation identifier is used twice in a class: over any run, the identifiers of the deposits,
  the releases and their SPL versions that succeeded are distinct within their class.
\<close>

theorem replays_rejected:
  assumes "runtime_ok X p" "sol_run X p st0 inputs st" "bridge_inv X p st0"
  shows "distinct (List.map_filter operation_of inputs)"
proof -
  from assms(2) have "distinct (List.map_filter operation_of inputs) \<and>
      (\<forall>operation \<in> set (List.map_filter operation_of inputs). sa_owner (st (replay_key X p operation)) = p)"
  proof (induction rule: sol_run.induct)
    case run_start
    then show ?case by (simp add: map_filter_def)
  next
    case (run_call inputs st accounts input st' logs)
    have inv: "bridge_inv X p st" using run_inv[OF assms(1) run_call.hyps(1) assms(3)] by simp
    note keep = instruction_effect(2)[OF assms(1) inv run_call.hyps(2,3)]
    show ?case
    proof (cases "operation_of input")
      case None
      then show ?thesis using run_call.IH keep by (auto simp: map_filter_def)
    next
      case (Some operation)
      note t = instruction_takes_replay[OF assms(1) run_call.hyps(3) Some]
      have "operation \<notin> set (List.map_filter operation_of inputs)" using run_call.IH t(1) by auto
      then show ?thesis using run_call.IH keep t(2) Some by (auto simp: map_filter_def)
    qed
  next
    case (run_others inputs st st')
    then show ?case using mild_owner[OF run_others.hyps(2)] by blast
  qed
  then show ?thesis by simp
qed


section \<open>The vault\<close>

text \<open>What an instruction that succeeds adds to the native vault and takes from it.\<close>

definition input_amount :: "bytes \<Rightarrow> nat" where
  "input_amount rest = unat (from_le_bytes (take 8 rest) :: u64)"

definition locked_by :: "bytes \<Rightarrow> nat" where
  "locked_by input =
     (case input of
        [] \<Rightarrow> 0
      | tag # rest \<Rightarrow> if tag = TAG_LOCK_NATIVE_SOL \<or> tag = TAG_LOCK_NATIVE_SOL_MNA then input_amount rest else 0)"

definition released_by :: "bytes \<Rightarrow> nat" where
  "released_by input =
     (case input of [] \<Rightarrow> 0 | tag # rest \<Rightarrow> if tag = TAG_RELEASE_NATIVE_SOL then input_amount rest else 0)"

lemma read_u64_amount: "read_u64 rest = Ok amount \<Longrightarrow> unat amount = input_amount rest"
  by (auto simp: read_u64_def input_amount_def split: if_splits)

definition vault_balance :: "('a) sol_ext_scheme \<Rightarrow> pubkey \<Rightarrow> sol_store \<Rightarrow> nat" where
  "vault_balance X p st = unat (sa_lamports (st (vault_key X p)))"

definition vault_open :: "('a) sol_ext_scheme \<Rightarrow> pubkey \<Rightarrow> sol_store \<Rightarrow> bool" where
  "vault_open X p st \<longleftrightarrow> sa_owner (st (vault_key X p)) = p"

lemma mild_vault: "vault_open X p st \<Longrightarrow> mild p st st' \<Longrightarrow> vault_balance X p st \<le> vault_balance X p st'"
  using mild_lamports[of p st st' "vault_key X p"] by (simp add: vault_open_def vault_balance_def word_le_nat_alt)

lemma bridge_vault:
  assumes "bridge_inv X p st" "read_state st state p = Ok (authority, vault, mint)" "sa_owner (st vault) = p"
  shows "vault = vault_key X p" "initialized X p st" "authority = take 32 (sa_data (st (state_key X p)))"
    "ai_key state = state_key X p"
proof -
  have "vault \<noteq> PUBKEY_DEFAULT"
    using assms(1,3) by (auto simp: bridge_inv_def PUBKEY_DEFAULT_def SYSTEM_PROGRAM_ID_def)
  with read_state_Ok[OF assms(1,2)] show "vault = vault_key X p" "initialized X p st"
    "authority = take 32 (sa_data (st (state_key X p)))" "ai_key state = state_key X p" by auto
qed

lemma lock_native_vault:
  assumes R: "runtime_ok X p" and inv: "bridge_inv X p st"
    and ok: "process_lock_native X p accounts tag rest st = Ok (st', logs)"
  shows "vault_balance X p st + input_amount rest \<le> vault_balance X p st'"
proof -
  from ok obtain amount deposit_id destination depositor vault state replay system more authority mint st1 where
    args: "lock_arguments rest = Ok (amount, deposit_id, destination)" and
    s: "read_state st state p = Ok (authority, ai_key vault, mint)" "sa_owner (st (ai_key vault)) = p" and
    t: "take_replay X st depositor replay system p ''deposit'' deposit_id = Ok st1" and
    x: "x_invoke X p (SystemTransfer (ai_key depositor) (ai_key vault) amount) [depositor, vault, system] [] st1 = Ok st'"
    by (rule lock_native_Ok) blast
  note vault = bridge_vault[OF inv s]
  note t = take_replay_Ok[OF R t]
  have "p \<noteq> SYSTEM_PROGRAM_ID" using t(2,3) by auto
  moreover have "sa_owner (st1 (ai_key vault)) = p" using mild_owner[OF t(6) s(2)] .
  moreover have "sa_owner (st1 (ai_key depositor)) = SYSTEM_PROGRAM_ID" and
    move: "ai_key depositor \<noteq> ai_key vault \<longrightarrow>
      unat (sa_lamports (st' (ai_key vault))) = unat (sa_lamports (st1 (ai_key vault))) + unat amount"
    using R x unfolding runtime_ok_def invoke_transfer_def by blast+
  ultimately have "ai_key depositor \<noteq> ai_key vault" by auto
  with move vault(1) have "vault_balance X p st' = vault_balance X p st1 + unat amount"
    by (simp add: vault_balance_def)
  moreover have "vault_balance X p st \<le> vault_balance X p st1"
    using mild_vault[OF _ t(6)] s(2) vault(1) by (simp add: vault_open_def)
  moreover have "unat amount = input_amount rest" using lock_arguments_id[OF args] by (auto intro: read_u64_amount)
  ultimately show ?thesis by simp
qed

lemma move_lamports_vault:
  assumes "move_lamports vault recipient amount st = Ok st'"
  shows "unat (sa_lamports (st vault)) \<le> unat (sa_lamports (st' vault)) + unat amount"
    "recipient \<noteq> vault \<Longrightarrow> unat (sa_lamports (st' vault)) + unat amount = unat (sa_lamports (st vault)) \<and>
      unat (sa_lamports (st' recipient)) = unat (sa_lamports (st recipient)) + unat amount"
    "k \<noteq> vault \<Longrightarrow> k \<noteq> recipient \<Longrightarrow> st' k = st k"
proof -
  from assms have le: "amount \<le> sa_lamports (st vault)" by (auto simp: move_lamports_def split: if_splits)
  then have sub: "unat (sa_lamports (st vault) - amount) = unat (sa_lamports (st vault)) - unat amount"
    by (rule unat_sub)
  let ?st1 = "st(vault := (st vault)\<lparr>sa_lamports := sa_lamports (st vault) - amount\<rparr>)"
  from assms le obtain credited where c: "checked_add (sa_lamports (?st1 recipient)) amount = Some credited" and
    st': "st' = ?st1(recipient := (?st1 recipient)\<lparr>sa_lamports := credited\<rparr>)"
    by (auto simp: move_lamports_def Let_def split: if_splits option.splits)
  show diff: "unat (sa_lamports (st' vault)) + unat amount = unat (sa_lamports (st vault)) \<and>
      unat (sa_lamports (st' recipient)) = unat (sa_lamports (st recipient)) + unat amount" if "recipient \<noteq> vault"
    using that c st' sub le by (simp add: checked_add_Some word_le_nat_alt)
  show "unat (sa_lamports (st vault)) \<le> unat (sa_lamports (st' vault)) + unat amount"
  proof (cases "recipient = vault")
    case True
    then show ?thesis using c st' sub le by (simp add: checked_add_Some)
  next
    case False
    then show ?thesis using diff by simp
  qed
  show "st' k = st k" if "k \<noteq> vault" "k \<noteq> recipient" using that st' by simp
qed

lemma instruction_vault:
  assumes R: "runtime_ok X p" and inv: "bridge_inv X p st" and V: "valid_accounts X p accounts"
    and vault: "vault_open X p st"
    and ok: "process_instruction X p accounts input st = Ok (st', logs)"
  shows "vault_balance X p st + locked_by input \<le> vault_balance X p st' + released_by input"
proof (cases "operation_of input")
  case None
  with ok obtain rest where "input = TAG_INITIALIZE # rest" "process_initialize X p accounts rest st = Ok (st', logs)"
    by (rule process_initialize_input)
  then show ?thesis
    using initialize_effect(3)[OF R inv V, of rest st' logs "vault_key X p"] vault
    by (simp add: vault_open_def vault_balance_def locked_by_def released_by_def tag_defs word_le_nat_alt)
next
  case (Some operation)
  then obtain tag rest where input: "input = tag # rest" by (auto simp: operation_of_def split: list.splits)
  obtain payer replay system st1 where
    t: "take_replay X st payer replay system p (fst operation) (snd operation) = Ok st1" and
    rest: "mild p st1 st' \<or> (\<forall>k. sa_owner (st' k) = sa_owner (st1 k) \<and> sa_data (st' k) = sa_data (st1 k))"
    by (rule instruction_replay[OF R ok Some])
  consider "tag = 1 \<or> tag = 5" | "tag = 2" | "tag = 3" | "tag = 4"
    using Some by (auto simp: operation_of_def input tag_defs Let_def split: if_splits)
  then show ?thesis
  proof cases
    case 1
    with ok have "process_lock_native X p accounts tag rest st = Ok (st', logs)"
      by (auto simp: process_instruction_def input tag_defs)
    from lock_native_vault[OF R inv this] 1 show ?thesis
      by (auto simp: input locked_by_def released_by_def tag_defs)
  next
    case 2
    with ok have "process_release_native X p accounts rest st = Ok (st', logs)"
      by (auto simp: process_instruction_def input tag_defs)
    then obtain amount burn_id authority state vault' recipient replay system more mint st1 where
      args: "release_arguments rest = Ok (amount, burn_id)" and
      "accounts = authority # state # vault' # recipient # replay # system # more" "ai_is_signer authority" and
      s: "read_state st state p = Ok (ai_key authority, ai_key vault', mint)" "sa_owner (st (ai_key vault')) = p" and
      "amount \<noteq> 0" and
      t: "take_replay X st authority replay system p ''release'' burn_id = Ok st1" and
      m: "move_lamports (ai_key vault') (ai_key recipient) amount st1 = Ok st'"
      by (rule release_native_Ok)
    have "vault_balance X p st \<le> vault_balance X p st1"
      by (rule mild_vault[OF vault take_replay_Ok(6)[OF R t]])
    moreover have "vault_balance X p st1 \<le> vault_balance X p st' + unat amount"
      using move_lamports_vault(1)[OF m] bridge_vault(1)[OF inv s] by (simp add: vault_balance_def)
    moreover have "unat amount = input_amount rest" using release_arguments_id[OF args] by (auto intro: read_u64_amount)
    ultimately show ?thesis using 2 by (simp add: input locked_by_def released_by_def tag_defs)
  next
    case 3
    with ok have "process_lock_spl X p accounts rest st = Ok (st', logs)"
      by (auto simp: process_instruction_def input tag_defs)
    then have "mild p st st'"
      by (rule lock_spl_Ok) (rule mild_trans[OF take_replay_Ok(6)[OF R] transfer_checked_mild[OF R]])
    from mild_vault[OF vault this] 3 show ?thesis by (simp add: input locked_by_def released_by_def tag_defs)
  next
    case 4
    with ok have "process_release_spl X p accounts rest st = Ok (st', logs)"
      by (auto simp: process_instruction_def input tag_defs)
    then have "mild p st st'"
      by (rule release_spl_Ok) (rule mild_trans[OF take_replay_Ok(6)[OF R] transfer_checked_mild[OF R]])
    from mild_vault[OF vault this] 4 show ?thesis by (simp add: input locked_by_def released_by_def tag_defs)
  qed
qed

text \<open>
  C26. The vault covers what was locked: over any run from an open vault, what it held before and what was
  locked since is at most its balance and what was released. It may hold more, as anybody may send it lamports.
\<close>

theorem vault_covers_deposits:
  assumes "runtime_ok X p" "sol_run X p st0 inputs st" "bridge_inv X p st0" "vault_open X p st0"
  shows "vault_balance X p st0 + sum_list (map locked_by inputs) \<le>
    vault_balance X p st + sum_list (map released_by inputs)"
  using assms(2)
proof (induction rule: sol_run.induct)
  case run_start
  then show ?case by simp
next
  case (run_call inputs st accounts input st' logs)
  have "bridge_inv X p st" "vault_open X p st"
    using run_inv[OF assms(1) run_call.hyps(1) assms(3)] assms(4) by (auto simp: vault_open_def)
  from instruction_vault[OF assms(1) this(1) run_call.hyps(2) this(2) run_call.hyps(3)] run_call.IH
  show ?case by simp
next
  case (run_others inputs st st')
  have "vault_open X p st"
    using run_inv[OF assms(1) run_others.hyps(1) assms(3)] assms(4) by (auto simp: vault_open_def)
  from mild_vault[OF this run_others.hyps(2)] run_others.IH show ?case by simp
qed


section \<open>What an instruction does\<close>

text \<open>
  A deposit of SOL moves exactly its amount from the signing depositor into the vault of the
  initialized bridge, besides what the replay account costs, changes no other account, and logs the
  identifier, the amount and the destination.
\<close>

theorem deposit_effect:
  assumes "runtime_ok X p" "bridge_inv X p st" "valid_accounts X p accounts"
    "process_instruction X p accounts (tag # rest) st = Ok (st', logs)"
    "tag = TAG_LOCK_NATIVE_SOL \<or> tag = TAG_LOCK_NATIVE_SOL_MNA"
  shows "\<exists>depositor replay deposit_id destination.
    ai_is_signer depositor \<and> depositor \<in> set accounts \<and> initialized X p st \<and>
    unat (sa_lamports (st' (vault_key X p))) = unat (sa_lamports (st (vault_key X p))) + input_amount rest \<and>
    0 < input_amount rest \<and> deposit_id = take 32 (drop 8 rest) \<and> replay = replay_key X p (''deposit'', deposit_id) \<and>
    sa_owner (st replay) \<noteq> p \<and> sa_owner (st' replay) = p \<and>
    (\<forall>k. k \<notin> {ai_key depositor, vault_key X p, replay} \<longrightarrow> st' k = st k) \<and>
    logs = [lock_native_log X tag deposit_id (of_nat (input_amount rest)) destination]"
proof -
  from assms(4,5) have ok: "process_lock_native X p accounts tag rest st = Ok (st', logs)"
    by (auto simp: process_instruction_def tag_defs)
  from ok obtain amount deposit_id destination depositor vault state replay system more authority mint st1 where
    args: "lock_arguments rest = Ok (amount, deposit_id, destination)" and
    a: "accounts = depositor # vault # state # replay # system # more" "ai_is_signer depositor" and
    s: "read_state st state p = Ok (authority, ai_key vault, mint)" "sa_owner (st (ai_key vault)) = p" and
    t: "take_replay X st depositor replay system p ''deposit'' deposit_id = Ok st1" and
    x: "x_invoke X p (SystemTransfer (ai_key depositor) (ai_key vault) amount) [depositor, vault, system] [] st1 = Ok st'" and
    logs: "logs = [lock_native_log X tag deposit_id amount destination]"
    by (rule lock_native_Ok)
  note vault = bridge_vault[OF assms(2) s]
  note t = take_replay_Ok[OF assms(1) t]
  have ne: "ai_key depositor \<noteq> ai_key vault" "ai_key replay \<noteq> ai_key vault"
    using assms(3) a vault(1) t(3) s(2) by (auto simp: valid_accounts_def)
  have move: "unat (sa_lamports (st' (ai_key vault))) = unat (sa_lamports (st1 (ai_key vault))) + unat amount"
    and frame: "\<forall>k. k \<noteq> ai_key depositor \<longrightarrow> k \<noteq> ai_key vault \<longrightarrow> st' k = st1 k"
    using assms(1) x ne(1) unfolding runtime_ok_def invoke_transfer_def by blast+
  have "st1 (ai_key vault) = st (ai_key vault)" using t(7)[of "ai_key vault"] ne by simp
  moreover have "sa_owner (st' (ai_key replay)) = p" using mild_owner[OF runtime_mild[OF assms(1) x] t(5)] .
  moreover have "unat amount = input_amount rest" "deposit_id = take 32 (drop 8 rest)"
    using lock_arguments_id[OF args] by (auto intro: read_u64_amount)
  moreover have "amount \<noteq> 0" using args by (auto simp: lock_arguments_def Let_def split: sum.splits if_splits)
  moreover have "ai_key replay = replay_key X p (''deposit'', deposit_id)" using t(1) by (simp add: replay_key_def)
  moreover have "of_nat (input_amount rest) = amount" using \<open>unat amount = input_amount rest\<close>[symmetric] by simp
  moreover have "0 < unat amount" using \<open>amount \<noteq> 0\<close> by (simp add: unat_gt_0)
  ultimately show ?thesis
    using a vault move frame t(3,7) logs by (intro exI[of _ depositor] exI[of _ "ai_key replay"] exI[of _ deposit_id] exI[of _ destination]) auto
qed

lemma move_lamports_self:
  assumes "move_lamports vault vault amount st = Ok st'"
  shows "st' = st"
proof -
  have le: "amount \<le> sa_lamports (st vault)" using assms by (auto simp: move_lamports_def split: if_splits)
  then obtain credited where c: "checked_add (sa_lamports (st vault) - amount) amount = Some credited"
    and st': "st' = st(vault := (st vault)\<lparr>sa_lamports := credited\<rparr>)"
    using assms by (auto simp: move_lamports_def Let_def split: if_splits option.splits)
  have "credited = sa_lamports (st vault)"
    by (rule unat_inject) (use c le in \<open>simp add: checked_add_Some unat_sub word_le_nat_alt\<close>)
  then show ?thesis by (simp add: st')
qed

text \<open>
  C28. SOL leaves the vault only with the signature of the authority that the initialized state account
  names, which is the first account of the instruction. The instruction first creates its replay account,
  touching only that and the authority; then exactly its amount moves from the vault to the fourth
  account of the instruction, and nothing else changes. When that account is the vault itself,
  nothing moves.
\<close>

theorem release_authorized:
  assumes "runtime_ok X p" "bridge_inv X p st" "valid_accounts X p accounts"
    "process_instruction X p accounts (TAG_RELEASE_NATIVE_SOL # rest) st = Ok (st', logs)"
    and "authority = accounts ! 0" and "recipient = ai_key (accounts ! 3)" and "vault = vault_key X p"
    and "replay = replay_key X p (''release'', take 32 (drop 8 rest))"
  shows "initialized X p st \<and> ai_is_signer authority \<and> ai_key authority = take 32 (sa_data (st (state_key X p))) \<and>
    0 < input_amount rest \<and>
    (\<exists>st1. take_replay X st authority (accounts ! 4) (accounts ! 5) p ''release'' (take 32 (drop 8 rest)) = Ok st1 \<and>
       (\<forall>k. k \<noteq> ai_key authority \<longrightarrow> k \<noteq> replay \<longrightarrow> st1 k = st k) \<and> st1 vault = st vault \<and>
       (if recipient = vault then st' = st1
        else unat (sa_lamports (st' vault)) + input_amount rest = unat (sa_lamports (st vault)) \<and>
          unat (sa_lamports (st' recipient)) = unat (sa_lamports (st1 recipient)) + input_amount rest \<and>
          (\<forall>k. k \<noteq> vault \<longrightarrow> k \<noteq> recipient \<longrightarrow> st' k = st1 k)))"
proof -
  from assms(4) have ok: "process_release_native X p accounts rest st = Ok (st', logs)"
    by (auto simp: process_instruction_def tag_defs)
  from ok obtain amount burn_id auth state vault_info recipient_info replay_info system more mint st1 where
    args: "release_arguments rest = Ok (amount, burn_id)" and
    a: "accounts = auth # state # vault_info # recipient_info # replay_info # system # more" "ai_is_signer auth" and
    s: "read_state st state p = Ok (ai_key auth, ai_key vault_info, mint)" "sa_owner (st (ai_key vault_info)) = p" and
    nonzero: "amount \<noteq> 0" and
    t0: "take_replay X st auth replay_info system p ''release'' burn_id = Ok st1" and
    m: "move_lamports (ai_key vault_info) (ai_key recipient_info) amount st1 = Ok st'"
    by (rule release_native_Ok)
  have names: "authority = auth" "recipient = ai_key recipient_info" "accounts ! 4 = replay_info" "accounts ! 5 = system"
    by (simp_all add: assms(5,6) a(1))
  note vault_key = bridge_vault[OF assms(2) s]
  note t = take_replay_Ok[OF assms(1) t0]
  have vault: "vault = ai_key vault_info" using vault_key by (simp add: assms(7))
  have ne: "ai_key auth \<noteq> vault" "ai_key replay_info \<noteq> vault"
    using assms(3) a vault_key(1) t(3) s(2) by (auto simp: valid_accounts_def vault)
  have amount: "unat amount = input_amount rest" "burn_id = take 32 (drop 8 rest)"
    using release_arguments_id[OF args] by (auto intro: read_u64_amount)
  have replay: "replay = ai_key replay_info" using t(1) by (simp add: assms(8) replay_key_def amount)
  have kept: "st1 vault = st vault" using t(7)[of vault] ne by simp
  have moved: "if recipient = vault then st' = st1
        else unat (sa_lamports (st' vault)) + unat amount = unat (sa_lamports (st vault)) \<and>
          unat (sa_lamports (st' recipient)) = unat (sa_lamports (st1 recipient)) + unat amount \<and>
          (\<forall>k. k \<noteq> vault \<longrightarrow> k \<noteq> recipient \<longrightarrow> st' k = st1 k)"
    using move_lamports_self[of vault amount st1 st'] move_lamports_vault(2,3)[OF m] m kept
    by (auto simp: vault names(2))
  have "initialized X p st" "ai_key auth = take 32 (sa_data (st (state_key X p)))" "0 < input_amount rest"
    using vault_key nonzero amount(1) by (auto simp: unat_gt_0[symmetric])
  then show ?thesis
    using t0 t(7) kept moved a(2) unfolding names replay amount by blast
qed

text \<open>Once initialized, no run changes the authority, the vault or the mint of the bridge.\<close>

theorem initialization_final:
  assumes "runtime_ok X p" "sol_run X p st0 inputs st" "bridge_inv X p st0" "initialized X p st0"
  shows "initialized X p st \<and> sa_data (st (state_key X p)) = sa_data (st0 (state_key X p))"
  using run_inv[OF assms(1-3)] assms(4) by blast

text \<open>Program addresses can be signed for with their seeds.\<close>

definition addresses_derived :: "('a) sol_ext_scheme \<Rightarrow> pubkey \<Rightarrow> bool" where
  "addresses_derived X p \<longleftrightarrow>
     (\<forall>seeds k bump. x_find_pda X p seeds = (k, bump) \<longrightarrow> x_create_address X p (seeds @ [[bump]]) = Some k)"

text \<open>
  C29. Tokens never leave the vault: \<open>TAG_RELEASE_SPL\<close> fails for every caller, because the transfer names the
  state account as its authority and is signed with the seeds of the vault.
\<close>

theorem spl_release_never_succeeds:
  assumes "runtime_ok X p" "addresses_derived X p" "state_key X p \<noteq> vault_key X p" "bridge_inv X p st"
    "valid_accounts X p accounts"
  shows "\<not> is_ok (process_instruction X p accounts (TAG_RELEASE_SPL # rest) st)"
proof
  assume "is_ok (process_instruction X p accounts (TAG_RELEASE_SPL # rest) st)"
  then obtain st' logs where "process_release_spl X p accounts rest st = Ok (st', logs)"
    by (auto simp: is_ok_ex process_instruction_def tag_defs)
  then obtain amount burn_id authority state vault_token recipient_token mint replay token_program system more vault
      decimals st1 where
    "release_arguments rest = Ok (amount, burn_id)" and
    a: "accounts = authority # state # vault_token # recipient_token # mint # replay # token_program # system # more"
      "ai_is_signer authority" and
    s: "read_state st state p = Ok (ai_key authority, vault, ai_key mint)" "ai_key mint \<noteq> PUBKEY_DEFAULT" and
    "take_replay X st authority replay system p ''spl-release'' burn_id = Ok st1" and
    x: "transfer_checked X p st1 token_program vault_token mint recipient_token state amount decimals
       (Some [str_bytes ''intertrain-wsol-vault'', [snd (pda X p ''intertrain-wsol-vault'' None)]]) = Ok st'"
    by (rule release_spl_Ok)
  have state: "ai_key state = state_key X p" using read_state_Ok[OF assms(4) s(1)] s(2) by auto
  let ?seeds = "[str_bytes ''intertrain-wsol-vault'', [snd (pda X p ''intertrain-wsol-vault'' None)]]"
  from x obtain q metas data where
    i: "x_invoke X p (ProgramInstruction q metas data) [vault_token, mint, recipient_token, state, token_program]
      [?seeds] st1 = Ok st'" "(ai_key state, True, False) \<in> set metas"
    by (auto simp: transfer_checked_def split: if_splits)
  have "x_create_address X p ?seeds = Some (vault_key X p)"
    using assms(2)[unfolded addresses_derived_def, rule_format, of "[str_bytes ''intertrain-wsol-vault'']"]
    by (cases "x_find_pda X p [str_bytes ''intertrain-wsol-vault'']") (simp add: vault_key_def pda_def)
  moreover have "(\<exists>b \<in> set [vault_token, mint, recipient_token, state, token_program]. ai_key b = ai_key state \<and> ai_is_signer b) \<or>
      (\<exists>ss \<in> set [?seeds]. x_create_address X p ss = Some (ai_key state))"
    using assms(1) i unfolding runtime_ok_def invoke_signers_def by blast
  ultimately show False using assms(3,5) a state by (auto simp: valid_accounts_def)
qed

text \<open>
  Anyone can block an identifier: a lamport sent to its replay address, which needs no signature, makes
  every deposit or release under the identifier fail.
\<close>

theorem funded_replay_blocks_operation:
  assumes "runtime_ok X p" "operation_of input = Some operation" "sa_lamports (st (replay_key X p operation)) \<noteq> 0"
  shows "\<not> is_ok (process_instruction X p accounts input st)"
  using instruction_takes_replay(3)[OF assms(1) _ assms(2)] assms(3) by (auto simp: is_ok_ex)

section \<open>A runtime to evaluate in\<close>

text \<open>
  Addresses are the first bytes of their seeds, the system program creates and transfers, and any other
  program does nothing once its signers are there.
\<close>

definition toy_address :: "bytes list \<Rightarrow> pubkey" where
  "toy_address seeds = take 32 (concat seeds @ replicate 32 0)"

definition toy_invoke ::
    "pubkey \<Rightarrow> sol_instruction \<Rightarrow> account_info list \<Rightarrow> bytes list list \<Rightarrow> sol_store \<Rightarrow> sol_error + sol_store" where
  "toy_invoke p i infos seeds st =
     (case i of
        CreateAccount payer new lamports space owner \<Rightarrow>
          if sa_owner (st new) = SYSTEM_PROGRAM_ID \<and> sa_lamports (st new) = 0 \<and> sa_data (st new) = [] \<and>
            payer \<noteq> new \<and> new \<noteq> SYSTEM_PROGRAM_ID \<and> sa_owner (st payer) = SYSTEM_PROGRAM_ID \<and>
            lamports \<le> sa_lamports (st payer)
          then Ok (st(payer := (st payer)\<lparr>sa_lamports := sa_lamports (st payer) - lamports\<rparr>,
                      new := \<lparr>sa_owner = owner, sa_lamports = lamports, sa_data = replicate (unat space) 0\<rparr>))
          else Err (SExternal ''create'')
      | SystemTransfer payer payee amount \<Rightarrow>
          if sa_owner (st payer) = SYSTEM_PROGRAM_ID \<and> payer \<noteq> payee \<and> amount \<le> sa_lamports (st payer)
          then case checked_add (sa_lamports (st payee)) amount of
              None \<Rightarrow> Err (SExternal ''transfer'')
            | Some credited \<Rightarrow>
                Ok (st(payer := (st payer)\<lparr>sa_lamports := sa_lamports (st payer) - amount\<rparr>,
                       payee := (st payee)\<lparr>sa_lamports := credited\<rparr>))
          else Err (SExternal ''transfer'')
      | ProgramInstruction q metas data \<Rightarrow>
          if list_all (\<lambda>(k, signs, _). signs \<longrightarrow>
               list_ex (\<lambda>a. ai_key a = k \<and> ai_is_signer a) infos \<or> list_ex (\<lambda>ss. toy_address ss = k) seeds) metas
          then Ok st else Err (SExternal ''signature''))"

definition toy_sol :: sol_ext where
  "toy_sol = \<lparr>x_token_program = replicate 32 9, x_create_address = (\<lambda>p seeds. Some (toy_address seeds)),
     x_find_pda = (\<lambda>p seeds. (toy_address (seeds @ [[255]]), 255)), x_minimum_balance = (\<lambda>n. of_nat n + 1),
     x_hex = hex_string, x_base58 = (\<lambda>k. ''key''), x_invoke = toy_invoke\<rparr>"

definition toy_program :: pubkey where "toy_program = replicate 32 1"
definition toy_depositor :: pubkey where "toy_depositor = replicate 32 2"
definition toy_authority :: pubkey where "toy_authority = replicate 32 3"

lemma toy_runtime: "runtime_ok toy_sol toy_program"
proof -
  have p: "toy_program \<noteq> SYSTEM_PROGRAM_ID" by (simp add: toy_program_def SYSTEM_PROGRAM_ID_def)
  have "mild toy_program st st'" if "toy_invoke toy_program i infos seeds st = Ok st'" for i infos seeds st st'
    using that p
    by (cases i) (auto simp: toy_invoke_def mild_def all_zero_def list_all_length checked_add_Some word_le_nat_alt
        split: if_splits option.splits)
  moreover have "invoke_signers toy_sol toy_program"
    by (fastforce simp: invoke_signers_def toy_sol_def toy_invoke_def list_all_iff list_ex_iff split: if_splits)
  moreover have "invoke_create toy_sol toy_program"
    by (auto simp: invoke_create_def toy_sol_def toy_invoke_def split: if_splits)
  moreover have "invoke_transfer toy_sol toy_program"
    by (auto simp: invoke_transfer_def toy_sol_def toy_invoke_def checked_add_Some word_le_nat_alt unat_sub
        split: if_splits option.splits)
  ultimately show ?thesis by (auto simp: runtime_ok_def toy_sol_def)
qed

lemma toy_addresses: "addresses_derived toy_sol toy_program"
  by (simp add: addresses_derived_def toy_sol_def)

text \<open>An initialized bridge with an authority, and a depositor with some lamports.\<close>

definition toy_ledger :: sol_store where
  "toy_ledger = (\<lambda>k. \<lparr>sa_owner = SYSTEM_PROGRAM_ID, sa_lamports = 0, sa_data = []\<rparr>)
     (toy_depositor := \<lparr>sa_owner = SYSTEM_PROGRAM_ID, sa_lamports = 1000, sa_data = []\<rparr>,
      toy_authority := \<lparr>sa_owner = SYSTEM_PROGRAM_ID, sa_lamports = 1000, sa_data = []\<rparr>,
      state_key toy_sol toy_program :=
        \<lparr>sa_owner = toy_program, sa_lamports = 97,
         sa_data = toy_authority @ vault_key toy_sol toy_program @ PUBKEY_DEFAULT\<rparr>,
      vault_key toy_sol toy_program := \<lparr>sa_owner = toy_program, sa_lamports = 50, sa_data = []\<rparr>)"

definition toy_keys :: "bytes \<Rightarrow> pubkey list" where
  "toy_keys op_id = [toy_depositor, vault_key toy_sol toy_program, state_key toy_sol toy_program,
     replay_key toy_sol toy_program (''deposit'', op_id), SYSTEM_PROGRAM_ID]"

definition toy_accounts :: "pubkey list \<Rightarrow> account_info list" where
  "toy_accounts keys = map (\<lambda>k. \<lparr>ai_key = k, ai_is_signer = k \<in> {toy_depositor, toy_authority}, ai_is_writable = True\<rparr>) keys"

definition toy_id :: bytes where "toy_id = replicate 32 7"

definition toy_deposit :: bytes where
  "toy_deposit = [TAG_LOCK_NATIVE_SOL] @ to_le_bytes (20 :: u64) @ toy_id @ to_le_bytes (2 :: u16) @ str_bytes ''ws''"

definition toy_release :: bytes where
  "toy_release = [TAG_RELEASE_NATIVE_SOL] @ to_le_bytes (15 :: u64) @ toy_id"

definition toy_release_accounts :: "account_info list" where
  "toy_release_accounts = toy_accounts [toy_authority, state_key toy_sol toy_program, vault_key toy_sol toy_program,
     toy_depositor, replay_key toy_sol toy_program (''release'', toy_id), SYSTEM_PROGRAM_ID]"

lemma toy_state_key: "state_key toy_sol toy_program = str_bytes ''intertrain-wsol-state'' @ [255] @ replicate 10 0"
  by code_simp

lemma toy_vault_key: "vault_key toy_sol toy_program = str_bytes ''intertrain-wsol-vault'' @ [255] @ replicate 10 0"
  by code_simp

lemma toy_keys_differ: "state_key toy_sol toy_program \<noteq> vault_key toy_sol toy_program"
  by code_simp

lemma toy_initialized: "initialized toy_sol toy_program toy_ledger" "vault_open toy_sol toy_program toy_ledger"
  by code_simp+

lemma toy_inv: "bridge_inv toy_sol toy_program toy_ledger"
proof -
  have "toy_program \<noteq> SYSTEM_PROGRAM_ID" by code_simp
  moreover have "sa_owner (toy_ledger SYSTEM_PROGRAM_ID) = SYSTEM_PROGRAM_ID" by code_simp
  ultimately show ?thesis using toy_initialized(1)
    by (auto simp: bridge_inv_def toy_ledger_def all_zero_def split: if_splits)
qed

lemma toy_deposit_accounts: "valid_accounts toy_sol toy_program (toy_accounts (toy_keys toy_id))"
  by code_simp

text \<open>The accounts of the example are different, and the two instructions have the arguments they show.\<close>

lemma toy_distinct:
  "distinct [toy_depositor, toy_authority, state_key toy_sol toy_program, vault_key toy_sol toy_program,
     replay_key toy_sol toy_program (''deposit'', toy_id), replay_key toy_sol toy_program (''release'', toy_id),
     SYSTEM_PROGRAM_ID, toy_program]"
  by code_simp

lemma toy_arguments:
  "lock_arguments (tl toy_deposit) = Ok (20, toy_id, str_bytes ''ws'')"
  "release_arguments (tl toy_release) = Ok (15, toy_id)"
  "hd toy_deposit = TAG_LOCK_NATIVE_SOL" "hd toy_release = TAG_RELEASE_NATIVE_SOL"
  by (simp_all add: lock_arguments_def release_arguments_def read_u64_def read_id_def toy_deposit_def toy_release_def
      from_to_le_bytes toy_id_def str_bytes_def)

lemma toy_fields: "x_invoke toy_sol = toy_invoke" "x_minimum_balance toy_sol n = of_nat n + 1"
  by (simp_all add: toy_sol_def)

lemma toy_find:
  "x_find_pda toy_sol toy_program [str_bytes seed, op_id] = (replay_key toy_sol toy_program (seed, op_id), 255)"
  by (simp add: replay_key_def pda_def toy_sol_def)

lemma toy_replay:
  assumes "sa_owner (st (ai_key replay)) = SYSTEM_PROGRAM_ID" "sa_lamports (st (ai_key replay)) = 0"
    "sa_data (st (ai_key replay)) = []" "ai_key replay = replay_key toy_sol toy_program (seed, op_id)"
    "ai_key replay \<noteq> SYSTEM_PROGRAM_ID" "ai_key payer \<noteq> ai_key replay" "sa_owner (st (ai_key payer)) = SYSTEM_PROGRAM_ID"
    "2 \<le> sa_lamports (st (ai_key payer))"
  shows "take_replay toy_sol st payer replay system toy_program seed op_id =
    Ok (st(ai_key payer := (st (ai_key payer))\<lparr>sa_lamports := sa_lamports (st (ai_key payer)) - 2\<rparr>,
       ai_key replay := \<lparr>sa_owner = toy_program, sa_lamports = 2, sa_data = [0]\<rparr>))"
proof -
  have "toy_program \<noteq> SYSTEM_PROGRAM_ID" using toy_distinct by auto
  then show ?thesis
    using assms toy_find[of seed op_id]
    by (simp add: take_replay_def validate_replay_def create_pda_def replay_key_def REPLAY_LEN_def)
      (simp add: toy_fields toy_invoke_def)
qed

lemma toy_state: "read_state toy_ledger \<lparr>ai_key = state_key toy_sol toy_program, ai_is_signer = s, ai_is_writable = w\<rparr> toy_program =
    Ok (toy_authority, vault_key toy_sol toy_program, PUBKEY_DEFAULT)"
  using toy_distinct by (simp add: read_state_def toy_ledger_def toy_vault_key STATE_LEN_def) (simp add: toy_authority_def PUBKEY_DEFAULT_def)

lemma toy_lookup:
  "toy_ledger toy_depositor = \<lparr>sa_owner = SYSTEM_PROGRAM_ID, sa_lamports = 1000, sa_data = []\<rparr>"
  "toy_ledger toy_authority = \<lparr>sa_owner = SYSTEM_PROGRAM_ID, sa_lamports = 1000, sa_data = []\<rparr>"
  "toy_ledger (vault_key toy_sol toy_program) = \<lparr>sa_owner = toy_program, sa_lamports = 50, sa_data = []\<rparr>"
  "seed \<in> {''deposit'', ''release''} \<Longrightarrow> toy_ledger (replay_key toy_sol toy_program (seed, toy_id)) =
     \<lparr>sa_owner = SYSTEM_PROGRAM_ID, sa_lamports = 0, sa_data = []\<rparr>"
  using toy_distinct by (auto simp: toy_ledger_def)

lemmas toy_steps = tag_defs toy_arguments toy_accounts_def toy_state toy_replay toy_lookup toy_fields

lemma toy_deposit_ok:
  "is_ok (process_instruction toy_sol toy_program (toy_accounts (toy_keys toy_id)) toy_deposit toy_ledger)"
proof -
  have input: "toy_deposit = TAG_LOCK_NATIVE_SOL # tl toy_deposit" by (simp add: toy_deposit_def)
  note toy_distinct[simplified]
  then show ?thesis
    by (subst input) (clarsimp simp: process_instruction_def process_lock_native_def toy_keys_def toy_steps
        toy_invoke_def checked_add_def)
qed

lemma toy_release_ok:
  "is_ok (process_instruction toy_sol toy_program toy_release_accounts toy_release toy_ledger)"
proof -
  have input: "toy_release = TAG_RELEASE_NATIVE_SOL # tl toy_release" by (simp add: toy_release_def)
  note toy_distinct[simplified]
  then show ?thesis
    by (subst input) (clarsimp simp: process_instruction_def process_release_native_def toy_release_accounts_def toy_steps
        move_lamports_def checked_add_def)
qed

lemma toy_deposit_run:
  obtains st logs where "process_instruction toy_sol toy_program (toy_accounts (toy_keys toy_id)) toy_deposit toy_ledger = Ok (st, logs)"
    "sol_run toy_sol toy_program toy_ledger [toy_deposit] st"
proof -
  from toy_deposit_ok obtain st logs where
    ok: "process_instruction toy_sol toy_program (toy_accounts (toy_keys toy_id)) toy_deposit toy_ledger = Ok (st, logs)"
    by (auto simp: is_ok_ex)
  have "sol_run toy_sol toy_program toy_ledger ([] @ [toy_deposit]) st"
    by (rule run_call[OF run_start toy_deposit_accounts ok])
  with that ok show ?thesis by simp
qed

lemma toy_release_accounts: "valid_accounts toy_sol toy_program toy_release_accounts"
  by code_simp

theorem replays_rejected_witness:
  "\<exists>st. sol_run toy_sol toy_program toy_ledger [toy_deposit] st \<and>
    distinct (List.map_filter operation_of [toy_deposit]) \<and> operation_of toy_deposit = Some (''deposit'', toy_id)"
proof -
  obtain st logs where run: "sol_run toy_sol toy_program toy_ledger [toy_deposit] st" by (rule toy_deposit_run)
  have "operation_of toy_deposit = Some (''deposit'', toy_id)"
    by (simp add: operation_of_def toy_deposit_def tag_defs toy_id_def)
  then show ?thesis using replays_rejected[OF toy_runtime run toy_inv] run by blast
qed

theorem vault_covers_deposits_witness:
  "\<exists>st. sol_run toy_sol toy_program toy_ledger [toy_deposit] st \<and> 70 \<le> vault_balance toy_sol toy_program st"
proof -
  obtain st logs where run: "sol_run toy_sol toy_program toy_ledger [toy_deposit] st" by (rule toy_deposit_run)
  have "locked_by toy_deposit = 20" "released_by toy_deposit = 0"
    by (simp_all add: locked_by_def released_by_def input_amount_def toy_deposit_def tag_defs from_to_le_bytes)
  moreover have "vault_balance toy_sol toy_program toy_ledger = 50" by (simp add: vault_balance_def toy_lookup)
  ultimately show ?thesis
    using vault_covers_deposits[OF toy_runtime run toy_inv toy_initialized(2)] run by auto
qed

theorem deposit_effect_witness:
  "\<exists>st logs. process_instruction toy_sol toy_program (toy_accounts (toy_keys toy_id))
      (TAG_LOCK_NATIVE_SOL # tl toy_deposit) toy_ledger = Ok (st, logs) \<and>
    unat (sa_lamports (st (vault_key toy_sol toy_program))) = 70"
proof -
  have input: "TAG_LOCK_NATIVE_SOL # tl toy_deposit = toy_deposit" by (simp add: toy_deposit_def)
  obtain st logs where
    ok: "process_instruction toy_sol toy_program (toy_accounts (toy_keys toy_id)) toy_deposit toy_ledger = Ok (st, logs)"
    by (rule toy_deposit_run)
  have ok': "process_instruction toy_sol toy_program (toy_accounts (toy_keys toy_id)) (TAG_LOCK_NATIVE_SOL # tl toy_deposit) toy_ledger = Ok (st, logs)"
    using ok by (simp only: input)
  have amount: "input_amount (tl toy_deposit) = 20"
    by (simp add: input_amount_def toy_deposit_def from_to_le_bytes)
  have "unat (sa_lamports (st (vault_key toy_sol toy_program))) =
      unat (sa_lamports (toy_ledger (vault_key toy_sol toy_program))) + input_amount (tl toy_deposit)"
    using deposit_effect[OF toy_runtime toy_inv toy_deposit_accounts ok' disjI1[OF refl]] by blast
  then have "unat (sa_lamports (st (vault_key toy_sol toy_program))) = 70"
    by (simp add: amount toy_lookup)
  with ok' show ?thesis by blast
qed

theorem release_authorized_witness:
  "\<exists>st logs. process_instruction toy_sol toy_program toy_release_accounts toy_release toy_ledger = Ok (st, logs) \<and>
     ai_key (toy_release_accounts ! 0) = toy_authority \<and>
     unat (sa_lamports (st (vault_key toy_sol toy_program))) + input_amount (tl toy_release) =
       unat (sa_lamports (toy_ledger (vault_key toy_sol toy_program)))"
proof -
  have input: "TAG_RELEASE_NATIVE_SOL # tl toy_release = toy_release" by (simp add: toy_release_def)
  from toy_release_ok obtain st logs where
    ok: "process_instruction toy_sol toy_program toy_release_accounts toy_release toy_ledger = Ok (st, logs)"
    by (auto simp: is_ok_ex)
  have ok': "process_instruction toy_sol toy_program toy_release_accounts (TAG_RELEASE_NATIVE_SOL # tl toy_release) toy_ledger = Ok (st, logs)"
    using ok by (simp only: input)
  have authority: "take 32 (sa_data (toy_ledger (state_key toy_sol toy_program))) = toy_authority"
    using toy_distinct by (simp add: toy_ledger_def) (simp add: toy_authority_def)
  have other: "ai_key (toy_release_accounts ! 3) \<noteq> vault_key toy_sol toy_program" by code_simp
  have "ai_key (toy_release_accounts ! 0) = toy_authority \<and>
     unat (sa_lamports (st (vault_key toy_sol toy_program))) + input_amount (tl toy_release) =
       unat (sa_lamports (toy_ledger (vault_key toy_sol toy_program)))"
    using release_authorized[OF toy_runtime toy_inv toy_release_accounts ok' refl refl refl refl] other authority by auto
  with ok show ?thesis by blast
qed

theorem initialization_final_witness:
  "\<exists>st. sol_run toy_sol toy_program toy_ledger [toy_deposit] st \<and> initialized toy_sol toy_program st"
proof -
  obtain st logs where run: "sol_run toy_sol toy_program toy_ledger [toy_deposit] st" by (rule toy_deposit_run)
  then show ?thesis using initialization_final[OF toy_runtime run toy_inv toy_initialized(1)] by blast
qed

theorem spl_release_never_succeeds_witness:
  "\<not> is_ok (process_instruction toy_sol toy_program toy_release_accounts (TAG_RELEASE_SPL # tl toy_release) toy_ledger)"
  by (rule spl_release_never_succeeds[OF toy_runtime toy_addresses toy_keys_differ toy_inv toy_release_accounts])

text \<open>One lamport on the replay address of the deposit that would otherwise succeed.\<close>

definition toy_funded :: sol_store where
  "toy_funded = toy_ledger(replay_key toy_sol toy_program (''deposit'', toy_id) :=
     \<lparr>sa_owner = SYSTEM_PROGRAM_ID, sa_lamports = 1, sa_data = []\<rparr>)"

theorem funded_replay_blocks_operation_witness:
  "is_ok (process_instruction toy_sol toy_program (toy_accounts (toy_keys toy_id)) toy_deposit toy_ledger) \<and>
   \<not> is_ok (process_instruction toy_sol toy_program (toy_accounts (toy_keys toy_id)) toy_deposit toy_funded)"
proof -
  have "operation_of toy_deposit = Some (''deposit'', toy_id)"
    by (simp add: operation_of_def toy_deposit_def tag_defs toy_id_def)
  then show ?thesis
    using toy_deposit_ok funded_replay_blocks_operation[OF toy_runtime, of toy_deposit "(''deposit'', toy_id)" toy_funded]
    by (simp add: toy_funded_def)
qed

end
