(* ===== verification/Solana_Client.thy ===== *)
theory Solana_Client
  imports Solana_Safety
begin

text \<open>
  \<open>contracts/solana/wsol-bridge-client/src/main.rs\<close>: the command-line client that builds one
  instruction for the bridge program and sends it. Each command is a value of \<open>sol_command\<close>, parsed
  by clap. A failed \<open>expect\<close> or \<open>panic!\<close> ends the process; it is an error that carries the message.
  The crates \<open>solana_sdk\<close>, \<open>solana_client\<close> and \<open>hex\<close> are the fields of \<open>client_ext\<close>, program addresses
  those of \<open>sol_ext\<close>.
\<close>

section \<open>Commands and instructions\<close>

datatype sol_command =
    PdasCommand string
  | InitCommand string string string "string option"
  | LockCommand string string string u64 string string
  | LockMnaCommand string string string u64 string string
  | ReleaseCommand string string string string u64 string
  | LockSplCommand string string string string string string u64 string string
  | ReleaseSplCommand string string string string string string u64 string

record account_meta =
  am_pubkey :: pubkey
  am_is_signer :: bool
  am_is_writable :: bool

record client_instruction =
  ci_program_id :: pubkey
  ci_data :: bytes
  ci_accounts :: "account_meta list"

text \<open>
  \<open>cx_send url payer instruction\<close> is \<open>send(&rpc(url), payer, vec![instruction])\<close>: the messages of
  its two \<open>expect\<close>s, or the signature that it prints.
\<close>

record 'k client_ext =
  cx_pubkey_from_str :: "string \<Rightarrow> pubkey option"
  cx_read_keypair :: "string \<Rightarrow> string + 'k"
  cx_pubkey :: "'k \<Rightarrow> pubkey"
  cx_hex_decode :: "string \<Rightarrow> bytes option"
  cx_send :: "string \<Rightarrow> 'k \<Rightarrow> client_instruction \<Rightarrow> string + string"

definition meta_new :: "pubkey \<Rightarrow> bool \<Rightarrow> account_meta" where
  "meta_new k signer = \<lparr>am_pubkey = k, am_is_signer = signer, am_is_writable = True\<rparr>"

definition meta_readonly :: "pubkey \<Rightarrow> bool \<Rightarrow> account_meta" where
  "meta_readonly k signer = \<lparr>am_pubkey = k, am_is_signer = signer, am_is_writable = False\<rparr>"

definition expect :: "string \<Rightarrow> 'a option \<Rightarrow> string + 'a" where
  "expect message x = ok_or x message"

definition parse_program :: "('k, 'b) client_ext_scheme \<Rightarrow> string \<Rightarrow> string + pubkey" where
  "parse_program K s = expect ''invalid program id'' (cx_pubkey_from_str K s)"

definition parse_pubkey :: "('k, 'b) client_ext_scheme \<Rightarrow> string \<Rightarrow> string + pubkey" where
  "parse_pubkey K s = expect ''invalid public key'' (cx_pubkey_from_str K s)"

definition read_keypair :: "('k, 'b) client_ext_scheme \<Rightarrow> string \<Rightarrow> string + 'k" where
  "read_keypair K path = map_err (\<lambda>e. ''cannot read keypair '' @ path @ '': '' @ e) (cx_read_keypair K path)"

definition client_token_program :: "('k, 'b) client_ext_scheme \<Rightarrow> string + pubkey" where
  "client_token_program K = parse_pubkey K ''TokenkegQfeZyiNwAJbNbGKPFXCWuBvf9Ss623VQ5DA''"

definition client_pdas :: "('a) sol_ext_scheme \<Rightarrow> pubkey \<Rightarrow> pubkey \<times> u8 \<times> pubkey \<times> u8" where
  "client_pdas X pid =
     (case x_find_pda X pid [str_bytes ''intertrain-wsol-state''] of (state, sb) \<Rightarrow>
      case x_find_pda X pid [str_bytes ''intertrain-wsol-vault''] of (vault, vb) \<Rightarrow> (state, sb, vault, vb))"

definition state_pda :: "('a) sol_ext_scheme \<Rightarrow> pubkey \<Rightarrow> pubkey" where
  "state_pda X pid = fst (client_pdas X pid)"

definition vault_pda :: "('a) sol_ext_scheme \<Rightarrow> pubkey \<Rightarrow> pubkey" where
  "vault_pda X pid = fst (snd (snd (client_pdas X pid)))"

definition strip_prefix :: "string \<Rightarrow> string \<Rightarrow> string" where
  "strip_prefix p s = (if str_prefix p s then drop (length p) s else s)"

definition parse_id :: "('k, 'b) client_ext_scheme \<Rightarrow> string \<Rightarrow> string + bytes" where
  "parse_id K s =
     (case cx_hex_decode K (strip_prefix ''0x'' s) of
        None \<Rightarrow> Err ''id must be 64 hex characters''
      | Some bs \<Rightarrow> if length bs \<noteq> 32 then Err ''id must be exactly 32 bytes'' else Ok bs)"

definition check_destination :: "string \<Rightarrow> string + unit" where
  "check_destination s =
     (if s = [] \<or> 128 < length s \<or> \<not> list_all (\<lambda>b. b < 128) (str_bytes s)
      then Err ''destination must be 1..128 ASCII bytes'' else Ok ())"

definition check_amount :: "u64 \<Rightarrow> string + unit" where
  "check_amount amount = (if amount = 0 then Err ''amount must be positive'' else Ok ())"

section \<open>The instruction of each command\<close>

definition lock_data :: "u8 \<Rightarrow> u64 \<Rightarrow> bytes \<Rightarrow> string \<Rightarrow> bytes" where
  "lock_data tag amount raw dest =
     [tag] @ to_le_bytes amount @ raw @ to_le_bytes (of_nat (length dest) :: u16) @ str_bytes dest"

definition release_data :: "u8 \<Rightarrow> u64 \<Rightarrow> bytes \<Rightarrow> bytes" where
  "release_data tag amount raw = [tag] @ to_le_bytes amount @ raw"

definition client_init ::
    "('a) sol_ext_scheme \<Rightarrow> ('k, 'b) client_ext_scheme \<Rightarrow> string \<Rightarrow> string \<Rightarrow> string option \<Rightarrow>
     string + 'k \<times> client_instruction" where
  "client_init X K program_text kp spl_mint =
     (case parse_program K program_text of Inl e \<Rightarrow> Err e | Inr pid \<Rightarrow>
     (case read_keypair K kp of Inl e \<Rightarrow> Err e | Inr payer \<Rightarrow>
     (case (case spl_mint of None \<Rightarrow> Ok [] | Some m \<Rightarrow> parse_pubkey K m) of Inl e \<Rightarrow> Err e | Inr mint \<Rightarrow>
        Ok (payer, \<lparr>ci_program_id = pid, ci_data = [TAG_INITIALIZE] @ mint,
          ci_accounts = [meta_new (cx_pubkey K payer) True, meta_new (state_pda X pid) False,
            meta_new (vault_pda X pid) False, meta_readonly SYSTEM_PROGRAM_ID False]\<rparr>))))"

definition client_lock ::
    "('a) sol_ext_scheme \<Rightarrow> ('k, 'b) client_ext_scheme \<Rightarrow> u8 \<Rightarrow> string \<Rightarrow> string \<Rightarrow> u64 \<Rightarrow> string \<Rightarrow> string \<Rightarrow>
     string + 'k \<times> client_instruction" where
  "client_lock X K tag program_text kp amount deposit_id dest =
     (case check_amount amount of Inl e \<Rightarrow> Err e | Inr _ \<Rightarrow>
     (case check_destination dest of Inl e \<Rightarrow> Err e | Inr _ \<Rightarrow>
     (case parse_id K deposit_id of Inl e \<Rightarrow> Err e | Inr raw \<Rightarrow>
     (case parse_program K program_text of Inl e \<Rightarrow> Err e | Inr pid \<Rightarrow>
     (case read_keypair K kp of Inl e \<Rightarrow> Err e | Inr payer \<Rightarrow>
        Ok (payer, \<lparr>ci_program_id = pid, ci_data = lock_data tag amount raw dest,
          ci_accounts = [meta_new (cx_pubkey K payer) True, meta_new (vault_pda X pid) False,
            meta_readonly (state_pda X pid) False,
            meta_new (fst (x_find_pda X pid [str_bytes ''deposit'', raw])) False,
            meta_readonly SYSTEM_PROGRAM_ID False]\<rparr>))))))"

definition client_release ::
    "('a) sol_ext_scheme \<Rightarrow> ('k, 'b) client_ext_scheme \<Rightarrow> string \<Rightarrow> string \<Rightarrow> string \<Rightarrow> u64 \<Rightarrow> string \<Rightarrow>
     string + 'k \<times> client_instruction" where
  "client_release X K program_text kp recipient_text amount burn_id =
     (case check_amount amount of Inl e \<Rightarrow> Err e | Inr _ \<Rightarrow>
     (case parse_id K burn_id of Inl e \<Rightarrow> Err e | Inr raw \<Rightarrow>
     (case parse_program K program_text of Inl e \<Rightarrow> Err e | Inr pid \<Rightarrow>
     (case read_keypair K kp of Inl e \<Rightarrow> Err e | Inr authority \<Rightarrow>
     (case parse_pubkey K recipient_text of Inl e \<Rightarrow> Err e | Inr recipient \<Rightarrow>
        Ok (authority, \<lparr>ci_program_id = pid, ci_data = release_data TAG_RELEASE_NATIVE_SOL amount raw,
          ci_accounts = [meta_readonly (cx_pubkey K authority) True, meta_readonly (state_pda X pid) False,
            meta_new (vault_pda X pid) False, meta_new recipient False,
            meta_new (fst (x_find_pda X pid [str_bytes ''release'', raw])) False,
            meta_readonly SYSTEM_PROGRAM_ID False]\<rparr>))))))"

definition client_lock_spl ::
    "('a) sol_ext_scheme \<Rightarrow> ('k, 'b) client_ext_scheme \<Rightarrow> string \<Rightarrow> string \<Rightarrow> string \<Rightarrow> string \<Rightarrow> string \<Rightarrow> u64 \<Rightarrow>
     string \<Rightarrow> string \<Rightarrow> string + 'k \<times> client_instruction" where
  "client_lock_spl X K program_text kp source_text vault_text mint_text amount deposit_id dest =
     (case check_amount amount of Inl e \<Rightarrow> Err e | Inr _ \<Rightarrow>
     (case check_destination dest of Inl e \<Rightarrow> Err e | Inr _ \<Rightarrow>
     (case parse_id K deposit_id of Inl e \<Rightarrow> Err e | Inr raw \<Rightarrow>
     (case parse_program K program_text of Inl e \<Rightarrow> Err e | Inr pid \<Rightarrow>
     (case read_keypair K kp of Inl e \<Rightarrow> Err e | Inr payer \<Rightarrow>
     (case parse_pubkey K source_text of Inl e \<Rightarrow> Err e | Inr source_acct \<Rightarrow>
     (case parse_pubkey K vault_text of Inl e \<Rightarrow> Err e | Inr vault_token \<Rightarrow>
     (case parse_pubkey K mint_text of Inl e \<Rightarrow> Err e | Inr mint \<Rightarrow>
     (case client_token_program K of Inl e \<Rightarrow> Err e | Inr token \<Rightarrow>
        Ok (payer, \<lparr>ci_program_id = pid, ci_data = lock_data TAG_LOCK_SPL amount raw dest,
          ci_accounts = [meta_new (cx_pubkey K payer) True, meta_new source_acct False, meta_readonly mint False,
            meta_new vault_token False, meta_readonly (vault_pda X pid) False, meta_readonly (state_pda X pid) False,
            meta_new (fst (x_find_pda X pid [str_bytes ''spl-deposit'', raw])) False,
            meta_readonly token False, meta_readonly SYSTEM_PROGRAM_ID False]\<rparr>))))))))))"

definition client_release_spl ::
    "('a) sol_ext_scheme \<Rightarrow> ('k, 'b) client_ext_scheme \<Rightarrow> string \<Rightarrow> string \<Rightarrow> string \<Rightarrow> string \<Rightarrow> string \<Rightarrow> u64 \<Rightarrow>
     string \<Rightarrow> string + 'k \<times> client_instruction" where
  "client_release_spl X K program_text kp vault_text recipient_text mint_text amount burn_id =
     (case check_amount amount of Inl e \<Rightarrow> Err e | Inr _ \<Rightarrow>
     (case parse_id K burn_id of Inl e \<Rightarrow> Err e | Inr raw \<Rightarrow>
     (case parse_program K program_text of Inl e \<Rightarrow> Err e | Inr pid \<Rightarrow>
     (case read_keypair K kp of Inl e \<Rightarrow> Err e | Inr authority \<Rightarrow>
     (case parse_pubkey K vault_text of Inl e \<Rightarrow> Err e | Inr vault_token \<Rightarrow>
     (case parse_pubkey K recipient_text of Inl e \<Rightarrow> Err e | Inr recipient_token \<Rightarrow>
     (case parse_pubkey K mint_text of Inl e \<Rightarrow> Err e | Inr mint \<Rightarrow>
     (case client_token_program K of Inl e \<Rightarrow> Err e | Inr token \<Rightarrow>
        Ok (authority, \<lparr>ci_program_id = pid, ci_data = release_data TAG_RELEASE_SPL amount raw,
          ci_accounts = [meta_readonly (cx_pubkey K authority) True, meta_readonly (state_pda X pid) False,
            meta_new vault_token False, meta_new recipient_token False, meta_readonly mint False,
            meta_new (fst (x_find_pda X pid [str_bytes ''spl-release'', raw])) False,
            meta_readonly token False, meta_readonly SYSTEM_PROGRAM_ID False]\<rparr>)))))))))"

section \<open>The commands\<close>

definition newline :: string where "newline = [CHR 0x0A]"

definition show_pdas :: "('a) sol_ext_scheme \<Rightarrow> pubkey \<Rightarrow> string" where
  "show_pdas X pid =
     (case client_pdas X pid of (state, sb, vault, vb) \<Rightarrow>
        ''program_id='' @ x_base58 X pid @ newline @ ''state='' @ x_base58 X state @ newline @
        ''state_bump='' @ show_nat (unat sb) @ newline @ ''vault='' @ x_base58 X vault @ newline @
        ''vault_bump='' @ show_nat (unat vb))"

definition send_printed ::
    "('k, 'b) client_ext_scheme \<Rightarrow> string \<Rightarrow> (client_instruction \<Rightarrow> string) \<Rightarrow> string + 'k \<times> client_instruction \<Rightarrow>
     string + string" where
  "send_printed K url suffix built =
     (case built of
        Inl e \<Rightarrow> Err e
      | Inr (payer, ix) \<Rightarrow>
          (case cx_send K url payer ix of
             Inl e \<Rightarrow> Err e
           | Inr sig \<Rightarrow> Ok (''signature='' @ sig @ suffix ix)))"

text \<open>What a command prints on success.\<close>

primrec client_main ::
    "('a) sol_ext_scheme \<Rightarrow> ('k, 'b) client_ext_scheme \<Rightarrow> sol_command \<Rightarrow> string + string" where
  "client_main X K (PdasCommand program_text) =
     (case parse_program K program_text of Inl e \<Rightarrow> Err e | Inr pid \<Rightarrow> Ok (show_pdas X pid))"
| "client_main X K (InitCommand url program_text kp spl_mint) =
     send_printed K url (\<lambda>ix. newline @ ''state='' @ x_base58 X (state_pda X (ci_program_id ix)) @ newline @
       ''vault='' @ x_base58 X (vault_pda X (ci_program_id ix))) (client_init X K program_text kp spl_mint)"
| "client_main X K (LockCommand url program_text kp amount deposit_id dest) =
     send_printed K url (\<lambda>_. []) (client_lock X K TAG_LOCK_NATIVE_SOL program_text kp amount deposit_id dest)"
| "client_main X K (LockMnaCommand url program_text kp amount deposit_id dest) =
     send_printed K url (\<lambda>_. []) (client_lock X K TAG_LOCK_NATIVE_SOL_MNA program_text kp amount deposit_id dest)"
| "client_main X K (ReleaseCommand url program_text kp recipient amount burn_id) =
     send_printed K url (\<lambda>_. []) (client_release X K program_text kp recipient amount burn_id)"
| "client_main X K (LockSplCommand url program_text kp source_text vault_text mint_text amount deposit_id dest) =
     send_printed K url (\<lambda>_. [])
       (client_lock_spl X K program_text kp source_text vault_text mint_text amount deposit_id dest)"
| "client_main X K (ReleaseSplCommand url program_text kp vault_text recipient_text mint_text amount burn_id) =
     send_printed K url (\<lambda>_. [])
       (client_release_spl X K program_text kp vault_text recipient_text mint_text amount burn_id)"

section \<open>The program reads what the client writes\<close>

lemma u64_round_trip: "from_le_bytes (to_le_bytes (w :: u64)) = w"
  by (rule from_to_le_bytes) simp

lemma u16_round_trip: "from_le_bytes (to_le_bytes (w :: u16)) = w"
  by (rule from_to_le_bytes) simp

lemma lock_arguments_lock_data:
  assumes "length raw = 32" "check_amount amount = Ok ()" "check_destination dest = Ok ()"
  shows "lock_arguments (tl (lock_data tag amount raw dest)) = Ok (amount, raw, str_bytes dest)"
proof -
  have ne: "amount \<noteq> 0" "dest \<noteq> []" "length dest \<le> 128" "list_all (\<lambda>b. b < 128) (str_bytes dest)"
    using assms by (auto simp: check_amount_def check_destination_def split: if_splits)
  have n: "unat (of_nat (length dest) :: u16) = length dest"
    using ne(3) by (simp add: unat_of_nat)
  show ?thesis
    using ne assms(1)
    by (simp add: lock_arguments_def lock_data_def read_u64_def read_id_def u64_round_trip u16_round_trip n Let_def)
qed

lemma release_arguments_release_data:
  "length raw = 32 \<Longrightarrow> release_arguments (tl (release_data tag amount raw)) = Ok (amount, raw)"
  by (simp add: release_arguments_def release_data_def read_u64_def read_id_def u64_round_trip)

lemma parse_id_length: "parse_id K s = Ok raw \<Longrightarrow> length raw = 32"
  by (auto simp: parse_id_def split: option.splits if_splits)

text \<open>
  What the runtime hands to the program: the accounts of the instruction in their order, with at least
  the rights that the instruction asked for (an account that pays the fee, or that another entry names
  with more rights, has more).
\<close>

definition passes :: "account_meta list \<Rightarrow> account_info list \<Rightarrow> bool" where
  "passes metas infos = list_all2 (\<lambda>m i. ai_key i = am_pubkey m \<and> (am_is_signer m \<longrightarrow> ai_is_signer i) \<and>
     (am_is_writable m \<longrightarrow> ai_is_writable i)) metas infos"

lemma passes_Cons [simp]:
  "passes [] infos \<longleftrightarrow> infos = []"
  "passes (m # ms) infos \<longleftrightarrow> (\<exists>i is. infos = i # is \<and> ai_key i = am_pubkey m \<and>
     (am_is_signer m \<longrightarrow> ai_is_signer i) \<and> (am_is_writable m \<longrightarrow> ai_is_writable i) \<and> passes ms is)"
  by (auto simp: passes_def list_all2_Cons1)

lemma meta_simps [simp]:
  "am_pubkey (meta_new k s) = k" "am_is_signer (meta_new k s) = s" "am_is_writable (meta_new k s)"
  "am_pubkey (meta_readonly k s) = k" "am_is_signer (meta_readonly k s) = s" "\<not> am_is_writable (meta_readonly k s)"
  by (simp_all add: meta_new_def meta_readonly_def)

lemma pda_of_client:
  "fst (pda X pid ''intertrain-wsol-state'' None) = state_pda X pid"
  "fst (pda X pid ''intertrain-wsol-vault'' None) = vault_pda X pid"
  "fst (pda X pid seed (Some raw)) = fst (x_find_pda X pid [str_bytes seed, raw])"
  by (auto simp: pda_def state_pda_def vault_pda_def client_pdas_def split: prod.splits)

lemma client_keys: "state_pda X pid = state_key X pid" "vault_pda X pid = vault_key X pid"
  by (simp_all add: state_key_def vault_key_def pda_of_client)

lemma read_state_ready:
  assumes "initialized X pid st" "ai_key state = state_key X pid"
  shows "read_state st state pid = Ok (take 32 (sa_data (st (state_key X pid))), vault_key X pid,
    take 32 (drop 64 (sa_data (st (state_key X pid)))))"
  using assms by (simp add: initialized_def read_state_def Let_def)

text \<open>
  The two calls into the system program of an accepted deposit: the replay account is created, then the
  amount is transferred.
\<close>

definition create_replay_call ::
    "('a) sol_ext_scheme \<Rightarrow> pubkey \<Rightarrow> string \<Rightarrow> bytes \<Rightarrow> account_info \<Rightarrow> account_info \<Rightarrow> account_info \<Rightarrow> sol_store \<Rightarrow>
     sol_error + sol_store" where
  "create_replay_call X pid seed raw payer replay system st =
     x_invoke X pid (CreateAccount (ai_key payer) (ai_key replay) (x_minimum_balance X REPLAY_LEN) (of_nat REPLAY_LEN) pid)
      [payer, replay, system] [[str_bytes seed, raw] @ [[snd (x_find_pda X pid [str_bytes seed, raw])]]] st"

lemma take_replay_fresh:
  assumes "ai_key replay = fst (x_find_pda X pid [str_bytes seed, raw])"
    and "sa_owner (st (ai_key replay)) = SYSTEM_PROGRAM_ID" "pid \<noteq> SYSTEM_PROGRAM_ID"
  shows "take_replay X st payer replay system pid seed raw = create_replay_call X pid seed raw payer replay system st"
  using assms
  by (cases "x_find_pda X pid [str_bytes seed, raw]")
    (auto simp: take_replay_def create_pda_def pda_of_client validate_replay_def create_replay_call_def)

lemma client_lock_Ok:
  assumes "client_lock X K tag program_text kp amount deposit_id dest = Ok (payer, ix)"
  obtains raw where "parse_id K deposit_id = Ok raw" "check_amount amount = Ok ()" "check_destination dest = Ok ()"
    "ci_data ix = lock_data tag amount raw dest"
    "ci_accounts ix = [meta_new (cx_pubkey K payer) True, meta_new (vault_key X (ci_program_id ix)) False,
       meta_readonly (state_key X (ci_program_id ix)) False,
       meta_new (fst (x_find_pda X (ci_program_id ix) [str_bytes ''deposit'', raw])) False,
       meta_readonly SYSTEM_PROGRAM_ID False]"
  using assms by (auto simp: client_lock_def client_keys split: sum.splits)

lemma client_release_Ok:
  assumes "client_release X K program_text kp recipient_text amount burn_id = Ok (authority, ix)"
  obtains raw recipient where "parse_id K burn_id = Ok raw" "check_amount amount = Ok ()"
    "parse_pubkey K recipient_text = Ok recipient"
    "ci_data ix = release_data TAG_RELEASE_NATIVE_SOL amount raw"
    "ci_accounts ix = [meta_readonly (cx_pubkey K authority) True, meta_readonly (state_key X (ci_program_id ix)) False,
       meta_new (vault_key X (ci_program_id ix)) False, meta_new recipient False,
       meta_new (fst (x_find_pda X (ci_program_id ix) [str_bytes ''release'', raw])) False,
       meta_readonly SYSTEM_PROGRAM_ID False]"
  using assms by (auto simp: client_release_def client_keys split: sum.splits)

lemma lock_data_Cons: "lock_data tag amount raw dest = tag # tl (lock_data tag amount raw dest)"
  by (simp add: lock_data_def)

lemma release_data_Cons: "release_data tag amount raw = tag # tl (release_data tag amount raw)"
  by (simp add: release_data_def)

text \<open>
  C36. The instruction of \<open>lock\<close> and \<open>lock-mna\<close>, on an initialised bridge and with an unused identifier,
  passes every check of the program: what remains are the two calls into the system program, and the
  event that the bridge service reads carries the identifier, the amount and the destination that the
  user typed.
\<close>

theorem client_lock_accepted:
  assumes built: "client_lock X K tag program_text kp amount deposit_id dest = Ok (payer, ix)"
    and tag: "tag = TAG_LOCK_NATIVE_SOL \<or> tag = TAG_LOCK_NATIVE_SOL_MNA"
    and raw: "parse_id K deposit_id = Ok raw" and pid: "pid = ci_program_id ix" "pid \<noteq> SYSTEM_PROGRAM_ID"
    and ready: "initialized X pid st" "vault_open X pid st"
    and fresh: "sa_owner (st (replay_key X pid (''deposit'', raw))) = SYSTEM_PROGRAM_ID"
    and infos: "passes (ci_accounts ix) infos"
  shows "process_instruction X pid infos (ci_data ix) st =
    (case create_replay_call X pid ''deposit'' raw (infos ! 0) (infos ! 3) (infos ! 4) st of
       Inl e \<Rightarrow> Err e
     | Inr st1 \<Rightarrow>
         (case x_invoke X pid (SystemTransfer (cx_pubkey K payer) (vault_key X pid) amount)
                 [infos ! 0, infos ! 1, infos ! 4] [] st1 of
            Inl e \<Rightarrow> Err e
          | Inr st2 \<Rightarrow> Ok (st2, [lock_native_log X tag raw amount (str_bytes dest)])))"
proof -
  from built raw have checked: "check_amount amount = Ok ()" "check_destination dest = Ok ()"
    and data: "ci_data ix = lock_data tag amount raw dest"
    and metas: "ci_accounts ix = [meta_new (cx_pubkey K payer) True, meta_new (vault_key X pid) False,
       meta_readonly (state_key X pid) False,
       meta_new (fst (x_find_pda X pid [str_bytes ''deposit'', raw])) False,
       meta_readonly SYSTEM_PROGRAM_ID False]"
    by (auto elim!: client_lock_Ok simp: pid)
  from infos obtain depositor vault state replay system where
    accounts: "infos = [depositor, vault, state, replay, system]" and
    keys: "ai_key depositor = cx_pubkey K payer" "ai_key vault = vault_key X pid" "ai_key state = state_key X pid"
      "ai_key replay = fst (x_find_pda X pid [str_bytes ''deposit'', raw])" "ai_key system = SYSTEM_PROGRAM_ID" and
    rights: "ai_is_signer depositor" "ai_is_writable vault" "ai_is_writable replay"
    by (auto simp: metas)
  have replay: "sa_owner (st (ai_key replay)) = SYSTEM_PROGRAM_ID"
    using fresh by (simp add: keys replay_key_def pda_of_client)
  have owner: "sa_owner (st (vault_key X pid)) = pid" using ready(2) by (simp add: vault_open_def)
  note args = lock_arguments_lock_data [OF parse_id_length [OF raw] checked, of tag]
  have run: "process_instruction X pid infos (ci_data ix) st =
      process_lock_native X pid infos tag (tl (lock_data tag amount raw dest)) st"
    unfolding data by (subst lock_data_Cons) (use tag in \<open>auto simp: process_instruction_def tag_defs\<close>)
  show ?thesis
    unfolding run process_lock_native_def args
    using rights owner
    by (simp add: accounts keys read_state_ready [OF ready(1) keys(3)]
        take_replay_fresh [where st = st, OF keys(4) replay pid(2)] cong: sum.case_cong)
qed

text \<open>
  The same for \<open>release\<close>, signed by the authority of the bridge: the replay account is created and the
  amount moves from the vault to the recipient that the user named.
\<close>

theorem client_release_accepted:
  assumes built: "client_release X K program_text kp recipient_text amount burn_id = Ok (authority, ix)"
    and typed: "parse_id K burn_id = Ok raw" "parse_pubkey K recipient_text = Ok recipient"
    and pid: "pid = ci_program_id ix" "pid \<noteq> SYSTEM_PROGRAM_ID"
    and ready: "initialized X pid st" "vault_open X pid st"
    and signer: "take 32 (sa_data (st (state_key X pid))) = cx_pubkey K authority"
    and fresh: "sa_owner (st (replay_key X pid (''release'', raw))) = SYSTEM_PROGRAM_ID"
    and infos: "passes (ci_accounts ix) infos"
  shows "process_instruction X pid infos (ci_data ix) st =
    (case create_replay_call X pid ''release'' raw (infos ! 0) (infos ! 4) (infos ! 5) st of
       Inl e \<Rightarrow> Err e
     | Inr st1 \<Rightarrow>
         (case move_lamports (vault_key X pid) recipient amount st1 of
            Inl e \<Rightarrow> Err e
          | Inr st2 \<Rightarrow>
              Ok (st2, [''INTERTRAIN_WSOL_RELEASE id='' @ x_hex X raw @ '' amount='' @
                show_nat (unat amount) @ '' recipient='' @ x_base58 X recipient])))"
proof -
  from built typed have checked: "check_amount amount = Ok ()"
    and data: "ci_data ix = release_data TAG_RELEASE_NATIVE_SOL amount raw"
    and metas: "ci_accounts ix = [meta_readonly (cx_pubkey K authority) True, meta_readonly (state_key X pid) False,
       meta_new (vault_key X pid) False, meta_new recipient False,
       meta_new (fst (x_find_pda X pid [str_bytes ''release'', raw])) False,
       meta_readonly SYSTEM_PROGRAM_ID False]"
    by (auto elim!: client_release_Ok simp: pid)
  from infos obtain signed state vault target replay system where
    accounts: "infos = [signed, state, vault, target, replay, system]" and
    keys: "ai_key signed = cx_pubkey K authority" "ai_key state = state_key X pid" "ai_key vault = vault_key X pid"
      "ai_key target = recipient" "ai_key replay = fst (x_find_pda X pid [str_bytes ''release'', raw])"
      "ai_key system = SYSTEM_PROGRAM_ID" and
    rights: "ai_is_signer signed" "ai_is_writable vault" "ai_is_writable target" "ai_is_writable replay"
    by (auto simp: metas)
  have replay: "sa_owner (st (ai_key replay)) = SYSTEM_PROGRAM_ID"
    using fresh by (simp add: keys replay_key_def pda_of_client)
  have owner: "sa_owner (st (vault_key X pid)) = pid" using ready(2) by (simp add: vault_open_def)
  have positive: "amount \<noteq> 0" using checked by (auto simp: check_amount_def split: if_splits)
  note args = release_arguments_release_data [OF parse_id_length [OF typed(1)], of TAG_RELEASE_NATIVE_SOL amount]
  have run: "process_instruction X pid infos (ci_data ix) st =
      process_release_native X pid infos (tl (release_data TAG_RELEASE_NATIVE_SOL amount raw)) st"
    unfolding data by (subst release_data_Cons) (simp add: process_instruction_def tag_defs)
  show ?thesis
    unfolding run process_release_native_def args
    using rights owner positive
    by (simp add: accounts keys signer read_state_ready [OF ready(1) keys(2)]
        take_replay_fresh [where st = st, OF keys(5) replay pid(2)] cong: sum.case_cong)
qed

section \<open>A concrete client\<close>

definition toy_client :: "pubkey client_ext" where
  "toy_client = \<lparr>cx_pubkey_from_str = (\<lambda>s. if s = ''program'' then Some toy_program
       else if s = ''depositor'' then Some toy_depositor else None),
     cx_read_keypair = (\<lambda>path. if path = ''authority'' then Ok toy_authority else Ok toy_depositor),
     cx_pubkey = (\<lambda>k. k), cx_hex_decode = (\<lambda>s. Some toy_id),
     cx_send = (\<lambda>url payer ix. Ok ''confirmed'')\<rparr>"

definition toy_lock_instruction :: client_instruction where
  "toy_lock_instruction = \<lparr>ci_program_id = toy_program, ci_data = toy_deposit,
     ci_accounts = [meta_new toy_depositor True, meta_new (vault_key toy_sol toy_program) False,
       meta_readonly (state_key toy_sol toy_program) False,
       meta_new (replay_key toy_sol toy_program (''deposit'', toy_id)) False, meta_readonly SYSTEM_PROGRAM_ID False]\<rparr>"

definition toy_release_instruction :: client_instruction where
  "toy_release_instruction = \<lparr>ci_program_id = toy_program, ci_data = toy_release,
     ci_accounts = [meta_readonly toy_authority True, meta_readonly (state_key toy_sol toy_program) False,
       meta_new (vault_key toy_sol toy_program) False, meta_new toy_depositor False,
       meta_new (replay_key toy_sol toy_program (''release'', toy_id)) False, meta_readonly SYSTEM_PROGRAM_ID False]\<rparr>"

lemma toy_typed: "parse_id toy_client s = Ok toy_id" "parse_program toy_client ''program'' = Ok toy_program"
  "parse_pubkey toy_client ''depositor'' = Ok toy_depositor"
  "read_keypair toy_client ''payer'' = Ok toy_depositor" "read_keypair toy_client ''authority'' = Ok toy_authority"
  by (simp_all add: parse_id_def toy_client_def toy_id_def parse_program_def parse_pubkey_def expect_def ok_or_def
      read_keypair_def)

lemma toy_lock_built:
  "client_lock toy_sol toy_client TAG_LOCK_NATIVE_SOL ''program'' ''payer'' 20 ''id'' ''ws'' =
    Ok (toy_depositor, toy_lock_instruction)"
proof -
  have "check_amount 20 = Ok ()" "check_destination ''ws'' = Ok ()"
    by (simp_all add: check_amount_def check_destination_def str_bytes_def)
  moreover have "lock_data TAG_LOCK_NATIVE_SOL 20 toy_id ''ws'' = toy_deposit"
    by (simp add: lock_data_def toy_deposit_def)
  ultimately show ?thesis
    by (simp add: client_lock_def toy_typed toy_lock_instruction_def client_keys toy_find)
      (simp add: toy_client_def)
qed

lemma toy_release_built:
  "client_release toy_sol toy_client ''program'' ''authority'' ''depositor'' 15 ''id'' =
    Ok (toy_authority, toy_release_instruction)"
proof -
  have "check_amount 15 = Ok ()" by (simp add: check_amount_def)
  moreover have "release_data TAG_RELEASE_NATIVE_SOL 15 toy_id = toy_release"
    by (simp add: release_data_def toy_release_def)
  ultimately show ?thesis
    by (simp add: client_release_def toy_typed toy_release_instruction_def client_keys toy_find)
      (simp add: toy_client_def)
qed

lemma toy_passes:
  "passes (ci_accounts toy_lock_instruction) (toy_accounts (toy_keys toy_id))"
  "passes (ci_accounts toy_release_instruction) toy_release_accounts"
  by (simp_all add: toy_lock_instruction_def toy_release_instruction_def toy_accounts_def toy_keys_def
      toy_release_accounts_def)

lemma toy_fresh:
  "sa_owner (toy_ledger (replay_key toy_sol toy_program (''deposit'', toy_id))) = SYSTEM_PROGRAM_ID"
  "sa_owner (toy_ledger (replay_key toy_sol toy_program (''release'', toy_id))) = SYSTEM_PROGRAM_ID"
  using toy_distinct by (auto simp: toy_ledger_def)

theorem client_lock_accepted_witness:
  "\<exists>st. process_instruction toy_sol toy_program (toy_accounts (toy_keys toy_id)) (ci_data toy_lock_instruction) toy_ledger =
     Ok (st, [lock_native_log toy_sol TAG_LOCK_NATIVE_SOL toy_id 20 (str_bytes ''ws'')])"
proof -
  have p: "toy_program = ci_program_id toy_lock_instruction" "toy_program \<noteq> SYSTEM_PROGRAM_ID"
    using toy_distinct by (auto simp: toy_lock_instruction_def)
  have "is_ok (process_instruction toy_sol toy_program (toy_accounts (toy_keys toy_id)) (ci_data toy_lock_instruction) toy_ledger)"
    using toy_deposit_ok by (simp add: toy_lock_instruction_def)
  then show ?thesis
    unfolding client_lock_accepted [OF toy_lock_built disjI1 [OF refl] toy_typed(1) p toy_initialized toy_fresh(1)
      toy_passes(1)]
    by (auto simp: is_ok_ex split: sum.splits)
qed

theorem client_release_accepted_witness:
  "\<exists>st logs. process_instruction toy_sol toy_program toy_release_accounts (ci_data toy_release_instruction) toy_ledger =
     Ok (st, logs) \<and> length logs = 1"
proof -
  have p: "toy_program = ci_program_id toy_release_instruction" "toy_program \<noteq> SYSTEM_PROGRAM_ID"
    using toy_distinct by (auto simp: toy_release_instruction_def)
  have auth: "take 32 (sa_data (toy_ledger (state_key toy_sol toy_program))) = cx_pubkey toy_client toy_authority"
    using toy_distinct by (simp add: toy_ledger_def toy_client_def) (simp add: toy_authority_def)
  have "is_ok (process_instruction toy_sol toy_program toy_release_accounts (ci_data toy_release_instruction) toy_ledger)"
    using toy_release_ok by (simp add: toy_release_instruction_def)
  then show ?thesis
    unfolding client_release_accepted [OF toy_release_built toy_typed(1) toy_typed(3) p toy_initialized auth toy_fresh(2)
      toy_passes(2)]
    by (auto simp: is_ok_ex split: sum.splits)
qed

end
