(* ===== verification/Rpc_Requests.thy ===== *)
theory Rpc_Requests
  imports Rpc_Safety
begin

text \<open>
  What single requests of the RPC server guarantee: parsed transactions are well formed, quotes are
  exact, the limit on requests, what a broadcast and a build lead to, and that a reserve operation
  can never be queued.
\<close>

section \<open>Parsing\<close>

lemma parse_from_address_wf: "parse_from_address X what t = Inr a \<Longrightarrow> wf_address a"
  by (auto simp: parse_from_address_def address_of_text_def from_bech32m_def wf_address_def split: option.splits if_splits)

lemma decode_fixed_length: "decode_fixed X n t field = Inr bs \<Longrightarrow> length bs = n"
  by (auto simp: decode_fixed_def split: sum.splits if_splits)

text \<open>
  C33. A transaction that the server takes from a request is well formed: both addresses are addresses of
  the chain, the key has 32 bytes and the signature 64.
\<close>

theorem parsed_transaction_well_formed:
  assumes "transaction_into_core X t = Ok tx"
  shows "wf_transaction tx"
  using assms
  by (auto simp: transaction_into_core_def wf_transaction_def Let_def
      intro: parse_from_address_wf dest: decode_fixed_length split: sum.splits)

theorem parsed_transaction_well_formed_witness:
  "wf_transaction (toy_transfer toy_key\<lparr>tx_signature := Signature (replicate 64 1)\<rparr>)"
proof -
  have "wf_transaction (toy_transfer toy_key\<lparr>tx_signature := Signature (replicate 64 1)\<rparr>)" by code_simp
  then have "transaction_into_core toy_rpc (transaction_view toy_rpc (toy_transfer toy_key\<lparr>tx_signature := Signature (replicate 64 1)\<rparr>)) =
    Ok (toy_transfer toy_key\<lparr>tx_signature := Signature (replicate 64 1)\<rparr>)"
    using toy_text_codecs
    by (simp add: transaction_into_core_def transaction_view_def wf_transaction_def parse_from_address_def
        address_round_trip amount_round_trip fixed_round_trip Let_def)
  then show ?thesis by (rule parsed_transaction_well_formed)
qed

section \<open>Quotes\<close>

lemma parse_amount_Inr: "parse_amount field t = Inr v \<longleftrightarrow> parse_unsigned t = Some v"
  by (simp add: parse_amount_def ok_or_def split: option.split)

text \<open>
  A quote for SOL is exact. Nothing wraps and nothing saturates: the dollars are the product cut to
  whole micro-dollars, every MNA is backed by two of them, fee and net amount add up to the gross,
  and the fee lies between 0.5 and 5 percent of it, rounded down.
\<close>

theorem sol_quote_exact:
  assumes "sol_quote_amounts lamports price (sol_quote_fee_bps vars) = Some (usd, gross, fee, net)"
  shows "unat usd = unat lamports * unat price div 10 ^ 9 \<and> unat gross = unat usd div 2 \<and>
    unat fee + unat net = unat gross \<and>
    50 * unat gross div 10000 \<le> unat fee \<and> unat fee \<le> 500 * unat gross div 10000"
proof -
  let ?bps = "sol_quote_fee_bps vars"
  have range: "50 \<le> unat ?bps" "unat ?bps \<le> 500"
    by (simp_all add: sol_quote_fee_bps_def max_def min_def word_le_nat_alt)
  obtain product where product: "checked_mul lamports price = Some product"
    and parts: "usd = product div 1000000000" "gross = usd div MNA_USDC_DENOMINATOR"
      "fee = saturating_mul gross ?bps div 10000" "net = saturating_sub gross fee"
    using assms by (auto simp: sol_quote_amounts_def Let_def split: option.splits)
  have usd: "unat usd = unat lamports * unat price div 10 ^ 9"
    using product by (simp add: parts(1) checked_mul_Some unat_div_distrib)
  have gross: "unat gross = unat usd div 2"
    by (simp add: parts(2) MNA_USDC_DENOMINATOR_def unat_div_distrib)
  have "unat product < 2 ^ 128" using unsigned_less [of product, where ?'a = nat] by simp
  then have "unat gross * 500 < 2 ^ 128 - 1"
    using usd product gross by (simp add: checked_mul_Some)
  then have "unat gross * unat ?bps < 2 ^ 128 - 1"
    using mult_le_mono2 [OF range(2), of "unat gross"] by linarith
  then have fee: "unat fee = unat gross * unat ?bps div 10000"
    by (simp add: parts(3) unat_div_distrib unat_saturating_mul min_def)
  have "unat fee \<le> unat gross * 500 div 10000"
    unfolding fee by (intro div_le_mono mult_le_mono2 range(2))
  moreover have "unat gross * 50 div 10000 \<le> unat fee"
    unfolding fee by (intro div_le_mono mult_le_mono2 range(1))
  moreover have "unat fee + unat net = unat gross"
    using calculation(1) by (simp add: parts(4) unat_saturating_sub)
  ultimately show ?thesis using usd gross by (simp add: mult.commute)
qed

theorem sol_quote_exact_witness:
  "\<exists>usd gross fee net. sol_quote_amounts 1000000000 150000000 (sol_quote_fee_bps (\<lambda>_. None)) = Some (usd, gross, fee, net) \<and>
     unat fee + unat net = unat gross"
proof -
  have "sol_quote_amounts 1000000000 150000000 (sol_quote_fee_bps (\<lambda>_. None)) = Some (150000000, 75000000, 375000, 74625000)"
    by (simp add: sol_quote_amounts_def sol_quote_fee_bps_def env_number_def checked_mul_def saturating_mul_def
        saturating_sub_def MNA_USDC_DENOMINATOR_def max_def min_def)
  from sol_quote_exact [OF this] this show ?thesis by blast
qed

section \<open>The limit on requests\<close>

fun admitted :: "rpc_metrics \<Rightarrow> nat list \<Rightarrow> nat" where
  "admitted m [] = 0"
| "admitted m (t # ts) = (case allow_request t m of (ok, m') \<Rightarrow> (if ok then 1 else 0) + admitted m' ts)"

lemma count_up:
  assumes "\<not> MAX_RPC_REQUESTS_PER_SECOND \<le> c"
  shows "unat (c + 1) = unat c + 1 \<and> unat c < 1000"
proof -
  have "unat c < 1000" using assms by (simp add: MAX_RPC_REQUESTS_PER_SECOND_def word_le_nat_alt)
  then show ?thesis by (simp add: unat_word_ariths)
qed

text \<open>While no request comes a second after the window began, the window's count only grows.\<close>

lemma admitted_window:
  assumes "\<forall>t \<in> set ts. t - fst (rm_rate_window m) < 1000"
  shows "admitted m ts \<le> 1000 - unat (snd (rm_rate_window m))"
  using assms
proof (induction ts arbitrary: m)
  case (Cons t ts)
  let ?w = "rm_rate_window m"
  show ?case
  proof (cases "MAX_RPC_REQUESTS_PER_SECOND \<le> snd ?w")
    case True
    then have "allow_request t m = (False, m\<lparr>rm_rate_window := ?w\<rparr>)" using Cons.prems by (simp add: allow_request_def Let_def)
    then show ?thesis using Cons.IH [of "m\<lparr>rm_rate_window := ?w\<rparr>"] Cons.prems by simp
  next
    case False
    then have "allow_request t m = (True, m\<lparr>rm_rate_window := (fst ?w, snd ?w + 1)\<rparr>)"
      using Cons.prems by (simp add: allow_request_def Let_def)
    moreover have "unat (snd ?w + 1) = unat (snd ?w) + 1" "unat (snd ?w) < 1000"
      using count_up [OF False] by simp_all
    ultimately show ?thesis using Cons.IH [of "m\<lparr>rm_rate_window := (fst ?w, snd ?w + 1)\<rparr>"] Cons.prems by simp
  qed
qed simp

text \<open>
  The limit on requests. Whatever was counted before, of all the requests in any span of less than a
  second at most 2000 are admitted: what is left of the window that is open, and one new window.
\<close>

theorem rate_limited:
  assumes "\<forall>t \<in> set ts. a \<le> t \<and> t < a + 1000"
  shows "admitted m ts \<le> (1000 - unat (snd (rm_rate_window m))) + 1000"
  using assms
proof (induction ts arbitrary: m)
  case (Cons t ts)
  let ?w = "rm_rate_window m"
  show ?case
  proof (cases "1000 \<le> t - fst ?w")
    case True
    let ?m = "m\<lparr>rm_rate_window := (t, 0)\<rparr>"
    have "allow_request t m = allow_request t ?m" using True by (simp add: allow_request_def Let_def)
    then have "admitted m (t # ts) = admitted ?m (t # ts)" by simp
    also have "\<dots> \<le> 1000 - unat (snd (rm_rate_window ?m))"
      using Cons.prems by (intro admitted_window) auto
    finally show ?thesis by simp
  next
    case same: False
    show ?thesis
    proof (cases "MAX_RPC_REQUESTS_PER_SECOND \<le> snd ?w")
      case True
      then have "allow_request t m = (False, m\<lparr>rm_rate_window := ?w\<rparr>)" using same by (simp add: allow_request_def Let_def)
      then show ?thesis using Cons.IH [of "m\<lparr>rm_rate_window := ?w\<rparr>"] Cons.prems by simp
    next
      case False
      then have "allow_request t m = (True, m\<lparr>rm_rate_window := (fst ?w, snd ?w + 1)\<rparr>)"
        using same by (simp add: allow_request_def Let_def)
      moreover have "unat (snd ?w + 1) = unat (snd ?w) + 1" "unat (snd ?w) < 1000"
        using count_up [OF False] by simp_all
      ultimately show ?thesis using Cons.IH [of "m\<lparr>rm_rate_window := (fst ?w, snd ?w + 1)\<rparr>"] Cons.prems by simp
    qed
  qed
qed simp

theorem rate_limited_witness:
  "admitted (rx_metrics (rpc_context_new 0 toy_whale)) (replicate 5000 7) \<le> 2000"
  using rate_limited [of "replicate 5000 7" 0 "rx_metrics (rpc_context_new 0 toy_whale)"] by simp

section \<open>Broadcasting\<close>

lemma with_node_mut_Answer:
  assumes "with_node_mut ctx f = (Answer v, ctx')"
  shows "\<not> rx_poisoned ctx \<and> f (rx_node ctx) = (Inr v, rx_node ctx') \<and> \<not> rx_poisoned ctx' \<and> representable v"
  using assms by (auto simp: with_node_mut_def split: if_splits prod.splits sum.splits)

lemma count_broadcast_Answer:
  assumes "count_broadcast r = (Answer v, ctx')"
  obtains ctx1 where "r = (Answer v, ctx1)" "rx_node ctx' = rx_node ctx1" "rx_poisoned ctx' = rx_poisoned ctx1"
  using assms by (cases r) (auto simp: count_broadcast_def split: rpc_answer.splits)

lemma attempt_Answer:
  assumes "attempt r ctx f = (Answer v, ctx')"
  obtains x where "r = Inr x" "f x = (Answer v, ctx')"
  using assms by (cases r) (auto simp: attempt_def)

lemma submitted_Ok: "submitted r f = (Inr v, n) \<longleftrightarrow> (\<exists>h. r = (Inr h, n) \<and> v = f h)"
  by (auto simp: submitted_def split: prod.splits sum.splits)

lemma submit_transaction_Ok:
  assumes "submit_transaction X n tx = (Inr h, n')"
  shows "transaction_id X tx = Ok h \<and> \<not> is_ok (get_transaction X (nd_store n) h) \<and> nd_store n' = nd_store n \<and>
    h \<notin> bt_keys (mp_ids (nd_mempool n)) \<and> mp_transactions (nd_mempool n') = mp_transactions (nd_mempool n) @ [tx]"
proof -
  obtain i m where i: "transaction_id X tx = Ok i" "\<not> is_ok (get_transaction X (nd_store n) i)"
    and admit: "mempool_admit X (nd_mempool n) (nd_state n) tx = (Inr h, m)" "n' = n\<lparr>nd_mempool := m\<rparr>"
    using assms by (auto simp: submit_transaction_def map_err_def split: sum.splits prod.splits if_splits)
  have "validate_transaction X (nd_state n) tx = Ok h" "h \<notin> bt_keys (mp_ids (nd_mempool n))"
    using mempool_admit_Ok [of X "nd_mempool n" "nd_state n" tx h] admit(1) by simp_all
  moreover have "mp_transactions m = mp_transactions (nd_mempool n) @ [tx]"
    using mempool_admit_result(1) [of X "nd_mempool n" "nd_state n" tx h] admit(1) by simp
  ultimately show ?thesis using i admit(2) validate_transaction_Ok(11) [of X "nd_state n" tx h] by simp
qed

lemma representable_nat: "LENGTH('a) \<le> 64 \<Longrightarrow> representable (jnat (w :: 'a::len word))"
proof -
  assume "LENGTH('a) \<le> 64"
  then have "(2 :: int) ^ LENGTH('a) \<le> 2 ^ 64" by (rule power_increasing) simp
  then have "uint w < 2 ^ 64" using uint_lt2p [of w] by linarith
  moreover have "- (2 ^ 63) \<le> uint w" by (rule order_trans [OF _ uint_ge_0]) simp
  ultimately show ?thesis by (simp add: jnat_def)
qed

lemma representable_transaction: "representable (transaction_answer X status h tx)"
  by (simp add: transaction_answer_def transaction_json_def transaction_view_def Let_def jhash_def representable_nat)

lemma find_appended: "\<forall>x \<in> set xs. \<not> P x \<Longrightarrow> P y \<Longrightarrow> find P (xs @ [y]) = Some y"
  by (induction xs) auto

text \<open>
  What was broadcast is pending. When \<open>transaction_broadcast\<close> answers, it answers the identifier of the
  transaction in the request, and \<open>transaction_status\<close> for that identifier, asked next, answers that
  this transaction is pending.
\<close>

theorem broadcast_then_pending:
  assumes "\<forall>bs. x_hex_decode X (hex_string bs) = Ok bs" and "digests_ok X" and "mempool_ok X (nd_mempool (rx_node ctx))"
    and "dispatch X B env ctx ''transaction_broadcast'' params = (Answer v, ctx1)"
  shows "\<exists>p tx h. x_params_broadcast X params = Ok p \<and> transaction_into_core X p = Ok tx \<and> transaction_id X tx = Ok h \<and>
    v = JObj [(''hash'', jhash h), (''status'', JStr ''accepted'')] \<and>
    (\<forall>env' query. x_params_hash X query = Ok (hash_to_string h) \<longrightarrow>
      fst (dispatch X B env' ctx1 ''transaction_status'' query) = Answer (transaction_answer X ''pending'' h tx))"
proof -
  have "rpc_transaction_broadcast X ctx params = (Answer v, ctx1)" using assms(4) by (simp add: dispatch_def)
  then obtain p ctx2 where p: "x_params_broadcast X params = Ok p"
    and run: "with_node_mut ctx (\<lambda>n. case transaction_into_core X p of Inl e \<Rightarrow> (Err (NCrypto e), n)
      | Inr tx \<Rightarrow> submitted (submit_transaction X n tx) (\<lambda>h. JObj [(''hash'', jhash h), (''status'', JStr ''accepted'')])) =
      (Answer v, ctx2)" and ctx2: "rx_node ctx1 = rx_node ctx2" "rx_poisoned ctx1 = rx_poisoned ctx2"
    by (auto simp: rpc_transaction_broadcast_def parse_params_Inr elim!: attempt_Answer count_broadcast_Answer)
  obtain tx h where tx: "transaction_into_core X p = Ok tx"
    and sub: "submit_transaction X (rx_node ctx) tx = (Inr h, rx_node ctx2)"
    and v: "v = JObj [(''hash'', jhash h), (''status'', JStr ''accepted'')]"
    using with_node_mut_Answer [OF run] by (auto simp: submitted_Ok split: sum.splits)
  have unpoisoned: "\<not> rx_poisoned ctx1" using with_node_mut_Answer [OF run] ctx2 by simp
  note sub = submit_transaction_Ok [OF sub]
  have "length (hash_bytes h) = 32"
    using sub assms(2) by (auto simp: transaction_id_def hash_encoded_def sha256_domain_def digests_ok_def split: sum.splits)
  then have hash: "parse_hash X (hash_to_string h) = Ok h"
    using assms(1) by (simp add: parse_hash_def hash_to_string_def)
  have "\<forall>t \<in> set (mp_transactions (nd_mempool (rx_node ctx))). transaction_id X t \<noteq> Ok h"
    using mempool_ok_id [OF assms(3)] sub by fastforce
  then have "find (\<lambda>t. transaction_id X t = Ok h) (mp_transactions (nd_mempool (rx_node ctx1))) = Some tx"
    using sub ctx2 by (simp add: find_appended)
  moreover have "\<not> is_ok (node_get_transaction X (rx_node ctx1) h)"
    using sub ctx2 by (auto simp: node_get_transaction_def map_err_def split: sum.splits)
  ultimately have "fst (rpc_transaction_status X ctx1 query) = Answer (transaction_answer X ''pending'' h tx)"
    if "x_params_hash X query = Ok (hash_to_string h)" for query
    using that hash unpoisoned representable_transaction
    by (auto simp: rpc_transaction_status_def attempt_def parse_params_def with_node_def split: sum.splits)
  then show ?thesis using p tx sub v by (simp add: dispatch_def)
qed

fun toy_unhex :: "string \<Rightarrow> bytes option" where
  "toy_unhex [] = Some []"
| "toy_unhex [c] = None"
| "toy_unhex (c # d # s) =
     (case (to_digit 16 c, to_digit 16 d, toy_unhex s) of
        (Some x, Some y, Some bs) \<Rightarrow> Some (word_of_nat (16 * x + y) # bs) | _ \<Rightarrow> None)"

lemma toy_unhex_hex: "toy_unhex (hex_string bs) = Some bs"
proof (induction bs)
  case (Cons b bs)
  have "unat b div 16 < 16" using unsigned_less [of b, where ?'a = nat] by simp
  then show ?case using Cons by (simp add: hex_byte_def to_digit_hex mult.commute [of 16])
qed simp

definition toy_signed_transfer :: transaction where
  "toy_signed_transfer = toy_transfer toy_key\<lparr>tx_signature := Signature (replicate 64 1)\<rparr>"

definition toy_hex_rpc :: "toy_db rpc_ext" where
  "toy_hex_rpc = toy_rpc\<lparr>x_hex_encode := hex_string,
     x_hex_decode := (\<lambda>s. case toy_unhex s of None \<Rightarrow> Err ''hex'' | Some bs \<Rightarrow> Ok bs)\<rparr>"

definition toy_broadcast_rpc :: "toy_db rpc_ext" where
  "toy_broadcast_rpc = toy_hex_rpc\<lparr>x_params_broadcast := (\<lambda>_. Ok (transaction_view toy_hex_rpc toy_signed_transfer))\<rparr>"

lemma toy_broadcast:
  "transaction_into_core toy_broadcast_rpc (transaction_view toy_hex_rpc toy_signed_transfer) = Ok toy_signed_transfer"
  "\<exists>i. validate_transaction toy_broadcast_rpc toy_ledger toy_signed_transfer = Ok i"
proof -
  have codecs: "text_codecs_ok toy_hex_rpc"
    using toy_text_codecs by (simp add: text_codecs_ok_def toy_hex_rpc_def toy_unhex_hex)
  have wf: "wf_transaction toy_signed_transfer" unfolding toy_signed_transfer_def by code_simp
  have "transaction_into_core toy_hex_rpc (transaction_view toy_hex_rpc toy_signed_transfer) = Ok toy_signed_transfer"
    using codecs wf
    by (simp add: transaction_into_core_def transaction_view_def wf_transaction_def parse_from_address_def
        address_round_trip amount_round_trip fixed_round_trip Let_def)
  moreover have "transaction_into_core toy_broadcast_rpc = transaction_into_core toy_hex_rpc"
    by (simp add: fun_eq_iff transaction_into_core_def parse_from_address_def address_of_text_def decode_fixed_def
        toy_broadcast_rpc_def Let_def cong: sum.case_cong)
  ultimately show "transaction_into_core toy_broadcast_rpc (transaction_view toy_hex_rpc toy_signed_transfer) = Ok toy_signed_transfer"
    by simp
  note defs = toy_broadcast_rpc_def toy_hex_rpc_def toy_rpc_defs
  have "kp_verify toy_broadcast_rpc pk bs s" "\<exists>i. transaction_id toy_broadcast_rpc t = Ok i"
    "x_enc_transaction toy_broadcast_rpc u = Inr (replicate (unat (utx_nonce u)) 0)"
    "address_from_public_key toy_broadcast_rpc toy_key = toy_address 46" for pk bs s t u
    by (simp_all add: kp_verify_def transaction_id_def hash_encoded_def address_from_public_key_def address_from_hash_eq
        toy_address_def toy_key_def defs)
  then show "\<exists>i. validate_transaction toy_broadcast_rpc toy_ledger toy_signed_transfer = Ok i"
    by (auto simp: validate_transaction_def toy_signed_transfer_def toy_transfer_def toy_ledger_def Let_def
        check_nonce_def checked_add_def toy_address_neq MAX_MEMO_BYTES_def)
qed

theorem broadcast_then_pending_witness:
  "\<exists>v ctx1 h. dispatch toy_broadcast_rpc toy_bridge (toy_env 5) (rpc_context_new 0 (toy_node toy_ledger toy_empty_db))
     ''transaction_broadcast'' JNull = (Answer v, ctx1) \<and> v = JObj [(''hash'', jhash h), (''status'', JStr ''accepted'')]"
proof -
  let ?X = toy_broadcast_rpc and ?n = "toy_node toy_ledger toy_empty_db"
  obtain i where i: "validate_transaction ?X toy_ledger toy_signed_transfer = Ok i" using toy_broadcast(2) by blast
  then have id: "transaction_id ?X toy_signed_transfer = Ok i" by (rule validate_transaction_Ok(11))
  have "mempool_admit ?X mempool_default toy_ledger toy_signed_transfer =
      (Ok i, mempool_default\<lparr>mp_ids := bt_insert i () (mp_ids mempool_default),
        mp_transactions := mp_transactions mempool_default @ [toy_signed_transfer]\<rparr>)"
    using i by (simp add: mempool_admit_def mempool_default_def MAX_MEMPOOL_TRANSACTIONS_def map_simps bt_contains_def)
  moreover have "\<not> is_ok (get_transaction ?X toy_empty_db i)"
    by (simp add: get_transaction_def db_require_def db_get_def toy_broadcast_rpc_def toy_hex_rpc_def toy_rpc_defs toy_empty_db_def ok_or_def)
  ultimately obtain n' where "submit_transaction ?X ?n toy_signed_transfer = (Ok i, n')"
    using id by (simp add: submit_transaction_def toy_node_def)
  moreover have "x_params_broadcast ?X JNull = Ok (transaction_view toy_hex_rpc toy_signed_transfer)"
    by (simp add: toy_broadcast_rpc_def)
  ultimately obtain v ctx1 where run: "dispatch ?X toy_bridge (toy_env 5) (rpc_context_new 0 ?n) ''transaction_broadcast'' JNull = (Answer v, ctx1)"
    using toy_broadcast(1)
    by (simp add: dispatch_def rpc_transaction_broadcast_def attempt_def parse_params_def with_node_mut_def rpc_context_new_def
        submitted_def count_broadcast_def jhash_def)
  have "digests_ok ?X" "mempool_ok ?X (nd_mempool (rx_node (rpc_context_new 0 ?n)))"
    by (simp_all add: toy_broadcast_rpc_def toy_hex_rpc_def toy_rpc_defs digests_ok_def rpc_context_new_def toy_node_def mempool_default_ok)
  moreover have "\<forall>bs. x_hex_decode ?X (hex_string bs) = Ok bs"
    by (simp add: toy_broadcast_rpc_def toy_hex_rpc_def toy_unhex_hex)
  ultimately show ?thesis using broadcast_then_pending [OF _ _ _ run] run by blast
qed

section \<open>Building and uploading\<close>

definition built_answer :: "('db, 'a) rpc_ext_scheme \<Rightarrow> program_package \<Rightarrow> bytes \<Rightarrow> json" where
  "built_answer X package bs =
     JObj [(''status'', JStr ''built''), (''program_id'', JStr (program_id package)),
       (''code_hash'', JStr (pkg_code_hash package)), (''package_base64'', JStr (x_base64_encode X bs)),
       (''manifest'', x_json_manifest X (pkg_manifest package))]"

lemma it_build_Answer:
  "it_build X ctx params = (Answer v, ctx1) \<Longrightarrow>
    \<exists>(p :: it_build_params) package bs. compile_rust_source X (x_wat_parse X) (ibp_name p) (ibp_source p) = Ok package \<and>
      package_encode X package = Ok bs \<and> ctx1 = ctx \<and> v = built_answer X package bs"
  unfolding it_build_def built_answer_def [symmetric]
  by (elim attempt_Answer, split if_split_asm, simp, elim attempt_Answer) auto

text \<open>
  What \<open>it_build\<close> built can be uploaded: the Base64 text in its answer decodes to a package that
  verifies, with the program identity the build answered, and the upload keeps it under that identity.
\<close>

theorem built_program_uploads:
  assumes "package_ext_ok X" and "\<forall>bs. x_base64_decode X (x_base64_encode X bs) = Ok bs"
    and "dispatch X B env ctx ''it_build'' params = (Answer v, ctx1)"
  shows "\<exists>package bs. ctx1 = ctx \<and> package_encode X package = Ok bs \<and> package_verify X package = Ok () \<and>
    v = built_answer X package bs \<and>
    (\<forall>env' ctx' upload. x_params_package X upload = Ok (x_base64_encode X bs) \<longrightarrow>
      (\<exists>w. dispatch X B env' ctx' ''program_upload'' upload =
        (Answer w, ctx'\<lparr>rx_programs := bt_insert (program_id package) package (rx_programs ctx')\<rparr>)))"
proof -
  have "it_build X ctx params = (Answer v, ctx1)" using assms(3) by (simp add: dispatch_def)
  then obtain p :: it_build_params and package bs where built: "compile_rust_source X (x_wat_parse X) (ibp_name p) (ibp_source p) = Ok package"
    and bs: "package_encode X package = Ok bs" "ctx1 = ctx" and v: "v = built_answer X package bs"
    using it_build_Answer by blast
  have verified: "package_verify X package = Ok ()"
    using built from_wasm_verified by (metis compiled_package)
  have "decode_program_package X (x_base64_encode X bs) = Ok package"
    using assms(2) decode_encode [OF assms(1) verified bs(1)] by (simp add: decode_program_package_def)
  then show ?thesis using bs verified v
    by (intro exI [of _ package] exI [of _ bs]) (simp add: dispatch_def program_upload_def attempt_def parse_params_def Let_def)
qed

definition toy_build_rpc :: "toy_db rpc_ext" where
  "toy_build_rpc = toy_hex_rpc\<lparr>
     x_manifest_to_json := (\<lambda>m. if m = frontend_manifest ''demo'' then Inr [] else Inl ''unknown manifest''),
     x_manifest_from_json := (\<lambda>_. Inr (frontend_manifest ''demo'')), x_wat_parse := (\<lambda>_. Ok [1]),
     x_params_it_build := (\<lambda>_. Ok \<lparr>ibp_language = ''rust'', ibp_source = main_source 7, ibp_name = ''demo''\<rparr>)\<rparr>"

theorem built_program_uploads_witness:
  "\<exists>v package bs. dispatch toy_build_rpc toy_bridge (toy_env 5) (rpc_context_new 0 toy_whale) ''it_build'' JNull =
      (Answer v, rpc_context_new 0 toy_whale) \<and> v = built_answer toy_build_rpc package bs"
proof -
  note defs = toy_build_rpc_def toy_hex_rpc_def toy_rpc_defs
  let ?p = "\<lparr>pkg_manifest = frontend_manifest ''demo'', pkg_wasm = [1], pkg_code_hash = hash_wasm toy_build_rpc [1]\<rparr>"
  have source: "str_trim (main_source 7) = main_source 7" "\<not> disallowed (main_source 7)"
    "str_contains (main_source 7) ''fn main'' \<and> str_contains (main_source 7) ''-> i32''"
    "parse_i32 (value_text (main_body (main_source 7))) = Some 7"
    by code_simp+
  have "package_from_wasm toy_build_rpc (frontend_manifest ''demo'') [1] = Ok ?p"
    by (simp add: package_from_wasm_def validate_wasm_def frontend_manifest_def MAX_WASM_BYTES_def defs hash_wasm_def)
  then have "compile_rust_source toy_build_rpc (\<lambda>_. Ok [1]) ''demo'' (main_source 7) = Ok ?p"
    by (simp add: compile_rust_source_def source)
  moreover have "\<exists>bs. package_encode toy_build_rpc ?p = Ok bs"
    by (simp add: package_encode_def Let_def IT_MAGIC_def MAX_PACKAGE_BYTES_def hash_wasm_def defs)
  moreover have "to_ascii_lowercase ''rust'' = ''rust''" by code_simp
  ultimately obtain v where run: "dispatch toy_build_rpc toy_bridge (toy_env 5) (rpc_context_new 0 toy_whale) ''it_build'' JNull =
      (Answer v, rpc_context_new 0 toy_whale)"
    by (auto simp: dispatch_def it_build_def attempt_def parse_params_def toy_build_rpc_def)
  have "package_ext_ok toy_build_rpc" by (simp add: package_ext_ok_def digests_ok_def defs)
  moreover have "\<forall>bs. x_base64_decode toy_build_rpc (x_base64_encode toy_build_rpc bs) = Ok bs" by (simp add: defs)
  ultimately show ?thesis using built_program_uploads [OF _ _ run] run by blast
qed

section \<open>The reserve\<close>

text \<open>
  C31. No reserve operation is ever queued through the server. \<open>mna_reserve_mint\<close> and \<open>mna_reserve_release\<close>
  hash the operation with a zero identifier, put the hash into it and submit it, and the node hashes
  the identifier too. Unless the hash is zero or SHA-256 collides, every request, also one with the
  operator's token and a well backed deposit, is answered by an error and leaves the node as it was.
\<close>

theorem reserve_requests_never_queue:
  assumes "\<forall>a b bs. x_enc_mna_reserve X a = Inr bs \<longrightarrow> x_enc_mna_reserve X b = Inr bs \<longrightarrow> a = b"
    and "\<forall>op0 i. ro_operation_id op0 = HASH_ZERO \<longrightarrow> mna_reserve_operation_id X op0 = Ok i \<longrightarrow>
      i \<noteq> HASH_ZERO \<and> collision_free X (reserve_inputs X op0 \<union> reserve_inputs X (op0\<lparr>ro_operation_id := i\<rparr>))"
    and "method \<in> {''mna_reserve_mint'', ''mna_reserve_release''}"
  shows "\<exists>e. dispatch X B env ctx method params = (Failure e, ctx)"
proof -
  have refused: "\<exists>e. submit_mna_reserve_operation X n (op0\<lparr>ro_operation_id := i\<rparr>) = (Err e, n)"
    if "reserve_operation X kind p = Inr op0" "mna_reserve_operation_id X op0 = Ok i" for kind p op0 i n
  proof -
    have zero: "ro_operation_id op0 = HASH_ZERO" using reserve_operation_kind [OF that(1)] by simp
    then have "validate_mna_reserve_operation X s (op0\<lparr>ro_operation_id := i\<rparr>) \<noteq> Ok j" for s j
      using assms(2) that(2) by (intro two_step_reserve_operation_rejected [OF assms(1)]) blast+
    then obtain e where "validate_mna_reserve_operation X (nd_state n) (op0\<lparr>ro_operation_id := i\<rparr>) = Inl e"
      by (cases "validate_mna_reserve_operation X (nd_state n) (op0\<lparr>ro_operation_id := i\<rparr>)") auto
    then show ?thesis by (auto simp: submit_mna_reserve_operation_def split: sum.split)
  qed
  have "\<exists>e. mna_reserve_request X env ctx method params = (Failure e, ctx)"
  proof (cases "x_params_reserve X params")
    case (Inr p)
    show ?thesis
    proof (cases "reserve_operation X (if str_suffix ''mint'' method then VerifyDeposit else Release) p")
      case op: (Inr op0)
      show ?thesis
      proof (cases "mna_reserve_operation_id X op0")
        case (Inr i)
        from refused [OF op this] obtain e where
          "submit_mna_reserve_operation X (rx_node ctx) (op0\<lparr>ro_operation_id := i\<rparr>) = (Err e, rx_node ctx)" by blast
        then show ?thesis using Inr op \<open>x_params_reserve X params = Inr p\<close>
          by (simp add: mna_reserve_request_def attempt_def parse_params_def with_node_mut_def submitted_def)
      qed (simp add: mna_reserve_request_def attempt_def parse_params_def Inr op)
    qed (simp add: mna_reserve_request_def attempt_def parse_params_def Inr)
  qed (simp add: mna_reserve_request_def attempt_def parse_params_def)
  moreover have "dispatch X B env ctx method params = mna_reserve_request X env ctx method params"
    using assms(3) by (cases "method = ''mna_reserve_mint''") (simp_all add: dispatch_def)
  ultimately show ?thesis by simp
qed

definition toy_reserve_rpc :: "toy_db rpc_ext" where
  "toy_reserve_rpc = toy_rpc\<lparr>x_enc_mna_reserve :=
     (\<lambda>p. if p = Mna_Reserve.toy_deposit\<lparr>ro_operation_id := HASH_ZERO\<rparr> then Inr [] else Inl (Encode ''unknown''))\<rparr>"

theorem reserve_requests_never_queue_witness:
  "\<exists>e. dispatch toy_reserve_rpc toy_bridge (toy_env 5) (rpc_context_new 0 toy_whale) ''mna_reserve_mint'' JNull =
     (Failure e, rpc_context_new 0 toy_whale)"
proof (rule reserve_requests_never_queue)
  show "\<forall>a b bs. x_enc_mna_reserve toy_reserve_rpc a = Inr bs \<longrightarrow> x_enc_mna_reserve toy_reserve_rpc b = Inr bs \<longrightarrow> a = b"
    by (simp add: toy_reserve_rpc_def)
  show "\<forall>op0 i. ro_operation_id op0 = HASH_ZERO \<longrightarrow> mna_reserve_operation_id toy_reserve_rpc op0 = Ok i \<longrightarrow>
      i \<noteq> HASH_ZERO \<and> collision_free toy_reserve_rpc
        (reserve_inputs toy_reserve_rpc op0 \<union> reserve_inputs toy_reserve_rpc (op0\<lparr>ro_operation_id := i\<rparr>))"
  proof (intro allI impI)
    fix op0 i
    assume "mna_reserve_operation_id toy_reserve_rpc op0 = Ok i"
    then have op0: "op0 = Mna_Reserve.toy_deposit\<lparr>ro_operation_id := HASH_ZERO\<rparr>" and i: "i = Hash (replicate 32 18)"
      by (auto simp: mna_reserve_operation_id_def hash_encoded_def sha256_domain_def toy_reserve_rpc_def toy_rpc_defs
          split: if_splits)
    have "i \<noteq> HASH_ZERO" by (simp add: i HASH_ZERO_def)
    then show "i \<noteq> HASH_ZERO \<and> collision_free toy_reserve_rpc
        (reserve_inputs toy_reserve_rpc op0 \<union> reserve_inputs toy_reserve_rpc (op0\<lparr>ro_operation_id := i\<rparr>))"
      by (simp add: op0 collision_free_def reserve_inputs_def toy_reserve_rpc_def)
  qed
qed simp

end
