(* ===== verification/Wallet.thy ===== *)
theory Wallet
  imports Crypto
begin

text \<open>
  \<open>crates/wsc-wallet/src/lib.rs\<close> with the mnemonic functions of \<open>crates/wsc-crypto/src/lib.rs\<close>:
  wallets from a mnemonic, and the encrypted key store that keeps one. The crates \<open>argon2\<close>,
  \<open>chacha20poly1305\<close>, \<open>base64\<close>, \<open>hex\<close>, \<open>bip39\<close> and the derived \<open>serde\<close> instances of the key store
  are the fields of \<open>wallet_ext\<close>. What \<open>getrandom::fill\<close> does is an argument of the functions that
  call it: the error it reports or the bytes it writes. Wiping buffers with \<open>zeroize\<close> has no
  counterpart, a value that is wiped is not used again.
\<close>

section \<open>The key store and the external crates\<close>

record wallet =
  wl_key_pair :: key_pair
  wl_address :: address
  wl_public_key :: public_key

record kdf_metadata =
  kdf_algorithm :: string
  kdf_salt :: string

record cipher_metadata =
  cip_algorithm :: string
  cip_nonce :: string
  cip_ciphertext :: string

record encrypted_keystore =
  ks_version :: byte
  ks_chain_id :: string
  ks_derivation_path :: string
  ks_address :: string
  ks_public_key :: string
  ks_kdf :: kdf_metadata
  ks_cipher :: cipher_metadata

record 'm wallet_ext =
  w_mnemonic_from_entropy :: "bytes \<Rightarrow> string + 'm"
  w_mnemonic_to_string :: "'m \<Rightarrow> string"
  w_mnemonic_parse :: "string \<Rightarrow> string + 'm"
  w_mnemonic_to_seed :: "'m \<Rightarrow> string \<Rightarrow> bytes"
  w_argon2 :: "bytes \<Rightarrow> bytes \<Rightarrow> bytes option"
  w_aead_encrypt :: "bytes \<Rightarrow> bytes \<Rightarrow> bytes \<Rightarrow> bytes option"
  w_aead_decrypt :: "bytes \<Rightarrow> bytes \<Rightarrow> bytes \<Rightarrow> bytes option"
  w_base64_encode :: "bytes \<Rightarrow> string"
  w_base64_decode :: "string \<Rightarrow> string + bytes"
  w_hex_encode :: "bytes \<Rightarrow> string"
  w_hex_decode :: "string \<Rightarrow> string + bytes"
  w_keystore_to_json :: "encrypted_keystore \<Rightarrow> string + string"
  w_keystore_from_json :: "string \<Rightarrow> string + encrypted_keystore"

datatype wallet_error =
    WCrypto crypto_error | WRandom string | WSerialization string
  | WUnsupportedVersion | WInvalidField | WDecryptionFailed

fun wallet_error_string :: "wallet_error \<Rightarrow> string" where
  "wallet_error_string (WCrypto e) = ''crypto error: '' @ crypto_error_string e"
| "wallet_error_string (WRandom e) = ''random generation failed: '' @ e"
| "wallet_error_string (WSerialization e) = ''keystore serialization failed: '' @ e"
| "wallet_error_string WUnsupportedVersion = ''invalid keystore version''"
| "wallet_error_string WInvalidField = ''invalid keystore field''"
| "wallet_error_string WDecryptionFailed = ''wrong password or corrupted keystore''"

definition KEY_BYTES :: nat where "KEY_BYTES = 32"
definition SALT_BYTES :: nat where "SALT_BYTES = 16"
definition NONCE_BYTES :: nat where "NONCE_BYTES = 24"
definition KEYSTORE_VERSION :: byte where "KEYSTORE_VERSION = 1"
definition DERIVATION_PATH :: string where
  "DERIVATION_PATH = ''m/44'' @ [CHR 0x27] @ ''/9999'' @ [CHR 0x27] @ ''/0'' @ [CHR 0x27] @ ''/0'' @ [CHR 0x27]
     @ ''/0'' @ [CHR 0x27]"

section \<open>Mnemonics\<close>

definition generate_mnemonic :: "('m, 'b) wallet_ext_scheme \<Rightarrow> string + bytes \<Rightarrow> crypto_error + string" where
  "generate_mnemonic W fill =
     (case fill of
        Inl e \<Rightarrow> Err (CryptoRandom e)
      | Inr entropy \<Rightarrow>
          (case w_mnemonic_from_entropy W entropy of
             Inl e \<Rightarrow> Err (CryptoMnemonic e)
           | Inr mnemonic \<Rightarrow> Ok (w_mnemonic_to_string W mnemonic)))"

definition mnemonic_to_seed ::
    "('m, 'b) wallet_ext_scheme \<Rightarrow> string \<Rightarrow> string \<Rightarrow> crypto_error + bytes" where
  "mnemonic_to_seed W phrase passphrase =
     (case w_mnemonic_parse W phrase of
        Inl e \<Rightarrow> Err (CryptoMnemonic e)
      | Inr mnemonic \<Rightarrow> Ok (w_mnemonic_to_seed W mnemonic passphrase))"

section \<open>Wallets\<close>

definition kp_generate :: "string + bytes \<Rightarrow> crypto_error + key_pair" where
  "kp_generate fill = (case fill of Inl e \<Rightarrow> Err (CryptoRandom e) | Inr secret \<Rightarrow> Ok (KeyPair secret))"

definition kp_address :: "('a) crypto_ext_scheme \<Rightarrow> key_pair \<Rightarrow> address" where
  "kp_address X k = address_from_public_key X (kp_public_key X k)"

definition wallet_from_key_pair :: "('a) crypto_ext_scheme \<Rightarrow> key_pair \<Rightarrow> wallet" where
  "wallet_from_key_pair X k =
     \<lparr>wl_key_pair = k, wl_address = kp_address X k, wl_public_key = kp_public_key X k\<rparr>"

definition wallet_from_seed :: "('a) crypto_ext_scheme \<Rightarrow> bytes \<Rightarrow> wallet_error + wallet" where
  "wallet_from_seed X seed =
     (case derive_wallet_key X seed of
        Inl e \<Rightarrow> Err (WCrypto e)
      | Inr k \<Rightarrow> Ok (wallet_from_key_pair X k))"

definition wallet_create ::
    "('a) crypto_ext_scheme \<Rightarrow> ('m, 'b) wallet_ext_scheme \<Rightarrow> string + bytes \<Rightarrow> wallet_error + wallet \<times> string" where
  "wallet_create X W fill =
     (case generate_mnemonic W fill of
        Inl e \<Rightarrow> Err (WCrypto e)
      | Inr mnemonic \<Rightarrow>
          (case mnemonic_to_seed W mnemonic [] of
             Inl e \<Rightarrow> Err (WCrypto e)
           | Inr seed \<Rightarrow>
               (case wallet_from_seed X seed of
                  Inl e \<Rightarrow> Err e
                | Inr w \<Rightarrow> Ok (w, mnemonic))))"

definition wallet_restore ::
    "('a) crypto_ext_scheme \<Rightarrow> ('m, 'b) wallet_ext_scheme \<Rightarrow> string \<Rightarrow> string \<Rightarrow> wallet_error + wallet" where
  "wallet_restore X W mnemonic passphrase =
     (case mnemonic_to_seed W mnemonic passphrase of
        Inl e \<Rightarrow> Err (WCrypto e)
      | Inr seed \<Rightarrow> wallet_from_seed X seed)"

definition wallet_sign :: "('a) crypto_ext_scheme \<Rightarrow> wallet \<Rightarrow> bytes \<Rightarrow> signature" where
  "wallet_sign X w message = kp_sign X (wl_key_pair w) message"

definition private_key_bytes :: "wallet \<Rightarrow> bytes" where
  "private_key_bytes w = kp_secret (wl_key_pair w)"

section \<open>The encrypted key store\<close>

definition derive_encryption_key ::
    "('m, 'b) wallet_ext_scheme \<Rightarrow> string \<Rightarrow> bytes \<Rightarrow> wallet_error + bytes" where
  "derive_encryption_key W password salt = ok_or (w_argon2 W (str_bytes password) salt) WDecryptionFailed"

definition keystore_decode_fixed ::
    "('m, 'b) wallet_ext_scheme \<Rightarrow> nat \<Rightarrow> string \<Rightarrow> wallet_error + bytes" where
  "keystore_decode_fixed W n encoded =
     (case w_base64_decode W encoded of
        Inl _ \<Rightarrow> Err WInvalidField
      | Inr bs \<Rightarrow> if length bs \<noteq> n then Err WInvalidField else Ok bs)"

text \<open>The two calls of \<open>fill\<close> are for the salt and for the nonce, in this order.\<close>

definition keystore_encrypt ::
    "('a) crypto_ext_scheme \<Rightarrow> ('m, 'b) wallet_ext_scheme \<Rightarrow> string + bytes \<Rightarrow> string + bytes \<Rightarrow>
     wallet \<Rightarrow> string \<Rightarrow> wallet_error + encrypted_keystore" where
  "keystore_encrypt X W fill_salt fill_nonce w password =
     (case fill_salt of Inl e \<Rightarrow> Err (WRandom e) | Inr salt \<Rightarrow>
     (case fill_nonce of Inl e \<Rightarrow> Err (WRandom e) | Inr nonce \<Rightarrow>
     (case derive_encryption_key W password salt of Inl e \<Rightarrow> Err e | Inr key \<Rightarrow>
     (case w_aead_encrypt W key nonce (private_key_bytes w) of
        None \<Rightarrow> Err WDecryptionFailed
      | Some ciphertext \<Rightarrow>
          Ok \<lparr>ks_version = KEYSTORE_VERSION, ks_chain_id = CHAIN_ID, ks_derivation_path = DERIVATION_PATH,
              ks_address = to_bech32m (x_bech32m_encode X) (wl_address w),
              ks_public_key = w_hex_encode W (pk_bytes (wl_public_key w)),
              ks_kdf = \<lparr>kdf_algorithm = ''argon2id'', kdf_salt = w_base64_encode W salt\<rparr>,
              ks_cipher = \<lparr>cip_algorithm = ''xchacha20-poly1305'', cip_nonce = w_base64_encode W nonce,
                           cip_ciphertext = w_base64_encode W ciphertext\<rparr>\<rparr>))))"

definition keystore_decrypt ::
    "('a) crypto_ext_scheme \<Rightarrow> ('m, 'b) wallet_ext_scheme \<Rightarrow> encrypted_keystore \<Rightarrow> string \<Rightarrow>
     wallet_error + wallet" where
  "keystore_decrypt X W ks password =
     (if ks_version ks \<noteq> KEYSTORE_VERSION \<or> ks_chain_id ks \<noteq> CHAIN_ID
         \<or> ks_derivation_path ks \<noteq> DERIVATION_PATH \<or> kdf_algorithm (ks_kdf ks) \<noteq> ''argon2id''
         \<or> cip_algorithm (ks_cipher ks) \<noteq> ''xchacha20-poly1305''
      then Err WUnsupportedVersion
      else case keystore_decode_fixed W SALT_BYTES (kdf_salt (ks_kdf ks)) of Inl e \<Rightarrow> Err e | Inr salt \<Rightarrow>
      (case keystore_decode_fixed W NONCE_BYTES (cip_nonce (ks_cipher ks)) of Inl e \<Rightarrow> Err e | Inr nonce \<Rightarrow>
      (case w_base64_decode W (cip_ciphertext (ks_cipher ks)) of Inl _ \<Rightarrow> Err WInvalidField | Inr ciphertext \<Rightarrow>
      (case derive_encryption_key W password salt of Inl e \<Rightarrow> Err e | Inr key \<Rightarrow>
      (case w_aead_decrypt W key nonce ciphertext of None \<Rightarrow> Err WDecryptionFailed | Some plaintext \<Rightarrow>
        if length plaintext \<noteq> KEY_BYTES then Err WInvalidField
        else let w = wallet_from_key_pair X (KeyPair plaintext) in
          if to_bech32m (x_bech32m_encode X) (wl_address w) \<noteq> ks_address ks
             \<or> w_hex_encode W (pk_bytes (wl_public_key w)) \<noteq> ks_public_key ks
          then Err WDecryptionFailed else Ok w)))))"

definition keystore_to_json_pretty ::
    "('m, 'b) wallet_ext_scheme \<Rightarrow> encrypted_keystore \<Rightarrow> wallet_error + string" where
  "keystore_to_json_pretty W ks = map_err WSerialization (w_keystore_to_json W ks)"

definition keystore_from_json ::
    "('m, 'b) wallet_ext_scheme \<Rightarrow> string \<Rightarrow> wallet_error + encrypted_keystore" where
  "keystore_from_json W json = map_err WSerialization (w_keystore_from_json W json)"

section \<open>Documented behaviour of the crates\<close>

definition base64_ok :: "('m, 'b) wallet_ext_scheme \<Rightarrow> bool" where
  "base64_ok W = (\<forall>bs. w_base64_decode W (w_base64_encode W bs) = Ok bs)"

definition aead_ok :: "('m, 'b) wallet_ext_scheme \<Rightarrow> bool" where
  "aead_ok W = (\<forall>key nonce plain c. w_aead_encrypt W key nonce plain = Some c \<longrightarrow>
                  w_aead_decrypt W key nonce c = Some plain)"

definition keystore_json_ok :: "('m, 'b) wallet_ext_scheme \<Rightarrow> bool" where
  "keystore_json_ok W = (\<forall>ks json. w_keystore_to_json W ks = Ok json \<longrightarrow>
     w_keystore_from_json W (json @ [CHR 0x0A]) = Ok ks \<and> utf8_ok (map of_char (json @ [CHR 0x0A])))"

text \<open>A signature verifies under the public key of the secret that made it.\<close>

definition ed25519_ok :: "('a) crypto_ext_scheme \<Rightarrow> bool" where
  "ed25519_ok X =
     (\<forall>secret message. x_ed25519_key_ok X (x_ed25519_public X secret) \<and>
        x_ed25519_verify X (x_ed25519_public X secret) message (x_ed25519_sign X secret message))"

section \<open>Wallets are built around their key\<close>

definition wallet_ok :: "('a) crypto_ext_scheme \<Rightarrow> wallet \<Rightarrow> bool" where
  "wallet_ok X w = (w = wallet_from_key_pair X (wl_key_pair w) \<and> length (private_key_bytes w) = KEY_BYTES)"

lemma wallet_from_seed_ok:
  assumes "digests_ok X"
  shows "\<exists>w. wallet_from_seed X seed = Ok w \<and> wallet_ok X w"
proof -
  obtain k where "derive_wallet_key X seed = Ok k" "length (kp_secret k) = 32"
    using derive_wallet_key_total [OF assms] by blast
  then show ?thesis
    by (simp add: wallet_from_seed_def wallet_ok_def wallet_from_key_pair_def private_key_bytes_def KEY_BYTES_def)
qed

lemma wallet_restore_ok:
  "digests_ok X \<Longrightarrow> wallet_restore X W phrase passphrase = Ok w \<Longrightarrow> wallet_ok X w"
  using wallet_from_seed_ok [of X]
  by (auto simp: wallet_restore_def split: sum.splits) (metis Inr_inject)

text \<open>The recovery phrase that \<open>wallet create\<close> prints restores the wallet.\<close>

lemma created_wallet_restores:
  "wallet_create X W fill = Ok (w, mnemonic) \<Longrightarrow> wallet_restore X W mnemonic [] = Ok w"
  by (auto simp: wallet_create_def wallet_restore_def split: sum.splits)

lemma wallet_create_ok:
  "digests_ok X \<Longrightarrow> wallet_create X W fill = Ok (w, mnemonic) \<Longrightarrow> wallet_ok X w"
  by (rule wallet_restore_ok [OF _ created_wallet_restores])

text \<open>
  A wallet signs what \<open>KeyPair::verify\<close> accepts under its public key, and its address is the one that
  its public key derives: the two checks that a transaction and a login are put through.
\<close>

lemma wallet_signature_accepted:
  "ed25519_ok X \<Longrightarrow> wallet_ok X w \<Longrightarrow>
    kp_verify X (wl_public_key w) message (wallet_sign X w message) \<and>
    address_from_public_key X (wl_public_key w) = wl_address w"
proof -
  assume ed: "ed25519_ok X" and "wallet_ok X w"
  then have w: "w = wallet_from_key_pair X (wl_key_pair w)" by (simp add: wallet_ok_def)
  show ?thesis
    by (subst (1 2 3 4) w)
      (use ed in \<open>simp add: wallet_from_key_pair_def kp_verify_def wallet_sign_def kp_sign_def kp_public_key_def
        kp_address_def ed25519_ok_def\<close>)
qed

section \<open>Opening a key store\<close>

lemma keystore_decrypt_Ok:
  assumes "keystore_decrypt X W ks password = Ok w"
  obtains salt nonce ciphertext key where
    "w_base64_decode W (kdf_salt (ks_kdf ks)) = Ok salt" "length salt = SALT_BYTES"
    "w_base64_decode W (cip_nonce (ks_cipher ks)) = Ok nonce" "length nonce = NONCE_BYTES"
    "w_base64_decode W (cip_ciphertext (ks_cipher ks)) = Ok ciphertext"
    "w_argon2 W (str_bytes password) salt = Some key"
    "w_aead_decrypt W key nonce ciphertext = Some (private_key_bytes w)"
    "wallet_ok X w" "to_bech32m (x_bech32m_encode X) (wl_address w) = ks_address ks"
    "w_hex_encode W (pk_bytes (wl_public_key w)) = ks_public_key ks" "ks_chain_id ks = CHAIN_ID"
  using assms
  by (auto simp: keystore_decrypt_def keystore_decode_fixed_def derive_encryption_key_def wallet_ok_def Let_def
      wallet_from_key_pair_def private_key_bytes_def split: if_splits sum.splits option.splits)

lemma keystore_encrypt_Ok:
  assumes "keystore_encrypt X W (Ok salt) (Ok nonce) w password = Ok ks"
  obtains key ciphertext where
    "w_argon2 W (str_bytes password) salt = Some key"
    "w_aead_encrypt W key nonce (private_key_bytes w) = Some ciphertext"
    "ks = \<lparr>ks_version = KEYSTORE_VERSION, ks_chain_id = CHAIN_ID, ks_derivation_path = DERIVATION_PATH,
       ks_address = to_bech32m (x_bech32m_encode X) (wl_address w),
       ks_public_key = w_hex_encode W (pk_bytes (wl_public_key w)),
       ks_kdf = \<lparr>kdf_algorithm = ''argon2id'', kdf_salt = w_base64_encode W salt\<rparr>,
       ks_cipher = \<lparr>cip_algorithm = ''xchacha20-poly1305'', cip_nonce = w_base64_encode W nonce,
                    cip_ciphertext = w_base64_encode W ciphertext\<rparr>\<rparr>"
  using assms
  by (auto simp: keystore_encrypt_def derive_encryption_key_def split: sum.splits option.splits)

lemma encrypted_opens:
  assumes "base64_ok W" "aead_ok W" "wallet_ok X w" "length salt = SALT_BYTES" "length nonce = NONCE_BYTES"
    and enc: "keystore_encrypt X W (Ok salt) (Ok nonce) w password = Ok ks"
  shows "keystore_decrypt X W ks password = Ok w"
proof -
  from enc obtain key ciphertext where
    key: "w_argon2 W (str_bytes password) salt = Some key" and
    c: "w_aead_encrypt W key nonce (private_key_bytes w) = Some ciphertext" and
    ks: "ks = \<lparr>ks_version = KEYSTORE_VERSION, ks_chain_id = CHAIN_ID, ks_derivation_path = DERIVATION_PATH,
       ks_address = to_bech32m (x_bech32m_encode X) (wl_address w),
       ks_public_key = w_hex_encode W (pk_bytes (wl_public_key w)),
       ks_kdf = \<lparr>kdf_algorithm = ''argon2id'', kdf_salt = w_base64_encode W salt\<rparr>,
       ks_cipher = \<lparr>cip_algorithm = ''xchacha20-poly1305'', cip_nonce = w_base64_encode W nonce,
                    cip_ciphertext = w_base64_encode W ciphertext\<rparr>\<rparr>"
    by (rule keystore_encrypt_Ok)
  have plain: "w_aead_decrypt W key nonce ciphertext = Some (private_key_bytes w)"
    using c assms(2) by (simp add: aead_ok_def)
  have built: "wallet_from_key_pair X (KeyPair (private_key_bytes w)) = w" "length (private_key_bytes w) = KEY_BYTES"
    using assms(3) by (simp_all add: wallet_ok_def private_key_bytes_def)
  show ?thesis
    using assms(1,4,5) key plain built
    by (simp add: ks keystore_decrypt_def keystore_decode_fixed_def derive_encryption_key_def base64_ok_def Let_def ok_or_def)
qed

lemma wallet_ok_address: "wallet_ok X w \<Longrightarrow> wl_address w = address_from_public_key X (wl_public_key w)"
proof -
  assume "wallet_ok X w"
  then obtain k where "w = wallet_from_key_pair X k" by (auto simp: wallet_ok_def)
  then show ?thesis by (simp add: wallet_from_key_pair_def kp_address_def)
qed

text \<open>
  A key store opens to one identity: whatever password opens it, the address and the public key are
  those that it shows.
\<close>

lemma keystore_opens_one_identity:
  assumes "inj (w_hex_encode W)" "keystore_decrypt X W ks p1 = Ok w1" "keystore_decrypt X W ks p2 = Ok w2"
  shows "wl_public_key w1 = wl_public_key w2 \<and> wl_address w1 = wl_address w2"
proof -
  from assms(2) have 1: "w_hex_encode W (pk_bytes (wl_public_key w1)) = ks_public_key ks" "wallet_ok X w1"
    by (auto elim: keystore_decrypt_Ok)
  from assms(3) have 2: "w_hex_encode W (pk_bytes (wl_public_key w2)) = ks_public_key ks" "wallet_ok X w2"
    by (auto elim: keystore_decrypt_Ok)
  have "pk_bytes (wl_public_key w1) = pk_bytes (wl_public_key w2)"
    using 1(1) 2(1) by (metis assms(1) injD)
  then have "wl_public_key w1 = wl_public_key w2" by (rule public_key.expand)
  moreover have "wl_address w = address_from_public_key X (wl_public_key w)" if "wallet_ok X w" for w
    using wallet_ok_address [OF that] .
  ultimately show ?thesis using 1(2) 2(2) by simp
qed

end
