(* ===== verification/Files.thy ===== *)
theory Files
  imports Text_Parsing
begin

text \<open>
  The part of Rust's \<open>std::fs\<close> and \<open>std::path\<close> that the node, the wallet commands and the program tool
  use, on an explicit disk. A path is looked up by its components, so that \<open>a//b\<close>, \<open>a/./b\<close> and \<open>a/b/\<close>
  are one place; links and \<open>..\<close> are not resolved. The table \<open>dk_faults\<close> says which calls the operating
  system refuses: a message and, for a write, how many bytes the file can hold before it fails.
\<close>

section \<open>Paths\<close>

type_synonym place = "bool \<times> string list"

fun split_on :: "char \<Rightarrow> string \<Rightarrow> string list" where
  "split_on c [] = [[]]"
| "split_on c (x # xs) =
     (if x = c then [] # split_on c xs
      else case split_on c xs of [] \<Rightarrow> [[x]] | p # ps \<Rightarrow> (x # p) # ps)"

text \<open>\<open>Path::components\<close>: whether there is a root, and the names.\<close>

definition components :: "string \<Rightarrow> place" where
  "components p = (p \<noteq> [] \<and> hd p = CHR ''/'', filter (\<lambda>n. n \<noteq> [] \<and> n \<noteq> ''.'') (split_on CHR ''/'' p))"

text \<open>\<open>Path::join\<close> with a relative name.\<close>

definition path_join :: "string \<Rightarrow> string \<Rightarrow> string" where
  "path_join p n = (if p = [] \<or> last p = CHR ''/'' then p @ n else p @ ''/'' @ n)"

text \<open>\<open>Path::parent\<close>; \<open>None\<close> also for the empty parent of a single name, which no caller uses.\<close>

definition parent_place :: "place \<Rightarrow> place option" where
  "parent_place k = (case k of (root, names) \<Rightarrow>
     if names = [] \<or> (\<not> root \<and> butlast names = []) then None else Some (root, butlast names))"

definition plain_name :: "string \<Rightarrow> bool" where
  "plain_name n = (n \<noteq> [] \<and> n \<noteq> ''.'' \<and> CHR ''/'' \<notin> set n)"

lemma split_on_plain: "c \<notin> set n \<Longrightarrow> split_on c n = [n]"
  by (induction n) auto

lemma split_on_neq [simp]: "split_on c p \<noteq> []"
  by (induction p) (auto split: list.splits)

lemma split_on_append: "split_on c (p @ c # n) = split_on c p @ split_on c n"
  by (induction p) (auto split: list.splits)

lemma components_join:
  assumes "plain_name n"
  shows "components (path_join p n) = (fst (components p), snd (components p) @ [n])"
proof (cases "p = []")
  case True
  have "hd n \<noteq> CHR ''/''" using assms by (cases n) (auto simp: plain_name_def)
  with assms True show ?thesis by (simp add: components_def path_join_def split_on_plain plain_name_def)
next
  case False
  have sep: "filter (\<lambda>n. n \<noteq> [] \<and> n \<noteq> ''.'') (split_on CHR ''/'' (q @ CHR ''/'' # n)) =
      filter (\<lambda>n. n \<noteq> [] \<and> n \<noteq> ''.'') (split_on CHR ''/'' q) @ [n]" for q
    using assms by (simp add: split_on_append split_on_plain plain_name_def)
  show ?thesis
  proof (cases "last p = CHR ''/''")
    case True
    then obtain q where q: "p = q @ [CHR ''/'']" using \<open>p \<noteq> []\<close> by (metis append_butlast_last_id)
    have "filter (\<lambda>n. n \<noteq> [] \<and> n \<noteq> ''.'') (split_on CHR ''/'' (q @ [CHR ''/''])) =
        filter (\<lambda>n. n \<noteq> [] \<and> n \<noteq> ''.'') (split_on CHR ''/'' q)"
      using split_on_append [of "CHR ''/''" q "[]"] by simp
    then show ?thesis using sep [of q] by (simp add: components_def path_join_def q) (cases q; simp)
  next
    case False
    with \<open>p \<noteq> []\<close> sep [of p] show ?thesis by (cases p) (simp_all add: components_def path_join_def)
  qed
qed

section \<open>The disk\<close>

datatype entry = File string | Directory

datatype io_call = CallRead | CallOpen | CallWrite | CallMkdir

record disk =
  dk_entries :: "place \<Rightarrow> entry option"
  dk_faults :: "io_call \<Rightarrow> place \<Rightarrow> (string \<times> nat) option"

definition is_dir :: "disk \<Rightarrow> place \<Rightarrow> bool" where
  "is_dir d k = (snd k = [] \<or> dk_entries d k = Some Directory)"

text \<open>\<open>Path::exists\<close> and \<open>Path::is_file\<close>; the empty path names nothing.\<close>

definition path_exists :: "disk \<Rightarrow> string \<Rightarrow> bool" where
  "path_exists d p = (p \<noteq> [] \<and> (is_dir d (components p) \<or> dk_entries d (components p) \<noteq> None))"

definition path_is_file :: "disk \<Rightarrow> string \<Rightarrow> bool" where
  "path_is_file d p = (case dk_entries d (components p) of Some (File _) \<Rightarrow> snd (components p) \<noteq> [] | _ \<Rightarrow> False)"

text \<open>Why a place is not found: a name above it is a file, or something is missing.\<close>

definition lookup_error :: "disk \<Rightarrow> place \<Rightarrow> string" where
  "lookup_error d k =
     (if list_ex (\<lambda>i. case dk_entries d (fst k, take i (snd k)) of Some (File _) \<Rightarrow> True | _ \<Rightarrow> False) [1..<length (snd k)]
      then ''Not a directory (os error 20)'' else ''No such file or directory (os error 2)'')"

text \<open>\<open>fs::read\<close> and \<open>fs::read_to_string\<close>.\<close>

definition fs_read :: "disk \<Rightarrow> string \<Rightarrow> string + string" where
  "fs_read d p =
     (let k = components p in
      if p = [] then Err ''No such file or directory (os error 2)''
      else if is_dir d k then Err ''Is a directory (os error 21)''
      else case dk_entries d k of
        Some (File content) \<Rightarrow> (case dk_faults d CallRead k of None \<Rightarrow> Ok content | Some (e, _) \<Rightarrow> Err e)
      | _ \<Rightarrow> Err (lookup_error d k))"

definition fs_read_to_string :: "disk \<Rightarrow> string \<Rightarrow> string + string" where
  "fs_read_to_string d p =
     (case fs_read d p of
        Inl e \<Rightarrow> Err e
      | Inr content \<Rightarrow>
          if utf8_ok (map of_char content) then Ok content else Err ''stream did not contain valid UTF-8'')"

definition put_file :: "place \<Rightarrow> string \<Rightarrow> disk \<Rightarrow> disk" where
  "put_file k content d = d\<lparr>dk_entries := (dk_entries d)(k \<mapsto> File content)\<rparr>"

text \<open>Every directory above a place.\<close>

definition has_parent :: "disk \<Rightarrow> place \<Rightarrow> bool" where
  "has_parent d k = (case parent_place k of None \<Rightarrow> True | Some up \<Rightarrow> is_dir d up)"

text \<open>\<open>fs::write\<close>: open and truncate, then write; a disk that fills up keeps what fitted.\<close>

definition fs_write :: "string \<Rightarrow> string \<Rightarrow> disk \<Rightarrow> (string + unit) \<times> disk" where
  "fs_write p content d =
     (let k = components p in
      if p = [] \<or> \<not> has_parent d k then (Err (lookup_error d k), d)
      else if is_dir d k then (Err ''Is a directory (os error 21)'', d)
      else case dk_faults d CallOpen k of
        Some (e, _) \<Rightarrow> (Err e, d)
      | None \<Rightarrow>
          (case dk_faults d CallWrite k of
             Some (e, n) \<Rightarrow>
               if n < length content then (Err e, put_file k (take n content) d) else (Ok (), put_file k content d)
           | None \<Rightarrow> (Ok (), put_file k content d)))"

text \<open>\<open>OpenOptions\<close> with \<open>create_new\<close>, and \<open>write_all\<close> on the file that it opened.\<close>

definition fs_create_new :: "string \<Rightarrow> disk \<Rightarrow> (string + unit) \<times> disk" where
  "fs_create_new p d =
     (let k = components p in
      if p = [] \<or> \<not> has_parent d k then (Err (lookup_error d k), d)
      else if is_dir d k \<or> dk_entries d k \<noteq> None then (Err ''File exists (os error 17)'', d)
      else case dk_faults d CallOpen k of
        Some (e, _) \<Rightarrow> (Err e, d)
      | None \<Rightarrow> (Ok (), put_file k [] d))"

definition fs_append :: "string \<Rightarrow> string \<Rightarrow> disk \<Rightarrow> (string + unit) \<times> disk" where
  "fs_append p extra d =
     (let k = components p;
          content = (case dk_entries d k of Some (File c) \<Rightarrow> c | _ \<Rightarrow> []) @ extra
      in case dk_faults d CallWrite k of
           Some (e, n) \<Rightarrow>
             if n < length content then (Err e, put_file k (take n content) d) else (Ok (), put_file k content d)
         | None \<Rightarrow> (Ok (), put_file k content d))"

text \<open>\<open>fs::create_dir_all\<close>: the missing directories from the root down.\<close>

fun make_dirs :: "bool \<Rightarrow> string list \<Rightarrow> string list \<Rightarrow> disk \<Rightarrow> (string + unit) \<times> disk" where
  "make_dirs root upper [] d = (Ok (), d)"
| "make_dirs root upper (n # ns) d =
     (let k = (root, upper @ [n]) in
      case dk_entries d k of
        Some Directory \<Rightarrow> make_dirs root (upper @ [n]) ns d
      | Some (File _) \<Rightarrow> (Err (if ns = [] then ''File exists (os error 17)'' else ''Not a directory (os error 20)''), d)
      | None \<Rightarrow>
          (case dk_faults d CallMkdir k of
             Some (e, _) \<Rightarrow> (Err e, d)
           | None \<Rightarrow> make_dirs root (upper @ [n]) ns (d\<lparr>dk_entries := (dk_entries d)(k \<mapsto> Directory)\<rparr>)))"

definition create_dir_all_at :: "place \<Rightarrow> disk \<Rightarrow> (string + unit) \<times> disk" where
  "create_dir_all_at k d = make_dirs (fst k) [] (snd k) d"

definition fs_create_dir_all :: "string \<Rightarrow> disk \<Rightarrow> (string + unit) \<times> disk" where
  "fs_create_dir_all p d = create_dir_all_at (components p) d"

section \<open>What the calls do\<close>

definition file_at :: "disk \<Rightarrow> string \<Rightarrow> string option" where
  "file_at d p = (case dk_entries d (components p) of Some (File c) \<Rightarrow> Some c | _ \<Rightarrow> None)"

lemma put_file_simps [simp]:
  "dk_entries (put_file k c d) = (dk_entries d)(k \<mapsto> File c)" "dk_faults (put_file k c d) = dk_faults d"
  by (simp_all add: put_file_def)

lemma write_Ok:
  "fs_write p content d = (Ok (), d') \<Longrightarrow> p \<noteq> [] \<and> \<not> is_dir d (components p) \<and> d' = put_file (components p) content d"
  by (auto simp: fs_write_def Let_def split: if_splits option.splits)

lemma write_elsewhere:
  "fs_write p content d = (r, d') \<Longrightarrow> k \<noteq> components p \<Longrightarrow> dk_entries d' k = dk_entries d k"
  by (auto simp: fs_write_def Let_def split: if_splits option.splits)

lemma write_faults: "fs_write p content d = (r, d') \<Longrightarrow> dk_faults d' = dk_faults d"
  by (auto simp: fs_write_def Let_def split: if_splits option.splits)

lemma create_new_Ok:
  "fs_create_new p d = (Ok (), d') \<Longrightarrow>
    p \<noteq> [] \<and> snd (components p) \<noteq> [] \<and> dk_entries d (components p) = None \<and> d' = put_file (components p) [] d"
  by (auto simp: fs_create_new_def is_dir_def Let_def split: if_splits option.splits)

lemma append_Ok:
  "fs_append p extra d = (Ok (), d') \<Longrightarrow> dk_entries d (components p) = Some (File c) \<Longrightarrow>
    d' = put_file (components p) (c @ extra) d"
  by (auto simp: fs_append_def Let_def split: if_splits option.splits)

lemma append_elsewhere:
  "fs_append p extra d = (r, d') \<Longrightarrow> k \<noteq> components p \<Longrightarrow> dk_entries d' k = dk_entries d k"
  by (auto simp: fs_append_def Let_def split: if_splits option.splits)

lemma append_faults: "fs_append p extra d = (r, d') \<Longrightarrow> dk_faults d' = dk_faults d"
  by (auto simp: fs_append_def Let_def split: if_splits option.splits)

text \<open>Making directories keeps what is there, and leaves directories down to the place.\<close>

lemma make_dirs_keeps:
  "make_dirs root upper ns d = (r, d') \<Longrightarrow> dk_entries d k = Some e \<Longrightarrow> dk_entries d' k = Some e"
proof (induction root upper ns d rule: make_dirs.induct)
  case (2 root upper n ns d)
  then show ?case
    by (cases "k = (root, upper @ [n])") (auto simp: Let_def split: option.splits entry.splits if_splits)
qed simp

lemma make_dirs_files:
  "make_dirs root upper ns d = (r, d') \<Longrightarrow> dk_entries d' k = Some (File c) \<Longrightarrow> dk_entries d k = Some (File c)"
  by (induction root upper ns d rule: make_dirs.induct) (auto simp: Let_def split: option.splits entry.splits if_splits)

lemma make_dirs_faults: "make_dirs root upper ns d = (r, d') \<Longrightarrow> dk_faults d' = dk_faults d"
  by (induction root upper ns d rule: make_dirs.induct) (auto simp: Let_def split: option.splits entry.splits)

lemma make_dirs_other:
  "make_dirs root upper ns d = (r, d') \<Longrightarrow> fst k \<noteq> root \<or> length (upper @ ns) < length (snd k) \<Longrightarrow>
    dk_entries d' k = dk_entries d k"
  by (induction root upper ns d rule: make_dirs.induct) (auto simp: Let_def split: option.splits entry.splits if_splits)

lemma make_dirs_last:
  "make_dirs root upper ns d = (Ok (), d') \<Longrightarrow> ns \<noteq> [] \<Longrightarrow> dk_entries d' (root, upper @ ns) = Some Directory"
proof (induction root upper ns d rule: make_dirs.induct)
  case (2 root upper n ns d)
  show ?case
  proof (cases "ns = []")
    case True
    with "2.prems" show ?thesis by (auto simp: Let_def split: option.splits entry.splits)
  next
    case False
    with 2 show ?thesis by (auto simp: Let_def split: option.splits entry.splits)
  qed
qed simp

lemma create_dir_all_is_dir: "create_dir_all_at k d = (Ok (), d') \<Longrightarrow> is_dir d' k"
  using make_dirs_last [of "fst k" "[]" "snd k" d d'] by (auto simp: create_dir_all_at_def is_dir_def)

lemma read_file:
  "dk_entries d (components p) = Some (File c) \<Longrightarrow> p \<noteq> [] \<Longrightarrow> snd (components p) \<noteq> [] \<Longrightarrow>
    dk_faults d CallRead (components p) = None \<Longrightarrow> utf8_ok (map of_char c) \<Longrightarrow> fs_read_to_string d p = Ok c"
  by (simp add: fs_read_to_string_def fs_read_def is_dir_def Let_def)

lemma read_Ok:
  "fs_read_to_string d p = Ok c \<Longrightarrow> p \<noteq> [] \<and> dk_entries d (components p) = Some (File c) \<and>
    dk_faults d CallRead (components p) = None \<and> utf8_ok (map of_char c) \<and> snd (components p) \<noteq> []"
  by (auto simp: fs_read_to_string_def fs_read_def is_dir_def Let_def split: if_splits option.splits entry.splits sum.splits)

text \<open>Nothing refuses to be read.\<close>

definition readable :: "disk \<Rightarrow> bool" where
  "readable d = (dk_faults d CallRead = (\<lambda>_. None))"

lemma readable_file:
  "readable d \<Longrightarrow> dk_entries d (components p) = Some (File c) \<Longrightarrow> p \<noteq> [] \<Longrightarrow> snd (components p) \<noteq> [] \<Longrightarrow>
    utf8_ok (map of_char c) \<Longrightarrow> fs_read_to_string d p = Ok c"
  by (rule read_file) (simp_all add: readable_def)

end
