(* ===== verification/Wallet_Commands.thy ===== *)
theory Wallet_Commands
  imports Wallet Files Bridge_Config
begin

text \<open>
  The wallet commands of \<open>crates/wsc-cli/src/main.rs\<close>: they create, restore and open the key store file.
  What a command reads beside the disk is the record \<open>console\<close>: the environment, the standard input,
  the answer to a password prompt and the results of the calls of \<open>getrandom::fill\<close> in their order.
  Errors are the texts that \<open>main\<close> prints; the output is a list of lines, one of them JSON on request.
\<close>

section \<open>Arguments and surroundings\<close>

record wallet_path_args =
  wpa_keystore :: "string option"
  wpa_password_env :: "string option"
  wpa_json :: bool

record restore_args =
  rsa_path :: wallet_path_args
  rsa_mnemonic :: "string option"
  rsa_mnemonic_file :: "string option"
  rsa_mnemonic_passphrase_env :: "string option"

record sign_message_args =
  sma_path :: wallet_path_args
  sma_message :: "string option"
  sma_message_file :: "string option"

record console =
  con_vars :: environment
  con_stdin :: "string + string"
  con_password :: "string \<Rightarrow> string + string"
  con_fill :: "nat \<Rightarrow> nat \<Rightarrow> string + bytes"

datatype out_line = TextLine string | JsonLine json

definition NATIVE_ASSET_NAME :: string where "NATIVE_ASSET_NAME = ''MANNA''"

text \<open>\<open>env::var\<close>: a variable that is not set is an error with this text.\<close>

definition env_var :: "console \<Rightarrow> string \<Rightarrow> string + string" where
  "env_var con name = ok_or (con_vars con name) ''environment variable not found''"

definition resolve_path :: "console \<Rightarrow> string option \<Rightarrow> string" where
  "resolve_path con p =
     (case p of
        Some given \<Rightarrow> given
      | None \<Rightarrow>
          (case con_vars con ''WSC_HOME'' of
             Some home \<Rightarrow> path_join home ''wallet.keystore.json''
           | None \<Rightarrow> ''.wsc/wallet.keystore.json''))"

definition read_password :: "console \<Rightarrow> string option \<Rightarrow> string \<Rightarrow> string + string" where
  "read_password con env_name prompt =
     (case env_name of
        Some name \<Rightarrow> env_var con name
      | None \<Rightarrow>
          (case con_vars con ''WSC_WALLET_PASSWORD'' of
             Some password \<Rightarrow> Ok password
           | None \<Rightarrow> con_password con prompt))"

text \<open>The first line of the input; \<open>read_line\<close> leaves its line end, which \<open>trim_end\<close> removes.\<close>

definition prompt_line :: "console \<Rightarrow> string + string" where
  "prompt_line con =
     (case con_stdin con of Inl e \<Rightarrow> Err e | Inr s \<Rightarrow> Ok (str_trim_end (takeWhile (\<lambda>c. c \<noteq> CHR 0x0A) s)))"

section \<open>The key store file\<close>

definition write_keystore ::
    "('m, 'b) wallet_ext_scheme \<Rightarrow> string \<Rightarrow> encrypted_keystore \<Rightarrow> disk \<Rightarrow> (string + unit) \<times> disk" where
  "write_keystore W p ks d =
     (case (case parent_place (components p) of None \<Rightarrow> (Ok (), d) | Some up \<Rightarrow> create_dir_all_at up d) of
        (Inl e, d1) \<Rightarrow> (Err e, d1)
      | (Inr _, d1) \<Rightarrow>
          (case keystore_to_json_pretty W ks of
             Inl e \<Rightarrow> (Err (wallet_error_string e), d1)
           | Inr json \<Rightarrow>
               (case fs_create_new p d1 of
                  (Inl e, d2) \<Rightarrow> (Err e, d2)
                | (Inr _, d2) \<Rightarrow>
                    (case fs_append p json d2 of
                       (Inl e, d3) \<Rightarrow> (Err e, d3)
                     | (Inr _, d3) \<Rightarrow> fs_append p [CHR 0x0A] d3))))"

definition load_wallet ::
    "('a) crypto_ext_scheme \<Rightarrow> ('m, 'b) wallet_ext_scheme \<Rightarrow> console \<Rightarrow> wallet_path_args \<Rightarrow> disk \<Rightarrow> string + wallet" where
  "load_wallet X W con args d =
     (case fs_read_to_string d (resolve_path con (wpa_keystore args)) of Inl e \<Rightarrow> Err e | Inr contents \<Rightarrow>
     (case keystore_from_json W contents of Inl e \<Rightarrow> Err (wallet_error_string e) | Inr ks \<Rightarrow>
     (case read_password con (wpa_password_env args) ''Keystore password: '' of Inl e \<Rightarrow> Err e | Inr password \<Rightarrow>
        map_err wallet_error_string (keystore_decrypt X W ks password))))"

section \<open>The commands\<close>

definition save_encrypted ::
    "('a) crypto_ext_scheme \<Rightarrow> ('m, 'b) wallet_ext_scheme \<Rightarrow> console \<Rightarrow> nat \<Rightarrow> wallet \<Rightarrow> string \<Rightarrow>
     wallet_error + encrypted_keystore" where
  "save_encrypted X W con i w password =
     keystore_encrypt X W (con_fill con i SALT_BYTES) (con_fill con (i + 1) NONCE_BYTES) w password"

definition show_address :: "('a) crypto_ext_scheme \<Rightarrow> wallet \<Rightarrow> string" where
  "show_address X w = to_bech32m (x_bech32m_encode X) (wl_address w)"

definition show_public_key :: "('m, 'b) wallet_ext_scheme \<Rightarrow> wallet \<Rightarrow> string" where
  "show_public_key W w = w_hex_encode W (pk_bytes (wl_public_key w))"

definition created_output ::
    "('a) crypto_ext_scheme \<Rightarrow> ('m, 'b) wallet_ext_scheme \<Rightarrow> bool \<Rightarrow> wallet \<Rightarrow> string \<Rightarrow> string \<Rightarrow> out_line list" where
  "created_output X W as_json w mnemonic p =
     (if as_json
      then [JsonLine (JObj [(''address'', JStr (show_address X w)), (''public_key'', JStr (show_public_key W w)),
             (''mnemonic'', JStr mnemonic), (''keystore'', JStr p), (''asset'', JStr NATIVE_ASSET_SYMBOL)])]
      else [TextLine (''Wallet created for '' @ NATIVE_ASSET_NAME @ '' ('' @ NATIVE_ASSET_SYMBOL @ '').''),
            TextLine (''Address: '' @ show_address X w), TextLine (''Public key: '' @ show_public_key W w),
            TextLine [], TextLine ''BACK UP THIS RECOVERY PHRASE SECURELY:'', TextLine mnemonic, TextLine [],
            TextLine (''Keystore: '' @ p)])"

definition create_wallet ::
    "('a) crypto_ext_scheme \<Rightarrow> ('m, 'b) wallet_ext_scheme \<Rightarrow> console \<Rightarrow> wallet_path_args \<Rightarrow> disk \<Rightarrow>
     (string + out_line list) \<times> disk" where
  "create_wallet X W con args d =
     (let p = resolve_path con (wpa_keystore args) in
      if path_exists d p then (Err (''keystore already exists: '' @ p), d)
      else case read_password con (wpa_password_env args) ''Keystore password: '' of Inl e \<Rightarrow> (Err e, d) | Inr password \<Rightarrow>
      (case wallet_create X W (con_fill con 0 32) of Inl e \<Rightarrow> (Err (wallet_error_string e), d) | Inr (w, mnemonic) \<Rightarrow>
      (case save_encrypted X W con 1 w password of Inl e \<Rightarrow> (Err (wallet_error_string e), d) | Inr ks \<Rightarrow>
      (case write_keystore W p ks d of
         (Inl e, d') \<Rightarrow> (Err e, d')
       | (Inr _, d') \<Rightarrow> (Ok (created_output X W (wpa_json args) w mnemonic p), d')))))"

definition restore_phrase :: "console \<Rightarrow> restore_args \<Rightarrow> disk \<Rightarrow> string + string" where
  "restore_phrase con args d =
     (case rsa_mnemonic args of
        Some given \<Rightarrow> Ok given
      | None \<Rightarrow> (case rsa_mnemonic_file args of Some f \<Rightarrow> fs_read_to_string d f | None \<Rightarrow> prompt_line con))"

definition restored_output ::
    "('a) crypto_ext_scheme \<Rightarrow> ('m, 'b) wallet_ext_scheme \<Rightarrow> bool \<Rightarrow> wallet \<Rightarrow> string \<Rightarrow> out_line list" where
  "restored_output X W as_json w p =
     (if as_json
      then [JsonLine (JObj [(''address'', JStr (show_address X w)), (''public_key'', JStr (show_public_key W w)),
             (''keystore'', JStr p)])]
      else [TextLine ''Wallet restored.'', TextLine (''Address: '' @ show_address X w), TextLine (''Keystore: '' @ p)])"

definition restore_wallet ::
    "('a) crypto_ext_scheme \<Rightarrow> ('m, 'b) wallet_ext_scheme \<Rightarrow> console \<Rightarrow> restore_args \<Rightarrow> disk \<Rightarrow>
     (string + out_line list) \<times> disk" where
  "restore_wallet X W con args d =
     (let p = resolve_path con (wpa_keystore (rsa_path args)) in
      if path_exists d p then (Err (''keystore already exists: '' @ p), d)
      else case restore_phrase con args d of Inl e \<Rightarrow> (Err e, d) | Inr mnemonic \<Rightarrow>
      (case read_password con (wpa_password_env (rsa_path args)) ''New keystore password: '' of
         Inl e \<Rightarrow> (Err e, d) | Inr password \<Rightarrow>
      (case (case rsa_mnemonic_passphrase_env args of None \<Rightarrow> Ok [] | Some name \<Rightarrow> env_var con name) of
         Inl e \<Rightarrow> (Err e, d) | Inr passphrase \<Rightarrow>
      (case wallet_restore X W (str_trim mnemonic) passphrase of Inl e \<Rightarrow> (Err (wallet_error_string e), d) | Inr w \<Rightarrow>
      (case save_encrypted X W con 0 w password of Inl e \<Rightarrow> (Err (wallet_error_string e), d) | Inr ks \<Rightarrow>
      (case write_keystore W p ks d of
         (Inl e, d') \<Rightarrow> (Err e, d')
       | (Inr _, d') \<Rightarrow> (Ok (restored_output X W (wpa_json (rsa_path args)) w p), d')))))))"

definition show_wallet_address ::
    "('a) crypto_ext_scheme \<Rightarrow> ('m, 'b) wallet_ext_scheme \<Rightarrow> console \<Rightarrow> wallet_path_args \<Rightarrow> disk \<Rightarrow> string + out_line list" where
  "show_wallet_address X W con args d =
     (case load_wallet X W con args d of Inl e \<Rightarrow> Err e | Inr w \<Rightarrow> Ok [TextLine (show_address X w)])"

definition message_bytes :: "console \<Rightarrow> sign_message_args \<Rightarrow> disk \<Rightarrow> string + bytes" where
  "message_bytes con args d =
     (case sma_message args of
        Some given \<Rightarrow> Ok (str_bytes given)
      | None \<Rightarrow>
          (case sma_message_file args of
             Some f \<Rightarrow> (case fs_read d f of Inl e \<Rightarrow> Err e | Inr s \<Rightarrow> Ok (str_bytes s))
           | None \<Rightarrow> (case con_stdin con of Inl e \<Rightarrow> Err e | Inr s \<Rightarrow> Ok (str_bytes s))))"

definition sign_message ::
    "('a) crypto_ext_scheme \<Rightarrow> ('m, 'b) wallet_ext_scheme \<Rightarrow> console \<Rightarrow> sign_message_args \<Rightarrow> disk \<Rightarrow> string + out_line list" where
  "sign_message X W con args d =
     (case load_wallet X W con (sma_path args) d of Inl e \<Rightarrow> Err e | Inr w \<Rightarrow>
     (case message_bytes con args d of Inl e \<Rightarrow> Err e | Inr message \<Rightarrow>
        Ok [TextLine (w_hex_encode W (sig_bytes (wallet_sign X w message)))]))"

section \<open>No command changes a file that exists\<close>

lemma write_keystore_keeps:
  assumes "write_keystore W p ks d = (r, d')" "dk_entries d k = Some e"
  shows "dk_entries d' k = Some e"
proof -
  obtain r1 d1 where dirs: "(case parent_place (components p) of None \<Rightarrow> (Ok (), d) | Some up \<Rightarrow> create_dir_all_at up d) = (r1, d1)"
    by (rule prod.exhaust)
  then have 1: "dk_entries d1 k = Some e"
    using assms(2) make_dirs_keeps by (auto simp: create_dir_all_at_def split: option.splits)
  have new: "dk_entries d2 k = Some e \<and> k \<noteq> components p" if "fs_create_new p d1 = (Ok (), d2)" for d2
    using create_new_Ok [OF that] 1 by auto
  have failed: "d2 = d1" if "fs_create_new p d1 = (Err m, d2)" for m d2
    using that by (auto simp: fs_create_new_def Let_def split: if_splits option.splits)
  have more: "dk_entries d3 k = Some e" if "fs_append p s d2 = (r2, d3)" "dk_entries d2 k = Some e" "k \<noteq> components p" for r2 s d2 d3
    using append_elsewhere [OF that(1,3)] that(2) by simp
  show ?thesis
    using assms(1) 1
    by (auto simp: write_keystore_def dirs split: sum.splits prod.splits dest!: new failed intro: more)
qed

theorem wallet_commands_keep_files:
  "dk_entries d k = Some e \<Longrightarrow>
    dk_entries (snd (create_wallet X W con args d)) k = Some e \<and>
    dk_entries (snd (restore_wallet X W con rargs d)) k = Some e"
  by (auto simp: create_wallet_def restore_wallet_def Let_def split: sum.splits prod.splits
      dest: write_keystore_keeps)

section \<open>A key store that was written opens again\<close>

text \<open>\<open>getrandom::fill\<close> fills the whole buffer or reports an error.\<close>

definition fills_ok :: "console \<Rightarrow> bool" where
  "fills_ok con = (\<forall>i n bs. con_fill con i n = Ok bs \<longrightarrow> length bs = n)"

lemma write_keystore_Ok:
  assumes "write_keystore W p ks d = (Ok (), d')"
  obtains json where "w_keystore_to_json W ks = Ok json" "p \<noteq> []" "snd (components p) \<noteq> []"
    "dk_entries d' (components p) = Some (File (json @ [CHR 0x0A]))" "dk_faults d' = dk_faults d"
proof -
  obtain d1 d2 d3 json where dirs: "(case parent_place (components p) of None \<Rightarrow> (Ok (), d) | Some up \<Rightarrow> create_dir_all_at up d) = (Ok (), d1)"
    and json: "w_keystore_to_json W ks = Ok json" and new: "fs_create_new p d1 = (Ok (), d2)"
    and first: "fs_append p json d2 = (Ok (), d3)" and second: "fs_append p [CHR 0x0A] d3 = (Ok (), d')"
    using assms by (auto simp: write_keystore_def keystore_to_json_pretty_def split: sum.splits prod.splits)
  have f1: "dk_faults d1 = dk_faults d"
    using dirs make_dirs_faults by (auto simp: create_dir_all_at_def split: option.splits)
  note n = create_new_Ok [OF new]
  have e2: "dk_entries d2 (components p) = Some (File [])" using n by simp
  note a = append_Ok [OF first e2]
  have e3: "dk_entries d3 (components p) = Some (File json)" by (simp add: a)
  note b = append_Ok [OF second e3]
  have "dk_faults d' = dk_faults d"
    using append_faults [OF second] append_faults [OF first] n f1 by simp
  with json n b that show ?thesis by simp
qed

lemma saved_wallet_loads:
  assumes laws: "base64_ok W" "aead_ok W" "keystore_json_ok W" "fills_ok con" "readable d"
    and w: "wallet_ok X w" and save: "save_encrypted X W con i w password = Ok ks"
    and written: "write_keystore W (resolve_path con (wpa_keystore args)) ks d = (Ok (), d')"
    and pw: "read_password con (wpa_password_env args) ''Keystore password: '' = Ok password"
  shows "load_wallet X W con args d' = Ok w"
proof -
  obtain salt nonce where fill: "con_fill con i SALT_BYTES = Ok salt" "con_fill con (i + 1) NONCE_BYTES = Ok nonce"
    and enc: "keystore_encrypt X W (Ok salt) (Ok nonce) w password = Ok ks"
    using save by (cases "con_fill con i SALT_BYTES"; cases "con_fill con (i + 1) NONCE_BYTES")
      (auto simp: save_encrypted_def keystore_encrypt_def)
  have "length salt = SALT_BYTES" "length nonce = NONCE_BYTES"
    using laws(4) fill by (auto simp: fills_ok_def)
  then have opened: "keystore_decrypt X W ks password = Ok w"
    by (rule encrypted_opens [OF laws(1,2) w _ _ enc])
  obtain json where json: "w_keystore_to_json W ks = Ok json"
    and p: "resolve_path con (wpa_keystore args) \<noteq> []" "snd (components (resolve_path con (wpa_keystore args))) \<noteq> []"
    and stored: "dk_entries d' (components (resolve_path con (wpa_keystore args))) = Some (File (json @ [CHR 0x0A]))"
    and faults: "dk_faults d' = dk_faults d"
    using written by (rule write_keystore_Ok)
  have reads: "w_keystore_from_json W (json @ [CHR 0x0A]) = Ok ks" "utf8_ok (map of_char (json @ [CHR 0x0A]))"
    using laws(3) json by (auto simp: keystore_json_ok_def)
  have "fs_read_to_string d' (resolve_path con (wpa_keystore args)) = Ok (json @ [CHR 0x0A])"
    by (rule readable_file [OF _ stored p reads(2)]) (use laws(5) faults in \<open>simp add: readable_def\<close>)
  then show ?thesis
    using reads(1) pw opened by (simp add: load_wallet_def keystore_from_json_def)
qed

text \<open>
  C34. After \<open>wallet create\<close> has succeeded, opening the key store with the same arguments gives the wallet
  whose address it printed, and the recovery phrase that it printed restores that wallet.
\<close>

theorem created_wallet_opens:
  assumes laws: "digests_ok X" "base64_ok W" "aead_ok W" "keystore_json_ok W" "fills_ok con" "readable d"
    and run: "create_wallet X W con args d = (Ok out, d')"
  shows "\<exists>w mnemonic. load_wallet X W con args d' = Ok w \<and> wallet_restore X W mnemonic [] = Ok w \<and>
    out = created_output X W (wpa_json args) w mnemonic (resolve_path con (wpa_keystore args))"
proof -
  obtain password w mnemonic ks where pw: "read_password con (wpa_password_env args) ''Keystore password: '' = Ok password"
    and created: "wallet_create X W (con_fill con 0 32) = Ok (w, mnemonic)"
    and save: "save_encrypted X W con 1 w password = Ok ks"
    and written: "write_keystore W (resolve_path con (wpa_keystore args)) ks d = (Ok (), d')"
    and out: "out = created_output X W (wpa_json args) w mnemonic (resolve_path con (wpa_keystore args))"
    using run by (auto simp: create_wallet_def Let_def split: if_splits sum.splits prod.splits)
  have "load_wallet X W con args d' = Ok w"
    by (rule saved_wallet_loads [OF laws(2-6) wallet_create_ok [OF laws(1) created] save written pw])
  then show ?thesis using created_wallet_restores [OF created] out by blast
qed

section \<open>A concrete wallet\<close>

definition toy_keystore :: encrypted_keystore where
  "toy_keystore =
     \<lparr>ks_version = KEYSTORE_VERSION, ks_chain_id = CHAIN_ID, ks_derivation_path = DERIVATION_PATH,
      ks_address = ADDRESS_HRP, ks_public_key = hex_string (replicate 32 0),
      ks_kdf = \<lparr>kdf_algorithm = ''argon2id'', kdf_salt = bytes_str (replicate 16 0)\<rparr>,
      ks_cipher = \<lparr>cip_algorithm = ''xchacha20-poly1305'', cip_nonce = bytes_str (replicate 24 0),
                   cip_ciphertext = bytes_str (replicate 32 0)\<rparr>\<rparr>"

definition toy_wallet_ext :: "bytes wallet_ext" where
  "toy_wallet_ext =
     \<lparr>w_mnemonic_from_entropy = (\<lambda>bs. Ok bs), w_mnemonic_to_string = bytes_str,
      w_mnemonic_parse = (\<lambda>s. Ok (str_bytes s)), w_mnemonic_to_seed = (\<lambda>m p. m),
      w_argon2 = (\<lambda>p salt. Some (replicate 32 0)), w_aead_encrypt = (\<lambda>k n p. Some p),
      w_aead_decrypt = (\<lambda>k n c. Some c), w_base64_encode = bytes_str, w_base64_decode = (\<lambda>s. Ok (str_bytes s)),
      w_hex_encode = hex_string, w_hex_decode = (\<lambda>s. Err ''hex''),
      w_keystore_to_json = (\<lambda>ks. if ks = toy_keystore then Ok ''k'' else Err ''unknown''),
      w_keystore_from_json = (\<lambda>s. Ok toy_keystore)\<rparr>"

definition toy_console :: console where
  "toy_console = \<lparr>con_vars = (\<lambda>_. None), con_stdin = Ok [], con_password = (\<lambda>_. Ok ''pw''),
     con_fill = (\<lambda>i n. Ok (replicate n 0))\<rparr>"

definition toy_path_args :: wallet_path_args where
  "toy_path_args = \<lparr>wpa_keystore = Some ''w'', wpa_password_env = None, wpa_json = False\<rparr>"

definition empty_disk :: disk where
  "empty_disk = \<lparr>dk_entries = (\<lambda>_. None), dk_faults = (\<lambda>_ _. None)\<rparr>"

lemma toy_wallet_laws: "base64_ok toy_wallet_ext" "aead_ok toy_wallet_ext" "keystore_json_ok toy_wallet_ext"
  "fills_ok toy_console" "readable empty_disk"
  by (auto simp: base64_ok_def aead_ok_def keystore_json_ok_def toy_wallet_ext_def fills_ok_def toy_console_def
      readable_def empty_disk_def)

lemma toy_create: "is_ok (fst (create_wallet toy_ext toy_wallet_ext toy_console toy_path_args empty_disk))"
proof -
  have place: "components ''w'' = (False, [''w''])" by code_simp
  have wallet: "wallet_create toy_ext toy_wallet_ext (con_fill toy_console 0 32) =
      Ok (wallet_from_key_pair toy_ext (KeyPair (replicate 32 0)), bytes_str (replicate 32 0))"
    by (simp add: wallet_create_def generate_mnemonic_def mnemonic_to_seed_def wallet_from_seed_def derive_wallet_key_def
        derive_hardened_path_def toy_wallet_ext_def toy_console_def toy_ext_def Let_def)
  have save: "save_encrypted toy_ext toy_wallet_ext toy_console 1 (wallet_from_key_pair toy_ext (KeyPair (replicate 32 0)))
      ''pw'' = Ok toy_keystore"
    by (simp add: save_encrypted_def keystore_encrypt_def derive_encryption_key_def toy_wallet_ext_def toy_console_def
        toy_keystore_def wallet_from_key_pair_def kp_public_key_def private_key_bytes_def to_bech32m_def toy_ext_def
        ok_or_def SALT_BYTES_def NONCE_BYTES_def)
  have absent: "\<not> path_exists empty_disk ''w''"
    by (simp add: path_exists_def place is_dir_def empty_disk_def)
  have pw: "read_password toy_console None prompt = Ok ''pw''" for prompt
    by (simp add: read_password_def toy_console_def)
  have written: "is_ok (fst (write_keystore toy_wallet_ext ''w'' toy_keystore empty_disk))"
    by (simp add: write_keystore_def place parent_place_def keystore_to_json_pretty_def toy_wallet_ext_def
        fs_create_new_def has_parent_def is_dir_def fs_append_def empty_disk_def Let_def)
  then obtain d' where "write_keystore toy_wallet_ext ''w'' toy_keystore empty_disk = (Ok (), d')"
    by (metis is_ok_ex old.unit.exhaust prod.collapse)
  then show ?thesis
    using absent
    by (simp add: create_wallet_def toy_path_args_def resolve_path_def pw wallet save [unfolded One_nat_def] Let_def)
qed

theorem created_wallet_opens_witness:
  "\<exists>w d'. load_wallet toy_ext toy_wallet_ext toy_console toy_path_args d' = Ok w"
proof -
  obtain out d' where "create_wallet toy_ext toy_wallet_ext toy_console toy_path_args empty_disk = (Ok out, d')"
    using toy_create by (metis is_ok_ex prod.collapse)
  from created_wallet_opens [OF toy_digests_ok toy_wallet_laws this] show ?thesis by blast
qed

theorem wallet_commands_keep_files_witness:
  "dk_entries (snd (create_wallet toy_ext toy_wallet_ext toy_console toy_path_args
     (put_file (False, [''w'']) ''mine'' empty_disk))) (False, [''w'']) = Some (File ''mine'')"
  using wallet_commands_keep_files [of "put_file (False, [''w'']) ''mine'' empty_disk" "(False, [''w''])" "File ''mine''"
      toy_ext toy_wallet_ext toy_console toy_path_args] by simp

end
