(* ===== verification/Node_Files.thy ===== *)
theory Node_Files
  imports Node_Consistency Files
begin

text \<open>
  \<open>crates/wsc-node/src/lib.rs\<close>, the files of a node: \<open>node.json\<close> and \<open>genesis.json\<close> in its data
  directory, which \<open>Node::init\<close> writes and \<open>NodeConfig::load\<close> and \<open>Node::open\<close> read. The derived serde
  instances of the two structures are the fields of \<open>files_ext\<close>. The database of the node lives under
  the same directory but is not a file of this disk: it stays the argument \<open>db\<close> of \<open>node_open\<close>.
\<close>

section \<open>Configuration files\<close>

record files_ext =
  fx_config_to_json :: "node_config \<Rightarrow> string + string"
  fx_config_from_json :: "string \<Rightarrow> string + node_config"
  fx_genesis_to_json :: "genesis_config \<Rightarrow> string + string"
  fx_genesis_from_json :: "string \<Rightarrow> string + genesis_config"

definition NODE_CONFIG_FILE :: string where "NODE_CONFIG_FILE = ''node.json''"
definition GENESIS_FILE :: string where "GENESIS_FILE = ''genesis.json''"

definition end_line :: string where "end_line = [CHR 0x0A]"

definition config_for :: "string \<Rightarrow> string \<Rightarrow> node_config" where
  "config_for data_dir chain_id =
     \<lparr>nc_chain_id = chain_id, nc_block_time_ms = 2000, nc_data_dir = data_dir,
      nc_genesis_path = path_join data_dir GENESIS_FILE\<rparr>"

definition config_for_data_dir :: "string \<Rightarrow> node_config" where
  "config_for_data_dir data_dir = config_for data_dir CHAIN_ID"

definition config_path :: "node_config \<Rightarrow> string" where
  "config_path cfg = path_join (nc_data_dir cfg) NODE_CONFIG_FILE"

definition config_save :: "('f) files_ext_scheme \<Rightarrow> node_config \<Rightarrow> disk \<Rightarrow> (node_error + unit) \<times> disk" where
  "config_save F cfg d =
     (case fs_create_dir_all (nc_data_dir cfg) d of
        (Inl e, d1) \<Rightarrow> (Err (NIo e), d1)
      | (Inr _, d1) \<Rightarrow>
          (case fx_config_to_json F cfg of
             Inl e \<Rightarrow> (Err (NJson e), d1)
           | Inr json \<Rightarrow>
               (case fs_write (config_path cfg) (json @ end_line) d1 of (r, d2) \<Rightarrow> (map_err NIo r, d2))))"

definition config_load :: "('f) files_ext_scheme \<Rightarrow> disk \<Rightarrow> string \<Rightarrow> node_error + node_config" where
  "config_load F d data_dir =
     (case fs_read_to_string d (path_join data_dir NODE_CONFIG_FILE) of
        Inl e \<Rightarrow> Err (NIo e)
      | Inr json \<Rightarrow> map_err NJson (fx_config_from_json F json))"

definition node_init ::
    "('f) files_ext_scheme \<Rightarrow> u64 \<Rightarrow> string \<Rightarrow> string \<Rightarrow> disk \<Rightarrow> (node_error + node_config) \<times> disk" where
  "node_init F now data_dir chain_id d =
     (let cfg = config_for data_dir chain_id in
      case fs_create_dir_all data_dir d of
        (Inl e, d1) \<Rightarrow> (Err (NIo e), d1)
      | (Inr _, d1) \<Rightarrow>
          (case fx_genesis_to_json F (init_genesis chain_id now) of
             Inl e \<Rightarrow> (Err (NJson e), d1)
           | Inr json \<Rightarrow>
               (case fs_write (nc_genesis_path cfg) (json @ end_line) d1 of
                  (Inl e, d2) \<Rightarrow> (Err (NIo e), d2)
                | (Inr _, d2) \<Rightarrow>
                    (case config_save F cfg d2 of
                       (Inl e, d3) \<Rightarrow> (Err e, d3)
                     | (Inr _, d3) \<Rightarrow> (Ok cfg, d3)))))"

definition read_genesis :: "('f) files_ext_scheme \<Rightarrow> disk \<Rightarrow> string \<Rightarrow> node_error + genesis_config" where
  "read_genesis F d p =
     (case fs_read_to_string d p of
        Inl e \<Rightarrow> Err (NIo e)
      | Inr json \<Rightarrow> map_err NJson (fx_genesis_from_json F json))"

text \<open>\<open>Node::open\<close> on the disk: the genesis file first, then the database.\<close>

definition node_open_files ::
    "('f) files_ext_scheme \<Rightarrow> ('db, 'a) storage_ext_scheme \<Rightarrow> node_config \<Rightarrow> disk \<Rightarrow> 'db \<Rightarrow>
     (node_error + 'db node) \<times> 'db" where
  "node_open_files F X cfg d db = node_open X cfg (read_genesis F d (nc_genesis_path cfg)) db"

text \<open>
  What serde promises of the two structures: the text that it writes, followed by a line end, reads back
  to the value, and is UTF-8.
\<close>

definition json_files_ok :: "('f) files_ext_scheme \<Rightarrow> bool" where
  "json_files_ok F =
     ((\<forall>cfg json. fx_config_to_json F cfg = Ok json \<longrightarrow>
         fx_config_from_json F (json @ end_line) = Ok cfg \<and> utf8_ok (map of_char (json @ end_line))) \<and>
      (\<forall>g json. fx_genesis_to_json F g = Ok json \<longrightarrow>
         fx_genesis_from_json F (json @ end_line) = Ok g \<and> utf8_ok (map of_char (json @ end_line))))"

section \<open>What \<open>init\<close> writes is what \<open>load\<close> and \<open>open\<close> read\<close>

lemma plain_names: "plain_name NODE_CONFIG_FILE" "plain_name GENESIS_FILE"
  by (simp_all add: plain_name_def NODE_CONFIG_FILE_def GENESIS_FILE_def)

lemma file_places:
  "components (path_join p NODE_CONFIG_FILE) = (fst (components p), snd (components p) @ [NODE_CONFIG_FILE])"
  "components (path_join p GENESIS_FILE) = (fst (components p), snd (components p) @ [GENESIS_FILE])"
  "path_join p NODE_CONFIG_FILE \<noteq> []" "path_join p GENESIS_FILE \<noteq> []"
  by (rule components_join plain_names)+ (simp_all add: path_join_def NODE_CONFIG_FILE_def GENESIS_FILE_def)

lemma config_save_Ok:
  assumes "config_save F cfg d = (Ok (), d')"
  obtains json d1 where "fx_config_to_json F cfg = Ok json" "fs_create_dir_all (nc_data_dir cfg) d = (Ok (), d1)"
    "d' = put_file (components (config_path cfg)) (json @ end_line) d1"
  using assms by (auto simp: config_save_def dest!: write_Ok split: prod.splits sum.splits)

lemma node_init_Ok:
  assumes "node_init F now data_dir chain_id d = (Ok cfg, d')"
  obtains gjson cjson d1 d2 where "cfg = config_for data_dir chain_id"
    "fs_create_dir_all data_dir d = (Ok (), d1)"
    "fx_genesis_to_json F (init_genesis chain_id now) = Ok gjson" "fx_config_to_json F cfg = Ok cjson"
    "fs_create_dir_all data_dir (put_file (components (nc_genesis_path cfg)) (gjson @ end_line) d1) = (Ok (), d2)"
    "d' = put_file (components (config_path cfg)) (cjson @ end_line) d2"
  using assms
  by (auto simp: node_init_def Let_def config_for_def elim!: config_save_Ok dest!: write_Ok split: prod.splits sum.splits)

lemma create_dir_all_facts:
  assumes "fs_create_dir_all p d = (r, d')"
  shows "dk_entries d k = Some e \<Longrightarrow> dk_entries d' k = Some e" and "dk_faults d' = dk_faults d"
    and "dk_entries d' k = Some (File c) \<Longrightarrow> dk_entries d k = Some (File c)"
proof -
  have m: "make_dirs (fst (components p)) [] (snd (components p)) d = (r, d')"
    using assms by (simp add: fs_create_dir_all_def create_dir_all_at_def)
  show "dk_entries d k = Some e \<Longrightarrow> dk_entries d' k = Some e" by (rule make_dirs_keeps [OF m])
  show "dk_faults d' = dk_faults d" by (rule make_dirs_faults [OF m])
  show "dk_entries d' k = Some (File c) \<Longrightarrow> dk_entries d k = Some (File c)" by (rule make_dirs_files [OF m])
qed

lemma put_read:
  "utf8_ok (map of_char c) \<Longrightarrow> readable d \<Longrightarrow> p \<noteq> [] \<Longrightarrow> snd (components p) \<noteq> [] \<Longrightarrow>
    dk_entries d (components p) = Some (File c) \<Longrightarrow> fs_read_to_string d p = Ok c"
  by (rule read_file) (simp_all add: readable_def)

lemma init_files:
  assumes laws: "json_files_ok F" "readable d" and init: "node_init F now data_dir chain_id d = (Ok cfg, d')"
  shows "config_load F d' data_dir = Ok cfg" and "read_genesis F d' (nc_genesis_path cfg) = Ok (init_genesis chain_id now)"
    and "cfg = config_for data_dir chain_id" and "readable d'"
proof -
  from init obtain gjson cjson d1 d2 where cfg: "cfg = config_for data_dir chain_id"
    and dirs: "fs_create_dir_all data_dir d = (Ok (), d1)"
    and g: "fx_genesis_to_json F (init_genesis chain_id now) = Ok gjson" and c: "fx_config_to_json F cfg = Ok cjson"
    and dirs2: "fs_create_dir_all data_dir (put_file (components (nc_genesis_path cfg)) (gjson @ end_line) d1) = (Ok (), d2)"
    and d': "d' = put_file (components (config_path cfg)) (cjson @ end_line) d2"
    by (rule node_init_Ok)
  have paths: "config_path cfg = path_join data_dir NODE_CONFIG_FILE" "nc_genesis_path cfg = path_join data_dir GENESIS_FILE"
    by (simp_all add: cfg config_for_def config_path_def)
  have apart: "components (nc_genesis_path cfg) \<noteq> components (config_path cfg)"
    by (simp add: paths file_places) (simp add: NODE_CONFIG_FILE_def GENESIS_FILE_def)
  show r: "readable d'"
    using laws(2) create_dir_all_facts(2) [OF dirs] create_dir_all_facts(2) [OF dirs2] by (simp add: readable_def d')
  have "dk_entries d' (components (nc_genesis_path cfg)) = Some (File (gjson @ end_line))"
    using apart create_dir_all_facts(1) [OF dirs2] by (simp add: d')
  then have "fs_read_to_string d' (nc_genesis_path cfg) = Ok (gjson @ end_line)"
    using laws(1) g by (intro put_read r) (auto simp: paths file_places json_files_ok_def)
  then show "read_genesis F d' (nc_genesis_path cfg) = Ok (init_genesis chain_id now)"
    using laws(1) g by (simp add: read_genesis_def json_files_ok_def)
  have "fs_read_to_string d' (config_path cfg) = Ok (cjson @ end_line)"
    using laws(1) c by (intro put_read r) (auto simp: paths file_places json_files_ok_def d')
  then show "config_load F d' data_dir = Ok cfg"
    using laws(1) c by (simp add: config_load_def json_files_ok_def paths)
  show "cfg = config_for data_dir chain_id" by (rule cfg)
qed

section \<open>A second \<open>init\<close>\<close>

text \<open>The identifier of the genesis block that a genesis file stands for.\<close>

definition genesis_hash :: "('db, 'a) storage_ext_scheme \<Rightarrow> genesis_config \<Rightarrow> hash option" where
  "genesis_hash X g =
     (case from_genesis g of
        Inl _ \<Rightarrow> None
      | Inr s \<Rightarrow>
          (case make_genesis_block X g s of
             Inl _ \<Rightarrow> None
           | Inr b \<Rightarrow> (case block_header_id X (blk_header b) of Inl _ \<Rightarrow> None | Inr h \<Rightarrow> Some h)))"

lemma genesis_hash_Some:
  "genesis_hash X g = Some h \<longleftrightarrow>
    (\<exists>s b. from_genesis g = Ok s \<and> make_genesis_block X g s = Ok b \<and> block_header_id X (blk_header b) = Ok h)"
  by (auto simp: genesis_hash_def split: sum.splits)

lemma other_genesis_refused:
  assumes "genesis_stored X db g h" "valid_utf8 (gen_chain_id g)" "gen_chain_id g' = gen_chain_id g"
    and "block_header_id X (blk_header b) = Ok h'" "h' \<noteq> h"
  shows "ensure_genesis X db g' b s = (Err GenesisMismatch, db)"
proof -
  have "utf8_ok (map unat (str_bytes (gen_chain_id g)))"
    using assms(2) by (simp add: unat_str_bytes valid_utf8_def)
  then show ?thesis
    using assms hash.expand by (auto simp: genesis_stored_def db_require_get ensure_genesis_def check_stored_genesis_def)
qed

text \<open>
  Running \<open>node init\<close> again on the directory of a node. It succeeds without looking at what is there, and
  replaces the genesis file by one without validators and with the present time; unless that gives the
  same genesis block, the node cannot be opened any more, while its database is intact.
\<close>

theorem second_init_locks_node:
  assumes laws: "store_laws X" "digests_ok X" "json_files_ok F" "readable d"
    and first: "node_open X (config_for data_dir chain_id) (Ok g) db = (Ok n0, db0)" "genesis_hash X g = Some h"
    and used: "node_reach X enc n0 n" and utf8: "valid_utf8 chain_id"
    and again: "node_init F now data_dir chain_id d = (Ok cfg, d')"
    and differs: "genesis_hash X (init_genesis chain_id now) = Some h'" "h' \<noteq> h"
  shows "config_load F d' data_dir = Ok cfg \<and>
    node_open_files F X cfg d' (nd_store n) = (Err (NStorage GenesisMismatch), nd_store n)"
proof -
  note files = init_files [OF laws(3,4) again]
  obtain s b h0 where g: "gen_chain_id g = nc_chain_id (config_for data_dir chain_id)" "from_genesis g = Ok s"
      "make_genesis_block X g s = Ok b" "block_header_id X (blk_header b) = Ok h0" "node_ok X h0 n0" "nd_genesis n0 = g"
    using open_ok [OF laws(1) first(1)] by metis
  have "h0 = h" using first(2) g(2-4) by (auto simp: genesis_hash_Some)
  moreover have "node_ok X h0 n" "nd_genesis n = g"
    using node_reach_ok [OF used laws(1,2) g(5)] g(6) by auto
  ultimately have stored: "genesis_stored X (nd_store n) g h" by (simp add: node_ok_def)
  obtain s' b' where g': "from_genesis (init_genesis chain_id now) = Ok s'"
      "make_genesis_block X (init_genesis chain_id now) s' = Ok b'" "block_header_id X (blk_header b') = Ok h'"
    using differs(1) by (auto simp: genesis_hash_Some)
  have same: "gen_chain_id (init_genesis chain_id now) = gen_chain_id g" "gen_chain_id g = chain_id"
    using g(1) by (simp_all add: init_genesis_def config_for_def)
  have "ensure_genesis X (nd_store n) (init_genesis chain_id now) b' (snapshot s') = (Err GenesisMismatch, nd_store n)"
    using other_genesis_refused [OF stored _ same(1) g'(3) differs(2)] utf8 same(2) by simp
  then show ?thesis
    using files same g' by (simp add: node_open_files_def node_open_def config_for_def)
qed

section \<open>A concrete node that is initialised twice\<close>

definition toy_init_state :: state where
  "toy_init_state = state_new CHAIN_ID 1 bt_empty"

definition toy_init_net :: "toy_db storage_ext" where
  "toy_init_net = (toy_net toy_init_state toy_init_state 1)\<lparr>x_enc_header :=
     (\<lambda>h. Inr (replicate (unat (bh_height h) + unat (bh_timestamp h)) 0))\<rparr>"

definition toy_files :: files_ext where
  "toy_files = \<lparr>fx_config_to_json = (\<lambda>c. if c = config_for ''n'' CHAIN_ID then Ok ''c'' else Err ''unknown''),
     fx_config_from_json = (\<lambda>_. Ok (config_for ''n'' CHAIN_ID)),
     fx_genesis_to_json = (\<lambda>g. if g = init_genesis CHAIN_ID 5 then Ok ''g'' else Err ''unknown''),
     fx_genesis_from_json = (\<lambda>_. Ok (init_genesis CHAIN_ID 5))\<rparr>"

definition toy_disk :: disk where
  "toy_disk = \<lparr>dk_entries = (\<lambda>_. None), dk_faults = (\<lambda>_ _. None)\<rparr>"

lemma toy_files_ok: "json_files_ok toy_files"
  by (auto simp: json_files_ok_def toy_files_def end_line_def)

lemma toy_from_init: "from_genesis (init_genesis CHAIN_ID t) = Ok toy_init_state"
  by (simp add: from_genesis_Ok init_genesis_def toy_init_state_def)

lemma toy_init_laws: "store_laws toy_init_net" "digests_ok toy_init_net"
  using toy_net_laws [of toy_init_state toy_init_state 1]
  by (simp_all add: store_laws_def sled_ok_def codecs_ok_def toy_init_net_def digests_ok_def)

lemma toy_init_block:
  "make_genesis_block toy_init_net (init_genesis CHAIN_ID 0) toy_init_state = Ok (toy_net_block 0 1)"
  "\<exists>b. make_genesis_block toy_init_net (init_genesis CHAIN_ID 5) toy_init_state = Ok b \<and>
     bh_height (blk_header b) = 0 \<and> bh_timestamp (blk_header b) = 5"
proof -
  have roots: "merkle_root toy_init_net [] = toy_digest 14" "state_root toy_init_net toy_init_state = Ok (toy_digest 13)"
    by (simp_all add: merkle_root_def state_root_def state_root_bytes_def toy_init_net_def toy_net_defs sha256_domain_def
        toy_digest_def has_program_data_def has_token_data_def has_asset_data_def toy_init_state_def)
  then show "make_genesis_block toy_init_net (init_genesis CHAIN_ID 0) toy_init_state = Ok (toy_net_block 0 1)"
    "\<exists>b. make_genesis_block toy_init_net (init_genesis CHAIN_ID 5) toy_init_state = Ok b \<and>
       bh_height (blk_header b) = 0 \<and> bh_timestamp (blk_header b) = 5"
    by (simp_all add: make_genesis_block_def toy_net_block_def init_genesis_def block_with_def)
qed

lemma toy_init_id:
  "block_header_id toy_init_net h =
     Ok (Hash (replicate 32 (of_nat (12 + unat (bh_height h) + unat (bh_timestamp h)))))"
  by (simp add: block_header_id_def hash_encoded_def sha256_domain_def toy_init_net_def toy_net_defs add.assoc)

lemma toy_init_hashes:
  "genesis_hash toy_init_net (init_genesis CHAIN_ID 0) = Some (toy_digest 12)"
  "genesis_hash toy_init_net (init_genesis CHAIN_ID 5) = Some (toy_digest 17)"
  using toy_init_block
  by (auto simp: genesis_hash_Some toy_from_init toy_init_id toy_digest_def toy_net_block_def block_with_def)

lemma toy_init_open:
  "\<exists>n db. node_open toy_init_net (config_for ''n'' CHAIN_ID) (Ok (init_genesis CHAIN_ID 0)) toy_empty_db = (Ok n, db)"
proof -
  let ?X = toy_init_net and ?g = "init_genesis CHAIN_ID 0"
  obtain db where w: "write_genesis ?X toy_empty_db ?g (toy_digest 12) (toy_net_block 0 1) (snapshot toy_init_state) =
      (Ok (toy_digest 12), db)"
    by (auto simp: write_genesis_def store_commit_def toy_init_net_def toy_net_defs toy_codec_def db_insert_def
        db_flush_def try_then_def toy_net_block_def block_with_def no_operations_def)
  have "block_header_id ?X (blk_header (toy_net_block 0 1)) = Ok (toy_digest 12)"
    by (simp add: toy_init_id toy_net_block_def block_with_def toy_digest_def)
  moreover have "db_get ?X toy_empty_db TMeta META_CHAIN_ID = Ok None"
    by (simp add: db_get_def toy_init_net_def toy_net_defs toy_empty_db_def)
  ultimately have eg: "ensure_genesis ?X toy_empty_db ?g (toy_net_block 0 1) (snapshot toy_init_state) = (Ok (toy_digest 12), db)"
    using w by (simp add: ensure_genesis_def)
  have wf: "wf_hash (toy_digest 12)" by (simp add: toy_digest_def wf_hash_def)
  obtain d where commit: "store_commit ?X d (toy_digest 12) (toy_net_block 0 1) (snapshot toy_init_state) = (Ok (), db)"
    using write_genesis_Ok(5) [OF _ w] toy_init_laws(1) by (auto simp: store_laws_def)
  have "latest_block ?X db = Ok (toy_net_block 0 1)" "latest_state ?X db = Ok (snapshot toy_init_state)"
    using commit_latest(1,4) [OF toy_init_laws(1) wf commit] by simp_all
  moreover have "state_root ?X toy_init_state = Ok (toy_digest 13)"
    using toy_init_block(1) by (auto simp: make_genesis_block_def toy_net_block_def block_with_def split: sum.splits)
  ultimately have "\<exists>n. restore_node ?X cfg ?g db = Ok n" for cfg
    by (simp add: restore_node_def from_snapshot_snapshot init_genesis_def toy_net_block_def block_with_def)
  then show ?thesis
    by (simp add: node_open_def toy_from_init toy_init_block(1) [unfolded One_nat_def] eg [unfolded One_nat_def])
      (simp add: init_genesis_def config_for_def)
qed

theorem second_init_locks_node_witness:
  "\<exists>cfg d' (n :: toy_db node). node_open_files toy_files toy_init_net cfg d' (nd_store n) =
     (Err (NStorage GenesisMismatch), nd_store n)"
proof -
  obtain n db where opened: "node_open toy_init_net (config_for ''n'' CHAIN_ID) (Ok (init_genesis CHAIN_ID 0)) toy_empty_db = (Ok n, db)"
    using toy_init_open by blast
  have again: "\<exists>d'. node_init toy_files 5 ''n'' CHAIN_ID toy_disk = (Ok (config_for ''n'' CHAIN_ID), d')"
  proof -
    have places: "components ''n'' = (False, [''n''])" by code_simp
    have p: "path_join ''n'' NODE_CONFIG_FILE \<noteq> []" "path_join ''n'' GENESIS_FILE \<noteq> []" by (rule file_places)+
    show ?thesis
      by (simp add: node_init_def config_save_def fs_write_def fs_create_dir_all_def create_dir_all_at_def has_parent_def
          parent_place_def is_dir_def config_path_def config_for_def file_places places p toy_disk_def
          toy_files_def Let_def)
  qed
  have utf8: "valid_utf8 CHAIN_ID" by (simp add: valid_utf8_def CHAIN_ID_def)
  have differ: "toy_digest 17 \<noteq> toy_digest 12" by (simp add: toy_digest_def)
  have r: "readable toy_disk" by (simp add: readable_def toy_disk_def)
  obtain d' where init: "node_init toy_files 5 ''n'' CHAIN_ID toy_disk = (Ok (config_for ''n'' CHAIN_ID), d')"
    using again by blast
  show ?thesis
    using second_init_locks_node [OF toy_init_laws toy_files_ok r opened toy_init_hashes(1) node_reach.start utf8 init
        toy_init_hashes(2) differ]
    by blast
qed

end
