(* ===== verification/Devnet.thy ===== *)
theory Devnet
  imports Wallet_Commands Node_Files
begin

text \<open>
  \<open>devnet init\<close> of \<open>crates/wsc-cli/src/main.rs\<close>: four validators with known secrets, one genesis for all
  nodes, a data directory for each of them and the file of the secrets that the containers are started
  with; and \<open>load_validator_key\<close>, which reads such a secret back. \<open>clock i\<close> is the time that the call of
  \<open>Node::init\<close> for node \<open>i\<close> reads.
\<close>

section \<open>The validators and their genesis\<close>

definition DEVNET_SECRETS :: "bytes list" where
  "DEVNET_SECRETS = [replicate 32 1, replicate 32 2, replicate 32 3, replicate 32 4]"

definition devnet_validators :: "('a) crypto_ext_scheme \<Rightarrow> validator list" where
  "devnet_validators X =
     map (\<lambda>(i, secret). \<lparr>val_name = ''validator-'' @ show_nat i, val_public_key = kp_public_key X (KeyPair secret)\<rparr>)
       (enumerate 1 DEVNET_SECRETS)"

definition devnet_genesis :: "('a) crypto_ext_scheme \<Rightarrow> string \<Rightarrow> genesis_config" where
  "devnet_genesis X chain_id =
     \<lparr>gen_version = 1, gen_chain_id = chain_id, gen_genesis_time = 1700000000, gen_block_time_ms = 2000,
      gen_initial_supply = 0, gen_fee_minimum = 1, gen_validators = devnet_validators X, gen_allocations = [],
      gen_assets = []\<rparr>"

definition load_validator_key ::
    "('m, 'b) wallet_ext_scheme \<Rightarrow> console \<Rightarrow> string option \<Rightarrow> string + key_pair option" where
  "load_validator_key W con env_name =
     (case env_name of
        None \<Rightarrow> Ok None
      | Some name \<Rightarrow>
          (case env_var con name of Inl e \<Rightarrow> Err e | Inr v \<Rightarrow>
          (case w_hex_decode W (str_trim v) of Inl e \<Rightarrow> Err e | Inr bs \<Rightarrow>
             if length bs \<noteq> 32 then Err ''validator secret must be exactly 32 bytes of hex''
             else Ok (Some (KeyPair bs)))))"

section \<open>The files\<close>

definition node_dir :: "string \<Rightarrow> nat \<Rightarrow> string" where
  "node_dir root i = path_join root (''node-'' @ show_nat i)"

definition secret_line :: "('m, 'b) wallet_ext_scheme \<Rightarrow> nat \<Rightarrow> bytes \<Rightarrow> string" where
  "secret_line W i secret = ''WSC_VALIDATOR_'' @ show_nat i @ ''='' @ w_hex_encode W secret @ end_line"

text \<open>The loop over the existing nodes: the first configuration that does not load ends it.\<close>

fun check_nodes :: "('f) files_ext_scheme \<Rightarrow> disk \<Rightarrow> string \<Rightarrow> nat list \<Rightarrow> string + unit" where
  "check_nodes F d root [] = Ok ()"
| "check_nodes F d root (i # is) =
     (case config_load F d (node_dir root i) of
        Inl e \<Rightarrow> Err (node_error_string e)
      | Inr _ \<Rightarrow> check_nodes F d root is)"

text \<open>The loop that makes the nodes; it collects the lines of \<open>validators.env\<close>.\<close>

fun make_nodes ::
    "('f) files_ext_scheme \<Rightarrow> ('m, 'b) wallet_ext_scheme \<Rightarrow> (nat \<Rightarrow> u64) \<Rightarrow> string \<Rightarrow> string \<Rightarrow> string \<Rightarrow>
     string \<Rightarrow> (nat \<times> bytes) list \<Rightarrow> disk \<Rightarrow> (string + string) \<times> disk" where
  "make_nodes F W clock json root chain_id env_file [] d = (Ok env_file, d)"
| "make_nodes F W clock json root chain_id env_file ((i, secret) # nodes) d =
     (case node_init F (clock i) (node_dir root i) chain_id d of
        (Inl e, d1) \<Rightarrow> (Err (node_error_string e), d1)
      | (Inr cfg, d1) \<Rightarrow>
          (case fs_write (nc_genesis_path cfg) (json @ end_line) d1 of
             (Inl e, d2) \<Rightarrow> (Err e, d2)
           | (Inr _, d2) \<Rightarrow>
               make_nodes F W clock json root chain_id (env_file @ secret_line W i secret) nodes d2))"

definition reuse_devnet :: "('f) files_ext_scheme \<Rightarrow> string \<Rightarrow> string \<Rightarrow> disk \<Rightarrow> string + out_line list" where
  "reuse_devnet F root chain_id d =
     (case fs_read_to_string d (path_join root ''genesis.json'') of Inl e \<Rightarrow> Err e | Inr json \<Rightarrow>
     (case fx_genesis_from_json F json of Inl e \<Rightarrow> Err e | Inr g \<Rightarrow>
        if gen_chain_id g \<noteq> chain_id
        then Err (''existing devnet at '' @ root @ '' has chain ID '' @ gen_chain_id g @ '' instead of '' @ chain_id)
        else case check_nodes F d root [1..<5] of Inl e \<Rightarrow> Err e | Inr _ \<Rightarrow>
          if \<not> path_is_file d (path_join root ''validators.env'')
          then Err (''existing devnet at '' @ root @ '' is incomplete: validators.env is missing'')
          else Ok [TextLine (''Devnet already initialized at '' @ root @ ''; reusing existing genesis and node data.'')]))"

definition make_devnet ::
    "('a) crypto_ext_scheme \<Rightarrow> ('f) files_ext_scheme \<Rightarrow> ('m, 'b) wallet_ext_scheme \<Rightarrow> (nat \<Rightarrow> u64) \<Rightarrow> string \<Rightarrow>
     string \<Rightarrow> disk \<Rightarrow> (string + out_line list) \<times> disk" where
  "make_devnet X F W clock root chain_id d =
     (case fs_create_dir_all root d of (Inl e, d1) \<Rightarrow> (Err e, d1) | (Inr _, d1) \<Rightarrow>
     (case fx_genesis_to_json F (devnet_genesis X chain_id) of Inl e \<Rightarrow> (Err e, d1) | Inr json \<Rightarrow>
     (case fs_write (path_join root ''genesis.json'') (json @ end_line) d1 of (Inl e, d2) \<Rightarrow> (Err e, d2) | (Inr _, d2) \<Rightarrow>
     (case make_nodes F W clock json root chain_id [] (enumerate 1 DEVNET_SECRETS) d2 of
        (Inl e, d3) \<Rightarrow> (Err e, d3)
      | (Inr env_file, d3) \<Rightarrow>
          (case fs_write (path_join root ''validators.env'') env_file d3 of
             (Inl e, d4) \<Rightarrow> (Err e, d4)
           | (Inr _, d4) \<Rightarrow>
               (Ok [TextLine (''Devnet initialized at '' @ root),
                    TextLine (''Genesis: '' @ path_join root ''genesis.json''),
                    TextLine ''Deterministic validator secrets written to validators.env for devnet testing only.''],
                d4))))))"

definition init_devnet ::
    "('a) crypto_ext_scheme \<Rightarrow> ('f) files_ext_scheme \<Rightarrow> ('m, 'b) wallet_ext_scheme \<Rightarrow> (nat \<Rightarrow> u64) \<Rightarrow> string \<Rightarrow>
     string \<Rightarrow> disk \<Rightarrow> (string + out_line list) \<times> disk" where
  "init_devnet X F W clock root chain_id d =
     (if path_exists d (path_join root ''genesis.json'') then (reuse_devnet F root chain_id d, d)
      else make_devnet X F W clock root chain_id d)"

section \<open>Where the files are\<close>

lemma show_nat_digit: "c \<in> set (show_nat n) \<Longrightarrow> 48 \<le> (of_char c :: nat)"
proof (induction n rule: show_nat.induct)
  case (1 n)
  have d: "48 \<le> (of_char (digit_char k) :: nat)" if "k < 10" for k
    using that by (simp add: digit_char_def)
  show ?case
  proof (cases "n < 10")
    case True
    with "1.prems" d show ?thesis by (simp add: show_nat.simps [of n])
  next
    case False
    with "1.prems" have "c \<in> set (show_nat (n div 10)) \<or> c = digit_char (n mod 10)"
      by (auto simp: show_nat.simps [of n])
    with "1.IH" [OF False] d [of "n mod 10"] show ?thesis by auto
  qed
qed

lemma show_nat_inj: "show_nat m = show_nat n \<longleftrightarrow> m = n"
  by (metis digits_value_show option.inject)

lemma plain_devnet_names: "plain_name (''node-'' @ show_nat i)" "plain_name ''genesis.json''" "plain_name ''validators.env''"
proof -
  have "CHR ''/'' \<notin> set (show_nat i)" using show_nat_digit [of "CHR ''/''" i] by auto
  then show "plain_name (''node-'' @ show_nat i)" by (simp add: plain_name_def)
qed (simp_all add: plain_name_def)

lemma devnet_places:
  "components (node_dir root i) = (fst (components root), snd (components root) @ [''node-'' @ show_nat i])"
  "components (path_join root ''genesis.json'') = (fst (components root), snd (components root) @ [''genesis.json''])"
  "components (path_join root ''validators.env'') = (fst (components root), snd (components root) @ [''validators.env''])"
  "path_join root ''genesis.json'' \<noteq> []" "path_join root ''validators.env'' \<noteq> []"
  by (simp_all add: node_dir_def components_join plain_devnet_names del: append.simps) (simp_all add: path_join_def)

definition node_places :: "string \<Rightarrow> place set" where
  "node_places dir = {components (path_join dir NODE_CONFIG_FILE), components (path_join dir GENESIS_FILE)}"

lemma node_places_apart:
  "i \<noteq> j \<Longrightarrow> node_places (node_dir root i) \<inter> node_places (node_dir root j) = {}"
  "components (path_join root ''genesis.json'') \<notin> node_places (node_dir root i)"
  "components (path_join root ''validators.env'') \<notin> node_places (node_dir root i)"
  by (auto simp: node_places_def file_places devnet_places show_nat_inj)

section \<open>What a call leaves alone\<close>

text \<open>\<open>keeps S d d'\<close>: outside \<open>S\<close> nothing that exists in \<open>d\<close> is different in \<open>d'\<close>.\<close>

definition keeps :: "place set \<Rightarrow> disk \<Rightarrow> disk \<Rightarrow> bool" where
  "keeps S d d' \<longleftrightarrow> dk_faults d' = dk_faults d \<and>
     (\<forall>k e. k \<notin> S \<longrightarrow> dk_entries d k = Some e \<longrightarrow> dk_entries d' k = Some e)"

lemma keeps_refl: "keeps S d d"
  by (simp add: keeps_def)

lemma keeps_trans: "keeps S d d' \<Longrightarrow> keeps T d' d'' \<Longrightarrow> keeps (S \<union> T) d d''"
  by (simp add: keeps_def)

lemma keeps_mono: "keeps S d d' \<Longrightarrow> S \<subseteq> T \<Longrightarrow> keeps T d d'"
  by (auto simp: keeps_def)

lemma keeps_dirs: "fs_create_dir_all p d = (r, d') \<Longrightarrow> keeps S d d'"
  by (auto simp: keeps_def dest: create_dir_all_facts)

lemma keeps_write: "fs_write p content d = (r, d') \<Longrightarrow> keeps {components p} d d'"
  by (auto simp: keeps_def dest: write_faults write_elsewhere)

lemma keeps_read:
  "keeps S d d' \<Longrightarrow> components p \<notin> S \<Longrightarrow> fs_read_to_string d p = Ok c \<Longrightarrow> fs_read_to_string d' p = Ok c"
proof -
  assume k: "keeps S d d'" "components p \<notin> S" and "fs_read_to_string d p = Ok c"
  then have r: "p \<noteq> []" "dk_entries d (components p) = Some (File c)" "dk_faults d CallRead (components p) = None"
    "utf8_ok (map of_char c)" "snd (components p) \<noteq> []" using read_Ok by auto
  have "dk_entries d' (components p) = Some (File c)" "dk_faults d' = dk_faults d"
    using k r(2) unfolding keeps_def by blast+
  then show ?thesis using r by (simp add: read_file)
qed

lemma keeps_load:
  "keeps S d d' \<Longrightarrow> S \<inter> node_places dir = {} \<Longrightarrow> config_load F d dir = Ok cfg \<Longrightarrow> config_load F d' dir = Ok cfg"
  by (auto simp: config_load_def node_places_def split: sum.splits dest: keeps_read)

lemma keeps_genesis:
  "keeps S d d' \<Longrightarrow> S \<inter> node_places dir = {} \<Longrightarrow> read_genesis F d (path_join dir GENESIS_FILE) = Ok g \<Longrightarrow>
    read_genesis F d' (path_join dir GENESIS_FILE) = Ok g"
  by (auto simp: read_genesis_def node_places_def split: sum.splits dest: keeps_read)

lemma keeps_readable: "keeps S d d' \<Longrightarrow> readable d \<Longrightarrow> readable d'"
  by (simp add: keeps_def readable_def)

lemma config_paths: "config_path (config_for dir chain_id) = path_join dir NODE_CONFIG_FILE"
  "nc_genesis_path (config_for dir chain_id) = path_join dir GENESIS_FILE" "nc_data_dir (config_for dir chain_id) = dir"
  by (simp_all add: config_path_def config_for_def)

lemma node_init_keeps:
  assumes "node_init F now dir chain_id d = (r, d')"
  shows "keeps (node_places dir) d d'"
proof -
  have save: "keeps {components (path_join dir NODE_CONFIG_FILE)} d1 d2"
    if "config_save F (config_for dir chain_id) d1 = (r1, d2)" for d1 r1 d2
    using that
    by (auto simp: config_save_def config_paths split: prod.splits sum.splits
        dest!: keeps_dirs [where S = "{}"] keeps_write intro: keeps_mono dest: keeps_trans)
  show ?thesis
    using assms
    by (auto simp: node_init_def Let_def config_paths node_places_def split: prod.splits sum.splits
        dest!: keeps_dirs [where S = "{}"] keeps_write save intro: keeps_mono dest: keeps_trans)
qed

section \<open>Every node of the devnet has the shared genesis\<close>

definition node_ready :: "('f) files_ext_scheme \<Rightarrow> disk \<Rightarrow> string \<Rightarrow> string \<Rightarrow> genesis_config \<Rightarrow> bool" where
  "node_ready F d dir chain_id g =
     (config_load F d dir = Ok (config_for dir chain_id) \<and> read_genesis F d (path_join dir GENESIS_FILE) = Ok g)"

lemma keeps_ready:
  "keeps S d d' \<Longrightarrow> S \<inter> node_places dir = {} \<Longrightarrow> node_ready F d dir chain_id g \<Longrightarrow> node_ready F d' dir chain_id g"
  by (auto simp: node_ready_def dest: keeps_load keeps_genesis)

lemma genesis_written:
  assumes "json_files_ok F" "readable d" "fx_genesis_to_json F g = Ok json"
    and "fs_write (path_join dir GENESIS_FILE) (json @ end_line) d = (Ok (), d')"
  shows "read_genesis F d' (path_join dir GENESIS_FILE) = Ok g"
proof -
  have "d' = put_file (components (path_join dir GENESIS_FILE)) (json @ end_line) d"
    using write_Ok [OF assms(4)] by blast
  then have "fs_read_to_string d' (path_join dir GENESIS_FILE) = Ok (json @ end_line)"
    using assms(1-3) by (intro put_read) (auto simp: readable_def file_places json_files_ok_def)
  then show ?thesis using assms(1,3) by (simp add: read_genesis_def json_files_ok_def)
qed

lemma node_made:
  assumes laws: "json_files_ok F" "readable d" "fx_genesis_to_json F g = Ok json"
    and init: "node_init F now dir chain_id d = (Ok cfg, d1)"
    and wrote: "fs_write (nc_genesis_path cfg) (json @ end_line) d1 = (Ok (), d2)"
  shows "node_ready F d2 dir chain_id g" "keeps (node_places dir) d d2"
proof -
  note files = init_files [OF laws(1,2) init]
  have w: "fs_write (path_join dir GENESIS_FILE) (json @ end_line) d1 = (Ok (), d2)"
    using wrote files(3) by (simp add: config_paths)
  have k: "keeps {components (path_join dir GENESIS_FILE)} d1 d2" by (rule keeps_write [OF w])
  have "components (path_join dir NODE_CONFIG_FILE) \<noteq> components (path_join dir GENESIS_FILE)"
    by (simp add: file_places) (simp add: NODE_CONFIG_FILE_def GENESIS_FILE_def)
  then have "config_load F d2 dir = Ok cfg"
    using files(1) keeps_read [OF k] by (auto simp: config_load_def split: sum.splits)
  then show "node_ready F d2 dir chain_id g"
    using genesis_written [OF laws(1) files(4) laws(3) w] files(3) by (simp add: node_ready_def)
  show "keeps (node_places dir) d d2"
    using keeps_trans [OF node_init_keeps [OF init] k] by (rule keeps_mono) (simp add: node_places_def)
qed

lemma make_nodes_Ok:
  assumes "json_files_ok F" "fx_genesis_to_json F g = Ok json"
  shows "make_nodes F W clock json root chain_id env_file nodes d = (Ok env', d') \<Longrightarrow> readable d \<Longrightarrow>
    distinct (map fst nodes) \<Longrightarrow>
    (\<forall>i \<in> fst ` set nodes. node_ready F d' (node_dir root i) chain_id g) \<and>
    keeps (\<Union>i \<in> fst ` set nodes. node_places (node_dir root i)) d d' \<and>
    env' = env_file @ concat (map (\<lambda>(i, secret). secret_line W i secret) nodes)"
proof (induction nodes arbitrary: env_file d)
  case Nil
  then show ?case by (simp add: keeps_refl)
next
  case (Cons node nodes)
  obtain i secret where node: "node = (i, secret)" by (rule prod.exhaust)
  obtain cfg d1 d2 where init: "node_init F (clock i) (node_dir root i) chain_id d = (Ok cfg, d1)"
    and wrote: "fs_write (nc_genesis_path cfg) (json @ end_line) d1 = (Ok (), d2)"
    and rest: "make_nodes F W clock json root chain_id (env_file @ secret_line W i secret) nodes d2 = (Ok env', d')"
    using Cons.prems(1) by (auto simp: node split: prod.splits sum.splits)
  note made = node_made [OF assms(1) Cons.prems(2) assms(2) init wrote]
  have IH: "\<forall>j \<in> fst ` set nodes. node_ready F d' (node_dir root j) chain_id g"
    "keeps (\<Union>j \<in> fst ` set nodes. node_places (node_dir root j)) d2 d'"
    "env' = (env_file @ secret_line W i secret) @ concat (map (\<lambda>(i, secret). secret_line W i secret) nodes)"
    using Cons.IH [OF rest keeps_readable [OF made(2) Cons.prems(2)]] Cons.prems(3) by auto
  have "(\<Union>j \<in> fst ` set nodes. node_places (node_dir root j)) \<inter> node_places (node_dir root i) = {}"
    using Cons.prems(3) node_places_apart(1) [of _ i root] by (fastforce simp: node)
  then have "node_ready F d' (node_dir root i) chain_id g" by (rule keeps_ready [OF IH(2) _ made(1)])
  moreover have "keeps (\<Union>j \<in> fst ` set (node # nodes). node_places (node_dir root j)) d d'"
    using keeps_trans [OF made(2) IH(2)] by (simp add: node)
  ultimately show ?case using IH by (simp add: node)
qed

text \<open>What the console turns the secrets of \<open>validators.env\<close> into.\<close>

definition hex_ok :: "('m, 'b) wallet_ext_scheme \<Rightarrow> bool" where
  "hex_ok W = (\<forall>bs \<in> set DEVNET_SECRETS. w_hex_decode W (w_hex_encode W bs) = Ok bs \<and> str_trim (w_hex_encode W bs) = w_hex_encode W bs)"

lemma secret_loads:
  "hex_ok W \<Longrightarrow> secret \<in> set DEVNET_SECRETS \<Longrightarrow> con_vars con name = Some (w_hex_encode W secret) \<Longrightarrow>
    load_validator_key W con (Some name) = Ok (Some (KeyPair secret))"
  by (auto simp: load_validator_key_def env_var_def ok_or_def hex_ok_def DEVNET_SECRETS_def)

lemma make_devnet_Ok:
  assumes laws: "json_files_ok F" "readable d" and run: "make_devnet X F W clock root chain_id d = (Ok out, d')"
  shows "\<forall>i \<in> {1..4}. node_ready F d' (node_dir root i) chain_id (devnet_genesis X chain_id)"
    and "read_genesis F d' (path_join root ''genesis.json'') = Ok (devnet_genesis X chain_id)"
    and "file_at d' (path_join root ''validators.env'') =
      Some (concat (map (\<lambda>(i, secret). secret_line W i secret) (enumerate 1 DEVNET_SECRETS)))"
proof -
  let ?nodes = "enumerate 1 DEVNET_SECRETS" and ?g = "devnet_genesis X chain_id"
  have nodes: "fst ` set ?nodes = {1..4}" "distinct (map fst ?nodes)"
    by (auto simp: DEVNET_SECRETS_def)
  obtain d1 d2 d3 json env_file where dirs: "fs_create_dir_all root d = (Ok (), d1)"
    and json: "fx_genesis_to_json F ?g = Ok json"
    and wrote: "fs_write (path_join root ''genesis.json'') (json @ end_line) d1 = (Ok (), d2)"
    and made: "make_nodes F W clock json root chain_id [] ?nodes d2 = (Ok env_file, d3)"
    and env: "fs_write (path_join root ''validators.env'') env_file d3 = (Ok (), d')"
    using run by (auto simp: make_devnet_def split: prod.splits sum.splits)
  have r2: "readable d2"
    using keeps_readable [OF keeps_write [OF wrote] keeps_readable [OF keeps_dirs [OF dirs] laws(2)]] .
  note m = make_nodes_Ok [OF laws(1) json made r2 nodes(2), unfolded nodes(1)]
  have g: "read_genesis F d2 (path_join root GENESIS_FILE) = Ok ?g"
    using genesis_written [OF laws(1) keeps_readable [OF keeps_dirs [OF dirs] laws(2)] json] wrote
    by (simp add: GENESIS_FILE_def)
  have k: "keeps {components (path_join root ''validators.env'')} d3 d'" by (rule keeps_write [OF env])
  show "\<forall>i \<in> {1..4}. node_ready F d' (node_dir root i) chain_id ?g"
    using m node_places_apart(3) by (auto intro!: keeps_ready [OF k])
  have "read_genesis F d' (path_join root ''genesis.json'') = Ok ?g"
    using g keeps_trans [OF conjunct1 [OF conjunct2 [OF m]] k] node_places_apart(2) [of root]
    by (auto simp: read_genesis_def GENESIS_FILE_def devnet_places split: sum.splits dest!: keeps_read)
  then show "read_genesis F d' (path_join root ''genesis.json'') = Ok ?g" .
  show "file_at d' (path_join root ''validators.env'') = Some (concat (map (\<lambda>(i, secret). secret_line W i secret) ?nodes))"
    using m write_Ok [OF env] by (simp add: file_at_def)
qed

lemma check_nodes_Ok: "(\<forall>i \<in> set is. config_load F d (node_dir root i) = Ok (cfgs i)) \<Longrightarrow> check_nodes F d root is = Ok ()"
  by (induction F d root "is" rule: check_nodes.induct) auto

lemma devnet_validator:
  "i < 4 \<Longrightarrow> val_public_key (devnet_validators X ! i) = kp_public_key X (KeyPair (DEVNET_SECRETS ! i))"
  "length (devnet_validators X) = 4" "i < 4 \<Longrightarrow> DEVNET_SECRETS ! i \<in> set DEVNET_SECRETS"
proof -
  have cases: "i = 0 \<or> i = 1 \<or> i = 2 \<or> i = 3" if "i < 4" using that by auto
  show "i < 4 \<Longrightarrow> val_public_key (devnet_validators X ! i) = kp_public_key X (KeyPair (DEVNET_SECRETS ! i))"
    using cases by (auto simp: devnet_validators_def DEVNET_SECRETS_def)
  show "i < 4 \<Longrightarrow> DEVNET_SECRETS ! i \<in> set DEVNET_SECRETS"
    using cases by (auto simp: DEVNET_SECRETS_def)
qed (simp add: devnet_validators_def DEVNET_SECRETS_def)

lemma devnet_proposer:
  assumes "hex_ok W"
  shows "\<exists>i v. i < 4 \<and> proposer_for_height (devnet_validators X) height 0 = Some v \<and>
    (\<forall>con name. con_vars con name = Some (w_hex_encode W (DEVNET_SECRETS ! i)) \<longrightarrow>
      (\<exists>key. load_validator_key W con (Some name) = Ok (Some key) \<and> kp_public_key X key = val_public_key v))"
proof -
  let ?i = "unat height mod 4"
  have i: "?i < 4" by simp
  have "proposer_for_height (devnet_validators X) height 0 = Some (devnet_validators X ! ?i)"
    using devnet_validator(2) [of X] i by (auto simp: proposer_for_height_def Let_def)
  then show ?thesis
    using i devnet_validator(1) [OF i, of X] secret_loads [OF assms devnet_validator(3) [OF i]] by fastforce
qed

lemma made_devnet_reused:
  assumes ready: "\<forall>i \<in> {1..4}. node_ready F d (node_dir root i) chain_id g"
    and g: "read_genesis F d (path_join root ''genesis.json'') = Ok g" "gen_chain_id g = chain_id"
    and env: "file_at d (path_join root ''validators.env'') = Some contents"
  shows "path_exists d (path_join root ''genesis.json'')" "\<exists>out. reuse_devnet F root chain_id d = Ok out"
proof -
  obtain json where json: "fs_read_to_string d (path_join root ''genesis.json'') = Ok json" "fx_genesis_from_json F json = Ok g"
    using g(1) by (auto simp: read_genesis_def split: sum.splits)
  show "path_exists d (path_join root ''genesis.json'')"
    using read_Ok [OF json(1)] by (simp add: path_exists_def)
  have "check_nodes F d root [1..<5] = Ok ()"
    using ready by (intro check_nodes_Ok [where cfgs = "\<lambda>i. config_for (node_dir root i) chain_id"]) (auto simp: node_ready_def)
  moreover have "path_is_file d (path_join root ''validators.env'')"
    using env by (auto simp: file_at_def path_is_file_def devnet_places split: option.splits entry.splits)
  ultimately show "\<exists>out. reuse_devnet F root chain_id d = Ok out"
    using g(2) by (simp add: reuse_devnet_def json)
qed

text \<open>
  C35. A devnet that \<open>devnet init\<close> has made: each of the four nodes loads its configuration and the one shared
  genesis; at every height the scheduled proposer is a validator whose secret stands in
  \<open>validators.env\<close>, and the node that is started with that secret holds the proposer's key; and running
  the command again succeeds and changes nothing.
\<close>

theorem devnet_nodes_ready:
  assumes laws: "json_files_ok F" "readable d" "hex_ok W"
    and fresh: "\<not> path_exists d (path_join root ''genesis.json'')"
    and run: "init_devnet X F W clock root chain_id d = (Ok out, d')"
  shows "(\<forall>i \<in> {1..4}. config_load F d' (node_dir root i) = Ok (config_for (node_dir root i) chain_id) \<and>
      read_genesis F d' (path_join (node_dir root i) GENESIS_FILE) = Ok (devnet_genesis X chain_id)) \<and>
    file_at d' (path_join root ''validators.env'') =
      Some (concat (map (\<lambda>(i, secret). secret_line W i secret) (enumerate 1 DEVNET_SECRETS))) \<and>
    (\<forall>height. \<exists>i v. i < 4 \<and> proposer_for_height (gen_validators (devnet_genesis X chain_id)) height 0 = Some v \<and>
      (\<forall>con name. con_vars con name = Some (w_hex_encode W (DEVNET_SECRETS ! i)) \<longrightarrow>
        (\<exists>key. load_validator_key W con (Some name) = Ok (Some key) \<and> kp_public_key X key = val_public_key v))) \<and>
    (\<exists>out2. init_devnet X F W clock2 root chain_id d' = (Ok out2, d'))"
proof -
  have made: "make_devnet X F W clock root chain_id d = (Ok out, d')"
    using run fresh by (simp add: init_devnet_def)
  note m = make_devnet_Ok [OF laws(1,2) made]
  have chain: "gen_chain_id (devnet_genesis X chain_id) = chain_id" "gen_validators (devnet_genesis X chain_id) = devnet_validators X"
    by (simp_all add: devnet_genesis_def)
  have "\<exists>out2. init_devnet X F W clock2 root chain_id d' = (Ok out2, d')"
    using made_devnet_reused [OF m(1,2) chain(1) m(3)] by (simp add: init_devnet_def)
  then show ?thesis
    using m devnet_proposer [OF laws(3), of X] by (simp add: node_ready_def chain)
qed

text \<open>
  A devnet whose creation stopped after the shared genesis was written is never completed: as long as
  the first node has no readable configuration, every further run reports an error and writes nothing.
\<close>

theorem interrupted_devnet_stays:
  "path_exists d (path_join root ''genesis.json'') \<Longrightarrow> config_load F d (node_dir root 1) = Err e \<Longrightarrow>
    \<exists>e'. init_devnet X F W clock root chain_id d = (Err e', d)"
  by (auto simp: init_devnet_def reuse_devnet_def upt_conv_Cons split: sum.splits)

section \<open>A concrete devnet\<close>

definition toy_devnet_files :: files_ext where
  "toy_devnet_files =
     \<lparr>fx_config_to_json = (\<lambda>c. case find (\<lambda>i. c = config_for (node_dir ''r'' i) CHAIN_ID) [1, 2, 3, 4] of
        None \<Rightarrow> Err ''unknown'' | Some i \<Rightarrow> Ok (replicate i CHR ''c'')),
      fx_config_from_json = (\<lambda>s. Ok (config_for (node_dir ''r'' (length s - 1)) CHAIN_ID)),
      fx_genesis_to_json = (\<lambda>g. if g = devnet_genesis toy_ext CHAIN_ID then Ok ''d''
        else if g = init_genesis CHAIN_ID 0 then Ok ''ii'' else Err ''unknown''),
      fx_genesis_from_json = (\<lambda>s. Ok (if length s = 2 then devnet_genesis toy_ext CHAIN_ID else init_genesis CHAIN_ID 0))\<rparr>"

definition toy_hex_ext :: "bytes wallet_ext" where
  "toy_hex_ext = toy_wallet_ext\<lparr>w_hex_decode := (\<lambda>s. case find (\<lambda>bs. hex_string bs = s) DEVNET_SECRETS of
     None \<Rightarrow> Err ''unknown'' | Some bs \<Rightarrow> Ok bs)\<rparr>"

lemma toy_devnet_files_ok: "json_files_ok toy_devnet_files"
proof -
  have "utf8_ok (map of_char (replicate i CHR ''c'' @ end_line))" for i
    by (rule utf8_ok_ascii) (auto simp: end_line_def)
  then show ?thesis
    by (auto simp: json_files_ok_def toy_devnet_files_def find_Some_iff end_line_def split: option.splits if_splits)
qed

lemma toy_hex_ok: "hex_ok toy_hex_ext"
  by code_simp

lemma toy_devnet_made:
  "is_ok (fst (init_devnet toy_ext toy_devnet_files toy_hex_ext (\<lambda>_. 0) ''r'' CHAIN_ID empty_disk))"
  by code_simp

theorem devnet_nodes_ready_witness:
  "\<exists>d' out. init_devnet toy_ext toy_devnet_files toy_hex_ext (\<lambda>_. 0) ''r'' CHAIN_ID d' = (Ok out, d') \<and>
    read_genesis toy_devnet_files d' (path_join (node_dir ''r'' 3) GENESIS_FILE) = Ok (devnet_genesis toy_ext CHAIN_ID)"
proof -
  obtain out d' where run: "init_devnet toy_ext toy_devnet_files toy_hex_ext (\<lambda>_. 0) ''r'' CHAIN_ID empty_disk = (Ok out, d')"
    using toy_devnet_made by (metis is_ok_ex prod.collapse)
  have fresh: "\<not> path_exists empty_disk (path_join ''r'' ''genesis.json'')" by code_simp
  from devnet_nodes_ready [OF toy_devnet_files_ok toy_wallet_laws(5) toy_hex_ok fresh run, of "\<lambda>_. 0"]
  have all: "\<forall>i \<in> {1..4}. read_genesis toy_devnet_files d' (path_join (node_dir ''r'' i) GENESIS_FILE) =
      Ok (devnet_genesis toy_ext CHAIN_ID)" and again: "\<exists>out2. init_devnet toy_ext toy_devnet_files toy_hex_ext (\<lambda>_. 0) ''r'' CHAIN_ID d' = (Ok out2, d')"
    by blast+
  have "read_genesis toy_devnet_files d' (path_join (node_dir ''r'' 3) GENESIS_FILE) = Ok (devnet_genesis toy_ext CHAIN_ID)"
    by (rule bspec [OF all]) simp
  with again show ?thesis by blast
qed

theorem interrupted_devnet_stays_witness:
  "\<exists>e. init_devnet toy_ext toy_devnet_files toy_hex_ext (\<lambda>_. 0) ''r'' CHAIN_ID
    (put_file (False, [''r'', ''genesis.json'']) ''d'' empty_disk) = (Err e, put_file (False, [''r'', ''genesis.json'']) ''d'' empty_disk)"
proof -
  let ?d = "put_file (False, [''r'', ''genesis.json'']) ''d'' empty_disk"
  have there: "path_exists ?d (path_join ''r'' ''genesis.json'')" by code_simp
  have "\<not> is_ok (config_load toy_devnet_files ?d (node_dir ''r'' 1))" by code_simp
  then obtain e where "config_load toy_devnet_files ?d (node_dir ''r'' 1) = Err e" by (auto simp: is_ok_def split: sum.splits)
  from interrupted_devnet_stays [OF there this] show ?thesis .
qed

end
