(* ===== verification/Node_Loop.thy ===== *)
theory Node_Loop
  imports Node_Consistency
begin

text \<open>
  \<open>Node::run_with_proposer\<close> of \<open>crates/wsc-node/src/lib.rs\<close>, the loop behind \<open>node run\<close>: it produces a
  block per turn and ends with the first error. \<open>clock k\<close> is the time of turn \<open>k\<close>. A run that never
  ends is \<open>None\<close>.
\<close>

section \<open>The loop\<close>

partial_function (option) run_loop ::
    "('db, 'a) storage_ext_scheme \<Rightarrow> (nat \<Rightarrow> u64) \<Rightarrow> key_pair option \<Rightarrow> nat \<Rightarrow> 'db node \<Rightarrow> (node_error \<times> 'db node) option" where
  "run_loop X clock proposer k n =
     (case produce_block X (clock k) n proposer of
        (Inl e, n') \<Rightarrow> Some (e, n')
      | (Inr b, n') \<Rightarrow> run_loop X clock proposer (Suc k) n')"

definition run_with_proposer ::
    "('db, 'a) storage_ext_scheme \<Rightarrow> (nat \<Rightarrow> u64) \<Rightarrow> bool \<Rightarrow> key_pair option \<Rightarrow> 'db node \<Rightarrow>
     ((node_error + unit) \<times> 'db node) option" where
  "run_with_proposer X clock once proposer n =
     (if once
      then (case produce_block X (clock 0) n proposer of (Inl e, n') \<Rightarrow> Some (Err e, n') | (Inr b, n') \<Rightarrow> Some (Ok (), n'))
      else map_option (\<lambda>(e, n'). (Err e, n')) (run_loop X clock proposer 0 n))"

definition node_loop ::
    "('db, 'a) storage_ext_scheme \<Rightarrow> (nat \<Rightarrow> u64) \<Rightarrow> bool \<Rightarrow> 'db node \<Rightarrow> ((node_error + unit) \<times> 'db node) option" where
  "node_loop X clock once n = run_with_proposer X clock once None n"

section \<open>When it ends\<close>

lemma commit_block_tip:
  "commit_block X now n s ops proposer = (Err e, n') \<Longrightarrow> nd_latest_block n' = nd_latest_block n"
  "commit_block X now n s ops proposer = (Ok b, n') \<Longrightarrow> node_height n' = node_height n + 1"
proof -
  show "commit_block X now n s ops proposer = (Err e, n') \<Longrightarrow> nd_latest_block n' = nd_latest_block n"
    by (auto simp: commit_block_def Let_def split: sum.splits prod.splits)
  show "commit_block X now n s ops proposer = (Ok b, n') \<Longrightarrow> node_height n' = node_height n + 1"
    by (erule commit_block_Ok) (simp add: node_height_def make_header_Ok(3))
qed

lemma drained_tip [simp]: "nd_latest_block (drained n) = nd_latest_block n" "node_height (drained n) = node_height n"
  by (simp_all add: drained_def node_height_def)

lemma produce_block_tip:
  "produce_block X now n proposer = (Err e, n') \<Longrightarrow> node_height n' = node_height n"
  "produce_block X now n proposer = (Ok b, n') \<Longrightarrow> node_height n' = node_height n + 1"
proof -
  show "produce_block X now n proposer = (Err e, n') \<Longrightarrow> node_height n' = node_height n"
    by (auto simp: produce_block_def node_height_def dest!: commit_block_tip(1) split: if_splits sum.splits)
  show "produce_block X now n proposer = (Ok b, n') \<Longrightarrow> node_height n' = node_height n + 1"
    by (erule produce_block_Ok) (drule commit_block_tip(2), simp)
qed

lemma produce_block_genesis: "produce_block X now n proposer = (r, n') \<Longrightarrow> nd_genesis n' = nd_genesis n"
  using node_run_frame [of X enc n "Produce now proposer"] by (simp add: node_run_def)

lemma scheduled_proposer:
  assumes "j < length vs" and "(unat h + 1) mod length vs = j" and "unat h + 1 < 2 ^ 64"
  shows "proposer_for_height vs (saturating_add h 1) 0 = Some (vs ! j)"
proof -
  have "unat (saturating_add h 1) = unat h + 1" using assms(3) by (simp add: unat_saturating_add)
  moreover have "vs \<noteq> []" using assms(1) by auto
  ultimately show ?thesis using assms(1,2) by (simp add: proposer_for_height_def)
qed

lemma run_loop_ends:
  assumes "j < length (gen_validators (nd_genesis n))"
    and "val_public_key (gen_validators (nd_genesis n) ! j) \<noteq> kp_public_key X key"
    and "(unat (node_height n) + 1 + d) mod length (gen_validators (nd_genesis n)) = j"
    and "unat (node_height n) + 1 + d < 2 ^ 64"
  shows "\<exists>e n'. run_loop X clock (Some key) k n = Some (e, n') \<and> unat (node_height n') \<le> unat (node_height n) + d"
  using assms
proof (induction d arbitrary: k n)
  case 0
  then have "proposer_for_height (gen_validators (nd_genesis n)) (saturating_add (node_height n) 1) 0 =
      Some (gen_validators (nd_genesis n) ! j)"
    by (intro scheduled_proposer) auto
  moreover have "gen_validators (nd_genesis n) \<noteq> []" using 0(1) by auto
  ultimately have "produce_block X (clock k) n (Some key) = (Err NotProposer, n)"
    using 0(2) by (simp add: produce_block_def is_expected_proposer_def)
  then show ?case by (subst run_loop.simps) simp
next
  case (Suc d)
  obtain r n1 where run: "produce_block X (clock k) n (Some key) = (r, n1)" by fastforce
  note genesis = produce_block_genesis [OF run]
  show ?case
  proof (cases r)
    case (Inl e)
    then show ?thesis using run produce_block_tip(1) [OF run [unfolded Inl]] by (subst run_loop.simps) simp
  next
    case (Inr b)
    have height: "unat (node_height n1) = unat (node_height n) + 1"
      using produce_block_tip(2) [OF run [unfolded Inr]] Suc.prems(4) by (simp add: unat_word_ariths)
    have "\<exists>e n'. run_loop X clock (Some key) (Suc k) n1 = Some (e, n') \<and> unat (node_height n') \<le> unat (node_height n1) + d"
      using Suc.prems height by (intro Suc.IH) (simp_all add: genesis)
    then show ?thesis using run Inr height by (subst run_loop.simps) auto
  qed
qed

lemma residue_ahead:
  assumes "j < (len :: nat)"
  shows "\<exists>d < len. (a + d) mod len = j"
proof (intro exI conjI)
  let ?d = "(j + (len - a mod len)) mod len"
  show "?d < len" using assms by simp
  have "(a + ?d) mod len = (a mod len + (j + (len - a mod len))) mod len" by (simp add: mod_simps)
  also have "a mod len + (j + (len - a mod len)) = j + len"
    using mod_less_divisor [of len a] assms by linarith
  finally show "(a + ?d) mod len = j" using assms by simp
qed

text \<open>
  C32. \<open>node run\<close> does not survive other validators. With a proposer key, when the genesis has a validator with
  another key, the loop always ends: with an error, and after fewer blocks than there are validators
  (the node does not wait for its turn, the first height of another validator is an error).
\<close>

theorem validator_loop_ends:
  assumes "v \<in> set (gen_validators (nd_genesis n))" and "val_public_key v \<noteq> kp_public_key X key"
    and "unat (node_height n) + length (gen_validators (nd_genesis n)) < 2 ^ 64"
  shows "\<exists>e n'. run_with_proposer X clock False (Some key) n = Some (Err e, n') \<and>
    unat (node_height n') < unat (node_height n) + length (gen_validators (nd_genesis n))"
proof -
  let ?vs = "gen_validators (nd_genesis n)"
  obtain j where j: "j < length ?vs" "?vs ! j = v" using assms(1) by (auto simp: in_set_conv_nth)
  obtain d where d: "d < length ?vs" "(unat (node_height n) + 1 + d) mod length ?vs = j"
    using residue_ahead [OF j(1)] by blast
  have "\<exists>e n'. run_loop X clock (Some key) 0 n = Some (e, n') \<and> unat (node_height n') \<le> unat (node_height n) + d"
    using j assms(2,3) d by (intro run_loop_ends) simp_all
  then show ?thesis using d(1) by (auto simp: run_with_proposer_def)
qed

definition toy_foreign_node :: "toy_db node" where
  "toy_foreign_node = (toy_node toy_state toy_empty_db)\<lparr>nd_genesis := toy_genesis\<lparr>gen_validators :=
     [\<lparr>val_name = ''other'', val_public_key = PublicKey [1]\<rparr>]\<rparr>\<rparr>"

theorem validator_loop_ends_witness:
  "\<exists>e n'. run_with_proposer (toy_net toy_state toy_state 1) (\<lambda>k. of_nat k) False (Some devnet_faucet) toy_foreign_node = Some (Err e, n')"
proof -
  have "replicate 32 (240 :: byte) \<noteq> [1]" by (auto dest: arg_cong [of _ _ length])
  then have "kp_public_key (toy_net toy_state toy_state 1) devnet_faucet \<noteq> PublicKey [1]"
    by (simp add: kp_public_key_def toy_net_defs devnet_faucet_def DEVNET_FAUCET_SECRET_def)
  moreover have "unat (node_height toy_foreign_node) + length (gen_validators (nd_genesis toy_foreign_node)) < 2 ^ 64"
    by (simp add: toy_foreign_node_def toy_node_def node_height_def toy_net_block_def block_with_def)
  ultimately show ?thesis
    using validator_loop_ends [of "\<lparr>val_name = ''other'', val_public_key = PublicKey [1]\<rparr>" toy_foreign_node
        "toy_net toy_state toy_state 1" devnet_faucet]
    by (fastforce simp: toy_foreign_node_def)
qed

end
