(* ===== verification/Command_Line.thy ===== *)
theory Command_Line
  imports Devnet Node_Loop Network
begin

text \<open>
  \<open>run\<close> of \<open>crates/wsc-cli/src/main.rs\<close>: what each command does to the disk, to the databases of the nodes
  and to the output. clap's parsing of the arguments is not modelled, a command is a value of
  \<open>cli_command\<close>. A command that goes on to serve connections ends here with what it starts
  (\<open>Serves\<close>): the server itself is modelled in the theories of the RPC server and of the network.
\<close>

section \<open>Commands and results\<close>

record node_start_args =
  nsa_data_dir :: string
  nsa_once :: bool
  nsa_rpc_bind :: string
  nsa_no_rpc :: bool
  nsa_p2p_bind :: "string option"
  nsa_peers :: "string list"
  nsa_node_id :: string
  nsa_validator_secret_env :: "string option"

datatype node_command =
    NodeInit string string
  | NodeStart node_start_args
  | NodeNetwork string string "string list" string
  | NodeStatus string
  | NodeFaucet string address amount

datatype wallet_command =
    WalletCreate wallet_path_args
  | WalletRestore restore_args
  | WalletAddress wallet_path_args
  | WalletSignMessage sign_message_args

datatype cli_command =
    CliVersion | CliNode node_command | CliWallet wallet_command | CliDevnetInit string string

text \<open>The disk and the database under each data directory.\<close>

record 'db world =
  wd_disk :: disk
  wd_database :: "string \<Rightarrow> 'db"

datatype 'db outcome =
    Finished "out_line list" "string + unit" "'db world"
  | LoopsForever
  | Serves "'db node" string "network_config option" "key_pair option" "'db world"
  | ServesNetwork "'db node" network_config "'db world"

text \<open>
  What a command uses of outside code: the crates of the node, the wallet and the files, the version
  that the compiler writes into the program, \<open>SocketAddr::from_str\<close>, the clock of each call.
\<close>

record 'm cli_ext =
  cl_wallet :: "'m wallet_ext"
  cl_files :: files_ext
  cl_version :: string
  cl_socket_addr :: "string \<Rightarrow> string + string"
  cl_clock :: "nat \<Rightarrow> u64"

section \<open>Opening the node of a data directory\<close>

definition open_at ::
    "('db, 'a) storage_ext_scheme \<Rightarrow> 'm cli_ext \<Rightarrow> string \<Rightarrow> 'db world \<Rightarrow> (string + 'db node) \<times> 'db world" where
  "open_at X C data_dir w =
     (case config_load (cl_files C) (wd_disk w) data_dir of
        Inl e \<Rightarrow> (Err (node_error_string e), w)
      | Inr cfg \<Rightarrow>
          (case node_open_files (cl_files C) X cfg (wd_disk w) (wd_database w (nc_data_dir cfg)) of
             (r, db) \<Rightarrow> (map_err node_error_string r,
               w\<lparr>wd_database := (wd_database w)(nc_data_dir cfg := db)\<rparr>)))"

definition keep_node :: "'db node \<Rightarrow> 'db world \<Rightarrow> 'db world" where
  "keep_node n w = w\<lparr>wd_database := (wd_database w)(nc_data_dir (nd_config n) := nd_store n)\<rparr>"

section \<open>The commands of the node\<close>

definition node_init_command :: "'m cli_ext \<Rightarrow> string \<Rightarrow> string \<Rightarrow> 'db world \<Rightarrow> 'db outcome" where
  "node_init_command C data_dir chain_id w =
     (case node_init (cl_files C) (cl_clock C 0) data_dir chain_id (wd_disk w) of
        (Inl e, d) \<Rightarrow> Finished [] (Err (node_error_string e)) (w\<lparr>wd_disk := d\<rparr>)
      | (Inr cfg, d) \<Rightarrow>
          Finished [TextLine (''Node initialized at '' @ nc_data_dir cfg), TextLine (''Genesis: '' @ nc_genesis_path cfg)]
            (Ok ()) (w\<lparr>wd_disk := d\<rparr>))"

definition network_of :: "'db node \<Rightarrow> node_start_args \<Rightarrow> string \<Rightarrow> network_config" where
  "network_of n args p2p_bind =
     \<lparr>ncf_chain_id = nc_chain_id (nd_config n), ncf_listen_addr = p2p_bind, ncf_peers = nsa_peers args,
      ncf_node_id = nsa_node_id args\<rparr>"

definition node_start ::
    "('db, 'a) storage_ext_scheme \<Rightarrow> 'm cli_ext \<Rightarrow> console \<Rightarrow> node_start_args \<Rightarrow> 'db world \<Rightarrow> 'db outcome" where
  "node_start X C con args w =
     (case open_at X C (nsa_data_dir args) w of
        (Inl e, w1) \<Rightarrow> Finished [] (Err e) w1
      | (Inr n, w1) \<Rightarrow>
          (case load_validator_key (cl_wallet C) con (nsa_validator_secret_env args) of
             Inl e \<Rightarrow> Finished [] (Err e) w1
           | Inr proposer \<Rightarrow>
               if nsa_once args \<or> nsa_no_rpc args
               then (case run_with_proposer X (cl_clock C) (nsa_once args) proposer n of
                       None \<Rightarrow> LoopsForever
                     | Some (r, n') \<Rightarrow> Finished [] (map_err node_error_string r) (keep_node n' w1))
               else (case cl_socket_addr C (nsa_rpc_bind args) of
                       Inl e \<Rightarrow> Finished [] (Err e) w1
                     | Inr bind \<Rightarrow> Serves n bind (map_option (network_of n args) (nsa_p2p_bind args)) proposer w1)))"

definition node_network ::
    "('db, 'a) storage_ext_scheme \<Rightarrow> 'm cli_ext \<Rightarrow> string \<Rightarrow> string \<Rightarrow> string list \<Rightarrow> string \<Rightarrow> 'db world \<Rightarrow> 'db outcome" where
  "node_network X C data_dir listen peers node_id w =
     (case open_at X C data_dir w of
        (Inl e, w1) \<Rightarrow> Finished [] (Err e) w1
      | (Inr n, w1) \<Rightarrow>
          ServesNetwork n \<lparr>ncf_chain_id = nc_chain_id (nd_config n), ncf_listen_addr = listen, ncf_peers = peers,
            ncf_node_id = node_id\<rparr> w1)"

text \<open>The lines that \<open>status\<close> has printed when a value cannot be read are printed.\<close>

definition node_status ::
    "('db, 'a) storage_ext_scheme \<Rightarrow> 'm cli_ext \<Rightarrow> string \<Rightarrow> 'db world \<Rightarrow> 'db outcome" where
  "node_status X C data_dir w =
     (case open_at X C data_dir w of
        (Inl e, w1) \<Rightarrow> Finished [] (Err e) w1
      | (Inr n, w1) \<Rightarrow>
          (let out = [TextLine (''chain_id='' @ gen_chain_id (nd_genesis n)),
                      TextLine (''height='' @ show_nat (unat (node_height n)))] in
           case block_id_for X (nd_latest_block n) of Inl e \<Rightarrow> Finished out (Err (node_error_string e)) w1 | Inr h \<Rightarrow>
           (let out = out @ [TextLine (''block_hash='' @ hash_to_string h)] in
            case finalized_height X (nd_store n) of
              Inl e \<Rightarrow> Finished out (Err (node_error_string (NStorage e))) w1 | Inr fh \<Rightarrow>
            (let out = out @ [TextLine (''finalized_height='' @ show_nat (unat fh))] in
             case finalized_hash X (nd_store n) of
               Inl e \<Rightarrow> Finished out (Err (node_error_string (NStorage e))) w1
             | Inr f \<Rightarrow> Finished (out @ [TextLine (''finalized_hash='' @ hash_to_string f),
                 TextLine (''mempool='' @ show_nat (length (mp_transactions (nd_mempool n))))]) (Ok ()) w1))))"

definition node_faucet_command ::
    "('db, 'a) storage_ext_scheme \<Rightarrow> 'm cli_ext \<Rightarrow> string \<Rightarrow> address \<Rightarrow> amount \<Rightarrow> 'db world \<Rightarrow> 'db outcome" where
  "node_faucet_command X C data_dir a amt w =
     (case open_at X C data_dir w of
        (Inl e, w1) \<Rightarrow> Finished [] (Err e) w1
      | (Inr n, w1) \<Rightarrow>
          (case node_faucet X (cl_clock C 0) n a amt of
             (Inl e, n') \<Rightarrow> Finished [] (Err (node_error_string e)) (keep_node n' w1)
           | (Inr b, n') \<Rightarrow>
               Finished [TextLine (''faucet_block_height='' @ show_nat (unat (bh_height (blk_header b)))),
                   TextLine (''address='' @ to_bech32m (x_bech32m_encode X) a),
                   TextLine (''amount_microMNA='' @ show_nat (unat amt))] (Ok ()) (keep_node n' w1)))"

definition run_node ::
    "('db, 'a) storage_ext_scheme \<Rightarrow> 'm cli_ext \<Rightarrow> console \<Rightarrow> node_command \<Rightarrow> 'db world \<Rightarrow> 'db outcome" where
  "run_node X C con command w =
     (case command of
        NodeInit data_dir chain_id \<Rightarrow> node_init_command C data_dir chain_id w
      | NodeStart args \<Rightarrow> node_start X C con args w
      | NodeNetwork data_dir listen peers node_id \<Rightarrow> node_network X C data_dir listen peers node_id w
      | NodeStatus data_dir \<Rightarrow> node_status X C data_dir w
      | NodeFaucet data_dir a amt \<Rightarrow> node_faucet_command X C data_dir a amt w)"

section \<open>All commands\<close>

definition finished :: "(string + out_line list) \<times> disk \<Rightarrow> 'db world \<Rightarrow> 'db outcome" where
  "finished result w =
     (case result of
        (Inl e, d) \<Rightarrow> Finished [] (Err e) (w\<lparr>wd_disk := d\<rparr>)
      | (Inr out, d) \<Rightarrow> Finished out (Ok ()) (w\<lparr>wd_disk := d\<rparr>))"

definition run_wallet ::
    "('a) crypto_ext_scheme \<Rightarrow> 'm cli_ext \<Rightarrow> console \<Rightarrow> wallet_command \<Rightarrow> 'db world \<Rightarrow> 'db outcome" where
  "run_wallet X C con command w =
     (case command of
        WalletCreate args \<Rightarrow> finished (create_wallet X (cl_wallet C) con args (wd_disk w)) w
      | WalletRestore args \<Rightarrow> finished (restore_wallet X (cl_wallet C) con args (wd_disk w)) w
      | WalletAddress args \<Rightarrow> finished (show_wallet_address X (cl_wallet C) con args (wd_disk w), wd_disk w) w
      | WalletSignMessage args \<Rightarrow> finished (sign_message X (cl_wallet C) con args (wd_disk w), wd_disk w) w)"

definition run_command ::
    "('db, 'a) storage_ext_scheme \<Rightarrow> 'm cli_ext \<Rightarrow> console \<Rightarrow> cli_command \<Rightarrow> 'db world \<Rightarrow> 'db outcome" where
  "run_command X C con command w =
     (case command of
        CliVersion \<Rightarrow>
          Finished [TextLine (''wsc '' @ cl_version C @ '' | '' @ NATIVE_ASSET_NAME @ '' ('' @ NATIVE_ASSET_SYMBOL @ '')'')]
            (Ok ()) w
      | CliNode node \<Rightarrow> run_node X C con node w
      | CliDevnetInit root chain_id \<Rightarrow>
          finished (init_devnet X (cl_files C) (cl_wallet C) (cl_clock C) root chain_id (wd_disk w)) w
      | CliWallet wallet \<Rightarrow> run_wallet X C con wallet w)"

section \<open>What the commands leave alone\<close>

text \<open>
  A wallet command ends; it changes no file or directory that exists, whether it succeeds or fails, and
  no database of a node.
\<close>

theorem wallet_commands_keep_everything:
  "\<exists>out r w'. run_command X C con (CliWallet command) w = Finished out r w' \<and> wd_database w' = wd_database w \<and>
    (\<forall>k e. dk_entries (wd_disk w) k = Some e \<longrightarrow> dk_entries (wd_disk w') k = Some e)"
proof -
  have "\<exists>out r w'. finished (r', d) w = Finished out r w' \<and> wd_database w' = wd_database w \<and> wd_disk w' = d" for r' d
    by (cases r') (auto simp: finished_def)
  then have ends: "(\<And>k e. dk_entries (wd_disk w) k = Some e \<Longrightarrow> dk_entries (snd p) k = Some e) \<Longrightarrow>
      \<exists>out r w'. finished p w = Finished out r w' \<and> wd_database w' = wd_database w \<and>
        (\<forall>k e. dk_entries (wd_disk w) k = Some e \<longrightarrow> dk_entries (wd_disk w') k = Some e)" for p
    by (metis prod.collapse)
  show ?thesis
    by (cases command; simp only: run_command_def run_wallet_def cli_command.case wallet_command.case; rule ends)
      (simp_all add: wallet_commands_keep_files)
qed

section \<open>The status of a node\<close>

lemma open_at_reopened:
  assumes laws: "store_laws X" "digests_ok X" "valid_utf8 (gen_chain_id g)"
    and files: "config_load (cl_files C) (wd_disk w) data_dir = Ok cfg"
      "read_genesis (cl_files C) (wd_disk w) (nc_genesis_path cfg) = Ok g"
    and first: "node_open X cfg (Ok g) db = (Ok n0, db0)" and used: "node_reach X enc n0 n"
    and stored: "wd_database w (nc_data_dir cfg) = nd_store n"
  shows "open_at X C data_dir w = (Ok (restarted n), w)"
proof -
  have "node_open X cfg (Ok g) (nd_store n) = (Ok (restarted n), nd_store n)"
    by (rule reopened [OF laws first used])
  moreover have "(wd_database w)(nc_data_dir cfg := nd_store n) = wd_database w" using stored by auto
  ultimately show ?thesis using stored by (simp add: open_at_def files node_open_files_def)
qed

text \<open>
  \<open>node status\<close> on the directory of a node that ran before, whatever it did, prints its chain and the
  height it had reached, and changes neither the disk nor the database.
\<close>

theorem status_only_reads:
  assumes "store_laws X" "digests_ok X" "valid_utf8 (gen_chain_id g)"
    and "config_load (cl_files C) (wd_disk w) data_dir = Ok cfg"
      "read_genesis (cl_files C) (wd_disk w) (nc_genesis_path cfg) = Ok g"
    and "node_open X cfg (Ok g) db = (Ok n0, db0)" and "node_reach X enc n0 n"
    and "wd_database w (nc_data_dir cfg) = nd_store n"
  shows "\<exists>out r. run_command X C con (CliNode (NodeStatus data_dir)) w = Finished out r w \<and>
    take 2 out = [TextLine (''chain_id='' @ gen_chain_id (nd_genesis n)), TextLine (''height='' @ show_nat (unat (node_height n)))]"
proof -
  have "node_height (restarted n) = node_height n" "nd_genesis (restarted n) = nd_genesis n"
    by (simp_all add: restarted_def node_height_def)
  then show ?thesis
    by (simp add: run_command_def run_node_def node_status_def open_at_reopened [OF assms] Let_def split: sum.splits)
qed

section \<open>A concrete console\<close>

definition toy_cli :: "bytes cli_ext" where
  "toy_cli = \<lparr>cl_wallet = toy_wallet_ext,
     cl_files = toy_files\<lparr>fx_genesis_from_json := (\<lambda>_. Ok (init_genesis CHAIN_ID 0))\<rparr>,
     cl_version = ''0.1.0'', cl_socket_addr = (\<lambda>s. Ok s), cl_clock = (\<lambda>_. 0)\<rparr>"

definition toy_world :: "toy_db \<Rightarrow> toy_db world" where
  "toy_world db = \<lparr>wd_disk = put_file (False, [''n'', NODE_CONFIG_FILE]) ''c''
     (put_file (False, [''n'', GENESIS_FILE]) ''g'' empty_disk), wd_database = (\<lambda>_. db)\<rparr>"

theorem wallet_commands_keep_everything_witness:
  "\<exists>out r w'. run_command toy_init_net toy_cli toy_console (CliWallet (WalletCreate toy_path_args)) (toy_world toy_empty_db) =
      Finished out r w' \<and> dk_entries (wd_disk w') (False, [''n'', GENESIS_FILE]) = Some (File ''g'')"
proof -
  have "dk_entries (wd_disk (toy_world toy_empty_db)) (False, [''n'', GENESIS_FILE]) = Some (File ''g'')"
    by (simp add: toy_world_def NODE_CONFIG_FILE_def GENESIS_FILE_def)
  with wallet_commands_keep_everything [of toy_init_net toy_cli toy_console "WalletCreate toy_path_args" "toy_world toy_empty_db"]
  show ?thesis by blast
qed

theorem status_only_reads_witness:
  "\<exists>w out r h. run_command toy_init_net toy_cli toy_console (CliNode (NodeStatus ''n'')) w = Finished out r w \<and>
    take 2 out = [TextLine (''chain_id='' @ CHAIN_ID), TextLine (''height='' @ show_nat h)]"
proof -
  obtain n db where opened: "node_open toy_init_net (config_for ''n'' CHAIN_ID) (Ok (init_genesis CHAIN_ID 0)) toy_empty_db = (Ok n, db)"
    using toy_init_open by blast
  let ?w = "toy_world (nd_store n)"
  have utf8: "valid_utf8 (gen_chain_id (init_genesis CHAIN_ID 0))" by (simp add: valid_utf8_def init_genesis_def CHAIN_ID_def)
  have places: "components (path_join ''n'' NODE_CONFIG_FILE) = (False, [''n'', NODE_CONFIG_FILE])"
    "components (path_join ''n'' GENESIS_FILE) = (False, [''n'', GENESIS_FILE])"
    by code_simp+
  have entries: "dk_entries (wd_disk ?w) (False, [''n'', NODE_CONFIG_FILE]) = Some (File ''c'')"
    "dk_entries (wd_disk ?w) (False, [''n'', GENESIS_FILE]) = Some (File ''g'')" "readable (wd_disk ?w)"
    by (simp_all add: toy_world_def NODE_CONFIG_FILE_def GENESIS_FILE_def readable_def empty_disk_def)
  have read: "fs_read_to_string (wd_disk ?w) (path_join ''n'' NODE_CONFIG_FILE) = Ok ''c''"
    "fs_read_to_string (wd_disk ?w) (path_join ''n'' GENESIS_FILE) = Ok ''g''"
    by (auto intro!: readable_file simp: places file_places(3,4) entries)
  have files: "config_load (cl_files toy_cli) (wd_disk ?w) ''n'' = Ok (config_for ''n'' CHAIN_ID)"
    "read_genesis (cl_files toy_cli) (wd_disk ?w) (nc_genesis_path (config_for ''n'' CHAIN_ID)) = Ok (init_genesis CHAIN_ID 0)"
    by (simp_all add: config_load_def read_genesis_def read config_paths toy_cli_def toy_files_def)
  have store: "wd_database ?w (nc_data_dir (config_for ''n'' CHAIN_ID)) = nd_store n" by (simp add: toy_world_def)
  have "nd_genesis n = init_genesis CHAIN_ID 0" using open_ok [OF toy_init_laws(1) opened] by metis
  then show ?thesis
    using status_only_reads [OF toy_init_laws utf8 files opened node_reach.start store, where con = toy_console]
    by (auto simp: init_genesis_def)
qed

end
