(* ===== verification/It_Tool.thy ===== *)
theory It_Tool
  imports Program_Frontend Files
begin

text \<open>
  \<open>crates/wsc-it/src/main.rs\<close>: the tool that builds, verifies and runs program packages as files. The
  assembler of \<open>compile_rust_source\<close> is the argument \<open>wat\<close>, the crates of the packages are those of
  \<open>program_ext\<close>. clap's parsing of the arguments is not modelled.
\<close>

section \<open>The commands\<close>

datatype it_command =
    ItBuild string string string string
  | ItVerify string
  | ItRun string u64

definition it_build_file ::
    "('a) program_ext_scheme \<Rightarrow> (string \<Rightarrow> string + bytes) \<Rightarrow> string \<Rightarrow> string \<Rightarrow> string \<Rightarrow> string \<Rightarrow> disk \<Rightarrow>
     (string + string) \<times> disk" where
  "it_build_file X wat language source_path out name d =
     (if to_ascii_lowercase language \<noteq> ''rust''
      then (Err ''only Rust is enabled in this release; Python and JavaScript frontends are planned'', d)
      else case fs_read_to_string d source_path of Inl e \<Rightarrow> (Err e, d) | Inr code \<Rightarrow>
      (case compile_rust_source X wat name code of Inl e \<Rightarrow> (Err (program_error_string e), d) | Inr p \<Rightarrow>
      (case package_encode X p of Inl e \<Rightarrow> (Err (program_error_string e), d) | Inr bs \<Rightarrow>
      (case fs_write out (bytes_str bs) d of
         (Inl e, d') \<Rightarrow> (Err e, d')
       | (Inr _, d') \<Rightarrow>
           (Ok (''program_id='' @ program_id p @ '' code_hash='' @ pkg_code_hash p @ '' output='' @ out), d')))))"

definition read_package :: "('a) program_ext_scheme \<Rightarrow> string \<Rightarrow> disk \<Rightarrow> string + program_package" where
  "read_package X p d =
     (case fs_read d p of
        Inl e \<Rightarrow> Err e
      | Inr contents \<Rightarrow> map_err program_error_string (package_decode X (str_bytes contents)))"

definition it_verify :: "('a) program_ext_scheme \<Rightarrow> string \<Rightarrow> disk \<Rightarrow> string + string" where
  "it_verify X package_path d =
     (case read_package X package_path d of
        Inl e \<Rightarrow> Err e
      | Inr p \<Rightarrow>
          Ok (''ok program_id='' @ program_id p @ '' language='' @ pm_language (pkg_manifest p) @ '' vm='' @
            pm_vm_version (pkg_manifest p) @ '' hash='' @ pkg_code_hash p))"

definition it_run :: "('a) program_ext_scheme \<Rightarrow> string \<Rightarrow> u64 \<Rightarrow> disk \<Rightarrow> string + string" where
  "it_run X package_path gas d =
     (case read_package X package_path d of
        Inl e \<Rightarrow> Err e
      | Inr p \<Rightarrow>
          (case package_execute X p gas of
             Inl e \<Rightarrow> Err (program_error_string e)
           | Inr (out, used) \<Rightarrow>
               Ok (''status=success return_data_hex='' @ x_hex_encode X out @ '' gas_used='' @ show_nat (unat used))))"

definition it_main ::
    "('a) program_ext_scheme \<Rightarrow> (string \<Rightarrow> string + bytes) \<Rightarrow> it_command \<Rightarrow> disk \<Rightarrow> (string + string) \<times> disk" where
  "it_main X wat command d =
     (case command of
        ItBuild language source_path out name \<Rightarrow> it_build_file X wat language source_path out name d
      | ItVerify package_path \<Rightarrow> (it_verify X package_path d, d)
      | ItRun package_path gas \<Rightarrow> (it_run X package_path gas d, d))"

section \<open>A package that was built\<close>

lemma build_Ok:
  assumes "it_build_file X wat language source_path out name d = (Ok line, d')"
  obtains code p bs where "fs_read_to_string d source_path = Ok code" "compile_rust_source X wat name code = Ok p"
    "package_encode X p = Ok bs" "out \<noteq> []" "\<not> is_dir d (components out)"
    "d' = put_file (components out) (bytes_str bs) d"
    "line = ''program_id='' @ program_id p @ '' code_hash='' @ pkg_code_hash p @ '' output='' @ out"
  using assms
  by (auto simp: it_build_file_def split: if_splits sum.splits prod.splits dest!: write_Ok)

lemma compiled_verified: "compile_rust_source X wat name code = Ok p \<Longrightarrow> package_verify X p = Ok ()"
  by (elim compiled_package) (simp add: from_wasm_verified)

lemma built_package_read:
  assumes "package_ext_ok X" "readable d" "compile_rust_source X wat name code = Ok p" "package_encode X p = Ok bs"
    and "out \<noteq> []" "\<not> is_dir d (components out)" "d' = put_file (components out) (bytes_str bs) d"
  shows "read_package X out d' = Ok p"
proof -
  have "snd (components out) \<noteq> []" using assms(6) by (simp add: is_dir_def)
  then have "fs_read d' out = Ok (bytes_str bs)"
    using assms(2,5,7) by (simp add: fs_read_def is_dir_def readable_def)
  moreover have "package_decode X bs = Ok p"
    by (rule decode_encode [OF assms(1) compiled_verified [OF assms(3)] assms(4)])
  ultimately show ?thesis by (simp add: read_package_def)
qed

text \<open>What the assembler and the engine are for: a program that returns a literal returns it.\<close>

definition literal_programs_run :: "('a) program_ext_scheme \<Rightarrow> (string \<Rightarrow> string + bytes) \<Rightarrow> bool" where
  "literal_programs_run X wat =
     (\<forall>v wasm gas. - (2 ^ 31) \<le> v \<longrightarrow> v < 2 ^ 31 \<longrightarrow> wat (wat_source v) = Ok wasm \<longrightarrow> gas \<noteq> 0 \<longrightarrow>
        (\<exists>used. x_engine X wasm ''main'' gas = EngineReturned (word_of_int v) used))"

text \<open>
  The way of a program through the tool: building a source whose \<open>main\<close> returns the literal \<open>v\<close> writes a
  package that verifies under the identity that the build printed, and running it prints the four bytes
  of \<open>v\<close>.
\<close>

theorem built_literal_runs:
  assumes laws: "package_ext_ok X" "literal_programs_run X wat" "readable d"
    and v: "- (2 ^ 31) \<le> v" "v < 2 ^ 31" and gas: "gas \<noteq> 0"
    and code: "fs_read_to_string d source_path = Ok (main_source v)"
    and built: "it_main X wat (ItBuild language source_path out name) d = (Ok line, d')"
  shows "\<exists>p used. line = ''program_id='' @ program_id p @ '' code_hash='' @ pkg_code_hash p @ '' output='' @ out \<and>
    it_main X wat (ItVerify out) d' =
      (Ok (''ok program_id='' @ program_id p @ '' language=rust vm=1 hash='' @ pkg_code_hash p), d') \<and>
    it_main X wat (ItRun out gas) d' =
      (Ok (''status=success return_data_hex='' @ hex_string (to_le_bytes (word_of_int v :: u32)) @
        '' gas_used='' @ show_nat used), d')"
proof -
  obtain p bs where compiled: "compile_rust_source X wat name (main_source v) = Ok p"
    and encoded: "package_encode X p = Ok bs" and out: "out \<noteq> []" "\<not> is_dir d (components out)"
    and d': "d' = put_file (components out) (bytes_str bs) d"
    and line: "line = ''program_id='' @ program_id p @ '' code_hash='' @ pkg_code_hash p @ '' output='' @ out"
    using built code by (auto simp: it_main_def elim!: build_Ok)
  obtain wasm where wat: "wat (wat_source v) = Ok wasm" and p: "package_from_wasm X (frontend_manifest name) wasm = Ok p"
    using compiled v by (auto simp: literal_main_compiles split: sum.splits)
  have parts: "pkg_manifest p = frontend_manifest name" "pkg_wasm p = wasm" "package_verify X p = Ok ()"
    using from_wasm_verified [OF p] by auto
  obtain used where run: "x_engine X wasm ''main'' gas = EngineReturned (word_of_int v) used"
    using laws(2) v wat gas unfolding literal_programs_run_def by blast
  have read: "read_package X out d' = Ok p"
    by (rule built_package_read [OF laws(1,3) compiled encoded out d'])
  have "package_execute X p gas = Ok (to_le_bytes (word_of_int v :: u32), case used of None \<Rightarrow> 0 | Some u \<Rightarrow> u)"
    using gas parts run by (simp add: package_execute_def frontend_manifest_def)
  moreover have "x_hex_encode X bs = hex_string bs" for bs using laws(1) by (simp add: package_ext_ok_def)
  ultimately have "it_main X wat (ItRun out gas) d' = (Ok (''status=success return_data_hex='' @
      hex_string (to_le_bytes (word_of_int v :: u32)) @ '' gas_used='' @
      show_nat (unat (case used of None \<Rightarrow> 0 | Some u \<Rightarrow> u))), d')"
    by (simp add: it_main_def it_run_def read)
  moreover have "it_main X wat (ItVerify out) d' =
      (Ok (''ok program_id='' @ program_id p @ '' language=rust vm=1 hash='' @ pkg_code_hash p), d')"
    using parts by (simp add: it_main_def it_verify_def read frontend_manifest_def)
  ultimately show ?thesis using line by blast
qed

section \<open>A concrete program\<close>

definition toy_wat :: "string \<Rightarrow> string + bytes" where
  "toy_wat s = (if s = wat_source 7 then Ok [7] else Err ''unknown'')"

definition toy_source_disk :: disk where
  "toy_source_disk = \<lparr>dk_entries = [(False, [''s'']) \<mapsto> File (main_source 7)], dk_faults = (\<lambda>_ _. None)\<rparr>"

definition toy_it_ext :: program_ext where
  "toy_it_ext = toy_program_ext\<lparr>
     x_manifest_to_json := (\<lambda>m. if m = frontend_manifest ''n'' then Inr [9] else Inl ''unknown''),
     x_manifest_from_json := (\<lambda>_. Inr (frontend_manifest ''n''))\<rparr>"

lemma toy_it_ext_ok: "package_ext_ok toy_it_ext"
  using toy_program_ext_ok by (auto simp: package_ext_ok_def digests_ok_def toy_it_ext_def)

lemma toy_literal_runs: "literal_programs_run toy_it_ext toy_wat"
proof -
  have "v = 7" if "- (2 ^ 31) \<le> v" "v < 2 ^ 31" "wat_source v = wat_source 7" for v :: int
  proof -
    have "show_int v = show_int 7" using that(3) by (simp add: wat_source_def)
    then have "Some v = Some 7" using parse_show_i32_iff [of v] parse_show_i32_iff [of 7] that(1,2) by simp
    then show ?thesis by simp
  qed
  then have seven: "v = 7" if "- (2 ^ 31) \<le> v" "v < 2 ^ 31" "toy_wat (wat_source v) = Ok wasm" for v wasm
    using that by (auto simp: toy_wat_def split: if_splits)
  show ?thesis
    unfolding literal_programs_run_def
  proof (intro allI impI)
    fix v :: int and wasm gas
    assume v: "- (2 ^ 31) \<le> v" "v < 2 ^ 31" "toy_wat (wat_source v) = Ok wasm"
    have "x_engine toy_it_ext wasm ''main'' gas = EngineReturned 7 (Some (gas div 2))"
      by (simp add: toy_it_ext_def toy_program_ext_def crypto_ext.defs)
    then show "\<exists>used. x_engine toy_it_ext wasm ''main'' gas = EngineReturned (word_of_int v) used"
      using seven [OF v] by simp
  qed
qed

theorem built_literal_runs_witness:
  "\<exists>d' used. it_main toy_it_ext toy_wat (ItRun ''o'' 5) d' =
     (Ok (''status=success return_data_hex=07000000 gas_used='' @ show_nat used), d')"
proof -
  have places: "components ''s'' = (False, [''s''])" "components ''o'' = (False, [''o''])" by code_simp+
  have ascii: "utf8_ok (map of_char (main_source 7))" by code_simp
  have code: "fs_read_to_string toy_source_disk ''s'' = Ok (main_source 7)"
    using ascii by (intro read_file) (simp_all add: toy_source_disk_def places)
  obtain p where p: "compile_rust_source toy_it_ext toy_wat ''n'' (main_source 7) = Ok p"
    by (auto simp: literal_main_compiles toy_wat_def package_from_wasm_def MAX_WASM_BYTES_def validate_wasm_def
        frontend_manifest_def toy_it_ext_def toy_program_ext_def crypto_ext.defs)
  have "\<exists>bs. package_encode toy_it_ext p = Ok bs"
    using p by (auto simp: literal_main_compiles toy_wat_def package_from_wasm_def validate_wasm_def
        frontend_manifest_def package_encode_def Let_def IT_MAGIC_def MAX_PACKAGE_BYTES_def hash_wasm_def
        toy_it_ext_def toy_program_ext_def crypto_ext.defs toy_ext_def split: if_splits)
  then obtain bs where bs: "package_encode toy_it_ext p = Ok bs" by blast
  have "\<exists>line d'. it_main toy_it_ext toy_wat (ItBuild ''rust'' ''s'' ''o'' ''n'') toy_source_disk = (Ok line, d')"
  proof -
    have "to_ascii_lowercase ''rust'' = ''rust''" by code_simp
    then show ?thesis
      by (simp add: it_main_def it_build_file_def code p bs fs_write_def places has_parent_def parent_place_def is_dir_def)
        (simp add: toy_source_disk_def)
  qed
  then obtain line d' where built: "it_main toy_it_ext toy_wat (ItBuild ''rust'' ''s'' ''o'' ''n'') toy_source_disk = (Ok line, d')"
    by blast
  have r: "readable toy_source_disk" by (simp add: readable_def toy_source_disk_def)
  have digits: "hex_string (to_le_bytes (word_of_int 7 :: u32)) = ''07000000''" by code_simp
  have pre: "- (2 ^ 31) \<le> (7 :: int)" "(7 :: int) < 2 ^ 31" "(5 :: u64) \<noteq> 0" by simp_all
  from built_literal_runs [OF toy_it_ext_ok toy_literal_runs r pre code built] obtain used where
    "it_main toy_it_ext toy_wat (ItRun ''o'' 5) d' = (Ok (''status=success return_data_hex='' @
       hex_string (to_le_bytes (word_of_int 7 :: u32)) @ '' gas_used='' @ show_nat used), d')"
    by blast
  then have "it_main toy_it_ext toy_wat (ItRun ''o'' 5) d' =
      (Ok (''status=success return_data_hex=07000000 gas_used='' @ show_nat used), d')"
    unfolding digits by simp
  then show ?thesis by blast
qed

end
