(* ===== verification/Python_Values.thy ===== *)
theory Python_Values
  imports Bridge_Config
begin

text \<open>
  What \<open>ops/wsc-relayer.py\<close> uses of Python: values that come out of \<open>json.loads\<close> with the exceptions of
  their dynamic types, \<open>int\<close>, slices, \<open>bytes.fromhex\<close> and \<open>decode\<close>, and the pieces of its regular
  expressions. An exception is its text on the left of a sum. A string is its UTF-8 bytes; the classes
  for digits and white space are taken on ASCII, where they agree with those of Python.
\<close>

text \<open>Going on with a value unless an exception was raised.\<close>

definition py_then :: "string + 'a \<Rightarrow> ('a \<Rightarrow> string + 'b) \<Rightarrow> string + 'b" where
  "py_then r f = (case r of Inl e \<Rightarrow> Err e | Inr a \<Rightarrow> f a)"

lemma py_then_simps [simp]: "py_then (Err e) f = Err e" "py_then (Ok a) f = f a"
  by (simp_all add: py_then_def)

lemma py_then_Ok: "py_then r f = Ok b \<longleftrightarrow> (\<exists>a. r = Ok a \<and> f a = Ok b)"
  by (cases r) auto

section \<open>JSON values as Python objects\<close>

fun py_truthy :: "json \<Rightarrow> bool" where
  "py_truthy JNull = False"
| "py_truthy (JBool b) = b"
| "py_truthy (JNum n) = (n \<noteq> 0)"
| "py_truthy (JStr s) = (s \<noteq> [])"
| "py_truthy (JArr xs) = (xs \<noteq> [])"
| "py_truthy (JObj ps) = (ps \<noteq> [])"

definition py_or :: "json \<Rightarrow> json \<Rightarrow> json" where
  "py_or a b = (if py_truthy a then a else b)"

text \<open>\<open>d.get(k, default)\<close> and \<open>d[k]\<close>; of equal keys the last one counts.\<close>

definition py_get :: "json \<Rightarrow> string \<Rightarrow> json \<Rightarrow> string + json" where
  "py_get d k v =
     (case d of JObj ps \<Rightarrow> Ok (case map_of (rev ps) k of None \<Rightarrow> v | Some v' \<Rightarrow> v') | _ \<Rightarrow> Err ''AttributeError'')"

definition py_item :: "json \<Rightarrow> string \<Rightarrow> string + json" where
  "py_item d k =
     (case d of JObj ps \<Rightarrow> ok_or (map_of (rev ps) k) ''KeyError'' | _ \<Rightarrow> Err ''TypeError'')"

text \<open>What \<open>for x in v\<close> goes through.\<close>

definition py_iter :: "json \<Rightarrow> string + json list" where
  "py_iter v =
     (case v of
        JArr xs \<Rightarrow> Ok xs
      | JObj ps \<Rightarrow> Ok (map JStr (remdups (map fst ps)))
      | JStr s \<Rightarrow> Ok (map JStr (utf8_chars s))
      | _ \<Rightarrow> Err ''TypeError'')"

definition py_str :: "json \<Rightarrow> string + string" where
  "py_str v = (case v of JStr s \<Rightarrow> Ok s | _ \<Rightarrow> Err ''TypeError'')"

text \<open>A list element by a constant index; of a string it is a character.\<close>

definition py_index :: "json \<Rightarrow> nat \<Rightarrow> string + json" where
  "py_index v i =
     (case v of
        JArr xs \<Rightarrow> if i < length xs then Ok (xs ! i) else Err ''IndexError''
      | JStr s \<Rightarrow> if i < length (utf8_chars s) then Ok (JStr (utf8_chars s ! i)) else Err ''IndexError''
      | JObj ps \<Rightarrow> Err ''KeyError''
      | _ \<Rightarrow> Err ''TypeError'')"

definition py_len :: "json \<Rightarrow> string + nat" where
  "py_len v =
     (case v of
        JArr xs \<Rightarrow> Ok (length xs)
      | JStr s \<Rightarrow> Ok (length (utf8_chars s))
      | JObj ps \<Rightarrow> Ok (length (remdups (map fst ps)))
      | _ \<Rightarrow> Err ''TypeError'')"

section \<open>Text\<close>

definition py_space :: "char \<Rightarrow> bool" where
  "py_space c = (let n = of_char c :: nat in 9 \<le> n \<and> n \<le> 13 \<or> 28 \<le> n \<and> n \<le> 32)"

definition py_digit :: "char \<Rightarrow> bool" where
  "py_digit c = (to_digit 10 c \<noteq> None)"

definition py_hexdigit :: "char \<Rightarrow> bool" where
  "py_hexdigit c = (to_digit 16 c \<noteq> None)"

definition py_strip :: "string \<Rightarrow> string" where
  "py_strip s = rev (dropWhile py_space (rev (dropWhile py_space s)))"

definition removeprefix :: "string \<Rightarrow> string \<Rightarrow> string" where
  "removeprefix p s = (if str_prefix p s then drop (length p) s else s)"

text \<open>\<open>s[a:b]\<close>: negative bounds count from the end, bounds out of range are cut.\<close>

definition py_bound :: "int \<Rightarrow> nat \<Rightarrow> nat" where
  "py_bound i n = (if i < 0 then nat (int n + i) else min (nat i) n)"

definition py_slice :: "int \<Rightarrow> int \<Rightarrow> string \<Rightarrow> string" where
  "py_slice a b s = drop (py_bound a (length s)) (take (py_bound b (length s)) s)"

section \<open>Numbers\<close>

text \<open>\<open>int(s, radix)\<close> for radix 10 and 16: white space around, a sign, a prefix, single underscores between digits.\<close>

definition plain_digits :: "string \<Rightarrow> string option" where
  "plain_digits s =
     (if s = [] \<or> hd s = CHR ''_'' \<or> last s = CHR ''_'' \<or> str_contains s ''__'' then None
      else Some (filter (\<lambda>c. c \<noteq> CHR ''_'') s))"

definition py_magnitude :: "nat \<Rightarrow> string \<Rightarrow> nat option" where
  "py_magnitude radix s =
     (let t = (if radix = 16 \<and> (str_prefix ''0x'' s \<or> str_prefix ''0X'' s)
               then removeprefix ''_'' (drop 2 s) else s)
      in Option.bind (plain_digits t) (digits_value radix 0))"

definition py_int_text :: "nat \<Rightarrow> string \<Rightarrow> string + int" where
  "py_int_text radix s =
     (let t = py_strip s in
      ok_or (case t of
               [] \<Rightarrow> None
             | c # cs \<Rightarrow>
                 if c = CHR ''-'' then map_option (\<lambda>n. - int n) (py_magnitude radix cs)
                 else if c = CHR ''+'' then map_option int (py_magnitude radix cs)
                 else map_option int (py_magnitude radix t))
        ''ValueError'')"

definition py_int :: "json \<Rightarrow> string + int" where
  "py_int v =
     (case v of
        JNum n \<Rightarrow> Ok n
      | JBool b \<Rightarrow> Ok (if b then 1 else 0)
      | JStr s \<Rightarrow> py_int_text 10 s
      | _ \<Rightarrow> Err ''TypeError'')"

text \<open>\<open>hex_int\<close> of the relayer.\<close>

definition hex_int :: "json \<Rightarrow> string + int" where
  "hex_int v = (case v of JStr s \<Rightarrow> py_int_text 16 s | _ \<Rightarrow> Err ''TypeError'')"

fun show_hex :: "nat \<Rightarrow> string" where
  "show_hex n = (if n < 16 then [hex_digit n] else show_hex (n div 16) @ [hex_digit (n mod 16)])"

declare show_hex.simps [simp del]

definition py_hex :: "int \<Rightarrow> string" where
  "py_hex n = (if n < 0 then ''-0x'' @ show_hex (nat (- n)) else ''0x'' @ show_hex (nat n))"

section \<open>Bytes\<close>

fun fromhex :: "string \<Rightarrow> bytes option" where
  "fromhex [] = Some []"
| "fromhex (c # cs) =
     (if py_space c \<and> \<not> (28 \<le> (of_char c :: nat) \<and> (of_char c :: nat) \<le> 31) then fromhex cs
      else case cs of
        [] \<Rightarrow> None
      | d # ds \<Rightarrow>
          (case (to_digit 16 c, to_digit 16 d, fromhex ds) of
             (Some a, Some b, Some bs) \<Rightarrow> Some (of_nat (16 * a + b) # bs)
           | _ \<Rightarrow> None))"

definition py_decode :: "bytes \<Rightarrow> string + string" where
  "py_decode bs = (if utf8_ok (map unat bs) then Ok (bytes_str bs) else Err ''UnicodeDecodeError'')"

lemma hex_digit_space: "d < 16 \<Longrightarrow> \<not> py_space (hex_digit d)"
  by (auto simp: py_space_def of_char_hex_digit Let_def)

lemma fromhex_hex_string: "fromhex (hex_string bs) = Some bs"
proof (induction bs)
  case (Cons b bs)
  have b: "unat b < 256" using unat_less [of b] by simp
  then have "of_nat (16 * (unat b div 16) + unat b mod 16) = b" by simp
  then show ?case
    using Cons b by (simp add: hex_byte_def to_digit_hex hex_digit_space del: of_nat_add of_nat_mult)
qed (simp add: hex_string_def)

section \<open>Regular expressions\<close>

text \<open>\<open>re.search\<close>: the first position at which the pattern matches.\<close>

fun re_search :: "(string \<Rightarrow> 'a option) \<Rightarrow> string \<Rightarrow> 'a option" where
  "re_search m [] = m []"
| "re_search m (c # cs) = (case m (c # cs) of None \<Rightarrow> re_search m cs | Some a \<Rightarrow> Some a)"

lemma re_search_here: "m s = Some a \<Longrightarrow> re_search m s = Some a"
  by (cases s) simp_all

text \<open>A literal, and a greedy run of a class that the next piece does not start with.\<close>

definition re_literal :: "string \<Rightarrow> (string \<Rightarrow> 'a option) \<Rightarrow> string \<Rightarrow> 'a option" where
  "re_literal p k s = (if str_prefix p s then k (drop (length p) s) else None)"

definition re_run :: "(char \<Rightarrow> bool) \<Rightarrow> (string \<Rightarrow> string \<Rightarrow> 'a option) \<Rightarrow> string \<Rightarrow> 'a option" where
  "re_run P k s = (if takeWhile P s = [] then None else k (takeWhile P s) (dropWhile P s))"

definition re_exactly :: "nat \<Rightarrow> (char \<Rightarrow> bool) \<Rightarrow> (string \<Rightarrow> string \<Rightarrow> 'a option) \<Rightarrow> string \<Rightarrow> 'a option" where
  "re_exactly n P k s = (if n \<le> length s \<and> list_all P (take n s) then k (take n s) (drop n s) else None)"

lemma re_literal_append [simp]: "re_literal p k (p @ s) = k s"
  by (auto simp: re_literal_def str_prefix_iff)

lemma re_exactly_append: "length i = n \<Longrightarrow> list_all P i \<Longrightarrow> re_exactly n P k (i @ s) = k i s"
  by (simp add: re_exactly_def)

lemma re_run_append:
  assumes "list_all P d" and "d \<noteq> []" and "s = [] \<or> \<not> P (hd s)"
  shows "re_run P k (d @ s) = k d s"
proof -
  have "takeWhile P (d @ s) = d" "dropWhile P (d @ s) = s"
    using assms(1,3) by (cases s; simp add: list_all_iff)+
  then show ?thesis using assms(2) by (simp add: re_run_def)
qed

end
