(* ===== verification/Relayer.thy ===== *)
theory Relayer
  imports Python_Values Complex_Main
begin

text \<open>
  \<open>ops/wsc-relayer.py\<close>: the service that watches the deposits on Ethereum and Solana, submits the mints to
  the node, watches the burns of the node and submits the releases. The constants that it reads from
  the environment are the fields of \<open>relayer_config\<close>; HTTP, subprocesses, the clock and the text of
  exceptions are parameters over a world of their own. The table of operations is the list of its
  rows. SQLite is taken not to fail, and as the process keeps one connection the commits do not
  matter while it runs. \<open>write_health\<close> only reports and is left out.
\<close>

section \<open>Configuration and state\<close>

record relayer_config =
  rc_eth_rpc_url :: string
  rc_wsc_rpc_url :: string
  rc_bridge_contract :: string
  rc_deposit_topic :: string
  rc_usdc_contract :: string
  rc_usdc_topic :: string
  rc_usdc_asset :: string
  rc_operator_token :: string
  rc_weth_asset :: string
  rc_confirmations :: int
  rc_start_block :: "int option"
  rc_account :: string
  rc_keystore_dir :: string
  rc_password_file :: string
  rc_cast :: string
  rc_solana_mode :: string
  rc_solana_rpc_url :: string
  rc_vault :: string
  rc_vault_keypair :: string
  rc_program :: string
  rc_authority :: string
  rc_client :: string
  rc_wsol_mint :: string
  rc_spl_mint :: string
  rc_spl_vault :: string
  rc_network :: string
  rc_commitment :: string
  rc_mna_enabled :: bool
  rc_mna_asset :: string
  rc_mna_price :: int
  rc_oracle_url :: string
  rc_oracle_max_age :: int
  rc_fee_bps :: int
  rc_solana_cli :: string
  rc_wsol_asset :: string

definition solana_enabled :: "relayer_config \<Rightarrow> bool" where
  "solana_enabled C \<longleftrightarrow>
     rc_solana_mode C = ''custody'' \<and> [] \<notin> {rc_solana_rpc_url C, rc_vault C, rc_wsol_mint C, rc_vault_keypair C} \<or>
     rc_solana_mode C = ''program'' \<and>
       [] \<notin> {rc_solana_rpc_url C, rc_program C, rc_vault C, rc_wsol_mint C, rc_authority C, rc_client C}"

definition spl_asset :: "relayer_config \<Rightarrow> string" where
  "spl_asset C = ''solana:USDC:'' @ rc_network C @ '':'' @ rc_spl_mint C"

definition spl_enabled :: "relayer_config \<Rightarrow> bool" where
  "spl_enabled C \<longleftrightarrow>
     rc_solana_mode C = ''program'' \<and>
     [] \<notin> {rc_solana_rpc_url C, rc_program C, rc_vault C, rc_spl_mint C, rc_spl_vault C, rc_authority C, rc_client C}"

datatype relay_direction = Inbound | Outbound
datatype relay_status = Detected | Retry | MintSubmitted | ReleaseSubmitted | Completed

record relay_row =
  rr_id :: string
  rr_direction :: relay_direction
  rr_status :: relay_status
  rr_asset :: string
  rr_address :: string
  rr_destination :: string
  rr_amount :: string
  rr_external :: string
  rr_block :: int
  rr_attempts :: nat
  rr_next_attempt :: real
  rr_last_error :: string
  rr_created :: real
  rr_updated :: real

record 'w relayer =
  rl_world :: 'w
  rl_operations :: "relay_row list"
  rl_eth_cursor :: "int option"
  rl_solana_cursor :: "string option"

record 'w relayer_ext =
  x_post :: "string \<Rightarrow> string \<Rightarrow> json \<Rightarrow> 'w \<Rightarrow> (string + json) \<times> 'w"
  x_fetch :: "string \<Rightarrow> 'w \<Rightarrow> (string + json) \<times> 'w"
  x_run :: "string list \<Rightarrow> 'w \<Rightarrow> (string + int \<times> string \<times> string) \<times> 'w"
  x_clock :: "'w \<Rightarrow> real \<times> 'w"
  x_keystore :: "string \<Rightarrow> 'w \<Rightarrow> bool"
  x_loads :: "string \<Rightarrow> string + json"
  x_repr :: "json \<Rightarrow> string"
  x_sha256_text :: "string \<Rightarrow> string"
  x_sol_text :: "int \<Rightarrow> string"

definition relay_rpc ::
    "('w, 'a) relayer_ext_scheme \<Rightarrow> string \<Rightarrow> string \<Rightarrow> json \<Rightarrow> 'w relayer \<Rightarrow> (string + json) \<times> 'w relayer" where
  "relay_rpc R url method params s =
     (case x_post R url method params (rl_world s) of
        (r, w) \<Rightarrow>
          try_then (r, s\<lparr>rl_world := w\<rparr>) (\<lambda>result s.
          try_then (py_get result ''error'' JNull, s) (\<lambda>error s.
            if py_truthy error then (Err (method @ '': '' @ x_repr R error), s)
            else (py_get result ''result'' JNull, s))))"

definition relay_time :: "('w, 'a) relayer_ext_scheme \<Rightarrow> 'w relayer \<Rightarrow> real \<times> 'w relayer" where
  "relay_time R s = (case x_clock R (rl_world s) of (t, w) \<Rightarrow> (t, s\<lparr>rl_world := w\<rparr>))"

text \<open>\<open>INSERT OR IGNORE\<close>: the identifier is the primary key.\<close>

definition insert_row :: "relay_row \<Rightarrow> 'w relayer \<Rightarrow> 'w relayer" where
  "insert_row row s =
     (if rr_id row \<in> rr_id ` set (rl_operations s) then s else s\<lparr>rl_operations := rl_operations s @ [row]\<rparr>)"

definition new_row ::
    "string \<Rightarrow> relay_direction \<Rightarrow> string \<Rightarrow> string \<Rightarrow> string \<Rightarrow> string \<Rightarrow> string \<Rightarrow> int \<Rightarrow> real \<Rightarrow> relay_row" where
  "new_row i direction asset addr destination amount external_tx block now =
     \<lparr>rr_id = i, rr_direction = direction, rr_status = Detected, rr_asset = asset, rr_address = addr,
      rr_destination = destination, rr_amount = amount, rr_external = external_tx, rr_block = block,
      rr_attempts = 0, rr_next_attempt = 0, rr_last_error = [], rr_created = now, rr_updated = now\<rparr>"

section \<open>Deposits on Ethereum\<close>

definition decode_deposit :: "string \<Rightarrow> string + int \<times> string" where
  "decode_deposit data =
     (let raw = (if str_prefix ''0x'' data then drop 2 data else data) in
      if length raw < 128 then Err ''ValueError''
      else py_then (py_int_text 16 (py_slice 0 64 raw)) (\<lambda>amount.
           py_then (py_int_text 16 (py_slice 64 128 raw)) (\<lambda>offset.
           let begin_at = offset * 2 in
           if int (length raw) < begin_at + 64 then Err ''ValueError''
           else py_then (py_int_text 16 (py_slice begin_at (begin_at + 64) raw)) (\<lambda>len.
                let text_at = begin_at + 64 in
                py_then (ok_or (fromhex (py_slice text_at (text_at + len * 2) raw)) ''ValueError'') (\<lambda>bs.
                py_then (py_decode bs) (\<lambda>destination. Ok (amount, destination)))))))"

text \<open>A method of \<open>str\<close> on a value of another type raises.\<close>

definition as_str :: "json \<Rightarrow> string + string" where
  "as_str v = (case v of JStr s \<Rightarrow> Ok s | _ \<Rightarrow> Err ''AttributeError'')"

text \<open>The row of a log entry; an entry with fewer than three topics is skipped.\<close>

definition row_of_log :: "string \<Rightarrow> real \<Rightarrow> json \<Rightarrow> string + relay_row option" where
  "row_of_log asset now entry =
     py_then (py_get entry ''topics'' (JArr [])) (\<lambda>topics.
     py_then (py_len topics) (\<lambda>n.
       if n < 3 then Ok None
       else py_then (py_then (py_index topics 1) as_str) (\<lambda>topic.
            py_then (py_then (py_get entry ''data'' (JStr ''0x'')) as_str) (\<lambda>data.
            py_then (decode_deposit data) (\<lambda>(amount, destination).
            py_then (py_then (py_get entry ''transactionHash'' (JStr [])) as_str) (\<lambda>tx.
            py_then (py_then (py_get entry ''blockNumber'' (JStr ''0x0'')) hex_int) (\<lambda>number.
              Ok (Some (new_row (to_ascii_lowercase (removeprefix ''0x'' topic)) Inbound asset destination destination
                (show_int amount) (removeprefix ''0x'' tx) number now)))))))))"

fun record_logs :: "string \<Rightarrow> real \<Rightarrow> json list \<Rightarrow> 'w relayer \<Rightarrow> (string + unit) \<times> 'w relayer" where
  "record_logs asset now [] s = (Ok (), s)"
| "record_logs asset now (entry # logs) s =
     (case row_of_log asset now entry of
        Inl e \<Rightarrow> (Err e, s)
      | Inr None \<Rightarrow> record_logs asset now logs s
      | Inr (Some row) \<Rightarrow> record_logs asset now logs (insert_row row s))"

definition log_query :: "string \<Rightarrow> string \<Rightarrow> int \<Rightarrow> int \<Rightarrow> json" where
  "log_query contract topic from_block to_block =
     JArr [JObj [(''fromBlock'', JStr (py_hex from_block)), (''toBlock'', JStr (py_hex to_block)),
                 (''address'', JStr contract), (''topics'', JArr [JStr topic])]]"

fun scan_sources ::
    "('w, 'a) relayer_ext_scheme \<Rightarrow> relayer_config \<Rightarrow> int \<Rightarrow> int \<Rightarrow> real \<Rightarrow> (string \<times> string \<times> string) list \<Rightarrow> 'w relayer \<Rightarrow>
     (string + unit) \<times> 'w relayer" where
  "scan_sources R C from_block to_block now [] s = (Ok (), s)"
| "scan_sources R C from_block to_block now ((contract, topic, asset) # sources) s =
     try_then (relay_rpc R (rc_eth_rpc_url C) ''eth_getLogs'' (log_query contract topic from_block to_block) s) (\<lambda>result s.
     try_then (py_iter (py_or result (JArr [])), s) (\<lambda>logs s.
     try_then (record_logs asset now logs s) (\<lambda>_ s.
       scan_sources R C from_block to_block now sources s)))"

definition deposit_sources :: "relayer_config \<Rightarrow> (string \<times> string \<times> string) list" where
  "deposit_sources C =
     (rc_bridge_contract C, rc_deposit_topic C, rc_weth_asset C) #
     (if rc_usdc_contract C \<noteq> [] \<and> rc_usdc_topic C \<noteq> [] then [(rc_usdc_contract C, rc_usdc_topic C, rc_usdc_asset C)] else [])"

definition discover_deposits ::
    "('w, 'a) relayer_ext_scheme \<Rightarrow> relayer_config \<Rightarrow> int \<Rightarrow> int \<Rightarrow> 'w relayer \<Rightarrow> (string + unit) \<times> 'w relayer" where
  "discover_deposits R C from_block to_block s =
     (if to_block < from_block then (Ok (), s)
      else case relay_time R s of (now, s1) \<Rightarrow> scan_sources R C from_block to_block now (deposit_sources C) s1)"

section \<open>Deposits on Solana\<close>

definition number_of :: "string \<Rightarrow> int" where
  "number_of ds = (case digits_value 10 0 ds of None \<Rightarrow> 0 | Some n \<Rightarrow> int n)"

definition not_space :: "char \<Rightarrow> bool" where
  "not_space c = (\<not> py_space c)"

definition base58_char :: "char \<Rightarrow> bool" where
  "base58_char c = (c \<in> set ''123456789ABCDEFGHJKLMNPQRSTUVWXYZabcdefghijkmnopqrstuvwxyz'')"

text \<open>The patterns of the logs of the bridge program: native deposits with their tag, and deposits of a token.\<close>

definition deposit_pattern :: "string \<Rightarrow> string \<Rightarrow> (string \<times> int \<times> string) option" where
  "deposit_pattern tag =
     re_literal (tag @ '' id='') (re_exactly 64 py_hexdigit (\<lambda>i.
     re_literal '' amount='' (re_run py_digit (\<lambda>amount.
     re_literal '' destination='' (re_run not_space (\<lambda>destination _.
       Some (to_ascii_lowercase i, number_of amount, destination)))))))"

definition spl_pattern :: "string \<Rightarrow> (string \<times> string \<times> int \<times> int \<times> string) option" where
  "spl_pattern =
     re_literal ''INTERTRAIN_SPL_DEPOSIT id='' (re_exactly 64 py_hexdigit (\<lambda>i.
     re_literal '' mint='' (re_run base58_char (\<lambda>mint rest.
       if length mint < 32 \<or> 44 < length mint then None
       else re_literal '' amount='' (re_run py_digit (\<lambda>amount.
            re_literal '' decimals='' (re_run py_digit (\<lambda>decimals.
            re_literal '' destination='' (re_run not_space (\<lambda>destination _.
              Some (to_ascii_lowercase i, mint, number_of amount, number_of decimals, destination))))))) rest))))"

fun first_log :: "(string \<Rightarrow> 'a option) \<Rightarrow> json list \<Rightarrow> string + 'a option" where
  "first_log m [] = Ok None"
| "first_log m (v # vs) =
     py_then (py_str v) (\<lambda>message.
       case re_search m message of Some a \<Rightarrow> Ok (Some a) | None \<Rightarrow> first_log m vs)"

text \<open>\<open>d.get(k) or default\<close>\<close>

definition get_or :: "json \<Rightarrow> string \<Rightarrow> json \<Rightarrow> string + json" where
  "get_or d k v = map_sum id (\<lambda>x. py_or x v) (py_get d k JNull)"

definition program_log :: "(string \<Rightarrow> 'a option) \<Rightarrow> json \<Rightarrow> string + 'a option" where
  "program_log m transaction =
     py_then (get_or transaction ''meta'' (JObj [])) (\<lambda>meta.
     py_then (get_or meta ''logMessages'' (JArr [])) (\<lambda>messages.
     py_then (py_iter messages) (first_log m)))"

definition message_of :: "json \<Rightarrow> string + json" where
  "message_of transaction =
     py_then (get_or transaction ''transaction'' (JObj [])) (\<lambda>t. get_or t ''message'' (JObj []))"

fun calls_program :: "relayer_config \<Rightarrow> json list \<Rightarrow> string + bool" where
  "calls_program C [] = Ok False"
| "calls_program C (v # vs) =
     py_then (py_get v ''programId'' JNull) (\<lambda>i.
     py_then (py_get v ''program'' JNull) (\<lambda>p.
       if i = JStr (rc_program C) \<or> p = JStr (rc_program C) then Ok True else calls_program C vs))"

definition solana_program_called :: "relayer_config \<Rightarrow> json \<Rightarrow> string + bool" where
  "solana_program_called C transaction =
     py_then (message_of transaction) (\<lambda>message.
     py_then (py_then (py_get message ''instructions'' (JArr [])) py_iter) (calls_program C))"

fun memo_text :: "json list \<Rightarrow> string + string" where
  "memo_text [] = Ok []"
| "memo_text (v # vs) =
     py_then (py_get v ''program'' JNull) (\<lambda>p.
       if p \<in> {JStr ''spl-memo'', JStr ''spl-memo-v2''}
       then py_then (py_get v ''parsed'' JNull) (\<lambda>parsed.
            py_then (py_get v ''data'' JNull) (\<lambda>data.
              case parsed of JStr t \<Rightarrow> Ok t | _ \<Rightarrow> (case data of JStr t \<Rightarrow> Ok t | _ \<Rightarrow> memo_text vs)))
       else memo_text vs)"

definition solana_memo :: "json \<Rightarrow> string + string" where
  "solana_memo transaction =
     py_then (message_of transaction) (\<lambda>message.
     py_then (py_then (py_get message ''instructions'' (JArr [])) py_iter) memo_text)"

definition account_key :: "json \<Rightarrow> string + json" where
  "account_key v = (case v of JObj _ \<Rightarrow> py_get v ''pubkey'' (JStr []) | _ \<Rightarrow> Ok v)"

fun account_keys :: "json list \<Rightarrow> string + json list" where
  "account_keys [] = Ok []"
| "account_keys (v # vs) = py_then (account_key v) (\<lambda>k. map_sum id (\<lambda>ks. k # ks) (account_keys vs))"

fun index_of :: "json \<Rightarrow> json list \<Rightarrow> string + nat" where
  "index_of v [] = Err ''ValueError''"
| "index_of v (x # xs) = (if x = v then Ok 0 else map_sum id Suc (index_of v xs))"

text \<open>What the vault gained in a transaction.\<close>

definition vault_gain :: "relayer_config \<Rightarrow> json list \<Rightarrow> json \<Rightarrow> string + int" where
  "vault_gain C keys meta =
     py_then (index_of (JStr (rc_vault C)) keys) (\<lambda>i.
     py_then (py_then (py_then (py_get meta ''postBalances'' (JArr [])) (\<lambda>v. py_index v i)) py_int) (\<lambda>post.
     py_then (py_then (py_then (py_get meta ''preBalances'' (JArr [])) (\<lambda>v. py_index v i)) py_int) (\<lambda>pre.
       Ok (post - pre))))"

definition memo_pattern :: "string \<Rightarrow> string option" where
  "memo_pattern =
     re_literal ''intertrain:wsol:deposit:'' (re_exactly 64 py_hexdigit (\<lambda>_.
     re_literal '':'' (re_run (\<lambda>c. c \<noteq> CHR '':'') (\<lambda>destination rest.
       if rest = [] then Some destination else None))))"

text \<open>Program mode: the identifier, the amount, the destination and the asset that the logs name.\<close>

definition program_deposit :: "relayer_config \<Rightarrow> json \<Rightarrow> string + (string \<times> int \<times> string \<times> string) option" where
  "program_deposit C transaction =
     py_then (solana_program_called C transaction) (\<lambda>called.
       if \<not> called then Ok None
       else py_then (if rc_mna_enabled C then program_log (deposit_pattern ''INTERTRAIN_SOL_MNA_DEPOSIT'') transaction
                     else Ok None) (\<lambda>mna.
            py_then (program_log spl_pattern transaction) (\<lambda>spl.
              case mna of
                Some (i, amount, destination) \<Rightarrow> Ok (Some (i, amount, destination, rc_mna_asset C))
              | None \<Rightarrow>
                  (case spl of
                     Some (i, mint, amount, decimals, destination) \<Rightarrow>
                       if mint = rc_spl_mint C
                       then Ok (if decimals \<noteq> 6 \<or> \<not> spl_enabled C then None else Some (i, amount, destination, spl_asset C))
                       else map_sum id (map_option (\<lambda>(i, amount, destination). (i, amount, destination, rc_wsol_asset C)))
                              (program_log (deposit_pattern ''INTERTRAIN_WSOL_DEPOSIT'') transaction)
                   | None \<Rightarrow>
                       map_sum id (map_option (\<lambda>(i, amount, destination). (i, amount, destination, rc_wsol_asset C)))
                         (program_log (deposit_pattern ''INTERTRAIN_WSOL_DEPOSIT'') transaction)))))"

text \<open>
  Custody mode: a gain of the vault with the memo of a deposit. The exceptions that the code catches
  skip the transaction.
\<close>

definition custody_deposit ::
    "('w, 'a) relayer_ext_scheme \<Rightarrow> relayer_config \<Rightarrow> string \<Rightarrow> json \<Rightarrow> string + (string \<times> int \<times> string \<times> string) option" where
  "custody_deposit R C signature transaction =
     py_then (message_of transaction) (\<lambda>message.
     py_then (get_or transaction ''meta'' (JObj [])) (\<lambda>meta.
     py_then (py_then (py_then (py_get message ''accountKeys'' (JArr [])) py_iter) account_keys) (\<lambda>keys.
       case vault_gain C keys meta of
         Inl e \<Rightarrow> if e \<in> {''ValueError'', ''IndexError'', ''TypeError'', ''KeyError''} then Ok None else Err e
       | Inr amount \<Rightarrow>
           if amount \<le> 0 then Ok None
           else py_then (solana_memo transaction) (\<lambda>memo.
             Ok (case memo_pattern memo of
                   None \<Rightarrow> None
                 | Some destination \<Rightarrow>
                     Some (x_sha256_text R (''solana:wsol:deposit:'' @ signature), amount, destination, rc_wsol_asset C))))))"

definition solana_call ::
    "('w, 'a) relayer_ext_scheme \<Rightarrow> relayer_config \<Rightarrow> string \<Rightarrow> json \<Rightarrow> 'w relayer \<Rightarrow> (string + json) \<times> 'w relayer" where
  "solana_call R C method params s =
     (if rc_solana_rpc_url C = [] then (Err ''WSC_SOLANA_RPC_URL is not configured'', s)
      else relay_rpc R (rc_solana_rpc_url C) method params s)"

definition signature_query :: "relayer_config \<Rightarrow> int \<Rightarrow> json" where
  "signature_query C limit =
     JArr [JStr (rc_vault C), JObj [(''limit'', JNum limit), (''commitment'', JStr (rc_commitment C))]]"

definition solana_cursor ::
    "('w, 'a) relayer_ext_scheme \<Rightarrow> relayer_config \<Rightarrow> 'w relayer \<Rightarrow> (string + string) \<times> 'w relayer" where
  "solana_cursor R C s =
     (case rl_solana_cursor s of
        Some v \<Rightarrow> (Ok v, s)
      | None \<Rightarrow>
          if \<not> solana_enabled C then (Ok [], s)
          else try_then (solana_call R C ''getSignaturesForAddress'' (signature_query C 1) s) (\<lambda>result s.
               let signatures = py_or result (JArr []) in
               try_then (if py_truthy signatures
                         then py_then (py_index signatures 0) (\<lambda>v. py_then (py_get v ''signature'' (JStr [])) py_str)
                         else Ok [], s) (\<lambda>v s.
                 (Ok v, s\<lparr>rl_solana_cursor := Some v\<rparr>))))"

fun signatures_of :: "json list \<Rightarrow> string + (json \<times> json) list" where
  "signatures_of [] = Ok []"
| "signatures_of (v # vs) =
     py_then (py_get v ''signature'' (JStr [])) (\<lambda>g. map_sum id (\<lambda>gs. (g, v) # gs) (signatures_of vs))"

text \<open>The entries since the cursor, oldest first; all of them when the cursor is not among them.\<close>

definition unseen_items :: "string \<Rightarrow> (json \<times> json) list \<Rightarrow> (json \<times> json) list" where
  "unseen_items previous items =
     (if JStr previous \<in> fst ` set items then rev (takeWhile (\<lambda>(g, v). g \<noteq> JStr previous) items) else rev items)"

definition transaction_query :: "relayer_config \<Rightarrow> json \<Rightarrow> json" where
  "transaction_query C signature =
     JArr [signature, JObj [(''encoding'', JStr ''jsonParsed''), (''commitment'', JStr (rc_commitment C)),
       (''maxSupportedTransactionVersion'', JNum 0)]]"

text \<open>One signature: failed transactions and those that are no deposit leave nothing.\<close>

definition record_item ::
    "('w, 'a) relayer_ext_scheme \<Rightarrow> relayer_config \<Rightarrow> real \<Rightarrow> json \<times> json \<Rightarrow> 'w relayer \<Rightarrow> (string + unit) \<times> 'w relayer" where
  "record_item R C now item s =
     (case item of (signature, v) \<Rightarrow>
        try_then (py_get v ''err'' JNull, s) (\<lambda>failure s.
          if \<not> py_truthy signature \<or> failure \<noteq> JNull then (Ok (), s)
          else try_then (solana_call R C ''getTransaction'' (transaction_query C signature) s) (\<lambda>transaction s.
               if \<not> py_truthy transaction then (Ok (), s)
               else try_then (py_str signature, s) (\<lambda>sig s.
                    try_then (if rc_solana_mode C = ''program'' then program_deposit C transaction
                              else custody_deposit R C sig transaction, s) (\<lambda>found s.
                      case found of
                        None \<Rightarrow> (Ok (), s)
                      | Some (i, amount, destination, asset) \<Rightarrow>
                          try_then (py_then (py_get transaction ''slot'' JNull) (\<lambda>a.
                                    py_then (py_get v ''slot'' JNull) (\<lambda>b. py_int (py_or a (py_or b (JNum 0))))), s) (\<lambda>slot s.
                            (Ok (), insert_row
                               (new_row i Inbound asset destination destination (show_int amount) sig slot now) s)))))))"

fun record_items ::
    "('w, 'a) relayer_ext_scheme \<Rightarrow> relayer_config \<Rightarrow> real \<Rightarrow> (json \<times> json) list \<Rightarrow> 'w relayer \<Rightarrow> (string + unit) \<times> 'w relayer" where
  "record_items R C now [] s = (Ok (), s)"
| "record_items R C now (item # items) s =
     try_then (record_item R C now item s) (\<lambda>_ s. record_items R C now items s)"

definition discover_solana_deposits ::
    "('w, 'a) relayer_ext_scheme \<Rightarrow> relayer_config \<Rightarrow> 'w relayer \<Rightarrow> (string + unit) \<times> 'w relayer" where
  "discover_solana_deposits R C s =
     (if \<not> solana_enabled C then (Ok (), s)
      else try_then (solana_cursor R C s) (\<lambda>previous s.
           try_then (solana_call R C ''getSignaturesForAddress'' (signature_query C 1000) s) (\<lambda>result s.
           let signatures = py_or result (JArr []) in
           if \<not> py_truthy signatures then (Ok (), s)
           else try_then (py_then (py_iter signatures) signatures_of, s) (\<lambda>items s.
                try_then (py_str (fst (hd items)), s) (\<lambda>newest s.
                  if previous = [] then (Ok (), s\<lparr>rl_solana_cursor := Some newest\<rparr>)
                  else case relay_time R s of (now, s) \<Rightarrow>
                       try_then (record_items R C now (unseen_items previous items) s) (\<lambda>_ s.
                         (Ok (), s\<lparr>rl_solana_cursor := Some newest\<rparr>)))))))"

section \<open>Burns\<close>

fun record_burns :: "real \<Rightarrow> json list \<Rightarrow> 'w relayer \<Rightarrow> (string + unit) \<times> 'w relayer" where
  "record_burns now [] s = (Ok (), s)"
| "record_burns now (v # vs) s =
     try_then (py_get v ''kind'' JNull, s) (\<lambda>kind s.
       if kind \<noteq> JStr ''burn'' then record_burns now vs s
       else try_then (py_then (py_get v ''operation_id'' (JStr [])) as_str, s) (\<lambda>text s.
            let i = to_ascii_lowercase (removeprefix ''0x'' text) in
            if length i \<noteq> 64 then record_burns now vs s
            else try_then (py_then (py_then (py_item v ''asset_id'') py_str) (\<lambda>asset.
                           py_then (py_then (py_item v ''address'') py_str) (\<lambda>addr.
                           py_then (py_then (py_get v ''destination'' (JStr [])) py_str) (\<lambda>destination.
                           py_then (py_then (py_item v ''amount'') py_str) (\<lambda>amount.
                           py_then (py_then (py_get v ''external_transaction'' (JStr [])) py_str) (\<lambda>tx.
                             Ok (new_row i Outbound asset addr destination amount tx 0 now)))))), s) (\<lambda>row s.
                   record_burns now vs (insert_row row s))))"

definition discover_burns ::
    "('w, 'a) relayer_ext_scheme \<Rightarrow> relayer_config \<Rightarrow> 'w relayer \<Rightarrow> (string + unit) \<times> 'w relayer" where
  "discover_burns R C s =
     try_then (relay_rpc R (rc_wsc_rpc_url C) ''bridge_operations_recent'' (JObj []) s) (\<lambda>result s.
       case relay_time R s of (now, s) \<Rightarrow>
         try_then (py_then (py_get (py_or result (JObj [])) ''operations'' (JArr [])) py_iter, s) (\<lambda>operations s.
           record_burns now operations s))"

section \<open>Submitting\<close>

text \<open>The price in micro-dollars per SOL and when it was published.\<close>

definition oracle_snapshot ::
    "('w, 'a) relayer_ext_scheme \<Rightarrow> relayer_config \<Rightarrow> 'w relayer \<Rightarrow> (string + int \<times> int) \<times> 'w relayer" where
  "oracle_snapshot R C s =
     (if rc_oracle_url C = []
      then if rc_mna_price C \<le> 0 then (Err ''SOL/MNA oracle is not configured'', s)
           else case relay_time R s of (now, s) \<Rightarrow> (Ok (rc_mna_price C, \<lfloor>now\<rfloor>), s)
      else case x_fetch R (rc_oracle_url C) (rl_world s) of (r, w) \<Rightarrow>
        try_then (r, s\<lparr>rl_world := w\<rparr>) (\<lambda>payload s.
        try_then (get_or payload ''parsed'' (JArr []), s) (\<lambda>parsed s.
        try_then (if py_truthy parsed then py_index parsed 0 else Ok JNull, s) (\<lambda>first s.
          case first of
            JObj _ \<Rightarrow>
              try_then (get_or first ''price'' (JObj []), s) (\<lambda>price s.
              try_then (py_then (py_get price ''price'' (JStr ''0'')) py_int, s) (\<lambda>raw s.
              try_then (py_then (py_get price ''expo'' (JStr ''0'')) py_int, s) (\<lambda>expo s.
              try_then (py_then (py_get price ''publish_time'' (JStr ''0'')) py_int, s) (\<lambda>published s.
                case relay_time R s of (now, s) \<Rightarrow>
                  if raw \<le> 0 \<or> published \<le> 0 \<or> real_of_int (rc_oracle_max_age C) < now - real_of_int published
                  then (Err ''SOL/MNA oracle price is stale or invalid'', s)
                  else let micro = (if 0 \<le> expo then raw * 10 ^ nat expo * 1000000
                                    else raw * 1000000 div 10 ^ nat (- expo))
                       in if micro \<le> 0 then (Err ''SOL/MNA oracle price is below precision'', s)
                          else (Ok (micro, published), s)))))
          | _ \<Rightarrow> (Err ''SOL/MNA oracle returned no parsed price'', s)))))"

definition mint_params :: "relayer_config \<Rightarrow> relay_row \<Rightarrow> json" where
  "mint_params C row =
     JObj [(''operator_token'', JStr (rc_operator_token C)), (''operation_id'', JStr (rr_id row)),
       (''asset_id'', JStr (rr_asset row)), (''address'', JStr (rr_address row)), (''destination'', JStr (rr_address row)),
       (''amount'', JStr (rr_amount row)), (''external_transaction'', JStr (rr_external row)),
       (''memo'', JStr ''ethereum deposit relayed'')]"

definition mna_params :: "relayer_config \<Rightarrow> relay_row \<Rightarrow> int \<Rightarrow> int \<Rightarrow> int \<Rightarrow> int \<Rightarrow> int \<Rightarrow> int \<Rightarrow> json" where
  "mna_params C row usd_micro amount_mna lamports price published fee =
     JObj [(''operator_token'', JStr (rc_operator_token C)), (''collateral_asset'', JStr (rc_mna_asset C)),
       (''address'', JStr (rr_address row)), (''amount_usdc'', JStr (show_int usd_micro)),
       (''amount_mna'', JStr (show_int amount_mna)), (''collateral_amount'', JStr (show_int lamports)),
       (''oracle_price_usd_micro_per_sol'', JStr (show_int price)), (''oracle_timestamp'', JNum published),
       (''fee_mna'', JStr (show_int fee)), (''external_transaction'', JStr (rr_external row)),
       (''destination'', JStr (rr_destination row)), (''memo'', JStr ''solana devnet SOL direct collateral'')]"

definition submit_mint ::
    "('w, 'a) relayer_ext_scheme \<Rightarrow> relayer_config \<Rightarrow> relay_row \<Rightarrow> 'w relayer \<Rightarrow> (string + unit) \<times> 'w relayer" where
  "submit_mint R C row s =
     (if rr_asset row = rc_mna_asset C
      then try_then (oracle_snapshot R C s) (\<lambda>(price, published) s.
           try_then (py_int_text 10 (rr_amount row), s) (\<lambda>lamports s.
             let usd_micro = lamports * price div 1000000000;
                 gross_mna = usd_micro div 2;
                 fee_mna = gross_mna * rc_fee_bps C div 10000;
                 amount_mna = gross_mna - fee_mna
             in if usd_micro \<le> 0 \<or> usd_micro mod 2 \<noteq> 0 \<or> amount_mna \<le> 0
                then (Err ''SOL deposit is below the minimum quoteable MNA amount'', s)
                else try_then (relay_rpc R (rc_wsc_rpc_url C) ''mna_reserve_mint''
                       (mna_params C row usd_micro amount_mna lamports price published fee_mna) s) (\<lambda>_ s. (Ok (), s))))
      else try_then (relay_rpc R (rc_wsc_rpc_url C) ''bridge_mint'' (mint_params C row) s) (\<lambda>_ s. (Ok (), s)))"

text \<open>\<open>0x[a-fA-F0-9]{40}\<close> and a Solana public key, each the whole text.\<close>

definition ethereum_recipient :: "string \<Rightarrow> string + string" where
  "ethereum_recipient t =
     (if str_prefix ''0x'' t \<and> length t = 42 \<and> list_all py_hexdigit (drop 2 t) then Ok t else Err ''ValueError'')"

definition solana_recipient :: "string \<Rightarrow> string + string" where
  "solana_recipient t =
     (if 32 \<le> length t \<and> length t \<le> 44 \<and> list_all base58_char t then Ok t else Err ''ValueError'')"

definition solana_release_command :: "('w, 'a) relayer_ext_scheme \<Rightarrow> relayer_config \<Rightarrow> relay_row \<Rightarrow> string \<Rightarrow> int \<Rightarrow> string + string list" where
  "solana_release_command R C row recipient lamports =
     (if str_prefix ''solana:USDC:'' (rr_asset row)
      then if \<not> spl_enabled C then Err ''RuntimeError''
           else Ok [rc_client C, ''release-spl'', ''--rpc-url'', rc_solana_rpc_url C, ''--program-id'', rc_program C,
                    ''--keypair'', rc_authority C, ''--vault-token-account'', rc_spl_vault C,
                    ''--recipient-token-account'', recipient, ''--mint'', rc_spl_mint C,
                    ''--amount'', show_int lamports, ''--burn-id'', rr_id row]
      else if rc_solana_mode C = ''program''
      then if rc_authority C = [] then Err ''RuntimeError''
           else Ok [rc_client C, ''release'', ''--rpc-url'', rc_solana_rpc_url C, ''--program-id'', rc_program C,
                    ''--keypair'', rc_authority C, ''--recipient'', recipient, ''--amount'', show_int lamports,
                    ''--burn-id'', rr_id row]
      else if rc_vault_keypair C = [] then Err ''RuntimeError''
      else Ok [rc_solana_cli C, ''transfer'', recipient, x_sol_text R lamports,
               ''--url'', rc_solana_rpc_url C, ''--keypair'', rc_vault_keypair C,
               ''--allow-unfunded-recipient'', ''--with-memo'', ''intertrain:wsol:release:'' @ rr_id row,
               ''--commitment'', rc_commitment C, ''--output'', ''json''])"

definition relay_command :: "('w, 'a) relayer_ext_scheme \<Rightarrow> string list \<Rightarrow> 'w relayer \<Rightarrow> (string + int \<times> string \<times> string) \<times> 'w relayer" where
  "relay_command R command s = (case x_run R command (rl_world s) of (r, w) \<Rightarrow> (r, s\<lparr>rl_world := w\<rparr>))"

definition submit_solana_release ::
    "('w, 'a) relayer_ext_scheme \<Rightarrow> relayer_config \<Rightarrow> relay_row \<Rightarrow> 'w relayer \<Rightarrow> (string + unit) \<times> 'w relayer" where
  "submit_solana_release R C row s =
     try_then (solana_recipient (rr_destination row), s) (\<lambda>recipient s.
     try_then (py_int_text 10 (rr_amount row), s) (\<lambda>lamports s.
       if lamports \<le> 0 then (Err ''ValueError'', s)
       else try_then (solana_release_command R C row recipient lamports, s) (\<lambda>command s.
            try_then (relay_command R command s) (\<lambda>(code, out, problems) s.
              if code \<noteq> 0 then (Err ''RuntimeError'', s) else (Ok (), s)))))"

definition cast_command :: "('w, 'a) relayer_ext_scheme \<Rightarrow> relayer_config \<Rightarrow> relay_row \<Rightarrow> string \<Rightarrow> 'w \<Rightarrow> string list" where
  "cast_command R C row recipient w =
     [rc_cast C, ''send'', rc_bridge_contract C, ''release(bytes32,address,uint256)'', ''0x'' @ rr_id row, recipient,
      rr_amount row, ''--rpc-url'', rc_eth_rpc_url C] @
     (let keystore = rc_keystore_dir C @ ''/'' @ rc_account C in
      if x_keystore R keystore w
      then [''--keystore'', keystore] @ (if rc_password_file C \<noteq> [] then [''--password-file'', rc_password_file C] else [])
      else [''--account'', rc_account C]) @ [''--json'']"

definition submit_release ::
    "('w, 'a) relayer_ext_scheme \<Rightarrow> relayer_config \<Rightarrow> relay_row \<Rightarrow> 'w relayer \<Rightarrow> (string + unit) \<times> 'w relayer" where
  "submit_release R C row s =
     (if str_prefix ''solana:WSOL:'' (rr_asset row) then submit_solana_release R C row s
      else try_then (ethereum_recipient (rr_destination row), s) (\<lambda>recipient s.
           try_then (relay_command R (cast_command R C row recipient (rl_world s)) s) (\<lambda>(code, out, problems) s.
             if code \<noteq> 0 then (Err ''RuntimeError'', s)
             else try_then (x_loads R out, s) (\<lambda>_ s. (Ok (), s)))))"

section \<open>The queue\<close>

definition update_row :: "string \<Rightarrow> (relay_row \<Rightarrow> relay_row) \<Rightarrow> 'w relayer \<Rightarrow> 'w relayer" where
  "update_row i f s = s\<lparr>rl_operations := map (\<lambda>row. if rr_id row = i then f row else row) (rl_operations s)\<rparr>"

definition retry_delay :: "nat \<Rightarrow> nat" where
  "retry_delay attempts = min 3600 (2 ^ min attempts 10)"

definition mark_error :: "('w, 'a) relayer_ext_scheme \<Rightarrow> string \<Rightarrow> string \<Rightarrow> 'w relayer \<Rightarrow> 'w relayer" where
  "mark_error R i error s =
     (let attempts = (case find (\<lambda>row. rr_id row = i) (rl_operations s) of None \<Rightarrow> 0 | Some row \<Rightarrow> rr_attempts row) + 1 in
      case relay_time R s of (now, s) \<Rightarrow>
        update_row i (\<lambda>row. row\<lparr>rr_status := Retry, rr_attempts := attempts,
          rr_next_attempt := now + real (retry_delay attempts), rr_last_error := take 1000 error, rr_updated := now\<rparr>) s)"

definition due_rows :: "real \<Rightarrow> relay_row list \<Rightarrow> relay_row list" where
  "due_rows now rows =
     take 50 (sort_key rr_created
       (filter (\<lambda>row. rr_status row \<in> {Detected, Retry} \<and> rr_next_attempt row \<le> now) rows))"

definition submit_row ::
    "('w, 'a) relayer_ext_scheme \<Rightarrow> relayer_config \<Rightarrow> real \<Rightarrow> relay_row \<Rightarrow> 'w relayer \<Rightarrow> 'w relayer" where
  "submit_row R C now row s =
     (case (if rr_direction row = Inbound then submit_mint R C row s else submit_release R C row s) of
        (Inl e, s) \<Rightarrow> mark_error R (rr_id row) e s
      | (Inr _, s) \<Rightarrow>
          update_row (rr_id row) (\<lambda>r. r\<lparr>rr_status := (if rr_direction row = Inbound then MintSubmitted else ReleaseSubmitted),
            rr_updated := now, rr_last_error := []\<rparr>) s)"

definition complete_row ::
    "('w, 'a) relayer_ext_scheme \<Rightarrow> string \<Rightarrow> 'w relayer \<Rightarrow> 'w relayer" where
  "complete_row R i s =
     (case relay_time R s of (now, s) \<Rightarrow> update_row i (\<lambda>r. r\<lparr>rr_status := Completed, rr_updated := now\<rparr>) s)"

definition follow_row ::
    "('w, 'a) relayer_ext_scheme \<Rightarrow> relayer_config \<Rightarrow> relay_row \<Rightarrow> 'w relayer \<Rightarrow> 'w relayer" where
  "follow_row R C row s =
     (if rr_direction row = Outbound then complete_row R (rr_id row) s
      else case try_then (relay_rpc R (rc_wsc_rpc_url C) ''bridge_operation_status''
                  (JObj [(''operation_id'', JStr (rr_id row))]) s) (\<lambda>result s. (py_get result ''status'' JNull, s)) of
        (Inl e, s) \<Rightarrow> mark_error R (rr_id row) e s
      | (Inr status, s) \<Rightarrow> if status = JStr ''confirmed'' then complete_row R (rr_id row) s else s)"

definition process_operations ::
    "('w, 'a) relayer_ext_scheme \<Rightarrow> relayer_config \<Rightarrow> 'w relayer \<Rightarrow> 'w relayer" where
  "process_operations R C s =
     (case relay_time R s of (now, s) \<Rightarrow>
        let s1 = fold (submit_row R C now) (due_rows now (rl_operations s)) s
        in fold (follow_row R C) (filter (\<lambda>row. rr_status row \<in> {MintSubmitted, ReleaseSubmitted}) (rl_operations s1)) s1)"

section \<open>The loop\<close>

definition eth_cursor ::
    "('w, 'a) relayer_ext_scheme \<Rightarrow> relayer_config \<Rightarrow> 'w relayer \<Rightarrow> (string + int) \<times> 'w relayer" where
  "eth_cursor R C s =
     (case rl_eth_cursor s of
        Some v \<Rightarrow> (Ok v, s)
      | None \<Rightarrow>
          try_then (case rc_start_block C of
                      Some v \<Rightarrow> (Ok v, s)
                    | None \<Rightarrow> try_then (relay_rpc R (rc_eth_rpc_url C) ''eth_blockNumber'' (JArr []) s) (\<lambda>v s. (hex_int v, s))) (\<lambda>v s.
            (Ok v, s\<lparr>rl_eth_cursor := Some v\<rparr>)))"

definition scan_ethereum ::
    "('w, 'a) relayer_ext_scheme \<Rightarrow> relayer_config \<Rightarrow> 'w relayer \<Rightarrow> (string + unit) \<times> 'w relayer" where
  "scan_ethereum R C s =
     try_then (try_then (relay_rpc R (rc_eth_rpc_url C) ''eth_blockNumber'' (JArr []) s) (\<lambda>v s. (hex_int v, s))) (\<lambda>tip s.
     try_then (eth_cursor R C s) (\<lambda>previous s.
       let safe_tip = tip - rc_confirmations C in
       if safe_tip < previous then (Ok (), s)
       else try_then (discover_deposits R C previous safe_tip s) (\<lambda>_ s.
            (Ok (), s\<lparr>rl_eth_cursor := Some (safe_tip + 1)\<rparr>))))"

text \<open>One round of \<open>main\<close>; its exception is logged and the next round begins.\<close>

definition relay_round ::
    "('w, 'a) relayer_ext_scheme \<Rightarrow> relayer_config \<Rightarrow> 'w relayer \<Rightarrow> (string + unit) \<times> 'w relayer" where
  "relay_round R C s =
     try_then (scan_ethereum R C s) (\<lambda>_ s.
     try_then (discover_solana_deposits R C s) (\<lambda>_ s.
     try_then (discover_burns R C s) (\<lambda>_ s.
       (Ok (), process_operations R C s))))"

end
