(* ===== verification/Ethereum_Bridge.thy ===== *)
theory Ethereum_Bridge
  imports Prelude
begin

text \<open>
  \<open>contracts/ethereum/IntertrainWethBridge.sol\<close>: the escrow that holds the ether behind wrapped ether. A
  call that reverts leaves the world as it was. \<open>release\<close> hands control to the recipient, who may call
  the bridge again before the release returns: what the recipient then does is a tree of further
  calls (\<open>reaction\<close>), and the properties hold for every such tree.
\<close>

section \<open>The contract\<close>

type_synonym eth_address = "160 word"
type_synonym u256 = "256 word"
type_synonym bytes32 = "256 word"

record weth_bridge =
  wb_relayer :: eth_address
  wb_deposits :: "bytes32 \<Rightarrow> bool"
  wb_releases :: "bytes32 \<Rightarrow> bool"

datatype bridge_event = Deposit bytes32 eth_address u256 string | Release bytes32 eth_address u256

text \<open>The balances of all accounts, the storage of the bridge and the events it has emitted.\<close>

record eth_world =
  ew_balance :: "eth_address \<Rightarrow> nat"
  ew_bridge :: weth_bridge
  ew_events :: "bridge_event list"

datatype weth_function = WethDeposit bytes32 string | WethRelease bytes32 eth_address u256 | WethReceive

record weth_call =
  wc_sender :: eth_address
  wc_value :: u256
  wc_function :: weth_function

text \<open>
  What code that receives ether does before it returns: calls of the bridge, each with what its own
  recipient does in turn, and payments between others; and whether it returns or reverts.
\<close>

datatype reaction = Reaction "reaction_step list" bool
  and reaction_step = CallBridge weth_call reaction | PayOther eth_address eth_address nat

definition pay :: "eth_address \<Rightarrow> eth_address \<Rightarrow> nat \<Rightarrow> eth_world \<Rightarrow> eth_world option" where
  "pay from payee v w =
     (if ew_balance w from < v then None
      else let b = (ew_balance w)(from := ew_balance w from - v)
           in Some (w\<lparr>ew_balance := b(payee := b payee + v)\<rparr>))"

definition weth_constructor :: "eth_address \<Rightarrow> string + weth_bridge" where
  "weth_constructor relayer =
     (if relayer = 0 then Err ''zero relayer''
      else Ok \<lparr>wb_relayer = relayer, wb_deposits = (\<lambda>_. False), wb_releases = (\<lambda>_. False)\<rparr>)"

definition emit :: "bridge_event \<Rightarrow> eth_world \<Rightarrow> eth_world" where
  "emit e w = w\<lparr>ew_events := ew_events w @ [e]\<rparr>"

definition weth_deposit :: "eth_address \<Rightarrow> u256 \<Rightarrow> bytes32 \<Rightarrow> string \<Rightarrow> eth_world \<Rightarrow> string + eth_world" where
  "weth_deposit sender v deposit_id destination w =
     (if v = 0 then Err ''zero value''
      else if wb_deposits (ew_bridge w) deposit_id then Err ''deposit used''
      else Ok (emit (Deposit deposit_id sender v destination)
             (w\<lparr>ew_bridge := (ew_bridge w)\<lparr>wb_deposits := (wb_deposits (ew_bridge w))(deposit_id := True)\<rparr>\<rparr>)))"

text \<open>\<open>release\<close> up to the call of the recipient.\<close>

definition weth_release_checks ::
    "eth_address \<Rightarrow> eth_address \<Rightarrow> bytes32 \<Rightarrow> eth_address \<Rightarrow> u256 \<Rightarrow> eth_world \<Rightarrow> string + eth_world" where
  "weth_release_checks self sender burn_id recipient amount w =
     (if sender \<noteq> wb_relayer (ew_bridge w) then Err ''not relayer''
      else if wb_releases (ew_bridge w) burn_id then Err ''release used''
      else if recipient = 0 \<or> amount = 0 then Err ''invalid release''
      else if ew_balance w self < unat amount then Err ''insufficient reserve''
      else Ok (w\<lparr>ew_bridge := (ew_bridge w)\<lparr>wb_releases := (wb_releases (ew_bridge w))(burn_id := True)\<rparr>\<rparr>))"

text \<open>
  A call of the bridge: the value moves first; only \<open>deposit\<close> and \<open>receive\<close> take any. When the recipient of a
  release is the bridge itself its code is \<open>receive\<close>, which does nothing. No other code acts under the
  address of the bridge.
\<close>

fun weth_execute :: "eth_address \<Rightarrow> weth_call \<Rightarrow> reaction \<Rightarrow> eth_world \<Rightarrow> string + eth_world"
  and react_all :: "eth_address \<Rightarrow> reaction_step list \<Rightarrow> eth_world \<Rightarrow> eth_world" where
  "weth_execute self call (Reaction steps returns) w =
     (case pay (wc_sender call) self (unat (wc_value call)) w of
        None \<Rightarrow> Err ''insufficient balance''
      | Some w1 \<Rightarrow>
          (case wc_function call of
             WethReceive \<Rightarrow> Ok w1
           | WethDeposit deposit_id destination \<Rightarrow> weth_deposit (wc_sender call) (wc_value call) deposit_id destination w1
           | WethRelease burn_id recipient amount \<Rightarrow>
               if wc_value call \<noteq> 0 then Err []
               else (case weth_release_checks self (wc_sender call) burn_id recipient amount w1 of
                 Inl e \<Rightarrow> Err e
               | Inr w2 \<Rightarrow>
                   (case pay self recipient (unat amount) w2 of
                      None \<Rightarrow> Err ''release failed''
                    | Some w3 \<Rightarrow>
                        if recipient = self then Ok (emit (Release burn_id recipient amount) w3)
                        else if \<not> returns then Err ''release failed''
                        else Ok (emit (Release burn_id recipient amount) (react_all self steps w3))))))"
| "react_all self [] w = w"
| "react_all self (PayOther from payee v # steps) w =
     react_all self steps (if from = self then w else case pay from payee v w of None \<Rightarrow> w | Some w' \<Rightarrow> w')"
| "react_all self (CallBridge call r # steps) w =
     react_all self steps
       (if wc_sender call = self then w else case weth_execute self call r w of Inl _ \<Rightarrow> w | Inr w' \<Rightarrow> w')"

section \<open>What the escrow holds\<close>

primrec deposit_of :: "bridge_event \<Rightarrow> nat" where
  "deposit_of (Deposit i sender v destination) = unat v"
| "deposit_of (Release i recipient v) = 0"

primrec release_of :: "bridge_event \<Rightarrow> nat" where
  "release_of (Deposit i sender v destination) = 0"
| "release_of (Release i recipient v) = unat v"

definition deposited :: "bridge_event list \<Rightarrow> nat" where
  "deposited es = sum_list (map deposit_of es)"

definition released :: "bridge_event list \<Rightarrow> nat" where
  "released es = sum_list (map release_of es)"

fun deposit_ids :: "bridge_event list \<Rightarrow> bytes32 list" where
  "deposit_ids [] = []"
| "deposit_ids (Deposit i _ _ _ # es) = i # deposit_ids es"
| "deposit_ids (_ # es) = deposit_ids es"

fun release_ids :: "bridge_event list \<Rightarrow> bytes32 list" where
  "release_ids [] = []"
| "release_ids (Release i _ _ # es) = i # release_ids es"
| "release_ids (_ # es) = release_ids es"

lemma ids_append [simp]:
  "deposit_ids (es @ es') = deposit_ids es @ deposit_ids es'" "release_ids (es @ es') = release_ids es @ release_ids es'"
  by (induction es rule: deposit_ids.induct; simp) (induction es rule: release_ids.induct; simp)

lemma sums_append [simp]:
  "deposited [] = 0" "released [] = 0" "deposited (es @ es') = deposited es + deposited es'"
  "released (es @ es') = released es + released es'"
  by (simp_all add: deposited_def released_def)

text \<open>
  What any call does to the escrow: events are only added, the balance changes by at least deposits
  less releases, and an identifier is marked exactly when its event is emitted, once.
\<close>

definition accounts_for :: "eth_address \<Rightarrow> eth_world \<Rightarrow> bridge_event list \<Rightarrow> eth_world \<Rightarrow> bool" where
  "accounts_for self w es w' \<longleftrightarrow>
     ew_events w' = ew_events w @ es \<and> wb_relayer (ew_bridge w') = wb_relayer (ew_bridge w) \<and>
     ew_balance w self + deposited es \<le> ew_balance w' self + released es \<and>
     distinct (deposit_ids es) \<and> distinct (release_ids es) \<and>
     (\<forall>i \<in> set (deposit_ids es). \<not> wb_deposits (ew_bridge w) i) \<and>
     (\<forall>i \<in> set (release_ids es). \<not> wb_releases (ew_bridge w) i) \<and>
     (\<forall>i. wb_deposits (ew_bridge w') i \<longleftrightarrow> wb_deposits (ew_bridge w) i \<or> i \<in> set (deposit_ids es)) \<and>
     (\<forall>i. wb_releases (ew_bridge w') i \<longleftrightarrow> wb_releases (ew_bridge w) i \<or> i \<in> set (release_ids es))"

lemma accounts_refl: "accounts_for self w [] w"
  by (simp add: accounts_for_def)

lemma accounts_trans:
  assumes "accounts_for self w es w'" and "accounts_for self w' es' w''"
  shows "accounts_for self w (es @ es') w''"
  using assms by (auto simp: accounts_for_def)

lemma pay_other:
  assumes "pay from payee v w = Some w'" and "from \<noteq> self"
  shows "accounts_for self w [] w'" and "payee = self \<Longrightarrow> ew_balance w' self = ew_balance w self + v"
  using assms by (auto simp: pay_def accounts_for_def Let_def split: if_splits)

lemma deposit_accounts:
  assumes "weth_deposit sender v i d w = Ok w'" and "ew_balance w self = ew_balance w0 self + unat v"
    and "ew_bridge w = ew_bridge w0" and "ew_events w = ew_events w0"
  shows "accounts_for self w0 [Deposit i sender v d] w'"
  using assms by (auto simp: weth_deposit_def accounts_for_def emit_def deposited_def released_def split: if_splits)

text \<open>The step of a release before the recipient is called, and its event afterwards.\<close>

lemma release_accounts:
  assumes "weth_release_checks self sender i recipient v w = Ok w2" and "pay self recipient (unat v) w2 = Some w3"
    and "recipient \<noteq> self" and "accounts_for self w3 es w4"
  shows "accounts_for self w (es @ [Release i recipient v]) (emit (Release i recipient v) w4)"
proof -
  have w3: "ew_events w3 = ew_events w" "wb_relayer (ew_bridge w3) = wb_relayer (ew_bridge w)"
    "wb_deposits (ew_bridge w3) = wb_deposits (ew_bridge w)"
    "wb_releases (ew_bridge w3) = (wb_releases (ew_bridge w))(i := True)" "\<not> wb_releases (ew_bridge w) i"
    "ew_balance w3 self + unat v = ew_balance w self"
    using assms(1-3) by (auto simp: weth_release_checks_def pay_def Let_def split: if_splits)
  then show ?thesis
    using assms(4) by (auto simp: accounts_for_def emit_def deposited_def released_def split: if_splits)
qed

lemma self_release_accounts:
  assumes "weth_release_checks self sender i self v w = Ok w2" and "pay self self (unat v) w2 = Some w3"
  shows "accounts_for self w [Release i self v] (emit (Release i self v) w3)"
  using assms
  by (auto simp: weth_release_checks_def pay_def Let_def accounts_for_def emit_def deposited_def released_def split: if_splits)

lemma execute_accounts:
  "weth_execute self c r w = Ok w' \<Longrightarrow> wc_sender c \<noteq> self \<Longrightarrow> \<exists>es. accounts_for self w es w'"
  "\<exists>es. accounts_for self w es (react_all self steps w)"
proof (induction self c r w and self steps w arbitrary: w' rule: weth_execute_react_all.induct)
  case (1 self call steps returns w)
  obtain w1 where paid: "pay (wc_sender call) self (unat (wc_value call)) w = Some w1"
    using "1.prems"(1) by (auto split: option.splits)
  note w1 = pay_other [OF paid "1.prems"(2)]
  show ?case
  proof (cases "wc_function call")
    case WethReceive
    then show ?thesis using "1.prems"(1) paid w1 by auto
  next
    case (WethDeposit i d)
    have "ew_balance w1 self = ew_balance w self + unat (wc_value call)" "ew_bridge w1 = ew_bridge w" "ew_events w1 = ew_events w"
      using w1(2) paid by (auto simp: pay_def Let_def split: if_splits)
    then show ?thesis using WethDeposit "1.prems"(1) paid deposit_accounts by fastforce
  next
    case (WethRelease i recipient v)
    then obtain w2 w3 where checks: "weth_release_checks self (wc_sender call) i recipient v w1 = Ok w2"
      and sent: "pay self recipient (unat v) w2 = Some w3" and zero: "wc_value call = 0"
      using "1.prems"(1) paid by (auto split: if_splits sum.splits option.splits)
    show ?thesis
    proof (cases "recipient = self")
      case True
      then show ?thesis
        using self_release_accounts checks sent accounts_trans [OF w1(1)] WethRelease "1.prems"(1) paid zero by fastforce
    next
      case False
      then have w': "w' = emit (Release i recipient v) (react_all self steps w3)"
        using WethRelease "1.prems"(1) paid zero checks sent by (auto split: if_splits)
      obtain es where "accounts_for self w3 es (react_all self steps w3)"
        using "1.IH" [OF paid WethRelease _ checks sent False] zero False WethRelease "1.prems"(1) paid checks sent
        by (auto split: if_splits)
      then have "accounts_for self w1 (es @ [Release i recipient v]) w'"
        using release_accounts [OF checks sent False] w' by simp
      then show ?thesis using accounts_trans [OF w1(1)] by blast
    qed
  qed
next
  case (2 self w)
  then show ?case using accounts_refl by auto
next
  case (3 self payer payee v steps w)
  let ?w = "if payer = self then w else case pay payer payee v w of None \<Rightarrow> w | Some w' \<Rightarrow> w'"
  have "accounts_for self w [] ?w" using pay_other accounts_refl by (auto split: option.split)
  then show ?case using 3 accounts_trans by fastforce
next
  case (4 self call r steps w)
  let ?w = "if wc_sender call = self then w else case weth_execute self call r w of Inl _ \<Rightarrow> w | Inr w' \<Rightarrow> w'"
  have "\<exists>es. accounts_for self w es ?w"
    using "4.IH"(1) accounts_refl [of self w] by (cases "weth_execute self call r w") auto
  then show ?case using "4.IH"(2) accounts_trans by fastforce
qed

text \<open>Whether an address is the sender of a call of the bridge, at any depth.\<close>

fun called_by :: "eth_address \<Rightarrow> reaction_step list \<Rightarrow> bool" where
  "called_by a [] = False"
| "called_by a (PayOther payer payee v # steps) = called_by a steps"
| "called_by a (CallBridge call (Reaction steps' returns) # steps) =
     (wc_sender call = a \<or> called_by a steps' \<or> called_by a steps)"

lemma no_relayer_no_release:
  "weth_execute self c r w = Ok w' \<Longrightarrow> \<not> called_by (wb_relayer (ew_bridge w)) [CallBridge c r] \<Longrightarrow>
     release_ids (ew_events w') = release_ids (ew_events w) \<and> wb_relayer (ew_bridge w') = wb_relayer (ew_bridge w)"
  "\<not> called_by (wb_relayer (ew_bridge w)) steps \<Longrightarrow>
     release_ids (ew_events (react_all self steps w)) = release_ids (ew_events w) \<and>
     wb_relayer (ew_bridge (react_all self steps w)) = wb_relayer (ew_bridge w)"
proof (induction self c r w and self steps w arbitrary: w' and rule: weth_execute_react_all.induct)
  case (1 self call steps returns w)
  then show ?case
    by (auto simp: pay_def weth_deposit_def weth_release_checks_def emit_def Let_def
        split: weth_function.splits if_splits option.splits sum.splits)
next
  case (4 self call r steps w)
  obtain steps' returns where r: "r = Reaction steps' returns" by (cases r)
  show ?case
  proof (cases "wc_sender call = self \<or> (\<exists>e. weth_execute self call r w = Err e)")
    case True
    then show ?thesis using 4 r by auto
  next
    case False
    then obtain w' where "weth_execute self call r w = Ok w'" by (cases "weth_execute self call r w") auto
    then show ?thesis using 4 r False by auto
  qed
qed (auto simp: pay_def Let_def split: option.split)

text \<open>
  C37. The history of the chain after the deployment is a list of steps, each a transaction or a payment.
  In every history, and whatever the recipients of releases do, the escrow holds at least what was deposited
  less what was released, no identifier is deposited or released twice, and nothing is released if
  the relayer never calls.
\<close>

theorem escrow_covers_deposits:
  assumes "weth_constructor relayer = Ok b" and "w0 = \<lparr>ew_balance = balances, ew_bridge = b, ew_events = []\<rparr>"
    and "w = react_all self steps w0"
  shows "balances self + deposited (ew_events w) \<le> ew_balance w self + released (ew_events w) \<and>
    distinct (deposit_ids (ew_events w)) \<and> distinct (release_ids (ew_events w)) \<and>
    (\<not> called_by relayer steps \<longrightarrow> release_ids (ew_events w) = [])"
proof -
  obtain es where "accounts_for self w0 es w" using execute_accounts(2) assms(3) by blast
  moreover have "wb_relayer b = relayer" using assms(1) by (auto simp: weth_constructor_def split: if_splits)
  then have "\<not> called_by relayer steps \<Longrightarrow> release_ids (ew_events w) = []"
    using no_relayer_no_release(2) [of w0 steps self] assms(2,3) by simp
  ultimately show ?thesis by (auto simp: accounts_for_def assms(2))
qed

definition toy_thief :: reaction where
  "toy_thief = Reaction [CallBridge \<lparr>wc_sender = 9, wc_value = 0, wc_function = WethRelease 2 9 5\<rparr> (Reaction [] True)] True"

definition toy_history :: "reaction_step list" where
  "toy_history =
     [CallBridge \<lparr>wc_sender = 7, wc_value = 10, wc_function = WethDeposit 1 ''wsc1x''\<rparr> (Reaction [] True),
      CallBridge \<lparr>wc_sender = 3, wc_value = 0, wc_function = WethRelease 2 9 5\<rparr> toy_thief]"

theorem escrow_covers_deposits_witness:
  "ew_events (react_all 1 toy_history \<lparr>ew_balance = (\<lambda>_. 100), ew_bridge =
      \<lparr>wb_relayer = 3, wb_deposits = (\<lambda>_. False), wb_releases = (\<lambda>_. False)\<rparr>, ew_events = []\<rparr>) =
     [Deposit 1 7 10 ''wsc1x'', Release 2 9 5] \<and>
   distinct (release_ids (ew_events (react_all 1 toy_history \<lparr>ew_balance = (\<lambda>_. 100), ew_bridge =
      \<lparr>wb_relayer = 3, wb_deposits = (\<lambda>_. False), wb_releases = (\<lambda>_. False)\<rparr>, ew_events = []\<rparr>)))"
  using escrow_covers_deposits [of 3 _ _ "\<lambda>_. 100" _ 1 toy_history]
  by (simp add: weth_constructor_def)
    (simp add: toy_history_def toy_thief_def pay_def weth_deposit_def weth_release_checks_def emit_def Let_def)

end
