(* ===== verification/Ethereum_Reserve.thy ===== *)
theory Ethereum_Reserve
  imports Ethereum_Bridge
begin

text \<open>
  \<open>contracts/ethereum/IntertrainUsdcReserve.sol\<close>: the escrow of USDC behind the reserve. The token is code
  outside the repository: a parameter over its own state, of which the properties use what ERC-20
  says of a transfer that returns true. It does not call the reserve back. The functions take no ether.
\<close>

section \<open>The token\<close>

record 't erc20_ext =
  x_transfer_from :: "eth_address \<Rightarrow> eth_address \<Rightarrow> eth_address \<Rightarrow> u256 \<Rightarrow> 't \<Rightarrow> (bool \<times> 't) option"
  x_token_transfer :: "eth_address \<Rightarrow> eth_address \<Rightarrow> u256 \<Rightarrow> 't \<Rightarrow> (bool \<times> 't) option"
  x_balance_of :: "eth_address \<Rightarrow> 't \<Rightarrow> u256"

text \<open>\<open>None\<close> is a call that reverts. A transfer that returns true has moved the value.\<close>

definition moved :: "('t, 'a) erc20_ext_scheme \<Rightarrow> eth_address \<Rightarrow> eth_address \<Rightarrow> u256 \<Rightarrow> 't \<Rightarrow> 't \<Rightarrow> bool" where
  "moved T payer payee v t t' \<longleftrightarrow>
     v \<le> x_balance_of T payer t \<and>
     (payer \<noteq> payee \<longrightarrow>
        unat (x_balance_of T payer t) = unat (x_balance_of T payer t') + unat v \<and>
        unat (x_balance_of T payee t') = unat (x_balance_of T payee t) + unat v) \<and>
     (payer = payee \<longrightarrow> x_balance_of T payer t' = x_balance_of T payer t)"

definition erc20_ok :: "('t, 'a) erc20_ext_scheme \<Rightarrow> bool" where
  "erc20_ok T \<longleftrightarrow>
     (\<forall>caller payer payee v t t'. x_transfer_from T caller payer payee v t = Some (True, t') \<longrightarrow> moved T payer payee v t t') \<and>
     (\<forall>payer payee v t t'. x_token_transfer T payer payee v t = Some (True, t') \<longrightarrow> moved T payer payee v t t')"

section \<open>The contract\<close>

record usdc_reserve =
  ur_usdc :: eth_address
  ur_owner :: eth_address
  ur_relayer :: eth_address
  ur_paused :: bool
  ur_deposits :: "bytes32 \<Rightarrow> bool"
  ur_releases :: "bytes32 \<Rightarrow> bool"

datatype reserve_event =
    Escrow bridge_event | RelayerUpdated eth_address eth_address | Paused eth_address | Unpaused eth_address

record 't reserve_world =
  rw_reserve :: usdc_reserve
  rw_token :: 't
  rw_events :: "reserve_event list"

datatype reserve_function =
    ReserveDeposit bytes32 u256 string | ReserveRelease bytes32 eth_address u256
  | SetRelayer eth_address | Pause | Unpause

definition reserve_constructor :: "eth_address \<Rightarrow> eth_address \<Rightarrow> eth_address \<Rightarrow> string + usdc_reserve" where
  "reserve_constructor sender usdc relayer =
     (if usdc = 0 \<or> relayer = 0 then Err ''zero address''
      else Ok \<lparr>ur_usdc = usdc, ur_owner = sender, ur_relayer = relayer, ur_paused = False,
              ur_deposits = (\<lambda>_. False), ur_releases = (\<lambda>_. False)\<rparr>)"

definition log_event :: "reserve_event \<Rightarrow> 't reserve_world \<Rightarrow> 't reserve_world" where
  "log_event e w = w\<lparr>rw_events := rw_events w @ [e]\<rparr>"

text \<open>The return value of a call of the token, as \<open>require\<close> takes it.\<close>

definition require_true :: "(bool \<times> 't) option \<Rightarrow> string \<Rightarrow> string + 't" where
  "require_true r message =
     (case r of None \<Rightarrow> Err [] | Some (ok, t) \<Rightarrow> if ok then Ok t else Err message)"

definition reserve_deposit ::
    "('t, 'a) erc20_ext_scheme \<Rightarrow> eth_address \<Rightarrow> eth_address \<Rightarrow> bytes32 \<Rightarrow> u256 \<Rightarrow> string \<Rightarrow> 't reserve_world \<Rightarrow>
     string + 't reserve_world" where
  "reserve_deposit T self sender deposit_id amount destination w =
     (let r = rw_reserve w in
      if ur_paused r then Err ''paused''
      else if amount = 0 \<or> destination = [] then Err ''invalid deposit''
      else if ur_deposits r deposit_id then Err ''deposit used''
      else case require_true (x_transfer_from T self sender self amount (rw_token w)) ''transferFrom failed'' of
        Inl e \<Rightarrow> Err e
      | Inr t \<Rightarrow>
          Ok (log_event (Escrow (Deposit deposit_id sender amount destination))
            (w\<lparr>rw_reserve := r\<lparr>ur_deposits := (ur_deposits r)(deposit_id := True)\<rparr>, rw_token := t\<rparr>)))"

definition reserve_release ::
    "('t, 'a) erc20_ext_scheme \<Rightarrow> eth_address \<Rightarrow> eth_address \<Rightarrow> bytes32 \<Rightarrow> eth_address \<Rightarrow> u256 \<Rightarrow> 't reserve_world \<Rightarrow>
     string + 't reserve_world" where
  "reserve_release T self sender burn_id recipient amount w =
     (let r = rw_reserve w in
      if sender \<noteq> ur_relayer r then Err ''not relayer''
      else if ur_paused r then Err ''paused''
      else if ur_releases r burn_id then Err ''release used''
      else if recipient = 0 \<or> amount = 0 then Err ''invalid release''
      else if x_balance_of T self (rw_token w) < amount then Err ''insufficient reserve''
      else case require_true (x_token_transfer T self recipient amount (rw_token w)) ''transfer failed'' of
        Inl e \<Rightarrow> Err e
      | Inr t \<Rightarrow>
          Ok (log_event (Escrow (Release burn_id recipient amount))
            (w\<lparr>rw_reserve := r\<lparr>ur_releases := (ur_releases r)(burn_id := True)\<rparr>, rw_token := t\<rparr>)))"

definition only_owner :: "eth_address \<Rightarrow> 't reserve_world \<Rightarrow> 't reserve_world \<Rightarrow> string + 't reserve_world" where
  "only_owner sender w w' = (if sender \<noteq> ur_owner (rw_reserve w) then Err ''not owner'' else Ok w')"

definition set_relayer :: "eth_address \<Rightarrow> eth_address \<Rightarrow> 't reserve_world \<Rightarrow> string + 't reserve_world" where
  "set_relayer sender new_relayer w =
     (case only_owner sender w w of
        Inl e \<Rightarrow> Err e
      | Inr w \<Rightarrow>
          if new_relayer = 0 then Err ''zero relayer''
          else Ok (log_event (RelayerUpdated (ur_relayer (rw_reserve w)) new_relayer) w
                 \<lparr>rw_reserve := (rw_reserve w)\<lparr>ur_relayer := new_relayer\<rparr>\<rparr>))"

definition pause :: "eth_address \<Rightarrow> 't reserve_world \<Rightarrow> string + 't reserve_world" where
  "pause sender w =
     only_owner sender w (log_event (Paused sender) (w\<lparr>rw_reserve := (rw_reserve w)\<lparr>ur_paused := True\<rparr>\<rparr>))"

definition unpause :: "eth_address \<Rightarrow> 't reserve_world \<Rightarrow> string + 't reserve_world" where
  "unpause sender w =
     only_owner sender w (log_event (Unpaused sender) (w\<lparr>rw_reserve := (rw_reserve w)\<lparr>ur_paused := False\<rparr>\<rparr>))"

definition reserve_execute ::
    "('t, 'a) erc20_ext_scheme \<Rightarrow> eth_address \<Rightarrow> eth_address \<Rightarrow> reserve_function \<Rightarrow> 't reserve_world \<Rightarrow>
     string + 't reserve_world" where
  "reserve_execute T self sender f w =
     (case f of
        ReserveDeposit i amount destination \<Rightarrow> reserve_deposit T self sender i amount destination w
      | ReserveRelease i recipient amount \<Rightarrow> reserve_release T self sender i recipient amount w
      | SetRelayer a \<Rightarrow> set_relayer sender a w
      | Pause \<Rightarrow> pause sender w
      | Unpause \<Rightarrow> unpause sender w)"

section \<open>What the reserve holds\<close>

text \<open>
  The history after the deployment: calls by others, and steps of the token in which the reserve's
  balance does not fall, as it approves nobody.
\<close>

inductive reserve_reach ::
    "('t, 'a) erc20_ext_scheme \<Rightarrow> eth_address \<Rightarrow> 't reserve_world \<Rightarrow> 't reserve_world \<Rightarrow> bool"
  for T self w0 where
  deployed: "reserve_reach T self w0 w0"
| reserve_call: "reserve_reach T self w0 w \<Longrightarrow> sender \<noteq> self \<Longrightarrow> reserve_execute T self sender f w = Ok w' \<Longrightarrow>
    reserve_reach T self w0 w'"
| token_step: "reserve_reach T self w0 w \<Longrightarrow> x_balance_of T self (rw_token w) \<le> x_balance_of T self t \<Longrightarrow>
    reserve_reach T self w0 (w\<lparr>rw_token := t\<rparr>)"

fun escrow_events :: "reserve_event list \<Rightarrow> bridge_event list" where
  "escrow_events [] = []"
| "escrow_events (Escrow e # es) = e # escrow_events es"
| "escrow_events (_ # es) = escrow_events es"

lemma escrow_append [simp]: "escrow_events (es @ es') = escrow_events es @ escrow_events es'"
  by (induction es rule: escrow_events.induct) simp_all

definition reserve_ok :: "('t, 'a) erc20_ext_scheme \<Rightarrow> eth_address \<Rightarrow> nat \<Rightarrow> 't reserve_world \<Rightarrow> bool" where
  "reserve_ok T self held w \<longleftrightarrow>
     (let es = escrow_events (rw_events w); r = rw_reserve w in
      held + deposited es \<le> unat (x_balance_of T self (rw_token w)) + released es \<and>
      distinct (deposit_ids es) \<and> distinct (release_ids es) \<and>
      (\<forall>i. ur_deposits r i \<longleftrightarrow> i \<in> set (deposit_ids es)) \<and> (\<forall>i. ur_releases r i \<longleftrightarrow> i \<in> set (release_ids es)))"

lemma deposit_keeps:
  assumes "erc20_ok T" and "reserve_ok T self held w" and "sender \<noteq> self" and "reserve_deposit T self sender i v d w = Ok w'"
  shows "reserve_ok T self held w'"
proof -
  obtain t where "x_transfer_from T self sender self v (rw_token w) = Some (True, t)"
    and used: "\<not> ur_deposits (rw_reserve w) i"
    and w': "w' = log_event (Escrow (Deposit i sender v d))
      (w\<lparr>rw_reserve := (rw_reserve w)\<lparr>ur_deposits := (ur_deposits (rw_reserve w))(i := True)\<rparr>, rw_token := t\<rparr>)"
    using assms(4) by (auto simp: reserve_deposit_def require_true_def Let_def split: if_splits sum.splits option.splits)
  then have "unat (x_balance_of T self t) = unat (x_balance_of T self (rw_token w)) + unat v"
    using assms(1,3) unfolding erc20_ok_def moved_def by blast
  then show ?thesis
    using assms(2) used by (auto simp: w' reserve_ok_def log_event_def Let_def deposited_def released_def)
qed

lemma release_keeps:
  assumes "erc20_ok T" and "reserve_ok T self held w" and "reserve_release T self sender i recipient v w = Ok w'"
  shows "reserve_ok T self held w'"
proof -
  obtain t where "x_token_transfer T self recipient v (rw_token w) = Some (True, t)"
    and used: "\<not> ur_releases (rw_reserve w) i"
    and w': "w' = log_event (Escrow (Release i recipient v))
      (w\<lparr>rw_reserve := (rw_reserve w)\<lparr>ur_releases := (ur_releases (rw_reserve w))(i := True)\<rparr>, rw_token := t\<rparr>)"
    using assms(3) by (auto simp: reserve_release_def require_true_def Let_def split: if_splits sum.splits option.splits)
  then have "moved T self recipient v (rw_token w) t" using assms(1) unfolding erc20_ok_def by blast
  then have "unat (x_balance_of T self (rw_token w)) \<le> unat (x_balance_of T self t) + unat v"
    by (cases "self = recipient") (auto simp: moved_def)
  then show ?thesis
    using assms(2) used by (auto simp: w' reserve_ok_def log_event_def Let_def deposited_def released_def)
qed

lemma administration_keeps:
  assumes "reserve_ok T self held w" and "reserve_execute T self sender f w = Ok w'" and "f \<in> {SetRelayer a, Pause, Unpause}"
  shows "reserve_ok T self held w'"
  using assms
  by (auto simp: reserve_execute_def set_relayer_def pause_def unpause_def only_owner_def log_event_def reserve_ok_def Let_def
      split: if_splits sum.splits)

theorem reserve_covers_deposits:
  assumes "erc20_ok T" and "reserve_constructor owner usdc relayer = Ok r"
    and "reserve_reach T self \<lparr>rw_reserve = r, rw_token = t0, rw_events = []\<rparr> w"
  shows "unat (x_balance_of T self t0) + deposited (escrow_events (rw_events w)) \<le>
      unat (x_balance_of T self (rw_token w)) + released (escrow_events (rw_events w)) \<and>
    distinct (deposit_ids (escrow_events (rw_events w))) \<and> distinct (release_ids (escrow_events (rw_events w)))"
proof -
  have "reserve_ok T self (unat (x_balance_of T self t0)) w"
    using assms(3)
  proof induction
    case deployed
    then show ?case using assms(2) by (auto simp: reserve_constructor_def reserve_ok_def Let_def split: if_splits)
  next
    case (reserve_call w sender f w')
    show ?case
    proof (cases f)
      case (ReserveDeposit i v d)
      then show ?thesis using reserve_call deposit_keeps [OF assms(1)] by (simp add: reserve_execute_def)
    next
      case (ReserveRelease i recipient v)
      then show ?thesis using reserve_call release_keeps [OF assms(1)] by (simp add: reserve_execute_def)
    qed (use reserve_call administration_keeps in \<open>blast intro: reserve_call.IH\<close>)+
  next
    case (token_step w t)
    then show ?case by (auto simp: reserve_ok_def Let_def word_le_nat_alt)
  qed
  then show ?thesis by (simp add: reserve_ok_def Let_def)
qed

end
