(* ===== verification/Relayer_Events.thy ===== *)
theory Relayer_Events
  imports Relayer Ethereum_Reserve
begin

text \<open>
  How the relayer reads the events of the two contracts: the data of an event, as Solidity encodes it, is
  decoded to the amount and the destination when the bytes of the destination are UTF-8, and raises
  otherwise, which nothing in the contracts prevents.
\<close>

section \<open>Hexadecimal numbers\<close>

lemma hex_string_append: "hex_string (as @ bs) = hex_string as @ hex_string bs"
  by (simp add: hex_string_def)

lemma byte_nibbles: "unat (b :: byte) div 16 < 16" "unat b mod 16 < 16"
  using unat_less [of b] by simp_all

lemma hex_string_digits: "c \<in> set (hex_string bs) \<Longrightarrow> \<exists>d < 16. c = hex_digit d"
proof (induction bs)
  case (Cons b bs)
  then show ?case using byte_nibbles [of b] by (auto simp: hex_byte_def simp del: mod_less_divisor)
qed (simp add: hex_string_def)

text \<open>A hexadecimal digit is no white space, sign, underscore or prefix.\<close>

lemma hex_digit_plain:
  "d < 16 \<Longrightarrow> hex_digit d \<notin> {CHR ''-'', CHR ''+'', CHR ''_'', CHR ''x'', CHR ''X''}"
proof
  assume "d < 16" and "hex_digit d \<in> {CHR ''-'', CHR ''+'', CHR ''_'', CHR ''x'', CHR ''X''}"
  then have "(of_char (hex_digit d) :: nat) \<in> {45, 43, 95, 120, 88}" by auto
  then show False using \<open>d < 16\<close> by (auto simp: of_char_hex_digit split: if_splits)
qed

definition hex_text :: "string \<Rightarrow> bool" where
  "hex_text s \<longleftrightarrow> s \<noteq> [] \<and> (\<forall>c \<in> set s. \<exists>d < 16. c = hex_digit d)"

lemma hex_text_plain:
  assumes "hex_text s" and "c \<in> set s"
  shows "\<not> py_space c" and "c \<notin> {CHR ''-'', CHR ''+'', CHR ''_'', CHR ''x'', CHR ''X''}"
proof -
  obtain d where d: "d < 16" and c: "c = hex_digit d" using assms by (auto simp: hex_text_def)
  show "\<not> py_space c" "c \<notin> {CHR ''-'', CHR ''+'', CHR ''_'', CHR ''x'', CHR ''X''}"
    unfolding c by (rule hex_digit_space [OF d], rule hex_digit_plain [OF d])
qed

lemma hex_text_bytes: "bs \<noteq> [] \<Longrightarrow> hex_text (hex_string bs)"
  unfolding hex_text_def
  by (intro conjI ballI hex_string_digits) (auto simp: hex_string_def hex_byte_def neq_Nil_conv)

fun nat_of_be :: "nat \<Rightarrow> bytes \<Rightarrow> nat" where
  "nat_of_be acc [] = acc"
| "nat_of_be acc (b # bs) = nat_of_be (256 * acc + unat b) bs"

lemma nat_of_be_append: "nat_of_be acc (as @ bs) = nat_of_be (nat_of_be acc as) bs"
  by (induction as arbitrary: acc) simp_all

lemma nat_of_be_rev: "nat_of_be 0 (rev bs) = nat_of_le bs"
  by (induction bs) (simp_all add: nat_of_be_append)

lemma digits_hex_string: "digits_value 16 acc (hex_string bs) = Some (nat_of_be acc bs)"
proof (induction bs arbitrary: acc)
  case (Cons b bs)
  have sum: "16 * (16 * acc + unat b div 16) + unat b mod 16 = 256 * acc + unat b" by presburger
  have "digits_value 16 acc (hex_string (b # bs)) =
      digits_value 16 (16 * (16 * acc + unat b div 16) + unat b mod 16) (hex_string bs)"
    using byte_nibbles [of b] by (simp add: hex_byte_def to_digit_hex)
  then show ?case unfolding sum by (simp only: Cons nat_of_be.simps)
qed (simp add: hex_string_def)

lemma contains_no: "CHR ''_'' \<notin> set s \<Longrightarrow> \<not> str_contains s ''__''"
  by (induction s) auto

lemma strip_plain: "\<forall>c \<in> set s. \<not> py_space c \<Longrightarrow> py_strip s = s"
proof -
  assume s: "\<forall>c \<in> set s. \<not> py_space c"
  have "dropWhile py_space s = s" using s by (cases s) simp_all
  moreover have "dropWhile py_space (rev s) = rev s" using s by (cases s rule: rev_cases) simp_all
  ultimately show "py_strip s = s" by (simp add: py_strip_def)
qed

lemma int_of_digits:
  assumes "hex_text s" and "digits_value 16 0 s = Some n"
  shows "py_int_text 16 s = Ok (int n)" and "py_int_text 16 (''0x'' @ s) = Ok (int n)"
proof -
  obtain c cs where s: "s = c # cs" using assms(1) by (cases s) (auto simp: hex_text_def)
  note plain = hex_text_plain [OF assms(1)]
  have under: "CHR ''_'' \<notin> set s"
    using plain(2) [of "CHR ''_''"] by auto
  have no_prefix: "\<not> str_prefix [a, b] s" if "b \<in> {CHR ''x'', CHR ''X''}" for a b
  proof
    assume "str_prefix [a, b] s"
    then have "b \<in> set s" unfolding s by (cases cs) simp_all
    from plain(2) [OF this] that show False by blast
  qed
  have filter_id: "filter (\<lambda>x. x \<noteq> CHR ''_'') s = s" using under by (auto simp: filter_id_conv)
  have "last s \<noteq> CHR ''_''" "hd s \<noteq> CHR ''_''"
    using under last_in_set [of s] by (auto simp: s)
  then have digits: "plain_digits s = Some s"
    unfolding plain_digits_def filter_id using contains_no [OF under] by (simp add: s)
  have magnitude: "py_magnitude 16 s = Some n"
    unfolding py_magnitude_def Let_def using assms(2) no_prefix digits by simp
  have strip: "py_strip s = s"
    by (rule strip_plain) (use plain(1) in blast)
  have "c \<noteq> CHR ''-''" "c \<noteq> CHR ''+''"
    using plain(2) [of c] by (simp_all add: s)
  then show "py_int_text 16 s = Ok (int n)"
    unfolding py_int_text_def strip Let_def using magnitude by (simp add: s ok_or_def)
  have "py_strip (''0x'' @ s) = ''0x'' @ s"
    by (rule strip_plain) (use plain(1) in \<open>auto simp: py_space_def\<close>)
  moreover have "removeprefix ''_'' s = s"
    using under by (simp add: removeprefix_def s)
  then have "py_magnitude 16 (''0x'' @ s) = Some n"
    unfolding py_magnitude_def Let_def using assms(2) digits by simp
  ultimately show "py_int_text 16 (''0x'' @ s) = Ok (int n)"
    unfolding py_int_text_def Let_def by (simp add: ok_or_def)
qed

lemma int_of_hex: "bs \<noteq> [] \<Longrightarrow> py_int_text 16 (hex_string bs) = Ok (int (nat_of_be 0 bs))"
  by (rule int_of_digits [OF hex_text_bytes digits_hex_string])

lemma show_hex_text: "hex_text (show_hex n) \<and> digits_value 16 0 (show_hex n) = Some n"
proof (induction n rule: show_hex.induct)
  case (1 n)
  have last: "n mod 16 < 16" by simp
  show ?case
  proof (cases "n < 16")
    case True
    then show ?thesis by (auto simp: show_hex.simps [of n] hex_text_def to_digit_hex)
  next
    case False
    then show ?thesis
      using 1 to_digit_hex [OF last] by (auto simp: show_hex.simps [of n] hex_text_def digits_value_append intro: last)
  qed
qed

lemma hex_int_hex: "0 \<le> n \<Longrightarrow> hex_int (JStr (py_hex n)) = Ok n"
  using int_of_digits(2) [of "show_hex (nat n)" "nat n"] show_hex_text by (simp add: hex_int_def py_hex_def)

lemma int_of_word: "py_int_text 16 (hex_string (to_be_bytes (v :: u256))) = Ok (uint v)"
proof -
  have "length (to_be_bytes v) = 32" by simp
  then have nonempty: "to_be_bytes v \<noteq> []" by (metis list.size(3) zero_neq_numeral)
  have whole: "8 * (LENGTH(256) div 8) = LENGTH(256)" by simp
  have "nat_of_be 0 (to_be_bytes v) = unat v"
    by (simp only: to_be_bytes_def to_le_bytes_def nat_of_be_rev nat_of_le_nat pow256 whole mod_less [OF unat_less])
  then show ?thesis using int_of_hex [OF nonempty] by (simp only: uint_nat)
qed

section \<open>The data of a deposit\<close>

text \<open>
  The layout that Solidity gives the two members of \<open>Deposit\<close> that are not indexed: the amount, the
  offset of the text, its length, and its bytes padded with zeros to whole words.
\<close>

definition deposit_data :: "u256 \<Rightarrow> bytes \<Rightarrow> bytes" where
  "deposit_data amount destination =
     to_be_bytes amount @ to_be_bytes (64 :: u256) @ to_be_bytes (of_nat (length destination) :: u256) @
     destination @ replicate ((32 - length destination mod 32) mod 32) 0"

lemma slice_append:
  "length a = n \<Longrightarrow> length m = k \<Longrightarrow> py_slice (int n) (int n + int k) (a @ m @ z) = m"
  by (simp add: py_slice_def py_bound_def nat_add_distrib)

lemma deposit_data_decodes:
  assumes "length destination < 2 ^ 256"
  shows "decode_deposit (''0x'' @ hex_string (deposit_data amount destination)) =
           py_then (py_decode destination) (\<lambda>text. Ok (uint amount, text))"
proof -
  let ?n = "of_nat (length destination) :: u256"
  define A B L D Z where "A = hex_string (to_be_bytes amount)" and "B = hex_string (to_be_bytes (64 :: u256))"
    and "L = hex_string (to_be_bytes ?n)" and "D = hex_string destination"
    and "Z = hex_string (replicate ((32 - length destination mod 32) mod 32) 0)"
  have raw: "hex_string (deposit_data amount destination) = A @ B @ L @ D @ Z"
    by (simp add: deposit_data_def hex_string_append A_def B_def L_def D_def Z_def)
  have len: "length A = 64" "length B = 64" "length L = 64" "length D = 2 * length destination"
    by (simp_all add: A_def B_def L_def D_def)
  have "uint ?n = int (length destination)"
    using assms by (simp add: unsigned_of_nat take_bit_nat_eq_self flip: of_nat_take_bit)
  then have numbers: "py_int_text 16 A = Ok (uint amount)" "py_int_text 16 B = Ok 64"
    "py_int_text 16 L = Ok (int (length destination))"
    unfolding A_def B_def L_def int_of_word by simp_all
  have slices: "py_slice 0 64 (A @ B @ L @ D @ Z) = A" "py_slice 64 128 (A @ B @ L @ D @ Z) = B"
    "py_slice 128 192 (A @ B @ L @ D @ Z) = L"
    "py_slice 192 (192 + int (length destination) * 2) (A @ B @ L @ D @ Z) = D"
    using slice_append [of "[]" 0 A 64 "B @ L @ D @ Z"] slice_append [of A 64 B 64 "L @ D @ Z"]
      slice_append [of "A @ B" 128 L 64 "D @ Z"] slice_append [of "A @ B @ L" 192 D "2 * length destination" Z] len
    by (simp_all add: mult.commute)
  have "fromhex D = Some destination" by (simp add: D_def fromhex_hex_string)
  then show ?thesis
    unfolding decode_deposit_def raw by (simp add: Let_def len numbers slices ok_or_def)
qed

text \<open>
  The entry of \<open>eth_getLogs\<close> for an event that was emitted in the transaction \<open>tx\<close> of the block \<open>n\<close>: the indexed
  members are topics, the others data.
\<close>

definition topic :: "u256 \<Rightarrow> json" where
  "topic v = JStr (''0x'' @ hex_string (to_be_bytes v))"

primrec event_topics :: "bridge_event \<Rightarrow> json list" where
  "event_topics (Deposit i sender amount destination) = [topic i, topic (ucast sender)]"
| "event_topics (Release i recipient amount) = [topic i, topic (ucast recipient)]"

primrec event_data :: "bridge_event \<Rightarrow> bytes" where
  "event_data (Deposit i sender amount destination) = deposit_data amount (str_bytes destination)"
| "event_data (Release i recipient amount) = to_be_bytes amount"

definition event_entry :: "string \<Rightarrow> string \<Rightarrow> int \<Rightarrow> bridge_event \<Rightarrow> json" where
  "event_entry signature_topic tx n e =
     JObj [(''topics'', JArr (JStr signature_topic # event_topics e)), (''data'', JStr (''0x'' @ hex_string (event_data e))),
           (''transactionHash'', JStr (''0x'' @ tx)), (''blockNumber'', JStr (py_hex n))]"

lemma lower_hex: "to_ascii_lowercase (hex_string bs) = hex_string bs"
proof -
  have "ascii_lower (hex_digit d) = hex_digit d" if "d < 16" for d
    using that by (auto simp: ascii_lower_def of_char_hex_digit Let_def)
  then show ?thesis
    using hex_string_digits [of _ bs] by (auto simp: to_ascii_lowercase_def intro!: map_idI)
qed

lemma deposit_entry_row:
  assumes "length destination < 2 ^ 256" and "0 \<le> n"
  shows "row_of_log asset now (event_entry signature_topic tx n (Deposit i sender amount destination)) =
           (if utf8_ok (map of_char destination)
            then Ok (Some (new_row (hex_string (to_be_bytes i)) Inbound asset destination destination
                   (show_int (uint amount)) tx n now))
            else Err ''UnicodeDecodeError'')"
  using assms deposit_data_decodes [of "str_bytes destination" amount] hex_int_hex [of n]
  by (simp add: row_of_log_def event_entry_def topic_def py_get_def py_len_def py_index_def as_str_def py_decode_def
      removeprefix_def lower_hex unat_str_bytes)

text \<open>
  C38. A deposit is read as the contract emitted it: a call of \<open>deposit\<close> that succeeds adds one event, and
  the row that the relayer makes of it has the identifier, the amount and the destination of the call.
  A destination that is not UTF-8, which the contract accepts, raises an exception instead.
\<close>

theorem deposit_event_read:
  assumes "weth_deposit sender amount i destination w = Ok w'" and "length destination < 2 ^ 256" and "0 \<le> n"
  shows "\<exists>e. ew_events w' = ew_events w @ [e] \<and>
           row_of_log asset now (event_entry signature_topic tx n e) =
             (if utf8_ok (map of_char destination)
              then Ok (Some (new_row (hex_string (to_be_bytes i)) Inbound asset destination destination
                     (show_int (uint amount)) tx n now))
              else Err ''UnicodeDecodeError'')"
  using assms(1) deposit_entry_row [OF assms(2,3)]
  by (intro exI [of _ "Deposit i sender amount destination"]) (auto simp: weth_deposit_def emit_def split: if_splits)

definition toy_escrow :: eth_world where
  "toy_escrow = \<lparr>ew_balance = (\<lambda>_. 100), ew_bridge =
     \<lparr>wb_relayer = 3, wb_deposits = (\<lambda>_. False), wb_releases = (\<lambda>_. False)\<rparr>, ew_events = []\<rparr>"

theorem deposit_event_read_witness:
  "\<exists>e w'. weth_deposit 7 10 1 ''wsc1x'' toy_escrow = Ok w' \<and> ew_events w' = [e] \<and>
     row_of_log ''ethereum:WETH'' 0 (event_entry ''t'' ''abc'' 5 e) =
       Ok (Some (new_row (hex_string (to_be_bytes (1 :: u256))) Inbound ''ethereum:WETH'' ''wsc1x'' ''wsc1x'' ''10'' ''abc'' 5 0))"
proof -
  obtain w' where w': "weth_deposit 7 10 1 ''wsc1x'' toy_escrow = Ok w'"
    by (simp add: weth_deposit_def toy_escrow_def)
  have ascii: "utf8_ok (map of_char ''wsc1x'')" by code_simp
  have ten: "show_int (uint (10 :: u256)) = ''10''" by code_simp
  show ?thesis
    using deposit_event_read [OF w', of 5 "''ethereum:WETH''" 0 "''t''" "''abc''"] w' ascii ten
    by (auto simp: toy_escrow_def)
qed

end
