(* ===== verification/Relayer_Safety.thy ===== *)
theory Relayer_Safety
  imports Relayer_Events Solana_Bridge
begin

text \<open>
  What the relayer guarantees and where it fails: an operation keeps the terms under which it was first
  recorded; the event of a deposit is read as the contract wrote it; a single deposit whose destination
  is not UTF-8 stops the relayer for good; a log line of any program counts as a deposit; and burns of
  tokens are paid from the escrow of ether.
\<close>

section \<open>A relayer to try it on\<close>

definition toy_relayer_config :: relayer_config where
  "toy_relayer_config =
     \<lparr>rc_eth_rpc_url = ''eth'', rc_wsc_rpc_url = ''wsc'', rc_bridge_contract = ''0xb'', rc_deposit_topic = ''0xd'',
      rc_usdc_contract = [], rc_usdc_topic = [], rc_usdc_asset = ''ethereum:USDC'', rc_operator_token = ''t'',
      rc_weth_asset = ''ethereum:WETH'', rc_confirmations = 12, rc_start_block = None, rc_account = ''a'',
      rc_keystore_dir = ''k'', rc_password_file = [], rc_cast = ''cast'', rc_solana_mode = ''program'',
      rc_solana_rpc_url = ''sol'', rc_vault = ''v'', rc_vault_keypair = [], rc_program = ''prog'', rc_authority = ''auth'',
      rc_client = ''client'', rc_wsol_mint = ''m'', rc_spl_mint = [], rc_spl_vault = [], rc_network = ''devnet'',
      rc_commitment = ''finalized'', rc_mna_enabled = False, rc_mna_asset = ''solana:SOL'', rc_mna_price = 0,
      rc_oracle_url = [], rc_oracle_max_age = 120, rc_fee_bps = 50, rc_solana_cli = ''solana'',
      rc_wsol_asset = ''solana:WSOL:devnet''\<rparr>"

text \<open>The chain is at block 30, and block 9 has a deposit to the single byte 255.\<close>

definition toy_relayer_ext :: "nat relayer_ext" where
  "toy_relayer_ext =
     \<lparr>x_post = (\<lambda>url method params w.
        (if method = ''eth_blockNumber'' then Ok (JObj [(''result'', JStr (py_hex 30))])
         else if method = ''eth_getLogs''
         then Ok (JObj [(''result'', JArr [event_entry ''0xd'' ''abc'' 9 (Deposit 1 7 10 [CHR 0xFF])])])
         else Err ''refused'', w + 1)),
      x_fetch = (\<lambda>url w. (Err ''refused'', w)), x_run = (\<lambda>command w. (Err ''FileNotFoundError'', w)),
      x_clock = (\<lambda>w. (real w, w + 1)), x_keystore = (\<lambda>p w. False), x_loads = (\<lambda>t. Ok JNull),
      x_repr = (\<lambda>v. []), x_sha256_text = (\<lambda>t. t), x_sol_text = show_int\<rparr>"

definition toy_relay_row :: relay_row where
  "toy_relay_row = new_row ''op'' Inbound ''ethereum:WETH'' ''wsc1x'' ''wsc1x'' ''10'' ''tx'' 3 1"

definition toy_relayer :: "nat relayer" where
  "toy_relayer = \<lparr>rl_world = 0, rl_operations = [toy_relay_row], rl_eth_cursor = Some 5, rl_solana_cursor = Some ''g''\<rparr>"

section \<open>The terms of an operation\<close>

definition terms :: "relay_row \<Rightarrow> relay_direction \<times> string \<times> string \<times> string \<times> string \<times> string" where
  "terms row = (rr_direction row, rr_asset row, rr_address row, rr_destination row, rr_amount row, rr_external row)"

text \<open>The table only grows, and neither identifiers nor terms change.\<close>

definition table_grows :: "'w relayer \<Rightarrow> 'w relayer \<Rightarrow> bool" where
  "table_grows s s' \<longleftrightarrow>
     (distinct (map rr_id (rl_operations s)) \<longrightarrow> distinct (map rr_id (rl_operations s'))) \<and>
     (\<forall>row \<in> set (rl_operations s). \<exists>row' \<in> set (rl_operations s'). rr_id row' = rr_id row \<and> terms row' = terms row)"

named_theorems grows_intro \<open>steps of the relayer after which the table has grown\<close>

lemma grows_refl [grows_intro]: "table_grows s s"
  by (auto simp: table_grows_def)

lemma grows_trans:
  assumes "table_grows s s'" and "table_grows s' s''"
  shows "table_grows s s''"
  unfolding table_grows_def
proof (intro conjI impI ballI)
  fix row assume "row \<in> set (rl_operations s)"
  then obtain row' where "row' \<in> set (rl_operations s')" "rr_id row' = rr_id row" "terms row' = terms row"
    using assms(1) by (auto simp: table_grows_def)
  moreover then obtain row'' where "row'' \<in> set (rl_operations s'')" "rr_id row'' = rr_id row'" "terms row'' = terms row'"
    using assms(2) by (auto simp: table_grows_def)
  ultimately show "\<exists>row'' \<in> set (rl_operations s''). rr_id row'' = rr_id row \<and> terms row'' = terms row"
    by (intro bexI [of _ row'']) simp_all
qed (use assms in \<open>simp add: table_grows_def\<close>)

lemma grows_same: "rl_operations s' = rl_operations s \<Longrightarrow> table_grows s s'"
  by (auto simp: table_grows_def)

lemma grows_insert [grows_intro]: "table_grows s (insert_row row s)"
  by (auto simp: table_grows_def insert_row_def)

lemma grows_update [grows_intro]:
  assumes "\<And>row. rr_id (f row) = rr_id row \<and> terms (f row) = terms row"
  shows "table_grows s (update_row i f s)"
  unfolding table_grows_def
proof (intro conjI impI ballI)
  have "map rr_id (rl_operations (update_row i f s)) = map rr_id (rl_operations s)"
    using assms by (simp add: update_row_def comp_def if_distrib cong: if_cong)
  then show "distinct (map rr_id (rl_operations s)) \<Longrightarrow> distinct (map rr_id (rl_operations (update_row i f s)))"
    by simp
next
  fix row assume "row \<in> set (rl_operations s)"
  then have "(if rr_id row = i then f row else row) \<in> set (rl_operations (update_row i f s))"
    by (simp add: update_row_def)
  then show "\<exists>row' \<in> set (rl_operations (update_row i f s)). rr_id row' = rr_id row \<and> terms row' = terms row"
    by (rule bexI [rotated]) (use assms in simp)
qed

text \<open>Sequencing, for functions whose result is paired with the state.\<close>

lemma grows_then [grows_intro]:
  assumes "table_grows s (snd r)" and "\<And>a. fst r = Ok a \<Longrightarrow> table_grows (snd r) (snd (f a (snd r)))"
  shows "table_grows s (snd (try_then r f))"
  using assms grows_trans by (cases r; cases "fst r") (auto simp: try_then_def)

lemma grows_lift [grows_intro]: "table_grows s (snd (r, s))"
  by (simp add: grows_refl)

lemma grows_rpc [grows_intro]: "table_grows s (snd (relay_rpc R url method params s))"
proof -
  have "rl_operations (snd (relay_rpc R url method params s)) = rl_operations s"
    by (auto simp: relay_rpc_def try_then_def split: prod.split sum.split)
  then show ?thesis by (rule grows_same)
qed

lemma grows_time: "relay_time R s = (t, s') \<Longrightarrow> table_grows s s'"
  by (rule grows_same) (auto simp: relay_time_def split: prod.splits)

lemma grows_run [grows_intro]: "table_grows s (snd (relay_command R command s))"
  by (rule grows_same) (auto simp: relay_command_def split: prod.split)

lemma grows_cursor [grows_intro]:
  "table_grows s s' \<Longrightarrow> table_grows s (s'\<lparr>rl_eth_cursor := v\<rparr>)" "table_grows s s' \<Longrightarrow> table_grows s (s'\<lparr>rl_solana_cursor := g\<rparr>)"
  by (auto simp: table_grows_def)

lemma grows_case_time [grows_intro]:
  assumes "\<And>t s'. relay_time R s = (t, s') \<Longrightarrow> table_grows s' (snd (f t s'))"
  shows "table_grows s (snd (case relay_time R s of (t, s') \<Rightarrow> f t s'))"
  using assms grows_time grows_trans by (cases "relay_time R s") fastforce

lemma grows_if [grows_intro]:
  "(b \<Longrightarrow> table_grows s (snd x)) \<Longrightarrow> (\<not> b \<Longrightarrow> table_grows s (snd y)) \<Longrightarrow> table_grows s (snd (if b then x else y))"
  by simp

lemma grows_record_logs [grows_intro]: "table_grows s (snd (record_logs asset now logs s))"
proof (induction logs arbitrary: s)
  case (Cons entry logs)
  then show ?case using grows_trans [OF grows_insert] by (auto split: sum.split option.split intro: grows_refl)
qed (simp add: grows_refl)

lemma grows_scan [grows_intro]: "table_grows s (snd (scan_sources R C from_block to_block now sources s))"
proof (induction sources arbitrary: s)
  case (Cons source sources)
  obtain contract topic asset where "source = (contract, topic, asset)" by (rule prod_cases3)
  then show ?case by (auto intro!: grows_intro Cons.IH)
qed (simp add: grows_refl)

lemma grows_discover [grows_intro]: "table_grows s (snd (discover_deposits R C from_block to_block s))"
  unfolding discover_deposits_def by (intro grows_intro)

lemma grows_eth_cursor [grows_intro]: "table_grows s (snd (eth_cursor R C s))"
  unfolding eth_cursor_def by (auto intro!: grows_intro split: option.split)

lemma grows_ethereum [grows_intro]: "table_grows s (snd (scan_ethereum R C s))"
  unfolding scan_ethereum_def Let_def by (auto intro!: grows_intro)

lemma grows_solana_call [grows_intro]: "table_grows s (snd (solana_call R C method params s))"
  unfolding solana_call_def by (intro grows_intro)

lemma grows_solana_cursor [grows_intro]: "table_grows s (snd (solana_cursor R C s))"
  unfolding solana_cursor_def Let_def by (auto intro!: grows_intro split: option.split)

lemma grows_item [grows_intro]: "table_grows s (snd (record_item R C now item s))"
  unfolding record_item_def by (auto intro!: grows_intro split: prod.split option.split)

lemma grows_items [grows_intro]: "table_grows s (snd (record_items R C now items s))"
proof (induction items arbitrary: s)
  case (Cons item items)
  show ?case by (auto intro!: grows_intro Cons.IH)
qed (simp add: grows_refl)

lemma grows_solana [grows_intro]: "table_grows s (snd (discover_solana_deposits R C s))"
  unfolding discover_solana_deposits_def Let_def by (auto intro!: grows_intro)

lemma grows_burns [grows_intro]: "table_grows s (snd (record_burns now vs s))"
proof (induction vs arbitrary: s)
  case (Cons v vs)
  show ?case
    by (auto simp: Let_def intro!: grows_intro Cons.IH grows_trans [OF grows_insert Cons.IH])
qed (simp add: grows_refl)

lemma grows_discover_burns [grows_intro]: "table_grows s (snd (discover_burns R C s))"
  unfolding discover_burns_def by (auto intro!: grows_intro)

lemma grows_oracle [grows_intro]: "table_grows s (snd (oracle_snapshot R C s))"
proof (cases "rc_oracle_url C = []")
  case True
  then show ?thesis
    by (auto simp: oracle_snapshot_def intro!: grows_intro)
next
  case False
  obtain r w where fetch: "x_fetch R (rc_oracle_url C) (rl_world s) = (r, w)" by fastforce
  have world: "table_grows s (s\<lparr>rl_world := w\<rparr>)"
    by (rule grows_same) simp
  show ?thesis
    unfolding oracle_snapshot_def Let_def
    by (auto simp: False fetch intro!: grows_intro grows_trans [OF world] split: json.split)
qed

lemma grows_mint [grows_intro]: "table_grows s (snd (submit_mint R C row s))"
  unfolding submit_mint_def Let_def by (auto intro!: grows_intro split: prod.split)

lemma grows_solana_release [grows_intro]: "table_grows s (snd (submit_solana_release R C row s))"
  unfolding submit_solana_release_def by (auto intro!: grows_intro split: prod.split)

lemma grows_release [grows_intro]: "table_grows s (snd (submit_release R C row s))"
  unfolding submit_release_def by (auto intro!: grows_intro split: prod.split)

lemma grows_error [grows_intro]: "table_grows s (mark_error R i e s)"
proof -
  obtain now s' where "relay_time R s = (now, s')" by fastforce
  moreover from this have "table_grows s s'" by (rule grows_time)
  ultimately show ?thesis
    by (auto simp: mark_error_def Let_def terms_def intro!: grows_trans [OF _ grows_update])
qed

lemma grows_complete [grows_intro]: "table_grows s (complete_row R i s)"
proof -
  obtain now s' where "relay_time R s = (now, s')" by fastforce
  moreover from this have "table_grows s s'" by (rule grows_time)
  ultimately show ?thesis
    by (auto simp: complete_row_def terms_def intro!: grows_trans [OF _ grows_update])
qed

lemma grows_submit [grows_intro]: "table_grows s (submit_row R C now row s)"
proof -
  define p where "p = (if rr_direction row = Inbound then submit_mint R C row s else submit_release R C row s)"
  have "table_grows s (snd p)"
    by (auto simp: p_def intro!: grows_intro)
  then show ?thesis
    unfolding submit_row_def p_def [symmetric]
    by (cases p; cases "fst p") (auto simp: terms_def intro!: grows_trans [OF _ grows_error] grows_trans [OF _ grows_update])
qed

lemma grows_follow [grows_intro]: "table_grows s (follow_row R C row s)"
proof -
  define p where "p = try_then (relay_rpc R (rc_wsc_rpc_url C) ''bridge_operation_status''
    (JObj [(''operation_id'', JStr (rr_id row))]) s) (\<lambda>result s. (py_get result ''status'' JNull, s))"
  have "table_grows s (snd p)"
    unfolding p_def by (intro grows_intro)
  then show ?thesis
    unfolding follow_row_def p_def [symmetric]
    by (cases p; cases "fst p") (auto intro!: grows_complete grows_trans [OF _ grows_error] grows_trans [OF _ grows_complete])
qed

lemma grows_fold: "(\<And>x s. table_grows s (f x s)) \<Longrightarrow> table_grows s (fold f xs s)"
  by (induction xs arbitrary: s) (auto intro: grows_refl grows_trans)

lemma grows_process [grows_intro]: "table_grows s (process_operations R C s)"
proof -
  obtain now s' where t: "relay_time R s = (now, s')" by fastforce
  show ?thesis
    unfolding process_operations_def t Let_def prod.case
    by (intro grows_trans [OF grows_time [OF t]] grows_trans [OF grows_fold grows_fold] grows_submit grows_follow)
qed

lemma grows_round [grows_intro]: "table_grows s (snd (relay_round R C s))"
  unfolding relay_round_def by (auto intro!: grows_intro)

text \<open>Any number of rounds, whether they fail or not.\<close>

definition relay_rounds :: "('w, 'a) relayer_ext_scheme \<Rightarrow> relayer_config \<Rightarrow> nat \<Rightarrow> 'w relayer \<Rightarrow> 'w relayer" where
  "relay_rounds R C n = ((\<lambda>s. snd (relay_round R C s)) ^^ n)"

lemma grows_rounds: "table_grows s (relay_rounds R C n s)"
  by (induction n) (auto simp: relay_rounds_def intro: grows_refl grows_trans [OF _ grows_round])

text \<open>
  C39. An operation keeps the terms under which it was first recorded: after any number of rounds,
  whatever the chains and the node answer, each identifier stands for one operation, and for those that
  were known it is the one with the same direction, asset, receiver, amount and transaction. So an event
  that is read again changes nothing, and a deposit under a known identifier is not relayed.
\<close>

theorem operation_terms_fixed:
  assumes "distinct (map rr_id (rl_operations s))"
  shows "distinct (map rr_id (rl_operations (relay_rounds R C n s))) \<and>
         (\<forall>row \<in> set (rl_operations s). \<exists>row' \<in> set (rl_operations (relay_rounds R C n s)).
            rr_id row' = rr_id row \<and> terms row' = terms row)"
  using grows_rounds [of s R C n] assms by (simp add: table_grows_def)

theorem operation_terms_fixed_witness:
  "\<exists>row \<in> set (rl_operations (relay_rounds toy_relayer_ext toy_relayer_config 3 toy_relayer)).
     rr_id row = ''op'' \<and> rr_amount row = ''10''"
  using operation_terms_fixed [of toy_relayer toy_relayer_ext toy_relayer_config 3]
  by (auto simp: toy_relayer_def toy_relay_row_def terms_def new_row_def)

section \<open>A deposit that cannot be read\<close>

text \<open>Nothing but rows that wait to be submitted was added, and the cursor of Ethereum is where it was.\<close>

definition waits :: "'w relayer \<Rightarrow> 'w relayer \<Rightarrow> bool" where
  "waits s s' \<longleftrightarrow>
     rl_eth_cursor s' = rl_eth_cursor s \<and>
     (\<forall>row \<in> set (rl_operations s'). row \<in> set (rl_operations s) \<or> rr_status row = Detected)"

lemma waits_refl: "waits s s"
  by (simp add: waits_def)

lemma waits_trans: "waits s s' \<Longrightarrow> waits s' s'' \<Longrightarrow> waits s s''"
  by (auto simp: waits_def)

lemma waits_insert: "rr_status row = Detected \<Longrightarrow> waits s (insert_row row s)"
  by (auto simp: waits_def insert_row_def)

lemma waits_rpc: "relay_rpc R url method params s = (r, s') \<Longrightarrow> waits s s'"
  by (auto simp: relay_rpc_def try_then_def waits_def split: prod.splits sum.splits if_splits)

lemma waits_time: "relay_time R s = (t, s') \<Longrightarrow> waits s s'"
  by (auto simp: relay_time_def waits_def split: prod.splits)

lemma row_of_log_detected: "row_of_log asset now entry = Ok (Some row) \<Longrightarrow> rr_status row = Detected"
  by (auto simp: row_of_log_def py_then_Ok new_row_def split: if_splits)

lemma waits_record_logs: "waits s (snd (record_logs asset now logs s))"
proof (induction logs arbitrary: s)
  case (Cons entry logs)
  show ?case
    by (auto split: sum.split option.split
        intro: waits_refl Cons waits_trans [OF waits_insert [OF row_of_log_detected] Cons])
qed (simp add: waits_refl)

text \<open>One entry that raises ends the loop over the entries.\<close>

lemma record_logs_fails:
  "entry \<in> set logs \<Longrightarrow> row_of_log asset now entry = Err e \<Longrightarrow> \<exists>e'. fst (record_logs asset now logs s) = Err e'"
  by (induction logs arbitrary: s) (auto split: sum.split option.split)

text \<open>
  A block with a deposit whose destination is not UTF-8: whenever the range of a query covers the
  block, the query fails or the answer holds the event.
\<close>

definition unreadable_block :: "('w, 'a) relayer_ext_scheme \<Rightarrow> relayer_config \<Rightarrow> int \<Rightarrow> bool" where
  "unreadable_block R C b \<longleftrightarrow>
     0 \<le> b \<and>
     (\<forall>s first_block last_block v s'. first_block \<le> b \<and> b \<le> last_block \<and>
        relay_rpc R (rc_eth_rpc_url C) ''eth_getLogs''
          (log_query (rc_bridge_contract C) (rc_deposit_topic C) first_block last_block) s = (Ok v, s') \<longrightarrow>
        (\<exists>logs tx i sender amount destination.
           v = JArr logs \<and> event_entry (rc_deposit_topic C) tx b (Deposit i sender amount destination) \<in> set logs \<and>
           length destination < 2 ^ 256 \<and> \<not> utf8_ok (map of_char destination)))"

text \<open>A block that is behind the confirmations in every answer of the node.\<close>

definition deep_block :: "('w, 'a) relayer_ext_scheme \<Rightarrow> relayer_config \<Rightarrow> int \<Rightarrow> bool" where
  "deep_block R C b \<longleftrightarrow>
     (\<forall>s v s' tip. relay_rpc R (rc_eth_rpc_url C) ''eth_blockNumber'' (JArr []) s = (Ok v, s') \<and> hex_int v = Ok tip \<longrightarrow>
        b \<le> tip - rc_confirmations C)"

lemma scan_stops:
  assumes "unreadable_block R C b" and "first_block \<le> b" and "b \<le> last_block"
  shows "\<exists>e s'. discover_deposits R C first_block last_block s = (Err e, s') \<and> waits s s'"
proof -
  obtain now s1 where t: "relay_time R s = (now, s1)" by fastforce
  obtain sources where sources: "deposit_sources C = (rc_bridge_contract C, rc_deposit_topic C, rc_weth_asset C) # sources"
    by (simp add: deposit_sources_def)
  obtain r s2 where r: "relay_rpc R (rc_eth_rpc_url C) ''eth_getLogs''
      (log_query (rc_bridge_contract C) (rc_deposit_topic C) first_block last_block) s1 = (r, s2)" by fastforce
  have s2: "waits s s2" using waits_trans [OF waits_time [OF t] waits_rpc [OF r]] .
  have d: "discover_deposits R C first_block last_block s = scan_sources R C first_block last_block now (deposit_sources C) s1"
    using assms(2,3) by (simp add: discover_deposits_def t)
  show ?thesis
  proof (cases r)
    case (Inl e)
    then show ?thesis using s2 by (simp add: d sources r try_then_def)
  next
    case (Inr v)
    then obtain logs tx i sender amount destination where v: "v = JArr logs"
      and entry: "event_entry (rc_deposit_topic C) tx b (Deposit i sender amount destination) \<in> set logs"
      and bad: "length destination < 2 ^ 256" "\<not> utf8_ok (map of_char destination)" and "0 \<le> b"
      using assms r unfolding unreadable_block_def by blast
    then obtain e where e: "fst (record_logs (rc_weth_asset C) now logs s2) = Err e"
      using record_logs_fails [OF entry] deposit_entry_row by metis
    then obtain s3 where s3: "record_logs (rc_weth_asset C) now logs s2 = (Err e, s3)" by (metis prod.collapse)
    have "waits s s3" using waits_trans [OF s2 waits_record_logs, of "rc_weth_asset C" now logs] s3 by simp
    moreover have "py_iter (py_or v (JArr [])) = Ok logs" by (simp add: v py_or_def py_iter_def)
    ultimately show ?thesis by (simp add: d sources r Inr try_then_def s3)
  qed
qed

lemma round_stops:
  assumes "unreadable_block R C b" and "rl_eth_cursor s = Some c" and "c \<le> b"
    and "deep_block R C b"
  shows "\<exists>e s'. relay_round R C s = (Err e, s') \<and> waits s s'"
proof -
  obtain r s1 where r: "relay_rpc R (rc_eth_rpc_url C) ''eth_blockNumber'' (JArr []) s = (r, s1)" by fastforce
  have s1: "waits s s1" using r by (rule waits_rpc)
  show ?thesis
  proof (cases r)
    case (Inl e)
    then show ?thesis using s1 by (simp add: relay_round_def scan_ethereum_def r try_then_def)
  next
    case (Inr v)
    show ?thesis
    proof (cases "hex_int v")
      case (Inl e)
      then show ?thesis using s1 Inr by (simp add: relay_round_def scan_ethereum_def r try_then_def)
    next
      case number: (Inr tip)
      then have tip: "b \<le> tip - rc_confirmations C" using assms(4) r Inr unfolding deep_block_def by blast
      have cursor: "eth_cursor R C s1 = (Ok c, s1)" using s1 assms(2) by (simp add: eth_cursor_def waits_def)
      obtain e s2 where s2: "discover_deposits R C c (tip - rc_confirmations C) s1 = (Err e, s2)" "waits s1 s2"
        using scan_stops [OF assms(1,3) tip] by blast
      then show ?thesis
        using waits_trans [OF s1 s2(2)] tip assms(3)
        by (simp add: relay_round_def scan_ethereum_def r Inr number try_then_def cursor)
    qed
  qed
qed

text \<open>
  C40. One deposit whose destination is not UTF-8 stops the relayer for good. The contract accepts it; from
  the time that its block is deep enough every round fails, the cursor never passes the block, and no
  operation is ever submitted or completed: every row is as it was or still waits.
\<close>

theorem unreadable_deposit_halts:
  assumes "unreadable_block R C b" and "rl_eth_cursor s = Some c" and "c \<le> b" and "deep_block R C b"
  shows "rl_eth_cursor (relay_rounds R C n s) = Some c \<and>
    (\<exists>e. fst (relay_round R C (relay_rounds R C n s)) = Err e) \<and>
    (\<forall>row \<in> set (rl_operations (relay_rounds R C n s)). row \<in> set (rl_operations s) \<or> rr_status row = Detected)"
proof -
  have "waits s (relay_rounds R C n s)"
  proof (induction n)
    case 0
    then show ?case by (simp add: relay_rounds_def waits_refl)
  next
    case (Suc n)
    then have "rl_eth_cursor (relay_rounds R C n s) = Some c" using assms(2) by (simp add: waits_def)
    from round_stops [OF assms(1) this assms(3,4)] obtain e s' where
      "relay_round R C (relay_rounds R C n s) = (Err e, s')" "waits (relay_rounds R C n s) s'" by blast
    then show ?case using waits_trans [OF Suc] by (simp add: relay_rounds_def)
  qed
  moreover from this have cursor: "rl_eth_cursor (relay_rounds R C n s) = Some c" using assms(2) by (simp add: waits_def)
  ultimately show ?thesis
    using round_stops [OF assms(1) cursor assms(3,4)] by (auto simp: waits_def)
qed

lemma toy_rpc:
  "relay_rpc toy_relayer_ext url ''eth_getLogs'' params s =
     (Ok (JArr [event_entry ''0xd'' ''abc'' 9 (Deposit 1 7 10 [CHR 0xFF])]), s\<lparr>rl_world := rl_world s + 1\<rparr>)"
  "relay_rpc toy_relayer_ext url ''eth_blockNumber'' params s = (Ok (JStr (py_hex 30)), s\<lparr>rl_world := rl_world s + 1\<rparr>)"
  by (simp_all add: relay_rpc_def toy_relayer_ext_def try_then_def py_get_def)

theorem unreadable_deposit_halts_witness:
  "rl_eth_cursor (relay_rounds toy_relayer_ext toy_relayer_config 1000 toy_relayer) = Some 5"
proof -
  have "\<not> utf8_ok (map of_char [CHR 0xFF])" by simp
  then have "unreadable_block toy_relayer_ext toy_relayer_config 9"
    unfolding unreadable_block_def
    by (intro conjI allI impI exI [of _ "[event_entry ''0xd'' ''abc'' 9 (Deposit 1 7 10 [CHR 0xFF])]"]
        exI [of _ "''abc''"] exI [of _ "1 :: bytes32"] exI [of _ "7 :: eth_address"] exI [of _ "10 :: u256"]
        exI [of _ "[CHR 0xFF]"])
      (simp_all add: toy_relayer_config_def toy_rpc)
  moreover have "deep_block toy_relayer_ext toy_relayer_config 9"
    by (auto simp: deep_block_def toy_relayer_config_def toy_rpc hex_int_hex)
  ultimately show ?thesis
    using unreadable_deposit_halts [of toy_relayer_ext toy_relayer_config 9 toy_relayer 5 1000] by (simp add: toy_relayer_def)
qed

section \<open>Lines that look like deposits\<close>

lemma re_search_skip:
  assumes "\<And>c cs. c \<noteq> CHR ''I'' \<Longrightarrow> m (c # cs) = None" and "CHR ''I'' \<notin> set p"
  shows "re_search m (p @ t) = re_search m t"
  using assms(2)
proof (induction p)
  case (Cons c p)
  then have "m (c # p @ t) = None" by (intro assms(1)) auto
  then show ?case using Cons by simp
qed simp

lemma deposit_pattern_starts: "c \<noteq> CHR ''I'' \<Longrightarrow> deposit_pattern ''INTERTRAIN_WSOL_DEPOSIT'' (c # cs) = None"
  by (simp add: deposit_pattern_def re_literal_def)

lemma show_nat_run: "show_nat n \<noteq> [] \<and> list_all py_digit (show_nat n)"
  using show_nat_digits [of _ n] to_digit_char
  by (fastforce simp: show_nat_nonempty list_all_iff py_digit_def)

lemma hex_string_hexdigits: "list_all py_hexdigit (hex_string bs)"
  using hex_string_digits [of _ bs] to_digit_hex by (fastforce simp: list_all_iff py_hexdigit_def)

text \<open>The line of a native deposit, as the bridge program writes it, matches the pattern at its start.\<close>

lemma deposit_line_matches:
  assumes "x_hex X raw = hex_string raw" and "length raw = 32" and "d \<noteq> []"
    and "list_all not_space (bytes_str d)" and "rest = [] \<or> \<not> not_space (hd rest)"
  shows "deposit_pattern ''INTERTRAIN_WSOL_DEPOSIT'' (lock_native_log X TAG_LOCK_NATIVE_SOL raw amount d @ rest) =
           Some (hex_string raw, int (unat amount), bytes_str d)"
proof -
  let ?tail = "'' destination='' @ bytes_str d @ rest"
  let ?digits = "show_nat (unat amount)"
  have split: "lock_native_log X TAG_LOCK_NATIVE_SOL raw amount d @ rest =
      (''INTERTRAIN_WSOL_DEPOSIT'' @ '' id='') @ hex_string raw @ '' amount='' @ ?digits @ ?tail"
    by (simp add: lock_native_log_def assms(1) TAG_LOCK_NATIVE_SOL_def TAG_LOCK_NATIVE_SOL_MNA_def)
  have run: "re_run py_digit k (?digits @ ?tail) = k ?digits ?tail" for k :: "string \<Rightarrow> string \<Rightarrow> (string \<times> int \<times> string) option"
    by (rule re_run_append) (use show_nat_run in \<open>simp_all add: py_digit_def to_digit_def\<close>)
  have "bytes_str d \<noteq> []" using assms(3) by (simp add: bytes_str_def)
  then have last: "re_run not_space k (bytes_str d @ rest) = k (bytes_str d) rest"
    for k :: "string \<Rightarrow> string \<Rightarrow> (string \<times> int \<times> string) option"
    by (intro re_run_append assms(4,5))
  have hex: "re_exactly 64 py_hexdigit k (hex_string raw @ t) = k (hex_string raw) t"
    for k :: "string \<Rightarrow> string \<Rightarrow> (string \<times> int \<times> string) option" and t
    by (rule re_exactly_append) (simp_all add: assms(2) hex_string_hexdigits)
  show ?thesis
    unfolding deposit_pattern_def split re_literal_append hex run last
    by (simp add: lower_hex number_of_def digits_value_show)
qed

lemma first_log_skip:
  assumes "\<And>t. t \<in> set before \<Longrightarrow> re_search m t = None" and "re_search m t = Some a"
  shows "first_log m (map JStr before @ JStr t # after) = Ok (Some a)"
  using assms by (induction before) (simp_all add: py_str_def)

text \<open>
  A line of the log counts as a deposit whoever wrote it. In program mode a transaction that calls the
  bridge program in any way, and whose log has a line with the text of a deposit after any text without
  an I, such as the line that the memo program logs, is recorded with the amount that the line names.
  The balance of the vault is not looked at; a line before that of the program itself wins.
\<close>

theorem claimed_deposit_recorded:
  assumes "\<not> rc_mna_enabled C" and "solana_program_called C transaction = Ok True"
    and "program_log spl_pattern transaction = Ok None"
    and "py_then (get_or transaction ''meta'' (JObj [])) (\<lambda>meta. py_then (get_or meta ''logMessages'' (JArr [])) py_iter) =
           Ok (map JStr before @ JStr (p @ lock_native_log X TAG_LOCK_NATIVE_SOL raw amount d @ rest) # after)"
    and "\<And>t. t \<in> set before \<Longrightarrow> re_search (deposit_pattern ''INTERTRAIN_WSOL_DEPOSIT'') t = None"
    and "CHR ''I'' \<notin> set p" and "x_hex X raw = hex_string raw" and "length raw = 32" and "d \<noteq> []"
    and "list_all not_space (bytes_str d)" and "rest = [] \<or> \<not> not_space (hd rest)"
  shows "program_deposit C transaction =
           Ok (Some (hex_string raw, int (unat amount), bytes_str d, rc_wsol_asset C))"
proof -
  have "re_search (deposit_pattern ''INTERTRAIN_WSOL_DEPOSIT'')
      (p @ lock_native_log X TAG_LOCK_NATIVE_SOL raw amount d @ rest) = Some (hex_string raw, int (unat amount), bytes_str d)"
    using re_search_skip [where m = "deposit_pattern ''INTERTRAIN_WSOL_DEPOSIT''", OF deposit_pattern_starts assms(6)] re_search_here [where m = "deposit_pattern ''INTERTRAIN_WSOL_DEPOSIT''", OF deposit_line_matches [OF assms(7-11)]]
    by simp
  from first_log_skip [OF assms(5) this] have "program_log (deposit_pattern ''INTERTRAIN_WSOL_DEPOSIT'') transaction =
      Ok (Some (hex_string raw, int (unat amount), bytes_str d))"
    using assms(4) by (auto simp: program_log_def py_then_def split: sum.splits)
  then show ?thesis
    by (simp add: program_deposit_def assms(1-3))
qed

definition toy_log_format :: sol_ext where
  "toy_log_format = \<lparr>x_token_program = [], x_create_address = (\<lambda>p seeds. None), x_find_pda = (\<lambda>p seeds. ([], 0)),
     x_minimum_balance = of_nat, x_hex = hex_string, x_base58 = (\<lambda>k. ''key''),
     x_invoke = (\<lambda>p i infos seeds st. Ok st)\<rparr>"

text \<open>A memo that names a deposit of 900 lamports, in a transaction that also calls the bridge.\<close>

definition toy_memo_line :: string where
  "toy_memo_line = ''Program log: Memo (len 140): '' @
     lock_native_log toy_log_format TAG_LOCK_NATIVE_SOL (replicate 32 7) 900 (str_bytes ''wsc1x'') @ '' ''"

definition toy_transaction :: json where
  "toy_transaction =
     JObj [(''meta'', JObj [(''logMessages'', JArr [JStr toy_memo_line])]),
           (''transaction'', JObj [(''message'', JObj [(''instructions'', JArr [JObj [(''programId'', JStr ''prog'')]])])])]"

lemma toy_memo_text:
  "toy_memo_line = ''Program log: Memo (len 140): INTERTRAIN_WSOL_DEPOSIT id=0707070707070707070707070707070707070707070707070707070707070707 amount=900 destination=wsc1x ''"
  by code_simp

lemma spl_pattern_starts: "c \<noteq> CHR ''I'' \<Longrightarrow> spl_pattern (c # cs) = None"
  by (simp add: spl_pattern_def re_literal_def)

lemma spl_pattern_I: "\<not> str_prefix ''NTERTRAIN_SPL_DEPOSIT id='' cs \<Longrightarrow> spl_pattern (CHR ''I'' # cs) = None"
  by (simp add: spl_pattern_def re_literal_def)

lemma toy_memo_no_token: "re_search spl_pattern toy_memo_line = None"
proof -
  have "spl_pattern [] = None" by (simp add: spl_pattern_def re_literal_def)
  then show ?thesis by (simp add: toy_memo_text spl_pattern_starts spl_pattern_I)
qed

theorem claimed_deposit_recorded_witness:
  "program_deposit toy_relayer_config toy_transaction =
     Ok (Some (hex_string (replicate 32 7), int (unat (900 :: u64)), bytes_str (str_bytes ''wsc1x''), ''solana:WSOL:devnet''))"
proof -
  have messages: "py_then (get_or toy_transaction ''meta'' (JObj [])) (\<lambda>meta. py_then (get_or meta ''logMessages'' (JArr [])) py_iter) =
      Ok (map JStr [] @ JStr toy_memo_line # [])"
    by (simp add: toy_transaction_def get_or_def py_get_def py_or_def py_iter_def)
  then have spl: "program_log spl_pattern toy_transaction = Ok None"
    by (auto simp: program_log_def py_then_def py_str_def toy_memo_no_token split: sum.splits)
  have called: "solana_program_called toy_relayer_config toy_transaction = Ok True" by code_simp
  have mna: "\<not> rc_mna_enabled toy_relayer_config" by (simp add: toy_relayer_config_def)
  have hex: "x_hex toy_log_format (replicate 32 7) = hex_string (replicate 32 7)" by (simp add: toy_log_format_def)
  have dest: "list_all not_space (bytes_str (str_bytes ''wsc1x''))" "str_bytes ''wsc1x'' \<noteq> []"
    by (simp_all add: not_space_def py_space_def) (simp add: str_bytes_def)
  have "program_deposit toy_relayer_config toy_transaction = Ok (Some (hex_string (replicate 32 7), int (unat (900 :: u64)),
      bytes_str (str_bytes ''wsc1x''), rc_wsol_asset toy_relayer_config))"
    by (rule claimed_deposit_recorded [OF mna called spl messages [unfolded toy_memo_line_def] _ _ hex _ dest(2,1)])
      (simp_all add: not_space_def py_space_def)
  then show ?thesis by (simp only: toy_relayer_config_def relayer_config.simps)
qed

section \<open>Burns that are paid wrongly or never\<close>

text \<open>
  A burn of any asset that is not wrapped SOL is paid by the escrow of ether, with the number of the
  burnt units as wei: also one of USDC.
\<close>

lemma burn_paid_in_ether:
  assumes "\<not> str_prefix ''solana:WSOL:'' (rr_asset row)" and "ethereum_recipient (rr_destination row) = Ok recipient"
  shows "\<exists>options. cast_command R C row recipient (rl_world s) =
           [rc_cast C, ''send'', rc_bridge_contract C, ''release(bytes32,address,uint256)'', ''0x'' @ rr_id row,
            recipient, rr_amount row] @ options \<and>
         submit_release R C row s =
           try_then (relay_command R (cast_command R C row recipient (rl_world s)) s) (\<lambda>(code, out, problems) s.
             if code \<noteq> 0 then (Err ''RuntimeError'', s) else try_then (x_loads R out, s) (\<lambda>_ s. (Ok (), s)))"
  using assms by (simp add: cast_command_def submit_release_def try_then_def)

text \<open>
  A burn of the SPL token is not: \<open>submit_release\<close> sends only wrapped SOL to Solana, although
  \<open>submit_solana_release\<close> has a command for the token; a Solana key is no Ethereum address.
\<close>

lemma spl_burn_not_released:
  assumes "rr_asset row = spl_asset C" and "solana_recipient (rr_destination row) = Ok recipient"
  shows "submit_release R C row s = (Err ''ValueError'', s)"
proof -
  have "\<not> str_prefix ''solana:WSOL:'' (rr_asset row)" by (simp add: assms(1) spl_asset_def)
  moreover have "\<not> str_prefix ''0x'' (rr_destination row)"
  proof
    assume "str_prefix ''0x'' (rr_destination row)"
    then have "CHR ''0'' \<in> set (rr_destination row)" by (auto simp: str_prefix_iff)
    then have "base58_char (CHR ''0'')" using assms(2) by (auto simp: solana_recipient_def list_all_iff split: if_splits)
    then show False by (simp add: base58_char_def)
  qed
  ultimately show ?thesis by (simp add: submit_release_def ethereum_recipient_def try_then_def)
qed

end
