(* ===== verification/Spec2Isabelle.thy ===== *)
theory Spec2Isabelle
  imports Full_Node Solana_Client Rpc_Requests Command_Line It_Tool Relayer_Safety
begin

text \<open>
  Worldstreet Chain, verified. The program is a small blockchain node: a ledger of accounts, tokens,
  bridged assets, a collateral reserve and uploaded programs; blocks of signed operations over it; a
  store, a peer-to-peer network, a JSON-RPC server and command-line tools; on Solana a bridge
  program with its client, on Ethereum two escrow contracts, and a relayer between them and the node. This library translates that code into Isabelle definitions, file by file
  and function by function, under the names that the code uses, and proves what makes it correct, and
  where it is not.

  \<^bold>\<open>How the parts work together.\<close> A request reaches \<open>wsc-rpc\<close> (or a message \<open>wsc-network\<close>), which locks the
  shared \<open>Node\<close> of \<open>wsc-node\<close> and submits an operation. The node asks the \<open>State\<close> of \<open>wsc-state\<close> whether the
  operation is valid and queues it. Producing a block applies the queues to a copy of the state, hashes
  the operations and the state (\<open>wsc-crypto\<close>), signs the header when a proposer key is given and commits
  block and snapshot to the \<open>Store\<close> of \<open>wsc-storage\<close> before it replaces the state. Importing a block of a
  peer replays it and compares every root. Votes (\<open>wsc-consensus\<close>) mark stored blocks as final.
  \<open>wsc-cli\<close> makes data directories, wallets and devnets and starts nodes, \<open>it\<close> builds and runs program
  packages (\<open>wsc-program\<close>), \<open>wsc-bridge\<close> reads external chains. Deposits in the escrows are events that the
  relayer turns into mints over the JSON-RPC, burns on the node become its releases from the escrows.

  \<^bold>\<open>Theories and sources.\<close>
  \<^item> \<open>Prelude\<close>, \<open>BTree_Map\<close>, \<open>Text_Parsing\<close>, \<open>Files\<close>: Rust's integers (words, with \<open>checked_\<close> and \<open>saturating_\<close>
    operations), results (sums), ordered maps (sorted association lists), strings (UTF-8 bytes, one
    \<open>char\<close> each), number parsing, and \<open>std::fs\<close> on a disk whose calls may fail.
  \<^item> \<open>Core_Types\<close> (\<open>wsc-core\<close>), \<open>Crypto\<close> (\<open>wsc-crypto\<close>), \<open>Consensus\<close> (\<open>wsc-consensus\<close>), \<open>Program_Package\<close> and
    \<open>Program_Frontend\<close> (\<open>wsc-program\<close>), \<open>Storage\<close> (\<open>wsc-storage\<close>), \<open>Wallet\<close> (\<open>wsc-wallet\<close>), \<open>Bridge_Config\<close> (\<open>wsc-bridge\<close>).
  \<^item> \<open>wsc-state\<close>: \<open>State\<close> is the record with its snapshots and roots; the six lanes of operations are
    \<open>Transfers\<close>, \<open>Asset_Operations\<close>, \<open>Token_Operations\<close>, \<open>Mna_Reserve\<close> (swaps and reserve operations) and
    \<open>Program_Operations\<close>; \<open>Operation_Lane\<close> is the contract that they share; \<open>Ledger\<close> puts them together.
  \<^item> \<open>wsc-node\<close>: \<open>Mempool\<close> and \<open>Node\<close> hold the definitions, \<open>Node_Loop\<close> the loop of \<open>node start\<close>, \<open>Node_Files\<close> the
    configuration and genesis files; \<open>Block_Import\<close>, \<open>Replication\<close>, \<open>Block_Production\<close>, \<open>Block_Rejection\<close> and
    \<open>Node_Consistency\<close> their properties.
  \<^item> \<open>wsc-network\<close>: \<open>Network\<close> (frames, handshake, handlers), \<open>Network_Properties\<close>.
  \<^item> \<open>wsc-rpc\<close>: \<open>Rpc_Parsing\<close> (parameters), \<open>Rpc_Views\<close> (answers), \<open>Rpc_Login\<close> (challenges, rate limit, shared
    context), \<open>Rpc_Handlers\<close> and \<open>Rpc_Service\<close> (the methods and the dispatch table), \<open>Rpc_Safety\<close> and
    \<open>Rpc_Requests\<close> (properties). \<open>Full_Node\<close> is the process: server, producer and connections over one shared node.
  \<^item> \<open>wsc-cli\<close>: \<open>Wallet_Commands\<close>, \<open>Devnet\<close>, \<open>Command_Line\<close>; \<open>wsc-it\<close>: \<open>It_Tool\<close>.
  \<^item> \<open>contracts/solana\<close>: \<open>Solana_Bridge\<close> (the program), \<open>Solana_Safety\<close> (its runs), \<open>Solana_Client\<close> (the client and
    its agreement with the program).
  \<^item> \<open>contracts/ethereum\<close>: \<open>Ethereum_Bridge\<close> (\<open>IntertrainWethBridge\<close>, with recipients that call back) and
    \<open>Ethereum_Reserve\<close> (\<open>IntertrainUsdcReserve\<close>).
  \<^item> \<open>ops/wsc-relayer.py\<close>: \<open>Python_Values\<close> (what it uses of Python), \<open>Relayer\<close> (its rounds), \<open>Relayer_Events\<close> (how it
    reads the events of the contracts), \<open>Relayer_Safety\<close> (what it guarantees and where it fails).

  \<^bold>\<open>State and operations.\<close> A struct is a \<open>record\<close> with one field per member, an enum a \<open>datatype\<close> with the
  source's variants, \<open>u8\<close> to \<open>u128\<close> are words of that width, so wrap-around and saturation are those of
  the machine. A method on \<open>&self\<close> is a function of the record; a method on \<open>&mut self\<close> returns its result
  paired with the record it leaves behind, also after an error: what a failing call has already
  changed is visible, and several properties are about exactly that. Every early return is a branch
  with the error of the source. The context of the server, shared behind locks, is one record passed
  through the handlers. The process of a node is a machine (\<open>full_step\<close>) whose events are requests, turns of
  the producer and turns of the tasks of connections; a task is its list of critical sections, and the
  sections of all tasks interleave freely (\<open>full_reach\<close>; \<open>node_reach\<close>, \<open>ledger_reach\<close>, \<open>vote_reach\<close> and \<open>sol_run\<close> are the machines of
  the parts; \<open>ledger_reach\<close> carries the operations that were applied). A panic while a lock is held poisons it (\<open>rx_poisoned\<close>). The one place where two locks of a request can be
  interleaved with another request, the login, is split in two steps (\<open>verify_check\<close>, \<open>verify_finish\<close>).
\<close>

text \<open>
  \<^bold>\<open>Interfaces.\<close> \<open>balance_book\<close> (in \<open>BTree_Map\<close>) is what the sums of balances need of a map of accounts, and is
  interpreted on the native accounts and on every asset; \<open>operation_lane\<close> is what block production and
  replay need of a lane (an applied identifier stays processed and is not applied again), interpreted
  on the lanes; \<open>block_store\<close> is what a commit promises to later reads, interpreted on the store;
  \<open>two_thirds_quorums\<close> is the counting behind finality, interpreted on the vote sets; \<open>node_section\<close> is a critical
  section that makes one call of the node, interpreted on imports, submissions and finalizations.

  \<^bold>\<open>Outside code.\<close> What is not in the repository is a parameter: a field of one of the records
  \<open>crypto_ext\<close> (SHA-256, HMAC, Ed25519, Bech32m, Postcard of what is hashed), \<open>program_ext\<close> (WASM engine and
  validator, JSON of the manifest), \<open>state_ext\<close> and \<open>storage_ext\<close> (Postcard of snapshots and blocks, the sled
  database), \<open>message_ext\<close> (Postcard of messages), \<open>rpc_ext\<close> and \<open>bridge_ext\<close> (serde, hex, Base64, one HTTP
  exchange), \<open>wallet_ext\<close> (Argon2, XChaCha20-Poly1305, BIP-39), \<open>files_ext\<close> (serde of the two configuration
  files), \<open>cli_ext\<close>, \<open>client_ext\<close> and \<open>sol_ext\<close> (Solana: derived addresses, rent, calls into other programs),
  \<open>erc20_ext\<close> (the token of the reserve), \<open>relayer_ext\<close> (HTTP, subprocesses, clock, \<open>json\<close> and \<open>hashlib\<close>).
  A theorem that relies on documented behaviour of such code names it: \<open>digests_ok\<close>, \<open>store_laws\<close>,
  \<open>package_ext_ok\<close>, \<open>base64_ok\<close>, \<open>aead_ok\<close>, \<open>json_files_ok\<close>, \<open>ed25519_ok\<close>, \<open>runtime_ok\<close> and others, each a statement
  about the functions of the record; \<open>collision_free\<close> is asked only of the finitely many byte strings that
  are hashed. Every theorem with hypotheses is followed by a witness that applies it to concrete
  instances (\<open>toy_\<dots>\<close>), where they all hold.

  \<^bold>\<open>What is shown.\<close>
  \<^item> Ledger: supplies respect caps and the program registry is sound in every reachable state, and token
    balances add up to the supplies while the bridge does not name an asset of the tokens' namespace;
    transfers other than the devnet faucet's move exactly what they say, need the sender's signature and never apply twice,
    and valid ones succeed; tokens are minted by their mint authority only, and debited only with a signature of the
    account or by such a burn of the bridge; swaps and reserve operations keep the collateral
    rule; programs change only by their creator and stay closed.
  \<^item> Node: an imported block extends the chain, carries the roots of its operations and a failing import
    changes nothing; a produced block is accepted by every peer in the same state that can store it, when the producer's
    queues are clean; nodes that import the same blocks agree; while the store does not fail, a restart recovers the node.
  \<^item> Network: frames round trip, a lagging peer catches up, votes are only cast for stored blocks and
    finality needs the received votes of at least two thirds of the validators (\<open>vote_reach\<close> carries the votes a node
    received). As a check of the two readings of one loop, the sections of a connection that has the node to itself,
    run in order, give what \<open>serve_connection\<close> gives.
  \<^item> Server: each request is no call of the node or one submission of its kind; logins need the right
    signature over a stored challenge.
  \<^item> Process: every interleaving of requests, production and connections is a run of the node over its
    methods, so while the store does not fail the node agrees with it and a restart at any point recovers it.
  \<^item> Tools: a created key store opens again and no wallet command overwrites a file; a devnet is made of
    nodes with one genesis, whose proposers hold the written secrets; a built program runs.
  \<^item> Solana: the vault holds at least the deposits less the releases, identifiers are used once, a release is signed by the
    authority and pays its recipient account; the
    client's instructions pass the program's checks.
  \<^item> Ethereum: the escrows cover the deposits, also when recipients of releases call back, and no identifier is
    used twice.
  \<^item> Relayer: a deposit is read as the contract emitted it; recorded operations keep their terms.
  \<^item> Defects, each proved from the definitions: for instance \<open>queued_operation_forks\<close>, \<open>first_vote_poisons\<close>,
    \<open>large_balance_stops_process\<close>, \<open>reserve_requests_never_queue\<close>, \<open>validator_loop_ends\<close>, \<open>second_init_locks_node\<close>,
    \<open>spl_release_never_succeeds\<close>, \<open>forged_mint_breaks_books\<close>, \<open>lost_commit_not_repaired\<close>,
    \<open>unreadable_deposit_halts\<close>, \<open>claimed_deposit_recorded\<close>, \<open>burn_paid_in_ether\<close>, \<open>spl_burn_not_released\<close>.

  \<^bold>\<open>Termination.\<close> No definition uses fuel. Loops over lists are structural; \<open>merkle_loop\<close>, \<open>from_hash_loop\<close>,
  \<open>serve_loop\<close> and \<open>run_task\<close> (the bytes of the connection still to be read), \<open>utf8_chars\<close> and \<open>trim_start_str\<close> have a measure
  that is proved to decrease. The loop of \<open>node start\<close> may run for ever and is a \<open>partial_function\<close> into
  \<open>option\<close>, where not returning is \<open>None\<close>. The relayer's endless loop is any number of its rounds (\<open>relay_rounds\<close>).

  \<^bold>\<open>Not modelled.\<close> Sockets, HTTP routing, the Tokio runtime and the waiting of timeouts: a connection is the bytes that arrive on
  it, a request its parsed parameters. clap's parsing of arguments. \<open>Store::open\<close> and the files of sled: the
  database is a value whose reads, writes and flush may fail. Wiping of secrets from memory. Links and
  \<open>..\<close> in paths. The panics of arithmetic in a debug build: the definitions follow the release build, as
  each theory notes where it matters. The fuzz targets hold no logic of their own. Of the
  relayer the health file and the reading of its environment; its SQLite database does not fail, and it
  is not restarted. Gas on Ethereum. The TypeScript clients, web pages and shell scripts only call what is
  modelled. In the bridge crate
  \<open>BridgeOperation\<close> and its status are data that no code uses.
\<close>

end
